(* ===== verification/Prelude.thy ===== *)
theory Prelude
  imports Main
begin

text \<open>
  Shared vocabulary of the development.

  \<^item> \<open>uuid\<close> is the integer value of a Python \<open>UUID\<close> (\<open>UUID.int\<close>); the order of uuids in
    Postgres and the order of their canonical text are the order of these integers.
  \<^item> \<open>time\<close> is a UTC instant in microseconds.
  \<^item> A tool call that can raise returns a sum: \<open>Inl\<close> the exception, \<open>Inr\<close> the result.
    \<open>session_scope\<close> commits on success and rolls back on an exception, so a call whose
    value is \<open>Inl\<close> leaves the database as it was; \<open>bindE\<close> and \<open>raise_if\<close> sequence
    the statements of such a call.
  \<^item> A table is the list of its rows. \<open>lookup\<close> is a primary-key select,
    \<open>update_where\<close> and \<open>delete_where\<close> are the SQL statements of these names, \<open>filter\<close> is a
    select with a where clause.
\<close>

type_synonym uuid = nat
type_synonym time = int

subsection \<open>Fallible statements\<close>

named_theorems res_simps \<open>inversion of the statement combinators\<close>

definition bindE :: "'e + 'a \<Rightarrow> ('a \<Rightarrow> 'e + 'b) \<Rightarrow> 'e + 'b" where
  "bindE m f = (case m of Inl e \<Rightarrow> Inl e | Inr x \<Rightarrow> f x)"

definition raise_if :: "bool \<Rightarrow> 'e \<Rightarrow> 'e + unit" where
  "raise_if b e = (if b then Inl e else Inr ())"

definition some_or :: "'e \<Rightarrow> 'a option \<Rightarrow> 'e + 'a" where
  "some_or e x = (case x of None \<Rightarrow> Inl e | Some y \<Rightarrow> Inr y)"

lemma bindE_simps [simp]:
  "bindE (Inl e) f = Inl e"
  "bindE (Inr x) f = f x"
  by (simp_all add: bindE_def)

lemma raise_if_simps [simp]:
  "raise_if True e = Inl e"
  "raise_if False e = Inr ()"
  by (simp_all add: raise_if_def)

lemma some_or_simps [simp]:
  "some_or e None = Inl e"
  "some_or e (Some x) = Inr x"
  by (simp_all add: some_or_def)

lemma bindE_eq_Inr [res_simps]: "bindE m f = Inr y \<longleftrightarrow> (\<exists>x. m = Inr x \<and> f x = Inr y)"
  by (cases m) auto

lemma bindE_eq_Inl [res_simps]:
  "bindE m f = Inl e \<longleftrightarrow> m = Inl e \<or> (\<exists>x. m = Inr x \<and> f x = Inl e)"
  by (cases m) auto

lemma raise_if_eq_Inr [res_simps]: "raise_if b e = Inr u \<longleftrightarrow> \<not> b"
  by (simp add: raise_if_def)

lemma raise_if_eq_Inl [res_simps]: "raise_if b e = Inl e' \<longleftrightarrow> b \<and> e' = e"
  by (auto simp: raise_if_def)

lemma some_or_eq_Inr [res_simps]: "some_or e x = Inr y \<longleftrightarrow> x = Some y"
  by (simp add: some_or_def split: option.splits)

lemma some_or_eq_Inl [res_simps]: "some_or e x = Inl e' \<longleftrightarrow> x = None \<and> e' = e"
  by (auto simp: some_or_def split: option.splits)

lemma bindE_InrE:
  assumes "bindE m f = Inr y"
  obtains x where "m = Inr x" "f x = Inr y"
  using assms by (auto simp: bindE_eq_Inr)

lemma bindE_pair_InrE:
  assumes "bindE m (\<lambda>(a, b). f a b) = Inr y"
  obtains a b where "m = Inr (a, b)" "f a b = Inr y"
  using assms by (auto simp: bindE_eq_Inr)

lemma bindE_triple_InrE:
  assumes "bindE m (\<lambda>(a, b, c). f a b c) = Inr y"
  obtains a b c where "m = Inr (a, b, c)" "f a b c = Inr y"
  using assms by (auto simp: bindE_eq_Inr)

lemmas bindE_elims = bindE_triple_InrE bindE_pair_InrE bindE_InrE

lemma bindE_cong [fundef_cong]:
  "m = m' \<Longrightarrow> (\<And>x. m' = Inr x \<Longrightarrow> f x = g x) \<Longrightarrow> bindE m f = bindE m' g"
  by (cases m') auto

subsection \<open>Tables\<close>

definition lookup :: "('r \<Rightarrow> 'k) \<Rightarrow> 'k \<Rightarrow> 'r list \<Rightarrow> 'r option" where
  "lookup key k rows = find (\<lambda>r. key r = k) rows"

definition update_where :: "('r \<Rightarrow> bool) \<Rightarrow> ('r \<Rightarrow> 'r) \<Rightarrow> 'r list \<Rightarrow> 'r list" where
  "update_where P f rows = map (\<lambda>r. if P r then f r else r) rows"

definition delete_where :: "('r \<Rightarrow> bool) \<Rightarrow> 'r list \<Rightarrow> 'r list" where
  "delete_where P rows = filter (\<lambda>r. \<not> P r) rows"

lemma lookup_code [simp]:
  "lookup key k [] = None"
  "lookup key k (r # rows) = (if key r = k then Some r else lookup key k rows)"
  by (simp_all add: lookup_def)

lemma update_where_code [simp]:
  "update_where P f [] = []"
  "update_where P f (r # rows) = (if P r then f r else r) # update_where P f rows"
  by (simp_all add: update_where_def)

lemma delete_where_code [simp]:
  "delete_where P [] = []"
  "delete_where P (r # rows) = (if P r then delete_where P rows else r # delete_where P rows)"
  by (simp_all add: delete_where_def)

lemma find_SomeD: "find P xs = Some x \<Longrightarrow> P x \<and> x \<in> set xs"
  by (auto simp: find_Some_iff)

lemma lookup_SomeD: "lookup key k rows = Some r \<Longrightarrow> r \<in> set rows \<and> key r = k"
  by (induction rows) (auto split: if_splits)

lemma lookup_None_iff: "lookup key k rows = None \<longleftrightarrow> (\<forall>r \<in> set rows. key r \<noteq> k)"
  by (induction rows) auto

lemma lookup_append:
  "lookup key k (xs @ ys) = (case lookup key k xs of None \<Rightarrow> lookup key k ys | Some r \<Rightarrow> Some r)"
  by (induction xs) auto

lemma lookup_update_where:
  assumes "\<And>r. key (f r) = key r"
  shows "lookup key k (update_where P f rows)
    = map_option (\<lambda>r. if P r then f r else r) (lookup key k rows)"
  by (induction rows) (auto simp: assms)

lemma lookup_delete_where_key:
  "lookup key k (delete_where (\<lambda>r. key r = i) rows) = (if k = i then None else lookup key k rows)"
  by (induction rows) auto

lemma distinct_lookup:
  "distinct (map key rows) \<Longrightarrow> r \<in> set rows \<Longrightarrow> lookup key (key r) rows = Some r"
  by (induction rows) (auto split: if_splits)

lemma set_update_where: "set (update_where P f rows) = (\<lambda>r. if P r then f r else r) ` set rows"
  by (simp add: update_where_def)

lemma ball_update_where: "(\<forall>x \<in> set (update_where P f rows). Q x) \<longleftrightarrow> (\<forall>x \<in> set rows. Q (if P x then f x else x))"
  by (induction rows) auto

lemma bex_update_where: "(\<exists>x \<in> set (update_where P f rows). Q x) \<longleftrightarrow> (\<exists>x \<in> set rows. Q (if P x then f x else x))"
  by (induction rows) auto

lemma set_delete_where [simp]: "set (delete_where P rows) = {r \<in> set rows. \<not> P r}"
  by (auto simp: delete_where_def)

lemma map_key_update_where [simp]:
  assumes "\<And>r. key (f r) = key r"
  shows "map key (update_where P f rows) = map key rows"
  by (induction rows) (auto simp: assms)

lemma length_update_where [simp]: "length (update_where P f rows) = length rows"
  by (simp add: update_where_def)

lemma distinct_delete_where: "distinct (map key rows) \<Longrightarrow> distinct (map key (delete_where P rows))"
  by (simp add: delete_where_def distinct_map_filter)

subsection \<open>Python list idioms\<close>

text \<open>\<open>list(dict.fromkeys(xs))\<close>: drop repeats, keep the first occurrence.\<close>

fun dedupe :: "'a list \<Rightarrow> 'a list" where
  "dedupe [] = []"
| "dedupe (x # xs) = x # filter (\<lambda>y. y \<noteq> x) (dedupe xs)"

lemma set_dedupe [simp]: "set (dedupe xs) = set xs"
  by (induction xs) auto

lemma distinct_dedupe [simp]: "distinct (dedupe xs)"
  by (induction xs) auto

text \<open>
  \<open>str.strip()\<close>, \<open>str.lower()\<close> and \<open>str.casefold()\<close> on the characters of HOL's \<open>char\<close>
  (code points 0 to 255); the whitespace is Python's for these code points and the case
  mapping is the ASCII one.
\<close>

definition is_space :: "char \<Rightarrow> bool" where
  "is_space c = (let n = of_char c :: nat in
     (9 \<le> n \<and> n \<le> 13) \<or> (28 \<le> n \<and> n \<le> 32) \<or> n = 133 \<or> n = 160)"

definition strip :: "string \<Rightarrow> string" where
  "strip s = rev (dropWhile is_space (rev (dropWhile is_space s)))"

definition lower_char :: "char \<Rightarrow> char" where
  "lower_char c = (let n = of_char c :: nat in if 65 \<le> n \<and> n \<le> 90 then char_of (n + 32) else c)"

definition lower :: "string \<Rightarrow> string" where
  "lower s = map lower_char s"

lemma dropWhile_hd: "dropWhile P xs = y # ys \<Longrightarrow> \<not> P y"
  by (induction xs) (auto split: if_splits)

lemma strip_first: "strip s = c # cs \<Longrightarrow> \<not> is_space c"
proof -
  assume a: "strip s = c # cs"
  let ?d = "dropWhile is_space s"
  have sub: "\<exists>zs. ?d = strip s @ zs"
  proof -
    obtain us where "rev ?d = us @ dropWhile is_space (rev ?d)"
      by (metis takeWhile_dropWhile_id)
    then have "?d = strip s @ rev us"
      unfolding strip_def by (metis rev_append rev_rev_ident)
    then show ?thesis by blast
  qed
  then obtain zs where "?d = c # (cs @ zs)" using a by auto
  then show ?thesis by (rule dropWhile_hd)
qed

lemma strip_last: "strip s \<noteq> [] \<Longrightarrow> \<not> is_space (last (strip s))"
  unfolding strip_def by (simp add: last_rev hd_dropWhile)

lemma strip_idem [simp]: "strip (strip s) = strip s"
proof (cases "strip s" rule: rev_cases)
  case Nil
  show ?thesis unfolding Nil by (simp add: strip_def)
next
  case (snoc xs x)
  have "\<not> is_space x" using strip_last [of s] snoc by simp
  moreover have "dropWhile is_space (strip s) = strip s"
    by (cases "strip s") (auto dest: strip_first)
  ultimately show ?thesis using snoc by (simp add: strip_def [of "xs @ [x]"])
qed

end
