(* ===== verification/Enums.thy ===== *)
theory Enums
  imports Prelude
begin

text \<open>
  The enumerations of \<open>memory_mcp_schemas/enums.py\<close> and its two lifecycle tables. A
  Postgres text column with a CHECK constraint on the enum's values holds a value of the
  datatype; the functions ending in \<open>_value\<close> give the text of a member (\<open>StrEnum.value\<close>).
  The tables are stated against the interface \<open>absorbing\<close> (a set of statuses that no
  permitted move leaves) and interpreted on both transition functions.
\<close>

datatype memory_kind =
    MK_fact | MK_procedure | MK_playbook | MK_event | MK_decision | MK_preference
  | MK_observation | MK_journal_entry | MK_session_digest | MK_snippet | MK_message

datatype memory_status =
    MS_proposed | MS_active | MS_stale | MS_archived | MS_superseded | MS_retired

datatype decision_status = DS_proposed | DS_accepted | DS_deprecated | DS_superseded

datatype graph_node_type = NT_entity | NT_memory | NT_task

datatype outbox_aggregate_type = AT_memory | AT_entity | AT_relation | AT_env | AT_task

datatype outbox_op = OP_upsert | OP_tombstone | OP_update

datatype outbox_sink = SK_qdrant | SK_neo4j | SK_pgvector

datatype outbox_delivery_status = OD_pending | OD_in_flight | OD_done | OD_dead

datatype projection_status = PS_healthy | PS_degraded | PS_down | PS_rebuilding

datatype memory_source_type =
    SRC_session | SRC_file | SRC_import | SRC_url | SRC_llm | SRC_dream | SRC_digest
  | SRC_digest_template | SRC_user | SRC_agent | SRC_other

datatype lineage_relation =
    LR_promoted_from | LR_summarized_from | LR_copied_from | LR_moved_from | LR_supersedes
  | LR_split_from | LR_derived_from

datatype task_status = TS_pending | TS_in_progress | TS_blocked | TS_done | TS_cancelled

datatype task_relation_kind = RK_depends_on | RK_motivated_by | RK_produces | RK_references

fun memory_kind_value :: "memory_kind \<Rightarrow> string" where
  "memory_kind_value MK_fact = ''fact''"
| "memory_kind_value MK_procedure = ''procedure''"
| "memory_kind_value MK_playbook = ''playbook''"
| "memory_kind_value MK_event = ''event''"
| "memory_kind_value MK_decision = ''decision''"
| "memory_kind_value MK_preference = ''preference''"
| "memory_kind_value MK_observation = ''observation''"
| "memory_kind_value MK_journal_entry = ''journal_entry''"
| "memory_kind_value MK_session_digest = ''session_digest''"
| "memory_kind_value MK_snippet = ''snippet''"
| "memory_kind_value MK_message = ''message''"

fun memory_status_value :: "memory_status \<Rightarrow> string" where
  "memory_status_value MS_proposed = ''proposed''"
| "memory_status_value MS_active = ''active''"
| "memory_status_value MS_stale = ''stale''"
| "memory_status_value MS_archived = ''archived''"
| "memory_status_value MS_superseded = ''superseded''"
| "memory_status_value MS_retired = ''retired''"

fun node_type_value :: "graph_node_type \<Rightarrow> string" where
  "node_type_value NT_entity = ''entity''"
| "node_type_value NT_memory = ''memory''"
| "node_type_value NT_task = ''task''"

fun task_status_value :: "task_status \<Rightarrow> string" where
  "task_status_value TS_pending = ''pending''"
| "task_status_value TS_in_progress = ''in_progress''"
| "task_status_value TS_blocked = ''blocked''"
| "task_status_value TS_done = ''done''"
| "task_status_value TS_cancelled = ''cancelled''"

fun task_relation_value :: "task_relation_kind \<Rightarrow> string" where
  "task_relation_value RK_depends_on = ''depends_on''"
| "task_relation_value RK_motivated_by = ''motivated_by''"
| "task_relation_value RK_produces = ''produces''"
| "task_relation_value RK_references = ''references''"

fun lineage_relation_value :: "lineage_relation \<Rightarrow> string" where
  "lineage_relation_value LR_promoted_from = ''promoted_from''"
| "lineage_relation_value LR_summarized_from = ''summarized_from''"
| "lineage_relation_value LR_copied_from = ''copied_from''"
| "lineage_relation_value LR_moved_from = ''moved_from''"
| "lineage_relation_value LR_supersedes = ''supersedes''"
| "lineage_relation_value LR_split_from = ''split_from''"
| "lineage_relation_value LR_derived_from = ''derived_from''"

lemma memory_status_value_inject [simp]:
  "memory_status_value a = memory_status_value b \<longleftrightarrow> a = b"
  by (cases a; cases b) auto

lemma task_relation_value_inject [simp]:
  "task_relation_value a = task_relation_value b \<longleftrightarrow> a = b"
  by (cases a; cases b) auto

subsection \<open>The lifecycle tables\<close>

fun lifecycle_transitions :: "memory_status \<Rightarrow> memory_status set" where
  "lifecycle_transitions MS_proposed = {MS_active, MS_retired}"
| "lifecycle_transitions MS_active = {MS_stale, MS_archived, MS_superseded, MS_retired}"
| "lifecycle_transitions MS_stale = {MS_active, MS_archived, MS_superseded, MS_retired}"
| "lifecycle_transitions MS_archived = {MS_active, MS_superseded, MS_retired}"
| "lifecycle_transitions MS_superseded = {MS_retired}"
| "lifecycle_transitions MS_retired = {}"

definition is_valid_transition :: "memory_status \<Rightarrow> memory_status \<Rightarrow> bool" where
  "is_valid_transition src dst \<longleftrightarrow> src = dst \<or> dst \<in> lifecycle_transitions src"

fun task_transitions :: "task_status \<Rightarrow> task_status set" where
  "task_transitions TS_pending = {TS_in_progress, TS_blocked, TS_cancelled}"
| "task_transitions TS_in_progress = {TS_blocked, TS_done, TS_cancelled, TS_pending}"
| "task_transitions TS_blocked = {TS_pending, TS_in_progress, TS_cancelled}"
| "task_transitions TS_done = {}"
| "task_transitions TS_cancelled = {}"

definition is_valid_task_transition :: "task_status \<Rightarrow> task_status \<Rightarrow> bool" where
  "is_valid_task_transition src dst \<longleftrightarrow> src = dst \<or> dst \<in> task_transitions src"

text \<open>
  The contract of a transition test and a set of statuses: no permitted move leaves the
  set. The client fact is about whole histories: once a record is inside, every later
  status is inside.
\<close>

locale absorbing =
  fixes valid :: "'s \<Rightarrow> 's \<Rightarrow> bool"
    and inside :: "'s \<Rightarrow> bool"
  assumes stays: "inside s \<Longrightarrow> valid s t \<Longrightarrow> inside t"
begin

lemma history:
  assumes "inside s" and "successively valid (s # ss)"
  shows "\<forall>t \<in> set ss. inside t"
  using assms
proof (induction ss arbitrary: s)
  case Nil
  then show ?case by simp
next
  case (Cons t ts)
  then have "inside t" by (auto intro: stays)
  with Cons show ?case by auto
qed

end

text \<open>A set with a single member: the record keeps that status for ever.\<close>

locale terminal_status = absorbing valid "\<lambda>s. s = final"
  for valid :: "'s \<Rightarrow> 's \<Rightarrow> bool" and final :: 's
begin

lemma frozen: "successively valid (final # ss) \<Longrightarrow> ss = replicate (length ss) final"
  using history [of final ss] by (simp add: replicate_eqI)

end

definition hidden :: "memory_status \<Rightarrow> bool" where
  "hidden s \<longleftrightarrow> s = MS_superseded \<or> s = MS_retired"

interpretation superseded_life: absorbing is_valid_transition hidden
  by unfold_locales (auto simp: hidden_def is_valid_transition_def)

interpretation retired_life: terminal_status is_valid_transition MS_retired
  by unfold_locales (auto simp: is_valid_transition_def)

interpretation task_done_life: terminal_status is_valid_task_transition TS_done
  by unfold_locales (auto simp: is_valid_task_transition_def)

interpretation task_cancelled_life: terminal_status is_valid_task_transition TS_cancelled
  by unfold_locales (auto simp: is_valid_task_transition_def)

end
