(* ===== verification/Errors.thy ===== *)
theory Errors
  imports Enums
begin

text \<open>
  The exceptions a tool call can raise: the hierarchy of \<open>memory_mcp/errors.py\<close> (each with
  the details its constructor carries), the builtin exceptions the code raises, and the
  \<open>IntegrityError\<close> of the database with the name of the violated constraint, the
  \<open>DataError\<close> of its driver for a value of the wrong type.
  \<open>error_code\<close> is the \<open>code\<close> class attribute that the wire format shows.
\<close>

datatype error =
    UnauthorizedError
  | ForbiddenEnvError
  | EnvNotAttachedError uuid "uuid list"
  | EnvRefBothProvidedError string
  | EnvRefAmbiguousError string "uuid list"
  | EnvNotFoundError string
  | EnvAmbiguousError "uuid list"
  | VersionConflictError int int
  | InvalidTransitionError string string
  | BlastRadiusExceededError string int "uuid list"
  | NotFoundError string uuid
  | AlreadyExistsError uuid
  | SessionRequiredError
  | EmbeddingModelMismatchError string string
  | InvalidCursorError
  | InvalidInputError string
  | CycleDetectedError
  | GraphBackendUnavailableError
  | LLMUnavailableError
  | AuthorityDisabledError
  | ValidationFailedError
  | ConflictError uuid
  | EnvDeletedError uuid
  | ValueError string
  | KeyError string
  | IndexError
  | AttributeError string
  | NoResultFound
  | NotImplementedError string
  | IntegrityError string
  | DataError string
  | TypeError string
  | RuntimeError string

text \<open>
  The builtin exceptions have no \<open>code\<close>. \<open>ConflictError\<close> is declared in
  \<open>memories.py\<close>; \<open>EnvDeletedError\<close> is the \<open>NotFoundError\<close> whose \<open>code\<close> attribute
  \<open>_load_env_for_cross_env_copy\<close> overwrites.
\<close>

fun error_code :: "error \<Rightarrow> string option" where
  "error_code UnauthorizedError = Some ''UNAUTHORIZED''"
| "error_code ForbiddenEnvError = Some ''FORBIDDEN_ENV''"
| "error_code (EnvNotAttachedError _ _) = Some ''ENV_NOT_ATTACHED''"
| "error_code (EnvRefBothProvidedError _) = Some ''ENV_REF_BOTH_PROVIDED''"
| "error_code (EnvRefAmbiguousError _ _) = Some ''ENV_REF_AMBIGUOUS''"
| "error_code (EnvNotFoundError _) = Some ''ENV_NOT_FOUND''"
| "error_code (EnvAmbiguousError _) = Some ''ENV_AMBIGUOUS''"
| "error_code (VersionConflictError _ _) = Some ''VERSION_CONFLICT''"
| "error_code (InvalidTransitionError _ _) = Some ''INVALID_TRANSITION''"
| "error_code (BlastRadiusExceededError _ _ _) = Some ''BLAST_RADIUS_EXCEEDED''"
| "error_code (NotFoundError _ _) = Some ''NOT_FOUND''"
| "error_code (AlreadyExistsError _) = Some ''ALREADY_EXISTS''"
| "error_code SessionRequiredError = Some ''SESSION_REQUIRED''"
| "error_code (EmbeddingModelMismatchError _ _) = Some ''EMBEDDING_MODEL_MISMATCH''"
| "error_code InvalidCursorError = Some ''INVALID_CURSOR''"
| "error_code (InvalidInputError _) = Some ''INVALID_INPUT''"
| "error_code CycleDetectedError = Some ''CYCLE_DETECTED''"
| "error_code GraphBackendUnavailableError = Some ''GRAPH_BACKEND_UNAVAILABLE''"
| "error_code LLMUnavailableError = Some ''LLM_UNAVAILABLE''"
| "error_code AuthorityDisabledError = Some ''AUTHORITY_DISABLED''"
| "error_code ValidationFailedError = Some ''VALIDATION_FAILED''"
| "error_code (ConflictError _) = Some ''ME_REFERENCED_CANNOT_HARD_DELETE''"
| "error_code (EnvDeletedError _) = Some ''ENV_DELETED''"
| "error_code (ValueError _) = None"
| "error_code (KeyError _) = None"
| "error_code IndexError = None"
| "error_code (AttributeError _) = None"
| "error_code NoResultFound = None"
| "error_code (NotImplementedError _) = None"
| "error_code (IntegrityError _) = None"
| "error_code (DataError _) = None"
| "error_code (TypeError _) = None"
| "error_code (RuntimeError _) = None"

type_synonym 'a res = "error + 'a"

end
