(* ===== verification/Store.thy ===== *)
theory Store
  imports Complex_Main Errors
begin

text \<open>
  The canonical Postgres database: the rows of \<open>memory_mcp/db/models.py\<close>, one record per
  table, with the constraints the migrations put on them. The reference counters and
  authority columns of \<open>memories\<close> and the triggers that keep them are not part of the
  record, nor is \<open>body_tsv\<close>. JSON documents are \<open>json\<close> values; the texts \<open>str(uuid)\<close>
  and \<open>isoformat()\<close> inside them stay values of their own (\<open>JUuid\<close>, \<open>JTime\<close>).
\<close>

datatype json =
    JNull | JBool bool | JInt int | JReal real | JStr string | JUuid uuid | JTime time
  | JList "json list" | JObj "(string \<times> json) list"

type_synonym payload = "(string \<times> json) list"

definition opt_json :: "('a \<Rightarrow> json) \<Rightarrow> 'a option \<Rightarrow> json" where
  "opt_json f x = (case x of None \<Rightarrow> JNull | Some y \<Rightarrow> f y)"

text \<open>\<open>payload.get(k)\<close> and the truth value of a JSON value.\<close>

definition jget :: "payload \<Rightarrow> string \<Rightarrow> json" where
  "jget p k = (case map_of p k of None \<Rightarrow> JNull | Some v \<Rightarrow> v)"

fun truthy :: "json \<Rightarrow> bool" where
  "truthy JNull = False"
| "truthy (JBool b) = b"
| "truthy (JInt i) = (i \<noteq> 0)"
| "truthy (JReal r) = (r \<noteq> 0)"
| "truthy (JStr s) = (s \<noteq> [])"
| "truthy (JUuid _) = True"
| "truthy (JTime _) = True"
| "truthy (JList xs) = (xs \<noteq> [])"
| "truthy (JObj kvs) = (kvs \<noteq> [])"

subsection \<open>Rows\<close>

record environment =
  env_id :: uuid
  env_name :: string
  env_embedding_model :: string
  env_deleted :: bool

record memory =
  m_id :: uuid
  m_env_id :: uuid
  m_kind :: memory_kind
  m_status :: memory_status
  m_title :: "string option"
  m_body :: string
  m_trigger_description :: "string option"
  m_steps :: "string list option"
  m_macro :: "string option"
  m_salience :: real
  m_confidence :: real
  m_access_count :: int
  m_last_accessed_at :: "time option"
  m_pinned :: bool
  m_negative_feedback_count :: int
  m_verified_at :: "time option"
  m_created_at :: time
  m_updated_at :: time
  m_expires_at :: "time option"
  m_superseded_by :: "uuid option"
  m_metadata :: payload
  m_decision_meta :: "payload option"
  m_version :: int

record entity =
  e_id :: uuid
  e_env_id :: uuid
  e_kind :: string
  e_canonical_name :: string
  e_normalized_name :: string
  e_metadata :: payload
  e_created_at :: time
  e_updated_at :: time
  e_version :: int

record entity_alias =
  ea_entity_id :: uuid
  ea_env_id :: uuid
  ea_alias :: string
  ea_normalized_alias :: string

record tag =
  tag_id :: uuid
  tag_env_id :: uuid
  tag_name :: string

record memory_tag =
  mt_memory_id :: uuid
  mt_tag_id :: uuid
  mt_env_id :: uuid

record memory_source =
  src_memory_id :: uuid
  src_type :: memory_source_type
  src_ref :: "string option"
  src_agent_id :: "uuid option"
  src_evidence_span :: "string option"
  src_created_at :: time

record lineage_row =
  ln_parent :: uuid
  ln_child :: uuid
  ln_relation :: lineage_relation
  ln_created_at :: time

record tombstone =
  ts_id :: uuid
  ts_env_id :: uuid
  ts_deleted_by :: uuid
  ts_cascade_root :: "uuid option"
  ts_reason :: string
  ts_original_kind :: memory_kind
  ts_original_status :: memory_status

record audit =
  au_record_type :: string
  au_record_id :: uuid
  au_env_id :: uuid
  au_op :: string
  au_by_agent_id :: uuid
  au_before :: "payload option"
  au_after :: "payload option"

record task =
  t_id :: uuid
  t_env_id :: uuid
  t_title :: string
  t_description :: "string option"
  t_status :: task_status
  t_priority :: int
  t_playbook_id :: "uuid option"
  t_version :: int
  t_created_at :: time
  t_updated_at :: time
  t_created_by_agent_id :: uuid

record graph_node =
  gn_id :: uuid
  gn_env_id :: uuid
  gn_type :: graph_node_type
  gn_memory_id :: "uuid option"
  gn_entity_id :: "uuid option"
  gn_task_id :: "uuid option"

record relation_row =
  r_id :: uuid
  r_env_id :: uuid
  r_src_node_id :: uuid
  r_dst_node_id :: uuid
  r_type :: string
  r_properties :: payload
  r_version :: int
  r_created_at :: time
  r_updated_at :: time

record outbox_row =
  ob_event_id :: int
  ob_aggregate_type :: outbox_aggregate_type
  ob_aggregate_id :: uuid
  ob_aggregate_version :: int
  ob_env_id :: uuid
  ob_op :: outbox_op
  ob_payload :: payload
  ob_created_at :: time

record delivery =
  od_event_id :: int
  od_sink :: outbox_sink
  od_status :: outbox_delivery_status
  od_attempt_count :: int
  od_locked_by :: "string option"
  od_locked_until :: "time option"
  od_last_error :: "string option"
  od_done_at :: "time option"

record projection =
  pj_sink :: outbox_sink
  pj_env_id :: uuid
  pj_last_event_id :: "int option"
  pj_last_success_at :: "time option"
  pj_lag :: "time option"
  pj_status :: "projection_status option"
  pj_last_error :: "string option"

subsection \<open>The database\<close>

text \<open>
  \<open>uuid_source\<close> is the sequence of values the calls of \<open>gen_random_uuid()\<close> and \<open>uuid4()\<close>
  return, \<open>uuid_used\<close> how many were drawn, \<open>event_seq\<close> the next value of the bigserial
  \<open>outbox.event_id\<close>.
\<close>

record db =
  environments :: "environment list"
  memories :: "memory list"
  entities :: "entity list"
  entity_aliases :: "entity_alias list"
  tag_rows :: "tag list"
  memory_tags :: "memory_tag list"
  memory_sources :: "memory_source list"
  memory_lineage :: "lineage_row list"
  memory_tombstones :: "tombstone list"
  audit_log :: "audit list"
  task_rows :: "task list"
  graph_nodes :: "graph_node list"
  relation_rows :: "relation_row list"
  outbox :: "outbox_row list"
  outbox_delivery :: "delivery list"
  projection_state :: "projection list"
  uuid_source :: "nat \<Rightarrow> uuid"
  uuid_used :: nat
  event_seq :: int

definition empty_db :: "(nat \<Rightarrow> uuid) \<Rightarrow> db" where
  "empty_db source = \<lparr>environments = [], memories = [], entities = [], entity_aliases = [], tag_rows = [],
     memory_tags = [], memory_sources = [], memory_lineage = [], memory_tombstones = [],
     audit_log = [], task_rows = [], graph_nodes = [], relation_rows = [], outbox = [],
     outbox_delivery = [], projection_state = [], uuid_source = source, uuid_used = 0,
     event_seq = 1\<rparr>"

definition next_uuid :: "db \<Rightarrow> uuid" where
  "next_uuid d = uuid_source d (uuid_used d)"

definition draw_uuid :: "db \<Rightarrow> db" where
  "draw_uuid d = d\<lparr>uuid_used := Suc (uuid_used d)\<rparr>"

definition env_exists :: "db \<Rightarrow> uuid \<Rightarrow> bool" where
  "env_exists d i \<longleftrightarrow> list_ex (\<lambda>e. env_id e = i) (environments d)"

subsection \<open>Request context and settings\<close>

record agent_context =
  ctx_agent_id :: uuid
  ctx_session_id :: "uuid option"
  ctx_attached_env_ids :: "uuid list"

record settings =
  vector_backend :: string
  graph_backend :: string

text \<open>
  \<open>rbac.require\<close> is a no-op in this version of the program: it returns \<open>None\<close> for every
  role, environment and context.
\<close>

definition rbac_require :: "string \<Rightarrow> uuid option \<Rightarrow> agent_context \<Rightarrow> unit res" where
  "rbac_require role env ctx = Inr ()"

lemma rbac_require_simp [simp]: "rbac_require role env ctx = Inr ()"
  by (simp add: rbac_require_def)

subsection \<open>Constraints and statements on \<open>memories\<close>\<close>

text \<open>
  The constraint a row violates when it is inserted into, or replaces the row of its id in,
  the table: the foreign key on \<open>environments\<close>, the CHECKs, the self-reference and the
  unique index \<open>ix_memories_macro_per_env\<close> on \<open>(env_id, lower(macro))\<close>.
\<close>

definition memory_violation :: "db \<Rightarrow> memory \<Rightarrow> string option" where
  "memory_violation d m =
     (if \<not> env_exists d (m_env_id m) then Some ''memories_env_id_fkey''
      else if \<not> (0 \<le> m_salience m \<and> m_salience m \<le> 1) then Some ''memories_salience_check''
      else if \<not> (0 \<le> m_confidence m \<and> m_confidence m \<le> 1) then Some ''memories_confidence_check''
      else if m_access_count m < 0 then Some ''memories_access_count_check''
      else if m_negative_feedback_count m < 0 then Some ''memories_negative_feedback_count_check''
      else if m_version m \<le> 0 then Some ''memories_version_check''
      else if (m_status m = MS_superseded) \<noteq> (m_superseded_by m \<noteq> None)
        then Some ''memories_superseded_status_chk''
      else if m_superseded_by m = Some (m_id m) then Some ''memories_not_self_superseded_chk''
      else if (case m_superseded_by m of None \<Rightarrow> False
               | Some j \<Rightarrow> \<not> list_ex (\<lambda>r. m_id r = j) (memories d))
        then Some ''memories_superseded_by_fkey''
      else if (case m_macro m of None \<Rightarrow> False
               | Some k \<Rightarrow> list_ex (\<lambda>r. m_id r \<noteq> m_id m \<and> m_env_id r = m_env_id m \<and>
                   map_option lower (m_macro r) = Some (lower k)) (memories d))
        then Some ''ix_memories_macro_per_env''
      else None)"

definition insert_memory :: "memory \<Rightarrow> db \<Rightarrow> db res" where
  "insert_memory m d =
     (if list_ex (\<lambda>r. m_id r = m_id m) (memories d) then Inl (IntegrityError ''memories_pkey'')
      else case memory_violation d m of
        Some c \<Rightarrow> Inl (IntegrityError c)
      | None \<Rightarrow> Inr (d\<lparr>memories := memories d @ [m]\<rparr>))"

text \<open>
  \<open>UPDATE memories SET f WHERE id = i AND version = v\<close>, with the trigger
  \<open>require_version_monotonic\<close>; the number is the rowcount.
\<close>

definition update_memory_row :: "uuid \<Rightarrow> int \<Rightarrow> (memory \<Rightarrow> memory) \<Rightarrow> db \<Rightarrow> (db \<times> nat) res" where
  "update_memory_row i v f d =
     (case lookup m_id i (memories d) of
        None \<Rightarrow> Inr (d, 0)
      | Some m \<Rightarrow>
          if m_version m \<noteq> v then Inr (d, 0)
          else if m_version (f m) < m_version m then Inl (IntegrityError ''require_version_monotonic'')
          else case memory_violation d (f m) of
            Some c \<Rightarrow> Inl (IntegrityError c)
          | None \<Rightarrow> Inr (d\<lparr>memories := update_where (\<lambda>r. m_id r = i) f (memories d)\<rparr>, 1))"

text \<open>
  \<open>DELETE FROM memories WHERE id = i\<close>: \<open>superseded_by\<close> restricts it; the rows of
  \<open>memory_tags\<close>, \<open>memory_sources\<close>, \<open>memory_lineage\<close> and \<open>graph_nodes\<close> (and through
  these of \<open>relations\<close>) go with the memory, \<open>tasks.playbook_id\<close> is set to null.
\<close>

definition node_of_memory :: "uuid \<Rightarrow> graph_node \<Rightarrow> bool" where
  "node_of_memory i n \<longleftrightarrow> gn_memory_id n = Some i"

definition delete_memory_row :: "uuid \<Rightarrow> db \<Rightarrow> db res" where
  "delete_memory_row i d =
     (if list_ex (\<lambda>r. m_id r \<noteq> i \<and> m_superseded_by r = Some i) (memories d)
      then Inl (IntegrityError ''memories_superseded_by_fkey'')
      else
        let gone = map gn_id (filter (node_of_memory i) (graph_nodes d)) in
        Inr (d\<lparr>memories := delete_where (\<lambda>r. m_id r = i) (memories d),
               memory_tags := delete_where (\<lambda>r. mt_memory_id r = i) (memory_tags d),
               memory_sources := delete_where (\<lambda>r. src_memory_id r = i) (memory_sources d),
               memory_lineage := delete_where (\<lambda>r. ln_parent r = i \<or> ln_child r = i) (memory_lineage d),
               graph_nodes := delete_where (node_of_memory i) (graph_nodes d),
               relation_rows := delete_where
                 (\<lambda>r. r_src_node_id r \<in> set gone \<or> r_dst_node_id r \<in> set gone) (relation_rows d),
               task_rows := update_where (\<lambda>t. t_playbook_id t = Some i)
                 (\<lambda>t. t\<lparr>t_playbook_id := None\<rparr>) (task_rows d)\<rparr>))"

text \<open>The invariant the constraints keep on the table.\<close>

definition memories_ok :: "db \<Rightarrow> bool" where
  "memories_ok d \<longleftrightarrow> distinct (map m_id (memories d)) \<and>
     (\<forall>m \<in> set (memories d). memory_violation d m = None)"

end
