(* ===== verification/Outbox.thy ===== *)
theory Outbox
  imports Store
begin

text \<open>
  The transactional outbox writer, \<open>memory_mcp/db/outbox.py\<close>: sink routing and
  \<open>enqueue_event\<close>, with the constraints of the three outbox tables (migrations 0001 and
  0010). The lemmas give the shape of a successful enqueue, what it leaves alone, and that
  the tables stay well formed.
\<close>

record enqueued_event =
  ee_event_id :: "int option"
  ee_sinks :: "outbox_sink list"

definition resolve_sinks_for :: "outbox_aggregate_type \<Rightarrow> settings \<Rightarrow> outbox_sink list" where
  "resolve_sinks_for ty st =
     (if ty = AT_memory then
        (if vector_backend st = ''qdrant'' then [SK_qdrant]
         else if vector_backend st = ''pgvector'' then [SK_pgvector]
         else [])
      else if ty = AT_entity \<or> ty = AT_relation \<or> ty = AT_task then
        (if graph_backend st = ''neo4j'' then [SK_neo4j] else [])
      else [])"

text \<open>The constraint an outbox row violates, if any.\<close>

definition outbox_violation :: "db \<Rightarrow> outbox_row \<Rightarrow> string option" where
  "outbox_violation d r =
     (if ob_aggregate_version r \<le> 0 then Some ''outbox_aggregate_version_check''
      else if \<not> env_exists d (ob_env_id r) then Some ''outbox_env_id_fkey''
      else if list_ex (\<lambda>o'. ob_aggregate_type o' = ob_aggregate_type r \<and>
                ob_aggregate_id o' = ob_aggregate_id r \<and>
                ob_aggregate_version o' = ob_aggregate_version r) (outbox d)
        then Some ''outbox_aggregate_type_aggregate_id_aggregate_version_key''
      else None)"

definition new_delivery :: "int \<Rightarrow> outbox_sink \<Rightarrow> delivery" where
  "new_delivery eid sink = \<lparr>od_event_id = eid, od_sink = sink, od_status = OD_pending,
     od_attempt_count = 0, od_locked_by = None, od_locked_until = None, od_last_error = None,
     od_done_at = None\<rparr>"

definition new_projection :: "outbox_sink \<Rightarrow> uuid \<Rightarrow> projection" where
  "new_projection sink env = \<lparr>pj_sink = sink, pj_env_id = env, pj_last_event_id = None,
     pj_last_success_at = None, pj_lag = None, pj_status = None, pj_last_error = None\<rparr>"

text \<open>\<open>INSERT ... ON CONFLICT (sink, env_id) DO NOTHING\<close>, one row per sink.\<close>

fun ensure_projection_state :: "outbox_sink list \<Rightarrow> uuid \<Rightarrow> projection list \<Rightarrow> projection list" where
  "ensure_projection_state [] env ps = ps"
| "ensure_projection_state (s # ss) env ps =
     ensure_projection_state ss env
       (if list_ex (\<lambda>p. pj_sink p = s \<and> pj_env_id p = env) ps then ps else ps @ [new_projection s env])"

definition enqueue_event ::
  "settings \<Rightarrow> time \<Rightarrow> outbox_aggregate_type \<Rightarrow> uuid \<Rightarrow> int \<Rightarrow> uuid \<Rightarrow> outbox_op \<Rightarrow> payload
   \<Rightarrow> outbox_sink list option \<Rightarrow> db \<Rightarrow> (db \<times> enqueued_event) res" where
  "enqueue_event st now ty agg ver env op pl sinks d =
     (let resolved = (case sinks of Some ss \<Rightarrow> ss | None \<Rightarrow> resolve_sinks_for ty st) in
      if resolved = [] then Inr (d, \<lparr>ee_event_id = None, ee_sinks = []\<rparr>)
      else
        let eid = event_seq d;
            row = \<lparr>ob_event_id = eid, ob_aggregate_type = ty, ob_aggregate_id = agg,
                   ob_aggregate_version = ver, ob_env_id = env, ob_op = op, ob_payload = pl,
                   ob_created_at = now\<rparr>
        in case outbox_violation d row of
             Some c \<Rightarrow> Inl (IntegrityError c)
           | None \<Rightarrow>
               if \<not> distinct resolved then Inl (IntegrityError ''outbox_delivery_pkey'')
               else Inr (d\<lparr>outbox := outbox d @ [row],
                           event_seq := eid + 1,
                           outbox_delivery := outbox_delivery d @ map (new_delivery eid) resolved,
                           projection_state := ensure_projection_state resolved env (projection_state d)\<rparr>,
                         \<lparr>ee_event_id = Some eid, ee_sinks = resolved\<rparr>))"

definition get_projection_state :: "db \<Rightarrow> outbox_sink \<Rightarrow> uuid \<Rightarrow> projection option" where
  "get_projection_state d sink env =
     lookup (\<lambda>p. (pj_sink p, pj_env_id p)) (sink, env) (projection_state d)"

subsection \<open>Shape of a successful enqueue\<close>

definition enqueue_sinks :: "settings \<Rightarrow> outbox_aggregate_type \<Rightarrow> outbox_sink list option \<Rightarrow> outbox_sink list" where
  "enqueue_sinks st ty sinks = (case sinks of Some ss \<Rightarrow> ss | None \<Rightarrow> resolve_sinks_for ty st)"

lemma resolve_sinks_length: "length (resolve_sinks_for ty st) \<le> 1"
  by (simp add: resolve_sinks_for_def)

lemma resolve_sinks_distinct [simp]: "distinct (resolve_sinks_for ty st)"
  by (simp add: resolve_sinks_for_def)

lemma enqueue_event_cases:
  assumes "enqueue_event st now ty agg ver env op pl sinks d = Inr (d', r)"
  obtains
    (no_sink) "enqueue_sinks st ty sinks = []" "d' = d" "r = \<lparr>ee_event_id = None, ee_sinks = []\<rparr>"
  | (queued) row where
      "row = \<lparr>ob_event_id = event_seq d, ob_aggregate_type = ty, ob_aggregate_id = agg,
         ob_aggregate_version = ver, ob_env_id = env, ob_op = op, ob_payload = pl,
         ob_created_at = now\<rparr>"
      "outbox_violation d row = None" "distinct (enqueue_sinks st ty sinks)"
      "enqueue_sinks st ty sinks \<noteq> []"
      "d' = d\<lparr>outbox := outbox d @ [row], event_seq := event_seq d + 1,
         outbox_delivery := outbox_delivery d @ map (new_delivery (event_seq d)) (enqueue_sinks st ty sinks),
         projection_state := ensure_projection_state (enqueue_sinks st ty sinks) env (projection_state d)\<rparr>"
      "r = \<lparr>ee_event_id = Some (event_seq d), ee_sinks = enqueue_sinks st ty sinks\<rparr>"
  using assms
  by (auto simp: enqueue_event_def Let_def enqueue_sinks_def[symmetric] split: if_splits option.splits)

lemma enqueue_frame:
  assumes "enqueue_event st now ty agg ver env op pl sinks d = Inr (d', r)"
  shows "environments d' = environments d" "memories d' = memories d" "entities d' = entities d"
    "tag_rows d' = tag_rows d" "memory_tags d' = memory_tags d" "memory_sources d' = memory_sources d"
    "memory_lineage d' = memory_lineage d" "memory_tombstones d' = memory_tombstones d"
    "audit_log d' = audit_log d" "task_rows d' = task_rows d" "graph_nodes d' = graph_nodes d"
    "relation_rows d' = relation_rows d" "uuid_source d' = uuid_source d" "uuid_used d' = uuid_used d"
    "entity_aliases d' = entity_aliases d"
  using assms by (auto elim!: enqueue_event_cases)

lemma enqueue_env_exists [simp]:
  "enqueue_event st now ty agg ver env op pl sinks d = Inr (d', r) \<Longrightarrow> env_exists d' e = env_exists d e"
  by (simp add: env_exists_def enqueue_frame)

lemma enqueue_outbox_superset:
  "enqueue_event st now ty agg ver env op pl sinks d = Inr (d', r) \<Longrightarrow> set (outbox d) \<subseteq> set (outbox d')"
  by (auto elim!: enqueue_event_cases)

subsection \<open>Well-formed outbox tables\<close>

definition od_key :: "delivery \<Rightarrow> int \<times> outbox_sink" where
  "od_key q = (od_event_id q, od_sink q)"

definition outbox_ok :: "db \<Rightarrow> bool" where
  "outbox_ok d \<longleftrightarrow>
     distinct (map ob_event_id (outbox d)) \<and>
     (\<forall>r \<in> set (outbox d). ob_event_id r < event_seq d \<and> 0 < ob_aggregate_version r) \<and>
     distinct (map (\<lambda>r. (ob_aggregate_type r, ob_aggregate_id r, ob_aggregate_version r)) (outbox d)) \<and>
     distinct (map od_key (outbox_delivery d)) \<and>
     (\<forall>q \<in> set (outbox_delivery d). od_event_id q \<in> ob_event_id ` set (outbox d) \<and> 0 \<le> od_attempt_count q)"

lemma outbox_ok_empty: "outbox_ok (empty_db source)"
  by (simp add: outbox_ok_def empty_db_def)

lemma enqueue_outbox_ok:
  assumes ok: "outbox_ok d"
    and enq: "enqueue_event st now ty agg ver env op pl sinks d = Inr (d', r)"
  shows "outbox_ok d'"
  using enq
proof (cases rule: enqueue_event_cases)
  case no_sink
  then show ?thesis using ok by simp
next
  case (queued row)
  have fresh: "event_seq d \<notin> ob_event_id ` set (outbox d)"
    using ok by (auto simp: outbox_ok_def)
  have keys: "distinct (map od_key (map (new_delivery (event_seq d)) (enqueue_sinks st ty sinks)))"
    using queued(3) by (simp add: od_key_def new_delivery_def distinct_map inj_on_def)
  have disj: "set (map od_key (outbox_delivery d)) \<inter>
      set (map od_key (map (new_delivery (event_seq d)) (enqueue_sinks st ty sinks))) = {}"
    using ok fresh by (fastforce simp: outbox_ok_def od_key_def new_delivery_def)
  have uniq: "(ty, agg, ver) \<notin>
      (\<lambda>r. (ob_aggregate_type r, ob_aggregate_id r, ob_aggregate_version r)) ` set (outbox d)"
    using queued(1,2) by (auto simp: outbox_violation_def list_ex_iff split: if_splits)
  have pos: "0 < ver" using queued(1,2) by (auto simp: outbox_violation_def split: if_splits)
  have "distinct (map od_key (outbox_delivery d'))"
    using ok keys disj by (simp add: queued(5) outbox_ok_def)
  moreover have "distinct (map (\<lambda>r. (ob_aggregate_type r, ob_aggregate_id r, ob_aggregate_version r)) (outbox d'))"
    using ok uniq by (simp add: queued(1,5) outbox_ok_def)
  moreover have "distinct (map ob_event_id (outbox d'))"
    using ok fresh by (simp add: queued(1,5) outbox_ok_def)
  moreover have "\<forall>r \<in> set (outbox d'). ob_event_id r < event_seq d' \<and> 0 < ob_aggregate_version r"
    using ok pos by (auto simp: queued(1,5) outbox_ok_def)
  moreover have "\<forall>q \<in> set (outbox_delivery d'). od_event_id q \<in> ob_event_id ` set (outbox d') \<and> 0 \<le> od_attempt_count q"
    using ok by (auto simp: queued(1,5) outbox_ok_def new_delivery_def)
  ultimately show ?thesis by (simp add: outbox_ok_def)
qed

text \<open>A repeated \<open>(type, id, version)\<close> is refused whenever a sink subscribes.\<close>

lemma enqueue_duplicate:
  assumes "enqueue_sinks st ty sinks \<noteq> []" and "r \<in> set (outbox d)"
    and "ob_aggregate_type r = ty" "ob_aggregate_id r = agg" "ob_aggregate_version r = ver"
  shows "\<exists>c. enqueue_event st now ty agg ver env op pl sinks d = Inl (IntegrityError c)"
proof -
  let ?row = "\<lparr>ob_event_id = event_seq d, ob_aggregate_type = ty, ob_aggregate_id = agg,
     ob_aggregate_version = ver, ob_env_id = env, ob_op = op, ob_payload = pl, ob_created_at = now\<rparr>"
  have "list_ex (\<lambda>o'. ob_aggregate_type o' = ty \<and> ob_aggregate_id o' = agg \<and>
      ob_aggregate_version o' = ver) (outbox d)"
    using assms(2-5) by (auto simp: list_ex_iff)
  then have "outbox_violation d ?row \<noteq> None" by (simp add: outbox_violation_def)
  then obtain c where "outbox_violation d ?row = Some c" by blast
  then show ?thesis using assms(1)
    by (auto simp: enqueue_event_def Let_def enqueue_sinks_def[symmetric])
qed

text \<open>The watermark columns of an existing row are never touched by an enqueue.\<close>

lemma ensure_projection_mono:
  "p \<in> set ps \<Longrightarrow> p \<in> set (ensure_projection_state ss env ps)"
  by (induction ss env ps rule: ensure_projection_state.induct) auto

lemma ensure_projection_present:
  "s \<in> set ss \<Longrightarrow> \<exists>p \<in> set (ensure_projection_state ss env ps). pj_sink p = s \<and> pj_env_id p = env"
proof (induction ss env ps rule: ensure_projection_state.induct)
  case (1 env ps)
  then show ?case by simp
next
  case (2 s' ss env ps)
  let ?ps = "if list_ex (\<lambda>p. pj_sink p = s' \<and> pj_env_id p = env) ps then ps else ps @ [new_projection s' env]"
  have "\<exists>p \<in> set ?ps. pj_sink p = s' \<and> pj_env_id p = env"
    by (auto simp: list_ex_iff new_projection_def)
  then have "\<exists>p \<in> set (ensure_projection_state ss env ?ps). pj_sink p = s' \<and> pj_env_id p = env"
    by (meson ensure_projection_mono)
  with 2 show ?case by auto
qed

lemma ensure_projection_lookup:
  "lookup (\<lambda>p. (pj_sink p, pj_env_id p)) k ps = Some p \<Longrightarrow>
   lookup (\<lambda>p. (pj_sink p, pj_env_id p)) k (ensure_projection_state ss env ps) = Some p"
  by (induction ss env ps rule: ensure_projection_state.induct) (auto simp: lookup_append)

lemma enqueue_event_outcome:
  "case enqueue_event st now ty agg ver env op pl sinks d of
     Inl e \<Rightarrow> enqueue_sinks st ty sinks \<noteq> [] \<and> (\<exists>c. e = IntegrityError c)
   | Inr (d', r) \<Rightarrow>
       if enqueue_sinks st ty sinks = [] then d' = d \<and> ee_event_id r = None
       else ee_event_id r = Some (event_seq d) \<and> ee_sinks r = enqueue_sinks st ty sinks \<and>
         (\<exists>row. outbox d' = outbox d @ [row] \<and> ob_event_id row = event_seq d \<and>
            (ob_aggregate_type row, ob_aggregate_id row, ob_aggregate_version row) = (ty, agg, ver) \<and>
            ob_payload row = pl \<and> env_exists d env \<and> 0 < ver) \<and>
         \<not> list_ex (\<lambda>o'. (ob_aggregate_type o', ob_aggregate_id o', ob_aggregate_version o') = (ty, agg, ver)) (outbox d) \<and>
         outbox_delivery d' = outbox_delivery d @ map (new_delivery (event_seq d)) (ee_sinks r) \<and>
         list_all (\<lambda>s. get_projection_state d' s env \<noteq> None) (ee_sinks r) \<and>
         list_all (\<lambda>p. p \<in> set (projection_state d')) (projection_state d)"
proof (cases "enqueue_event st now ty agg ver env op pl sinks d")
  case (Inl e)
  then show ?thesis
    by (auto simp: enqueue_event_def Let_def enqueue_sinks_def[symmetric] split: if_splits option.splits)
next
  case (Inr p)
  obtain d' r where p: "p = (d', r)" by (cases p)
  have enq: "enqueue_event st now ty agg ver env op pl sinks d = Inr (d', r)" using Inr p by simp
  from enq show ?thesis
  proof (cases rule: enqueue_event_cases)
    case no_sink
    then show ?thesis using Inr p by simp
  next
    case (queued row)
    have "env_exists d env" "0 < ver"
      "\<not> list_ex (\<lambda>o'. ob_aggregate_type o' = ty \<and> ob_aggregate_id o' = agg \<and> ob_aggregate_version o' = ver) (outbox d)"
      using queued(2) by (auto simp: outbox_violation_def queued(1) split: if_splits)
    then show ?thesis
      using Inr p queued ensure_projection_present ensure_projection_mono
      by (simp add: list_all_iff get_projection_state_def lookup_None_iff)
  qed
qed

end
