(* ===== verification/Lease.thy ===== *)
theory Lease
  imports Outbox
begin

text \<open>
  The lease, success and failure statements of the projection worker,
  \<open>projection_worker/lease.py\<close>. \<open>now\<close> is the transaction's clock, \<open>locked\<close> the delivery
  rows that other transactions hold locked when the lease runs (SKIP LOCKED passes over
  them). The leased rows come in the order of the select, by event id. The lemmas show each
  statement as a pointwise update of the delivery table and what it does to a row's status.
\<close>

record leased_event =
  le_event_id :: int
  le_sink :: outbox_sink
  le_aggregate_type :: outbox_aggregate_type
  le_aggregate_id :: uuid
  le_aggregate_version :: int
  le_env_id :: uuid
  le_op :: outbox_op
  le_payload :: payload
  le_attempt_count :: int
  le_created_at :: time

subsection \<open>Lease\<close>

text \<open>The \<open>NOT EXISTS\<close> sub-select: an earlier version of the aggregate is not done at the sink.\<close>

definition prior_unfinished :: "db \<Rightarrow> outbox_sink \<Rightarrow> outbox_row \<Rightarrow> bool" where
  "prior_unfinished d sink r \<longleftrightarrow>
     list_ex (\<lambda>p. ob_aggregate_id p = ob_aggregate_id r \<and>
                ob_aggregate_version p < ob_aggregate_version r \<and>
                list_ex (\<lambda>q. od_event_id q = ob_event_id p \<and> od_sink q = sink \<and> od_status q \<noteq> OD_done)
                  (outbox_delivery d))
       (outbox d)"

definition leaseable :: "time \<Rightarrow> outbox_sink \<Rightarrow> db \<Rightarrow> delivery \<Rightarrow> bool" where
  "leaseable now sink d q \<longleftrightarrow>
     od_sink q = sink \<and> od_status q = OD_pending \<and>
     (case od_locked_until q of None \<Rightarrow> True | Some u \<Rightarrow> u < now) \<and>
     (case lookup ob_event_id (od_event_id q) (outbox d) of
        None \<Rightarrow> False
      | Some r \<Rightarrow> \<not> prior_unfinished d sink r)"

definition lease_candidates ::
  "time \<Rightarrow> outbox_sink \<Rightarrow> nat \<Rightarrow> (delivery \<Rightarrow> bool) \<Rightarrow> db \<Rightarrow> delivery list" where
  "lease_candidates now sink batch_size locked d =
     take batch_size (filter (\<lambda>q. \<not> locked q)
       (sort_key od_event_id (filter (leaseable now sink d) (outbox_delivery d))))"

definition mark_leased :: "string \<Rightarrow> time \<Rightarrow> int \<Rightarrow> delivery \<Rightarrow> delivery" where
  "mark_leased worker now ttl_s q =
     q\<lparr>od_locked_by := Some worker, od_locked_until := Some (now + ttl_s * 1000000),
       od_status := OD_in_flight\<rparr>"

text \<open>Hydrate a leased delivery with its outbox row; a missing row is Python's \<open>KeyError\<close>.\<close>

definition hydrate :: "db \<Rightarrow> delivery \<Rightarrow> leased_event res" where
  "hydrate d q = (case lookup ob_event_id (od_event_id q) (outbox d) of
       None \<Rightarrow> Inl (KeyError ''event_id'')
     | Some r \<Rightarrow> Inr \<lparr>le_event_id = ob_event_id r, le_sink = od_sink q,
         le_aggregate_type = ob_aggregate_type r, le_aggregate_id = ob_aggregate_id r,
         le_aggregate_version = ob_aggregate_version r, le_env_id = ob_env_id r, le_op = ob_op r,
         le_payload = ob_payload r, le_attempt_count = od_attempt_count q,
         le_created_at = ob_created_at r\<rparr>)"

fun hydrate_all :: "db \<Rightarrow> delivery list \<Rightarrow> leased_event list res" where
  "hydrate_all d [] = Inr []"
| "hydrate_all d (q # qs) =
     bindE (hydrate d q) (\<lambda>e. bindE (hydrate_all d qs) (\<lambda>es. Inr (e # es)))"

definition lease_batch ::
  "string \<Rightarrow> time \<Rightarrow> outbox_sink \<Rightarrow> nat \<Rightarrow> int \<Rightarrow> (delivery \<Rightarrow> bool) \<Rightarrow> db
   \<Rightarrow> (db \<times> leased_event list) res" where
  "lease_batch worker now sink batch_size ttl_s locked d =
     (let cands = lease_candidates now sink batch_size locked d;
          d' = d\<lparr>outbox_delivery := update_where (\<lambda>q. od_key q \<in> od_key ` set cands)
                 (mark_leased worker now ttl_s) (outbox_delivery d)\<rparr>
      in if cands = [] then Inr (d', [])
         else bindE (hydrate_all d cands) (\<lambda>es. Inr (d', es)))"

subsection \<open>Success, failure, dead letter\<close>

definition finish_delivery :: "time \<Rightarrow> delivery \<Rightarrow> delivery" where
  "finish_delivery now q = q\<lparr>od_status := OD_done, od_done_at := Some now, od_locked_by := None,
     od_locked_until := None, od_last_error := None\<rparr>"

definition advance_projection :: "time \<Rightarrow> int \<Rightarrow> time \<Rightarrow> projection \<Rightarrow> projection" where
  "advance_projection now eid created p =
     p\<lparr>pj_last_event_id := Some (max (case pj_last_event_id p of None \<Rightarrow> 0 | Some i \<Rightarrow> i) eid),
       pj_last_success_at := Some now, pj_lag := Some (now - created),
       pj_status := Some PS_healthy, pj_last_error := None\<rparr>"

definition mark_done :: "time \<Rightarrow> int \<Rightarrow> outbox_sink \<Rightarrow> uuid \<Rightarrow> time \<Rightarrow> db \<Rightarrow> db" where
  "mark_done now eid sink env created d =
     d\<lparr>outbox_delivery := update_where (\<lambda>q. od_key q = (eid, sink)) (finish_delivery now) (outbox_delivery d),
       projection_state := update_where (\<lambda>p. pj_sink p = sink \<and> pj_env_id p = env)
         (advance_projection now eid created) (projection_state d)\<rparr>"

text \<open>\<open>2 ** min(attempt, 10)\<close> capped at 600; attempt counts are not negative.\<close>

definition backoff_seconds :: "int \<Rightarrow> int" where
  "backoff_seconds attempt = min (2 ^ nat (min attempt 10)) 600"

definition bury_delivery :: "int \<Rightarrow> string \<Rightarrow> delivery \<Rightarrow> delivery" where
  "bury_delivery ac err q = q\<lparr>od_status := OD_dead, od_attempt_count := ac, od_locked_by := None,
     od_locked_until := None, od_last_error := Some err\<rparr>"

definition requeue_delivery :: "time \<Rightarrow> int \<Rightarrow> string \<Rightarrow> delivery \<Rightarrow> delivery" where
  "requeue_delivery now ac err q = q\<lparr>od_status := OD_pending, od_attempt_count := ac,
     od_locked_by := None, od_locked_until := Some (now + backoff_seconds ac * 1000000),
     od_last_error := Some err\<rparr>"

definition mark_fail ::
  "time \<Rightarrow> int \<Rightarrow> outbox_sink \<Rightarrow> uuid \<Rightarrow> string \<Rightarrow> int \<Rightarrow> db \<Rightarrow> db \<times> bool" where
  "mark_fail now eid sink env err max_attempts d =
     (let ac = (case lookup od_key (eid, sink) (outbox_delivery d) of
                  None \<Rightarrow> 0 | Some q \<Rightarrow> od_attempt_count q) + 1;
          msg = take 2000 err
      in if ac \<ge> max_attempts then
           (d\<lparr>outbox_delivery := update_where (\<lambda>q. od_key q = (eid, sink)) (bury_delivery ac msg)
                (outbox_delivery d),
              projection_state := update_where (\<lambda>p. pj_sink p = sink \<and> pj_env_id p = env)
                (\<lambda>p. p\<lparr>pj_status := Some PS_degraded, pj_last_error := Some msg\<rparr>) (projection_state d)\<rparr>,
            True)
         else
           (d\<lparr>outbox_delivery := update_where (\<lambda>q. od_key q = (eid, sink)) (requeue_delivery now ac msg)
                (outbox_delivery d)\<rparr>,
            False))"

subsection \<open>Leases\<close>

lemma od_key_updates [simp]:
  "od_key (mark_leased w now ttl q) = od_key q"
  "od_key (finish_delivery now q) = od_key q"
  "od_key (bury_delivery ac err q) = od_key q"
  "od_key (requeue_delivery now ac err q) = od_key q"
  by (simp_all add: od_key_def mark_leased_def finish_delivery_def bury_delivery_def requeue_delivery_def)

lemma od_status_updates [simp]:
  "od_status (mark_leased w now ttl q) = OD_in_flight"
  "od_status (finish_delivery now q) = OD_done"
  "od_status (bury_delivery ac err q) = OD_dead"
  "od_status (requeue_delivery now ac err q) = OD_pending"
  "od_status (new_delivery eid sink) = OD_pending"
  by (simp_all add: mark_leased_def finish_delivery_def bury_delivery_def requeue_delivery_def
      new_delivery_def)

lemma od_attempt_updates [simp]:
  "od_attempt_count (mark_leased w now ttl q) = od_attempt_count q"
  "od_attempt_count (finish_delivery now q) = od_attempt_count q"
  "od_attempt_count (bury_delivery ac err q) = ac"
  "od_attempt_count (requeue_delivery now ac err q) = ac"
  "od_attempt_count (new_delivery eid sink) = 0"
  by (simp_all add: mark_leased_def finish_delivery_def bury_delivery_def requeue_delivery_def
      new_delivery_def)

lemma od_key_new [simp]: "od_key (new_delivery eid sink) = (eid, sink)"
  by (simp add: od_key_def new_delivery_def)

lemma lease_candidates_leaseable:
  assumes "q \<in> set (lease_candidates now sink n locked d)"
  shows "q \<in> set (outbox_delivery d) \<and> leaseable now sink d q \<and> \<not> locked q"
proof -
  from assms have "q \<in> set (filter (\<lambda>q. \<not> locked q)
      (sort_key od_event_id (filter (leaseable now sink d) (outbox_delivery d))))"
    unfolding lease_candidates_def by (rule in_set_takeD)
  then show ?thesis by simp
qed

lemma lease_candidates_length: "length (lease_candidates now sink n locked d) \<le> n"
  by (simp add: lease_candidates_def)

lemma lease_candidates_sorted: "sorted (map od_event_id (lease_candidates now sink n locked d))"
proof -
  have "sorted (map od_event_id (filter (\<lambda>q. \<not> locked q)
      (sort_key od_event_id (filter (leaseable now sink d) (outbox_delivery d)))))"
    by (rule sorted_filter) simp
  then show ?thesis unfolding lease_candidates_def by (simp add: take_map[symmetric] sorted_wrt_take)
qed

lemma hydrate_all_map:
  assumes "hydrate_all d qs = Inr es"
  shows "map (\<lambda>e. (le_event_id e, le_sink e)) es = map od_key qs"
  using assms
  by (induction qs arbitrary: es)
     (auto simp: res_simps hydrate_def od_key_def split: option.splits dest!: lookup_SomeD)

lemma hydrate_row:
  "hydrate d q = Inr e \<Longrightarrow> \<exists>r \<in> set (outbox d). ob_event_id r = le_event_id e \<and>
    ob_aggregate_id r = le_aggregate_id e \<and> ob_aggregate_version r = le_aggregate_version e"
  by (auto simp: hydrate_def split: option.splits dest!: lookup_SomeD)

lemma hydrate_all_row:
  "hydrate_all d qs = Inr es \<Longrightarrow> e \<in> set es \<Longrightarrow>
   \<exists>r \<in> set (outbox d). ob_event_id r = le_event_id e \<and> ob_aggregate_id r = le_aggregate_id e \<and>
    ob_aggregate_version r = le_aggregate_version e"
proof (induction qs arbitrary: es)
  case Nil
  then show ?case by simp
next
  case (Cons q qs)
  then obtain e0 es0 where "hydrate d q = Inr e0" "hydrate_all d qs = Inr es0" "es = e0 # es0"
    by (auto simp: res_simps)
  with Cons show ?case by (cases "e = e0") (auto dest: hydrate_row)
qed

lemma hydrate_total:
  assumes "\<forall>q \<in> set qs. lookup ob_event_id (od_event_id q) (outbox d) \<noteq> None"
  shows "\<exists>es. hydrate_all d qs = Inr es"
  using assms by (induction qs) (auto simp: hydrate_def)

lemma leaseable_hydrates: "leaseable now sink d q \<Longrightarrow> lookup ob_event_id (od_event_id q) (outbox d) \<noteq> None"
  by (auto simp: leaseable_def split: option.splits)

text \<open>A lease never raises: every candidate joined its outbox row.\<close>

lemma lease_batch_total: "\<exists>d' es. lease_batch w now sink n ttl locked d = Inr (d', es)"
proof -
  have "\<forall>q \<in> set (lease_candidates now sink n locked d).
      lookup ob_event_id (od_event_id q) (outbox d) \<noteq> None"
    using lease_candidates_leaseable leaseable_hydrates by blast
  then obtain es where "hydrate_all d (lease_candidates now sink n locked d) = Inr es"
    using hydrate_total by blast
  then show ?thesis by (auto simp: lease_batch_def Let_def)
qed

lemma lease_batch_cases:
  assumes "lease_batch w now sink n ttl locked d = Inr (d', es)"
  shows "d' = d\<lparr>outbox_delivery := update_where
           (\<lambda>q. od_key q \<in> od_key ` set (lease_candidates now sink n locked d))
           (mark_leased w now ttl) (outbox_delivery d)\<rparr>"
    and "hydrate_all d (lease_candidates now sink n locked d) = Inr es"
  using assms by (auto simp: lease_batch_def Let_def res_simps split: if_splits)

lemma lease_batch_keys:
  assumes "lease_batch w now sink n ttl locked d = Inr (d', es)"
  shows "map (\<lambda>e. (le_event_id e, le_sink e)) es = map od_key (lease_candidates now sink n locked d)"
  using lease_batch_cases(2) [OF assms] by (rule hydrate_all_map)

lemma mark_fail_shape:
  obtains ac msg where
    "outbox (fst (mark_fail now eid sink env err mx d)) = outbox d"
    "event_seq (fst (mark_fail now eid sink env err mx d)) = event_seq d"
    "0 < ac \<or> (\<exists>q \<in> set (outbox_delivery d). od_attempt_count q < 0)"
    "outbox_delivery (fst (mark_fail now eid sink env err mx d))
       = update_where (\<lambda>q. od_key q = (eid, sink)) (bury_delivery ac msg) (outbox_delivery d) \<or>
     outbox_delivery (fst (mark_fail now eid sink env err mx d))
       = update_where (\<lambda>q. od_key q = (eid, sink)) (requeue_delivery now ac msg) (outbox_delivery d)"
proof -
  let ?ac = "(case lookup od_key (eid, sink) (outbox_delivery d) of
      None \<Rightarrow> 0 | Some q \<Rightarrow> od_attempt_count q) + 1"
  have pos: "0 < ?ac \<or> (\<exists>q \<in> set (outbox_delivery d). od_attempt_count q < 0)"
    by (force split: option.splits dest: lookup_SomeD)
  show ?thesis
    by (rule that [of ?ac "take 2000 err"]) (use pos in \<open>simp_all add: mark_fail_def Let_def\<close>)
qed

end
