(* ===== verification/Handlers.thy ===== *)
theory Handlers
  imports Lease
begin

text \<open>
  The per-sink handlers of the projection worker,
  \<open>projection_worker/handlers/qdrant.py\<close> and \<open>neo4j.py\<close>. The vector and graph stores are
  services behind the \<open>VectorStore\<close> and \<open>GraphStore\<close> protocols: a handler is modelled as the
  list of store calls it makes, in order, or the exception it raises before the first one.
  The embedder is a parameter (\<open>embedder\<close>).
\<close>

record node_ref =
  nr_env_id :: uuid
  nr_kind :: string
  nr_record_id :: uuid

record graph_edge =
  ge_env_id :: uuid
  ge_src :: node_ref
  ge_dst :: node_ref
  ge_edge_type :: string
  ge_properties :: payload

datatype sink_call =
    VectorDelete uuid uuid
  | VectorEnsureCollection uuid nat
  | VectorUpsert uuid uuid "(string \<times> real list) list" payload
  | GraphDeleteSubgraph uuid "node_ref list"
  | GraphUpsertNode node_ref payload
  | GraphUpsertEdge graph_edge

record embedder =
  emb_model_id :: string
  emb_dimension :: nat
  emb_embed_texts :: "string list \<Rightarrow> real list list res"

subsection \<open>Qdrant\<close>

text \<open>\<open>title\<close>, \<open>body\<close> and \<open>trigger_description\<close> are text or null in every payload.\<close>

definition text_field :: "payload \<Rightarrow> string \<Rightarrow> string" where
  "text_field p k = (case jget p k of JStr s \<Rightarrow> s | _ \<Rightarrow> [])"

definition embed_text :: "payload \<Rightarrow> string" where
  "embed_text p =
     (let title = text_field p ''title''; body = text_field p ''body'' in
      strip (if title \<noteq> [] \<and> body \<noteq> [] then title @ [CHR 0x0A, CHR 0x0A] @ body
             else if title \<noteq> [] then title else body))"

definition trigger_text :: "payload \<Rightarrow> string" where
  "trigger_text p = strip (text_field p ''trigger_description'')"

definition tombstone_statuses :: "string list" where
  "tombstone_statuses = [''archived'', ''superseded'', ''retired'']"

definition qdrant_payload :: "leased_event \<Rightarrow> string \<Rightarrow> embedder \<Rightarrow> payload" where
  "qdrant_payload e trig emb =
     (let p = le_payload e in
      [(''memory_id'', JUuid (le_aggregate_id e)),
       (''env_id'', JUuid (le_env_id e)),
       (''kind'', jget p ''kind''),
       (''status'', jget p ''status''),
       (''title'', jget p ''title''),
       (''trigger_description'', if trig \<noteq> [] then JStr trig else JNull),
       (''has_trigger_description'', JBool (trig \<noteq> [])),
       (''tags'', if truthy (jget p ''tags'') then jget p ''tags'' else JList []),
       (''salience'', jget p ''salience''),
       (''confidence'', jget p ''confidence''),
       (''pinned'', jget p ''pinned''),
       (''version'', JInt (le_aggregate_version e)),
       (''embedding_model_id'', JStr (emb_model_id emb)),
       (''created_at'', jget p ''created_at''),
       (''updated_at'', jget p ''updated_at'')])"

definition is_tombstone_event :: "leased_event \<Rightarrow> bool" where
  "is_tombstone_event e \<longleftrightarrow> le_op e = OP_tombstone \<or>
     lower (text_field (le_payload e) ''status'') \<in> set tombstone_statuses"

text \<open>\<open>vectors[0]\<close>, and \<open>vectors[1]\<close> when there is a trigger text.\<close>

fun named_vectors :: "string \<Rightarrow> real list list \<Rightarrow> (string \<times> real list) list res" where
  "named_vectors trig [] = Inl IndexError"
| "named_vectors trig [v] = (if trig = [] then Inr [(''body'', v)] else Inl IndexError)"
| "named_vectors trig (v # w # _) =
     Inr (if trig = [] then [(''body'', v)] else [(''body'', v), (''trigger'', w)])"

definition handle_qdrant_event :: "embedder \<Rightarrow> leased_event \<Rightarrow> sink_call list res" where
  "handle_qdrant_event emb e =
     (let p = le_payload e; env = le_env_id e; pt = le_aggregate_id e;
          model = jget p ''embedding_model_id'';
          body = embed_text p; trig = trigger_text p in
      if le_aggregate_type e \<noteq> AT_memory then Inl (ValueError ''qdrant handler: expected memory'')
      else if is_tombstone_event e then Inr [VectorDelete env pt]
      else if truthy model \<and> model \<noteq> JStr (emb_model_id emb)
        then Inl (EmbeddingModelMismatchError (text_field p ''embedding_model_id'') (emb_model_id emb))
      else if body = [] then Inr [VectorDelete env pt]
      else bindE (emb_embed_texts emb (if trig \<noteq> [] then [body, trig] else [body])) (\<lambda>vs.
        bindE (named_vectors trig vs) (\<lambda>named.
          Inr [VectorEnsureCollection env (emb_dimension emb),
               VectorUpsert env pt named (qdrant_payload e trig emb)])))"

subsection \<open>Neo4j\<close>

definition entity_attrs_from_payload :: "payload \<Rightarrow> payload" where
  "entity_attrs_from_payload p =
     [(''kind_tag'', jget p ''kind''),
      (''canonical_name'', jget p ''canonical_name''),
      (''normalized_name'', jget p ''normalized_name''),
      (''aliases'', if truthy (jget p ''aliases'') then jget p ''aliases'' else JList []),
      (''version'', jget p ''version''),
      (''updated_at'', jget p ''updated_at'')]"

definition task_attrs_from_payload :: "payload \<Rightarrow> payload" where
  "task_attrs_from_payload p =
     [(''title'', jget p ''title''), (''status'', jget p ''status''),
      (''priority'', jget p ''priority''), (''version'', jget p ''version'')]"

text \<open>\<open>payload[k]\<close>: a missing key raises \<open>KeyError\<close>.\<close>

definition jindex :: "payload \<Rightarrow> string \<Rightarrow> json res" where
  "jindex p k = some_or (KeyError k) (map_of p k)"

definition as_obj :: "json \<Rightarrow> payload res" where
  "as_obj v = (case v of JObj p \<Rightarrow> Inr p | _ \<Rightarrow> Inl (ValueError ''not an object''))"

definition node_ref_from_endpoint :: "uuid \<Rightarrow> json \<Rightarrow> node_ref res" where
  "node_ref_from_endpoint env ep =
     bindE (as_obj ep) (\<lambda>p.
     bindE (jindex p ''kind'') (\<lambda>kind.
     bindE (jindex p ''id'') (\<lambda>i.
       case (kind, i) of
         (JStr k, JUuid u) \<Rightarrow> Inr \<lparr>nr_env_id = env, nr_kind = k, nr_record_id = u\<rparr>
       | _ \<Rightarrow> Inl (ValueError ''badly formed hexadecimal UUID string''))))"

definition handle_entity_event :: "leased_event \<Rightarrow> sink_call list res" where
  "handle_entity_event e =
     (let node = \<lparr>nr_env_id = le_env_id e, nr_kind = ''entity'', nr_record_id = le_aggregate_id e\<rparr> in
      if le_op e = OP_tombstone then Inr [GraphDeleteSubgraph (le_env_id e) [node]]
      else if le_op e \<noteq> OP_upsert \<and> le_op e \<noteq> OP_update then Inl (ValueError ''unexpected op'')
      else Inr [GraphUpsertNode node (entity_attrs_from_payload (le_payload e))])"

definition obj_or_empty :: "json \<Rightarrow> payload" where
  "obj_or_empty v = (case v of JObj p \<Rightarrow> p | _ \<Rightarrow> [])"

definition handle_relation_event :: "leased_event \<Rightarrow> sink_call list res" where
  "handle_relation_event e =
     (let p = le_payload e in
      if le_op e = OP_tombstone then Inl (NotImplementedError ''relation tombstone'')
      else if le_op e \<noteq> OP_upsert \<and> le_op e \<noteq> OP_update then Inl (ValueError ''unexpected op'')
      else
        bindE (jindex p ''src'') (\<lambda>s. bindE (node_ref_from_endpoint (le_env_id e) s) (\<lambda>src.
        bindE (jindex p ''dst'') (\<lambda>t. bindE (node_ref_from_endpoint (le_env_id e) t) (\<lambda>dst.
        bindE (jindex p ''type'') (\<lambda>ty.
          Inr [GraphUpsertEdge \<lparr>ge_env_id = le_env_id e, ge_src = src, ge_dst = dst,
                 ge_edge_type = text_field p ''type'',
                 ge_properties = obj_or_empty (jget p ''properties'')\<rparr>]))))))"

definition handle_task_event :: "leased_event \<Rightarrow> sink_call list res" where
  "handle_task_event e =
     (if le_op e = OP_tombstone then Inr []
      else if le_op e \<noteq> OP_upsert \<and> le_op e \<noteq> OP_update then Inl (ValueError ''unexpected op'')
      else Inr [GraphUpsertNode
             \<lparr>nr_env_id = le_env_id e, nr_kind = ''task'', nr_record_id = le_aggregate_id e\<rparr>
             (task_attrs_from_payload (le_payload e))])"

definition handle_neo4j_event :: "leased_event \<Rightarrow> sink_call list res" where
  "handle_neo4j_event e =
     (if le_aggregate_type e = AT_entity then handle_entity_event e
      else if le_aggregate_type e = AT_relation then handle_relation_event e
      else if le_aggregate_type e = AT_task then handle_task_event e
      else Inl (ValueError ''neo4j handler: expected entity or relation or task''))"

subsection \<open>Routing and execution\<close>

text \<open>
  \<open>_dispatch_event\<close>: which stores \<open>drain_once\<close> was given (\<open>vec\<close>, \<open>gr\<close>) and the embedder.
\<close>

definition dispatch_event ::
  "outbox_sink \<Rightarrow> bool \<Rightarrow> embedder option \<Rightarrow> bool \<Rightarrow> leased_event \<Rightarrow> sink_call list res" where
  "dispatch_event sink vec emb gr e =
     (if sink = SK_qdrant then
        (case emb of
           Some m \<Rightarrow> if vec then handle_qdrant_event m e
                     else Inl (ValueError ''drain_once(sink=qdrant) requires vector_store + embedder'')
         | None \<Rightarrow> Inl (ValueError ''drain_once(sink=qdrant) requires vector_store + embedder''))
      else if sink = SK_neo4j then
        (if gr then handle_neo4j_event e
         else Inl (ValueError ''drain_once(sink=neo4j) requires graph_store''))
      else Inl (NotImplementedError ''sink not handled''))"

text \<open>
  The stores as a transition function \<open>exec\<close> on a world of their own; the first call that
  raises ends the handler.
\<close>

fun run_calls :: "(sink_call \<Rightarrow> 'w \<Rightarrow> 'w \<times> error option) \<Rightarrow> sink_call list \<Rightarrow> 'w \<Rightarrow> 'w \<times> error option" where
  "run_calls exec [] w = (w, None)"
| "run_calls exec (c # cs) w =
     (case exec c w of (w', None) \<Rightarrow> run_calls exec cs w' | (w', Some e) \<Rightarrow> (w', Some e))"

lemma qdrant_tombstone:
  "le_aggregate_type e = AT_memory \<Longrightarrow> is_tombstone_event e \<Longrightarrow>
   handle_qdrant_event emb e = Inr [VectorDelete (le_env_id e) (le_aggregate_id e)]"
  by (simp add: handle_qdrant_event_def Let_def)

text \<open>The store calls of a handler concern the event's own point or node only.\<close>

fun call_target :: "sink_call \<Rightarrow> uuid option" where
  "call_target (VectorDelete env pt) = Some pt"
| "call_target (VectorEnsureCollection env n) = None"
| "call_target (VectorUpsert env pt vs p) = Some pt"
| "call_target (GraphDeleteSubgraph env ns) = None"
| "call_target (GraphUpsertNode n p) = Some (nr_record_id n)"
| "call_target (GraphUpsertEdge g) = None"

lemma qdrant_targets:
  assumes "handle_qdrant_event emb e = Inr cs"
  shows "\<forall>c \<in> set cs. call_target c = None \<or> call_target c = Some (le_aggregate_id e)"
  using assms
  by (auto simp: handle_qdrant_event_def Let_def res_simps split: if_splits)

end
