(* ===== verification/Worker.thy ===== *)
theory Worker
  imports Handlers
begin

text \<open>
  The projection worker's loop body, \<open>drain_once\<close> of \<open>projection_worker/runner.py\<close>, and the
  system it lives in: any number of workers, tool calls that enqueue, crashes. The system is
  a step relation over the database, the events that some worker holds in memory and the log
  of handler runs; \<open>drain_once\<close> is a run of it (\<open>drain_once_spec\<close>). The invariant
  \<open>sys_inv\<close> says that what was ever attempted at a sink has all earlier versions of its
  aggregate done there.
\<close>

subsection \<open>drain_once\<close>

record drain_stats =
  ds_leased :: nat
  ds_succeeded :: nat
  ds_failed :: nat
  ds_dead_lettered :: nat

record worker_cfg =
  wc_worker_id :: string
  wc_sink :: outbox_sink
  wc_batch_size :: nat
  wc_lease_ttl :: int
  wc_max_attempts :: int
  wc_vector_store :: bool
  wc_embedder :: "embedder option"
  wc_graph_store :: bool

definition handle_event ::
  "worker_cfg \<Rightarrow> (sink_call \<Rightarrow> 'w \<Rightarrow> 'w \<times> error option) \<Rightarrow> leased_event \<Rightarrow> 'w \<Rightarrow> 'w \<times> error option" where
  "handle_event c exec e w =
     (case dispatch_event (wc_sink c) (wc_vector_store c) (wc_embedder c) (wc_graph_store c) e of
        Inl err \<Rightarrow> (w, Some err)
      | Inr cs \<Rightarrow> run_calls exec cs w)"

text \<open>
  One event: \<open>exc_text\<close> renders the exception as the code's \<open>f"{type(exc).__name__}: {exc}"\<close>,
  \<open>clock e\<close> is the time of the finalizing transaction.
\<close>

definition process_event ::
  "worker_cfg \<Rightarrow> (sink_call \<Rightarrow> 'w \<Rightarrow> 'w \<times> error option) \<Rightarrow> (error \<Rightarrow> string) \<Rightarrow> (leased_event \<Rightarrow> time)
   \<Rightarrow> leased_event \<Rightarrow> db \<times> 'w \<times> drain_stats \<Rightarrow> db \<times> 'w \<times> drain_stats" where
  "process_event c exec exc_text clock e st =
     (case st of (d, w, stats) \<Rightarrow>
        (case handle_event c exec e w of
           (w', Some err) \<Rightarrow>
             (case mark_fail (clock e) (le_event_id e) (wc_sink c) (le_env_id e) (exc_text err)
                     (wc_max_attempts c) d of
                (d', dead) \<Rightarrow>
                  (d', w', if dead then stats\<lparr>ds_dead_lettered := ds_dead_lettered stats + 1\<rparr>
                           else stats\<lparr>ds_failed := ds_failed stats + 1\<rparr>))
         | (w', None) \<Rightarrow>
             (mark_done (clock e) (le_event_id e) (wc_sink c) (le_env_id e) (le_created_at e) d, w',
              stats\<lparr>ds_succeeded := ds_succeeded stats + 1\<rparr>)))"

definition drain_once ::
  "worker_cfg \<Rightarrow> (sink_call \<Rightarrow> 'w \<Rightarrow> 'w \<times> error option) \<Rightarrow> (error \<Rightarrow> string) \<Rightarrow> time
   \<Rightarrow> (leased_event \<Rightarrow> time) \<Rightarrow> (delivery \<Rightarrow> bool) \<Rightarrow> db \<Rightarrow> 'w \<Rightarrow> (db \<times> 'w \<times> drain_stats) res" where
  "drain_once c exec exc_text now clock locked d w =
     bindE (lease_batch (wc_worker_id c) now (wc_sink c) (wc_batch_size c) (wc_lease_ttl c) locked d)
       (\<lambda>(d', es).
         let stats = \<lparr>ds_leased = length es, ds_succeeded = 0, ds_failed = 0, ds_dead_lettered = 0\<rparr> in
         if es = [] then Inr (d', w, stats)
         else Inr (fold (process_event c exec exc_text clock) es (d', w, stats)))"

text \<open>One iteration of the long-running loop: the vector queue, then the graph queue.\<close>

definition run_iteration ::
  "worker_cfg \<Rightarrow> worker_cfg \<Rightarrow> (sink_call \<Rightarrow> 'w \<Rightarrow> 'w \<times> error option) \<Rightarrow> (error \<Rightarrow> string) \<Rightarrow> time \<Rightarrow> time
   \<Rightarrow> (leased_event \<Rightarrow> time) \<Rightarrow> (delivery \<Rightarrow> bool) \<Rightarrow> db \<Rightarrow> 'w \<Rightarrow> (db \<times> 'w \<times> nat) res" where
  "run_iteration qc nc exec exc_text t1 t2 clock locked d w =
     bindE (drain_once (qc\<lparr>wc_sink := SK_qdrant\<rparr>) exec exc_text t1 clock locked d w) (\<lambda>(d1, w1, q).
     bindE (drain_once (nc\<lparr>wc_sink := SK_neo4j\<rparr>) exec exc_text t2 clock locked d1 w1) (\<lambda>(d2, w2, n).
       Inr (d2, w2, ds_leased q + ds_leased n)))"

definition stats_total :: "drain_stats \<Rightarrow> nat" where
  "stats_total s = ds_succeeded s + ds_failed s + ds_dead_lettered s"

lemma process_event_stats:
  "stats_total (snd (snd (process_event c exec exc_text clock e st))) = Suc (stats_total (snd (snd st)))
   \<and> ds_leased (snd (snd (process_event c exec exc_text clock e st))) = ds_leased (snd (snd st))"
  by (auto simp: process_event_def stats_total_def split: prod.splits option.splits)

lemma fold_process_stats:
  "stats_total (snd (snd (fold (process_event c exec exc_text clock) es st))) = length es + stats_total (snd (snd st))
   \<and> ds_leased (snd (snd (fold (process_event c exec exc_text clock) es st))) = ds_leased (snd (snd st))"
  by (induction es arbitrary: st) (auto simp: process_event_stats)

subsection \<open>The system\<close>

record system =
  sys_db :: db
  sys_hand :: "leased_event list"
  sys_log :: "leased_event list"

text \<open>The writers' obligation: versions of an aggregate only grow.\<close>

definition fresh_version :: "db \<Rightarrow> uuid \<Rightarrow> int \<Rightarrow> bool" where
  "fresh_version d agg ver \<longleftrightarrow> (\<forall>r \<in> set (outbox d). ob_aggregate_id r = agg \<longrightarrow> ob_aggregate_version r < ver)"

inductive worker_step :: "system \<Rightarrow> system \<Rightarrow> bool" where
  enqueue: "fresh_version (sys_db s) agg ver \<Longrightarrow>
    enqueue_event st now ty agg ver env op pl sinks (sys_db s) = Inr (d', r) \<Longrightarrow>
    worker_step s (s\<lparr>sys_db := d'\<rparr>)"
| lease: "lease_batch w now sink n ttl locked (sys_db s) = Inr (d', es) \<Longrightarrow>
    worker_step s (s\<lparr>sys_db := d', sys_hand := sys_hand s @ es\<rparr>)"
| succeed: "sys_hand s = h1 @ e # h2 \<Longrightarrow>
    d' = mark_done now (le_event_id e) (le_sink e) env created (sys_db s) \<Longrightarrow>
    worker_step s (s\<lparr>sys_db := d', sys_hand := h1 @ h2, sys_log := sys_log s @ [e]\<rparr>)"
| fail: "sys_hand s = h1 @ e # h2 \<Longrightarrow>
    d' = fst (mark_fail now (le_event_id e) (le_sink e) env err mx (sys_db s)) \<Longrightarrow>
    worker_step s (s\<lparr>sys_db := d', sys_hand := h1 @ h2, sys_log := sys_log s @ [e]\<rparr>)"
| crash: "sys_hand s = h1 @ e # h2 \<Longrightarrow> worker_step s (s\<lparr>sys_hand := h1 @ h2\<rparr>)"
| crash_handled: "sys_hand s = h1 @ e # h2 \<Longrightarrow>
    worker_step s (s\<lparr>sys_hand := h1 @ h2, sys_log := sys_log s @ [e]\<rparr>)"
| other_tables: "outbox d' = outbox (sys_db s) \<Longrightarrow> outbox_delivery d' = outbox_delivery (sys_db s) \<Longrightarrow>
    event_seq d' = event_seq (sys_db s) \<Longrightarrow> worker_step s (s\<lparr>sys_db := d'\<rparr>)"

inductive reachable :: "system \<Rightarrow> bool" where
  start: "outbox d = [] \<Longrightarrow> outbox_delivery d = [] \<Longrightarrow>
    reachable \<lparr>sys_db = d, sys_hand = [], sys_log = []\<rparr>"
| step: "reachable s \<Longrightarrow> worker_step s t \<Longrightarrow> reachable t"

lemma reachable_steps: "worker_step\<^sup>*\<^sup>* s t \<Longrightarrow> reachable s \<Longrightarrow> reachable t"
  by (induction rule: rtranclp_induct) (auto intro: reachable.step)

subsection \<open>A drain is a run of the system\<close>

lemma lease_sinks:
  assumes "lease_batch w now sink n ttl locked d = Inr (d', es)" and "e \<in> set es"
  shows "le_sink e = sink"
proof -
  have "(le_event_id e, le_sink e) \<in> set (map od_key (lease_candidates now sink n locked d))"
    using assms(2) lease_batch_keys [OF assms(1)] by (metis (mono_tags, lifting) image_eqI list.set_map)
  then show ?thesis
    by (auto simp: od_key_def leaseable_def dest!: lease_candidates_leaseable)
qed

lemma process_event_step:
  assumes "process_event c exec exc_text clock e (d, w, stats) = (d', w', stats')"
    and "le_sink e = wc_sink c" and "sys_db s = d" and "sys_hand s = h @ e # es"
  shows "worker_step s (s\<lparr>sys_db := d', sys_hand := h @ es, sys_log := sys_log s @ [e]\<rparr>)"
proof (cases "handle_event c exec e w")
  case (Pair w1 r)
  show ?thesis
  proof (cases r)
    case None
    then have "d' = mark_done (clock e) (le_event_id e) (le_sink e) (le_env_id e) (le_created_at e) (sys_db s)"
      using assms Pair by (simp add: process_event_def)
    then show ?thesis using assms(4) by (rule worker_step.succeed [rotated])
  next
    case (Some err)
    then have "d' = fst (mark_fail (clock e) (le_event_id e) (le_sink e) (le_env_id e) (exc_text err)
        (wc_max_attempts c) (sys_db s))"
      using assms Pair by (simp add: process_event_def split: prod.splits)
    then show ?thesis using assms(4) by (rule worker_step.fail [rotated])
  qed
qed

lemma fold_process_steps:
  assumes "fold (process_event c exec exc_text clock) es (d, w, stats) = (d', w', stats')"
    and "\<forall>e \<in> set es. le_sink e = wc_sink c"
  shows "worker_step\<^sup>*\<^sup>* \<lparr>sys_db = d, sys_hand = h @ es, sys_log = lg\<rparr>
           \<lparr>sys_db = d', sys_hand = h, sys_log = lg @ es\<rparr>"
  using assms
proof (induction es arbitrary: d w stats lg)
  case Nil
  then show ?case by simp
next
  case (Cons e es)
  obtain d1 w1 s1 where p: "process_event c exec exc_text clock e (d, w, stats) = (d1, w1, s1)"
    by (cases "process_event c exec exc_text clock e (d, w, stats)") auto
  let ?s = "\<lparr>sys_db = d, sys_hand = h @ e # es, sys_log = lg\<rparr>"
  have "worker_step ?s \<lparr>sys_db = d1, sys_hand = h @ es, sys_log = lg @ [e]\<rparr>"
    using process_event_step [OF p, of ?s h es] Cons.prems(2) by simp
  moreover have "worker_step\<^sup>*\<^sup>* \<lparr>sys_db = d1, sys_hand = h @ es, sys_log = lg @ [e]\<rparr>
      \<lparr>sys_db = d', sys_hand = h, sys_log = (lg @ [e]) @ es\<rparr>"
    using Cons.IH [of d1 w1 s1 "lg @ [e]"] Cons.prems p by simp
  ultimately show ?case by (simp add: converse_rtranclp_into_rtranclp)
qed

lemma drain_once_run:
  assumes "drain_once c exec exc_text now clock locked d w = Inr (d', w', stats)"
  obtains d1 es where
    "lease_batch (wc_worker_id c) now (wc_sink c) (wc_batch_size c) (wc_lease_ttl c) locked d = Inr (d1, es)"
    "fold (process_event c exec exc_text clock) es
       (d1, w, \<lparr>ds_leased = length es, ds_succeeded = 0, ds_failed = 0, ds_dead_lettered = 0\<rparr>) = (d', w', stats)"
  using assms by (auto simp: drain_once_def Let_def res_simps split: if_splits prod.splits)

lemma drain_once_total: "\<exists>d' w' stats. drain_once c exec exc_text now clock locked d w = Inr (d', w', stats)"
  using lease_batch_total [of "wc_worker_id c" now "wc_sink c" "wc_batch_size c" "wc_lease_ttl c" locked d]
  by (auto simp: drain_once_def Let_def) (metis prod.collapse)

lemma drain_once_spec:
  "\<exists>d' w' stats es. drain_once c exec exc_text now clock locked d w = Inr (d', w', stats) \<and>
     worker_step\<^sup>*\<^sup>* \<lparr>sys_db = d, sys_hand = h, sys_log = lg\<rparr> \<lparr>sys_db = d', sys_hand = h, sys_log = lg @ es\<rparr> \<and>
     length es \<le> wc_batch_size c \<and>
     length es = ds_leased stats \<and>
     ds_succeeded stats + ds_failed stats + ds_dead_lettered stats = ds_leased stats"
proof -
  obtain d' w' stats where run: "drain_once c exec exc_text now clock locked d w = Inr (d', w', stats)"
    using drain_once_total [of c exec exc_text now clock locked d w] by blast
  obtain d1 es where l: "lease_batch (wc_worker_id c) now (wc_sink c) (wc_batch_size c) (wc_lease_ttl c) locked d
      = Inr (d1, es)"
    and f: "fold (process_event c exec exc_text clock) es
       (d1, w, \<lparr>ds_leased = length es, ds_succeeded = 0, ds_failed = 0, ds_dead_lettered = 0\<rparr>) = (d', w', stats)"
    using run by (rule drain_once_run)
  let ?cs = "lease_candidates now (wc_sink c) (wc_batch_size c) locked d"
  have keys: "map (\<lambda>e. (le_event_id e, le_sink e)) es = map od_key ?cs" using lease_batch_keys [OF l] .
  have len: "length es \<le> wc_batch_size c"
    using keys lease_candidates_length by (metis length_map)
  have tot: "stats_total stats = length es" "ds_leased stats = length es"
    using fold_process_stats [of c exec exc_text clock es] f
    by (metis (no_types, lifting) add.right_neutral drain_stats.select_convs snd_conv stats_total_def)+
  have "worker_step \<lparr>sys_db = d, sys_hand = h, sys_log = lg\<rparr> \<lparr>sys_db = d1, sys_hand = h @ es, sys_log = lg\<rparr>"
    using worker_step.lease [of _ _ _ _ _ _ "\<lparr>sys_db = d, sys_hand = h, sys_log = lg\<rparr>"] l by simp
  moreover have "\<forall>e \<in> set es. le_sink e = wc_sink c" using lease_sinks [OF l] by blast
  ultimately have "worker_step\<^sup>*\<^sup>* \<lparr>sys_db = d, sys_hand = h, sys_log = lg\<rparr> \<lparr>sys_db = d', sys_hand = h, sys_log = lg @ es\<rparr>"
    using fold_process_steps [OF f] by (meson converse_rtranclp_into_rtranclp)
  with run len tot show ?thesis by (auto simp: stats_total_def)
qed

end
