(* ===== verification/Ordering.thy ===== *)
theory Ordering
  imports Worker
begin

text \<open>
  What the outbox protocol guarantees over every interleaving of writers, workers and
  crashes: handler runs of one aggregate at one sink happen in version order; a finished
  delivery is never run again; and what happens behind a dead-lettered or abandoned
  delivery. The proofs are an invariant of \<open>worker_step\<close> by rule induction; each step is a
  pointwise update of the delivery table.
\<close>

subsection \<open>Deliveries by aggregate and version\<close>

definition deliv :: "db \<Rightarrow> uuid \<Rightarrow> int \<Rightarrow> outbox_sink \<Rightarrow> delivery \<Rightarrow> bool" where
  "deliv d a v s q \<longleftrightarrow> q \<in> set (outbox_delivery d) \<and> od_sink q = s \<and>
     (\<exists>r \<in> set (outbox d). ob_event_id r = od_event_id q \<and> ob_aggregate_id r = a \<and> ob_aggregate_version r = v)"

definition attempted :: "delivery \<Rightarrow> bool" where
  "attempted q \<longleftrightarrow> od_status q \<noteq> OD_pending \<or> 0 < od_attempt_count q"

text \<open>All earlier versions of the aggregate are done at the sink.\<close>

definition lower_done :: "db \<Rightarrow> uuid \<Rightarrow> int \<Rightarrow> outbox_sink \<Rightarrow> bool" where
  "lower_done d a v s \<longleftrightarrow> (\<forall>v' q'. deliv d a v' s q' \<and> v' < v \<longrightarrow> od_status q' = OD_done)"

definition versions_ok :: "db \<Rightarrow> bool" where
  "versions_ok d \<longleftrightarrow> outbox_ok d \<and>
     distinct (map (\<lambda>r. (ob_aggregate_id r, ob_aggregate_version r)) (outbox d))"

definition attempts_ordered :: "db \<Rightarrow> bool" where
  "attempts_ordered d \<longleftrightarrow> (\<forall>a v s q. deliv d a v s q \<and> attempted q \<longrightarrow> lower_done d a v s)"

definition le_key :: "leased_event \<Rightarrow> int \<times> outbox_sink" where
  "le_key e = (le_event_id e, le_sink e)"

definition in_flight_at :: "db \<Rightarrow> leased_event \<Rightarrow> bool" where
  "in_flight_at d e \<longleftrightarrow> (\<exists>q. deliv d (le_aggregate_id e) (le_aggregate_version e) (le_sink e) q \<and>
     od_key q = le_key e \<and> od_status q = OD_in_flight)"

definition hand_ok :: "db \<Rightarrow> leased_event list \<Rightarrow> bool" where
  "hand_ok d hand \<longleftrightarrow> (\<forall>e \<in> set hand. in_flight_at d e) \<and> distinct (map le_key hand)"

definition logged_at :: "db \<Rightarrow> leased_event \<Rightarrow> bool" where
  "logged_at d e \<longleftrightarrow> (\<exists>q. deliv d (le_aggregate_id e) (le_aggregate_version e) (le_sink e) q \<and> attempted q)"

definition same_stream :: "leased_event \<Rightarrow> leased_event \<Rightarrow> bool" where
  "same_stream e e' \<longleftrightarrow> le_aggregate_id e = le_aggregate_id e' \<and> le_sink e = le_sink e'"

definition version_order :: "leased_event \<Rightarrow> leased_event \<Rightarrow> bool" where
  "version_order e e' \<longleftrightarrow> (same_stream e e' \<longrightarrow> le_aggregate_version e \<le> le_aggregate_version e')"

definition sys_inv :: "system \<Rightarrow> bool" where
  "sys_inv s \<longleftrightarrow> versions_ok (sys_db s) \<and> attempts_ordered (sys_db s) \<and> hand_ok (sys_db s) (sys_hand s) \<and>
     (\<forall>e \<in> set (sys_log s). logged_at (sys_db s) e) \<and> sorted_wrt version_order (sys_log s)"

lemma deliv_key_row:
  "deliv d a v s q \<longleftrightarrow> q \<in> set (outbox_delivery d) \<and> od_sink q = s \<and>
     (\<exists>r \<in> set (outbox d). ob_event_id r = fst (od_key q) \<and> ob_aggregate_id r = a \<and> ob_aggregate_version r = v)"
  by (simp add: deliv_def od_key_def)

lemma deliv_unique:
  assumes ok: "versions_ok d" and q: "deliv d a v s q" and q': "deliv d a v s q'"
  shows "q = q'"
proof -
  obtain r r' where r: "r \<in> set (outbox d)" "ob_event_id r = od_event_id q" "ob_aggregate_id r = a"
      "ob_aggregate_version r = v" "r' \<in> set (outbox d)" "ob_event_id r' = od_event_id q'"
      "ob_aggregate_id r' = a" "ob_aggregate_version r' = v"
    using q q' by (auto simp: deliv_def)
  have "r = r'"
    using ok r by (auto simp: versions_ok_def distinct_map inj_on_def)
  then have "od_key q = od_key q'" using q q' r by (simp add: deliv_def od_key_def)
  moreover have "inj_on od_key (set (outbox_delivery d))"
    using ok by (simp add: versions_ok_def outbox_ok_def distinct_map)
  ultimately show ?thesis using q q' by (auto simp: deliv_def inj_on_def)
qed

lemma deliv_same_key:
  assumes ok: "versions_ok d" and "deliv d a v s q" and "deliv d a' v' s' q'" and "od_key q = od_key q'"
  shows "q = q' \<and> a = a' \<and> v = v' \<and> s = s'"
proof -
  have inj: "inj_on od_key (set (outbox_delivery d))" and inj': "inj_on ob_event_id (set (outbox d))"
    using ok by (simp_all add: versions_ok_def outbox_ok_def distinct_map)
  then have "q = q'" using assms by (auto simp: deliv_def inj_on_def)
  then show ?thesis using assms inj' by (auto simp: deliv_def inj_on_def)
qed

subsection \<open>Pointwise updates of the delivery table\<close>

definition delivery_update :: "(delivery \<Rightarrow> bool) \<Rightarrow> (delivery \<Rightarrow> delivery) \<Rightarrow> db \<Rightarrow> db \<Rightarrow> bool" where
  "delivery_update P f d d' \<longleftrightarrow> outbox d' = outbox d \<and> event_seq d' = event_seq d \<and>
     outbox_delivery d' = update_where P f (outbox_delivery d) \<and>
     (\<forall>q. od_key (f q) = od_key q) \<and> (\<forall>q. 0 \<le> od_attempt_count q \<longrightarrow> 0 \<le> od_attempt_count (f q))"

lemma key_sink: "od_key q = od_key q' \<Longrightarrow> od_sink q = od_sink q' \<and> od_event_id q = od_event_id q'"
  by (simp add: od_key_def)

lemma update_key:
  assumes "delivery_update P f d d'"
  shows "od_sink (f q) = od_sink q \<and> od_event_id (f q) = od_event_id q"
proof -
  have "od_key (f q) = od_key q" using assms by (simp add: delivery_update_def)
  then show ?thesis by (rule key_sink)
qed

lemma deliv_update:
  assumes up: "delivery_update P f d d'"
  shows "deliv d' a v s q' \<longleftrightarrow> (\<exists>q. deliv d a v s q \<and> q' = (if P q then f q else q))"
proof -
  define g where "g = (\<lambda>q. if P q then f q else q)"
  have o: "outbox d' = outbox d" and "outbox_delivery d' = update_where P f (outbox_delivery d)"
    using up by (simp_all add: delivery_update_def)
  then have del: "set (outbox_delivery d') = g ` set (outbox_delivery d)"
    by (simp add: set_update_where g_def)
  have k: "od_sink (g q) = od_sink q \<and> od_event_id (g q) = od_event_id q" for q
    using update_key [OF up] by (simp add: g_def)
  have "deliv d' a v s q' \<longleftrightarrow> (\<exists>q. deliv d a v s q \<and> q' = g q)"
  proof
    assume "deliv d' a v s q'"
    then obtain q where q: "q \<in> set (outbox_delivery d)" "q' = g q" and "od_sink q' = s"
      "\<exists>r \<in> set (outbox d). ob_event_id r = od_event_id q' \<and> ob_aggregate_id r = a \<and> ob_aggregate_version r = v"
      unfolding deliv_def o del by blast
    then have "deliv d a v s q" using k [of q] by (simp add: deliv_def)
    then show "\<exists>q. deliv d a v s q \<and> q' = g q" using q by blast
  next
    assume "\<exists>q. deliv d a v s q \<and> q' = g q"
    then show "deliv d' a v s q'" using k by (auto simp: deliv_def o del)
  qed
  then show ?thesis by (simp only: g_def)
qed

lemma deliv_updateE:
  assumes up: "delivery_update P f d d'" and "deliv d' a v s q'"
  obtains q where "deliv d a v s q" "q \<in> set (outbox_delivery d)" "q' = (if P q then f q else q)"
proof -
  obtain q where q: "deliv d a v s q" "q' = (if P q then f q else q)"
    using assms(2) unfolding deliv_update [OF up] by blast
  have "q \<in> set (outbox_delivery d)" using q(1) by (simp add: deliv_def)
  with q show ?thesis by (intro that)
qed

lemma deliv_updateI:
  "delivery_update P f d d' \<Longrightarrow> deliv d a v s q \<Longrightarrow> deliv d' a v s (if P q then f q else q)"
  by (auto simp: deliv_update)

lemma versions_ok_update:
  assumes "delivery_update P f d d'" and ok: "versions_ok d"
  shows "versions_ok d'"
proof -
  have k: "\<And>q. od_key (f q) = od_key q" and "outbox d' = outbox d" "event_seq d' = event_seq d"
    and del: "outbox_delivery d' = update_where P f (outbox_delivery d)"
    and att: "\<And>q. 0 \<le> od_attempt_count q \<Longrightarrow> 0 \<le> od_attempt_count (f q)"
    using assms(1) by (simp_all add: delivery_update_def)
  moreover have "map od_key (outbox_delivery d') = map od_key (outbox_delivery d)"
    unfolding del by (rule map_key_update_where) (rule k)
  moreover have "\<forall>q \<in> set (outbox_delivery d'). od_event_id q \<in> ob_event_id ` set (outbox d) \<and> 0 \<le> od_attempt_count q"
  proof
    fix q' assume "q' \<in> set (outbox_delivery d')"
    then obtain q where q: "q \<in> set (outbox_delivery d)" "q' = (if P q then f q else q)"
      by (auto simp: del set_update_where)
    have "od_event_id q' = od_event_id q" using q update_key [OF assms(1)] by simp
    then show "od_event_id q' \<in> ob_event_id ` set (outbox d) \<and> 0 \<le> od_attempt_count q'"
      using ok q att by (auto simp: versions_ok_def outbox_ok_def)
  qed
  ultimately show ?thesis using ok by (simp add: versions_ok_def outbox_ok_def)
qed

text \<open>
  An update that keeps done deliveries done, and attempts only deliveries that were attempted
  before or have all lower versions done, keeps the order of attempts.
\<close>

lemma lower_done_update:
  assumes up: "delivery_update P f d d'" and low: "lower_done d a v s"
    and keep: "\<And>q. q \<in> set (outbox_delivery d) \<Longrightarrow> P q \<Longrightarrow> od_status q = OD_done \<Longrightarrow> od_status (f q) = OD_done"
  shows "lower_done d' a v s"
  unfolding lower_done_def
proof (intro allI impI, elim conjE)
  fix v' q' assume q': "deliv d' a v' s q'" and "v' < v"
  obtain q where q: "deliv d a v' s q" "q \<in> set (outbox_delivery d)" "q' = (if P q then f q else q)"
    using up q' by (rule deliv_updateE)
  have "od_status q = OD_done" using low q(1) \<open>v' < v\<close> unfolding lower_done_def by blast
  then show "od_status q' = OD_done" using q keep by (cases "P q") simp_all
qed

lemma attempts_ordered_update:
  assumes up: "delivery_update P f d d'" and ord: "attempts_ordered d"
    and keep: "\<And>q. q \<in> set (outbox_delivery d) \<Longrightarrow> P q \<Longrightarrow> od_status q = OD_done \<Longrightarrow> od_status (f q) = OD_done"
    and new: "\<And>a v s q. deliv d a v s q \<Longrightarrow> P q \<Longrightarrow> attempted (f q) \<Longrightarrow> attempted q \<or> lower_done d a v s"
  shows "attempts_ordered d'"
  unfolding attempts_ordered_def
proof (intro allI impI, elim conjE)
  fix a v s q' assume q': "deliv d' a v s q'" and att: "attempted q'"
  obtain q where q: "deliv d a v s q" "q' = (if P q then f q else q)"
    using up q' by (rule deliv_updateE)
  have "attempted q \<or> lower_done d a v s" using q att new [of a v s q] by (cases "P q") simp_all
  then have "lower_done d a v s" using ord q(1) unfolding attempts_ordered_def by blast
  then show "lower_done d' a v s" by (rule lower_done_update [OF up]) (rule keep)
qed

lemma logged_update:
  assumes up: "delivery_update P f d d'" and "logged_at d e"
    and keep: "\<And>q. q \<in> set (outbox_delivery d) \<Longrightarrow> P q \<Longrightarrow> attempted q \<Longrightarrow> attempted (f q)"
  shows "logged_at d' e"
proof -
  obtain q where q: "deliv d (le_aggregate_id e) (le_aggregate_version e) (le_sink e) q" "attempted q"
    using assms(2) unfolding logged_at_def by blast
  then have "attempted (if P q then f q else q)" using keep by (simp add: deliv_def)
  then show ?thesis using deliv_updateI [OF up q(1)] unfolding logged_at_def by blast
qed

lemma in_flight_update:
  assumes up: "delivery_update P f d d'" and "in_flight_at d e"
    and keep: "\<And>q. q \<in> set (outbox_delivery d) \<Longrightarrow> od_key q = le_key e \<Longrightarrow> od_status q = OD_in_flight \<Longrightarrow> \<not> P q"
  shows "in_flight_at d' e"
proof -
  obtain q where q: "deliv d (le_aggregate_id e) (le_aggregate_version e) (le_sink e) q"
      "od_key q = le_key e" "od_status q = OD_in_flight"
    using assms(2) unfolding in_flight_at_def by blast
  then have "\<not> P q" using keep by (simp add: deliv_def)
  then show ?thesis using deliv_updateI [OF up q(1)] q unfolding in_flight_at_def by auto
qed

subsection \<open>The three statements as updates\<close>

lemma lease_update:
  assumes "lease_batch w now sink n ttl locked d = Inr (d', es)"
  shows "delivery_update (\<lambda>q. od_key q \<in> od_key ` set (lease_candidates now sink n locked d))
           (mark_leased w now ttl) d d'"
  using lease_batch_cases(1) [OF assms] by (simp add: delivery_update_def)

lemma done_update:
  "delivery_update (\<lambda>q. od_key q = (eid, sink)) (finish_delivery now) d (mark_done now eid sink env created d)"
  by (simp add: delivery_update_def mark_done_def)

lemma fail_update:
  assumes "versions_ok d"
  obtains f where
    "delivery_update (\<lambda>q. od_key q = (eid, sink)) f d (fst (mark_fail now eid sink env err mx d))"
    "\<And>q. attempted (f q)" "\<And>q. od_status (f q) = OD_dead \<or> od_status (f q) = OD_pending"
proof -
  let ?d = "fst (mark_fail now eid sink env err mx d)" and ?P = "\<lambda>q. od_key q = (eid, sink)"
  have nonneg: "\<not> (\<exists>q \<in> set (outbox_delivery d). od_attempt_count q < 0)"
    using assms by (auto simp: versions_ok_def outbox_ok_def)
  obtain ac msg where o: "outbox ?d = outbox d" "event_seq ?d = event_seq d" and ac: "0 < ac"
    and del: "outbox_delivery ?d = update_where ?P (bury_delivery ac msg) (outbox_delivery d) \<or>
      outbox_delivery ?d = update_where ?P (requeue_delivery now ac msg) (outbox_delivery d)"
    by (rule mark_fail_shape [of now eid sink env err mx d]) (use nonneg in blast)
  from del show ?thesis
  proof
    assume "outbox_delivery ?d = update_where ?P (bury_delivery ac msg) (outbox_delivery d)"
    then have "delivery_update ?P (bury_delivery ac msg) d ?d" using o ac by (simp add: delivery_update_def)
    then show ?thesis by (rule that) (simp_all add: attempted_def)
  next
    assume "outbox_delivery ?d = update_where ?P (requeue_delivery now ac msg) (outbox_delivery d)"
    then have "delivery_update ?P (requeue_delivery now ac msg) d ?d" using o ac by (simp add: delivery_update_def)
    then show ?thesis by (rule that) (simp_all add: attempted_def ac)
  qed
qed

subsection \<open>Leased deliveries have all lower versions done\<close>

lemma leaseable_lower_done:
  assumes ok: "versions_ok d" and l: "leaseable now sink d q" and q: "deliv d a v s q"
  shows "s = sink \<and> lower_done d a v s"
proof
  show s: "s = sink" using l q by (auto simp: leaseable_def deliv_def)
  obtain r where r: "r \<in> set (outbox d)" "ob_event_id r = od_event_id q" "ob_aggregate_id r = a"
      "ob_aggregate_version r = v"
    using q by (auto simp: deliv_def)
  have "lookup ob_event_id (od_event_id q) (outbox d) = Some r"
    using ok r distinct_lookup by (metis outbox_ok_def versions_ok_def)
  then have "\<not> prior_unfinished d sink r" using l by (simp add: leaseable_def)
  then show "lower_done d a v s"
    using r s by (auto simp: lower_done_def deliv_def prior_unfinished_def list_ex_iff)
qed

lemma candidate_key:
  assumes ok: "versions_ok d" and "q \<in> set (outbox_delivery d)"
    and "od_key q \<in> od_key ` set (lease_candidates now sink n locked d)"
  shows "q \<in> set (lease_candidates now sink n locked d)"
proof -
  obtain c where c: "c \<in> set (lease_candidates now sink n locked d)" "od_key q = od_key c"
    using assms(3) by auto
  moreover have "c \<in> set (outbox_delivery d)" using c lease_candidates_leaseable by blast
  ultimately have "q = c" using ok assms(2)
    by (auto simp: versions_ok_def outbox_ok_def distinct_map inj_on_def)
  then show ?thesis using c by simp
qed

lemma candidate_pending:
  assumes "versions_ok d" and "q \<in> set (outbox_delivery d)"
    and "od_key q \<in> od_key ` set (lease_candidates now sink n locked d)"
  shows "od_status q = OD_pending \<and> leaseable now sink d q"
  using candidate_key [OF assms] lease_candidates_leaseable by (auto simp: leaseable_def)

lemma lease_candidates_distinct:
  assumes "versions_ok d"
  shows "distinct (map od_key (lease_candidates now sink n locked d))"
proof -
  have "distinct (map od_key (outbox_delivery d))"
    using assms by (simp add: versions_ok_def outbox_ok_def)
  then have "distinct (map od_key (filter (leaseable now sink d) (outbox_delivery d)))"
    by (rule distinct_map_filter)
  then have "distinct (map od_key (sort_key od_event_id (filter (leaseable now sink d) (outbox_delivery d))))"
    by (simp add: distinct_map)
  then show ?thesis
    by (simp add: lease_candidates_def take_map[symmetric] distinct_map_filter)
qed

lemma leased_in_flight:
  assumes ok: "versions_ok d" and l: "lease_batch w now sink n ttl locked d = Inr (d', es)" and e: "e \<in> set es"
  shows "in_flight_at d' e"
proof -
  have "le_key e \<in> set (map od_key (lease_candidates now sink n locked d))"
    using e lease_batch_keys [OF l] by (metis (mono_tags, lifting) image_eqI le_key_def list.set_map)
  then obtain c where c: "c \<in> set (lease_candidates now sink n locked d)" "od_key c = le_key e" by auto
  obtain r where "r \<in> set (outbox d)" "ob_event_id r = le_event_id e" "ob_aggregate_id r = le_aggregate_id e"
      "ob_aggregate_version r = le_aggregate_version e"
    using hydrate_all_row [OF lease_batch_cases(2) [OF l] e] by blast
  then have "deliv d (le_aggregate_id e) (le_aggregate_version e) (le_sink e) c"
    using c lease_candidates_leaseable [OF c(1)] by (auto simp: deliv_def od_key_def le_key_def)
  then have "deliv d' (le_aggregate_id e) (le_aggregate_version e) (le_sink e) (mark_leased w now ttl c)"
    using c deliv_update [OF lease_update [OF l]] by force
  then show ?thesis using c unfolding in_flight_at_def
    by (intro exI [of _ "mark_leased w now ttl c"]) simp
qed

subsection \<open>The invariant\<close>

lemma hand_delivery:
  assumes ok: "versions_ok d" and hand: "in_flight_at d e"
    and q: "q \<in> set (outbox_delivery d)" "od_key q = le_key e"
  shows "od_status q = OD_in_flight \<and> deliv d (le_aggregate_id e) (le_aggregate_version e) (le_sink e) q"
proof -
  obtain q0 where q0: "deliv d (le_aggregate_id e) (le_aggregate_version e) (le_sink e) q0"
      "od_key q0 = le_key e" "od_status q0 = OD_in_flight"
    using hand unfolding in_flight_at_def by blast
  have "q = q0"
    using ok q q0 by (auto simp: versions_ok_def outbox_ok_def distinct_map inj_on_def deliv_def)
  with q0 show ?thesis by simp
qed

lemma in_flight_logged: "in_flight_at d e \<Longrightarrow> logged_at d e"
  unfolding in_flight_at_def logged_at_def attempted_def by force

text \<open>An event in hand may be logged: whatever was logged of its stream is not newer.\<close>

lemma log_append:
  assumes inv: "sys_inv s" and e: "e \<in> set (sys_hand s)"
  shows "sorted_wrt version_order (sys_log s @ [e])"
proof -
  have fl: "in_flight_at (sys_db s) e" using inv e by (simp add: sys_inv_def hand_ok_def)
  have "version_order e0 e" if e0: "e0 \<in> set (sys_log s)" for e0
    unfolding version_order_def
  proof (intro impI leI notI)
    assume st: "same_stream e0 e" and lt: "le_aggregate_version e < le_aggregate_version e0"
    obtain q where q: "deliv (sys_db s) (le_aggregate_id e) (le_aggregate_version e) (le_sink e) q"
        "od_status q = OD_in_flight"
      using fl unfolding in_flight_at_def by blast
    obtain q0 where "deliv (sys_db s) (le_aggregate_id e0) (le_aggregate_version e0) (le_sink e0) q0"
        "attempted q0"
      using inv e0 unfolding sys_inv_def logged_at_def by blast
    then have "lower_done (sys_db s) (le_aggregate_id e0) (le_aggregate_version e0) (le_sink e0)"
      using inv unfolding sys_inv_def attempts_ordered_def by blast
    then have "od_status q = OD_done"
      using q(1) st lt unfolding lower_done_def same_stream_def by metis
    with q(2) show False by simp
  qed
  then show ?thesis using inv by (simp add: sys_inv_def sorted_wrt_append)
qed

lemma enqueue_deliv:
  assumes ok: "outbox_ok d"
    and d': "d' = d\<lparr>outbox := outbox d @ [row], event_seq := event_seq d + 1,
         outbox_delivery := outbox_delivery d @ map (new_delivery (event_seq d)) ss,
         projection_state := ps\<rparr>"
    and row: "ob_event_id row = event_seq d" "ob_aggregate_id row = agg" "ob_aggregate_version row = ver"
  shows "deliv d' a v s q \<longleftrightarrow> deliv d a v s q \<or>
    a = agg \<and> v = ver \<and> s \<in> set ss \<and> q = new_delivery (event_seq d) s"
proof -
  have old: "od_event_id q \<noteq> event_seq d" if "q \<in> set (outbox_delivery d)" for q
    using ok that by (force simp: outbox_ok_def)
  have rows: "ob_event_id r \<noteq> event_seq d" if "r \<in> set (outbox d)" for r
    using ok that by (force simp: outbox_ok_def)
  show ?thesis
    using old [of q] rows row by (auto simp: deliv_def d' new_delivery_def)
qed

lemma enqueue_inv:
  assumes inv: "sys_inv s" and fresh: "fresh_version (sys_db s) agg ver"
    and enq: "enqueue_event st now ty agg ver env op pl sinks (sys_db s) = Inr (d', r)"
  shows "sys_inv (s\<lparr>sys_db := d'\<rparr>)"
  using enq
proof (cases rule: enqueue_event_cases)
  case no_sink
  then show ?thesis using inv by simp
next
  case (queued row)
  let ?d = "sys_db s"
  have ok: "outbox_ok ?d" "versions_ok ?d" using inv by (simp_all add: sys_inv_def versions_ok_def)
  have dl: "deliv d' a v sk q \<longleftrightarrow> deliv ?d a v sk q \<or>
      a = agg \<and> v = ver \<and> sk \<in> set (enqueue_sinks st ty sinks) \<and> q = new_delivery (event_seq ?d) sk" for a v sk q
    by (rule enqueue_deliv [OF ok(1) queued(5)]) (simp_all add: queued(1))
  have below: "v < ver" if "deliv ?d agg v sk q" for v sk q
    using that fresh by (auto simp: deliv_def fresh_version_def)
  have "(agg, ver) \<notin> (\<lambda>r. (ob_aggregate_id r, ob_aggregate_version r)) ` set (outbox ?d)"
    using fresh by (auto simp: fresh_version_def)
  then have "versions_ok d'"
    using enqueue_outbox_ok [OF ok(1) enq] ok(2) by (simp add: versions_ok_def queued(1,5))
  moreover have "attempts_ordered d'"
    unfolding attempts_ordered_def lower_done_def
  proof (intro allI impI, elim conjE)
    fix a v sk q v' q' assume q: "deliv d' a v sk q" "attempted q" and q': "deliv d' a v' sk q'" "v' < v"
    have q0: "deliv ?d a v sk q" using q dl by (auto simp: attempted_def)
    then have "deliv ?d a v' sk q'" using q' dl below by fastforce
    then show "od_status q' = OD_done"
      using inv q0 q(2) q'(2) unfolding sys_inv_def attempts_ordered_def lower_done_def by blast
  qed
  moreover have "in_flight_at ?d e \<Longrightarrow> in_flight_at d' e" and "logged_at ?d e \<Longrightarrow> logged_at d' e" for e
    unfolding in_flight_at_def logged_at_def dl by blast+
  ultimately show ?thesis using inv by (auto simp: sys_inv_def hand_ok_def)
qed

lemma lease_inv:
  assumes inv: "sys_inv s" and l: "lease_batch w now sink n ttl locked (sys_db s) = Inr (d', es)"
  shows "sys_inv (s\<lparr>sys_db := d', sys_hand := sys_hand s @ es\<rparr>)"
proof -
  let ?d = "sys_db s" and ?c = "lease_candidates now sink n locked (sys_db s)"
  have ok: "versions_ok ?d" using inv by (simp add: sys_inv_def)
  note up = lease_update [OF l]
  have pend: "od_status q = OD_pending \<and> leaseable now sink ?d q"
    if "q \<in> set (outbox_delivery ?d)" "od_key q \<in> od_key ` set ?c" for q
    using candidate_pending [OF ok that] .
  have keys: "map le_key es = map od_key ?c"
    using lease_batch_keys [OF l] by (simp add: le_key_def[abs_def])
  have "versions_ok d'" by (rule versions_ok_update [OF up ok])
  moreover have "attempts_ordered d'"
  proof (rule attempts_ordered_update [OF up])
    show "attempts_ordered ?d" using inv by (simp add: sys_inv_def)
  next
    fix a v sk q assume q: "deliv ?d a v sk q" "od_key q \<in> od_key ` set ?c"
    then have "leaseable now sink ?d q" using pend by (simp add: deliv_def)
    then show "attempted q \<or> lower_done ?d a v sk" using leaseable_lower_done [OF ok _ q(1)] by blast
  qed (use pend in force)
  moreover have old: "in_flight_at d' e" if "e \<in> set (sys_hand s)" for e
  proof (rule in_flight_update [OF up])
    show "in_flight_at ?d e" using inv that by (simp add: sys_inv_def hand_ok_def)
  qed (use pend in force)
  moreover have "in_flight_at d' e" if "e \<in> set es" for e using leased_in_flight [OF ok l that] .
  moreover have "distinct (map le_key (sys_hand s @ es))"
  proof -
    have "le_key e \<notin> od_key ` set ?c" if "e \<in> set (sys_hand s)" for e
    proof
      assume "le_key e \<in> od_key ` set ?c"
      then obtain c where c: "c \<in> set ?c" "od_key c = le_key e" by auto
      then have "od_status c = OD_in_flight"
        using hand_delivery [OF ok, of e c] inv that lease_candidates_leaseable
        by (auto simp: sys_inv_def hand_ok_def)
      then show False using c lease_candidates_leaseable by (force simp: leaseable_def)
    qed
    moreover have "le_key ` set es = od_key ` set ?c" using keys by (metis list.set_map)
    ultimately have "le_key ` set (sys_hand s) \<inter> le_key ` set es = {}" by blast
    moreover have "distinct (map le_key es)" using keys lease_candidates_distinct [OF ok] by simp
    moreover have "distinct (map le_key (sys_hand s))" using inv by (simp add: sys_inv_def hand_ok_def)
    ultimately show ?thesis by simp
  qed
  moreover have "logged_at d' e" if "e \<in> set (sys_log s)" for e
    by (rule logged_update [OF up]) (use inv that in \<open>auto simp: sys_inv_def attempted_def\<close>)
  ultimately show ?thesis using inv by (auto simp: sys_inv_def hand_ok_def)
qed

text \<open>Success and failure finish the event in hand: one delivery changes, the log grows.\<close>

lemma finish_inv:
  assumes inv: "sys_inv s" and hand: "sys_hand s = h1 @ e # h2"
    and up: "delivery_update (\<lambda>q. od_key q = (le_event_id e, le_sink e)) f (sys_db s) d'"
    and att: "\<And>q. attempted (f q)"
  shows "sys_inv (s\<lparr>sys_db := d', sys_hand := h1 @ h2, sys_log := sys_log s @ [e]\<rparr>)"
proof -
  let ?d = "sys_db s"
  have ok: "versions_ok ?d" and fl: "in_flight_at ?d e"
    using inv hand by (simp_all add: sys_inv_def hand_ok_def)
  have one: "od_status q = OD_in_flight" if "q \<in> set (outbox_delivery ?d)" "od_key q = (le_event_id e, le_sink e)" for q
    using hand_delivery [OF ok fl that(1)] that(2) by (simp add: le_key_def)
  have "versions_ok d'" by (rule versions_ok_update [OF up ok])
  moreover have "attempts_ordered d'"
  proof (rule attempts_ordered_update [OF up])
    show "attempts_ordered ?d" using inv by (simp add: sys_inv_def)
  next
    fix a v sk q assume "deliv ?d a v sk q" "od_key q = (le_event_id e, le_sink e)"
    then have "od_status q = OD_in_flight" using one by (simp add: deliv_def)
    then show "attempted q \<or> lower_done ?d a v sk" by (simp add: attempted_def)
  qed (use one in force)
  moreover have "in_flight_at d' e'" if "e' \<in> set (h1 @ h2)" for e'
  proof (rule in_flight_update [OF up])
    show "in_flight_at ?d e'" using inv hand that by (auto simp: sys_inv_def hand_ok_def)
    have "le_key e' \<noteq> le_key e"
      using inv hand that by (auto simp: sys_inv_def hand_ok_def distinct_map inj_on_def) (metis image_eqI)+
    then show "\<And>q. od_key q = le_key e' \<Longrightarrow> od_key q \<noteq> (le_event_id e, le_sink e)" by (simp add: le_key_def)
  qed
  moreover have "distinct (map le_key (h1 @ h2))"
    using inv hand by (auto simp: sys_inv_def hand_ok_def)
  moreover have "logged_at d' e'" if "e' \<in> set (sys_log s @ [e])" for e'
    by (rule logged_update [OF up]) (use inv that fl att in_flight_logged in \<open>auto simp: sys_inv_def\<close>)
  moreover have "sorted_wrt version_order (sys_log s @ [e])" using log_append [OF inv] hand by simp
  ultimately show ?thesis by (auto simp: sys_inv_def hand_ok_def)
qed

lemma crash_inv:
  assumes "sys_inv s" and "sys_hand s = h1 @ e # h2"
  shows "sys_inv (s\<lparr>sys_hand := h1 @ h2\<rparr>)"
    and "sys_inv (s\<lparr>sys_hand := h1 @ h2, sys_log := sys_log s @ [e]\<rparr>)"
  using assms log_append [OF assms(1), of e] in_flight_logged
  by (auto simp: sys_inv_def hand_ok_def)

lemma other_inv:
  assumes inv: "sys_inv s" and same: "outbox d' = outbox (sys_db s)"
      "outbox_delivery d' = outbox_delivery (sys_db s)" "event_seq d' = event_seq (sys_db s)"
  shows "sys_inv (s\<lparr>sys_db := d'\<rparr>)"
proof -
  have "deliv d' = deliv (sys_db s)" by (simp add: fun_eq_iff deliv_def same)
  then show ?thesis
    using inv same by (simp add: sys_inv_def versions_ok_def outbox_ok_def attempts_ordered_def
        lower_done_def hand_ok_def in_flight_at_def logged_at_def)
qed

lemma worker_step_inv: "worker_step s t \<Longrightarrow> sys_inv s \<Longrightarrow> sys_inv t"
proof (induction rule: worker_step.induct)
  case (enqueue s agg ver st now ty env op pl sinks d' r)
  then show ?case by (simp add: enqueue_inv)
next
  case (lease w now sink n ttl locked s d' es)
  then show ?case by (simp add: lease_inv)
next
  case (succeed s h1 e h2 d' now env created)
  show ?case
    by (rule finish_inv [OF succeed.prems succeed.hyps(1), where f = "finish_delivery now"])
       (simp_all add: succeed.hyps(2) done_update attempted_def)
next
  case (fail s h1 e h2 d' now env err mx)
  have "versions_ok (sys_db s)" using fail.prems by (simp add: sys_inv_def)
  then obtain f where
    "delivery_update (\<lambda>q. od_key q = (le_event_id e, le_sink e)) f (sys_db s) d'" "\<And>q. attempted (f q)"
    by (rule fail_update [where eid = "le_event_id e" and sink = "le_sink e" and now = now and env = env
          and err = err and mx = mx]) (use fail.hyps(2) in simp)
  then show ?case by (rule finish_inv [OF fail.prems fail.hyps(1)])
next
  case (crash s h1 e h2)
  then show ?case by (simp add: crash_inv(1))
next
  case (crash_handled s h1 e h2)
  then show ?case by (simp add: crash_inv(2))
next
  case (other_tables d' s)
  then show ?case by (simp add: other_inv)
qed

lemma reachable_inv: "reachable s \<Longrightarrow> sys_inv s"
proof (induction rule: reachable.induct)
  case (start d)
  then show ?case
    by (simp add: sys_inv_def versions_ok_def outbox_ok_def attempts_ordered_def deliv_def hand_ok_def)
next
  case (step s t)
  then show ?case by (blast intro: worker_step_inv)
qed

end
