(* ===== verification/Delivery.thy ===== *)
theory Delivery
  imports Ordering
begin

text \<open>
  The properties of the projection path: what an enqueue promises, the order of handler runs,
  what is final, what a stuck delivery does to its aggregate, the counters of a drain and the
  watermark. A \<open>settled\<close> delivery is one no worker holds and that is not pending; the lemma
  \<open>settled_steps\<close> says that nothing ever touches it again, and the properties about done, dead
  and abandoned deliveries are three readings of it.
\<close>

definition settled :: "system \<Rightarrow> delivery \<Rightarrow> bool" where
  "settled s q \<longleftrightarrow> q \<in> set (outbox_delivery (sys_db s)) \<and> od_status q \<noteq> OD_pending \<and>
     od_key q \<notin> le_key ` set (sys_hand s)"

lemma settled_step:
  assumes inv: "sys_inv s" and step: "worker_step s t" and q: "settled s q"
  shows "settled t q"
proof -
  have ok: "versions_ok (sys_db s)" using inv by (simp add: sys_inv_def)
  have mem: "q \<in> set (outbox_delivery (sys_db s))" and np: "od_status q \<noteq> OD_pending"
    and nh: "od_key q \<notin> le_key ` set (sys_hand s)"
    using q by (simp_all add: settled_def)
  from step show ?thesis
  proof cases
    case (enqueue agg ver st now ty env op pl sinks d' r)
    have "q \<in> set (outbox_delivery d')" using mem enqueue(3) by (auto elim!: enqueue_event_cases)
    then show ?thesis using enqueue(1) np nh by (simp add: settled_def)
  next
    case (lease w now sink n ttl locked d' es)
    let ?c = "lease_candidates now sink n locked (sys_db s)"
    have nc: "od_key q \<notin> od_key ` set ?c" using candidate_pending [OF ok mem] np by blast
    then have "q \<in> set (outbox_delivery d')"
      using mem lease_batch_cases(1) [OF lease(2)] by (force simp: set_update_where)
    moreover have "le_key ` set es = od_key ` set ?c"
      using lease_batch_keys [OF lease(2)] unfolding le_key_def [abs_def] by (metis list.set_map)
    ultimately show ?thesis using lease(1) np nh nc by (simp add: settled_def image_Un)
  next
    case (succeed h1 e h2 d' now env created)
    have "od_key q \<noteq> (le_event_id e, le_sink e)" using nh succeed(2) by (auto simp: le_key_def)
    then have "q \<in> set (outbox_delivery d')" using mem succeed(3) by (force simp: mark_done_def set_update_where)
    then show ?thesis using succeed(1,2) np nh by (simp add: settled_def)
  next
    case (fail h1 e h2 d' now env err mx)
    have "od_key q \<noteq> (le_event_id e, le_sink e)" using nh fail(2) by (auto simp: le_key_def)
    then have "q \<in> set (outbox_delivery d')"
      using mem fail(3) by (force simp: mark_fail_def Let_def set_update_where)
    then show ?thesis using fail(1,2) np nh by (simp add: settled_def)
  next
    case (other_tables d')
    then show ?thesis using mem np nh by (simp add: settled_def)
  qed (use mem np nh in \<open>auto simp: settled_def\<close>)
qed

lemma settled_steps: "worker_step\<^sup>*\<^sup>* s t \<Longrightarrow> reachable s \<Longrightarrow> settled s q \<Longrightarrow> settled t q"
proof (induction rule: converse_rtranclp_induct)
  case base
  then show ?case by simp
next
  case (step s u)
  then show ?case using settled_step [OF reachable_inv] reachable.step by blast
qed

lemma finished_settled:
  assumes "reachable s" "q \<in> set (outbox_delivery (sys_db s))" "od_status q = OD_done \<or> od_status q = OD_dead"
  shows "settled s q"
proof -
  have inv: "sys_inv s" using assms(1) by (rule reachable_inv)
  have "od_key q \<noteq> le_key e" if "e \<in> set (sys_hand s)" for e
    using hand_delivery [of "sys_db s" e q] inv that assms(2,3) by (auto simp: sys_inv_def hand_ok_def)
  then show ?thesis using assms(2,3) by (auto simp: settled_def)
qed

text \<open>Behind an unfinished settled delivery nothing is ever attempted.\<close>

lemma behind_settled:
  assumes "reachable s" and q: "settled s q" "od_status q \<noteq> OD_done"
    and row: "r \<in> set (outbox (sys_db s))" "ob_event_id r = od_event_id q"
    and steps: "worker_step\<^sup>*\<^sup>* s t"
    and later: "deliv (sys_db t) (ob_aggregate_id r) v (od_sink q) q'" "ob_aggregate_version r < v"
  shows "od_status q' = OD_pending \<and> od_attempt_count q' = 0"
proof -
  have t: "reachable t" using reachable_steps [OF steps assms(1)] .
  have "settled t q" using settled_steps [OF steps assms(1) q(1)] .
  moreover have "r \<in> set (outbox (sys_db t))"
    using steps row(1)
  proof (induction rule: rtranclp_induct)
    case (step u w)
    from step(2) show ?case
      using step.IH [OF step.prems]
      by cases (auto dest: enqueue_outbox_superset lease_batch_cases(1) simp: mark_done_def mark_fail_def Let_def)
  qed simp
  ultimately have "deliv (sys_db t) (ob_aggregate_id r) (ob_aggregate_version r) (od_sink q) q"
    using row(2) by (auto simp: deliv_def settled_def)
  then have "\<not> attempted q'"
    using reachable_inv [OF t] later q(2) unfolding sys_inv_def attempts_ordered_def lower_done_def by blast
  moreover have "0 \<le> od_attempt_count q'"
    using reachable_inv [OF t] later(1) by (auto simp: sys_inv_def versions_ok_def outbox_ok_def deliv_def)
  ultimately show ?thesis by (simp add: attempted_def)
qed

subsection \<open>A run of two versions\<close>

text \<open>
  The concrete system of the examples: two versions of memory 7 are enqueued, one is leased;
  then its worker either reports success and the second version follows, or dies.
\<close>

definition demo_settings :: settings where
  "demo_settings = \<lparr>vector_backend = ''qdrant'', graph_backend = ''neo4j''\<rparr>"

definition demo_env :: environment where
  "demo_env = \<lparr>env_id = 1, env_name = ''e'', env_embedding_model = ''m'', env_deleted = False\<rparr>"

definition demo_db0 :: db where
  "demo_db0 = (empty_db (\<lambda>n. 100 + n))\<lparr>environments := [demo_env]\<rparr>"

definition demo_row :: "int \<Rightarrow> outbox_row" where
  "demo_row v = \<lparr>ob_event_id = v, ob_aggregate_type = AT_memory, ob_aggregate_id = 7,
     ob_aggregate_version = v, ob_env_id = 1, ob_op = OP_upsert, ob_payload = [], ob_created_at = 0\<rparr>"

definition demo_event :: "int \<Rightarrow> leased_event" where
  "demo_event v = \<lparr>le_event_id = v, le_sink = SK_qdrant, le_aggregate_type = AT_memory,
     le_aggregate_id = 7, le_aggregate_version = v, le_env_id = 1, le_op = OP_upsert,
     le_payload = [], le_attempt_count = 0, le_created_at = 0\<rparr>"

definition demo_queue :: "delivery list \<Rightarrow> projection list \<Rightarrow> db" where
  "demo_queue qs ps = demo_db0\<lparr>outbox := [demo_row 1, demo_row 2], outbox_delivery := qs,
     projection_state := ps, event_seq := 3\<rparr>"

definition demo_taken :: "int \<Rightarrow> delivery" where
  "demo_taken v = mark_leased ''w'' 0 60 (new_delivery v SK_qdrant)"

definition demo_wait :: system where
  "demo_wait = \<lparr>sys_db = demo_queue [new_delivery 1 SK_qdrant, new_delivery 2 SK_qdrant] [new_projection SK_qdrant 1],
     sys_hand = [], sys_log = []\<rparr>"

definition demo_leased :: system where
  "demo_leased = \<lparr>sys_db = demo_queue [demo_taken 1, new_delivery 2 SK_qdrant] [new_projection SK_qdrant 1],
     sys_hand = [demo_event 1], sys_log = []\<rparr>"

definition demo_crashed :: system where
  "demo_crashed = demo_leased\<lparr>sys_hand := []\<rparr>"

definition demo_first :: system where
  "demo_first = \<lparr>sys_db = mark_done 5 1 SK_qdrant 1 0 (sys_db demo_leased), sys_hand = [], sys_log = [demo_event 1]\<rparr>"

definition demo_second :: system where
  "demo_second = \<lparr>sys_db = (sys_db demo_first)\<lparr>outbox_delivery :=
       [finish_delivery 5 (demo_taken 1), demo_taken 2]\<rparr>, sys_hand = [demo_event 2], sys_log = [demo_event 1]\<rparr>"

definition demo_both :: system where
  "demo_both = \<lparr>sys_db = mark_done 9 2 SK_qdrant 1 0 (sys_db demo_second), sys_hand = [],
     sys_log = [demo_event 1, demo_event 2]\<rparr>"

lemmas demo_defs = demo_settings_def demo_env_def demo_db0_def demo_row_def demo_event_def
  demo_queue_def demo_taken_def demo_wait_def demo_leased_def demo_crashed_def demo_first_def
  demo_second_def demo_both_def empty_db_def new_delivery_def new_projection_def

lemmas lease_code = lease_batch_def lease_candidates_def leaseable_def prior_unfinished_def
  hydrate_def mark_leased_def od_key_def Let_def

lemmas finish_code = mark_done_def finish_delivery_def advance_projection_def

lemma demo_wait_reachable: "reachable demo_wait"
proof -
  let ?st = demo_settings and ?pl = "[] :: payload"
  let ?d1 = "demo_db0\<lparr>outbox := [demo_row 1], outbox_delivery := [new_delivery 1 SK_qdrant],
     projection_state := [new_projection SK_qdrant 1], event_seq := 2\<rparr>"
  have r0: "reachable \<lparr>sys_db = demo_db0, sys_hand = [], sys_log = []\<rparr>"
    by (rule reachable.start) (simp_all add: demo_defs)
  have e1: "enqueue_event ?st 0 AT_memory 7 1 1 OP_upsert ?pl None demo_db0
      = Inr (?d1, \<lparr>ee_event_id = Some 1, ee_sinks = [SK_qdrant]\<rparr>)"
    by (simp add: enqueue_event_def resolve_sinks_for_def outbox_violation_def env_exists_def demo_defs)
  have e2: "enqueue_event ?st 0 AT_memory 7 2 1 OP_upsert ?pl None ?d1
      = Inr (sys_db demo_wait, \<lparr>ee_event_id = Some 2, ee_sinks = [SK_qdrant]\<rparr>)"
    by (simp add: enqueue_event_def resolve_sinks_for_def outbox_violation_def env_exists_def demo_defs)
  let ?s0 = "\<lparr>sys_db = demo_db0, sys_hand = [], sys_log = []\<rparr>"
  have "worker_step ?s0 (?s0\<lparr>sys_db := ?d1\<rparr>)"
    by (rule worker_step.enqueue) (use e1 in \<open>simp_all add: fresh_version_def demo_db0_def empty_db_def\<close>)
  then have r1: "reachable (?s0\<lparr>sys_db := ?d1\<rparr>)" by (rule reachable.step [OF r0])
  have "worker_step (?s0\<lparr>sys_db := ?d1\<rparr>) (?s0\<lparr>sys_db := sys_db demo_wait\<rparr>)"
    using worker_step.enqueue [of "?s0\<lparr>sys_db := ?d1\<rparr>" 7 2] e2
    by (simp add: fresh_version_def demo_row_def)
  then have "reachable (?s0\<lparr>sys_db := sys_db demo_wait\<rparr>)" by (rule reachable.step [OF r1])
  then show ?thesis by (simp add: demo_wait_def)
qed

lemma demo_leased_step: "worker_step demo_wait demo_leased"
  using worker_step.lease [of "''w''" 0 SK_qdrant 10 60 "\<lambda>_. False" demo_wait
      "sys_db demo_leased" "[demo_event 1]"]
  by (simp add: lease_code demo_defs)

lemma demo_crash_step: "worker_step demo_leased demo_crashed"
  using worker_step.crash [of demo_leased "[]" "demo_event 1" "[]"]
  by (simp add: demo_crashed_def demo_leased_def)

lemma demo_first_step: "worker_step demo_leased demo_first"
  using worker_step.succeed [of demo_leased "[]" "demo_event 1" "[]" "sys_db demo_first" 5 1 0]
  by (simp add: demo_defs)

lemma demo_second_step: "worker_step demo_first demo_second"
  using worker_step.lease [of "''w''" 0 SK_qdrant 10 60 "\<lambda>_. False" demo_first
      "sys_db demo_second" "[demo_event 2]"]
  by (simp add: lease_code finish_code demo_defs)

lemma demo_both_step: "worker_step demo_second demo_both"
  using worker_step.succeed [of demo_second "[]" "demo_event 2" "[]" "sys_db demo_both" 9 1 0]
  by (simp add: demo_defs)

lemma demo_reachable:
  "reachable demo_leased" "reachable demo_crashed" "reachable demo_first" "reachable demo_both"
  using demo_wait_reachable demo_leased_step demo_crash_step demo_first_step demo_second_step demo_both_step
  by (blast intro: reachable.step)+

subsection \<open>Properties\<close>

text \<open>C1: Over every interleaving of writers, workers (any number), failures and crashes, the
  handler runs of one aggregate at one sink happen in the order of its versions: the log of runs
  never shows an older version after a newer one.\<close>

theorem handlers_run_in_version_order:
  "reachable s \<Longrightarrow> sorted_wrt version_order (sys_log s)"
  using reachable_inv by (simp add: sys_inv_def)

lemma handlers_run_in_version_order_witness:
  "map le_aggregate_version (sys_log demo_both) = [1, 2] \<and> sorted_wrt version_order (sys_log demo_both)"
  using handlers_run_in_version_order [OF demo_reachable(4)] by (simp add: demo_both_def demo_event_def)

text \<open>A delivery that is done stays in the table as it is, whatever the workers, the writers
  and the crashes do from then on; in particular it is never leased again.\<close>

lemma done_is_final:
  assumes "reachable s" and "worker_step\<^sup>*\<^sup>* s t"
    and "q \<in> set (outbox_delivery (sys_db s))" and "od_status q = OD_done"
  shows "q \<in> set (outbox_delivery (sys_db t)) \<and>
    (\<forall>now sink n locked. q \<notin> set (lease_candidates now sink n locked (sys_db t)))"
proof -
  have "settled t q" using settled_steps [OF assms(2,1)] finished_settled assms by blast
  then show ?thesis
    using assms(4) lease_candidates_leaseable by (fastforce simp: settled_def leaseable_def)
qed

lemma done_is_final_witness:
  "finish_delivery 5 (demo_taken 1) \<in> set (outbox_delivery (sys_db demo_both))"
proof -
  have "finish_delivery 5 (demo_taken 1) \<in> set (outbox_delivery (sys_db demo_first))"
    by (simp add: demo_first_def demo_leased_def demo_queue_def mark_done_def demo_taken_def)
  moreover have "worker_step\<^sup>*\<^sup>* demo_first demo_both"
    using demo_second_step demo_both_step by (meson r_into_rtranclp rtranclp_trans)
  ultimately show ?thesis using done_is_final [OF demo_reachable(3)] by simp
qed

text \<open>C6: A delivery that is dead-lettered, or in flight with no worker holding it any more (its
  worker crashed), is never leased again, whatever the clock says and however long its lease has
  expired, and every later version of its aggregate stays pending, never attempted, for ever at
  that sink.\<close>

theorem stuck_delivery_blocks_aggregate:
  assumes "reachable s" and "q \<in> set (outbox_delivery (sys_db s))"
    and "od_status q = OD_dead \<or> od_status q = OD_in_flight \<and> od_key q \<notin> le_key ` set (sys_hand s)"
    and "r \<in> set (outbox (sys_db s))" "ob_event_id r = od_event_id q"
    and "worker_step\<^sup>*\<^sup>* s t"
  shows "q \<in> set (outbox_delivery (sys_db t)) \<and>
    (\<forall>v q'. deliv (sys_db t) (ob_aggregate_id r) v (od_sink q) q' \<and> ob_aggregate_version r < v
       \<longrightarrow> od_status q' = OD_pending \<and> od_attempt_count q' = 0)"
proof -
  have q: "settled s q" "od_status q \<noteq> OD_done"
    using assms(1-3) finished_settled by (auto simp: settled_def)
  then show ?thesis
    using settled_steps [OF assms(6,1) q(1)] behind_settled [OF assms(1) q assms(4,5,6)]
    by (auto simp: settled_def)
qed

lemma stuck_delivery_blocks_aggregate_witness:
  "deliv (sys_db demo_crashed) 7 2 SK_qdrant (new_delivery 2 SK_qdrant) \<and>
   demo_taken 1 \<in> set (outbox_delivery (sys_db demo_crashed)) \<and>
   (\<nexists>q. deliv (sys_db demo_crashed) 7 2 SK_qdrant q \<and> od_status q = OD_in_flight)"
proof (intro conjI)
  show "deliv (sys_db demo_crashed) 7 2 SK_qdrant (new_delivery 2 SK_qdrant)"
    by (simp add: deliv_def demo_defs)
  have blocked: "demo_taken 1 \<in> set (outbox_delivery (sys_db demo_crashed)) \<and>
    (\<forall>v q. deliv (sys_db demo_crashed) 7 v SK_qdrant q \<and> 1 < v
       \<longrightarrow> od_status q = OD_pending \<and> od_attempt_count q = 0)"
    using stuck_delivery_blocks_aggregate [OF demo_reachable(2), of "demo_taken 1" "demo_row 1" demo_crashed]
    by (simp add: demo_defs od_key_def mark_leased_def)
  show "demo_taken 1 \<in> set (outbox_delivery (sys_db demo_crashed))"
    using blocked by (rule conjunct1)
  show "\<nexists>q. deliv (sys_db demo_crashed) 7 2 SK_qdrant q \<and> od_status q = OD_in_flight"
    using blocked by fastforce
qed

text \<open>C15: A drain of a sink always returns; it is a run of the system that leases some events and
  runs the handler once on each of them, no more than a batch, and every leased event is counted as exactly one of succeeded, failed and dead-lettered.\<close>

theorem drain_once_is_a_run:
  "\<exists>d' w' stats es. drain_once c exec exc_text now clock locked d w = Inr (d', w', stats) \<and>
     worker_step\<^sup>*\<^sup>* \<lparr>sys_db = d, sys_hand = h, sys_log = lg\<rparr> \<lparr>sys_db = d', sys_hand = h, sys_log = lg @ es\<rparr> \<and>
     length es \<le> wc_batch_size c \<and>
     length es = ds_leased stats \<and>
     ds_succeeded stats + ds_failed stats + ds_dead_lettered stats = ds_leased stats"
  by (rule drain_once_spec)

text \<open>Enqueueing an event: with no subscribed sink nothing happens; otherwise either the whole
  call raises, or one row is appended with the next event id, with one pending unattempted
  delivery per sink, a watermark row per sink exists afterwards, and no existing watermark row
  changes. A version of an aggregate that is already in the outbox is always refused.\<close>

lemma enqueue_event_spec:
  "case enqueue_event st now ty agg ver env op pl sinks d of
     Inl e \<Rightarrow> enqueue_sinks st ty sinks \<noteq> [] \<and> (\<exists>c. e = IntegrityError c)
   | Inr (d', r) \<Rightarrow>
       if enqueue_sinks st ty sinks = [] then d' = d \<and> ee_event_id r = None
       else ee_event_id r = Some (event_seq d) \<and> ee_sinks r = enqueue_sinks st ty sinks \<and>
         (\<exists>row. outbox d' = outbox d @ [row] \<and> ob_event_id row = event_seq d \<and>
            (ob_aggregate_type row, ob_aggregate_id row, ob_aggregate_version row) = (ty, agg, ver) \<and>
            ob_payload row = pl \<and> env_exists d env \<and> 0 < ver) \<and>
         \<not> list_ex (\<lambda>o'. (ob_aggregate_type o', ob_aggregate_id o', ob_aggregate_version o') = (ty, agg, ver)) (outbox d) \<and>
         outbox_delivery d' = outbox_delivery d @ map (new_delivery (event_seq d)) (ee_sinks r) \<and>
         list_all (\<lambda>s. get_projection_state d' s env \<noteq> None) (ee_sinks r) \<and>
         list_all (\<lambda>p. p \<in> set (projection_state d')) (projection_state d)"
  by (rule enqueue_event_outcome)

text \<open>The retry delay of a failed delivery is between 1 and 600 seconds, never shrinks as
  attempts accumulate, and is the power of two until it reaches the ten minute cap.\<close>

lemma backoff_bounds:
  "1 \<le> backoff_seconds n \<and> backoff_seconds n \<le> 600 \<and> backoff_seconds n \<le> backoff_seconds (n + 1) \<and>
   map backoff_seconds [1..11] = [2, 4, 8, 16, 32, 64, 128, 256, 512, 600, 600]"
proof (intro conjI)
  show "backoff_seconds n \<le> backoff_seconds (n + 1)"
    unfolding backoff_seconds_def by (intro min.mono power_increasing nat_mono) simp_all
  show "map backoff_seconds [1..11] = [2, 4, 8, 16, 32, 64, 128, 256, 512, 600, 600]"
    by (simp add: upto.simps backoff_seconds_def)
qed (simp_all add: backoff_seconds_def)

text \<open>The watermark of a sink and environment never goes back and covers the event just
  finished; the other rows of the watermark table are untouched.\<close>

lemma mark_done_watermark:
  "get_projection_state (mark_done now eid sink env created d) s e =
     map_option (\<lambda>p. if s = sink \<and> e = env
       then p\<lparr>pj_last_event_id := Some (max (case pj_last_event_id p of None \<Rightarrow> 0 | Some i \<Rightarrow> i) eid),
            pj_last_success_at := Some now, pj_lag := Some (now - created),
            pj_status := Some PS_healthy, pj_last_error := None\<rparr>
       else p) (get_projection_state d s e)"
  unfolding get_projection_state_def mark_done_def
  by (cases "lookup (\<lambda>p. (pj_sink p, pj_env_id p)) (s, e) (projection_state d)")
     (auto simp: lookup_update_where advance_projection_def dest: lookup_SomeD)

end
