(* ===== verification/GraphStore.thy ===== *)
theory GraphStore
  imports Store
begin

text \<open>
  The tables \<open>graph_nodes\<close> and \<open>relations\<close> with their constraints (migrations 0001 and 0010),
  and the cycle test on \<open>depends_on\<close> edges between tasks, \<open>memory_mcp/tasks/cycles.py\<close>. The
  main lemma, \<open>would_cycle_iff\<close>, says that the worklist decides reachability; with
  \<open>relation_insert_edges\<close> it keeps the dependency graph of every environment acyclic.
\<close>

subsection \<open>Inserts\<close>

text \<open>The constraint a new graph node violates, if any.\<close>

definition node_violation :: "db \<Rightarrow> graph_node \<Rightarrow> string option" where
  "node_violation d n =
     (if list_ex (\<lambda>o'. gn_id o' = gn_id n) (graph_nodes d) then Some ''graph_nodes_pkey''
      else if \<not> env_exists d (gn_env_id n) then Some ''graph_nodes_env_id_fkey''
      else if \<not> ((gn_type n = NT_memory \<and> gn_memory_id n \<noteq> None \<and> gn_entity_id n = None \<and> gn_task_id n = None)
            \<or> (gn_type n = NT_entity \<and> gn_entity_id n \<noteq> None \<and> gn_memory_id n = None \<and> gn_task_id n = None)
            \<or> (gn_type n = NT_task \<and> gn_task_id n \<noteq> None \<and> gn_entity_id n = None \<and> gn_memory_id n = None))
        then Some ''graph_nodes_exactly_one_target_chk''
      else if (case gn_memory_id n of None \<Rightarrow> False
               | Some i \<Rightarrow> \<not> list_ex (\<lambda>m. m_id m = i) (memories d)) then Some ''graph_nodes_memory_id_fkey''
      else if (case gn_entity_id n of None \<Rightarrow> False
               | Some i \<Rightarrow> \<not> list_ex (\<lambda>e. e_id e = i) (entities d)) then Some ''graph_nodes_entity_id_fkey''
      else if (case gn_task_id n of None \<Rightarrow> False
               | Some i \<Rightarrow> \<not> list_ex (\<lambda>t. t_id t = i) (task_rows d)) then Some ''graph_nodes_task_id_fkey''
      else if gn_memory_id n \<noteq> None \<and> list_ex (\<lambda>o'. gn_memory_id o' = gn_memory_id n) (graph_nodes d)
        then Some ''graph_nodes_memory_uniq''
      else if gn_entity_id n \<noteq> None \<and> list_ex (\<lambda>o'. gn_entity_id o' = gn_entity_id n) (graph_nodes d)
        then Some ''graph_nodes_entity_uniq''
      else if gn_type n = NT_task \<and> list_ex (\<lambda>o'. gn_type o' = NT_task \<and> gn_env_id o' = gn_env_id n \<and>
             gn_task_id o' = gn_task_id n) (graph_nodes d)
        then Some ''graph_nodes_task_uniq''
      else None)"

definition insert_graph_node :: "graph_node \<Rightarrow> db \<Rightarrow> db res" where
  "insert_graph_node n d = (case node_violation d n of
       Some c \<Rightarrow> Inl (IntegrityError c)
     | None \<Rightarrow> Inr (d\<lparr>graph_nodes := graph_nodes d @ [n]\<rparr>))"

definition relation_violation :: "db \<Rightarrow> relation_row \<Rightarrow> string option" where
  "relation_violation d r =
     (if list_ex (\<lambda>o'. r_id o' = r_id r) (relation_rows d) then Some ''relations_pkey''
      else if \<not> env_exists d (r_env_id r) then Some ''relations_env_id_fkey''
      else if r_version r \<le> 0 then Some ''relations_version_check''
      else if list_ex (\<lambda>o'. r_src_node_id o' = r_src_node_id r \<and> r_dst_node_id o' = r_dst_node_id r \<and>
             r_type o' = r_type r) (relation_rows d)
        then Some ''relations_src_dst_type_uniq''
      else if \<not> list_ex (\<lambda>n. gn_id n = r_src_node_id r \<and> gn_env_id n = r_env_id r) (graph_nodes d)
        then Some ''relations_src_env_fk''
      else if \<not> list_ex (\<lambda>n. gn_id n = r_dst_node_id r \<and> gn_env_id n = r_env_id r) (graph_nodes d)
        then Some ''relations_dst_env_fk''
      else None)"

definition insert_relation_row :: "relation_row \<Rightarrow> db \<Rightarrow> db res" where
  "insert_relation_row r d = (case relation_violation d r of
       Some c \<Rightarrow> Inl (IntegrityError c)
     | None \<Rightarrow> Inr (d\<lparr>relation_rows := relation_rows d @ [r]\<rparr>))"

text \<open>\<open>SELECT ... WHERE src_node_id = ? AND dst_node_id = ? AND type = ?\<close>\<close>

definition find_relation :: "db \<Rightarrow> uuid \<Rightarrow> uuid \<Rightarrow> string \<Rightarrow> relation_row option" where
  "find_relation d src dst ty =
     find (\<lambda>r. r_src_node_id r = src \<and> r_dst_node_id r = dst \<and> r_type r = ty) (relation_rows d)"

subsection \<open>The cycle test\<close>

text \<open>The rows of the worklist's select: the tasks a task depends on.\<close>

definition dep_rows :: "db \<Rightarrow> uuid \<Rightarrow> uuid \<Rightarrow> uuid option list" where
  "dep_rows d env current =
     [gn_task_id t. r \<leftarrow> relation_rows d, s \<leftarrow> graph_nodes d, t \<leftarrow> graph_nodes d,
        gn_id s = r_src_node_id r \<and> gn_id t = r_dst_node_id r \<and> r_env_id r = env \<and>
        r_type r = ''depends_on'' \<and> gn_type s = NT_task \<and> gn_type t = NT_task \<and>
        gn_task_id s = Some current]"

definition task_ids_of_nodes :: "db \<Rightarrow> uuid set" where
  "task_ids_of_nodes d = {i. Some i \<in> set (map gn_task_id (graph_nodes d))}"

definition new_deps :: "db \<Rightarrow> uuid \<Rightarrow> uuid \<Rightarrow> uuid set \<Rightarrow> uuid list" where
  "new_deps d env current seen = [i. Some i \<leftarrow> dep_rows d env current, i \<notin> seen]"

lemma finite_task_ids [simp]: "finite (task_ids_of_nodes d)"
proof -
  have "task_ids_of_nodes d \<subseteq> the ` set (map gn_task_id (graph_nodes d))"
  proof
    fix i assume "i \<in> task_ids_of_nodes d"
    then have "the (Some i) \<in> the ` set (map gn_task_id (graph_nodes d))"
      unfolding task_ids_of_nodes_def by (intro imageI) simp
    then show "i \<in> the ` set (map gn_task_id (graph_nodes d))" by simp
  qed
  then show ?thesis by (rule finite_subset) simp
qed

lemma set_new_deps: "set (new_deps d env c seen) = {i. Some i \<in> set (dep_rows d env c)} - seen"
  by (auto simp: new_deps_def split: option.splits)

lemma dep_rows_task_ids: "Some i \<in> set (dep_rows d env c) \<Longrightarrow> i \<in> task_ids_of_nodes d"
  by (force simp: dep_rows_def task_ids_of_nodes_def split: if_splits)

text \<open>
  The loop of \<open>would_cycle\<close>. The head of the list is the end of Python's \<open>frontier\<close>, where
  \<open>pop\<close> takes and \<open>append\<close> puts, so the rows of one select arrive reversed.
\<close>

function dep_walk :: "db \<Rightarrow> uuid \<Rightarrow> uuid \<Rightarrow> uuid list \<Rightarrow> uuid set \<Rightarrow> bool" where
  "dep_walk d env src [] seen = False"
| "dep_walk d env src (current # frontier) seen =
     (if current = src then True
      else if current \<in> seen then dep_walk d env src frontier seen
      else dep_walk d env src (rev (new_deps d env current (insert current seen)) @ frontier)
             (insert current seen))"
  by pat_completeness auto

lemma dep_walk_shrinks:
  assumes "current \<notin> seen"
  shows "card (task_ids_of_nodes d \<union> set (rev (new_deps d env current (insert current seen)) @ frontier)
      - insert current seen)
    < card (task_ids_of_nodes d \<union> set (current # frontier) - seen)"
  by (rule psubset_card_mono) (use assms in \<open>auto simp: set_new_deps dest: dep_rows_task_ids\<close>)

termination dep_walk
  by (relation "measures [\<lambda>(d, env, src, frontier, seen). card (task_ids_of_nodes d \<union> set frontier - seen),
        \<lambda>(d, env, src, frontier, seen). length frontier]")
     (auto simp: dep_walk_shrinks [simplified] card_mono le_eq_less_or_eq [symmetric] intro!: card_mono)

definition would_cycle :: "db \<Rightarrow> uuid \<Rightarrow> uuid \<Rightarrow> uuid \<Rightarrow> bool" where
  "would_cycle d env src dst = (if src = dst then True else dep_walk d env src [dst] {})"

subsection \<open>The dependency graph of an environment\<close>

definition dep_edges :: "db \<Rightarrow> uuid \<Rightarrow> (uuid \<times> uuid) set" where
  "dep_edges d env = {(a, b). Some b \<in> set (dep_rows d env a)}"

lemma leaves_closed:
  assumes "(x, y) \<in> R\<^sup>*" and "x \<in> S" and "y \<notin> S" and "\<And>a b. a \<in> S \<Longrightarrow> (a, b) \<in> R \<Longrightarrow> b \<in> S \<union> F"
  shows "\<exists>f \<in> F. (f, y) \<in> R\<^sup>*"
  using assms(1,2)
proof (induction rule: converse_rtrancl_induct)
  case base
  then show ?case using assms(3) by simp
next
  case (step x z)
  then show ?case using assms(4) by blast
qed

lemma dep_walk_iff:
  assumes "src \<notin> seen" and "\<And>a b. a \<in> seen \<Longrightarrow> (a, b) \<in> dep_edges d env \<Longrightarrow> b \<in> seen \<union> set frontier"
  shows "dep_walk d env src frontier seen \<longleftrightarrow> (\<exists>f \<in> set frontier. (f, src) \<in> (dep_edges d env)\<^sup>*)"
  using assms
proof (induction d env src frontier seen rule: dep_walk.induct)
  case (1 d env src seen)
  then show ?case by simp
next
  case (2 d env src current frontier seen)
  consider "current = src" | "current \<noteq> src" "current \<in> seen" | "current \<noteq> src" "current \<notin> seen" by blast
  then show ?case
  proof cases
    case 1
    then show ?thesis by auto
  next
    case b: 2
    have "dep_walk d env src frontier seen \<longleftrightarrow> (\<exists>f \<in> set frontier. (f, src) \<in> (dep_edges d env)\<^sup>*)"
      by (rule "2.IH"(1)) (use b "2.prems" in auto)
    moreover have "\<exists>f \<in> set frontier. (f, src) \<in> (dep_edges d env)\<^sup>*" if "(current, src) \<in> (dep_edges d env)\<^sup>*"
      using leaves_closed [OF that b(2) "2.prems"(1), of "set frontier"] "2.prems"(2) b(2) by auto
    ultimately show ?thesis using b by auto
  next
    case c: 3
    let ?seen = "insert current seen" and ?new = "rev (new_deps d env current (insert current seen)) @ frontier"
    have cl: "b \<in> ?seen \<union> set ?new" if "a \<in> ?seen" "(a, b) \<in> dep_edges d env" for a b
      using that "2.prems"(2) by (auto simp: set_new_deps dep_edges_def)
    have "dep_walk d env src ?new ?seen \<longleftrightarrow> (\<exists>f \<in> set ?new. (f, src) \<in> (dep_edges d env)\<^sup>*)"
      by (rule "2.IH"(2)) (use c "2.prems"(1) cl in auto)
    moreover have "(\<exists>f \<in> set ?new. (f, src) \<in> (dep_edges d env)\<^sup>*) \<longleftrightarrow>
        (\<exists>f \<in> set (current # frontier). (f, src) \<in> (dep_edges d env)\<^sup>*)"
    proof
      assume "\<exists>f \<in> set ?new. (f, src) \<in> (dep_edges d env)\<^sup>*"
      then show "\<exists>f \<in> set (current # frontier). (f, src) \<in> (dep_edges d env)\<^sup>*"
        by (auto simp: set_new_deps dep_edges_def intro: converse_rtrancl_into_rtrancl)
    next
      assume "\<exists>f \<in> set (current # frontier). (f, src) \<in> (dep_edges d env)\<^sup>*"
      then show "\<exists>f \<in> set ?new. (f, src) \<in> (dep_edges d env)\<^sup>*"
        using leaves_closed [of current src "dep_edges d env" ?seen "set ?new"] cl c "2.prems"(1) by auto
    qed
    ultimately show ?thesis using c by simp
  qed
qed

lemma would_cycle_iff: "would_cycle d env src dst \<longleftrightarrow> (dst, src) \<in> (dep_edges d env)\<^sup>*"
  using dep_walk_iff [of src "{}" d env "[dst]"] by (auto simp: would_cycle_def simp del: dep_walk.simps)

text \<open>A relation row with its two nodes is a dependency of task \<open>a\<close> on task \<open>b\<close>.\<close>

definition dep_link :: "uuid \<Rightarrow> uuid \<Rightarrow> uuid \<Rightarrow> relation_row \<Rightarrow> graph_node \<Rightarrow> graph_node \<Rightarrow> bool" where
  "dep_link env a b r s t \<longleftrightarrow>
     gn_id s = r_src_node_id r \<and> gn_id t = r_dst_node_id r \<and> r_env_id r = env \<and> r_type r = ''depends_on'' \<and>
     gn_type s = NT_task \<and> gn_type t = NT_task \<and> gn_task_id s = Some a \<and> gn_task_id t = Some b"

lemma dep_edges_iff:
  "(a, b) \<in> dep_edges d env \<longleftrightarrow>
     (\<exists>r \<in> set (relation_rows d). \<exists>s \<in> set (graph_nodes d). \<exists>t \<in> set (graph_nodes d). dep_link env a b r s t)"
proof -
  have single: "Some b \<in> set (if c then [x] else []) \<longleftrightarrow> c \<and> x = Some b" for c and x :: "uuid option" by auto
  have "(a, b) \<in> dep_edges d env \<longleftrightarrow>
      (\<exists>r \<in> set (relation_rows d). \<exists>s \<in> set (graph_nodes d). \<exists>t \<in> set (graph_nodes d).
         Some b \<in> set (if gn_id s = r_src_node_id r \<and> gn_id t = r_dst_node_id r \<and> r_env_id r = env \<and>
           r_type r = ''depends_on'' \<and> gn_type s = NT_task \<and> gn_type t = NT_task \<and>
           gn_task_id s = Some a then [gn_task_id t] else []))"
    unfolding dep_edges_def dep_rows_def by (simp only: mem_Collect_eq prod.case set_concat set_map UN_iff bex_simps)
  then show ?thesis unfolding single dep_link_def by simp
qed

definition dep_acyclic :: "db \<Rightarrow> bool" where
  "dep_acyclic d \<longleftrightarrow> (\<forall>env. acyclic (dep_edges d env))"

subsection \<open>Well-formed graph tables\<close>

definition node_shape :: "graph_node \<Rightarrow> bool" where
  "node_shape n \<longleftrightarrow> (gn_type n = NT_memory) = (gn_memory_id n \<noteq> None) \<and>
     (gn_type n = NT_entity) = (gn_entity_id n \<noteq> None) \<and> (gn_type n = NT_task) = (gn_task_id n \<noteq> None)"

definition has_node :: "db \<Rightarrow> uuid \<Rightarrow> uuid \<Rightarrow> bool" where
  "has_node d i env \<longleftrightarrow> (\<exists>n \<in> set (graph_nodes d). gn_id n = i \<and> gn_env_id n = env)"

definition graph_ok :: "db \<Rightarrow> bool" where
  "graph_ok d \<longleftrightarrow> distinct (map gn_id (graph_nodes d)) \<and> (\<forall>n \<in> set (graph_nodes d). node_shape n) \<and>
     distinct (map r_id (relation_rows d)) \<and>
     distinct (map (\<lambda>r. (r_src_node_id r, r_dst_node_id r, r_type r)) (relation_rows d)) \<and>
     (\<forall>r \<in> set (relation_rows d). has_node d (r_src_node_id r) (r_env_id r) \<and>
        has_node d (r_dst_node_id r) (r_env_id r))"

lemma graph_ok_empty: "graph_ok (empty_db source)" and dep_acyclic_empty: "dep_acyclic (empty_db source)"
  by (simp_all add: graph_ok_def dep_acyclic_def dep_edges_def dep_rows_def empty_db_def acyclic_def)

lemma graph_frame:
  assumes "graph_nodes d' = graph_nodes d" "relation_rows d' = relation_rows d"
  shows "graph_ok d' = graph_ok d" "dep_edges d' = dep_edges d" "dep_acyclic d' = dep_acyclic d"
  using assms by (simp_all add: graph_ok_def has_node_def dep_edges_def dep_rows_def dep_acyclic_def fun_eq_iff)

lemma insert_node_cases:
  assumes "insert_graph_node n d = Inr d'"
  shows "d' = d\<lparr>graph_nodes := graph_nodes d @ [n]\<rparr>" and "gn_id n \<notin> gn_id ` set (graph_nodes d)"
    and "node_shape n" and "env_exists d (gn_env_id n)"
proof -
  have v: "node_violation d n = None" and "d' = d\<lparr>graph_nodes := graph_nodes d @ [n]\<rparr>"
    using assms by (auto simp: insert_graph_node_def split: option.splits)
  then show "d' = d\<lparr>graph_nodes := graph_nodes d @ [n]\<rparr>" by simp
  show "gn_id n \<notin> gn_id ` set (graph_nodes d)"
    using v by (auto simp: node_violation_def list_ex_iff split: if_splits)
  show "node_shape n"
    using v by (auto simp: node_violation_def node_shape_def split: if_splits)
  show "env_exists d (gn_env_id n)" using v by (auto simp: node_violation_def split: if_splits)
qed

lemma insert_node_ok:
  assumes ok: "graph_ok d" and ins: "insert_graph_node n d = Inr d'"
  shows "graph_ok d'" "dep_edges d' = dep_edges d"
proof -
  note i = insert_node_cases [OF ins]
  show "graph_ok d'" using ok i by (auto simp: graph_ok_def has_node_def)
  have old: "s \<in> set (graph_nodes d)" if "r \<in> set (relation_rows d)" "s \<in> set (graph_nodes d')"
      "gn_id s = r_src_node_id r \<or> gn_id s = r_dst_node_id r" for r s
  proof (rule ccontr)
    assume "s \<notin> set (graph_nodes d)"
    then have "s = n" using that(2) i(1) by simp
    moreover have "gn_id s \<in> gn_id ` set (graph_nodes d)"
      using ok that(1,3) unfolding graph_ok_def has_node_def by (metis image_eqI)
    ultimately show False using i(2) by simp
  qed
  have sub: "set (graph_nodes d) \<subseteq> set (graph_nodes d')" and rel: "relation_rows d' = relation_rows d"
    using i(1) by auto
  have "(a, b) \<in> dep_edges d' env \<longleftrightarrow> (a, b) \<in> dep_edges d env" for a b env
  proof
    assume "(a, b) \<in> dep_edges d' env"
    then obtain r s t where "r \<in> set (relation_rows d)" "s \<in> set (graph_nodes d')" "t \<in> set (graph_nodes d')"
      "dep_link env a b r s t" unfolding dep_edges_iff rel by blast
    then show "(a, b) \<in> dep_edges d env" unfolding dep_edges_iff
      using old [of r s] old [of r t] by (auto simp: dep_link_def)
  next
    assume "(a, b) \<in> dep_edges d env"
    then show "(a, b) \<in> dep_edges d' env" unfolding dep_edges_iff rel using sub by blast
  qed
  then show "dep_edges d' = dep_edges d" by (auto simp: fun_eq_iff)
qed

lemma insert_relation_cases:
  assumes "insert_relation_row r d = Inr d'"
  shows "d' = d\<lparr>relation_rows := relation_rows d @ [r]\<rparr>" and "r_id r \<notin> r_id ` set (relation_rows d)"
    and "has_node d (r_src_node_id r) (r_env_id r)" "has_node d (r_dst_node_id r) (r_env_id r)"
    and "find_relation d (r_src_node_id r) (r_dst_node_id r) (r_type r) = None" and "0 < r_version r"
proof -
  have v: "relation_violation d r = None" and "d' = d\<lparr>relation_rows := relation_rows d @ [r]\<rparr>"
    using assms by (auto simp: insert_relation_row_def split: option.splits)
  then show "d' = d\<lparr>relation_rows := relation_rows d @ [r]\<rparr>" by simp
  show "r_id r \<notin> r_id ` set (relation_rows d)" "0 < r_version r"
    using v by (auto simp: relation_violation_def list_ex_iff split: if_splits)
  show "has_node d (r_src_node_id r) (r_env_id r)" "has_node d (r_dst_node_id r) (r_env_id r)"
    using v by (auto simp: relation_violation_def list_ex_iff has_node_def split: if_splits)
  show "find_relation d (r_src_node_id r) (r_dst_node_id r) (r_type r) = None"
    using v by (auto simp: relation_violation_def list_ex_iff find_relation_def find_None_iff split: if_splits)
qed

lemma insert_relation_ok:
  assumes ok: "graph_ok d" and ins: "insert_relation_row r d = Inr d'"
  shows "graph_ok d'"
  using ok insert_relation_cases [OF ins]
  by (auto simp: graph_ok_def has_node_def find_relation_def find_None_iff)

text \<open>A new relation adds its own edge when it is a dependency between tasks, and no other.\<close>

lemma insert_relation_edges:
  assumes ok: "graph_ok d" and ins: "insert_relation_row r d = Inr d'"
    and s: "s \<in> set (graph_nodes d)" "gn_id s = r_src_node_id r"
    and t: "t \<in> set (graph_nodes d)" "gn_id t = r_dst_node_id r"
  shows "dep_edges d' env = dep_edges d env \<union>
    {(a, b). r_env_id r = env \<and> r_type r = ''depends_on'' \<and> gn_task_id s = Some a \<and> gn_task_id t = Some b}"
proof -
  have one: "s' = s" if "s' \<in> set (graph_nodes d)" "gn_id s' = r_src_node_id r" for s'
    using ok s that by (auto simp: graph_ok_def distinct_map inj_on_def)
  have two: "t' = t" if "t' \<in> set (graph_nodes d)" "gn_id t' = r_dst_node_id r" for t'
    using ok t that by (auto simp: graph_ok_def distinct_map inj_on_def)
  have ty: "gn_task_id s = Some a \<Longrightarrow> gn_type s = NT_task" "gn_task_id t = Some a \<Longrightarrow> gn_type t = NT_task" for a
    using ok s t by (auto simp: graph_ok_def node_shape_def)
  have rows: "set (relation_rows d') = insert r (set (relation_rows d))" "graph_nodes d' = graph_nodes d"
    using insert_relation_cases(1) [OF ins] by simp_all
  have this_row: "(\<exists>s' \<in> set (graph_nodes d). \<exists>t' \<in> set (graph_nodes d). dep_link env a b r s' t') \<longleftrightarrow>
      r_env_id r = env \<and> r_type r = ''depends_on'' \<and> gn_task_id s = Some a \<and> gn_task_id t = Some b" (is "?L \<longleftrightarrow> ?R") for a b
  proof
    assume ?L
    then show ?R using one two by (auto simp: dep_link_def)
  next
    assume ?R
    then have "dep_link env a b r s t" using s(2) t(2) ty by (simp add: dep_link_def)
    then show ?L using s(1) t(1) by blast
  qed
  have "(a, b) \<in> dep_edges d' env \<longleftrightarrow> (a, b) \<in> dep_edges d env \<or>
      (r_env_id r = env \<and> r_type r = ''depends_on'' \<and> gn_task_id s = Some a \<and> gn_task_id t = Some b)" for a b
    unfolding dep_edges_iff [of a b d'] rows this_row [symmetric] dep_edges_iff [of a b d] by blast
  then show ?thesis by auto
qed

text \<open>The guard keeps the graph acyclic.\<close>

lemma guarded_insert_acyclic:
  assumes "graph_ok d" and ac: "dep_acyclic d" and ins: "insert_relation_row r d = Inr d'"
    and "s \<in> set (graph_nodes d)" "gn_id s = r_src_node_id r" "t \<in> set (graph_nodes d)" "gn_id t = r_dst_node_id r"
    and guard: "\<And>a b. r_type r = ''depends_on'' \<Longrightarrow> gn_task_id s = Some a \<Longrightarrow> gn_task_id t = Some b
      \<Longrightarrow> \<not> would_cycle d (r_env_id r) a b"
  shows "dep_acyclic d'"
  unfolding dep_acyclic_def
proof
  fix env
  have e: "dep_edges d' env = dep_edges d env \<union>
    {(a, b). r_env_id r = env \<and> r_type r = ''depends_on'' \<and> gn_task_id s = Some a \<and> gn_task_id t = Some b}"
    by (rule insert_relation_edges [OF assms(1,3-7)])
  show "acyclic (dep_edges d' env)"
  proof (cases "\<exists>a b. r_env_id r = env \<and> r_type r = ''depends_on'' \<and> gn_task_id s = Some a \<and> gn_task_id t = Some b")
    case True
    then obtain a b where ab: "gn_task_id s = Some a" "gn_task_id t = Some b" "r_env_id r = env"
      "r_type r = ''depends_on''" by blast
    then have "dep_edges d' env = insert (a, b) (dep_edges d env)" unfolding e by auto
    moreover have "(b, a) \<notin> (dep_edges d env)\<^sup>*" using guard ab would_cycle_iff by metis
    ultimately show ?thesis using ac by (simp add: dep_acyclic_def acyclic_insert)
  next
    case False
    then have "dep_edges d' env = dep_edges d env" unfolding e by auto
    then show ?thesis using ac by (simp add: dep_acyclic_def)
  qed
qed

end
