(* ===== verification/Paging.thy ===== *)
theory Paging
  imports Store
begin

text \<open>
  Keyset pagination: the cursors of \<open>memory_mcp/pagination.py\<close> and the contract of a paged
  listing. A cursor text is modelled by the JSON document it encodes (url-safe base64 of
  \<open>json.dumps\<close>, an invertible encoding); a text that does not decode is \<open>None\<close>. Filter
  fingerprints are texts. The interface \<open>keyset_pager\<close> says what a page and its cursor are;
  its client lemma \<open>walk_complete\<close> says that following the cursors lists every row exactly
  once, in order.
\<close>

subsection \<open>Cursors\<close>

record keyset_cursor =
  kc_filter_fingerprint :: string
  kc_order_field :: string
  kc_order_value :: json
  kc_tiebreak_id :: uuid
  kc_direction :: string

definition schema_version :: int where
  "schema_version = 1"

definition encode_cursor :: "string \<Rightarrow> string \<Rightarrow> json \<Rightarrow> uuid \<Rightarrow> string \<Rightarrow> json option" where
  "encode_cursor fp order_field order_value tiebreak direction =
     Some (JObj [(''d'', JStr direction), (''fp'', JStr fp), (''id'', JUuid tiebreak),
       (''ob'', JStr order_field), (''ov'', order_value), (''sv'', JInt schema_version)])"

text \<open>\<open>sv == 1\<close>; Python compares \<open>True\<close> and \<open>1.0\<close> equal to \<open>1\<close>.\<close>

definition is_schema_version :: "json \<Rightarrow> bool" where
  "is_schema_version v = (case v of JInt i \<Rightarrow> i = schema_version | JBool b \<Rightarrow> b | JReal r \<Rightarrow> r = 1 | _ \<Rightarrow> False)"

text \<open>
  \<open>UUID(payload["id"])\<close>: a text that is no uuid is a \<open>ValueError\<close> and null a
  \<open>TypeError\<close>, both caught; any other value has no \<open>replace\<close> method, and the
  \<open>AttributeError\<close> escapes.
\<close>

definition parse_tiebreak :: "json \<Rightarrow> uuid res" where
  "parse_tiebreak v = (case v of JUuid u \<Rightarrow> Inr u
     | JStr _ \<Rightarrow> Inl InvalidCursorError | JTime _ \<Rightarrow> Inl InvalidCursorError | JNull \<Rightarrow> Inl InvalidCursorError
     | _ \<Rightarrow> Inl (AttributeError ''replace''))"

definition text_of_json :: "json \<Rightarrow> string" where
  "text_of_json v = (case v of JStr s \<Rightarrow> s | _ \<Rightarrow> [])"

definition decode_cursor ::
  "json option \<Rightarrow> string \<Rightarrow> string option \<Rightarrow> string option \<Rightarrow> keyset_cursor res" where
  "decode_cursor cursor fp order_field direction =
     (case cursor of
        None \<Rightarrow> Inl InvalidCursorError
      | Some (JObj p) \<Rightarrow>
          if \<not> is_schema_version (jget p ''sv'') then Inl InvalidCursorError
          else if list_ex (\<lambda>k. map_of p k = None) [''fp'', ''ob'', ''ov'', ''id'', ''d''] then Inl InvalidCursorError
          else if jget p ''fp'' \<noteq> JStr fp then Inl InvalidCursorError
          else if (case order_field of None \<Rightarrow> False | Some f \<Rightarrow> jget p ''ob'' \<noteq> JStr f) then Inl InvalidCursorError
          else if (case direction of None \<Rightarrow> False | Some x \<Rightarrow> jget p ''d'' \<noteq> JStr x) then Inl InvalidCursorError
          else bindE (parse_tiebreak (jget p ''id'')) (\<lambda>u.
            if jget p ''d'' \<noteq> JStr ''asc'' \<and> jget p ''d'' \<noteq> JStr ''desc'' then Inl (ValueError ''direction'')
            else case jget p ''ob'' of
                JStr f \<Rightarrow> Inr \<lparr>kc_filter_fingerprint = fp, kc_order_field = f, kc_order_value = jget p ''ov'',
                  kc_tiebreak_id = u, kc_direction = text_of_json (jget p ''d'')\<rparr>
              | _ \<Rightarrow> Inl (ValueError ''order_field''))
      | Some _ \<Rightarrow> Inl InvalidCursorError)"

lemma decode_encode:
  "x = ''asc'' \<or> x = ''desc'' \<Longrightarrow>
   decode_cursor (encode_cursor fp f v u x) fp (Some f) (Some x) =
     Inr \<lparr>kc_filter_fingerprint = fp, kc_order_field = f, kc_order_value = v, kc_tiebreak_id = u, kc_direction = x\<rparr>"
  by (auto simp: decode_cursor_def encode_cursor_def is_schema_version_def jget_def parse_tiebreak_def text_of_json_def)

lemma decode_encode_mismatch:
  "fp \<noteq> fp' \<or> f \<noteq> f' \<or> x \<noteq> x' \<Longrightarrow>
   decode_cursor (encode_cursor fp f v u x) fp' (Some f') (Some x') = Inl InvalidCursorError"
  by (auto simp: decode_cursor_def encode_cursor_def is_schema_version_def jget_def parse_tiebreak_def)

subsection \<open>Walking a listing\<close>

fun walk_pages :: "('c option \<Rightarrow> 'r list \<times> 'c option) \<Rightarrow> nat \<Rightarrow> 'c option \<Rightarrow> 'r list list" where
  "walk_pages fetch 0 c = []"
| "walk_pages fetch (Suc n) c =
     (case fetch c of (page, None) \<Rightarrow> [page] | (page, Some c') \<Rightarrow> page # walk_pages fetch n (Some c'))"

text \<open>A page: at most \<open>limit\<close> rows, and the cursor of the last one when there are more.\<close>

definition keyset_page :: "nat \<Rightarrow> ('r \<Rightarrow> 'c) \<Rightarrow> 'r list \<Rightarrow> 'r list \<times> 'c option" where
  "keyset_page limit cursor_of xs =
     (take limit xs,
      if limit < length xs \<and> take limit xs \<noteq> [] then Some (cursor_of (last (take limit xs))) else None)"

text \<open>
  The contract, for every state \<open>s\<close> in which the listing is defined: \<open>rows s\<close> is the listing,
  strictly ordered by \<open>before\<close> on cursors, and \<open>fetch s c\<close> is the page of the rows after \<open>c\<close>.
\<close>

locale keyset_pager =
  fixes valid :: "'s \<Rightarrow> bool"
    and rows :: "'s \<Rightarrow> 'r list"
    and limit :: "'s \<Rightarrow> nat"
    and cursor_of :: "'r \<Rightarrow> 'c"
    and before :: "'c \<Rightarrow> 'r \<Rightarrow> bool"
    and fetch :: "'s \<Rightarrow> 'c option \<Rightarrow> 'r list \<times> 'c option"
  assumes ordered: "valid s \<Longrightarrow> sorted_wrt (\<lambda>r r'. before (cursor_of r) r' \<and> \<not> before (cursor_of r') r) (rows s)"
    and irrefl: "\<not> before (cursor_of r) r"
    and limit_pos: "valid s \<Longrightarrow> 0 < limit s"
    and first_page: "valid s \<Longrightarrow> fetch s None = keyset_page (limit s) cursor_of (rows s)"
    and next_page: "valid s \<Longrightarrow> r \<in> set (rows s) \<Longrightarrow> fetch s (Some (cursor_of r)) =
      keyset_page (limit s) cursor_of (filter (before (cursor_of r)) (rows s))"
begin

lemma after_last:
  assumes "valid s" and "rows s = xs @ ys @ zs" and "ys \<noteq> []"
  shows "filter (before (cursor_of (last ys))) (rows s) = zs"
proof -
  obtain us r where ys: "ys = us @ [r]" using assms(3) by (cases ys rule: rev_cases) auto
  have "sorted_wrt (\<lambda>r r'. before (cursor_of r) r' \<and> \<not> before (cursor_of r') r) ((xs @ us) @ r # zs)"
    using ordered [OF assms(1)] assms(2) ys by simp
  then have "\<forall>x \<in> set (xs @ us). \<not> before (cursor_of r) x" "\<forall>z \<in> set zs. before (cursor_of r) z"
    by (auto simp: sorted_wrt_append)
  then have "filter (before (cursor_of r)) (xs @ us) = []" "filter (before (cursor_of r)) zs = zs"
    by (auto simp: filter_empty_conv)
  then show ?thesis using assms(2) ys irrefl by simp
qed

lemma walk_suffix:
  assumes "valid s" and "rows s = xs @ ys" and "fetch s c = keyset_page (limit s) cursor_of ys" and "length ys < n"
  shows "concat (walk_pages (fetch s) n c) = ys \<and> (\<forall>p \<in> set (walk_pages (fetch s) n c). length p \<le> limit s)"
  using assms(2-)
proof (induction n arbitrary: xs ys c)
  case 0
  then show ?case by simp
next
  case (Suc n)
  let ?l = "limit s" and ?p = "take (limit s) ys"
  show ?case
  proof (cases "?l < length ys")
    case True
    then have ne: "?p \<noteq> []" using limit_pos [OF assms(1)] by auto
    have split: "rows s = xs @ ?p @ drop ?l ys" using Suc.prems(1) by simp
    have "last ?p \<in> set (rows s)" using ne split last_in_set [OF ne] by (metis Un_iff set_append)
    then have "fetch s (Some (cursor_of (last ?p))) = keyset_page ?l cursor_of (drop ?l ys)"
      using next_page [OF assms(1)] after_last [OF assms(1) split ne] by simp
    moreover have "rows s = (xs @ ?p) @ drop ?l ys" using split by simp
    moreover have "length (drop ?l ys) < n" using Suc.prems(3) limit_pos [OF assms(1)] True by simp
    ultimately have "concat (walk_pages (fetch s) n (Some (cursor_of (last ?p)))) = drop ?l ys \<and>
        (\<forall>p \<in> set (walk_pages (fetch s) n (Some (cursor_of (last ?p)))). length p \<le> ?l)"
      by (intro Suc.IH)
    then show ?thesis using Suc.prems(2) True ne by (simp add: keyset_page_def)
  next
    case False
    then show ?thesis using Suc.prems(2) by (simp add: keyset_page_def)
  qed
qed

lemma walk_complete:
  assumes "valid s" and "length (rows s) < n"
  shows "concat (walk_pages (fetch s) n None) = rows s \<and>
    (\<forall>p \<in> set (walk_pages (fetch s) n None). length p \<le> limit s)"
  using walk_suffix [OF assms(1), of "[]" "rows s" None n] assms(2) first_page [OF assms(1)] by simp

end

end
