(* ===== verification/Locking.thy ===== *)
theory Locking
  imports Store
begin

text \<open>
  Optimistic locking, the contract every versioned update of the program follows: a commit
  names the version it read; it succeeds only while the row still has that version, and then
  bumps it. The client lemmas are the ones concurrent callers rely on: versions never go back,
  and of two writers that read the same version at most one commits, whatever other commits
  come between.
\<close>

locale optimistic_lock =
  fixes read_version :: "'d \<Rightarrow> 'k \<Rightarrow> int option"
    and commit :: "'a \<Rightarrow> 'k \<Rightarrow> int \<Rightarrow> 'd \<Rightarrow> ('d \<times> 'b) res"
  assumes commit_matches: "commit a k v d = Inr (d', b) \<Longrightarrow> read_version d k = Some v"
    and commit_bumps: "commit a k v d = Inr (d', b) \<Longrightarrow> read_version d' k = Some (v + 1)"
    and commit_frame: "commit a k v d = Inr (d', b) \<Longrightarrow> j \<noteq> k \<Longrightarrow> read_version d' j = read_version d j"
begin

lemma stale_fails: "read_version d k \<noteq> Some v \<Longrightarrow> \<exists>e. commit a k v d = Inl e"
  by (cases "commit a k v d") (auto dest: commit_matches)

lemma version_grows:
  assumes "(\<lambda>d d'. \<exists>a k v b. commit a k v d = Inr (d', b))\<^sup>*\<^sup>* d d'" and "read_version d k = Some v"
  shows "\<exists>w \<ge> v. read_version d' k = Some w"
  using assms
proof (induction rule: rtranclp_induct)
  case base
  then show ?case by auto
next
  case (step d1 d2)
  then obtain w a j u b where w: "read_version d1 k = Some w" "v \<le> w" "commit a j u d1 = Inr (d2, b)" by blast
  show ?case
  proof (cases "j = k")
    case True
    then have "u = w" using w commit_matches by fastforce
    then have "read_version d2 k = Some (w + 1)" using commit_bumps [OF w(3)] True by simp
    then show ?thesis using w(2) by (intro exI [of _ "w + 1"]) simp
  next
    case False
    then show ?thesis using commit_frame [OF w(3), of k] w by auto
  qed
qed

lemma one_winner:
  assumes "commit a k v d = Inr (d1, b)" and "(\<lambda>d d'. \<exists>a k v b. commit a k v d = Inr (d', b))\<^sup>*\<^sup>* d1 d2"
  shows "\<exists>e. commit a' k v d2 = Inl e"
proof -
  obtain w where "w \<ge> v + 1" "read_version d2 k = Some w"
    using version_grows [OF assms(2) commit_bumps [OF assms(1)]] by blast
  then show ?thesis by (intro stale_fails) simp
qed

end

end
