(* ===== verification/Tasks.thy ===== *)
theory Tasks
  imports GraphStore Paging Locking Outbox "HOL-Library.Product_Lexorder"
begin

text \<open>
  The task graph, \<open>memory_mcp/tasks/api.py\<close>: creation, sub-steps, dependency links, status
  changes, listing, the next task, the subtree view and links to memories. One definition per
  function of the module; a tool call is \<open>Inl\<close> of its exception or \<open>Inr\<close> of the new database
  and the response. \<open>now\<close> is the transaction's \<open>now()\<close>.
\<close>

record task_response =
  tr_id :: uuid
  tr_env_id :: uuid
  tr_title :: string
  tr_description :: "string option"
  tr_status :: task_status
  tr_priority :: int
  tr_playbook_id :: "uuid option"
  tr_version :: int
  tr_created_at :: time
  tr_updated_at :: time

record task_create_request =
  tc_env_id :: uuid
  tc_title :: string
  tc_description :: "string option"
  tc_priority :: int
  tc_playbook_id :: "uuid option"

record task_relation_request =
  tq_src_task_id :: uuid
  tq_dst_task_id :: uuid
  tq_type :: task_relation_kind

record task_relation_response =
  tp_src_task_id :: uuid
  tp_dst_task_id :: uuid
  tp_type :: task_relation_kind
  tp_created_at :: time

record task_list_request =
  tl_env_id :: uuid
  tl_status :: "task_status option"
  tl_priority_max :: "int option"
  tl_cursor :: "json option option"
  tl_limit :: nat

record task_list_response =
  tl_hits :: "task_response list"
  tl_next_cursor :: "json option option"

record task_tree_line =
  tt_depth :: nat
  tt_task_id :: uuid
  tt_status :: string
  tt_desc :: string
  tt_version :: int

record task_tree_response =
  tt_root_id :: uuid
  tt_lines :: "task_tree_line list"
  tt_truncated :: bool
  tt_total_visited :: nat

record task_link_memory_request =
  tm_task_id :: uuid
  tm_memory_id :: uuid
  tm_relation :: task_relation_kind

record task_link_memory_response =
  tn_relation_id :: uuid
  tn_task_id :: uuid
  tn_memory_id :: uuid
  tn_relation :: task_relation_kind
  tn_created_at :: time

subsection \<open>Helpers\<close>

definition assert_env_visible :: "uuid \<Rightarrow> agent_context \<Rightarrow> unit res" where
  "assert_env_visible env ctx =
     raise_if (ctx_attached_env_ids ctx \<noteq> [] \<and> env \<notin> set (ctx_attached_env_ids ctx)) (NotFoundError ''env'' env)"

definition require_env_attached :: "uuid \<Rightarrow> agent_context \<Rightarrow> unit res" where
  "require_env_attached env ctx =
     raise_if (env \<notin> set (ctx_attached_env_ids ctx)) (EnvNotAttachedError env (ctx_attached_env_ids ctx))"

definition task_to_response :: "task \<Rightarrow> task_response" where
  "task_to_response t = \<lparr>tr_id = t_id t, tr_env_id = t_env_id t, tr_title = t_title t,
     tr_description = t_description t, tr_status = t_status t, tr_priority = t_priority t,
     tr_playbook_id = t_playbook_id t, tr_version = t_version t, tr_created_at = t_created_at t,
     tr_updated_at = t_updated_at t\<rparr>"

definition task_payload :: "task \<Rightarrow> payload" where
  "task_payload t =
     [(''task_id'', JUuid (t_id t)), (''env_id'', JUuid (t_env_id t)), (''title'', JStr (t_title t)),
      (''description'', opt_json JStr (t_description t)), (''status'', JStr (task_status_value (t_status t))),
      (''priority'', JInt (t_priority t)), (''playbook_id'', opt_json JUuid (t_playbook_id t)),
      (''version'', JInt (t_version t)), (''created_at'', JTime (t_created_at t)),
      (''updated_at'', JTime (t_updated_at t))]"

text \<open>\<open>str(node.task_id or node.memory_id or node.entity_id)\<close>\<close>

definition node_record_json :: "graph_node \<Rightarrow> json" where
  "node_record_json n =
     (case gn_task_id n of Some i \<Rightarrow> JUuid i
      | None \<Rightarrow> (case gn_memory_id n of Some i \<Rightarrow> JUuid i
        | None \<Rightarrow> (case gn_entity_id n of Some i \<Rightarrow> JUuid i | None \<Rightarrow> JStr ''None'')))"

definition task_relation_payload :: "relation_row \<Rightarrow> graph_node \<Rightarrow> graph_node \<Rightarrow> payload" where
  "task_relation_payload r s t =
     [(''relation_id'', JUuid (r_id r)), (''env_id'', JUuid (r_env_id r)), (''type'', JStr (r_type r)),
      (''properties'', JObj (r_properties r)),
      (''src'', JObj [(''kind'', JStr (node_type_value (gn_type s))), (''id'', node_record_json s),
                      (''node_id'', JUuid (gn_id s))]),
      (''dst'', JObj [(''kind'', JStr (node_type_value (gn_type t))), (''id'', node_record_json t),
                      (''node_id'', JUuid (gn_id t))]),
      (''version'', JInt (r_version r)), (''created_at'', JTime (r_created_at r)),
      (''updated_at'', JTime (r_updated_at r))]"

definition load_task :: "uuid \<Rightarrow> db \<Rightarrow> task res" where
  "load_task i d = some_or (NotFoundError ''task'' i) (lookup t_id i (task_rows d))"

text \<open>The node of a task or memory, inserted when it is missing.\<close>

definition ensure_task_graph_node :: "uuid \<Rightarrow> uuid \<Rightarrow> db \<Rightarrow> (db \<times> graph_node) res" where
  "ensure_task_graph_node env i d =
     (case find (\<lambda>n. gn_env_id n = env \<and> gn_task_id n = Some i) (graph_nodes d) of
        Some n \<Rightarrow> Inr (d, n)
      | None \<Rightarrow>
          let n = \<lparr>gn_id = next_uuid d, gn_env_id = env, gn_type = NT_task, gn_memory_id = None,
                   gn_entity_id = None, gn_task_id = Some i\<rparr>
          in bindE (insert_graph_node n (draw_uuid d)) (\<lambda>d'. Inr (d', n)))"

definition ensure_memory_graph_node :: "uuid \<Rightarrow> uuid \<Rightarrow> db \<Rightarrow> (db \<times> graph_node) res" where
  "ensure_memory_graph_node env i d =
     (case find (\<lambda>n. gn_env_id n = env \<and> gn_memory_id n = Some i) (graph_nodes d) of
        Some n \<Rightarrow> Inr (d, n)
      | None \<Rightarrow>
          let n = \<lparr>gn_id = next_uuid d, gn_env_id = env, gn_type = NT_memory, gn_memory_id = Some i,
                   gn_entity_id = None, gn_task_id = None\<rparr>
          in bindE (insert_graph_node n (draw_uuid d)) (\<lambda>d'. Inr (d', n)))"

definition new_relation :: "uuid \<Rightarrow> uuid \<Rightarrow> graph_node \<Rightarrow> graph_node \<Rightarrow> string \<Rightarrow> payload \<Rightarrow> time \<Rightarrow> relation_row" where
  "new_relation i env s t ty props now = \<lparr>r_id = i, r_env_id = env, r_src_node_id = gn_id s,
     r_dst_node_id = gn_id t, r_type = ty, r_properties = props, r_version = 1, r_created_at = now,
     r_updated_at = now\<rparr>"

definition insert_relation ::
  "time \<Rightarrow> uuid \<Rightarrow> graph_node \<Rightarrow> graph_node \<Rightarrow> task_relation_kind \<Rightarrow> db \<Rightarrow> (db \<times> relation_row \<times> bool) res" where
  "insert_relation now env s t k d =
     (case find_relation d (gn_id s) (gn_id t) (task_relation_value k) of
        Some r \<Rightarrow> Inr (d, r, False)
      | None \<Rightarrow>
          let r = new_relation (next_uuid d) env s t (task_relation_value k) [] now
          in bindE (insert_relation_row r (draw_uuid d)) (\<lambda>d'. Inr (d', r, True)))"

text \<open>
  \<open>INSERT ... ON CONFLICT (src_node_id, dst_node_id, type) DO NOTHING RETURNING id\<close>, then a
  select of the existing row when nothing was returned. The default value of the id column is
  drawn either way.
\<close>

definition insert_relation_idempotent ::
  "time \<Rightarrow> uuid \<Rightarrow> graph_node \<Rightarrow> graph_node \<Rightarrow> task_relation_kind \<Rightarrow> db \<Rightarrow> (db \<times> relation_row \<times> bool) res" where
  "insert_relation_idempotent now env s t k d =
     (let r = new_relation (next_uuid d) env s t (task_relation_value k) [] now;
          d0 = draw_uuid d in
      case find_relation d (gn_id s) (gn_id t) (task_relation_value k) of
        Some r' \<Rightarrow> Inr (d0, r', False)
      | None \<Rightarrow> bindE (insert_relation_row r d0) (\<lambda>d'. Inr (d', r, True)))"

definition enqueue_task :: "settings \<Rightarrow> time \<Rightarrow> task \<Rightarrow> outbox_op \<Rightarrow> db \<Rightarrow> db res" where
  "enqueue_task st now t op d =
     bindE (enqueue_event st now AT_task (t_id t) (t_version t) (t_env_id t) op (task_payload t) None d)
       (\<lambda>(d', _). Inr d')"

definition enqueue_relation ::
  "settings \<Rightarrow> time \<Rightarrow> relation_row \<Rightarrow> graph_node \<Rightarrow> graph_node \<Rightarrow> outbox_op \<Rightarrow> db \<Rightarrow> db res" where
  "enqueue_relation st now r s t op d =
     bindE (enqueue_event st now AT_relation (r_id r) (r_version r) (r_env_id r) op (task_relation_payload r s t) None d)
       (\<lambda>(d', _). Inr d')"

text \<open>The constraint a new task violates, if any (migration 0010).\<close>

definition task_violation :: "db \<Rightarrow> task \<Rightarrow> string option" where
  "task_violation d t =
     (if list_ex (\<lambda>o'. t_id o' = t_id t) (task_rows d) then Some ''tasks_pkey''
      else if \<not> env_exists d (t_env_id t) then Some ''tasks_env_id_fkey''
      else if \<not> (1 \<le> t_priority t \<and> t_priority t \<le> 100) then Some ''tasks_priority_check''
      else if (case t_playbook_id t of None \<Rightarrow> False | Some i \<Rightarrow> \<not> list_ex (\<lambda>m. m_id m = i) (memories d))
        then Some ''tasks_playbook_id_fkey''
      else None)"

definition insert_task :: "task \<Rightarrow> db \<Rightarrow> db res" where
  "insert_task t d = (case task_violation d t of
       Some c \<Rightarrow> Inl (IntegrityError c)
     | None \<Rightarrow> Inr (d\<lparr>task_rows := task_rows d @ [t]\<rparr>))"

definition new_task :: "uuid \<Rightarrow> uuid \<Rightarrow> string \<Rightarrow> string option \<Rightarrow> int \<Rightarrow> uuid option \<Rightarrow> uuid \<Rightarrow> time \<Rightarrow> task" where
  "new_task i env title description priority playbook agent now = \<lparr>t_id = i, t_env_id = env,
     t_title = title, t_description = description, t_status = TS_pending, t_priority = priority,
     t_playbook_id = playbook, t_version = 1, t_created_at = now, t_updated_at = now,
     t_created_by_agent_id = agent\<rparr>"

subsection \<open>Writes\<close>

definition check_playbook :: "uuid \<Rightarrow> uuid option \<Rightarrow> db \<Rightarrow> unit res" where
  "check_playbook env playbook d = (case playbook of None \<Rightarrow> Inr ()
     | Some i \<Rightarrow> (case lookup m_id i (memories d) of
         None \<Rightarrow> Inl (InvalidInputError ''playbook_id'')
       | Some m \<Rightarrow> raise_if (m_env_id m \<noteq> env \<or> m_kind m \<noteq> MK_playbook) (InvalidInputError ''playbook_id'')))"

definition task_create :: "settings \<Rightarrow> time \<Rightarrow> agent_context \<Rightarrow> task_create_request \<Rightarrow> db \<Rightarrow> (db \<times> task_response) res" where
  "task_create st now ctx req d =
     bindE (assert_env_visible (tc_env_id req) ctx) (\<lambda>_.
     bindE (rbac_require ''write'' (Some (tc_env_id req)) ctx) (\<lambda>_.
     bindE (check_playbook (tc_env_id req) (tc_playbook_id req) d) (\<lambda>_.
     let t = new_task (next_uuid d) (tc_env_id req) (tc_title req) (tc_description req) (tc_priority req)
               (tc_playbook_id req) (ctx_agent_id ctx) now in
     bindE (insert_task t (draw_uuid d)) (\<lambda>d1.
     bindE (ensure_task_graph_node (t_env_id t) (t_id t) d1) (\<lambda>(d2, _).
     bindE (enqueue_task st now t OP_upsert d2) (\<lambda>d3. Inr (d3, task_to_response t)))))))"

definition task_substep ::
  "settings \<Rightarrow> time \<Rightarrow> agent_context \<Rightarrow> uuid \<Rightarrow> string \<Rightarrow> string option \<Rightarrow> int \<Rightarrow> db \<Rightarrow> (db \<times> task_response) res" where
  "task_substep st now ctx parent_id title description priority d =
     bindE (raise_if (\<not> (1 \<le> priority \<and> priority \<le> 100)) (InvalidInputError ''priority'')) (\<lambda>_.
     bindE (load_task parent_id d) (\<lambda>parent.
     bindE (assert_env_visible (t_env_id parent) ctx) (\<lambda>_.
     bindE (rbac_require ''write'' (Some (t_env_id parent)) ctx) (\<lambda>_.
     let env = t_env_id parent;
         sub = new_task (next_uuid d) env title description priority None (ctx_agent_id ctx) now in
     bindE (insert_task sub (draw_uuid d)) (\<lambda>d1.
     bindE (ensure_task_graph_node env (t_id parent) d1) (\<lambda>(d2, parent_node).
     bindE (ensure_task_graph_node env (t_id sub) d2) (\<lambda>(d3, sub_node).
     bindE (raise_if (would_cycle d3 env (t_id parent) (t_id sub)) CycleDetectedError) (\<lambda>_.
     bindE (insert_relation now env parent_node sub_node RK_depends_on d3) (\<lambda>(d4, r, _).
     bindE (enqueue_task st now sub OP_upsert d4) (\<lambda>d5.
     bindE (enqueue_relation st now r parent_node sub_node OP_upsert d5) (\<lambda>d6.
       Inr (d6, task_to_response sub))))))))))))"

definition task_dep_link ::
  "settings \<Rightarrow> time \<Rightarrow> agent_context \<Rightarrow> task_relation_request \<Rightarrow> db \<Rightarrow> (db \<times> task_relation_response) res" where
  "task_dep_link st now ctx req d =
     bindE (raise_if (tq_src_task_id req = tq_dst_task_id req) CycleDetectedError) (\<lambda>_.
     bindE (raise_if (tq_type req \<noteq> RK_depends_on) (InvalidInputError ''type'')) (\<lambda>_.
     bindE (load_task (tq_src_task_id req) d) (\<lambda>src.
     bindE (load_task (tq_dst_task_id req) d) (\<lambda>dst.
     bindE (raise_if (t_env_id src \<noteq> t_env_id dst) (InvalidInputError ''env'')) (\<lambda>_.
     bindE (assert_env_visible (t_env_id src) ctx) (\<lambda>_.
     bindE (rbac_require ''write'' (Some (t_env_id src)) ctx) (\<lambda>_.
     let env = t_env_id src in
     bindE (ensure_task_graph_node env (t_id src) d) (\<lambda>(d1, src_node).
     bindE (ensure_task_graph_node env (t_id dst) d1) (\<lambda>(d2, dst_node).
     bindE (raise_if (would_cycle d2 env (t_id src) (t_id dst)) CycleDetectedError) (\<lambda>_.
     bindE (insert_relation now env src_node dst_node RK_depends_on d2) (\<lambda>(d3, r, created).
     bindE (if created then enqueue_relation st now r src_node dst_node OP_upsert d3 else Inr d3) (\<lambda>d4.
       Inr (d4, \<lparr>tp_src_task_id = t_id src, tp_dst_task_id = t_id dst, tp_type = RK_depends_on,
                 tp_created_at = r_created_at r\<rparr>)))))))))))))"

text \<open>
  \<open>task_status_set\<close> reads the task, then updates it where id and version still match. The two
  statements may see different committed states: \<open>d0\<close> is the one the select sees, \<open>d\<close> the one
  the update finds.
\<close>

definition task_status_check :: "agent_context \<Rightarrow> uuid \<Rightarrow> task_status \<Rightarrow> int \<Rightarrow> db \<Rightarrow> unit res" where
  "task_status_check ctx i status expected d =
     bindE (load_task i d) (\<lambda>t.
     bindE (assert_env_visible (t_env_id t) ctx) (\<lambda>_.
     bindE (rbac_require ''write'' (Some (t_env_id t)) ctx) (\<lambda>_.
     bindE (raise_if (\<not> is_valid_task_transition (t_status t) status)
              (InvalidTransitionError (task_status_value (t_status t)) (task_status_value status))) (\<lambda>_.
       raise_if (t_version t \<noteq> expected) (VersionConflictError expected (t_version t))))))"

definition task_status_commit :: "settings \<Rightarrow> time \<Rightarrow> task_status \<Rightarrow> uuid \<Rightarrow> int \<Rightarrow> db \<Rightarrow> (db \<times> task_response) res" where
  "task_status_commit st now status i expected d =
     (case lookup t_id i (task_rows d) of
        None \<Rightarrow> Inl (VersionConflictError expected (expected + 1))
      | Some t \<Rightarrow>
          if t_version t \<noteq> expected then Inl (VersionConflictError expected (expected + 1))
          else
            let f = (\<lambda>t. t\<lparr>t_status := status, t_version := expected + 1, t_updated_at := now\<rparr>) in
            bindE (enqueue_task st now (f t) OP_update
                     (d\<lparr>task_rows := update_where (\<lambda>t. t_id t = i) f (task_rows d)\<rparr>))
              (\<lambda>d'. Inr (d', task_to_response (f t))))"

definition task_status_set ::
  "settings \<Rightarrow> time \<Rightarrow> agent_context \<Rightarrow> uuid \<Rightarrow> task_status \<Rightarrow> int \<Rightarrow> db \<Rightarrow> db \<Rightarrow> (db \<times> task_response) res" where
  "task_status_set st now ctx i status expected d0 d =
     bindE (task_status_check ctx i status expected d0) (\<lambda>_. task_status_commit st now status i expected d)"

definition visible_memory_status :: "memory_status \<Rightarrow> bool" where
  "visible_memory_status s \<longleftrightarrow> s = MS_proposed \<or> s = MS_active \<or> s = MS_stale"

definition task_link_memory ::
  "settings \<Rightarrow> time \<Rightarrow> agent_context \<Rightarrow> task_link_memory_request \<Rightarrow> db \<Rightarrow> (db \<times> task_link_memory_response) res" where
  "task_link_memory st now ctx req d =
     bindE (raise_if (tm_relation req \<notin> {RK_motivated_by, RK_produces, RK_references}) (InvalidInputError ''relation'')) (\<lambda>_.
     bindE (load_task (tm_task_id req) d) (\<lambda>t.
     bindE (some_or (NotFoundError ''memory'' (tm_memory_id req)) (lookup m_id (tm_memory_id req) (memories d))) (\<lambda>m.
     bindE (raise_if (t_env_id t \<noteq> m_env_id m) (InvalidInputError ''env'')) (\<lambda>_.
     bindE (raise_if (\<not> visible_memory_status (m_status m)) (InvalidInputError ''memory'')) (\<lambda>_.
     bindE (assert_env_visible (t_env_id t) ctx) (\<lambda>_.
     bindE (rbac_require ''write'' (Some (t_env_id t)) ctx) (\<lambda>_.
     let env = t_env_id t in
     bindE (ensure_task_graph_node env (t_id t) d) (\<lambda>(d1, task_node).
     bindE (ensure_memory_graph_node env (m_id m) d1) (\<lambda>(d2, memory_node).
     bindE (insert_relation_idempotent now env task_node memory_node (tm_relation req) d2) (\<lambda>(d3, r, created).
     bindE (if created then enqueue_relation st now r task_node memory_node OP_upsert d3 else Inr d3) (\<lambda>d4.
       Inr (d4, \<lparr>tn_relation_id = r_id r, tn_task_id = t_id t, tn_memory_id = m_id m,
                 tn_relation = tm_relation req, tn_created_at = r_created_at r\<rparr>))))))))))))"

subsection \<open>Reads\<close>

type_synonym task_key = "int \<times> time \<times> uuid"

definition task_order :: "task \<Rightarrow> task_key" where
  "task_order t = (t_priority t, t_created_at t, t_id t)"

text \<open>
  \<open>_encode_cursor\<close> and \<open>_decode_cursor\<close>, on the document a cursor encodes. \<open>int(...)\<close> of a
  number text is not represented.
\<close>

definition encode_task_cursor :: "task \<Rightarrow> json option" where
  "encode_task_cursor t = Some (JObj [(''created_at'', JTime (t_created_at t)), (''id'', JUuid (t_id t)),
     (''priority'', JInt (t_priority t))])"

definition int_of_json :: "json \<Rightarrow> int option" where
  "int_of_json v = (case v of JInt i \<Rightarrow> Some i | JBool b \<Rightarrow> Some (if b then 1 else 0)
     | JReal r \<Rightarrow> Some (if 0 \<le> r then \<lfloor>r\<rfloor> else \<lceil>r\<rceil>) | _ \<Rightarrow> None)"

definition decode_task_cursor :: "json option \<Rightarrow> task_key res" where
  "decode_task_cursor c =
     (case c of
        Some (JObj p) \<Rightarrow>
          (case (int_of_json (jget p ''priority''), jget p ''created_at'', jget p ''id'') of
             (Some i, JTime t, JUuid u) \<Rightarrow> Inr (i, t, u)
           | _ \<Rightarrow> Inl InvalidCursorError)
      | _ \<Rightarrow> Inl InvalidCursorError)"

definition after_key :: "task_key \<Rightarrow> task \<Rightarrow> bool" where
  "after_key k t \<longleftrightarrow> (case k of (p, c, i) \<Rightarrow>
     p < t_priority t \<or> (t_priority t = p \<and> c < t_created_at t) \<or>
     (t_priority t = p \<and> t_created_at t = c \<and> i < t_id t))"

definition task_list_filter :: "task_list_request \<Rightarrow> task \<Rightarrow> bool" where
  "task_list_filter req t \<longleftrightarrow> t_env_id t = tl_env_id req \<and>
     (case tl_status req of None \<Rightarrow> True | Some s \<Rightarrow> t_status t = s) \<and>
     (case tl_priority_max req of None \<Rightarrow> True | Some p \<Rightarrow> t_priority t \<le> p)"

definition task_list :: "agent_context \<Rightarrow> task_list_request \<Rightarrow> db \<Rightarrow> task_list_response res" where
  "task_list ctx req d =
     bindE (assert_env_visible (tl_env_id req) ctx) (\<lambda>_.
     bindE (rbac_require ''read'' (Some (tl_env_id req)) ctx) (\<lambda>_.
     bindE (case tl_cursor req of None \<Rightarrow> Inr (\<lambda>t. True)
            | Some c \<Rightarrow> bindE (decode_task_cursor c) (\<lambda>k. Inr (after_key k))) (\<lambda>after.
     let rows = take (tl_limit req + 1)
                  (sort_key task_order (filter (\<lambda>t. task_list_filter req t \<and> after t) (task_rows d)));
         has_more = length rows > tl_limit req;
         page = take (tl_limit req) rows in
       Inr \<lparr>tl_hits = map task_to_response page,
            tl_next_cursor = if has_more \<and> page \<noteq> [] then Some (encode_task_cursor (last page)) else None\<rparr>)))"

definition terminal_dep_status :: "task_status \<Rightarrow> bool" where
  "terminal_dep_status s \<longleftrightarrow> s = TS_done \<or> s = TS_cancelled"

text \<open>The \<open>exists\<close> sub-select of \<open>task_next\<close>: an open dependency of the task at a node.\<close>

definition has_open_dep :: "db \<Rightarrow> graph_node \<Rightarrow> bool" where
  "has_open_dep d src = list_ex (\<lambda>r. r_src_node_id r = gn_id src \<and> r_type r = ''depends_on'' \<and>
     list_ex (\<lambda>n. gn_id n = r_dst_node_id r \<and>
       list_ex (\<lambda>t. gn_task_id n = Some (t_id t) \<and> \<not> terminal_dep_status (t_status t)) (task_rows d))
     (graph_nodes d)) (relation_rows d)"

definition ready_rows :: "uuid \<Rightarrow> db \<Rightarrow> task list" where
  "ready_rows env d = [t. t \<leftarrow> task_rows d, n \<leftarrow> graph_nodes d, gn_task_id n = Some (t_id t) \<and>
     t_env_id t = env \<and> t_status t = TS_pending \<and> \<not> has_open_dep d n]"

definition task_next :: "agent_context \<Rightarrow> uuid \<Rightarrow> db \<Rightarrow> task_response option res" where
  "task_next ctx env d =
     bindE (assert_env_visible env ctx) (\<lambda>_.
     bindE (rbac_require ''read'' (Some env) ctx) (\<lambda>_.
       Inr (case sort_key task_order (ready_rows env d) of [] \<Rightarrow> None | t # _ \<Rightarrow> Some (task_to_response t))))"

text \<open>The subtree view.\<close>

definition task_tree_children :: "db \<Rightarrow> uuid \<Rightarrow> uuid \<Rightarrow> task list" where
  "task_tree_children d env i =
     sort_key task_order [t. t \<leftarrow> task_rows d, dn \<leftarrow> graph_nodes d, r \<leftarrow> relation_rows d, sn \<leftarrow> graph_nodes d,
       gn_task_id dn = Some (t_id t) \<and> gn_id dn = r_dst_node_id r \<and> gn_id sn = r_src_node_id r \<and>
       t_env_id t = env \<and> gn_env_id sn = env \<and> gn_env_id dn = env \<and> r_env_id r = env \<and>
       gn_type sn = NT_task \<and> gn_type dn = NT_task \<and> gn_task_id sn = Some i \<and> r_type r = ''depends_on'']"

definition task_tree_line :: "task \<Rightarrow> nat \<Rightarrow> task_tree_line" where
  "task_tree_line t depth = \<lparr>tt_depth = depth, tt_task_id = t_id t, tt_status = task_status_value (t_status t),
     tt_desc = t_title t, tt_version = t_version t\<rparr>"

record tree_state =
  ts_lines :: "task_tree_line list"
  ts_visited :: "uuid set"
  ts_truncated :: bool

text \<open>The loop over the children of a task, \<open>visit\<close> being the recursive call on one of them.\<close>

fun visit_children ::
  "nat \<Rightarrow> (task \<Rightarrow> tree_state \<Rightarrow> tree_state \<times> bool) \<Rightarrow> task list \<Rightarrow> tree_state \<Rightarrow> tree_state \<times> bool" where
  "visit_children max_nodes visit [] s = (s, True)"
| "visit_children max_nodes visit (c # cs) s =
     (if length (ts_lines s) \<ge> max_nodes then (s\<lparr>ts_truncated := True\<rparr>, False)
      else case visit c s of
        (s', False) \<Rightarrow> (s', False)
      | (s', True) \<Rightarrow> visit_children max_nodes visit cs s')"

text \<open>\<open>visit task depth\<close>, by recursion on \<open>max_depth - depth\<close>.\<close>

fun visit_task :: "(uuid \<Rightarrow> task list) \<Rightarrow> nat \<Rightarrow> nat \<Rightarrow> nat \<Rightarrow> task \<Rightarrow> tree_state \<Rightarrow> tree_state \<times> bool" where
  "visit_task children max_nodes left depth t s =
     (if t_id t \<in> ts_visited s then (s, True)
      else if length (ts_lines s) \<ge> max_nodes then (s\<lparr>ts_truncated := True\<rparr>, False)
      else
        let s1 = s\<lparr>ts_visited := insert (t_id t) (ts_visited s), ts_lines := ts_lines s @ [task_tree_line t depth]\<rparr>;
            unvisited = filter (\<lambda>c. t_id c \<notin> ts_visited s1) (children (t_id t)) in
        case left of
          0 \<Rightarrow> if unvisited \<noteq> [] then (s1\<lparr>ts_truncated := True\<rparr>, False) else (s1, True)
        | Suc left' \<Rightarrow> visit_children max_nodes (visit_task children max_nodes left' (depth + 1)) unvisited s1)"

definition task_tree :: "agent_context \<Rightarrow> uuid \<Rightarrow> int \<Rightarrow> int \<Rightarrow> db \<Rightarrow> task_tree_response res" where
  "task_tree ctx i max_depth max_nodes d =
     bindE (raise_if (max_depth < 0) (InvalidInputError ''max_depth'')) (\<lambda>_.
     bindE (raise_if (max_nodes < 1) (InvalidInputError ''max_nodes'')) (\<lambda>_.
     bindE (load_task i d) (\<lambda>root.
     bindE (require_env_attached (t_env_id root) ctx) (\<lambda>_.
     bindE (rbac_require ''read'' (Some (t_env_id root)) ctx) (\<lambda>_.
     let s = fst (visit_task (task_tree_children d (t_env_id root)) (nat max_nodes) (nat max_depth) 0 root
                   \<lparr>ts_lines = [], ts_visited = {}, ts_truncated = False\<rparr>) in
       Inr \<lparr>tt_root_id = t_id root, tt_lines = ts_lines s, tt_truncated = ts_truncated s,
            tt_total_visited = length (ts_lines s)\<rparr>)))))"

end
