(* ===== verification/TaskGraph.thy ===== *)
theory TaskGraph
  imports Tasks
begin

text \<open>
  The dependency graph under the task operations: each operation keeps the graph tables well
  formed and the dependencies of every environment acyclic, \<open>task_next\<close> returns an unblocked
  task, and status changes of a task follow its lifecycle table under optimistic locking
  (interpretation \<open>task_lock\<close> of \<open>optimistic_lock\<close>).
\<close>

subsection \<open>Steps of the graph tables\<close>

text \<open>
  \<open>graph_grows d d'\<close>: the tables stay well formed and no node is lost; \<open>same_deps\<close> adds that
  the dependencies are the same.
\<close>

definition graph_grows :: "db \<Rightarrow> db \<Rightarrow> bool" where
  "graph_grows d d' \<longleftrightarrow> graph_ok d' \<and> set (graph_nodes d) \<subseteq> set (graph_nodes d')"

definition same_deps :: "db \<Rightarrow> db \<Rightarrow> bool" where
  "same_deps d d' \<longleftrightarrow> graph_grows d d' \<and> dep_edges d' = dep_edges d"

lemma same_deps_refl: "graph_ok d \<Longrightarrow> same_deps d d"
  by (simp add: same_deps_def graph_grows_def)

lemma same_deps_trans: "same_deps d d' \<Longrightarrow> same_deps d' d'' \<Longrightarrow> same_deps d d''"
  by (auto simp: same_deps_def graph_grows_def)

lemma same_deps_ok: "same_deps d d' \<Longrightarrow> graph_ok d'"
  by (simp add: same_deps_def graph_grows_def)

lemma same_deps_then: "same_deps d d1 \<Longrightarrow> (graph_ok d1 \<Longrightarrow> same_deps d1 d2) \<Longrightarrow> same_deps d d2"
  using same_deps_trans same_deps_ok by blast

lemma same_deps_acyclic: "same_deps d d' \<Longrightarrow> dep_acyclic d' = dep_acyclic d"
  by (simp add: same_deps_def dep_acyclic_def)

lemma same_deps_frame:
  assumes "graph_ok d" "graph_nodes d' = graph_nodes d" "relation_rows d' = relation_rows d"
  shows "same_deps d d'"
  using assms graph_frame [OF assms(2,3)] by (simp add: same_deps_def graph_grows_def)

lemma draw_same: "graph_ok d \<Longrightarrow> same_deps d (draw_uuid d)"
  by (rule same_deps_frame) (simp_all add: draw_uuid_def)

lemma enqueue_task_same:
  "graph_ok d \<Longrightarrow> enqueue_task st now t op d = Inr d' \<Longrightarrow> same_deps d d'"
  by (rule same_deps_frame) (auto simp: enqueue_task_def res_simps enqueue_frame)

lemma enqueue_relation_same:
  "graph_ok d \<Longrightarrow> enqueue_relation st now r s t op d = Inr d' \<Longrightarrow> same_deps d d'"
  by (rule same_deps_frame) (auto simp: enqueue_relation_def res_simps enqueue_frame)

lemma insert_task_same: "graph_ok d \<Longrightarrow> insert_task t d = Inr d' \<Longrightarrow> same_deps d d'"
  by (rule same_deps_frame) (auto simp: insert_task_def split: option.splits)

lemma insert_node_same:
  assumes "graph_ok d" and "insert_graph_node n (draw_uuid d) = Inr d'"
  shows "same_deps d d'" "n \<in> set (graph_nodes d')"
proof -
  have ok: "graph_ok (draw_uuid d)" using draw_same [OF assms(1)] by (rule same_deps_ok)
  have "set (graph_nodes (draw_uuid d)) \<subseteq> set (graph_nodes d')" "n \<in> set (graph_nodes d')"
    using insert_node_cases(1) [OF assms(2)] by auto
  then show "same_deps d d'" "n \<in> set (graph_nodes d')"
    using insert_node_ok [OF ok assms(2)] same_deps_trans [OF draw_same [OF assms(1)]]
    by (auto simp: same_deps_def graph_grows_def)
qed

lemma ensure_task_node_same:
  assumes ok: "graph_ok d" and e: "ensure_task_graph_node env i d = Inr (d', n)"
  shows "same_deps d d'" "n \<in> set (graph_nodes d')" "gn_env_id n = env" "gn_task_id n = Some i"
proof -
  have "same_deps d d' \<and> n \<in> set (graph_nodes d') \<and> gn_env_id n = env \<and> gn_task_id n = Some i"
  proof (cases "find (\<lambda>n. gn_env_id n = env \<and> gn_task_id n = Some i) (graph_nodes d)")
    case None
    then show ?thesis
      using e insert_node_same [OF ok] by (auto simp: ensure_task_graph_node_def Let_def res_simps)
  next
    case (Some n0)
    then show ?thesis
      using e find_SomeD [OF Some] same_deps_refl [OF ok] by (simp add: ensure_task_graph_node_def)
  qed
  then show "same_deps d d'" "n \<in> set (graph_nodes d')" "gn_env_id n = env" "gn_task_id n = Some i" by auto
qed

lemma ensure_memory_node_same:
  assumes ok: "graph_ok d" and e: "ensure_memory_graph_node env i d = Inr (d', n)"
  shows "same_deps d d'" "n \<in> set (graph_nodes d')"
proof -
  have "same_deps d d' \<and> n \<in> set (graph_nodes d')"
  proof (cases "find (\<lambda>n. gn_env_id n = env \<and> gn_memory_id n = Some i) (graph_nodes d)")
    case None
    then show ?thesis
      using e insert_node_same [OF ok] by (auto simp: ensure_memory_graph_node_def Let_def res_simps)
  next
    case (Some n0)
    then show ?thesis
      using e find_SomeD [OF Some] same_deps_refl [OF ok] by (simp add: ensure_memory_graph_node_def)
  qed
  then show "same_deps d d'" "n \<in> set (graph_nodes d')" by auto
qed

text \<open>A relation row that is inserted or found between two nodes.\<close>

lemma new_relation_fields [simp]:
  "r_src_node_id (new_relation i env s t ty ps now) = gn_id s" "r_dst_node_id (new_relation i env s t ty ps now) = gn_id t"
  "r_type (new_relation i env s t ty ps now) = ty" "r_env_id (new_relation i env s t ty ps now) = env"
  by (simp_all add: new_relation_def)

lemma draw_frame [simp]:
  "graph_nodes (draw_uuid d) = graph_nodes d" "relation_rows (draw_uuid d) = relation_rows d"
  "find_relation (draw_uuid d) = find_relation d" "task_rows (draw_uuid d) = task_rows d"
  "memories (draw_uuid d) = memories d" "environments (draw_uuid d) = environments d"
  "outbox (draw_uuid d) = outbox d" "outbox_delivery (draw_uuid d) = outbox_delivery d"
  "event_seq (draw_uuid d) = event_seq d"
  by (simp_all add: draw_uuid_def find_relation_def fun_eq_iff)

lemma relation_found_or_new:
  assumes "insert_relation now env s t k d = Inr (d', r, b) \<or> insert_relation_idempotent now env s t k d = Inr (d', r, b)"
  shows "(d' = d \<or> d' = draw_uuid d) \<or>
    insert_relation_row (new_relation (next_uuid d) env s t (task_relation_value k) [] now) (draw_uuid d) = Inr d'"
  using assms by (auto simp: insert_relation_def insert_relation_idempotent_def Let_def res_simps split: option.splits)

lemma dep_edges_draw [simp]: "dep_edges (draw_uuid d) = dep_edges d"
  by (rule graph_frame) simp_all

lemma relation_insert_graph:
  assumes ok: "graph_ok d" and nodes: "s \<in> set (graph_nodes d)" "t \<in> set (graph_nodes d)"
    and ins: "insert_relation now env s t k d = Inr (d', r, b) \<or> insert_relation_idempotent now env s t k d = Inr (d', r, b)"
  shows "graph_grows d d'"
    and "dep_acyclic d \<Longrightarrow> (\<And>a c. k = RK_depends_on \<Longrightarrow> gn_task_id s = Some a \<Longrightarrow> gn_task_id t = Some c
      \<Longrightarrow> \<not> would_cycle d env a c) \<Longrightarrow> dep_acyclic d'"
    and "dep_edges d' e \<subseteq> dep_edges d e \<union> {(a, c). env = e \<and> k = RK_depends_on \<and> gn_task_id s = Some a \<and> gn_task_id t = Some c}"
    and "dep_edges d e \<subseteq> dep_edges d' e"
proof -
  let ?r = "new_relation (next_uuid d) env s t (task_relation_value k) [] now"
  have dep: "task_relation_value k = ''depends_on'' \<longleftrightarrow> k = RK_depends_on" by (cases k) auto
  have wc: "would_cycle (draw_uuid d) env a c = would_cycle d env a c" for a c by (simp add: would_cycle_iff)
  have okd: "graph_ok (draw_uuid d)" by (rule same_deps_ok [OF draw_same [OF ok]])
  from relation_found_or_new [OF ins]
  have "graph_grows d d' \<and> (dep_acyclic d \<longrightarrow> (\<forall>a c. k = RK_depends_on \<longrightarrow> gn_task_id s = Some a \<longrightarrow> gn_task_id t = Some c
      \<longrightarrow> \<not> would_cycle d env a c) \<longrightarrow> dep_acyclic d') \<and>
    dep_edges d' e \<subseteq> dep_edges d e \<union> {(a, c). env = e \<and> k = RK_depends_on \<and> gn_task_id s = Some a \<and> gn_task_id t = Some c} \<and>
    dep_edges d e \<subseteq> dep_edges d' e"
  proof
    assume "d' = d \<or> d' = draw_uuid d"
    then have "same_deps d d'" using draw_same [OF ok] same_deps_refl [OF ok] by blast
    then show ?thesis using same_deps_acyclic by (auto simp: same_deps_def)
  next
    assume r: "insert_relation_row ?r (draw_uuid d) = Inr d'"
    have "graph_grows d d'"
      using insert_relation_ok [OF okd r] insert_relation_cases(1) [OF r] by (simp add: graph_grows_def)
    moreover have "dep_acyclic d'" if "dep_acyclic d"
        "\<forall>a c. k = RK_depends_on \<longrightarrow> gn_task_id s = Some a \<longrightarrow> gn_task_id t = Some c \<longrightarrow> \<not> would_cycle d env a c"
    proof (rule guarded_insert_acyclic [OF okd _ r])
      show "dep_acyclic (draw_uuid d)" using that(1) by (simp add: dep_acyclic_def)
    qed (use nodes that dep wc in auto)
    moreover have "dep_edges d' e = dep_edges (draw_uuid d) e \<union>
        {(a, c). r_env_id ?r = e \<and> r_type ?r = ''depends_on'' \<and> gn_task_id s = Some a \<and> gn_task_id t = Some c}"
      by (rule insert_relation_edges [OF okd r]) (use nodes in simp_all)
    ultimately show ?thesis using dep by auto
  qed
  then show "graph_grows d d'"
    and "dep_acyclic d \<Longrightarrow> (\<And>a c. k = RK_depends_on \<Longrightarrow> gn_task_id s = Some a \<Longrightarrow> gn_task_id t = Some c
      \<Longrightarrow> \<not> would_cycle d env a c) \<Longrightarrow> dep_acyclic d'"
    and "dep_edges d' e \<subseteq> dep_edges d e \<union> {(a, c). env = e \<and> k = RK_depends_on \<and> gn_task_id s = Some a \<and> gn_task_id t = Some c}"
    and "dep_edges d e \<subseteq> dep_edges d' e"
    by blast+
qed

text \<open>The graph invariant of the whole database.\<close>

definition deps_ok :: "db \<Rightarrow> bool" where
  "deps_ok d \<longleftrightarrow> graph_ok d \<and> dep_acyclic d"

lemma same_deps_deps_ok: "same_deps d d' \<Longrightarrow> deps_ok d \<Longrightarrow> deps_ok d'"
  by (simp add: deps_ok_def same_deps_ok same_deps_acyclic)

lemma task_create_deps:
  assumes "deps_ok d" and "task_create st now ctx req d = Inr (d', resp)"
  shows "same_deps d d'"
proof -
  have ok: "graph_ok d" using assms(1) by (simp add: deps_ok_def)
  obtain t d1 d2 n where steps: "insert_task t (draw_uuid d) = Inr d1"
      "ensure_task_graph_node (t_env_id t) (t_id t) d1 = Inr (d2, n)" "enqueue_task st now t OP_upsert d2 = Inr d'"
    using assms(2) unfolding task_create_def Let_def by (auto elim!: bindE_elims)
  have "same_deps d d1" by (rule same_deps_then [OF draw_same [OF ok] insert_task_same [OF _ steps(1)]])
  then have "same_deps d d2" by (rule same_deps_then [OF _ ensure_task_node_same(1) [OF _ steps(2)]])
  then show ?thesis by (rule same_deps_then [OF _ enqueue_task_same [OF _ steps(3)]])
qed

lemma load_taskD: "load_task i d = Inr t \<Longrightarrow> lookup t_id i (task_rows d) = Some t \<and> t_id t = i"
  by (auto simp: load_task_def res_simps dest: lookup_SomeD)

lemma task_dep_link_steps:
  assumes "task_dep_link st now ctx req d = Inr (d', resp)"
  obtains env sn dn d1 d2 d3 r b where
    "ensure_task_graph_node env (tq_src_task_id req) d = Inr (d1, sn)"
    "ensure_task_graph_node env (tq_dst_task_id req) d1 = Inr (d2, dn)"
    "\<not> would_cycle d2 env (tq_src_task_id req) (tq_dst_task_id req)"
    "insert_relation now env sn dn RK_depends_on d2 = Inr (d3, r, b)"
    "(if b then enqueue_relation st now r sn dn OP_upsert d3 else Inr d3) = Inr d'"
    "\<exists>s. lookup t_id (tq_src_task_id req) (task_rows d) = Some s \<and> t_env_id s = env"
    "\<exists>s. lookup t_id (tq_dst_task_id req) (task_rows d) = Some s \<and> t_env_id s = env"
  using assms unfolding task_dep_link_def Let_def
  by (auto elim!: bindE_elims simp: raise_if_eq_Inr dest!: load_taskD)

text \<open>A dependency link adds its own edge and keeps the graph acyclic.\<close>

lemma graph_grows_same: "graph_grows d d1 \<Longrightarrow> same_deps d1 d2 \<Longrightarrow> graph_grows d d2"
  by (auto simp: graph_grows_def same_deps_def)

lemma enqueue_created_same:
  assumes "graph_ok d" and "(if b then enqueue_relation st now r s t op d else Inr d) = Inr d'"
  shows "same_deps d d'"
  using assms enqueue_relation_same same_deps_refl by (cases b) auto

lemma task_dep_link_deps:
  assumes ok: "deps_ok d" and link: "task_dep_link st now ctx req d = Inr (d', resp)"
  shows "deps_ok d'"
    and "\<exists>t. lookup t_id (tq_src_task_id req) (task_rows d) = Some t \<and>
      (\<forall>e. dep_edges d' e \<subseteq> dep_edges d e \<union> (if e = t_env_id t then {(tq_src_task_id req, tq_dst_task_id req)} else {}) \<and>
        dep_edges d e \<subseteq> dep_edges d' e)"
proof -
  have g: "graph_ok d" using ok by (simp add: deps_ok_def)
  obtain env sn dn d1 d2 d3 r b where
    st: "ensure_task_graph_node env (tq_src_task_id req) d = Inr (d1, sn)"
      "ensure_task_graph_node env (tq_dst_task_id req) d1 = Inr (d2, dn)"
      "\<not> would_cycle d2 env (tq_src_task_id req) (tq_dst_task_id req)"
      "insert_relation now env sn dn RK_depends_on d2 = Inr (d3, r, b)"
      "(if b then enqueue_relation st now r sn dn OP_upsert d3 else Inr d3) = Inr d'"
    and src: "\<exists>s. lookup t_id (tq_src_task_id req) (task_rows d) = Some s \<and> t_env_id s = env"
    by (rule task_dep_link_steps [OF link])
  note n1 = ensure_task_node_same [OF g st(1)]
  note n2 = ensure_task_node_same [OF same_deps_ok [OF n1(1)] st(2)]
  have sd: "same_deps d d2" using same_deps_trans [OF n1(1) n2(1)] .
  have sn: "sn \<in> set (graph_nodes d2)" using n1(2) n2(1) by (auto simp: same_deps_def graph_grows_def)
  note ins = relation_insert_graph [OF same_deps_ok [OF sd] sn n2(2) disjI1 [OF st(4)]]
  have ac: "dep_acyclic d3"
    by (rule ins(2)) (use ok sd st(3) n1(4) n2(4) in \<open>auto simp: deps_ok_def same_deps_acyclic\<close>)
  have g3: "graph_ok d3" using ins(1) by (simp add: graph_grows_def)
  have last: "same_deps d3 d'" by (rule enqueue_created_same [OF g3 st(5)])
  show "deps_ok d'" using last ac g3 same_deps_deps_ok by (simp add: deps_ok_def)
  have "dep_edges d' e \<subseteq> dep_edges d e \<union> (if e = env then {(tq_src_task_id req, tq_dst_task_id req)} else {}) \<and>
        dep_edges d e \<subseteq> dep_edges d' e" for e
    using ins(3,4) [of e] last sd n1(4) n2(4) by (auto simp: same_deps_def split: if_splits)
  then show "\<exists>t. lookup t_id (tq_src_task_id req) (task_rows d) = Some t \<and>
      (\<forall>e. dep_edges d' e \<subseteq> dep_edges d e \<union> (if e = t_env_id t then {(tq_src_task_id req, tq_dst_task_id req)} else {}) \<and>
        dep_edges d e \<subseteq> dep_edges d' e)"
    using src by blast
qed

lemma task_substep_steps:
  assumes "task_substep st now ctx p title descr prio d = Inr (d', resp)"
  obtains env sub pn sn d1 d2 d3 d4 d5 r b where
    "insert_task sub (draw_uuid d) = Inr d1"
    "ensure_task_graph_node env p d1 = Inr (d2, pn)"
    "ensure_task_graph_node env (t_id sub) d2 = Inr (d3, sn)"
    "\<not> would_cycle d3 env p (t_id sub)"
    "insert_relation now env pn sn RK_depends_on d3 = Inr (d4, r, b)"
    "enqueue_task st now sub OP_upsert d4 = Inr d5" "enqueue_relation st now r pn sn OP_upsert d5 = Inr d'"
    "\<exists>s. lookup t_id p (task_rows d) = Some s \<and> t_env_id s = env" "t_env_id sub = env"
  using assms unfolding task_substep_def Let_def
  by (auto elim!: bindE_elims simp: raise_if_eq_Inr new_task_def dest!: load_taskD)

lemma task_substep_deps:
  assumes ok: "deps_ok d" and sub: "task_substep st now ctx p title descr prio d = Inr (d', resp)"
  shows "deps_ok d'"
proof -
  have g: "graph_ok d" using ok by (simp add: deps_ok_def)
  obtain env sub pn sn d1 d2 d3 d4 d5 r b where
    st: "insert_task sub (draw_uuid d) = Inr d1"
      "ensure_task_graph_node env p d1 = Inr (d2, pn)"
      "ensure_task_graph_node env (t_id sub) d2 = Inr (d3, sn)"
      "\<not> would_cycle d3 env p (t_id sub)"
      "insert_relation now env pn sn RK_depends_on d3 = Inr (d4, r, b)"
      "enqueue_task st now sub OP_upsert d4 = Inr d5" "enqueue_relation st now r pn sn OP_upsert d5 = Inr d'"
    by (rule task_substep_steps [OF sub])
  have s1: "same_deps d d1" by (rule same_deps_then [OF draw_same [OF g] insert_task_same [OF _ st(1)]])
  note n1 = ensure_task_node_same [OF same_deps_ok [OF s1] st(2)]
  note n2 = ensure_task_node_same [OF same_deps_ok [OF n1(1)] st(3)]
  have sd: "same_deps d d3" using same_deps_trans [OF s1 same_deps_trans [OF n1(1) n2(1)]] .
  have pn: "pn \<in> set (graph_nodes d3)" using n1(2) n2(1) by (auto simp: same_deps_def graph_grows_def)
  note ins = relation_insert_graph [OF same_deps_ok [OF sd] pn n2(2) disjI1 [OF st(5)]]
  have ac: "dep_acyclic d4"
    by (rule ins(2)) (use ok sd st(4) n1(4) n2(4) in \<open>auto simp: deps_ok_def same_deps_acyclic\<close>)
  have g4: "graph_ok d4" using ins(1) by (simp add: graph_grows_def)
  have "same_deps d4 d5" by (rule enqueue_task_same [OF g4 st(6)])
  then have "same_deps d4 d'" by (rule same_deps_then [OF _ enqueue_relation_same [OF _ st(7)]])
  then show ?thesis using ac g4 same_deps_deps_ok by (simp add: deps_ok_def)
qed

lemma task_link_memory_steps:
  assumes "task_link_memory st now ctx req d = Inr (d', resp)"
  obtains env mid tn mn d1 d2 d3 r b where
    "tm_relation req \<noteq> RK_depends_on"
    "ensure_task_graph_node env (tm_task_id req) d = Inr (d1, tn)"
    "ensure_memory_graph_node env mid d1 = Inr (d2, mn)"
    "insert_relation_idempotent now env tn mn (tm_relation req) d2 = Inr (d3, r, b)"
    "(if b then enqueue_relation st now r tn mn OP_upsert d3 else Inr d3) = Inr d'"
    "\<exists>s. lookup t_id (tm_task_id req) (task_rows d) = Some s \<and> t_env_id s = env"
  using assms unfolding task_link_memory_def Let_def
  by (auto elim!: bindE_elims simp: raise_if_eq_Inr some_or_eq_Inr dest!: load_taskD)

lemma task_link_memory_deps:
  assumes ok: "deps_ok d" and link: "task_link_memory st now ctx req d = Inr (d', resp)"
  shows "deps_ok d'" "dep_edges d' e = dep_edges d e"
proof -
  have g: "graph_ok d" using ok by (simp add: deps_ok_def)
  obtain env mid tn mn d1 d2 d3 r b where st: "tm_relation req \<noteq> RK_depends_on"
      "ensure_task_graph_node env (tm_task_id req) d = Inr (d1, tn)"
      "ensure_memory_graph_node env mid d1 = Inr (d2, mn)"
      "insert_relation_idempotent now env tn mn (tm_relation req) d2 = Inr (d3, r, b)"
      "(if b then enqueue_relation st now r tn mn OP_upsert d3 else Inr d3) = Inr d'"
    by (rule task_link_memory_steps [OF link])
  note n1 = ensure_task_node_same [OF g st(2)]
  note n2 = ensure_memory_node_same [OF same_deps_ok [OF n1(1)] st(3)]
  have sd: "same_deps d d2" using same_deps_trans [OF n1(1) n2(1)] .
  have tn: "tn \<in> set (graph_nodes d2)" using n1(2) n2(1) by (auto simp: same_deps_def graph_grows_def)
  note ins = relation_insert_graph [OF same_deps_ok [OF sd] tn n2(2) disjI2 [OF st(4)]]
  have g3: "graph_ok d3" using ins(1) by (simp add: graph_grows_def)
  have "dep_edges d3 e = dep_edges d2 e" for e using ins(3,4) [of e] st(1) by auto
  then have "same_deps d2 d3" using ins(1) by (simp add: same_deps_def fun_eq_iff)
  then have all: "same_deps d d'"
    using same_deps_trans [OF sd] same_deps_trans [OF _ enqueue_created_same [OF g3 st(5)]] by blast
  then show "deps_ok d'" "dep_edges d' e = dep_edges d e"
    using ok same_deps_deps_ok by (auto simp: same_deps_def)
qed

definition set_status :: "task_status \<Rightarrow> int \<Rightarrow> time \<Rightarrow> task \<Rightarrow> task" where
  "set_status status v now t = t\<lparr>t_status := status, t_version := v, t_updated_at := now\<rparr>"

lemma task_status_commit_cases:
  assumes "task_status_commit st now status i v d = Inr (d', resp)"
  obtains t where "lookup t_id i (task_rows d) = Some t" "t_version t = v"
    "enqueue_task st now (set_status status (v + 1) now t) OP_update
       (d\<lparr>task_rows := update_where (\<lambda>t. t_id t = i) (set_status status (v + 1) now) (task_rows d)\<rparr>) = Inr d'"
    "resp = task_to_response (set_status status (v + 1) now t)"
  using assms unfolding task_status_commit_def Let_def set_status_def
  by (auto elim!: bindE_InrE split: option.splits if_splits)

lemma enqueue_task_frame:
  assumes "enqueue_task st now t op d = Inr d'"
  shows "task_rows d' = task_rows d" "graph_nodes d' = graph_nodes d" "relation_rows d' = relation_rows d"
    "memories d' = memories d" "environments d' = environments d"
  using assms unfolding enqueue_task_def by (auto elim!: bindE_elims simp: enqueue_frame)

lemma task_status_commit_rows:
  assumes "task_status_commit st now status i v d = Inr (d', resp)"
  shows "task_rows d' = update_where (\<lambda>t. t_id t = i) (set_status status (v + 1) now) (task_rows d)"
    "graph_nodes d' = graph_nodes d" "relation_rows d' = relation_rows d"
  using assms by (auto elim!: task_status_commit_cases simp: enqueue_task_frame)

lemma task_status_set_commit:
  assumes "task_status_set st now ctx i status v d0 d = Inr r"
  shows "task_status_check ctx i status v d0 = Inr ()" "task_status_commit st now status i v d = Inr r"
  using assms unfolding task_status_set_def by (auto elim!: bindE_InrE)

lemma task_status_set_deps:
  assumes "deps_ok d" and "task_status_set st now ctx i status v d0 d = Inr (d', resp)"
  shows "deps_ok d'"
  using assms(1) graph_frame [OF task_status_commit_rows(2,3) [OF task_status_set_commit(2) [OF assms(2)]]]
  by (simp add: deps_ok_def)

subsection \<open>Optimistic locking of the status\<close>

definition task_version :: "db \<Rightarrow> uuid \<Rightarrow> int option" where
  "task_version d i = map_option t_version (lookup t_id i (task_rows d))"

lemma task_version_set_status:
  assumes "task_status_commit st now status i v d = Inr (d', resp)"
  shows "task_version d i = Some v"
    and "task_version d' j = (if j = i then Some (v + 1) else task_version d j)"
proof -
  obtain t where t: "lookup t_id i (task_rows d) = Some t" "t_version t = v"
    using assms by (rule task_status_commit_cases)
  then show "task_version d i = Some v" by (simp add: task_version_def)
  show "task_version d' j = (if j = i then Some (v + 1) else task_version d j)"
    using t unfolding task_version_def task_status_commit_rows(1) [OF assms]
    by (cases "lookup t_id j (task_rows d)") (auto simp: lookup_update_where set_status_def dest: lookup_SomeD)
qed

text \<open>A caller of \<open>task_status_set\<close>: settings, clock, context, target status, what its select saw.\<close>

definition status_writer ::
  "settings \<times> time \<times> agent_context \<times> task_status \<times> db \<Rightarrow> uuid \<Rightarrow> int \<Rightarrow> db \<Rightarrow> (db \<times> task_response) res" where
  "status_writer w i v d = (case w of (st, now, ctx, status, d0) \<Rightarrow> task_status_set st now ctx i status v d0 d)"

interpretation task_lock: optimistic_lock task_version status_writer
proof (unfold_locales, unfold status_writer_def)
  fix w :: "settings \<times> time \<times> agent_context \<times> task_status \<times> db" and i v d d' b
  assume a: "(case w of (st, now, ctx, status, d0) \<Rightarrow> task_status_set st now ctx i status v d0 d) = Inr (d', b)"
  obtain st now ctx status d0 where w: "w = (st, now, ctx, status, d0)" by (cases w)
  have c: "task_status_commit st now status i v d = Inr (d', b)" using a w task_status_set_commit(2) by simp
  show "task_version d i = Some v" by (rule task_version_set_status(1) [OF c])
  show "task_version d' i = Some (v + 1)" using task_version_set_status(2) [OF c] by simp
  show "task_version d' j = task_version d j" if "j \<noteq> i" for j using task_version_set_status(2) [OF c] that by simp
qed

subsection \<open>Histories of a task's status\<close>

text \<open>
  The committed states one after the other: each status change checked the transition in some
  earlier state (the one its select saw) and commits in the last one; other transactions leave
  the tasks alone.
\<close>

inductive task_history :: "db list \<Rightarrow> bool" where
  start: "task_history [d]"
| change: "task_history h \<Longrightarrow> d0 \<in> set h \<Longrightarrow>
    task_status_set st now ctx i status v d0 (last h) = Inr (d', resp) \<Longrightarrow> task_history (h @ [d'])"
| other: "task_history h \<Longrightarrow> task_rows d' = task_rows (last h) \<Longrightarrow> task_history (h @ [d'])"

definition status_of :: "uuid \<Rightarrow> db \<Rightarrow> task_status option" where
  "status_of i d = map_option t_status (lookup t_id i (task_rows d))"

definition status_move :: "task_status option \<Rightarrow> task_status option \<Rightarrow> bool" where
  "status_move a b \<longleftrightarrow> rel_option is_valid_task_transition a b"

text \<open>The version of the task in \<open>d\<close> is not newer than in \<open>e\<close>, and the same version has one status.\<close>

definition ver_below :: "uuid \<Rightarrow> db \<Rightarrow> db \<Rightarrow> bool" where
  "ver_below i d e \<longleftrightarrow> rel_option (\<le>) (task_version d i) (task_version e i) \<and>
     (task_version d i = task_version e i \<longrightarrow> status_of i d = status_of i e)"

definition history_ok :: "uuid \<Rightarrow> db list \<Rightarrow> bool" where
  "history_ok i h \<longleftrightarrow> h \<noteq> [] \<and> successively (\<lambda>d d'. status_move (status_of i d) (status_of i d')) h \<and>
     (\<forall>d \<in> set h. ver_below i d (last h))"

lemma ver_below_refl: "ver_below i d d"
  by (simp add: ver_below_def option.rel_refl)

lemma ver_below_same:
  "task_version e' i = task_version e i \<Longrightarrow> status_of i e' = status_of i e \<Longrightarrow> ver_below i d e' = ver_below i d e"
  by (simp add: ver_below_def)

lemma ver_below_newer:
  assumes "ver_below i d e" and "task_version e i = Some v" and "task_version e' i = Some (v + 1)"
  shows "ver_below i d e'"
  using assms by (cases "task_version d i") (simp_all add: ver_below_def)

lemma status_move_refl: "status_move a a"
  by (simp add: status_move_def is_valid_task_transition_def option.rel_refl)

lemma status_of_commit:
  assumes "task_status_commit st now status i v d = Inr (d', resp)"
  shows "status_of j d' = (if j = i then Some status else status_of j d)"
proof -
  obtain t where t: "lookup t_id i (task_rows d) = Some t"
    using assms by (rule task_status_commit_cases)
  then show ?thesis unfolding status_of_def task_status_commit_rows(1) [OF assms]
    by (cases "lookup t_id j (task_rows d)") (auto simp: lookup_update_where set_status_def dest: lookup_SomeD)
qed

lemma status_check_valid:
  "task_status_check ctx i status v d0 = Inr () \<Longrightarrow>
   \<exists>s. status_of i d0 = Some s \<and> is_valid_task_transition s status \<and> task_version d0 i = Some v"
  by (auto simp: task_status_check_def status_of_def task_version_def raise_if_eq_Inr elim!: bindE_InrE dest!: load_taskD)

lemma history_snoc:
  assumes "history_ok i h" and "\<And>d. ver_below i d (last h) \<Longrightarrow> ver_below i d d'"
    and "status_move (status_of i (last h)) (status_of i d')"
  shows "history_ok i (h @ [d'])"
  using assms ver_below_refl by (simp add: history_ok_def successively_append_iff)

lemma task_history_ok: "task_history h \<Longrightarrow> history_ok i h"
proof (induction rule: task_history.induct)
  case (start d)
  then show ?case by (simp add: history_ok_def ver_below_refl)
next
  case (change h d0 st now ctx j status v d' resp)
  note c = task_status_set_commit [OF change.hyps(3)]
  note ver = task_version_set_status [OF c(2)] and stat = status_of_commit [OF c(2)]
  obtain s where s: "status_of j d0 = Some s" "is_valid_task_transition s status" "task_version d0 j = Some v"
    using status_check_valid [OF c(1)] by blast
  show ?case
  proof (cases "i = j")
    case True
    have "ver_below i d0 (last h)" using change.IH change.hyps(2) by (simp add: history_ok_def)
    then have "status_of i (last h) = Some s" using s ver(1) True by (simp add: ver_below_def)
    then have "status_move (status_of i (last h)) (status_of i d')"
      using stat [of i] True s(2) by (simp add: status_move_def)
    moreover have "ver_below i d d'" if "ver_below i d (last h)" for d
      by (rule ver_below_newer [OF that]) (use ver True in simp_all)
    ultimately show ?thesis by (intro history_snoc [OF change.IH])
  next
    case False
    then have "task_version d' i = task_version (last h) i" "status_of i d' = status_of i (last h)"
      using ver(2) stat by simp_all
    note eq = ver_below_same [OF this]
    have "status_move (status_of i (last h)) (status_of i d')"
      using False stat by (simp add: status_move_refl)
    then show ?thesis by (intro history_snoc [OF change.IH]) (simp_all only: eq)
  qed
next
  case (other h d')
  have same: "task_version d' i = task_version (last h) i" "status_of i d' = status_of i (last h)"
    using other.hyps(2) by (simp_all add: task_version_def status_of_def)
  note eq = ver_below_same [OF this]
  have "status_move (status_of i (last h)) (status_of i d')"
    unfolding same(2) by (rule status_move_refl)
  then show ?case by (intro history_snoc [OF other.IH]) (simp_all only: eq)
qed

lemma status_moves_frozen:
  assumes "successively (\<lambda>d d'. status_move (status_of i d) (status_of i d')) (d # h)"
    and "status_of i d = Some s" and "task_transitions s = {}"
  shows "\<forall>d' \<in> set h. status_of i d' = Some s"
  using assms(1,2)
proof (induction h arbitrary: d)
  case Nil
  then show ?case by simp
next
  case (Cons e h)
  have mv: "status_move (status_of i d) (status_of i e)"
    and rest: "successively (\<lambda>d d'. status_move (status_of i d) (status_of i d')) (e # h)"
    using Cons.prems(1) by simp_all
  have e: "status_of i e = Some s"
    using mv assms(3) unfolding Cons.prems(2)
    by (cases "status_of i e") (simp_all add: status_move_def is_valid_task_transition_def)
  have "\<forall>d' \<in> set h. status_of i d' = Some s" using rest e by (rule Cons.IH)
  with e show ?case by simp
qed

lemma status_frozen_later:
  assumes "successively (\<lambda>d d'. status_move (status_of i d) (status_of i d')) h"
    and "k \<le> j" "j < length h" and "status_of i (h ! k) = Some s" and "task_transitions s = {}"
  shows "status_of i (h ! j) = Some s"
proof -
  have split: "drop k h = h ! k # drop (Suc k) h" using assms(2,3) by (simp add: Cons_nth_drop_Suc)
  have "successively (\<lambda>d d'. status_move (status_of i d) (status_of i d')) (take k h @ drop k h)"
    using assms(1) by simp
  then have "successively (\<lambda>d d'. status_move (status_of i d) (status_of i d')) (h ! k # drop (Suc k) h)"
    unfolding split by (simp only: successively_append_iff)
  then have later: "\<forall>d' \<in> set (drop (Suc k) h). status_of i d' = Some s"
    using assms(4,5) by (rule status_moves_frozen)
  show ?thesis
  proof (cases "j = k")
    case True
    then show ?thesis using assms(4) by simp
  next
    case False
    then have "drop (Suc k) h ! (j - Suc k) = h ! j" "j - Suc k < length (drop (Suc k) h)"
      using assms(2,3) by auto
    then have "h ! j \<in> set (drop (Suc k) h)" by (metis nth_mem)
    with later show ?thesis by blast
  qed
qed

end
