(* ===== verification/TaskReads.thy ===== *)
theory TaskReads
  imports TaskGraph
begin

text \<open>
  The task rows and their nodes (\<open>nodes_ok\<close>: every task node is the one node of its task, in
  the task's environment), and the reads: \<open>task_next\<close> returns the first unblocked task,
  \<open>task_list\<close> is a \<open>keyset_pager\<close>, \<open>task_tree\<close> lists the subtree.
\<close>

subsection \<open>Tasks and their nodes\<close>

definition has_task :: "db \<Rightarrow> uuid \<Rightarrow> uuid \<Rightarrow> bool" where
  "has_task d i env \<longleftrightarrow> (\<exists>t \<in> set (task_rows d). t_id t = i \<and> t_env_id t = env)"

text \<open>The node is a task's only in the environment of that task.\<close>

definition homed :: "db \<Rightarrow> graph_node \<Rightarrow> bool" where
  "homed d n \<longleftrightarrow> (\<forall>i. gn_task_id n = Some i \<longrightarrow> has_task d i (gn_env_id n))"

definition twins :: "graph_node \<Rightarrow> graph_node \<Rightarrow> bool" where
  "twins n n' \<longleftrightarrow> gn_task_id n \<noteq> None \<and> gn_task_id n = gn_task_id n' \<and> gn_env_id n = gn_env_id n'"

definition nodes_ok :: "db \<Rightarrow> bool" where
  "nodes_ok d \<longleftrightarrow> distinct (map t_id (task_rows d)) \<and> (\<forall>n \<in> set (graph_nodes d). homed d n) \<and>
     (\<forall>n \<in> set (graph_nodes d). \<forall>n' \<in> set (graph_nodes d). twins n n' \<longrightarrow> n = n')"

lemma nodes_ok_empty: "nodes_ok (empty_db source)"
  by (simp add: nodes_ok_def empty_db_def)

lemma homed_mono: "homed d n \<Longrightarrow> (\<And>i env. has_task d i env \<Longrightarrow> has_task d' i env) \<Longrightarrow> homed d' n"
  by (simp add: homed_def)

lemma has_task_cong: "task_rows d' = task_rows d \<Longrightarrow> has_task d' = has_task d"
  by (simp add: has_task_def fun_eq_iff)

lemma homed_cong: "task_rows d' = task_rows d \<Longrightarrow> homed d' = homed d"
  by (simp add: homed_def has_task_def fun_eq_iff)

lemma nodes_ok_frame:
  "task_rows d' = task_rows d \<Longrightarrow> graph_nodes d' = graph_nodes d \<Longrightarrow> nodes_ok d' = nodes_ok d"
  by (simp add: nodes_ok_def homed_def has_task_def)

lemma nodes_ok_insert_task:
  assumes ok: "nodes_ok d" and "insert_task t d = Inr d'"
  shows "nodes_ok d'" and "set (task_rows d') = insert t (set (task_rows d))" "graph_nodes d' = graph_nodes d"
proof -
  have d': "d' = d\<lparr>task_rows := task_rows d @ [t]\<rparr>" and v: "task_violation d t = None"
    using assms(2) by (auto simp: insert_task_def split: option.splits)
  have "\<not> list_ex (\<lambda>o'. t_id o' = t_id t) (task_rows d)"
  proof
    assume "list_ex (\<lambda>o'. t_id o' = t_id t) (task_rows d)"
    then have "task_violation d t = Some ''tasks_pkey''" by (simp add: task_violation_def)
    with v show False by simp
  qed
  then have new: "t_id t \<notin> t_id ` set (task_rows d)" by (auto simp: list_ex_iff)
  have "has_task d i env \<Longrightarrow> has_task d' i env" for i env by (auto simp: d' has_task_def)
  then have "\<forall>n \<in> set (graph_nodes d). homed d' n" using ok homed_mono unfolding nodes_ok_def by blast
  then show "nodes_ok d'" using ok new by (simp add: nodes_ok_def d')
  show "set (task_rows d') = insert t (set (task_rows d))" "graph_nodes d' = graph_nodes d" using d' by simp_all
qed

lemma nodes_ok_add_node:
  assumes ok: "nodes_ok d" and d': "task_rows d' = task_rows d" "graph_nodes d' = graph_nodes d @ [m]"
    and m: "homed d m" "\<And>x. x \<in> set (graph_nodes d) \<Longrightarrow> \<not> twins x m \<and> \<not> twins m x"
  shows "nodes_ok d'"
proof -
  have "x = y" if "x \<in> insert m (set (graph_nodes d))" "y \<in> insert m (set (graph_nodes d))" "twins x y" for x y
    using that ok m(2) unfolding nodes_ok_def by blast
  then show ?thesis using ok m(1) by (simp add: nodes_ok_def d' homed_cong [OF d'(1)])
qed

lemma nodes_ok_ensure_task:
  assumes ok: "nodes_ok d" and g: "graph_ok d" and t: "has_task d i env"
    and e: "ensure_task_graph_node env i d = Inr (d', n)"
  shows "nodes_ok d'" "task_rows d' = task_rows d"
proof -
  have "nodes_ok d' \<and> task_rows d' = task_rows d"
  proof (cases "find (\<lambda>n. gn_env_id n = env \<and> gn_task_id n = Some i) (graph_nodes d)")
    case (Some n0)
    then show ?thesis using e ok by (simp add: ensure_task_graph_node_def)
  next
    case None
    define m where "m = \<lparr>gn_id = next_uuid d, gn_env_id = env, gn_type = NT_task, gn_memory_id = None,
       gn_entity_id = None, gn_task_id = Some i\<rparr>"
    have d': "d' = (draw_uuid d)\<lparr>graph_nodes := graph_nodes d @ [m]\<rparr>"
      using e None insert_node_cases(1) by (fastforce simp: ensure_task_graph_node_def Let_def m_def elim!: bindE_InrE)
    have none: "\<not> (gn_env_id x = env \<and> gn_task_id x = Some i)" if "x \<in> set (graph_nodes d)" for x
      using None that by (auto simp: find_None_iff)
    have "nodes_ok d'"
      by (rule nodes_ok_add_node [OF ok]) (use t none in \<open>auto simp: d' m_def homed_def twins_def\<close>)
    then show ?thesis by (simp add: d')
  qed
  then show "nodes_ok d'" "task_rows d' = task_rows d" by auto
qed

lemma nodes_ok_ensure_memory:
  assumes ok: "nodes_ok d" and e: "ensure_memory_graph_node env i d = Inr (d', n)"
  shows "nodes_ok d'" "task_rows d' = task_rows d"
proof -
  have "nodes_ok d' \<and> task_rows d' = task_rows d"
  proof (cases "find (\<lambda>n. gn_env_id n = env \<and> gn_memory_id n = Some i) (graph_nodes d)")
    case (Some n0)
    then show ?thesis using e ok by (simp add: ensure_memory_graph_node_def)
  next
    case None
    define m where "m = \<lparr>gn_id = next_uuid d, gn_env_id = env, gn_type = NT_memory, gn_memory_id = Some i,
       gn_entity_id = None, gn_task_id = None\<rparr>"
    have d': "d' = (draw_uuid d)\<lparr>graph_nodes := graph_nodes d @ [m]\<rparr>"
      using e None insert_node_cases(1) by (fastforce simp: ensure_memory_graph_node_def Let_def m_def elim!: bindE_InrE)
    have "nodes_ok d'"
      by (rule nodes_ok_add_node [OF ok]) (auto simp: d' m_def homed_def twins_def)
    then show ?thesis by (simp add: d')
  qed
  then show "nodes_ok d'" "task_rows d' = task_rows d" by auto
qed

lemma relation_op_frame:
  assumes "insert_relation now env s t k d = Inr (d', r, b) \<or> insert_relation_idempotent now env s t k d = Inr (d', r, b)"
  shows "task_rows d' = task_rows d" "graph_nodes d' = graph_nodes d"
  using relation_found_or_new [OF assms] insert_relation_cases(1) by fastforce+

lemma enqueue_relation_frame:
  assumes "enqueue_relation st now r s t op d = Inr d'"
  shows "task_rows d' = task_rows d" "graph_nodes d' = graph_nodes d"
  using assms unfolding enqueue_relation_def by (auto elim!: bindE_elims simp: enqueue_frame)

lemma lookup_task_row:
  "\<exists>s. lookup t_id i (task_rows d) = Some s \<and> t_env_id s = env \<Longrightarrow> has_task d i env"
  by (auto simp: has_task_def dest: lookup_SomeD)

text \<open>The invariant of the task graph, and that every operation keeps it.\<close>

definition task_inv :: "db \<Rightarrow> bool" where
  "task_inv d \<longleftrightarrow> deps_ok d \<and> nodes_ok d"

lemma task_inv_graph: "task_inv d \<Longrightarrow> graph_ok d" and task_inv_nodes: "task_inv d \<Longrightarrow> nodes_ok d"
  by (simp_all add: task_inv_def deps_ok_def)

lemma task_create_inv:
  assumes inv: "task_inv d" and op: "task_create st now ctx req d = Inr (d', resp)"
  shows "task_inv d'"
proof -
  obtain t d1 d2 n where steps: "insert_task t (draw_uuid d) = Inr d1"
      "ensure_task_graph_node (t_env_id t) (t_id t) d1 = Inr (d2, n)" "enqueue_task st now t OP_upsert d2 = Inr d'"
    using op unfolding task_create_def Let_def by (auto elim!: bindE_elims)
  have "nodes_ok (draw_uuid d)" using inv nodes_ok_frame [of "draw_uuid d" d] by (simp add: task_inv_def)
  note i = nodes_ok_insert_task [OF this steps(1)]
  have "graph_ok d1"
    using same_deps_ok [OF insert_task_same [OF same_deps_ok [OF draw_same [OF task_inv_graph [OF inv]]] steps(1)]] .
  then have "nodes_ok d2" by (rule nodes_ok_ensure_task [OF i(1) _ _ steps(2)]) (use i(2) in \<open>simp add: has_task_def\<close>)
  then have "nodes_ok d'" using enqueue_task_frame [OF steps(3)] nodes_ok_frame by metis
  then show ?thesis
    using inv same_deps_deps_ok [OF task_create_deps [OF _ op]] by (simp add: task_inv_def)
qed

lemma task_dep_link_inv:
  assumes inv: "task_inv d" and op: "task_dep_link st now ctx req d = Inr (d', resp)"
  shows "task_inv d'"
proof -
  obtain env sn dn d1 d2 d3 r b where
    st: "ensure_task_graph_node env (tq_src_task_id req) d = Inr (d1, sn)"
      "ensure_task_graph_node env (tq_dst_task_id req) d1 = Inr (d2, dn)"
      "insert_relation now env sn dn RK_depends_on d2 = Inr (d3, r, b)"
      "(if b then enqueue_relation st now r sn dn OP_upsert d3 else Inr d3) = Inr d'"
    and src: "\<exists>s. lookup t_id (tq_src_task_id req) (task_rows d) = Some s \<and> t_env_id s = env"
      "\<exists>s. lookup t_id (tq_dst_task_id req) (task_rows d) = Some s \<and> t_env_id s = env"
    by (rule task_dep_link_steps [OF op])
  note g = task_inv_graph [OF inv]
  note n1 = nodes_ok_ensure_task [OF task_inv_nodes [OF inv] g lookup_task_row [OF src(1)] st(1)]
  have "has_task d1 (tq_dst_task_id req) env"
    using lookup_task_row [OF src(2)] has_task_cong [OF n1(2)] by simp
  note n2 = nodes_ok_ensure_task [OF n1(1) same_deps_ok [OF ensure_task_node_same(1) [OF g st(1)]] this st(2)]
  have "task_rows d' = task_rows d2 \<and> graph_nodes d' = graph_nodes d2"
    using st(4) relation_op_frame [OF disjI1 [OF st(3)]] enqueue_relation_frame by (cases b) fastforce+
  then have "nodes_ok d'" using n2(1) nodes_ok_frame by metis
  then show ?thesis using inv task_dep_link_deps(1) [OF _ op] by (simp add: task_inv_def)
qed

lemma task_substep_inv:
  assumes inv: "task_inv d" and op: "task_substep st now ctx p title descr prio d = Inr (d', resp)"
  shows "task_inv d'"
proof -
  obtain env sub pn sn d1 d2 d3 d4 d5 r b where
    st: "insert_task sub (draw_uuid d) = Inr d1"
      "ensure_task_graph_node env p d1 = Inr (d2, pn)"
      "ensure_task_graph_node env (t_id sub) d2 = Inr (d3, sn)"
      "insert_relation now env pn sn RK_depends_on d3 = Inr (d4, r, b)"
      "enqueue_task st now sub OP_upsert d4 = Inr d5" "enqueue_relation st now r pn sn OP_upsert d5 = Inr d'"
    and par: "\<exists>s. lookup t_id p (task_rows d) = Some s \<and> t_env_id s = env" "t_env_id sub = env"
    by (rule task_substep_steps [OF op])
  have "nodes_ok (draw_uuid d)" using inv nodes_ok_frame [of "draw_uuid d" d] by (simp add: task_inv_def)
  note i = nodes_ok_insert_task [OF this st(1)]
  have g1: "graph_ok d1"
    using same_deps_ok [OF insert_task_same [OF same_deps_ok [OF draw_same [OF task_inv_graph [OF inv]]] st(1)]] .
  have "has_task d1 p env" using lookup_task_row [OF par(1)] i(2) by (auto simp: has_task_def)
  note n2 = nodes_ok_ensure_task [OF i(1) g1 this st(2)]
  have "has_task d2 (t_id sub) env" using par(2) i(2) n2(2) by (simp add: has_task_def)
  note n3 = nodes_ok_ensure_task [OF n2(1) same_deps_ok [OF ensure_task_node_same(1) [OF g1 st(2)]] this st(3)]
  have "task_rows d' = task_rows d3 \<and> graph_nodes d' = graph_nodes d3"
    using relation_op_frame [OF disjI1 [OF st(4)]] enqueue_task_frame [OF st(5)] enqueue_relation_frame [OF st(6)] by simp
  then have "nodes_ok d'" using n3(1) nodes_ok_frame by metis
  then show ?thesis using inv task_substep_deps [OF _ op] by (simp add: task_inv_def)
qed

lemma task_link_memory_inv:
  assumes inv: "task_inv d" and op: "task_link_memory st now ctx req d = Inr (d', resp)"
  shows "task_inv d'"
proof -
  obtain env mid tn mn d1 d2 d3 r b where st:
      "ensure_task_graph_node env (tm_task_id req) d = Inr (d1, tn)"
      "ensure_memory_graph_node env mid d1 = Inr (d2, mn)"
      "insert_relation_idempotent now env tn mn (tm_relation req) d2 = Inr (d3, r, b)"
      "(if b then enqueue_relation st now r tn mn OP_upsert d3 else Inr d3) = Inr d'"
    and t: "\<exists>s. lookup t_id (tm_task_id req) (task_rows d) = Some s \<and> t_env_id s = env"
    by (rule task_link_memory_steps [OF op])
  note n1 = nodes_ok_ensure_task [OF task_inv_nodes [OF inv] task_inv_graph [OF inv] lookup_task_row [OF t] st(1)]
  note n2 = nodes_ok_ensure_memory [OF n1(1) st(2)]
  have "task_rows d' = task_rows d2 \<and> graph_nodes d' = graph_nodes d2"
    using st(4) relation_op_frame [OF disjI2 [OF st(3)]] enqueue_relation_frame by (cases b) fastforce+
  then have "nodes_ok d'" using n2(1) nodes_ok_frame by metis
  then show ?thesis using inv task_link_memory_deps(1) [OF _ op] by (simp add: task_inv_def)
qed

lemma task_status_set_inv:
  assumes inv: "task_inv d" and op: "task_status_set st now ctx i status v d0 d = Inr (d', resp)"
  shows "task_inv d'"
proof -
  note rows = task_status_commit_rows [OF task_status_set_commit(2) [OF op]]
  have ids: "map t_id (task_rows d') = map t_id (task_rows d)"
    unfolding rows(1) by (simp add: set_status_def)
  have "has_task d' j env" if t: "has_task d j env" for j env
  proof -
    obtain t where "t \<in> set (task_rows d)" "t_id t = j" "t_env_id t = env" using t by (auto simp: has_task_def)
    then have "(if t_id t = i then set_status status (v + 1) now t else t) \<in> set (task_rows d')"
      "t_id (if t_id t = i then set_status status (v + 1) now t else t) = j"
      "t_env_id (if t_id t = i then set_status status (v + 1) now t else t) = env"
      unfolding rows(1) by (simp_all add: set_update_where set_status_def)
    then show ?thesis unfolding has_task_def by blast
  qed
  then have "\<forall>n \<in> set (graph_nodes d). homed d' n"
    using task_inv_nodes [OF inv] homed_mono unfolding nodes_ok_def by blast
  then have "nodes_ok d'" using task_inv_nodes [OF inv] ids rows(2) by (simp add: nodes_ok_def)
  then show ?thesis using inv task_status_set_deps [OF _ op] by (simp add: task_inv_def)
qed

subsection \<open>The next task\<close>

text \<open>What the documentation calls the next unblocked pending task, over the dependency graph.\<close>

definition unblocked :: "db \<Rightarrow> uuid \<Rightarrow> task \<Rightarrow> bool" where
  "unblocked d env t \<longleftrightarrow> t \<in> set (task_rows d) \<and> t_env_id t = env \<and> t_status t = TS_pending \<and>
     (\<exists>n \<in> set (graph_nodes d). gn_task_id n = Some (t_id t)) \<and>
     (\<forall>u \<in> set (task_rows d). (t_id t, t_id u) \<in> dep_edges d env \<longrightarrow> terminal_dep_status (t_status u))"

lemma set_ready_rows:
  "set (ready_rows env d) = {t \<in> set (task_rows d). t_env_id t = env \<and> t_status t = TS_pending \<and>
     (\<exists>n \<in> set (graph_nodes d). gn_task_id n = Some (t_id t) \<and> \<not> has_open_dep d n)}"
  by (auto simp: ready_rows_def split: if_splits)

text \<open>A node of a task at the start of a relation is the node of that task in the relation's environment.\<close>

lemma node_of_link:
  assumes g: "graph_ok d" and r: "r \<in> set (relation_rows d)" and s: "s \<in> set (graph_nodes d)"
    and i: "gn_id s = r_src_node_id r \<or> gn_id s = r_dst_node_id r"
  shows "gn_env_id s = r_env_id r"
proof -
  have "has_node d (gn_id s) (r_env_id r)" using g r i unfolding graph_ok_def by metis
  then obtain n where "n \<in> set (graph_nodes d)" "gn_id n = gn_id s" "gn_env_id n = r_env_id r"
    by (auto simp: has_node_def)
  moreover from this have "n = s" using g s by (auto simp: graph_ok_def distinct_map inj_on_def)
  ultimately show ?thesis by simp
qed

lemma has_open_dep_iff:
  assumes inv: "task_inv d" and n: "n \<in> set (graph_nodes d)" "gn_task_id n = Some i" "gn_env_id n = env"
  shows "has_open_dep d n \<longleftrightarrow> (\<exists>u \<in> set (task_rows d). (i, t_id u) \<in> dep_edges d env \<and> \<not> terminal_dep_status (t_status u))"
proof
  have g: "graph_ok d" using inv by (rule task_inv_graph)
  have ty: "gn_type x = NT_task" if "x \<in> set (graph_nodes d)" "gn_task_id x = Some j" for x j
    using g that by (auto simp: graph_ok_def node_shape_def)
  assume "has_open_dep d n"
  then obtain r m u where r: "r \<in> set (relation_rows d)" "r_src_node_id r = gn_id n" "r_type r = ''depends_on''"
    and m: "m \<in> set (graph_nodes d)" "gn_id m = r_dst_node_id r"
    and u: "u \<in> set (task_rows d)" "gn_task_id m = Some (t_id u)" "\<not> terminal_dep_status (t_status u)"
    by (auto simp: has_open_dep_def list_ex_iff)
  have "r_env_id r = env" using node_of_link [OF g r(1) n(1)] r(2) n(3) by simp
  then have "dep_link env i (t_id u) r n m" using r m u n ty by (simp add: dep_link_def)
  then show "\<exists>u \<in> set (task_rows d). (i, t_id u) \<in> dep_edges d env \<and> \<not> terminal_dep_status (t_status u)"
    using r(1) n(1) m(1) u unfolding dep_edges_iff by blast
next
  assume "\<exists>u \<in> set (task_rows d). (i, t_id u) \<in> dep_edges d env \<and> \<not> terminal_dep_status (t_status u)"
  then obtain u r s m where u: "u \<in> set (task_rows d)" "\<not> terminal_dep_status (t_status u)"
    and r: "r \<in> set (relation_rows d)" and s: "s \<in> set (graph_nodes d)" and m: "m \<in> set (graph_nodes d)"
    and l: "dep_link env i (t_id u) r s m"
    unfolding dep_edges_iff by blast
  have "gn_env_id s = env" using node_of_link [OF task_inv_graph [OF inv] r s] l by (simp add: dep_link_def)
  then have "twins n s" using n l by (simp add: twins_def dep_link_def)
  then have "s = n" using task_inv_nodes [OF inv] n(1) s unfolding nodes_ok_def by blast
  then show "has_open_dep d n"
    using u r m l by (auto simp: has_open_dep_def list_ex_iff dep_link_def)
qed

lemma ready_iff_unblocked:
  assumes inv: "task_inv d"
  shows "t \<in> set (ready_rows env d) \<longleftrightarrow> unblocked d env t"
proof (cases "t \<in> set (task_rows d) \<and> t_env_id t = env")
  case True
  have env: "gn_env_id n = env" if "n \<in> set (graph_nodes d)" "gn_task_id n = Some (t_id t)" for n
  proof -
    have "has_task d (t_id t) (gn_env_id n)" using task_inv_nodes [OF inv] that by (simp add: nodes_ok_def homed_def)
    then obtain t' where "t' \<in> set (task_rows d)" "t_id t' = t_id t" "t_env_id t' = gn_env_id n"
      by (auto simp: has_task_def)
    moreover from this have "t' = t"
      using task_inv_nodes [OF inv] True by (auto simp: nodes_ok_def distinct_map inj_on_def)
    ultimately show ?thesis using True by simp
  qed
  show ?thesis
    unfolding set_ready_rows unblocked_def
    using True env has_open_dep_iff [OF inv] by blast
qed (auto simp: set_ready_rows unblocked_def)

lemma sort_key_Cons:
  assumes "sort_key f xs = y # ys"
  shows "y \<in> set xs \<and> (\<forall>x \<in> set xs. f y \<le> f x)"
proof -
  have "set xs = insert y (set ys)" using assms by (metis list.simps(15) set_sort)
  moreover have "sorted (map f (y # ys))" using assms sorted_sort_key by metis
  ultimately show ?thesis by auto
qed

lemma task_next_first:
  assumes inv: "task_inv d" and "task_next ctx env d = Inr x"
  shows "case x of None \<Rightarrow> \<not> (\<exists>t. unblocked d env t)
    | Some r \<Rightarrow> (\<exists>t. r = task_to_response t \<and> unblocked d env t \<and>
        (\<forall>t'. unblocked d env t' \<longrightarrow> task_order t \<le> task_order t'))"
proof (cases "sort_key task_order (ready_rows env d)")
  case Nil
  then have "ready_rows env d = []" by (metis length_0_conv length_sort)
  then have "\<not> unblocked d env t" for t using ready_iff_unblocked [OF inv, of t env] by simp
  then show ?thesis using assms(2) Nil by (auto simp: task_next_def res_simps)
next
  case (Cons t ts)
  have "unblocked d env t \<and> (\<forall>t'. unblocked d env t' \<longrightarrow> task_order t \<le> task_order t')"
    using sort_key_Cons [OF Cons] ready_iff_unblocked [OF inv] by blast
  then show ?thesis using assms(2) Cons by (auto simp: task_next_def res_simps)
qed

subsection \<open>Paging through \<open>task_list\<close>\<close>

definition response_order :: "task_response \<Rightarrow> task_key" where
  "response_order r = (tr_priority r, tr_created_at r, tr_id r)"

definition response_cursor :: "task_response \<Rightarrow> json option" where
  "response_cursor r = Some (JObj [(''created_at'', JTime (tr_created_at r)), (''id'', JUuid (tr_id r)),
     (''priority'', JInt (tr_priority r))])"

definition cursor_before :: "json option \<Rightarrow> task_response \<Rightarrow> bool" where
  "cursor_before c r = (case decode_task_cursor c of Inl _ \<Rightarrow> False | Inr k \<Rightarrow> k < response_order r)"

text \<open>A listing to be paged: the caller's context, the request without its cursor, the database.\<close>

type_synonym listing = "agent_context \<times> task_list_request \<times> db"

definition listing_valid :: "listing \<Rightarrow> bool" where
  "listing_valid s = (case s of (ctx, req, d) \<Rightarrow> assert_env_visible (tl_env_id req) ctx = Inr () \<and>
     0 < tl_limit req \<and> distinct (map t_id (task_rows d)))"

definition listing_rows :: "listing \<Rightarrow> task_response list" where
  "listing_rows s = (case s of (ctx, req, d) \<Rightarrow>
     map task_to_response (sort_key task_order (filter (task_list_filter req) (task_rows d))))"

definition listing_limit :: "listing \<Rightarrow> nat" where
  "listing_limit s = (case s of (ctx, req, d) \<Rightarrow> tl_limit req)"

definition listing_fetch :: "listing \<Rightarrow> json option option \<Rightarrow> task_response list \<times> json option option" where
  "listing_fetch s c = (case s of (ctx, req, d) \<Rightarrow>
     (case task_list ctx (req\<lparr>tl_cursor := c\<rparr>) d of
        Inl _ \<Rightarrow> ([], None) | Inr resp \<Rightarrow> (tl_hits resp, tl_next_cursor resp)))"

lemma after_key_less: "after_key k t \<longleftrightarrow> k < task_order t"
  by (cases k) (auto simp: after_key_def task_order_def less_prod_def')

lemma decode_encode_task [simp]:
  "decode_task_cursor (encode_task_cursor t) = Inr (task_order t)"
  "decode_task_cursor (response_cursor r) = Inr (response_order r)"
  by (simp_all add: decode_task_cursor_def encode_task_cursor_def response_cursor_def jget_def int_of_json_def
      task_order_def response_order_def)

lemma response_fields [simp]:
  "response_order (task_to_response t) = task_order t" "response_cursor (task_to_response t) = encode_task_cursor t"
  by (simp_all add: response_order_def task_order_def response_cursor_def encode_task_cursor_def task_to_response_def)

lemma take_Suc_page: "take n (take (Suc n) xs) = take n xs" "n < length (take (Suc n) xs) \<longleftrightarrow> n < length xs"
  by (auto simp: min_def)

lemma filter_sort_key: "filter P (sort_key f xs) = sort_key f (filter P xs)"
  by (induction xs) (auto simp: filter_insort filter_insort_triv)

lemma fetch_page:
  assumes v: "listing_valid (ctx, req, d)"
    and aft: "(case c of None \<Rightarrow> Inr (\<lambda>t. True) | Some c \<Rightarrow> bindE (decode_task_cursor c) (\<lambda>k. Inr (after_key k))) = Inr after"
  shows "listing_fetch (ctx, req, d) c =
    keyset_page (tl_limit req) response_cursor (map task_to_response (filter after
      (sort_key task_order (filter (task_list_filter req) (task_rows d)))))"
proof -
  have f: "task_list_filter (req\<lparr>tl_cursor := c\<rparr>) = task_list_filter req"
    by (simp add: fun_eq_iff task_list_filter_def)
  have "filter (\<lambda>t. task_list_filter req t \<and> after t) (task_rows d) = filter after (filter (task_list_filter req) (task_rows d))"
    by (simp add: conj_commute)
  then have rows: "sort_key task_order (filter (\<lambda>t. task_list_filter req t \<and> after t) (task_rows d)) =
      filter after (sort_key task_order (filter (task_list_filter req) (task_rows d)))"
    by (simp add: filter_sort_key)
  show ?thesis
    using v aft unfolding listing_fetch_def task_list_def listing_valid_def
    by (simp add: f rows Let_def take_Suc_page keyset_page_def take_map last_map del: length_sort)
qed

interpretation task_pages: keyset_pager listing_valid listing_rows listing_limit response_cursor cursor_before listing_fetch
proof
  fix s :: listing
  obtain ctx req d where s: "s = (ctx, req, d)" by (cases s)
  assume v: "listing_valid s"
  let ?ts = "sort_key task_order (filter (task_list_filter req) (task_rows d))"
  have ids: "distinct (map t_id ?ts)"
  proof -
    have "distinct (map t_id (filter (task_list_filter req) (task_rows d)))"
      using v s distinct_map_filter by (auto simp: listing_valid_def)
    then show ?thesis by (simp add: distinct_map)
  qed
  then have "distinct (map task_order ?ts)" by (auto simp: distinct_map inj_on_def task_order_def)
  then have "sorted_wrt (<) (map task_order ?ts)" by (simp add: strict_sorted_iff)
  then have "sorted_wrt (\<lambda>t t'. task_order t < task_order t') ?ts" by (simp add: sorted_wrt_map)
  then show "sorted_wrt (\<lambda>r r'. cursor_before (response_cursor r) r' \<and> \<not> cursor_before (response_cursor r') r) (listing_rows s)"
    by (auto simp: s listing_rows_def sorted_wrt_map cursor_before_def less_imp_not_less elim: sorted_wrt_mono_rel [rotated])
  show "0 < listing_limit s" using v s by (simp add: listing_valid_def listing_limit_def)
  show "listing_fetch s None = keyset_page (listing_limit s) response_cursor (listing_rows s)"
    using fetch_page [of ctx req d None "\<lambda>_. True"] v by (simp add: s listing_limit_def listing_rows_def)
  show "listing_fetch s (Some (response_cursor r)) =
      keyset_page (listing_limit s) response_cursor (filter (cursor_before (response_cursor r)) (listing_rows s))"
    if "r \<in> set (listing_rows s)" for r
    using fetch_page [of ctx req d "Some (response_cursor r)" "after_key (response_order r)"] v
    by (simp add: s listing_limit_def listing_rows_def filter_map o_def cursor_before_def after_key_less [abs_def])
qed (simp add: cursor_before_def)

end
