(* ===== verification/TaskTree.thy ===== *)
theory TaskTree
  imports TaskReads
begin

text \<open>
  The subtree view. \<open>tree_step\<close> is what a visit from some start tasks does to the traversal's
  state; it composes along the loop over the children and up the recursion, and gives: lines
  without repetition, within both caps, only of reachable tasks, and, when the visit was not
  cut short, of all of them.
\<close>

definition child_edges :: "(uuid \<Rightarrow> task list) \<Rightarrow> (uuid \<times> uuid) set" where
  "child_edges ch = {(a, b). b \<in> t_id ` set (ch a)}"

text \<open>The lines a visit appends: of the newly visited tasks, once each, at depths in the range.\<close>

definition appended :: "nat \<Rightarrow> nat \<Rightarrow> tree_state \<Rightarrow> tree_state \<Rightarrow> bool" where
  "appended lo hi s s' \<longleftrightarrow> ts_visited s \<subseteq> ts_visited s' \<and>
     (\<exists>new. ts_lines s' = ts_lines s @ new \<and> distinct (map tt_task_id new) \<and>
        tt_task_id ` set new = ts_visited s' - ts_visited s \<and>
        (\<forall>l \<in> set new. lo \<le> tt_depth l \<and> tt_depth l \<le> hi))"

definition closed_visit :: "(uuid \<Rightarrow> task list) \<Rightarrow> uuid set \<Rightarrow> tree_state \<Rightarrow> tree_state \<Rightarrow> bool" where
  "closed_visit ch A s s' \<longleftrightarrow> A \<subseteq> ts_visited s' \<and>
     (\<forall>x \<in> ts_visited s' - ts_visited s. t_id ` set (ch x) \<subseteq> ts_visited s')"

definition tree_step ::
  "(uuid \<Rightarrow> task list) \<Rightarrow> nat \<Rightarrow> nat \<Rightarrow> nat \<Rightarrow> uuid set \<Rightarrow> tree_state \<Rightarrow> tree_state \<times> bool \<Rightarrow> bool" where
  "tree_step ch mx lo hi A s r \<longleftrightarrow> (case r of (s', b) \<Rightarrow>
     appended lo hi s s' \<and> (length (ts_lines s) \<le> mx \<longrightarrow> length (ts_lines s') \<le> mx) \<and>
     ts_truncated s' = (ts_truncated s \<or> \<not> b) \<and>
     ts_visited s' \<subseteq> ts_visited s \<union> (child_edges ch)\<^sup>* `` A \<and> (b \<longrightarrow> closed_visit ch A s s'))"

lemma appended_refl: "ts_lines s' = ts_lines s \<Longrightarrow> ts_visited s' = ts_visited s \<Longrightarrow> appended lo hi s s'"
  by (simp add: appended_def)

lemma appended_trans:
  assumes "appended lo hi s s1" and "appended lo hi s1 s2"
  shows "appended lo hi s s2"
proof -
  obtain n1 where n1: "ts_lines s1 = ts_lines s @ n1" "distinct (map tt_task_id n1)"
      "tt_task_id ` set n1 = ts_visited s1 - ts_visited s" "\<forall>l \<in> set n1. lo \<le> tt_depth l \<and> tt_depth l \<le> hi"
    using assms(1) unfolding appended_def by blast
  obtain n2 where n2: "ts_lines s2 = ts_lines s1 @ n2" "distinct (map tt_task_id n2)"
      "tt_task_id ` set n2 = ts_visited s2 - ts_visited s1" "\<forall>l \<in> set n2. lo \<le> tt_depth l \<and> tt_depth l \<le> hi"
    using assms(2) unfolding appended_def by blast
  have sub: "ts_visited s \<subseteq> ts_visited s1" "ts_visited s1 \<subseteq> ts_visited s2"
    using assms by (simp_all add: appended_def)
  have "tt_task_id ` set n1 \<inter> tt_task_id ` set n2 = {}" using n1(3) n2(3) by auto
  then have "distinct (map tt_task_id (n1 @ n2))" using n1(2) n2(2) by simp
  moreover have "tt_task_id ` set (n1 @ n2) = ts_visited s2 - ts_visited s"
    using n1(3) n2(3) sub by (simp add: image_Un) blast
  moreover have "ts_lines s2 = ts_lines s @ n1 @ n2" using n1(1) n2(1) by simp
  moreover have "\<forall>l \<in> set (n1 @ n2). lo \<le> tt_depth l \<and> tt_depth l \<le> hi" using n1(4) n2(4) by auto
  ultimately show ?thesis using sub unfolding appended_def by blast
qed

lemma appended_mono: "appended lo hi s s' \<Longrightarrow> lo' \<le> lo \<Longrightarrow> hi \<le> hi' \<Longrightarrow> appended lo' hi' s s'"
  unfolding appended_def by (meson le_trans)

lemma appended_sub: "appended lo hi s s' \<Longrightarrow> ts_visited s \<subseteq> ts_visited s'"
  by (simp add: appended_def)

lemma closed_visit_trans:
  assumes "closed_visit ch A s s1" "closed_visit ch B s1 s2" "ts_visited s1 \<subseteq> ts_visited s2"
  shows "closed_visit ch (A \<union> B) s s2"
  using assms unfolding closed_visit_def by blast

lemma tree_stop: "tree_step ch mx lo hi A s (s\<lparr>ts_truncated := True\<rparr>, False)"
  by (simp add: tree_step_def appended_refl)

lemma tree_done: "A \<subseteq> ts_visited s \<Longrightarrow> tree_step ch mx lo hi A s (s, True)"
  by (simp add: tree_step_def appended_refl closed_visit_def)

lemma tree_step_seq:
  assumes "tree_step ch mx lo hi A s (s1, True)" and "tree_step ch mx lo hi B s1 (s2, b)"
  shows "tree_step ch mx lo hi (A \<union> B) s (s2, b)"
proof -
  have a: "appended lo hi s s1" "appended lo hi s1 s2" using assms by (simp_all add: tree_step_def)
  have "ts_visited s2 \<subseteq> ts_visited s \<union> (child_edges ch)\<^sup>* `` (A \<union> B)"
    using assms by (auto simp: tree_step_def)
  moreover have "closed_visit ch (A \<union> B) s s2" if b
    using closed_visit_trans [of ch A s s1 B s2] assms that appended_sub [OF a(2)] by (simp add: tree_step_def)
  ultimately show ?thesis using assms appended_trans [OF a] by (simp add: tree_step_def)
qed

lemma tree_step_grow:
  "tree_step ch mx lo hi A s (s', False) \<Longrightarrow> A \<subseteq> B \<Longrightarrow> tree_step ch mx lo hi B s (s', False)"
  using Image_mono [of "(child_edges ch)\<^sup>*" "(child_edges ch)\<^sup>*" A B] by (simp add: tree_step_def) blast

lemma visit_children_step:
  assumes "\<And>c s. c \<in> set cs \<Longrightarrow> length (ts_lines s) < mx \<Longrightarrow> tree_step ch mx lo hi {t_id c} s (visit c s)"
  shows "tree_step ch mx lo hi (t_id ` set cs) s (visit_children mx visit cs s)"
  using assms
proof (induction cs arbitrary: s)
  case Nil
  then show ?case by (simp add: tree_done)
next
  case (Cons c cs)
  show ?case
  proof (cases "length (ts_lines s) \<ge> mx")
    case True
    then show ?thesis by (simp add: tree_stop)
  next
    case False
    then have c: "tree_step ch mx lo hi {t_id c} s (visit c s)" using Cons.prems [of c s] by simp
    obtain s1 b where v: "visit c s = (s1, b)" by fastforce
    show ?thesis
    proof (cases b)
      case True
      have "tree_step ch mx lo hi (t_id ` set cs) s1 (visit_children mx visit cs s1)"
        by (rule Cons.IH) (use Cons.prems in simp)
      then have "tree_step ch mx lo hi ({t_id c} \<union> t_id ` set cs) s (visit_children mx visit cs s1)"
        using c v True tree_step_seq [of ch mx lo hi "{t_id c}" s s1 "t_id ` set cs"]
        by (cases "visit_children mx visit cs s1") simp
      then show ?thesis using \<open>\<not> length (ts_lines s) \<ge> mx\<close> v True by simp
    next
      case b: False
      then have "tree_step ch mx lo hi (t_id ` set (c # cs)) s (s1, False)"
        using c v tree_step_grow by fastforce
      then show ?thesis using \<open>\<not> length (ts_lines s) \<ge> mx\<close> v b by simp
    qed
  qed
qed

text \<open>A task and then the unvisited of its children.\<close>

lemma tree_step_node:
  fixes t :: task
  defines "add \<equiv> \<lambda>s depth. s\<lparr>ts_visited := insert (t_id t) (ts_visited s), ts_lines := ts_lines s @ [task_tree_line t depth]\<rparr>"
  assumes new: "t_id t \<notin> ts_visited s" and room: "length (ts_lines s) < mx"
    and kids: "tree_step ch mx (depth + 1) hi (t_id ` {c \<in> set (ch (t_id t)). t_id c \<notin> ts_visited (add s depth)}) (add s depth) (s', b)"
    and hi: "depth \<le> hi"
  shows "tree_step ch mx depth hi {t_id t} s (s', b)"
proof -
  let ?s1 = "add s depth"
  have a1: "appended depth hi s ?s1" using new hi by (auto simp: appended_def add_def task_tree_line_def)
  have a2: "appended depth hi ?s1 s'" using kids appended_mono by (fastforce simp: tree_step_def)
  have sub: "ts_visited ?s1 \<subseteq> ts_visited s'" using appended_sub [OF a2] .
  have "ts_visited s' \<subseteq> ts_visited ?s1 \<union> (child_edges ch)\<^sup>* `` (t_id ` {c \<in> set (ch (t_id t)). t_id c \<notin> ts_visited ?s1})"
    using kids by (simp add: tree_step_def)
  also have "\<dots> \<subseteq> ts_visited ?s1 \<union> (child_edges ch)\<^sup>* `` (t_id ` set (ch (t_id t)))"
    by (intro Un_mono Image_mono image_mono subset_refl) blast
  finally have "ts_visited s' \<subseteq> ts_visited ?s1 \<union> (child_edges ch)\<^sup>* `` (t_id ` set (ch (t_id t)))" .
  moreover have "(child_edges ch)\<^sup>* `` (t_id ` set (ch (t_id t))) \<subseteq> (child_edges ch)\<^sup>* `` {t_id t}"
    by (auto simp: child_edges_def intro: converse_rtrancl_into_rtrancl)
  ultimately have "ts_visited s' \<subseteq> ts_visited s \<union> (child_edges ch)\<^sup>* `` {t_id t}" by (auto simp: add_def)
  moreover have "closed_visit ch {t_id t} s s'" if b
  proof -
    have "closed_visit ch (t_id ` {c \<in> set (ch (t_id t)). t_id c \<notin> ts_visited ?s1}) ?s1 s'"
      using kids that by (simp add: tree_step_def)
    then have k: "\<And>c. c \<in> set (ch (t_id t)) \<Longrightarrow> t_id c \<notin> ts_visited ?s1 \<Longrightarrow> t_id c \<in> ts_visited s'"
      and rest: "\<And>x. x \<in> ts_visited s' \<Longrightarrow> x \<notin> ts_visited ?s1 \<Longrightarrow> t_id ` set (ch x) \<subseteq> ts_visited s'"
      by (auto simp: closed_visit_def)
    have "t_id ` set (ch x) \<subseteq> ts_visited s'" if "x \<in> ts_visited s'" "x \<notin> ts_visited s" for x
    proof (cases "x = t_id t")
      case True
      then show ?thesis using k sub by blast
    next
      case False
      then show ?thesis using rest that by (simp add: add_def)
    qed
    then show ?thesis using sub by (simp add: closed_visit_def add_def)
  qed
  ultimately show ?thesis
    using kids appended_trans [OF a1 a2] room by (simp add: tree_step_def add_def)
qed

lemma visit_task_step: "tree_step ch mx depth (depth + left) {t_id t} s (visit_task ch mx left depth t s)"
proof (induction left arbitrary: depth t s)
  case 0
  let ?s1 = "s\<lparr>ts_visited := insert (t_id t) (ts_visited s), ts_lines := ts_lines s @ [task_tree_line t depth]\<rparr>"
  let ?u = "{c \<in> set (ch (t_id t)). t_id c \<notin> ts_visited ?s1}"
  have "tree_step ch mx depth (depth + 0) {t_id t} s (visit_task ch mx 0 depth t s)"
    if new: "t_id t \<notin> ts_visited s" "\<not> length (ts_lines s) \<ge> mx"
  proof (cases "?u = {}")
    case True
    then have "t_id ` ?u = {}" by blast
    then have "tree_step ch mx (depth + 1) (depth + 0) (t_id ` ?u) ?s1 (?s1, True)"
      using tree_done [of "t_id ` ?u" ?s1 ch mx "depth + 1" "depth + 0"] by (simp only: empty_subsetI simp_thms)
    then have "tree_step ch mx depth (depth + 0) {t_id t} s (?s1, True)"
      using new by (intro tree_step_node) simp_all
    moreover have "visit_task ch mx 0 depth t s = (?s1, True)"
      using new True by (simp add: Let_def filter_empty_conv)
    ultimately show ?thesis by simp
  next
    case False
    have "tree_step ch mx (depth + 1) (depth + 0) (t_id ` ?u) ?s1 (?s1\<lparr>ts_truncated := True\<rparr>, False)" by (rule tree_stop)
    then have "tree_step ch mx depth (depth + 0) {t_id t} s (?s1\<lparr>ts_truncated := True\<rparr>, False)"
      using new by (intro tree_step_node) simp_all
    moreover have "visit_task ch mx 0 depth t s = (?s1\<lparr>ts_truncated := True\<rparr>, False)"
      using new False by (auto simp: Let_def filter_empty_conv)
    ultimately show ?thesis by simp
  qed
  then show ?case
    using tree_done [of "{t_id t}" s ch mx depth "depth + 0"] tree_stop [of ch mx depth "depth + 0" "{t_id t}" s]
    by (cases "t_id t \<in> ts_visited s"; cases "length (ts_lines s) \<ge> mx") simp_all
next
  case (Suc left)
  let ?s1 = "s\<lparr>ts_visited := insert (t_id t) (ts_visited s), ts_lines := ts_lines s @ [task_tree_line t depth]\<rparr>"
  let ?us = "filter (\<lambda>c. t_id c \<notin> ts_visited ?s1) (ch (t_id t))"
  let ?r = "visit_children mx (visit_task ch mx left (depth + 1)) ?us ?s1"
  have "tree_step ch mx depth (depth + Suc left) {t_id t} s ?r"
    if new: "t_id t \<notin> ts_visited s" "\<not> length (ts_lines s) \<ge> mx"
  proof -
    have ih: "tree_step ch mx (depth + 1) (depth + Suc left) {t_id c} s (visit_task ch mx left (depth + 1) c s)" for c s
      using Suc.IH [of "depth + 1" c s] by simp
    have kids: "tree_step ch mx (depth + 1) (depth + Suc left) (t_id ` set ?us) ?s1 ?r"
      by (rule visit_children_step) (rule ih)
    then show ?thesis
      using new tree_step_node [of t s mx ch depth "depth + Suc left" "fst ?r" "snd ?r"] by (simp add: set_filter)
  qed
  moreover have "visit_task ch mx (Suc left) depth t s = ?r"
    if "t_id t \<notin> ts_visited s" "\<not> length (ts_lines s) \<ge> mx"
    using that by (simp add: Let_def)
  ultimately show ?case
    using tree_done [of "{t_id t}" s ch mx depth "depth + Suc left"]
      tree_stop [of ch mx depth "depth + Suc left" "{t_id t}" s]
    by (cases "t_id t \<in> ts_visited s"; cases "length (ts_lines s) \<ge> mx") simp_all
qed

lemma closed_reach:
  assumes "(x, y) \<in> (child_edges ch)\<^sup>*" and "x \<in> S" and "\<And>z. z \<in> S \<Longrightarrow> t_id ` set (ch z) \<subseteq> S"
  shows "y \<in> S"
  using assms(1,2)
proof (induction rule: rtrancl_induct)
  case base
  then show ?case by simp
next
  case (step y z)
  then show ?case using assms(3) [of y] by (auto simp: child_edges_def)
qed

lemma task_tree_lines:
  assumes "task_tree ctx i max_depth max_nodes d = Inr r"
  shows "distinct (map tt_task_id (tt_lines r)) \<and> int (length (tt_lines r)) \<le> max_nodes \<and>
    tt_total_visited r = length (tt_lines r) \<and> (\<forall>l \<in> set (tt_lines r). int (tt_depth l) \<le> max_depth) \<and>
    (\<exists>t. lookup t_id i (task_rows d) = Some t \<and>
      tt_task_id ` set (tt_lines r) \<subseteq> (child_edges (task_tree_children d (t_env_id t)))\<^sup>* `` {i} \<and>
      (\<not> tt_truncated r \<longrightarrow> tt_task_id ` set (tt_lines r) = (child_edges (task_tree_children d (t_env_id t)))\<^sup>* `` {i}))"
proof -
  let ?s0 = "\<lparr>ts_lines = [], ts_visited = {}, ts_truncated = False\<rparr>"
  obtain t where t: "lookup t_id i (task_rows d) = Some t" "t_id t = i"
    and lim: "0 \<le> max_depth" "1 \<le> max_nodes"
    and r: "r = (let s = fst (visit_task (task_tree_children d (t_env_id t)) (nat max_nodes) (nat max_depth) 0 t ?s0) in
       \<lparr>tt_root_id = t_id t, tt_lines = ts_lines s, tt_truncated = ts_truncated s, tt_total_visited = length (ts_lines s)\<rparr>)"
    using assms unfolding task_tree_def Let_def
    by (auto elim!: bindE_elims simp: raise_if_eq_Inr dest!: load_taskD)
  let ?ch = "task_tree_children d (t_env_id t)"
  obtain s b where v: "visit_task ?ch (nat max_nodes) (nat max_depth) 0 t ?s0 = (s, b)" by fastforce
  have st: "tree_step ?ch (nat max_nodes) 0 (0 + nat max_depth) {t_id t} ?s0 (s, b)"
    using visit_task_step [of ?ch "nat max_nodes" 0 "nat max_depth" t ?s0] v by simp
  then have a: "distinct (map tt_task_id (ts_lines s))" "tt_task_id ` set (ts_lines s) = ts_visited s"
      "\<forall>l \<in> set (ts_lines s). tt_depth l \<le> nat max_depth"
    by (auto simp: tree_step_def appended_def)
  have c: "length (ts_lines s) \<le> nat max_nodes" "ts_truncated s = (\<not> b)"
      "ts_visited s \<subseteq> (child_edges ?ch)\<^sup>* `` {i}" "b \<longrightarrow> closed_visit ?ch {t_id t} ?s0 s"
    using st t(2) by (simp_all add: tree_step_def)
  have "ts_visited s = (child_edges ?ch)\<^sup>* `` {i}" if b
  proof
    have i: "i \<in> ts_visited s" and cl: "\<And>z. z \<in> ts_visited s \<Longrightarrow> t_id ` set (?ch z) \<subseteq> ts_visited s"
      using c(4) that t(2) by (simp_all add: closed_visit_def)
    show "(child_edges ?ch)\<^sup>* `` {i} \<subseteq> ts_visited s"
    proof
      fix y assume "y \<in> (child_edges ?ch)\<^sup>* `` {i}"
      then have "(i, y) \<in> (child_edges ?ch)\<^sup>*" by simp
      then show "y \<in> ts_visited s" using i cl by (rule closed_reach)
    qed
  qed (rule c(3))
  then have full: "\<not> ts_truncated s \<longrightarrow> ts_visited s = (child_edges ?ch)\<^sup>* `` {i}" using c(2) by simp
  have r': "tt_lines r = ts_lines s" "tt_truncated r = ts_truncated s" "tt_total_visited r = length (ts_lines s)"
    using r v by (simp_all add: Let_def)
  have "int (length (ts_lines s)) \<le> max_nodes" "\<forall>l \<in> set (ts_lines s). int (tt_depth l) \<le> max_depth"
    using c(1) a(3) lim by auto
  then show ?thesis using a(1) t(1) c(3) full unfolding r' a(2) by simp
qed

text \<open>The children of the subtree view are the dependencies of the graph.\<close>

lemma set_task_tree_children:
  "t \<in> set (task_tree_children d env i) \<longleftrightarrow> t \<in> set (task_rows d) \<and> t_env_id t = env \<and>
     (\<exists>r \<in> set (relation_rows d). \<exists>s \<in> set (graph_nodes d). \<exists>n \<in> set (graph_nodes d).
        dep_link env i (t_id t) r s n \<and> gn_env_id s = env \<and> gn_env_id n = env)"
proof -
  have "t \<in> set (task_tree_children d env i) \<longleftrightarrow> t \<in> set (task_rows d) \<and>
     (\<exists>n \<in> set (graph_nodes d). \<exists>r \<in> set (relation_rows d). \<exists>s \<in> set (graph_nodes d).
        t_env_id t = env \<and> gn_env_id s = env \<and> gn_env_id n = env \<and> dep_link env i (t_id t) r s n)"
    unfolding task_tree_children_def dep_link_def by (auto split: if_splits)
  then show ?thesis by blast
qed

lemma child_edges_deps:
  assumes inv: "task_inv d"
  shows "child_edges (task_tree_children d env) = dep_edges d env"
proof -
  have g: "graph_ok d" using inv by (rule task_inv_graph)
  have "(a, b) \<in> child_edges (task_tree_children d env) \<longleftrightarrow> (a, b) \<in> dep_edges d env" for a b
  proof
    assume "(a, b) \<in> child_edges (task_tree_children d env)"
    then obtain t where "t \<in> set (task_tree_children d env a)" "t_id t = b" by (auto simp: child_edges_def)
    then show "(a, b) \<in> dep_edges d env"
      unfolding set_task_tree_children dep_edges_iff by blast
  next
    assume "(a, b) \<in> dep_edges d env"
    then obtain r s n where r: "r \<in> set (relation_rows d)" and s: "s \<in> set (graph_nodes d)"
      and n: "n \<in> set (graph_nodes d)" and l: "dep_link env a b r s n"
      unfolding dep_edges_iff by blast
    have e: "gn_env_id s = env" "gn_env_id n = env" using node_of_link [OF g r s] node_of_link [OF g r n] l
      by (simp_all add: dep_link_def)
    have "has_task d b env" using task_inv_nodes [OF inv] n l e unfolding nodes_ok_def homed_def dep_link_def by metis
    then obtain t where "t \<in> set (task_rows d)" "t_id t = b" "t_env_id t = env" by (auto simp: has_task_def)
    then have "t \<in> set (task_tree_children d env a)" "t_id t = b"
      unfolding set_task_tree_children using r s n l e by blast+
    then show "(a, b) \<in> child_edges (task_tree_children d env)" by (auto simp: child_edges_def)
  qed
  then show ?thesis by auto
qed

end
