(* ===== verification/Relations.thy ===== *)
theory Relations
  imports TaskTree
begin

text \<open>
  Typed edges between graph nodes, \<open>memory_mcp/relations.py\<close>: \<open>relation_link\<close> (create or
  update an edge, with its audit row and outbox event) and \<open>relation_browse\<close> (the paged
  listing). The lemmas show that a link keeps the graph tables well formed and the task
  dependencies acyclic.
\<close>

record relation_endpoint =
  ep_kind :: graph_node_type
  ep_id :: uuid

record relation_link_request =
  rq_src :: relation_endpoint
  rq_dst :: relation_endpoint
  rq_type :: string
  rq_properties :: payload
  rq_env_id :: "uuid option"
  rq_expected_version :: "int option"

record relation_response =
  rr_id :: uuid
  rr_env_id :: uuid
  rr_src :: relation_endpoint
  rr_dst :: relation_endpoint
  rr_src_node_id :: uuid
  rr_dst_node_id :: uuid
  rr_type :: string
  rr_properties :: payload
  rr_version :: int
  rr_created_at :: time
  rr_updated_at :: time

record relation_browse_request =
  rb_env_ids :: "uuid list option"
  rb_types :: "string list option"
  rb_src_kind :: "graph_node_type option"
  rb_dst_kind :: "graph_node_type option"
  rb_src_id :: "uuid option"
  rb_dst_id :: "uuid option"
  rb_created_after :: "time option"
  rb_descending :: bool
  rb_limit :: nat
  rb_cursor :: "json option option"

record relation_browse_hit =
  rh_id :: uuid
  rh_env_id :: uuid
  rh_type :: string
  rh_src_kind :: graph_node_type
  rh_src_id :: uuid
  rh_dst_kind :: graph_node_type
  rh_dst_id :: uuid
  rh_properties :: payload
  rh_created_at :: time
  rh_updated_at :: time

record relation_browse_response =
  rp_hits :: "relation_browse_hit list"
  rp_next_cursor :: "json option option"
  rp_has_more :: bool

subsection \<open>Helpers\<close>

definition resolve_relation_env_id :: "uuid option \<Rightarrow> agent_context \<Rightarrow> uuid res" where
  "resolve_relation_env_id explicit ctx =
     (case explicit of Some e \<Rightarrow> Inr e
      | None \<Rightarrow> (case dedupe (ctx_attached_env_ids ctx) of
          [e] \<Rightarrow> Inr e
        | attached \<Rightarrow> Inl (EnvAmbiguousError attached)))"

text \<open>
  The insert in a savepoint: an integrity error is absorbed by selecting the row that won.
\<close>

definition create_or_get_graph_node :: "graph_node \<Rightarrow> (graph_node \<Rightarrow> bool) \<Rightarrow> db \<Rightarrow> (db \<times> graph_node) res" where
  "create_or_get_graph_node candidate re_select d =
     (case insert_graph_node candidate (draw_uuid d) of
        Inr d' \<Rightarrow> Inr (d', candidate)
      | Inl _ \<Rightarrow> (case find re_select (graph_nodes d) of
          Some n \<Rightarrow> Inr (draw_uuid d, n) | None \<Rightarrow> Inl NoResultFound))"

definition node_for :: "uuid \<Rightarrow> uuid \<Rightarrow> relation_endpoint \<Rightarrow> graph_node" where
  "node_for i env ep = \<lparr>gn_id = i, gn_env_id = env, gn_type = ep_kind ep,
     gn_memory_id = (if ep_kind ep = NT_memory then Some (ep_id ep) else None),
     gn_entity_id = (if ep_kind ep = NT_entity then Some (ep_id ep) else None),
     gn_task_id = (if ep_kind ep = NT_task then Some (ep_id ep) else None)\<rparr>"

definition node_selects :: "relation_endpoint \<Rightarrow> graph_node \<Rightarrow> bool" where
  "node_selects ep n \<longleftrightarrow> (case ep_kind ep of
     NT_entity \<Rightarrow> gn_entity_id n = Some (ep_id ep)
   | NT_memory \<Rightarrow> gn_memory_id n = Some (ep_id ep)
   | NT_task \<Rightarrow> gn_task_id n = Some (ep_id ep))"

text \<open>The environment of the record an endpoint names.\<close>

definition endpoint_env :: "relation_endpoint \<Rightarrow> db \<Rightarrow> uuid option" where
  "endpoint_env ep d = (case ep_kind ep of
     NT_entity \<Rightarrow> map_option e_env_id (lookup e_id (ep_id ep) (entities d))
   | NT_memory \<Rightarrow> map_option m_env_id (lookup m_id (ep_id ep) (memories d))
   | NT_task \<Rightarrow> map_option t_env_id (lookup t_id (ep_id ep) (task_rows d)))"

definition ensure_graph_node :: "uuid \<Rightarrow> relation_endpoint \<Rightarrow> db \<Rightarrow> (db \<times> graph_node) res" where
  "ensure_graph_node env ep d =
     (case endpoint_env ep d of
        None \<Rightarrow> Inl (NotFoundError (node_type_value (ep_kind ep)) (ep_id ep))
      | Some e \<Rightarrow>
          if e \<noteq> env then Inl (ValueError ''env'')
          else case find (node_selects ep) (graph_nodes d) of
            Some n \<Rightarrow> Inr (d, n)
          | None \<Rightarrow> create_or_get_graph_node (node_for (next_uuid d) env ep) (node_selects ep) d)"

text \<open>An endpoint of a node without its id is refused by the response schema.\<close>

definition endpoint_for_node :: "graph_node \<Rightarrow> relation_endpoint res" where
  "endpoint_for_node n =
     bindE (some_or (ValueError ''RelationEndpoint'') (case gn_type n of
         NT_entity \<Rightarrow> gn_entity_id n | NT_task \<Rightarrow> gn_task_id n | NT_memory \<Rightarrow> gn_memory_id n))
       (\<lambda>i. Inr \<lparr>ep_kind = gn_type n, ep_id = i\<rparr>)"

definition validate_relation_type_for_endpoints :: "string \<Rightarrow> relation_endpoint \<Rightarrow> relation_endpoint \<Rightarrow> unit res" where
  "validate_relation_type_for_endpoints ty src dst =
     (if ty = ''depends_on'' then
        raise_if (ep_kind src \<noteq> NT_task \<or> ep_kind dst \<noteq> NT_task) (InvalidInputError ''depends_on'')
      else raise_if ((ep_kind src = NT_task \<or> ep_kind dst = NT_task) \<and>
             ty \<notin> {''motivated_by'', ''produces'', ''references''}) (InvalidInputError ''type''))"

definition relation_payload :: "relation_row \<Rightarrow> graph_node \<Rightarrow> graph_node \<Rightarrow> payload res" where
  "relation_payload r s t =
     bindE (endpoint_for_node s) (\<lambda>src. bindE (endpoint_for_node t) (\<lambda>dst.
       Inr [(''relation_id'', JUuid (r_id r)), (''env_id'', JUuid (r_env_id r)), (''type'', JStr (r_type r)),
        (''properties'', JObj (r_properties r)),
        (''src'', JObj [(''kind'', JStr (node_type_value (ep_kind src))), (''id'', JUuid (ep_id src)),
                        (''node_id'', JUuid (gn_id s))]),
        (''dst'', JObj [(''kind'', JStr (node_type_value (ep_kind dst))), (''id'', JUuid (ep_id dst)),
                        (''node_id'', JUuid (gn_id t))]),
        (''version'', JInt (r_version r)), (''created_at'', JTime (r_created_at r)),
        (''updated_at'', JTime (r_updated_at r))]))"

definition relation_to_response :: "relation_row \<Rightarrow> graph_node \<Rightarrow> graph_node \<Rightarrow> relation_response res" where
  "relation_to_response r s t =
     bindE (endpoint_for_node s) (\<lambda>src. bindE (endpoint_for_node t) (\<lambda>dst.
       Inr \<lparr>rr_id = r_id r, rr_env_id = r_env_id r, rr_src = src, rr_dst = dst, rr_src_node_id = gn_id s,
         rr_dst_node_id = gn_id t, rr_type = r_type r, rr_properties = r_properties r,
         rr_version = r_version r, rr_created_at = r_created_at r, rr_updated_at = r_updated_at r\<rparr>))"

definition record_relation_audit ::
  "string \<Rightarrow> uuid \<Rightarrow> uuid \<Rightarrow> uuid \<Rightarrow> payload option \<Rightarrow> payload option \<Rightarrow> db \<Rightarrow> db" where
  "record_relation_audit op i env agent before after d =
     d\<lparr>audit_log := audit_log d @ [\<lparr>au_record_type = ''relation'', au_record_id = i, au_env_id = env, au_op = op,
        au_by_agent_id = agent, au_before = before, au_after = after\<rparr>]\<rparr>"

subsection \<open>relation_link\<close>

text \<open>
  The row after the upsert, its snapshot before, whether it was created and the outbox
  operation, if an event is due.
\<close>

definition upsert_relation ::
  "time \<Rightarrow> uuid \<Rightarrow> relation_link_request \<Rightarrow> graph_node \<Rightarrow> graph_node \<Rightarrow> db
   \<Rightarrow> (db \<times> relation_row \<times> payload option \<times> outbox_op option) res" where
  "upsert_relation now env req s t d =
     (case find_relation d (gn_id s) (gn_id t) (rq_type req) of
        None \<Rightarrow>
          let r = new_relation (next_uuid d) env s t (rq_type req) (rq_properties req) now in
          bindE (insert_relation_row r (draw_uuid d)) (\<lambda>d'. Inr (d', r, None, Some OP_upsert))
      | Some r \<Rightarrow>
          bindE (relation_payload r s t) (\<lambda>before.
          bindE (raise_if (rq_expected_version req \<noteq> None \<and> rq_expected_version req \<noteq> Some (r_version r))
                   (VersionConflictError (the (rq_expected_version req)) (r_version r))) (\<lambda>_.
            if r_properties r = rq_properties req then Inr (d, r, Some before, None)
            else
              let f = (\<lambda>x. x\<lparr>r_properties := rq_properties req, r_version := r_version r + 1, r_updated_at := now\<rparr>) in
              if \<not> list_ex (\<lambda>x. r_id x = r_id r \<and> r_version x = r_version r) (relation_rows d)
              then Inl (VersionConflictError (r_version r) (r_version r + 1))
              else Inr (d\<lparr>relation_rows := update_where (\<lambda>x. r_id x = r_id r \<and> r_version x = r_version r) f
                            (relation_rows d)\<rparr>, f r, Some before, Some OP_update))))"

text \<open>The audit row and the outbox event that a link leaves.\<close>

definition audit_link ::
  "uuid \<Rightarrow> uuid \<Rightarrow> relation_row \<Rightarrow> payload option \<Rightarrow> payload \<Rightarrow> outbox_op option \<Rightarrow> db \<Rightarrow> db" where
  "audit_link env agent r before after emit d =
     (if before = None \<or> emit \<noteq> None \<or> before \<noteq> Some after
      then record_relation_audit (if before = None then ''create'' else ''update'') (r_id r) env agent before (Some after) d
      else d)"

definition emit_link :: "settings \<Rightarrow> time \<Rightarrow> uuid \<Rightarrow> relation_row \<Rightarrow> payload \<Rightarrow> outbox_op option \<Rightarrow> db \<Rightarrow> db res" where
  "emit_link st now env r after emit d =
     (case emit of None \<Rightarrow> Inr d
      | Some op \<Rightarrow> bindE (enqueue_event st now AT_relation (r_id r) (r_version r) env op after None d) (\<lambda>(d', _). Inr d'))"

definition relation_link ::
  "settings \<Rightarrow> time \<Rightarrow> agent_context \<Rightarrow> relation_link_request \<Rightarrow> db \<Rightarrow> (db \<times> relation_response) res" where
  "relation_link st now ctx req d =
     bindE (resolve_relation_env_id (rq_env_id req) ctx) (\<lambda>env.
     bindE (rbac_require ''write'' (Some env) ctx) (\<lambda>_.
     bindE (raise_if (ep_kind (rq_src req) = ep_kind (rq_dst req) \<and> ep_id (rq_src req) = ep_id (rq_dst req))
              (ValueError ''self-loop'')) (\<lambda>_.
     bindE (validate_relation_type_for_endpoints (rq_type req) (rq_src req) (rq_dst req)) (\<lambda>_.
     bindE (ensure_graph_node env (rq_src req) d) (\<lambda>(d1, s).
     bindE (ensure_graph_node env (rq_dst req) d1) (\<lambda>(d2, t).
     bindE (raise_if (rq_type req = ''depends_on'' \<and> ep_kind (rq_src req) = NT_task \<and> ep_kind (rq_dst req) = NT_task \<and>
               would_cycle d2 env (ep_id (rq_src req)) (ep_id (rq_dst req))) CycleDetectedError) (\<lambda>_.
     bindE (upsert_relation now env req s t d2) (\<lambda>(d3, r, before, emit).
     bindE (relation_payload r s t) (\<lambda>after.
     bindE (emit_link st now env r after emit (audit_link env (ctx_agent_id ctx) r before after emit d3)) (\<lambda>d5.
     bindE (relation_to_response r s t) (\<lambda>resp. Inr (d5, resp))))))))))))"

subsection \<open>relation_browse\<close>

definition resolve_browse_env_ids :: "uuid list option \<Rightarrow> agent_context \<Rightarrow> uuid list" where
  "resolve_browse_env_ids explicit ctx =
     (case explicit of Some (e # es) \<Rightarrow> dedupe (e # es) | _ \<Rightarrow> dedupe (ctx_attached_env_ids ctx))"

definition endpoint_matches :: "graph_node_type option \<Rightarrow> uuid option \<Rightarrow> graph_node \<Rightarrow> bool" where
  "endpoint_matches kind i n \<longleftrightarrow>
     (case kind of None \<Rightarrow> True | Some k \<Rightarrow> gn_type n = k) \<and>
     (case i of None \<Rightarrow> True
      | Some j \<Rightarrow> gn_entity_id n = Some j \<or> gn_memory_id n = Some j \<or> gn_task_id n = Some j)"

definition browse_matches :: "relation_browse_request \<Rightarrow> uuid list \<Rightarrow> relation_row \<times> graph_node \<times> graph_node \<Rightarrow> bool" where
  "browse_matches req envs row = (case row of (r, s, t) \<Rightarrow>
     r_env_id r \<in> set envs \<and>
     (case rb_types req of Some (ty # tys) \<Rightarrow> r_type r \<in> set (ty # tys) | _ \<Rightarrow> True) \<and>
     endpoint_matches (rb_src_kind req) (rb_src_id req) s \<and>
     endpoint_matches (rb_dst_kind req) (rb_dst_id req) t \<and>
     (case rb_created_after req of None \<Rightarrow> True | Some c \<Rightarrow> c \<le> r_created_at r))"

definition joined_relations :: "db \<Rightarrow> (relation_row \<times> graph_node \<times> graph_node) list" where
  "joined_relations d = [(r, s, t). r \<leftarrow> relation_rows d, s \<leftarrow> graph_nodes d, t \<leftarrow> graph_nodes d,
     gn_id s = r_src_node_id r \<and> gn_id t = r_dst_node_id r]"

definition browse_order :: "relation_row \<times> graph_node \<times> graph_node \<Rightarrow> time \<times> uuid" where
  "browse_order row = (r_created_at (fst row), r_id (fst row))"

definition browse_after :: "bool \<Rightarrow> (time \<times> uuid) option \<Rightarrow> relation_row \<times> graph_node \<times> graph_node \<Rightarrow> bool" where
  "browse_after descending c row = (case c of None \<Rightarrow> True
     | Some k \<Rightarrow> if descending then browse_order row < k else k < browse_order row)"

definition browse_cursor :: "string \<Rightarrow> string \<Rightarrow> json option option \<Rightarrow> (time \<times> uuid) option res" where
  "browse_cursor fp direction cursor = (case cursor of None \<Rightarrow> Inr None
     | Some c \<Rightarrow> bindE (decode_cursor c fp (Some ''created_at'') (Some direction)) (\<lambda>k.
         case kc_order_value k of JTime v \<Rightarrow> Inr (Some (v, kc_tiebreak_id k)) | _ \<Rightarrow> Inl InvalidCursorError))"

text \<open>
  A row of the page as a hit: the endpoint id is read from \<open>entity_id\<close> or else from
  \<open>memory_id\<close>, and a row for which either is null is skipped.
\<close>

definition browse_hit :: "relation_row \<times> graph_node \<times> graph_node \<Rightarrow> relation_browse_hit option" where
  "browse_hit row = (case row of (r, s, t) \<Rightarrow>
     let src = (if gn_type s = NT_entity then gn_entity_id s else gn_memory_id s);
         dst = (if gn_type t = NT_entity then gn_entity_id t else gn_memory_id t) in
     case (src, dst) of
       (Some i, Some j) \<Rightarrow> Some \<lparr>rh_id = r_id r, rh_env_id = r_env_id r, rh_type = r_type r,
          rh_src_kind = gn_type s, rh_src_id = i, rh_dst_kind = gn_type t, rh_dst_id = j,
          rh_properties = r_properties r, rh_created_at = r_created_at r, rh_updated_at = r_updated_at r\<rparr>
     | _ \<Rightarrow> None)"

text \<open>The select: at most \<open>limit + 1\<close> matching rows after the cursor.\<close>

definition browse_rows ::
  "relation_browse_request \<Rightarrow> uuid list \<Rightarrow> (time \<times> uuid) option \<Rightarrow> db \<Rightarrow> (relation_row \<times> graph_node \<times> graph_node) list" where
  "browse_rows req envs c d =
     (let matching = filter (\<lambda>row. browse_matches req envs row \<and> browse_after (rb_descending req) c row) (joined_relations d);
          asc = sort_key browse_order matching in
      take (rb_limit req + 1) (if rb_descending req then rev asc else asc))"

definition browse_response ::
  "relation_browse_request \<Rightarrow> string \<Rightarrow> string \<Rightarrow> (relation_row \<times> graph_node \<times> graph_node) list \<Rightarrow> relation_browse_response" where
  "browse_response req fp direction rows =
     (let page = take (rb_limit req) rows;
          has_more = length rows > rb_limit req in
      \<lparr>rp_hits = List.map_filter browse_hit page,
       rp_next_cursor = (if has_more \<and> page \<noteq> [] then
          Some (encode_cursor fp ''created_at'' (JTime (r_created_at (fst (last page)))) (r_id (fst (last page))) direction)
          else None),
       rp_has_more = has_more\<rparr>)"

text \<open>\<open>fingerprint\<close> is the hash of the filters that the cursors carry.\<close>

definition relation_browse ::
  "(relation_browse_request \<Rightarrow> uuid list \<Rightarrow> string) \<Rightarrow> agent_context \<Rightarrow> relation_browse_request \<Rightarrow> db
   \<Rightarrow> relation_browse_response res" where
  "relation_browse fingerprint ctx req d =
     (let envs = resolve_browse_env_ids (rb_env_ids req) ctx;
          fp = fingerprint req envs;
          direction = (if rb_descending req then ''desc'' else ''asc'') in
      if envs = [] then Inr \<lparr>rp_hits = [], rp_next_cursor = None, rp_has_more = False\<rparr>
      else bindE (browse_cursor fp direction (rb_cursor req)) (\<lambda>c.
        Inr (browse_response req fp direction (browse_rows req envs c d))))"

lemma browse_hits_rows:
  assumes "relation_browse fingerprint ctx req d = Inr resp" and "h \<in> set (rp_hits resp)"
  shows "\<exists>row \<in> set (joined_relations d). browse_hit row = Some h \<and>
    browse_matches req (resolve_browse_env_ids (rb_env_ids req) ctx) row"
proof -
  let ?envs = "resolve_browse_env_ids (rb_env_ids req) ctx"
  have ne: "?envs \<noteq> []" using assms by (auto simp: relation_browse_def Let_def)
  then obtain c fp dir where "resp = browse_response req fp dir (browse_rows req ?envs c d)"
    using assms(1) unfolding relation_browse_def Let_def by (auto elim!: bindE_InrE)
  then have "h \<in> set (List.map_filter browse_hit (take (rb_limit req) (browse_rows req ?envs c d)))"
    using assms(2) by (simp add: browse_response_def Let_def)
  then obtain row where row: "row \<in> set (browse_rows req ?envs c d)" "browse_hit row = Some h"
    by (auto simp: List.map_filter_def dest!: in_set_takeD)
  from row(1) have "row \<in> set (joined_relations d) \<and> browse_matches req ?envs row"
    by (auto simp: browse_rows_def Let_def dest!: in_set_takeD split: if_splits)
  with row(2) show ?thesis by blast
qed

end
