(* ===== verification/RelationGraph.thy ===== *)
theory RelationGraph
  imports Relations
begin

text \<open>
  \<open>relation_link\<close> keeps the invariant of the task graph: it may add a dependency, and then
  only after the cycle test; an update of an edge changes its properties, version and clock.
\<close>

lemma has_task_lookup:
  "map_option t_env_id (lookup t_id i (task_rows d)) = Some env \<Longrightarrow> has_task d i env"
  by (auto simp: has_task_def dest: lookup_SomeD)

lemma ensure_graph_node_inv:
  assumes inv: "task_inv d" and e: "ensure_graph_node env ep d = Inr (d', n)"
  shows "task_inv d'" "same_deps d d'" "n \<in> set (graph_nodes d')" "node_selects ep n"
proof -
  have ee: "endpoint_env ep d = Some env"
    using e by (auto simp: ensure_graph_node_def split: option.splits if_splits)
  have "task_inv d' \<and> same_deps d d' \<and> n \<in> set (graph_nodes d') \<and> node_selects ep n"
  proof (cases "find (node_selects ep) (graph_nodes d)")
    case (Some n0)
    then have "n0 = n" "d' = d" using e ee by (simp_all add: ensure_graph_node_def)
    then show ?thesis using inv find_SomeD [OF Some] same_deps_refl [OF task_inv_graph [OF inv]] by simp
  next
    case None
    let ?m = "node_for (next_uuid d) env ep"
    have ins: "insert_graph_node ?m (draw_uuid d) = Inr d'" and n: "n = ?m"
      using e ee None by (auto simp: ensure_graph_node_def create_or_get_graph_node_def split: sum.splits)
    note g = insert_node_same [OF task_inv_graph [OF inv] ins]
    have d': "d' = (draw_uuid d)\<lparr>graph_nodes := graph_nodes d @ [?m]\<rparr>"
      using insert_node_cases(1) [OF ins] by simp
    have no: "\<not> node_selects ep x" if "x \<in> set (graph_nodes d)" for x
      using None that by (auto simp: find_None_iff)
    have home: "homed d ?m"
      using ee has_task_lookup by (auto simp: homed_def node_for_def endpoint_env_def split: if_splits)
    have tw: "\<not> twins x ?m \<and> \<not> twins ?m x" if "x \<in> set (graph_nodes d)" for x
      using no [OF that] by (auto simp: twins_def node_for_def node_selects_def split: if_splits)
    have "nodes_ok d'"
      by (rule nodes_ok_add_node [OF task_inv_nodes [OF inv] _ _ home tw]) (simp_all add: d')
    moreover have "node_selects ep ?m" by (simp add: node_for_def node_selects_def split: graph_node_type.splits)
    ultimately show ?thesis
      using g n inv same_deps_deps_ok [OF g(1)] by (simp add: task_inv_def)
  qed
  then show "task_inv d'" "same_deps d d'" "n \<in> set (graph_nodes d')" "node_selects ep n" by auto
qed

text \<open>An update that leaves the ends, the type and the environment of each row alone.\<close>

lemma relation_update_same:
  assumes g: "graph_ok d" and d': "graph_nodes d' = graph_nodes d"
      "relation_rows d' = update_where P f (relation_rows d)"
    and f: "\<And>r. r_src_node_id (f r) = r_src_node_id r" "\<And>r. r_dst_node_id (f r) = r_dst_node_id r"
      "\<And>r. r_type (f r) = r_type r" "\<And>r. r_env_id (f r) = r_env_id r" "\<And>r. r_id (f r) = r_id r"
  shows "same_deps d d'"
proof -
  let ?g = "\<lambda>r. if P r then f r else r"
  have rows: "set (relation_rows d') = ?g ` set (relation_rows d)" by (simp add: d'(2) set_update_where)
  have hn: "has_node d' = has_node d" by (simp add: has_node_def d'(1) fun_eq_iff)
  have "map r_id (relation_rows d') = map r_id (relation_rows d)" unfolding d'(2) using f(5) by simp
  moreover have "map (\<lambda>r. (r_src_node_id r, r_dst_node_id r, r_type r)) (relation_rows d') =
      map (\<lambda>r. (r_src_node_id r, r_dst_node_id r, r_type r)) (relation_rows d)"
    unfolding d'(2) using f by simp
  moreover have "\<forall>r \<in> set (relation_rows d'). has_node d' (r_src_node_id r) (r_env_id r) \<and> has_node d' (r_dst_node_id r) (r_env_id r)"
    using g f unfolding rows hn graph_ok_def by auto
  ultimately have ok: "graph_ok d'" using g d'(1) by (simp add: graph_ok_def)
  have "dep_link env a b (?g r) = dep_link env a b r" for env a b r
    using f by (simp add: dep_link_def fun_eq_iff)
  then have "(a, b) \<in> dep_edges d' env \<longleftrightarrow> (a, b) \<in> dep_edges d env" for a b env
    unfolding dep_edges_iff rows d'(1) by (simp only: bex_simps)
  then have "dep_edges d' = dep_edges d" by (auto simp: fun_eq_iff)
  then show ?thesis using ok d'(1) by (simp add: same_deps_def graph_grows_def)
qed

lemma new_task_edge:
  assumes g: "graph_ok d" and n: "n \<in> set (graph_nodes d)" "node_selects ep n" and i: "gn_task_id n = Some i"
  shows "ep_kind ep = NT_task \<Longrightarrow> ep_id ep = i"
  using n(2) i by (simp add: node_selects_def)

lemma upsert_relation_inv:
  assumes inv: "task_inv d" and s: "s \<in> set (graph_nodes d)" "node_selects (rq_src req) s"
    and t: "t \<in> set (graph_nodes d)" "node_selects (rq_dst req) t"
    and ty: "rq_type req = ''depends_on'' \<Longrightarrow> ep_kind (rq_src req) = NT_task \<and> ep_kind (rq_dst req) = NT_task \<and>
      \<not> would_cycle d env (ep_id (rq_src req)) (ep_id (rq_dst req))"
    and u: "upsert_relation now env req s t d = Inr (d', r, before, emit)"
  shows "task_inv d'"
proof (cases "find_relation d (gn_id s) (gn_id t) (rq_type req)")
  case None
  let ?r = "new_relation (next_uuid d) env s t (rq_type req) (rq_properties req) now"
  have g: "graph_ok (draw_uuid d)" by (rule same_deps_ok [OF draw_same [OF task_inv_graph [OF inv]]])
  have ins: "insert_relation_row ?r (draw_uuid d) = Inr d'"
    using u None by (auto simp: upsert_relation_def Let_def res_simps)
  have "dep_acyclic d'"
  proof (rule guarded_insert_acyclic [OF g _ ins])
    show "dep_acyclic (draw_uuid d)" using inv by (simp add: task_inv_def deps_ok_def dep_acyclic_def)
    fix a b assume "r_type ?r = ''depends_on''" "gn_task_id s = Some a" "gn_task_id t = Some b"
    then show "\<not> would_cycle (draw_uuid d) (r_env_id ?r) a b"
      using ty new_task_edge [OF task_inv_graph [OF inv] s] new_task_edge [OF task_inv_graph [OF inv] t]
      by (simp add: would_cycle_iff)
  qed (use s t in simp_all)
  moreover have "nodes_ok d'"
    using task_inv_nodes [OF inv] insert_relation_cases(1) [OF ins] nodes_ok_frame [of d' d] by simp
  ultimately show ?thesis using insert_relation_ok [OF g ins] by (simp add: task_inv_def deps_ok_def)
next
  case (Some r0)
  have "d' = d \<or> (\<exists>P. d' = d\<lparr>relation_rows := update_where P
      (\<lambda>x. x\<lparr>r_properties := rq_properties req, r_version := r_version r0 + 1, r_updated_at := now\<rparr>) (relation_rows d)\<rparr>)"
    using u Some by (auto simp: upsert_relation_def Let_def elim!: bindE_elims split: if_splits)
  then show ?thesis
  proof
    assume "d' = d"
    then show ?thesis using inv by simp
  next
    assume "\<exists>P. d' = d\<lparr>relation_rows := update_where P
      (\<lambda>x. x\<lparr>r_properties := rq_properties req, r_version := r_version r0 + 1, r_updated_at := now\<rparr>) (relation_rows d)\<rparr>"
    then obtain P where d': "d' = d\<lparr>relation_rows := update_where P
      (\<lambda>x. x\<lparr>r_properties := rq_properties req, r_version := r_version r0 + 1, r_updated_at := now\<rparr>) (relation_rows d)\<rparr>" ..
    have "same_deps d d'"
      by (rule relation_update_same [OF task_inv_graph [OF inv], of d' P
            "\<lambda>x. x\<lparr>r_properties := rq_properties req, r_version := r_version r0 + 1, r_updated_at := now\<rparr>"])
         (simp_all add: d')
    moreover have "nodes_ok d'" using task_inv_nodes [OF inv] nodes_ok_frame [of d' d] d' by simp
    ultimately show ?thesis using inv same_deps_deps_ok by (simp add: task_inv_def)
  qed
qed

lemma relation_link_steps:
  assumes "relation_link st now ctx req d = Inr (d', resp)"
  obtains env d1 s d2 t d3 r before emit d4 where
    "ensure_graph_node env (rq_src req) d = Inr (d1, s)" "ensure_graph_node env (rq_dst req) d1 = Inr (d2, t)"
    "validate_relation_type_for_endpoints (rq_type req) (rq_src req) (rq_dst req) = Inr ()"
    "\<not> (rq_type req = ''depends_on'' \<and> ep_kind (rq_src req) = NT_task \<and> ep_kind (rq_dst req) = NT_task \<and>
        would_cycle d2 env (ep_id (rq_src req)) (ep_id (rq_dst req)))"
    "upsert_relation now env req s t d2 = Inr (d3, r, before, emit)"
    "graph_nodes d' = graph_nodes d3" "relation_rows d' = relation_rows d3" "task_rows d' = task_rows d3"
proof -
  obtain env where env: "resolve_relation_env_id (rq_env_id req) ctx = Inr env"
    using assms unfolding relation_link_def by (auto elim!: bindE_InrE)
  obtain d1 s where s: "ensure_graph_node env (rq_src req) d = Inr (d1, s)"
    and v: "validate_relation_type_for_endpoints (rq_type req) (rq_src req) (rq_dst req) = Inr ()"
    using assms env unfolding relation_link_def by (auto elim!: bindE_elims)
  obtain d2 t where t: "ensure_graph_node env (rq_dst req) d1 = Inr (d2, t)"
    using assms env s unfolding relation_link_def by (auto elim!: bindE_elims)
  obtain d3 r before emit after where u: "upsert_relation now env req s t d2 = Inr (d3, r, before, emit)"
    and c: "\<not> (rq_type req = ''depends_on'' \<and> ep_kind (rq_src req) = NT_task \<and> ep_kind (rq_dst req) = NT_task \<and>
        would_cycle d2 env (ep_id (rq_src req)) (ep_id (rq_dst req)))"
    and after: "relation_payload r s t = Inr after"
    using assms env s t unfolding relation_link_def by (auto elim!: bindE_elims simp: raise_if_eq_Inr)
  let ?d4 = "audit_link env (ctx_agent_id ctx) r before after emit d3"
  have d4: "graph_nodes ?d4 = graph_nodes d3" "relation_rows ?d4 = relation_rows d3" "task_rows ?d4 = task_rows d3"
    by (simp_all add: audit_link_def record_relation_audit_def)
  have "emit_link st now env r after emit ?d4 = Inr d'"
    using assms env s t u c after v unfolding relation_link_def by (auto elim!: bindE_InrE)
  then have "graph_nodes d' = graph_nodes ?d4" "relation_rows d' = relation_rows ?d4" "task_rows d' = task_rows ?d4"
    unfolding emit_link_def by (auto elim!: bindE_elims simp: enqueue_frame split: option.splits)
  then show ?thesis using that [OF s t v c u] d4 by simp
qed

lemma relation_link_inv:
  assumes inv: "task_inv d" and op: "relation_link st now ctx req d = Inr (d', resp)"
  shows "task_inv d'"
proof -
  obtain env d1 s d2 t d3 r before emit d4 where
    st: "ensure_graph_node env (rq_src req) d = Inr (d1, s)" "ensure_graph_node env (rq_dst req) d1 = Inr (d2, t)"
      "validate_relation_type_for_endpoints (rq_type req) (rq_src req) (rq_dst req) = Inr ()"
      "\<not> (rq_type req = ''depends_on'' \<and> ep_kind (rq_src req) = NT_task \<and> ep_kind (rq_dst req) = NT_task \<and>
          would_cycle d2 env (ep_id (rq_src req)) (ep_id (rq_dst req)))"
      "upsert_relation now env req s t d2 = Inr (d3, r, before, emit)"
    and fr: "graph_nodes d' = graph_nodes d3" "relation_rows d' = relation_rows d3" "task_rows d' = task_rows d3"
    by (rule relation_link_steps [OF op])
  note n1 = ensure_graph_node_inv [OF inv st(1)]
  note n2 = ensure_graph_node_inv [OF n1(1) st(2)]
  have s: "s \<in> set (graph_nodes d2)" using n1(3) n2(2) by (auto simp: same_deps_def graph_grows_def)
  have "task_inv d3"
  proof (rule upsert_relation_inv [OF n2(1) s n1(4) n2(3,4) _ st(5)])
    show "ep_kind (rq_src req) = NT_task \<and> ep_kind (rq_dst req) = NT_task \<and>
        \<not> would_cycle d2 env (ep_id (rq_src req)) (ep_id (rq_dst req))" if "rq_type req = ''depends_on''"
      using st(3,4) that by (simp add: validate_relation_type_for_endpoints_def raise_if_eq_Inr)
  qed
  then show ?thesis using graph_frame [OF fr(1,2)] nodes_ok_frame [OF fr(3,1)] by (simp add: task_inv_def deps_ok_def)
qed

end
