(* ===== verification/TaskProps.thy ===== *)
theory TaskProps
  imports RelationGraph Delivery
begin

text \<open>
  The properties of the task graph over every sequence of tool calls (\<open>graph_reachable\<close>), of
  concurrent status changes, of the listing and of the subtree view, with a small concrete
  graph for the examples.
\<close>

subsection \<open>Sequences of tool calls\<close>

text \<open>
  One committed call of the task tools or of \<open>relation_link\<close>, or a transaction that leaves
  tasks, nodes and relations alone.
\<close>

inductive graph_step :: "db \<Rightarrow> db \<Rightarrow> bool" where
  create: "task_create st now ctx req d = Inr (d', resp) \<Longrightarrow> graph_step d d'"
| substep: "task_substep st now ctx p title descr prio d = Inr (d', resp) \<Longrightarrow> graph_step d d'"
| dep_link: "task_dep_link st now ctx dreq d = Inr (d', dresp) \<Longrightarrow> graph_step d d'"
| status_set: "task_status_set st now ctx i status v d0 d = Inr (d', resp) \<Longrightarrow> graph_step d d'"
| link_memory: "task_link_memory st now ctx mreq d = Inr (d', mresp) \<Longrightarrow> graph_step d d'"
| relate: "relation_link st now ctx rreq d = Inr (d', rresp) \<Longrightarrow> graph_step d d'"
| elsewhere: "task_rows d' = task_rows d \<Longrightarrow> graph_nodes d' = graph_nodes d \<Longrightarrow>
    relation_rows d' = relation_rows d \<Longrightarrow> graph_step d d'"

inductive graph_reachable :: "db \<Rightarrow> bool" where
  empty: "task_rows d = [] \<Longrightarrow> graph_nodes d = [] \<Longrightarrow> relation_rows d = [] \<Longrightarrow> graph_reachable d"
| call: "graph_reachable d \<Longrightarrow> graph_step d d' \<Longrightarrow> graph_reachable d'"

lemma graph_step_inv: "graph_step d d' \<Longrightarrow> task_inv d \<Longrightarrow> task_inv d'"
proof (induction rule: graph_step.induct)
  case (elsewhere d' d)
  then show ?case using graph_frame [of d' d] nodes_ok_frame [of d' d] by (simp add: task_inv_def deps_ok_def)
qed (blast intro: task_create_inv task_substep_inv task_dep_link_inv task_status_set_inv task_link_memory_inv relation_link_inv)+

lemma graph_reachable_inv: "graph_reachable d \<Longrightarrow> task_inv d"
proof (induction rule: graph_reachable.induct)
  case (empty d)
  then have "dep_edges d env = {}" for env by (auto simp: dep_edges_def dep_rows_def)
  then show ?case using empty
    by (simp add: task_inv_def deps_ok_def graph_ok_def nodes_ok_def dep_acyclic_def acyclic_def)
next
  case (call d d')
  then show ?case by (blast intro: graph_step_inv)
qed

subsection \<open>A small graph\<close>

text \<open>Environment 1, tasks 100 and 102 (in this order), 100 depends on 102.\<close>

definition pg_settings :: settings where
  "pg_settings = \<lparr>vector_backend = ''pgvector'', graph_backend = ''postgres''\<rparr>"

definition demo_ctx :: agent_context where
  "demo_ctx = \<lparr>ctx_agent_id = 9, ctx_session_id = None, ctx_attached_env_ids = [1]\<rparr>"

definition demo_create :: "string \<Rightarrow> int \<Rightarrow> task_create_request" where
  "demo_create title p = \<lparr>tc_env_id = 1, tc_title = title, tc_description = None, tc_priority = p, tc_playbook_id = None\<rparr>"

definition demo_task :: "uuid \<Rightarrow> string \<Rightarrow> int \<Rightarrow> task" where
  "demo_task i title p = new_task i 1 title None p None 9 0"

definition demo_node :: "uuid \<Rightarrow> uuid \<Rightarrow> graph_node" where
  "demo_node i t = \<lparr>gn_id = i, gn_env_id = 1, gn_type = NT_task, gn_memory_id = None, gn_entity_id = None,
     gn_task_id = Some t\<rparr>"

definition demo_one :: db where
  "demo_one = demo_db0\<lparr>task_rows := [demo_task 100 ''a'' 10], graph_nodes := [demo_node 101 100], uuid_used := 2\<rparr>"

definition demo_two :: db where
  "demo_two = demo_db0\<lparr>task_rows := [demo_task 100 ''a'' 10, demo_task 102 ''b'' 20],
     graph_nodes := [demo_node 101 100, demo_node 103 102], uuid_used := 4\<rparr>"

definition demo_linked :: db where
  "demo_linked = demo_two\<lparr>relation_rows := [new_relation 104 1 (demo_node 101 100) (demo_node 103 102) ''depends_on'' [] 0],
     uuid_used := 5\<rparr>"

lemmas task_demo = pg_settings_def demo_ctx_def demo_create_def demo_task_def demo_node_def demo_one_def demo_two_def
  demo_linked_def demo_db0_def demo_env_def empty_db_def new_task_def

lemmas task_code = task_create_def assert_env_visible_def check_playbook_def insert_task_def task_violation_def
  env_exists_def ensure_task_graph_node_def insert_graph_node_def node_violation_def draw_uuid_def next_uuid_def
  enqueue_task_def enqueue_event_def resolve_sinks_for_def task_to_response_def Let_def

lemma demo_one_run:
  "task_create pg_settings 0 demo_ctx (demo_create ''a'' 10) demo_db0 = Inr (demo_one, task_to_response (demo_task 100 ''a'' 10))"
  by (simp add: task_code task_demo)

lemma demo_two_run:
  "task_create pg_settings 0 demo_ctx (demo_create ''b'' 20) demo_one = Inr (demo_two, task_to_response (demo_task 102 ''b'' 20))"
  by (simp add: task_code task_demo)

definition demo_dep :: "uuid \<Rightarrow> uuid \<Rightarrow> task_relation_request" where
  "demo_dep a b = \<lparr>tq_src_task_id = a, tq_dst_task_id = b, tq_type = RK_depends_on\<rparr>"

lemmas link_code = task_dep_link_def load_task_def would_cycle_def new_deps_def dep_rows_def insert_relation_def
  find_relation_def insert_relation_row_def relation_violation_def enqueue_relation_def new_relation_def

lemma demo_linked_run:
  "task_dep_link pg_settings 0 demo_ctx (demo_dep 100 102) demo_two =
     Inr (demo_linked, \<lparr>tp_src_task_id = 100, tp_dst_task_id = 102, tp_type = RK_depends_on, tp_created_at = 0\<rparr>)"
  by (simp add: link_code task_code task_demo demo_dep_def)

lemma demo_graph_reachable: "graph_reachable demo_two" "graph_reachable demo_linked"
proof -
  have "graph_reachable demo_db0" by (rule graph_reachable.empty) (simp_all add: demo_db0_def empty_db_def)
  then show "graph_reachable demo_two"
    using demo_one_run demo_two_run by (blast intro: graph_reachable.call graph_step.create)
  then show "graph_reachable demo_linked"
    using demo_linked_run by (blast intro: graph_reachable.call graph_step.dep_link)
qed

subsection \<open>Properties\<close>

text \<open>C21: The cycle test before a dependency is added decides reachability: it answers yes exactly
  when the proposed source can already be reached from the proposed target along the
  dependencies of the environment.\<close>

theorem would_cycle_decides_reachability:
  "would_cycle d env src dst \<longleftrightarrow> (dst, src) \<in> (dep_edges d env)\<^sup>*"
  by (rule would_cycle_iff)

text \<open>C2: After any sequence of tool calls (task creation, sub-steps, dependency links, status
  changes, memory links and generic relation links) the dependencies between the tasks of every
  environment have no cycle.\<close>

theorem dependencies_stay_acyclic:
  "graph_reachable d \<Longrightarrow> acyclic (dep_edges d env)"
  using graph_reachable_inv by (simp add: task_inv_def deps_ok_def dep_acyclic_def)

lemma demo_edge: "(100, 102) \<in> dep_edges demo_linked 1"
  by (simp add: dep_edges_def dep_rows_def new_relation_def task_demo)

lemma dependencies_stay_acyclic_witness:
  "acyclic (dep_edges demo_linked 1) \<and> (100, 102) \<in> dep_edges demo_linked 1"
  using dependencies_stay_acyclic [OF demo_graph_reachable(2)] demo_edge by blast

lemma insert_relation_present:
  assumes "graph_ok d" "s \<in> set (graph_nodes d)" "t \<in> set (graph_nodes d)" "gn_env_id s = env"
    and "gn_task_id s = Some a" "gn_task_id t = Some b" and "insert_relation now env s t RK_depends_on d = Inr (d', r, c)"
  shows "(a, b) \<in> dep_edges d' env"
proof -
  have ty: "gn_type s = NT_task" "gn_type t = NT_task"
    using assms(1-3,5,6) by (auto simp: graph_ok_def node_shape_def)
  have "r \<in> set (relation_rows d') \<and> graph_nodes d' = graph_nodes d \<and> r_src_node_id r = gn_id s \<and>
      r_dst_node_id r = gn_id t \<and> r_type r = ''depends_on'' \<and> r_env_id r = env"
  proof (cases "find_relation d (gn_id s) (gn_id t) ''depends_on''")
    case None
    then show ?thesis
      using assms(7) insert_relation_cases(1) by (fastforce simp: insert_relation_def Let_def res_simps)
  next
    case (Some r0)
    have r0: "r0 \<in> set (relation_rows d)" "r_src_node_id r0 = gn_id s" "r_dst_node_id r0 = gn_id t" "r_type r0 = ''depends_on''"
      using find_SomeD [OF Some [unfolded find_relation_def]] by simp_all
    have "r_env_id r0 = env" using node_of_link [OF assms(1) r0(1) assms(2)] r0(2) assms(4) by simp
    then show ?thesis using assms(7) Some r0 by (simp add: insert_relation_def)
  qed
  then show ?thesis unfolding dep_edges_iff dep_link_def using assms(2-6) ty by metis
qed

text \<open>A dependency link that succeeds adds the requested edge and no other, in the environment of
  its tasks only; it never succeeds when the source is reachable from the target.\<close>

lemma task_dep_link_adds_one_edge:
  assumes "graph_reachable d" and "lookup t_id (tq_src_task_id req) (task_rows d) = Some t"
  shows "case task_dep_link st now ctx req d of
      Inl _ \<Rightarrow> True
    | Inr (d', _) \<Rightarrow>
        dep_edges d' (t_env_id t) = insert (tq_src_task_id req, tq_dst_task_id req) (dep_edges d (t_env_id t)) \<and>
        (tq_dst_task_id req, tq_src_task_id req) \<notin> (dep_edges d (t_env_id t))\<^sup>* \<and>
        (\<forall>e. e = t_env_id t \<or> dep_edges d' e = dep_edges d e)"
proof (cases "task_dep_link st now ctx req d")
  case (Inl e)
  then show ?thesis by simp
next
  case (Inr p)
  obtain d' resp where p: "p = (d', resp)" by (cases p)
  have op: "task_dep_link st now ctx req d = Inr (d', resp)" using Inr p by simp
  have inv: "task_inv d" using graph_reachable_inv assms(1) .
  then have ok: "deps_ok d" by (simp add: task_inv_def)
  obtain env sn dn d1 d2 d3 r b where
    st: "ensure_task_graph_node env (tq_src_task_id req) d = Inr (d1, sn)"
      "ensure_task_graph_node env (tq_dst_task_id req) d1 = Inr (d2, dn)"
      "\<not> would_cycle d2 env (tq_src_task_id req) (tq_dst_task_id req)"
      "insert_relation now env sn dn RK_depends_on d2 = Inr (d3, r, b)"
      "(if b then enqueue_relation st now r sn dn OP_upsert d3 else Inr d3) = Inr d'"
    and src: "\<exists>s. lookup t_id (tq_src_task_id req) (task_rows d) = Some s \<and> t_env_id s = env"
    by (rule task_dep_link_steps [OF op])
  have env: "env = t_env_id t" using src assms(2) by simp
  note n1 = ensure_task_node_same [OF task_inv_graph [OF inv] st(1)]
  note n2 = ensure_task_node_same [OF same_deps_ok [OF n1(1)] st(2)]
  have sn: "sn \<in> set (graph_nodes d2)" using n1(2) n2(1) by (auto simp: same_deps_def graph_grows_def)
  note ins = relation_insert_graph [OF same_deps_ok [OF n2(1)] sn n2(2) disjI1 [OF st(4)]]
  have last: "same_deps d3 d'"
    by (rule enqueue_created_same [OF _ st(5)]) (use ins(1) in \<open>simp add: graph_grows_def\<close>)
  have e2: "dep_edges d2 = dep_edges d" using n1(1) n2(1) by (simp add: same_deps_def)
  have "(tq_src_task_id req, tq_dst_task_id req) \<in> dep_edges d' env"
    using insert_relation_present [OF same_deps_ok [OF n2(1)] sn n2(2) n1(3) n1(4) n2(4) st(4)] last
    by (simp add: same_deps_def)
  then show ?thesis
    using task_dep_link_deps(2) [OF ok op] assms(2) st(3) e2
    by (auto simp: op env would_cycle_iff split: if_splits)
qed

lemma task_dep_link_adds_one_edge_witness:
  "dep_edges demo_linked 1 = insert (100, 102) (dep_edges demo_two 1)"
  using task_dep_link_adds_one_edge [OF demo_graph_reachable(1), of "demo_dep 100 102" "demo_task 100 ''a'' 10" pg_settings 0 demo_ctx]
  by (simp add: demo_linked_run) (simp add: demo_dep_def task_demo)

text \<open>C12: The next task of an environment is a pending task all of whose dependencies are done or
  cancelled, and the first such task by priority, then creation time, then id; none is returned
  only when there is no such task.\<close>

theorem task_next_is_first_unblocked:
  assumes "graph_reachable d" and "task_next ctx env d = Inr x"
  shows "case x of None \<Rightarrow> \<not> (\<exists>t. unblocked d env t)
    | Some r \<Rightarrow> (\<exists>t. r = task_to_response t \<and> unblocked d env t \<and>
        (\<forall>t'. unblocked d env t' \<longrightarrow> task_order t \<le> task_order t'))"
  using task_next_first [OF graph_reachable_inv] assms by blast

lemma task_next_is_first_unblocked_witness:
  "task_next demo_ctx 1 demo_linked = Inr (Some (task_to_response (demo_task 102 ''b'' 20))) \<and>
   unblocked demo_linked 1 (demo_task 102 ''b'' 20)"
proof
  show run: "task_next demo_ctx 1 demo_linked = Inr (Some (task_to_response (demo_task 102 ''b'' 20)))"
    by (simp add: task_next_def assert_env_visible_def ready_rows_def has_open_dep_def terminal_dep_status_def
        new_relation_def task_demo)
  obtain t where "task_to_response (demo_task 102 ''b'' 20) = task_to_response t" "unblocked demo_linked 1 t"
    using task_next_is_first_unblocked [OF demo_graph_reachable(2) run] by auto
  moreover from this have "t_id t = 102" by (simp add: task_to_response_def demo_task_def new_task_def)
  moreover have "t \<in> set (task_rows demo_linked)" using calculation(2) by (simp add: unblocked_def)
  then have "t = demo_task 100 ''a'' 10 \<or> t = demo_task 102 ''b'' 20" by (simp add: demo_linked_def demo_two_def)
  moreover have "t_id (demo_task 100 ''a'' 10) = 100" by (simp add: demo_task_def new_task_def)
  ultimately show "unblocked demo_linked 1 (demo_task 102 ''b'' 20)" by auto
qed

text \<open>C13: Following the cursors of \<open>task_list\<close> from the first page lists every task that matches the
  request exactly once, ordered by priority, creation time and id, in pages of at most the
  requested size.\<close>

theorem task_list_pages_complete:
  assumes "listing_valid (ctx, req, d)" and "length (task_rows d) < n"
  shows "concat (walk_pages (listing_fetch (ctx, req, d)) n None) =
      map task_to_response (sort_key task_order (filter (task_list_filter req) (task_rows d))) \<and>
    (\<forall>p \<in> set (walk_pages (listing_fetch (ctx, req, d)) n None). length p \<le> tl_limit req)"
proof -
  have "length (listing_rows (ctx, req, d)) < n"
    using assms(2) by (simp add: listing_rows_def le_less_trans [OF length_filter_le])
  then show ?thesis
    using task_pages.walk_complete [OF assms(1)] by (simp add: listing_rows_def listing_limit_def)
qed

definition demo_list :: task_list_request where
  "demo_list = \<lparr>tl_env_id = 1, tl_status = None, tl_priority_max = None, tl_cursor = None, tl_limit = 1\<rparr>"

lemma task_list_pages_complete_witness:
  "concat (walk_pages (listing_fetch (demo_ctx, demo_list, demo_two)) 3 None) =
     [task_to_response (demo_task 100 ''a'' 10), task_to_response (demo_task 102 ''b'' 20)]"
  using task_list_pages_complete [of demo_ctx demo_list demo_two 3]
  by (simp add: listing_valid_def demo_list_def assert_env_visible_def task_list_filter_def task_order_def task_demo)

text \<open>C14: The subtree view lists no task twice, stays within both caps, lists only tasks the root
  depends on directly or indirectly, and lists all of them unless it says it was truncated.\<close>

theorem task_tree_lists_the_subtree:
  assumes "graph_reachable d" and "task_tree ctx i max_depth max_nodes d = Inr r"
  shows "distinct (map tt_task_id (tt_lines r)) \<and> int (length (tt_lines r)) \<le> max_nodes \<and>
    (\<forall>l \<in> set (tt_lines r). int (tt_depth l) \<le> max_depth) \<and>
    (\<exists>t. lookup t_id i (task_rows d) = Some t \<and>
      tt_task_id ` set (tt_lines r) \<subseteq> (dep_edges d (t_env_id t))\<^sup>* `` {i} \<and>
      (\<not> tt_truncated r \<longrightarrow> tt_task_id ` set (tt_lines r) = (dep_edges d (t_env_id t))\<^sup>* `` {i}))"
  using task_tree_lines [OF assms(2)] child_edges_deps [OF graph_reachable_inv [OF assms(1)]] by simp

lemmas tree_code = task_tree_def load_task_def require_env_attached_def task_tree_children_def task_tree_line_def
  new_relation_def Let_def

lemma task_tree_lists_the_subtree_witness:
  "\<exists>r. task_tree demo_ctx 100 10 200 demo_linked = Inr r \<and> map tt_task_id (tt_lines r) = [100, 102] \<and>
     {100, 102} = (dep_edges demo_linked 1)\<^sup>* `` {100}"
proof -
  obtain r where r: "task_tree demo_ctx 100 10 200 demo_linked = Inr r" "map tt_task_id (tt_lines r) = [100, 102]"
      "\<not> tt_truncated r"
    by (simp add: tree_code task_demo numeral_eq_Suc)
  have "set (map tt_task_id (tt_lines r)) = (dep_edges demo_linked 1)\<^sup>* `` {100}"
    using task_tree_lists_the_subtree [OF demo_graph_reachable(2) r(1)] r(3) by (auto simp: task_demo)
  then show ?thesis using r(1,2) by auto
qed

definition cap_children :: "uuid \<Rightarrow> task list" where
  "cap_children i = (if i = 1 then [demo_task 2 ''b'' 1, demo_task 3 ''c'' 2]
     else if i = 2 then [demo_task 4 ''d'' 1] else [])"

text \<open>Reaching the depth cap anywhere ends the whole view: with a depth cap of 1, a root with two
  children of which the first has a child of its own is listed without the second child, although
  that one lies within both caps.\<close>

lemma task_tree_depth_cap_drops_siblings:
  "\<exists>s. visit_task cap_children 200 1 0 (demo_task 1 ''a'' 1) \<lparr>ts_lines = [], ts_visited = {}, ts_truncated = False\<rparr> = (s, False) \<and>
     map tt_task_id (ts_lines s) = [1, 2] \<and> ts_truncated s \<and> demo_task 3 ''c'' 2 \<in> set (cap_children 1)"
  by (simp add: cap_children_def task_tree_line_def demo_task_def new_task_def Let_def)

text \<open>C19: Under any interleaving of status changes, where each call may have checked the transition
  against an older committed state than the one it updates, every committed change of a task is a
  permitted move, and a task that is done or cancelled keeps that status for ever.\<close>

theorem task_status_history:
  assumes "task_history h"
  shows "successively (\<lambda>d d'. status_move (status_of i d) (status_of i d')) h \<and>
    (\<forall>k j s. k \<le> j \<and> j < length h \<and> status_of i (h ! k) = Some s \<and> (s = TS_done \<or> s = TS_cancelled)
       \<longrightarrow> status_of i (h ! j) = Some s)"
proof (intro conjI allI impI)
  show moves: "successively (\<lambda>d d'. status_move (status_of i d) (status_of i d')) h"
    using task_history_ok [OF assms] by (simp add: history_ok_def)
  fix k j s assume a: "k \<le> j \<and> j < length h \<and> status_of i (h ! k) = Some s \<and> (s = TS_done \<or> s = TS_cancelled)"
  have k: "k \<le> j" "j < length h" "status_of i (h ! k) = Some s" and "s = TS_done \<or> s = TS_cancelled"
    using a by blast+
  then have "task_transitions s = {}" by (elim disjE) simp_all
  with k show "status_of i (h ! j) = Some s" by (rule status_frozen_later [OF moves])
qed

definition demo_done :: db where
  "demo_done = demo_one\<lparr>task_rows := [set_status TS_cancelled 2 7 (demo_task 100 ''a'' 10)]\<rparr>"

lemma demo_done_run:
  "task_status_set pg_settings 7 demo_ctx 100 TS_cancelled 1 demo_one demo_one =
     Inr (demo_done, task_to_response (set_status TS_cancelled 2 7 (demo_task 100 ''a'' 10)))"
  by (simp add: task_status_set_def task_status_check_def load_task_def assert_env_visible_def is_valid_task_transition_def
      task_status_commit_def set_status_def demo_done_def enqueue_task_def enqueue_event_def resolve_sinks_for_def
      task_demo Let_def)

lemma task_status_history_witness:
  "status_of 100 demo_done = Some TS_cancelled \<and>
   successively (\<lambda>d d'. status_move (status_of 100 d) (status_of 100 d')) [demo_one, demo_done]"
proof -
  have "task_history ([demo_one] @ [demo_done])"
    by (rule task_history.change [OF task_history.start [of demo_one]]) (use demo_done_run in simp_all)
  then show ?thesis
    using task_status_history [of "[demo_one, demo_done]" 100]
    by (simp add: demo_done_def status_of_def set_status_def demo_task_def new_task_def)
qed

text \<open>Of two status changes that read the same version of a task at most one commits, whatever
  other changes are committed in between; the other raises.\<close>

lemma task_status_one_winner:
  assumes "status_writer a i v d = Inr (d1, r)"
    and "(\<lambda>d d'. \<exists>a k v b. status_writer a k v d = Inr (d', b))\<^sup>*\<^sup>* d1 d2"
  shows "\<exists>e. status_writer b i v d2 = Inl e"
  using assms by (rule task_lock.one_winner)

lemma task_status_one_winner_witness:
  "\<exists>e. status_writer (pg_settings, 8, demo_ctx, TS_in_progress, demo_one) 100 1 demo_done = Inl e"
proof -
  have "status_writer (pg_settings, 7, demo_ctx, TS_cancelled, demo_one) 100 1 demo_one
      = Inr (demo_done, task_to_response (set_status TS_cancelled 2 7 (demo_task 100 ''a'' 10)))"
    by (simp add: status_writer_def demo_done_run)
  from task_status_one_winner [OF this rtranclp.rtrancl_refl] show ?thesis .
qed

lemma browse_hit_kinds:
  assumes "graph_ok d" "row \<in> set (joined_relations d)" "browse_hit row = Some h"
  shows "rh_src_kind h \<noteq> NT_task \<and> rh_dst_kind h \<noteq> NT_task"
proof -
  obtain r s t where row: "row = (r, s, t)" "s \<in> set (graph_nodes d)" "t \<in> set (graph_nodes d)"
    using assms(2) by (auto simp: joined_relations_def split: if_splits)
  then have "node_shape s" "node_shape t" using assms(1) by (simp_all add: graph_ok_def)
  then show ?thesis
    using assms(3) row(1) by (auto simp: browse_hit_def node_shape_def Let_def split: option.splits if_splits)
qed

text \<open>\<open>relation_browse\<close> never shows a relation that has a task at either end, even when the
  request asks for task endpoints: such rows are selected and counted in the page and then dropped.\<close>

lemma relation_browse_hides_task_relations:
  assumes "graph_reachable d" and "relation_browse fingerprint ctx req d = Inr resp" and "h \<in> set (rp_hits resp)"
  shows "rh_src_kind h \<noteq> NT_task \<and> rh_dst_kind h \<noteq> NT_task"
proof -
  have "\<exists>row \<in> set (joined_relations d). browse_hit row = Some h" using browse_hits_rows [OF assms(2,3)] by blast
  then show ?thesis using browse_hit_kinds [OF task_inv_graph [OF graph_reachable_inv [OF assms(1)]]] by blast
qed

definition demo_browse :: relation_browse_request where
  "demo_browse = \<lparr>rb_env_ids = None, rb_types = None, rb_src_kind = Some NT_task, rb_dst_kind = None, rb_src_id = None,
     rb_dst_id = None, rb_created_after = None, rb_descending = True, rb_limit = 100, rb_cursor = None\<rparr>"

lemma relation_browse_hides_task_relations_witness:
  "\<exists>resp. relation_browse (\<lambda>_ _. ''f'') demo_ctx demo_browse demo_linked = Inr resp \<and> rp_hits resp = [] \<and>
     length (joined_relations demo_linked) = 1"
proof -
  obtain resp where r: "relation_browse (\<lambda>_ _. ''f'') demo_ctx demo_browse demo_linked = Inr resp"
    by (simp add: relation_browse_def browse_cursor_def demo_browse_def resolve_browse_env_ids_def demo_ctx_def Let_def)
  have one: "length (joined_relations demo_linked) = 1"
    by (simp add: joined_relations_def new_relation_def task_demo)
  have "h \<notin> set (rp_hits resp)" for h
  proof
    assume h: "h \<in> set (rp_hits resp)"
    obtain row where "browse_hit row = Some h" "browse_matches demo_browse (resolve_browse_env_ids None demo_ctx) row"
      using browse_hits_rows [OF r h] by (auto simp: demo_browse_def)
    then have "rh_src_kind h = NT_task"
      by (auto simp: browse_matches_def endpoint_matches_def browse_hit_def demo_browse_def Let_def
          split: option.splits if_splits prod.splits)
    then show False using relation_browse_hides_task_relations [OF demo_graph_reachable(2) r h] by simp
  qed
  then have "rp_hits resp = []" by (metis list.set_intros(1) neq_Nil_conv)
  then show ?thesis using r one by blast
qed

end
