(* ===== verification/Decisions.thy ===== *)
theory Decisions
  imports Store
begin

text \<open>
  Structured metadata of decision memories: the schema \<open>DecisionMeta\<close> of
  \<open>memory_mcp_schemas/decisions.py\<close> with its validators, its JSON dump, the check against
  the database and the ADR export of \<open>memory_mcp/decisions/api.py\<close>, and the markdown template
  of \<open>memory_mcp/decisions/template.py\<close>. In a payload the value of
  \<open>superseded_by\<close> is \<open>JUuid\<close> when it is a UUID or a text that spells one; every other text is \<open>JStr\<close>,
  whatever it spells, and a UUID object where a text belongs is refused, as Pydantic does. The main lemma is that a dump validates to the value it came from.
\<close>

record decision_meta =
  dm_status :: decision_status
  dm_rationale :: string
  dm_constraints :: "string list"
  dm_consequences :: "string list option"
  dm_superseded_by :: "uuid option"

fun decision_status_value :: "decision_status \<Rightarrow> string" where
  "decision_status_value DS_proposed = ''proposed''"
| "decision_status_value DS_accepted = ''accepted''"
| "decision_status_value DS_deprecated = ''deprecated''"
| "decision_status_value DS_superseded = ''superseded''"

definition parse_decision_status :: "json \<Rightarrow> decision_status option" where
  "parse_decision_status v =
     find (\<lambda>s. v = JStr (decision_status_value s)) [DS_proposed, DS_accepted, DS_deprecated, DS_superseded]"

subsection \<open>Validation\<close>

text \<open>The field validators: \<open>None\<close> is a \<open>ValidationError\<close>.\<close>

definition rationale_non_empty :: "json \<Rightarrow> string option" where
  "rationale_non_empty v = (case v of JStr s \<Rightarrow> if strip s = [] then None else Some (strip s) | _ \<Rightarrow> None)"

fun stripped_entries :: "json list \<Rightarrow> string list option" where
  "stripped_entries [] = Some []"
| "stripped_entries (v # vs) =
     (case rationale_non_empty v of None \<Rightarrow> None
      | Some s \<Rightarrow> map_option (\<lambda>ss. s # ss) (stripped_entries vs))"

definition parse_string_list :: "json \<Rightarrow> string list option" where
  "parse_string_list v = (case v of JList vs \<Rightarrow> stripped_entries vs | _ \<Rightarrow> None)"

definition parse_consequences :: "json \<Rightarrow> string list option option" where
  "parse_consequences v = (case v of JNull \<Rightarrow> Some None | _ \<Rightarrow> map_option Some (parse_string_list v))"

definition parse_uuid_or_null :: "json \<Rightarrow> uuid option option" where
  "parse_uuid_or_null v = (case v of JNull \<Rightarrow> Some None | JUuid i \<Rightarrow> Some (Some i) | _ \<Rightarrow> None)"

definition decision_keys :: "string list" where
  "decision_keys = [''status'', ''rationale'', ''constraints'', ''consequences'', ''superseded_by'']"

definition status_superseded_by_coupling :: "decision_meta \<Rightarrow> bool" where
  "status_superseded_by_coupling m \<longleftrightarrow>
     (if dm_status m = DS_superseded then dm_superseded_by m \<noteq> None else dm_superseded_by m = None)"

text \<open>\<open>DecisionMeta.model_validate\<close>: unknown keys are forbidden, all but \<open>consequences\<close> required.\<close>

definition decision_model_validate :: "payload \<Rightarrow> decision_meta option" where
  "decision_model_validate p =
     (if \<not> list_all (\<lambda>kv. fst kv \<in> set decision_keys) p then None
      else case map_of p ''status'' of None \<Rightarrow> None | Some v1 \<Rightarrow>
        (case parse_decision_status v1 of None \<Rightarrow> None | Some status \<Rightarrow>
        (case map_of p ''rationale'' of None \<Rightarrow> None | Some v2 \<Rightarrow>
        (case rationale_non_empty v2 of None \<Rightarrow> None | Some rationale \<Rightarrow>
        (case map_of p ''constraints'' of None \<Rightarrow> None | Some v3 \<Rightarrow>
        (case parse_string_list v3 of None \<Rightarrow> None | Some cs \<Rightarrow>
        (case parse_consequences (jget p ''consequences'') of None \<Rightarrow> None | Some qs \<Rightarrow>
        (case map_of p ''superseded_by'' of None \<Rightarrow> None | Some v4 \<Rightarrow>
        (case parse_uuid_or_null v4 of None \<Rightarrow> None | Some successor \<Rightarrow>
           let m = \<lparr>dm_status = status, dm_rationale = rationale, dm_constraints = cs,
                    dm_consequences = qs, dm_superseded_by = successor\<rparr> in
           if status_superseded_by_coupling m then Some m else None)))))))))"

text \<open>\<open>model_dump(mode="json")\<close>\<close>

definition decision_model_dump :: "decision_meta \<Rightarrow> payload" where
  "decision_model_dump m =
     [(''status'', JStr (decision_status_value (dm_status m))),
      (''rationale'', JStr (dm_rationale m)),
      (''constraints'', JList (map JStr (dm_constraints m))),
      (''consequences'', opt_json (\<lambda>cs. JList (map JStr cs)) (dm_consequences m)),
      (''superseded_by'', opt_json JUuid (dm_superseded_by m))]"

subsection \<open>Against the database\<close>

definition validate_decision_meta :: "payload option \<Rightarrow> uuid \<Rightarrow> db \<Rightarrow> decision_meta option res" where
  "validate_decision_meta payload env d =
     (case payload of
        None \<Rightarrow> Inr None
      | Some p \<Rightarrow>
          (case decision_model_validate p of
             None \<Rightarrow> Inl (InvalidInputError ''decision_meta'')
           | Some m \<Rightarrow>
               bindE (case dm_superseded_by m of
                   None \<Rightarrow> Inr ()
                 | Some j \<Rightarrow> raise_if (\<not> list_ex (\<lambda>t. m_id t = j \<and> m_env_id t = env \<and> m_kind t = MK_decision) (memories d))
                     (InvalidInputError ''superseded_by''))
                 (\<lambda>_. Inr (Some m))))"

subsection \<open>ADR export\<close>

definition nl :: string where "nl = [CHR 0x0A]"

text \<open>\<open>"\n".join(f"- {item}" for item in items)\<close>\<close>

fun bullet_lines :: "string list \<Rightarrow> string" where
  "bullet_lines [] = []"
| "bullet_lines [x] = ''- '' @ x"
| "bullet_lines (x # xs) = ''- '' @ x @ nl @ bullet_lines xs"

text \<open>\<open>uuid_text\<close> is \<open>str(uuid)\<close>. An empty title is false, as a missing one.\<close>

definition memory_title :: "(uuid \<Rightarrow> string) \<Rightarrow> memory \<Rightarrow> string" where
  "memory_title uuid_text m =
     (case m_title m of Some t \<Rightarrow> if t \<noteq> [] then t else ''Decision '' @ uuid_text (m_id m)
      | None \<Rightarrow> ''Decision '' @ uuid_text (m_id m))"

definition render_adr :: "(uuid \<Rightarrow> string) \<Rightarrow> memory \<Rightarrow> decision_meta option \<Rightarrow> string" where
  "render_adr uuid_text m meta =
     (let title = memory_title uuid_text m;
          status = (case meta of Some x \<Rightarrow> decision_status_value (dm_status x) | None \<Rightarrow> ''(unset)'');
          rationale = (case meta of Some x \<Rightarrow> dm_rationale x | None \<Rightarrow> ''_(no rationale captured)_'');
          constraints = (case meta of Some x \<Rightarrow> if dm_constraints x \<noteq> [] then bullet_lines (dm_constraints x) else ''_(none captured)_''
                         | None \<Rightarrow> ''_(none captured)_'');
          consequences = (case meta of
              Some x \<Rightarrow> (case dm_consequences x of
                  Some (c # cs) \<Rightarrow> bullet_lines (c # cs) | _ \<Rightarrow> ''_(none recorded)_'')
            | None \<Rightarrow> ''_(none recorded)_'');
          superseded_by = (case meta of
              Some x \<Rightarrow> (case dm_superseded_by x of Some j \<Rightarrow> uuid_text j | None \<Rightarrow> ''_(none)_'')
            | None \<Rightarrow> ''_(none)_'')
      in (if meta = None
          then ''> **Note:** This decision has no structured metadata. Edit via mem_update to add decision_meta.'' @ nl
          else []) @
         ''# '' @ title @ nl @ nl @
         ''**Status:** '' @ status @ nl @ nl @
         ''## Context'' @ nl @ nl @ m_body m @ nl @ nl @
         ''## Decision'' @ nl @ nl @ rationale @ nl @ nl @
         ''## Consequences'' @ nl @ nl @ consequences @ nl @ nl @
         ''## Constraints'' @ nl @ nl @ constraints @ nl @ nl @
         ''## Superseded By'' @ nl @ nl @ superseded_by)"

record adr_export_response =
  adr_markdown :: string
  adr_status :: "string option"
  adr_memory_id :: uuid

definition adr_export :: "(uuid \<Rightarrow> string) \<Rightarrow> uuid \<Rightarrow> agent_context \<Rightarrow> db \<Rightarrow> adr_export_response res" where
  "adr_export uuid_text i ctx d =
     bindE (some_or (NotFoundError ''memory'' i) (lookup m_id i (memories d))) (\<lambda>m.
     bindE (raise_if (ctx_attached_env_ids ctx \<noteq> [] \<and> m_env_id m \<notin> set (ctx_attached_env_ids ctx))
              (NotFoundError ''memory'' i)) (\<lambda>_.
     bindE (rbac_require ''read'' (Some (m_env_id m)) ctx) (\<lambda>_.
     bindE (raise_if (m_kind m \<noteq> MK_decision) (InvalidInputError ''kind'')) (\<lambda>_.
     bindE (case m_decision_meta m of
              None \<Rightarrow> Inr None
            | Some p \<Rightarrow> bindE (some_or (InvalidInputError ''decision_meta'') (decision_model_validate p))
                         (\<lambda>meta. Inr (Some meta))) (\<lambda>meta.
       Inr \<lparr>adr_markdown = render_adr uuid_text m meta,
            adr_status = map_option (\<lambda>x. decision_status_value (dm_status x)) meta,
            adr_memory_id = m_id m\<rparr>)))))"

subsection \<open>What validation guarantees\<close>

definition stripped_text :: "string \<Rightarrow> bool" where
  "stripped_text s \<longleftrightarrow> s \<noteq> [] \<and> strip s = s"

definition decision_ok :: "decision_meta \<Rightarrow> bool" where
  "decision_ok m \<longleftrightarrow> stripped_text (dm_rationale m) \<and> list_all stripped_text (dm_constraints m) \<and>
     (case dm_consequences m of None \<Rightarrow> True | Some qs \<Rightarrow> list_all stripped_text qs) \<and>
     status_superseded_by_coupling m"

lemma parse_decision_status_value [simp]: "parse_decision_status (JStr (decision_status_value s)) = Some s"
  by (cases s) (simp_all add: parse_decision_status_def)

lemma rationale_stripped: "rationale_non_empty v = Some s \<Longrightarrow> stripped_text s"
  by (auto simp: rationale_non_empty_def stripped_text_def split: json.splits if_splits)

lemma rationale_of_stripped: "stripped_text s \<Longrightarrow> rationale_non_empty (JStr s) = Some s"
  by (simp add: rationale_non_empty_def stripped_text_def)

lemma stripped_entries_ok: "stripped_entries vs = Some ss \<Longrightarrow> list_all stripped_text ss"
  by (induction vs arbitrary: ss) (auto split: option.splits dest: rationale_stripped)

lemma stripped_entries_map: "list_all stripped_text ss \<Longrightarrow> stripped_entries (map JStr ss) = Some ss"
  by (induction ss) (simp_all add: rationale_of_stripped)

lemma parse_string_list_ok: "parse_string_list v = Some ss \<Longrightarrow> list_all stripped_text ss"
  by (auto simp: parse_string_list_def split: json.splits dest: stripped_entries_ok)

lemma parse_consequences_ok: "parse_consequences v = Some (Some ss) \<Longrightarrow> list_all stripped_text ss"
  by (auto simp: parse_consequences_def split: json.splits dest: parse_string_list_ok)

lemma some_caseE: "(case x of None \<Rightarrow> None | Some y \<Rightarrow> f y) = Some z \<Longrightarrow> (\<And>y. x = Some y \<Longrightarrow> f y = Some z \<Longrightarrow> P) \<Longrightarrow> P"
  by (cases x) auto

lemma if_noneE: "(if b then None else x) = Some z \<Longrightarrow> (\<not> b \<Longrightarrow> x = Some z \<Longrightarrow> P) \<Longrightarrow> P"
  by (cases b) auto

lemma if_someE: "(if b then Some x else None) = Some z \<Longrightarrow> (b \<Longrightarrow> z = x \<Longrightarrow> P) \<Longrightarrow> P"
  by (cases b) auto

lemmas decision_splits = some_caseE if_noneE if_someE

lemma validate_decision_ok: "decision_model_validate p = Some m \<Longrightarrow> decision_ok m"
  unfolding decision_model_validate_def decision_ok_def Let_def
  by (elim decision_splits) (auto split: option.split dest: rationale_stripped parse_string_list_ok parse_consequences_ok)

lemma validate_dump: "decision_ok m \<Longrightarrow> decision_model_validate (decision_model_dump m) = Some m"
  by (cases m; cases "dm_consequences m"; cases "dm_superseded_by m")
     (simp_all add: Let_def decision_model_validate_def decision_model_dump_def decision_keys_def decision_ok_def
       jget_def opt_json_def parse_consequences_def parse_string_list_def parse_uuid_or_null_def
       rationale_of_stripped stripped_entries_map)

text \<open>C20: Validated decision metadata round-trips: what \<open>decision_meta\<close> validation accepts is
  stripped and coupled (a successor exactly for a superseded decision), and its stored JSON dump
  validates again to the same value.\<close>

theorem decision_meta_round_trip:
  assumes "validate_decision_meta (Some p) env d = Inr (Some m)"
  shows "decision_ok m \<and> decision_model_validate (decision_model_dump m) = Some m"
proof -
  have "decision_model_validate p = Some m"
    using assms by (auto simp: validate_decision_meta_def res_simps split: option.splits)
  then show ?thesis by (intro conjI validate_dump validate_decision_ok)
qed

lemma decision_meta_round_trip_witness:
  "\<exists>m. validate_decision_meta (Some [(''status'', JStr ''accepted''), (''rationale'', JStr '' why ''),
      (''constraints'', JList [JStr ''cheap '']), (''superseded_by'', JNull)]) 1 (empty_db id) = Inr (Some m) \<and>
     dm_rationale m = ''why'' \<and> decision_model_validate (decision_model_dump m) = Some m"
proof -
  let ?p = "[(''status'', JStr ''accepted''), (''rationale'', JStr '' why ''),
      (''constraints'', JList [JStr ''cheap '']), (''superseded_by'', JNull)]"
  let ?m = "\<lparr>dm_status = DS_accepted, dm_rationale = ''why'', dm_constraints = [''cheap''],
      dm_consequences = None, dm_superseded_by = None\<rparr>"
  have "validate_decision_meta (Some ?p) 1 (empty_db id) = Inr (Some ?m)"
    by (simp add: validate_decision_meta_def decision_model_validate_def decision_keys_def jget_def
        parse_decision_status_def rationale_non_empty_def parse_string_list_def parse_consequences_def
        parse_uuid_or_null_def strip_def is_space_def status_superseded_by_coupling_def)
  from this decision_meta_round_trip [OF this] show ?thesis by (intro exI [of _ ?m]) simp
qed

end
