(* ===== verification/Salience.thy ===== *)
theory Salience
  imports Complex_Main Prelude
begin

text \<open>
  Salience scoring, \<open>memory_mcp/dream/salience.py\<close>, with the settings it reads from
  \<open>memory_mcp/config.py\<close>. Python floats are real numbers here: rounding is left out. The
  lemmas bound every term of the formula, give its monotonicity in each input, and prove the
  dominance property of the module's documentation for the default weights.
\<close>

text \<open>The counters of inbound citations a memory row carries; database triggers maintain them.\<close>

record reference_columns =
  rc_rel_link :: int
  rc_lineage :: int
  rc_task :: int
  rc_playbook :: int
  rc_authority :: real

record salience_inputs =
  si_access_count :: int
  si_last_accessed_at :: "time option"
  si_confidence :: real
  si_pinned :: bool
  si_negative_feedback_count :: int
  si_verified_at :: "time option"
  si_created_at :: time
  si_references :: reference_columns

record salience_weights =
  w_access :: real
  w_recency :: real
  w_confidence :: real
  w_negative :: real
  pinned_bonus :: real
  verified_bonus :: real
  access_window :: int
  recency_tau_seconds :: int
  verified_tau_seconds :: int
  w_references :: real
  w_references_rl :: real
  w_references_ln :: real
  w_references_tk :: real
  w_references_pb :: real
  window_rl :: int
  window_ln :: int
  window_tk :: int
  window_pb :: int
  w_authority :: real
  authority_window :: real
  floor_recency_from_created :: bool

record dream_settings =
  dream_salience_weights :: salience_weights
  dream_popularity_authority_weighted :: bool
  dream_decay_inactive_days :: int
  dream_decay_stale_threshold :: real
  dream_decay_archive_threshold :: real
  dream_decay_batch_cap :: nat
  dream_decay_reference_floor :: int

text \<open>
  \<open>dream_salience_weights\<close> holds the \<open>dream_salience_*\<close> settings under the names of the
  weights they are copied to; the authority weight is dropped unless the knob is on.
\<close>

definition salience_weights_from_settings :: "dream_settings \<Rightarrow> salience_weights" where
  "salience_weights_from_settings st =
     (let w = dream_salience_weights st in
      w\<lparr>w_authority := if dream_popularity_authority_weighted st then w_authority w else 0,
        floor_recency_from_created := True\<rparr>)"

definition default_dream_settings :: dream_settings where
  "default_dream_settings = \<lparr>
     dream_salience_weights = \<lparr>w_access = 30/100, w_recency = 25/100, w_confidence = 30/100,
       w_negative = 46/100, pinned_bonus = 30/100, verified_bonus = 10/100, access_window = 100,
       recency_tau_seconds = 7 * 24 * 3600, verified_tau_seconds = 30 * 24 * 3600,
       w_references = 15/100, w_references_rl = 1, w_references_ln = 15/10, w_references_tk = 12/10,
       w_references_pb = 2, window_rl = 50, window_ln = 5, window_tk = 20, window_pb = 10,
       w_authority = 10/100, authority_window = 25, floor_recency_from_created = True\<rparr>,
     dream_popularity_authority_weighted = False, dream_decay_inactive_days = 30,
     dream_decay_stale_threshold = 30/100, dream_decay_archive_threshold = 10/100,
     dream_decay_batch_cap = 500, dream_decay_reference_floor = 3\<rparr>"

subsection \<open>The formula\<close>

definition log1p :: "real \<Rightarrow> real" where
  "log1p x = ln (1 + x)"

definition clamp01 :: "real \<Rightarrow> real" where
  "clamp01 x = (if x < 0 then 0 else if x > 1 then 1 else x)"

text \<open>\<open>None\<close> is \<open>math.inf\<close>.\<close>

definition seconds_since :: "time option \<Rightarrow> time \<Rightarrow> real option" where
  "seconds_since past now = map_option (\<lambda>t. max 0 (of_int (now - t) / 1000000)) past"

definition decay_factor :: "real option \<Rightarrow> int \<Rightarrow> real" where
  "decay_factor delta tau = (case delta of None \<Rightarrow> 0 | Some s \<Rightarrow> exp (- s / of_int (max 1 tau)))"

definition per_kind :: "int \<Rightarrow> int \<Rightarrow> real" where
  "per_kind n window =
     (if window \<le> 0 then 0 else clamp01 (log1p (of_int (max 0 n)) / log1p (of_int (max 1 window))))"

definition references_term :: "reference_columns \<Rightarrow> salience_weights \<Rightarrow> real" where
  "references_term r w =
     (let sum_w = w_references_rl w + w_references_ln w + w_references_tk w + w_references_pb w in
      if sum_w \<le> 0 then 0
      else clamp01 ((w_references_rl w * per_kind (rc_rel_link r) (window_rl w) +
                     w_references_ln w * per_kind (rc_lineage r) (window_ln w) +
                     w_references_tk w * per_kind (rc_task r) (window_tk w) +
                     w_references_pb w * per_kind (rc_playbook r) (window_pb w)) / sum_w))"

definition access_term :: "salience_weights \<Rightarrow> int \<Rightarrow> real" where
  "access_term w n = w_access w *
     min 1 (log1p (of_int (max 0 n)) / log1p (of_int (max 1 (access_window w))))"

definition recency_term :: "salience_weights \<Rightarrow> salience_inputs \<Rightarrow> time \<Rightarrow> real" where
  "recency_term w row now = w_recency w *
     decay_factor
       (if si_last_accessed_at row = None \<and> floor_recency_from_created w
        then seconds_since (Some (si_created_at row)) now
        else seconds_since (si_last_accessed_at row) now)
       (recency_tau_seconds w)"

definition authority_term :: "salience_weights \<Rightarrow> real \<Rightarrow> real" where
  "authority_term w a = w_authority w * clamp01 (log1p (max 0 a) / log1p (max 1 (authority_window w)))"

definition verified_term :: "salience_weights \<Rightarrow> time option \<Rightarrow> time \<Rightarrow> real" where
  "verified_term w v now = (case v of None \<Rightarrow> 0
     | Some t \<Rightarrow> verified_bonus w * decay_factor (seconds_since (Some t) now) (verified_tau_seconds w))"

definition compute_salience :: "salience_inputs \<Rightarrow> time \<Rightarrow> salience_weights \<Rightarrow> real" where
  "compute_salience row now w = clamp01
     (access_term w (si_access_count row)
      + recency_term w row now
      + w_confidence w * clamp01 (si_confidence row)
      - w_negative w * log1p (of_int (max 0 (si_negative_feedback_count row)))
      + w_references w * references_term (si_references row) w
      + authority_term w (rc_authority (si_references row))
      + (if si_pinned row then pinned_bonus w else 0)
      + verified_term w (si_verified_at row) now)"

subsection \<open>Bounds\<close>

lemma clamp01_bounds [simp]: "0 \<le> clamp01 x" "clamp01 x \<le> 1"
  by (simp_all add: clamp01_def)

lemma clamp01_mono: "x \<le> y \<Longrightarrow> clamp01 x \<le> clamp01 y"
  by (simp add: clamp01_def)

lemma clamp01_id: "0 \<le> x \<Longrightarrow> x \<le> 1 \<Longrightarrow> clamp01 x = x"
  by (simp add: clamp01_def)

lemma log1p_nonneg: "0 \<le> x \<Longrightarrow> 0 \<le> log1p x"
  by (simp add: log1p_def)

lemma log1p_pos: "0 < x \<Longrightarrow> 0 < log1p x"
  by (simp add: log1p_def)

lemma log1p_mono: "0 \<le> x \<Longrightarrow> x \<le> y \<Longrightarrow> log1p x \<le> log1p y"
  by (simp add: log1p_def)

lemma decay_factor_bounds:
  assumes "\<And>s. delta = Some s \<Longrightarrow> 0 \<le> s"
  shows "0 \<le> decay_factor delta tau \<and> decay_factor delta tau \<le> 1"
  using assms by (cases delta) (simp_all add: decay_factor_def)

lemma seconds_since_nonneg: "seconds_since p now = Some s \<Longrightarrow> 0 \<le> s"
  by (auto simp: seconds_since_def)

lemma decay_since_bounds: "0 \<le> decay_factor (seconds_since p now) tau"
    "decay_factor (seconds_since p now) tau \<le> 1"
  using decay_factor_bounds [OF seconds_since_nonneg] by auto

lemma per_kind_bounds: "0 \<le> per_kind n w" "per_kind n w \<le> 1"
  by (simp_all add: per_kind_def)

lemma per_kind_mono: "n \<le> m \<Longrightarrow> per_kind n w \<le> per_kind m w"
  unfolding per_kind_def
  by (auto intro!: clamp01_mono divide_right_mono log1p_mono log1p_nonneg)

text \<open>The weights and windows of a configuration the settings model accepts.\<close>

definition weights_ok :: "salience_weights \<Rightarrow> bool" where
  "weights_ok w \<longleftrightarrow> 0 \<le> w_access w \<and> 0 \<le> w_recency w \<and> 0 \<le> w_confidence w \<and> 0 \<le> w_negative w \<and>
     0 \<le> pinned_bonus w \<and> 0 \<le> verified_bonus w \<and> 0 \<le> w_references w \<and> 0 \<le> w_references_rl w \<and>
     0 \<le> w_references_ln w \<and> 0 \<le> w_references_tk w \<and> 0 \<le> w_references_pb w \<and> 0 \<le> w_authority w"

lemma default_weights_ok: "weights_ok (dream_salience_weights default_dream_settings)"
  by (simp add: weights_ok_def default_dream_settings_def)

definition reference_sum :: "reference_columns \<Rightarrow> salience_weights \<Rightarrow> real" where
  "reference_sum r w = w_references_rl w * per_kind (rc_rel_link r) (window_rl w) +
     w_references_ln w * per_kind (rc_lineage r) (window_ln w) +
     w_references_tk w * per_kind (rc_task r) (window_tk w) +
     w_references_pb w * per_kind (rc_playbook r) (window_pb w)"

text \<open>The weighted average is in the unit interval before it is clamped.\<close>

lemma reference_average:
  assumes "weights_ok w"
  defines "sum_w \<equiv> w_references_rl w + w_references_ln w + w_references_tk w + w_references_pb w"
  shows "references_term r w = (if sum_w \<le> 0 then 0 else reference_sum r w / sum_w)"
proof (cases "sum_w \<le> 0")
  case True
  then show ?thesis by (simp add: references_term_def sum_w_def Let_def)
next
  case False
  have "0 \<le> reference_sum r w"
    using assms(1) per_kind_bounds(1) by (simp add: reference_sum_def weights_ok_def)
  moreover have "reference_sum r w \<le> sum_w"
    unfolding reference_sum_def sum_w_def
    by (intro add_mono mult_left_le) (use assms(1) per_kind_bounds(2) in \<open>auto simp: weights_ok_def\<close>)
  ultimately show ?thesis
    using False by (simp add: references_term_def reference_sum_def [symmetric] sum_w_def Let_def clamp01_id)
qed

lemma references_term_bounds [simp]: "0 \<le> references_term r w" "references_term r w \<le> 1"
  by (simp_all add: references_term_def Let_def)

lemma access_norm:
  "0 \<le> log1p (of_int (max 0 n)) / log1p (of_int (max 1 k))"
  by (simp add: log1p_nonneg)

lemma access_term_bounds: "weights_ok w \<Longrightarrow> 0 \<le> access_term w n \<and> access_term w n \<le> w_access w"
  using access_norm [of n "access_window w"]
  by (auto simp: access_term_def weights_ok_def intro!: mult_left_le mult_nonneg_nonneg)

lemma access_term_mono: "weights_ok w \<Longrightarrow> n \<le> m \<Longrightarrow> access_term w n \<le> access_term w m"
  unfolding access_term_def weights_ok_def
  by (intro mult_left_mono min.mono divide_right_mono log1p_mono log1p_nonneg) auto

lemma recency_term_bounds:
  "weights_ok w \<Longrightarrow> 0 \<le> recency_term w row now \<and> recency_term w row now \<le> w_recency w"
  by (auto simp: recency_term_def weights_ok_def decay_since_bounds intro!: mult_left_le)

lemma authority_term_bounds:
  "weights_ok w \<Longrightarrow> 0 \<le> authority_term w a \<and> authority_term w a \<le> w_authority w"
  by (auto simp: authority_term_def weights_ok_def intro!: mult_left_le)

lemma compute_salience_bounds [simp]:
  "0 \<le> compute_salience row now w" "compute_salience row now w \<le> 1"
  by (simp_all add: compute_salience_def)

subsection \<open>Monotonicity\<close>

text \<open>The instant the recency of a row is measured from.\<close>

definition last_use :: "salience_inputs \<Rightarrow> time" where
  "last_use row = (case si_last_accessed_at row of None \<Rightarrow> si_created_at row | Some t \<Rightarrow> t)"

definition used_more :: "salience_inputs \<Rightarrow> salience_inputs \<Rightarrow> bool" where
  "used_more row row' \<longleftrightarrow>
     si_access_count row \<le> si_access_count row' \<and> last_use row \<le> last_use row' \<and>
     si_confidence row \<le> si_confidence row' \<and>
     si_negative_feedback_count row' \<le> si_negative_feedback_count row \<and>
     (si_pinned row \<longrightarrow> si_pinned row') \<and> si_verified_at row' = si_verified_at row"

definition cited_more :: "reference_columns \<Rightarrow> reference_columns \<Rightarrow> bool" where
  "cited_more r r' \<longleftrightarrow> rc_rel_link r \<le> rc_rel_link r' \<and> rc_lineage r \<le> rc_lineage r' \<and>
     rc_task r \<le> rc_task r' \<and> rc_playbook r \<le> rc_playbook r' \<and> rc_authority r \<le> rc_authority r'"

lemma decay_since_mono:
  assumes "a \<le> b"
  shows "decay_factor (seconds_since (Some a) now) tau \<le> decay_factor (seconds_since (Some b) now) tau"
proof -
  have "max 0 (of_int (now - b) / 1000000 :: real) \<le> max 0 (of_int (now - a) / 1000000)"
    using assms by (intro max.mono divide_right_mono) auto
  then show ?thesis
    by (auto simp: decay_factor_def seconds_since_def intro!: divide_right_mono)
qed

lemma recency_term_last_use:
  "floor_recency_from_created w \<Longrightarrow>
   recency_term w row now = w_recency w * decay_factor (seconds_since (Some (last_use row)) now) (recency_tau_seconds w)"
  by (cases "si_last_accessed_at row") (simp_all add: recency_term_def last_use_def)

lemma references_term_mono:
  assumes "weights_ok w" and "cited_more r r'"
  shows "references_term r w \<le> references_term r' w"
proof -
  have "reference_sum r w \<le> reference_sum r' w"
    unfolding reference_sum_def
    by (intro add_mono mult_left_mono per_kind_mono) (use assms in \<open>auto simp: weights_ok_def cited_more_def\<close>)
  then show ?thesis
    using assms(1) by (auto simp: reference_average intro!: divide_right_mono)
qed

lemma authority_term_mono:
  assumes "weights_ok w" and "a \<le> b"
  shows "authority_term w a \<le> authority_term w b"
  unfolding authority_term_def
  by (intro mult_left_mono clamp01_mono divide_right_mono log1p_mono log1p_nonneg)
     (use assms in \<open>auto simp: weights_ok_def\<close>)

lemma compute_salience_mono:
  assumes "weights_ok w" and "floor_recency_from_created w" and "used_more row row'"
    and "cited_more (si_references row) (si_references row')"
  shows "compute_salience row now w \<le> compute_salience row' now w"
proof -
  note u = assms(3) [unfolded used_more_def]
  have "access_term w (si_access_count row) \<le> access_term w (si_access_count row')"
    using access_term_mono [OF assms(1)] u by blast
  moreover have "recency_term w row now \<le> recency_term w row' now"
    using assms(1) u decay_since_mono unfolding recency_term_last_use [OF assms(2)]
    by (intro mult_left_mono) (auto simp: weights_ok_def)
  moreover have "w_confidence w * clamp01 (si_confidence row) \<le> w_confidence w * clamp01 (si_confidence row')"
    using assms(1) u by (intro mult_left_mono clamp01_mono) (auto simp: weights_ok_def)
  moreover have "w_negative w * log1p (of_int (max 0 (si_negative_feedback_count row')))
      \<le> w_negative w * log1p (of_int (max 0 (si_negative_feedback_count row)))"
    using assms(1) u by (intro mult_left_mono log1p_mono) (auto simp: weights_ok_def)
  moreover have "w_references w * references_term (si_references row) w
      \<le> w_references w * references_term (si_references row') w"
    using assms(1) references_term_mono [OF assms(1,4)] by (intro mult_left_mono) (auto simp: weights_ok_def)
  moreover have "authority_term w (rc_authority (si_references row)) \<le> authority_term w (rc_authority (si_references row'))"
    using authority_term_mono [OF assms(1)] assms(4) by (simp add: cited_more_def)
  moreover have "(if si_pinned row then pinned_bonus w else 0) \<le> (if si_pinned row' then pinned_bonus w else 0)"
    using assms(1) u by (auto simp: weights_ok_def)
  moreover have "verified_term w (si_verified_at row) now = verified_term w (si_verified_at row') now"
    using u by simp
  ultimately show ?thesis
    unfolding compute_salience_def by (intro clamp01_mono) linarith
qed

subsection \<open>Properties\<close>

text \<open>Salience is a score in the unit interval, and more use never lowers it: more accesses, a
  later access, more confidence, fewer negative marks, a pin and more citations of any kind leave
  it as it is or raise it.\<close>

lemma salience_monotone:
  assumes "weights_ok w" and "floor_recency_from_created w" and "used_more row row'"
    and "cited_more (si_references row) (si_references row')"
  shows "0 \<le> compute_salience row now w \<and> compute_salience row now w \<le> compute_salience row' now w \<and>
    compute_salience row' now w \<le> 1"
  using compute_salience_mono [OF assms] by simp

definition demo_inputs :: salience_inputs where
  "demo_inputs = \<lparr>si_access_count = 100, si_last_accessed_at = Some 0, si_confidence = 0, si_pinned = False,
     si_negative_feedback_count = 5, si_verified_at = None, si_created_at = 0,
     si_references = \<lparr>rc_rel_link = 50, rc_lineage = 5, rc_task = 20, rc_playbook = 10, rc_authority = 25\<rparr>\<rparr>"

lemma salience_monotone_witness:
  "compute_salience demo_inputs 0 (dream_salience_weights default_dream_settings) \<le>
   compute_salience (demo_inputs\<lparr>si_negative_feedback_count := 0\<rparr>) 0 (dream_salience_weights default_dream_settings)"
proof -
  have "floor_recency_from_created (dream_salience_weights default_dream_settings)"
    by (simp add: default_dream_settings_def)
  then show ?thesis
    using salience_monotone [OF default_weights_ok, of demo_inputs "demo_inputs\<lparr>si_negative_feedback_count := 0\<rparr>" 0]
    by (simp add: used_more_def cited_more_def demo_inputs_def last_use_def)
qed

lemma ln_six: "174/100 \<le> ln (6::real)"
proof -
  have "exp (1/32 :: real) ^ 32 \<le> (1 + 1/32 + (1/32)^2) ^ 32"
    by (intro power_mono exp_bound) auto
  also have "\<dots> \<le> 277/100" by (simp add: power_divide field_simps)
  finally have "exp 1 \<le> (277/100 :: real)" by (simp add: exp_of_nat_mult [symmetric])
  then have "exp 1 ^ 87 \<le> (277/100 :: real) ^ 87"
    by (intro power_mono) auto
  also have "\<dots> \<le> 6 ^ 50" by (simp add: power_divide divide_le_eq)
  finally have "exp (87 :: real) \<le> 6 ^ 50" by (simp add: exp_of_nat_mult [symmetric])
  then have "87 \<le> ln (6 ^ 50 :: real)" by (subst ln_ge_iff) simp_all
  also have "ln (6 ^ 50 :: real) = 50 * ln 6" by (subst ln_realpow) simp_all
  finally show ?thesis by simp
qed

text \<open>Five negative marks dominate: with the default weights and whether or not the authority
  knob is on, a memory with no confidence that is neither pinned nor verified has salience 0 once
  it has five of them, however often and recently it is used and however much it is cited.\<close>

lemma negative_feedback_dominates:
  assumes "si_confidence row = 0" and "\<not> si_pinned row" and "si_verified_at row = None"
    and "5 \<le> si_negative_feedback_count row"
  shows "compute_salience row now
    (salience_weights_from_settings (default_dream_settings\<lparr>dream_popularity_authority_weighted := knob\<rparr>)) = 0"
proof -
  define w where "w = salience_weights_from_settings (default_dream_settings\<lparr>dream_popularity_authority_weighted := knob\<rparr>)"
  have w: "weights_ok w" "w_access w = 30/100" "w_recency w = 25/100" "w_negative w = 46/100"
      "w_references w = 15/100" "w_authority w \<le> 10/100"
    by (simp_all add: w_def salience_weights_from_settings_def default_dream_settings_def weights_ok_def)
  have "ln 6 \<le> log1p (of_int (max 0 (si_negative_feedback_count row)))"
    using assms(4) by (simp add: log1p_def)
  then have "8/10 < w_negative w * log1p (of_int (max 0 (si_negative_feedback_count row)))"
    unfolding w(4) using ln_six by linarith
  moreover have "access_term w (si_access_count row) \<le> 30/100" "recency_term w row now \<le> 25/100"
      "authority_term w (rc_authority (si_references row)) \<le> 10/100"
    using access_term_bounds [OF w(1)] recency_term_bounds [OF w(1)] authority_term_bounds [OF w(1)] w
    by (smt (verit))+
  moreover have "w_references w * references_term (si_references row) w \<le> 15/100"
    unfolding w(5) using references_term_bounds(2) [of "si_references row" w] by linarith
  ultimately have "compute_salience row now w = 0"
    using assms(1-3) by (simp add: compute_salience_def verified_term_def clamp01_def)
  then show ?thesis by (simp add: w_def)
qed

lemma negative_feedback_dominates_witness:
  "compute_salience demo_inputs 0
    (salience_weights_from_settings (default_dream_settings\<lparr>dream_popularity_authority_weighted := True\<rparr>)) = 0"
  by (rule negative_feedback_dominates) (simp_all add: demo_inputs_def)

end
