(* ===== verification/MemoryRows.thy ===== *)
theory MemoryRows
  imports Tasks Decisions Salience "HOL-Library.List_Lexorder" "HOL-Library.Char_ord"
begin

text \<open>
  The helpers of \<open>memory_mcp/memories.py\<close>: normalization of tags and playbook fields, the
  audit snapshot and the projection payload, the statements on \<open>tags\<close>, \<open>memory_tags\<close>,
  \<open>memory_sources\<close> and \<open>memory_lineage\<close> with the constraints of these tables, and the graph
  nodes of memories and entities. \<open>sha\<close> is the hex digest \<open>hashlib.sha256\<close> gives for a text.
  Texts sort by code point.
\<close>

definition visible_in_projection :: "memory_status \<Rightarrow> bool" where
  "visible_in_projection s \<longleftrightarrow> s = MS_proposed \<or> s = MS_active \<or> s = MS_stale"

subsection \<open>Normalization\<close>

text \<open>The loop of \<open>_normalize_tags\<close>; \<open>out\<close> holds the elements of \<open>seen\<close> in order.\<close>

fun normalize_tags_loop :: "string list \<Rightarrow> string list \<Rightarrow> string list res" where
  "normalize_tags_loop out [] = Inr out"
| "normalize_tags_loop out (raw # rest) =
     (let t = strip raw in
      if t = [] \<or> t \<in> set out then normalize_tags_loop out rest
      else if 200 < length t then Inl (ValueError ''tag too long'')
      else normalize_tags_loop (out @ [t]) rest)"

definition normalize_tags :: "string list \<Rightarrow> string list res" where
  "normalize_tags tags = normalize_tags_loop [] tags"

fun clean_steps :: "string list \<Rightarrow> string list res" where
  "clean_steps [] = Inr []"
| "clean_steps (step # rest) =
     bindE (raise_if (strip step = []) (InvalidInputError ''steps'')) (\<lambda>_.
     bindE (clean_steps rest) (\<lambda>cs. Inr (strip step # cs)))"

definition normalize_playbook_fields ::
  "memory_kind \<Rightarrow> string list option \<Rightarrow> string option \<Rightarrow> (string list option \<times> string option) res" where
  "normalize_playbook_fields kind steps macro =
     (if kind = MK_playbook then
        (case steps of
           None \<Rightarrow> Inl (InvalidInputError ''steps'')
         | Some ss \<Rightarrow>
             bindE (clean_steps ss) (\<lambda>cleaned.
             bindE (raise_if (cleaned = []) (InvalidInputError ''steps'')) (\<lambda>_.
             let normalized = (case macro of Some s \<Rightarrow> lower (strip s) | None \<Rightarrow> []) in
             bindE (raise_if (normalized = []) (InvalidInputError ''macro'')) (\<lambda>_.
               Inr (Some cleaned, Some normalized)))))
      else if steps \<noteq> None \<or> macro \<noteq> None then Inl (InvalidInputError ''playbook fields'')
      else Inr (None, None))"

text \<open>The handler of an \<open>IntegrityError\<close> on the macro index.\<close>

definition macro_guard :: "'a res \<Rightarrow> 'a res" where
  "macro_guard r = (case r of
       Inl e \<Rightarrow> if e = IntegrityError ''ix_memories_macro_per_env'' then Inl (InvalidInputError ''macro'') else Inl e
     | Inr x \<Rightarrow> Inr x)"

definition ensure_macro_available :: "uuid \<Rightarrow> string option \<Rightarrow> uuid option \<Rightarrow> db \<Rightarrow> unit res" where
  "ensure_macro_available env macro exclude d =
     (case macro of
        None \<Rightarrow> Inr ()
      | Some k \<Rightarrow> raise_if (list_ex (\<lambda>r. m_env_id r = env \<and> map_option lower (m_macro r) = Some k \<and>
                               exclude \<noteq> Some (m_id r)) (memories d))
                  (InvalidInputError ''macro''))"

definition resolve_env_id :: "uuid option \<Rightarrow> agent_context \<Rightarrow> uuid res" where
  "resolve_env_id explicit ctx =
     (case explicit of
        Some e \<Rightarrow> Inr e
      | None \<Rightarrow> (case dedupe (ctx_attached_env_ids ctx) of
            [e] \<Rightarrow> Inr e
          | es \<Rightarrow> Inl (EnvAmbiguousError es)))"

subsection \<open>Snapshots\<close>

text \<open>\<open>a | b\<close> on dictionaries.\<close>

definition dict_union :: "payload \<Rightarrow> payload \<Rightarrow> payload" where
  "dict_union a b = map (\<lambda>(k, v). (k, case map_of b k of None \<Rightarrow> v | Some w \<Rightarrow> w)) a
     @ filter (\<lambda>kv. fst kv \<notin> fst ` set a) b"

definition texts :: "string list \<Rightarrow> json" where
  "texts ss = JList (map JStr ss)"

text \<open>\<open>dict(x or {}) if x else None\<close>: an empty dictionary becomes null.\<close>

definition json_or_null :: "payload option \<Rightarrow> json" where
  "json_or_null p = (case p of Some (kv # kvs) \<Rightarrow> JObj (kv # kvs) | _ \<Rightarrow> JNull)"

definition hash_body :: "(string \<Rightarrow> string) \<Rightarrow> string option \<Rightarrow> json" where
  "hash_body sha body = opt_json (\<lambda>b. JStr (sha b)) body"

definition text_length :: "string option \<Rightarrow> int" where
  "text_length t = (case t of None \<Rightarrow> 0 | Some s \<Rightarrow> int (length s))"

definition audit_snapshot :: "(string \<Rightarrow> string) \<Rightarrow> memory \<Rightarrow> string list option \<Rightarrow> payload" where
  "audit_snapshot sha m tag_names =
     [(''kind'', JStr (memory_kind_value (m_kind m))),
      (''status'', JStr (memory_status_value (m_status m))),
      (''env_id'', JUuid (m_env_id m)),
      (''title'', opt_json JStr (m_title m)),
      (''body_hash'', hash_body sha (Some (m_body m))),
      (''body_length'', JInt (int (length (m_body m)))),
      (''trigger_description_hash'', hash_body sha (m_trigger_description m)),
      (''trigger_description_length'', JInt (text_length (m_trigger_description m))),
      (''steps_count'', JInt (case m_steps m of None \<Rightarrow> 0 | Some ss \<Rightarrow> int (length ss))),
      (''macro'', opt_json JStr (m_macro m)),
      (''salience'', JReal (m_salience m)),
      (''confidence'', JReal (m_confidence m)),
      (''pinned'', JBool (m_pinned m)),
      (''version'', JInt (m_version m)),
      (''superseded_by'', opt_json JUuid (m_superseded_by m)),
      (''decision_meta'', json_or_null (m_decision_meta m)),
      (''expires_at'', opt_json JTime (m_expires_at m)),
      (''verified_at'', opt_json JTime (m_verified_at m))]
     @ (if m_metadata m \<noteq> [] then [(''metadata_keys'', texts (sort (map fst (m_metadata m))))] else [])
     @ (case tag_names of None \<Rightarrow> [] | Some ts \<Rightarrow> [(''tags'', texts ts)])"

definition record_audit ::
  "string \<Rightarrow> memory \<Rightarrow> uuid \<Rightarrow> payload option \<Rightarrow> payload option \<Rightarrow> payload option \<Rightarrow> db \<Rightarrow> db" where
  "record_audit op m agent before after extra d =
     (let final_after = (case extra of
          Some (kv # kvs) \<Rightarrow> Some (dict_union (case after of None \<Rightarrow> [] | Some a \<Rightarrow> a) (kv # kvs))
        | _ \<Rightarrow> after)
      in d\<lparr>audit_log := audit_log d @ [\<lparr>au_record_type = ''memory'', au_record_id = m_id m, au_env_id = m_env_id m,
            au_op = op, au_by_agent_id = agent, au_before = before, au_after = final_after\<rparr>]\<rparr>)"

definition projection_payload :: "memory \<Rightarrow> string list \<Rightarrow> string \<Rightarrow> payload" where
  "projection_payload m tag_names model =
     [(''memory_id'', JUuid (m_id m)),
      (''env_id'', JUuid (m_env_id m)),
      (''kind'', JStr (memory_kind_value (m_kind m))),
      (''status'', JStr (memory_status_value (m_status m))),
      (''title'', opt_json JStr (m_title m)),
      (''body'', JStr (m_body m)),
      (''trigger_description'', opt_json JStr (m_trigger_description m)),
      (''steps'', opt_json texts (m_steps m)),
      (''macro'', opt_json JStr (m_macro m)),
      (''salience'', JReal (m_salience m)),
      (''confidence'', JReal (m_confidence m)),
      (''pinned'', JBool (m_pinned m)),
      (''tags'', texts tag_names),
      (''metadata'', JObj (m_metadata m)),
      (''expires_at'', opt_json JTime (m_expires_at m)),
      (''verified_at'', opt_json JTime (m_verified_at m)),
      (''superseded_by'', opt_json JUuid (m_superseded_by m)),
      (''decision_meta'', json_or_null (m_decision_meta m)),
      (''version'', JInt (m_version m)),
      (''created_at'', JTime (m_created_at m)),
      (''updated_at'', JTime (m_updated_at m)),
      (''embedding_model_id'', JStr model)]"

definition outbox_op_for :: "memory_status \<Rightarrow> bool \<Rightarrow> outbox_op" where
  "outbox_op_for s is_create =
     (if \<not> visible_in_projection s then OP_tombstone else if is_create then OP_upsert else OP_update)"

definition enqueue_memory ::
  "settings \<Rightarrow> time \<Rightarrow> memory \<Rightarrow> int \<Rightarrow> outbox_op \<Rightarrow> string list \<Rightarrow> string \<Rightarrow> db \<Rightarrow> db res" where
  "enqueue_memory st now m version op tag_names model d =
     bindE (enqueue_event st now AT_memory (m_id m) version (m_env_id m) op (projection_payload m tag_names model) None d)
       (\<lambda>(d', _). Inr d')"

subsection \<open>Tags\<close>

text \<open>
  \<open>INSERT INTO tags ... ON CONFLICT (env_id, name) DO NOTHING\<close>; the default id of every
  proposed row is drawn, conflict or not.
\<close>

fun insert_tags :: "uuid \<Rightarrow> string list \<Rightarrow> db \<Rightarrow> db res" where
  "insert_tags env [] d = Inr d"
| "insert_tags env (n # ns) d =
     (let i = next_uuid d; d' = draw_uuid d in
      if list_ex (\<lambda>t. tag_env_id t = env \<and> tag_name t = n) (tag_rows d) then insert_tags env ns d'
      else if list_ex (\<lambda>t. tag_id t = i) (tag_rows d) then Inl (IntegrityError ''tags_pkey'')
      else if \<not> env_exists d env then Inl (IntegrityError ''tags_env_id_fkey'')
      else insert_tags env ns
        (d'\<lparr>tag_rows := tag_rows d @ [\<lparr>tag_id = i, tag_env_id = env, tag_name = n\<rparr>]\<rparr>))"

definition find_tag :: "uuid \<Rightarrow> db \<Rightarrow> string \<Rightarrow> tag option" where
  "find_tag env d n = find (\<lambda>t. tag_env_id t = env \<and> tag_name t = n) (tag_rows d)"

text \<open>\<open>[tag_map[n] for n in names]\<close> after \<open>_upsert_tags\<close>.\<close>

fun tag_ids_of :: "uuid \<Rightarrow> db \<Rightarrow> string list \<Rightarrow> uuid list res" where
  "tag_ids_of env d [] = Inr []"
| "tag_ids_of env d (n # ns) =
     bindE (some_or (KeyError n) (find_tag env d n)) (\<lambda>t.
     bindE (tag_ids_of env d ns) (\<lambda>is. Inr (tag_id t # is)))"

definition upsert_tags :: "uuid \<Rightarrow> string list \<Rightarrow> db \<Rightarrow> (db \<times> uuid list) res" where
  "upsert_tags env names d =
     bindE (insert_tags env names d) (\<lambda>d'.
     bindE (tag_ids_of env d' names) (\<lambda>is. Inr (d', is)))"

text \<open>The constraint the new rows of \<open>memory_tags\<close> violate, if any; the old ones are deleted first.\<close>

definition memory_tags_violation :: "db \<Rightarrow> uuid \<Rightarrow> uuid \<Rightarrow> uuid list \<Rightarrow> string option" where
  "memory_tags_violation d i env ids =
     (if \<not> distinct ids then Some ''memory_tags_pkey''
      else if ids \<noteq> [] \<and> \<not> list_ex (\<lambda>m. m_id m = i \<and> m_env_id m = env) (memories d)
        then Some ''memory_tags_memory_env_fk''
      else if \<not> list_all (\<lambda>j. list_ex (\<lambda>t. tag_id t = j \<and> tag_env_id t = env) (tag_rows d)) ids
        then Some ''memory_tags_tag_env_fk''
      else None)"

definition replace_memory_tags :: "uuid \<Rightarrow> uuid \<Rightarrow> uuid list \<Rightarrow> db \<Rightarrow> db res" where
  "replace_memory_tags i env ids d =
     (case memory_tags_violation d i env ids of
        Some c \<Rightarrow> Inl (IntegrityError c)
      | None \<Rightarrow> Inr (d\<lparr>memory_tags := delete_where (\<lambda>r. mt_memory_id r = i) (memory_tags d) @
            map (\<lambda>j. \<lparr>mt_memory_id = i, mt_tag_id = j, mt_env_id = env\<rparr>) ids\<rparr>))"

definition set_tags :: "uuid \<Rightarrow> uuid \<Rightarrow> string list \<Rightarrow> db \<Rightarrow> db res" where
  "set_tags i env names d =
     bindE (upsert_tags env names d) (\<lambda>(d', ids). replace_memory_tags i env ids d')"

definition load_tag_names :: "db \<Rightarrow> uuid \<Rightarrow> string list" where
  "load_tag_names d i = sort [tag_name t. t \<leftarrow> tag_rows d, r \<leftarrow> memory_tags d, mt_tag_id r = tag_id t \<and> mt_memory_id r = i]"

subsection \<open>Other rows\<close>

definition load_env_embedding_model :: "db \<Rightarrow> uuid \<Rightarrow> string res" where
  "load_env_embedding_model d env =
     map_sum id env_embedding_model (some_or (NotFoundError ''env'' env) (lookup env_id env (environments d)))"

definition lock_memories :: "uuid list \<Rightarrow> db \<Rightarrow> memory list" where
  "lock_memories ids d = sort_key m_id (filter (\<lambda>m. m_id m \<in> set ids) (memories d))"

definition insert_memory_source :: "memory_source \<Rightarrow> db \<Rightarrow> db res" where
  "insert_memory_source s d =
     (if \<not> list_ex (\<lambda>m. m_id m = src_memory_id s) (memories d) then Inl (IntegrityError ''memory_sources_memory_id_fkey'')
      else Inr (d\<lparr>memory_sources := memory_sources d @ [s]\<rparr>))"

definition lineage_violation :: "db \<Rightarrow> lineage_row \<Rightarrow> string option" where
  "lineage_violation d l =
     (if ln_parent l = ln_child l then Some ''memory_lineage_not_self_chk''
      else if list_ex (\<lambda>k. ln_parent k = ln_parent l \<and> ln_child k = ln_child l \<and> ln_relation k = ln_relation l) (memory_lineage d)
        then Some ''memory_lineage_pkey''
      else if \<not> list_ex (\<lambda>m. m_id m = ln_parent l) (memories d) then Some ''memory_lineage_parent_memory_id_fkey''
      else if \<not> list_ex (\<lambda>m. m_id m = ln_child l) (memories d) then Some ''memory_lineage_child_memory_id_fkey''
      else None)"

definition insert_lineage :: "lineage_row \<Rightarrow> db \<Rightarrow> db res" where
  "insert_lineage l d = (case lineage_violation d l of
       Some c \<Rightarrow> Inl (IntegrityError c)
     | None \<Rightarrow> Inr (d\<lparr>memory_lineage := memory_lineage d @ [l]\<rparr>))"

definition memory_graph_node :: "uuid \<Rightarrow> uuid \<Rightarrow> db \<Rightarrow> (db \<times> graph_node) res" where
  "memory_graph_node env i d =
     (case find (\<lambda>n. gn_memory_id n = Some i) (graph_nodes d) of
        Some n \<Rightarrow> Inr (d, n)
      | None \<Rightarrow>
          let n = \<lparr>gn_id = next_uuid d, gn_env_id = env, gn_type = NT_memory, gn_memory_id = Some i,
                   gn_entity_id = None, gn_task_id = None\<rparr>
          in bindE (insert_graph_node n (draw_uuid d)) (\<lambda>d'. Inr (d', n)))"

definition entity_graph_node :: "uuid \<Rightarrow> uuid \<Rightarrow> db \<Rightarrow> (db \<times> graph_node) res" where
  "entity_graph_node env i d =
     bindE (some_or (NotFoundError ''entity'' i) (lookup e_id i (entities d))) (\<lambda>e.
     bindE (raise_if (e_env_id e \<noteq> env) (ValueError ''entity env'')) (\<lambda>_.
     case find (\<lambda>n. gn_entity_id n = Some i) (graph_nodes d) of
        Some n \<Rightarrow> Inr (d, n)
      | None \<Rightarrow>
          let n = \<lparr>gn_id = next_uuid d, gn_env_id = env, gn_type = NT_entity, gn_memory_id = None,
                   gn_entity_id = Some i, gn_task_id = None\<rparr>
          in bindE (insert_graph_node n (draw_uuid d)) (\<lambda>d'. Inr (d', n))))"

definition validate_decision_meta_for_kind ::
  "memory_kind \<Rightarrow> payload option \<Rightarrow> uuid \<Rightarrow> db \<Rightarrow> payload option res" where
  "validate_decision_meta_for_kind kind meta env d =
     (case meta of
        None \<Rightarrow> Inr None
      | Some p \<Rightarrow>
          bindE (raise_if (kind \<noteq> MK_decision) (InvalidInputError ''decision_meta'')) (\<lambda>_.
          bindE (validate_decision_meta (Some p) env d) (\<lambda>m. Inr (map_option decision_model_dump m))))"

definition ensure_env_visible :: "memory \<Rightarrow> agent_context \<Rightarrow> unit res" where
  "ensure_env_visible m ctx =
     raise_if (ctx_attached_env_ids ctx \<noteq> [] \<and> m_env_id m \<notin> set (ctx_attached_env_ids ctx))
       (NotFoundError ''memory'' (m_id m))"

definition load_memory :: "uuid \<Rightarrow> db \<Rightarrow> memory res" where
  "load_memory i d = some_or (NotFoundError ''memory'' i) (lookup m_id i (memories d))"

subsection \<open>Responses\<close>

record memory_response =
  mr_id :: uuid
  mr_env_id :: uuid
  mr_kind :: memory_kind
  mr_status :: memory_status
  mr_title :: "string option"
  mr_body :: string
  mr_trigger_description :: "string option"
  mr_steps :: "string list option"
  mr_macro :: "string option"
  mr_tags :: "string list"
  mr_metadata :: payload
  mr_salience :: real
  mr_confidence :: real
  mr_pinned :: bool
  mr_access_count :: int
  mr_last_accessed_at :: "time option"
  mr_negative_feedback_count :: int
  mr_verified_at :: "time option"
  mr_expires_at :: "time option"
  mr_superseded_by :: "uuid option"
  mr_decision_meta :: "payload option"
  mr_version :: int
  mr_created_at :: time
  mr_updated_at :: time
  mr_references :: reference_columns
  mr_reference_count :: int

text \<open>\<open>refs\<close> gives the citation counters of a row, which triggers maintain.\<close>

definition memory_to_response :: "(uuid \<Rightarrow> reference_columns) \<Rightarrow> memory \<Rightarrow> string list \<Rightarrow> memory_response" where
  "memory_to_response refs m tag_names =
     (let rc = refs (m_id m) in
      \<lparr>mr_id = m_id m, mr_env_id = m_env_id m, mr_kind = m_kind m, mr_status = m_status m, mr_title = m_title m,
       mr_body = m_body m, mr_trigger_description = m_trigger_description m, mr_steps = m_steps m,
       mr_macro = m_macro m, mr_tags = tag_names, mr_metadata = m_metadata m, mr_salience = m_salience m,
       mr_confidence = m_confidence m, mr_pinned = m_pinned m, mr_access_count = m_access_count m,
       mr_last_accessed_at = m_last_accessed_at m, mr_negative_feedback_count = m_negative_feedback_count m,
       mr_verified_at = m_verified_at m, mr_expires_at = m_expires_at m, mr_superseded_by = m_superseded_by m,
       mr_decision_meta = (case m_decision_meta m of Some (kv # kvs) \<Rightarrow> Some (kv # kvs) | _ \<Rightarrow> None),
       mr_version = m_version m, mr_created_at = m_created_at m, mr_updated_at = m_updated_at m,
       mr_references = rc,
       mr_reference_count = rc_rel_link rc + rc_lineage rc + rc_task rc + rc_playbook rc\<rparr>)"

end
