(* ===== verification/Ledger.thy ===== *)
theory Ledger
  imports MemoryRows
begin

text \<open>
  What the operations on memories promise, as an abstract machine. A ledger is the table of
  memories, the tag names of each memory, and the sequence of outbox events about memories. A
  step creates a memory, revises one, removes one, only touches its access fields or adds
  environments; each of the first three appends exactly one event, whose payload is a snapshot of
  the memory. The
  invariant says that the last event of a memory always describes the row as it is, that a
  memory that is gone (or never was) ends in a tombstone, and that no version has two events.
\<close>

record ledger =
  lg_environments :: "environment list"
  lg_memories :: "memory list"
  lg_tags :: "uuid \<Rightarrow> string set"
  lg_events :: "outbox_row list"

definition row_ok :: "ledger \<Rightarrow> memory \<Rightarrow> bool" where
  "row_ok L m \<longleftrightarrow> memory_violation
     ((empty_db id)\<lparr>environments := lg_environments L, memories := lg_memories L\<rparr>) m = None"

text \<open>A memory without the fields a read changes: the access counters and the salience, which is
  part of the projected payload all the same.\<close>

definition content :: "memory \<Rightarrow> memory" where
  "content m = m\<lparr>m_access_count := 0, m_last_accessed_at := None, m_salience := 0\<rparr>"

definition snapshot_event :: "memory \<Rightarrow> int \<Rightarrow> outbox_op \<Rightarrow> string list \<Rightarrow> outbox_row \<Rightarrow> bool" where
  "snapshot_event m version op tags row \<longleftrightarrow>
     ob_aggregate_type row = AT_memory \<and> ob_aggregate_id row = m_id m \<and> ob_aggregate_version row = version \<and>
     ob_env_id row = m_env_id m \<and> ob_op row = op \<and> (\<exists>model. ob_payload row = projection_payload m tags model)"

definition event_key :: "outbox_row \<Rightarrow> uuid \<times> int" where
  "event_key row = (ob_aggregate_id row, ob_aggregate_version row)"

definition last_event :: "outbox_row list \<Rightarrow> uuid \<Rightarrow> outbox_row option" where
  "last_event evs i = find (\<lambda>r. ob_aggregate_id r = i) (rev evs)"

lemma last_event_append [simp]:
  "last_event (evs @ [row]) i = (if ob_aggregate_id row = i then Some row else last_event evs i)"
  by (simp add: last_event_def)

lemma last_event_Nil [simp]: "last_event [] i = None"
  by (simp add: last_event_def)

lemma last_event_SomeD: "last_event evs i = Some row \<Longrightarrow> row \<in> set evs \<and> ob_aggregate_id row = i"
  by (auto simp: last_event_def dest: find_SomeD)

subsection \<open>Steps\<close>

definition same_row :: "uuid \<Rightarrow> memory \<Rightarrow> bool" where
  "same_row i r \<longleftrightarrow> m_id r = i"

definition put_row :: "memory \<Rightarrow> memory list \<Rightarrow> memory list" where
  "put_row m rows = update_where (\<lambda>r. m_id r = m_id m) (\<lambda>_. m) rows"

text \<open>A revision keeps the successor and moves along the lifecycle table, or it supersedes the memory.\<close>

definition life_ok :: "memory \<Rightarrow> memory \<Rightarrow> bool" where
  "life_ok old m \<longleftrightarrow> m_status m = MS_superseded \<or>
     m_superseded_by m = m_superseded_by old \<and> is_valid_transition (m_status old) (m_status m)"

inductive ledger_step :: "ledger \<Rightarrow> ledger \<Rightarrow> bool" where
  create: "\<lbrakk> m_id m \<notin> m_id ` set (lg_memories L); row_ok L m; m_version m = 1;
      snapshot_event m (m_version m) (outbox_op_for (m_status m) c) tags row; event_key row \<notin> event_key ` set (lg_events L) \<rbrakk>
    \<Longrightarrow> ledger_step L (L\<lparr>lg_memories := lg_memories L @ [m], lg_tags := (lg_tags L)(m_id m := set tags),
          lg_events := lg_events L @ [row]\<rparr>)"
| revise: "\<lbrakk> lookup m_id (m_id m) (lg_memories L) = Some old; row_ok L m; m_version m = m_version old + 1; m_env_id m = m_env_id old; life_ok old m;
      snapshot_event m (m_version m) (outbox_op_for (m_status m) c) tags row; event_key row \<notin> event_key ` set (lg_events L) \<rbrakk>
    \<Longrightarrow> ledger_step L (L\<lparr>lg_memories := put_row m (lg_memories L), lg_tags := (lg_tags L)(m_id m := set tags),
          lg_events := lg_events L @ [row]\<rparr>)"
| remove: "\<lbrakk> lookup m_id (m_id m) (lg_memories L) = Some m; \<forall>r \<in> set (lg_memories L). m_id r \<noteq> m_id m \<longrightarrow> m_superseded_by r \<noteq> Some (m_id m);
      snapshot_event m (m_version m + 1) OP_tombstone tags row; event_key row \<notin> event_key ` set (lg_events L) \<rbrakk>
    \<Longrightarrow> ledger_step L (L\<lparr>lg_memories := delete_where (\<lambda>r. m_id r = m_id m) (lg_memories L),
          lg_tags := (lg_tags L)(m_id m := {}), lg_events := lg_events L @ [row]\<rparr>)"
| touch: "\<lbrakk> lookup m_id (m_id m) (lg_memories L) = Some old; row_ok L m; content m = content old \<rbrakk>
    \<Longrightarrow> ledger_step L (L\<lparr>lg_memories := put_row m (lg_memories L)\<rparr>)"
| widen: "env_id ` set (lg_environments L) \<subseteq> env_id ` set es \<Longrightarrow> ledger_step L (L\<lparr>lg_environments := es\<rparr>)"

subsection \<open>The invariant\<close>

definition describes :: "ledger \<Rightarrow> outbox_row \<Rightarrow> memory \<Rightarrow> bool" where
  "describes L row m \<longleftrightarrow>
     (\<exists>m0 tags op. content m0 = content m \<and> snapshot_event m0 (m_version m) op tags row \<and>
        set tags = lg_tags L (m_id m) \<and> (op = OP_tombstone \<longleftrightarrow> \<not> visible_in_projection (m_status m)))"

definition projected :: "ledger \<Rightarrow> bool" where
  "projected L \<longleftrightarrow>
     (\<forall>m \<in> set (lg_memories L). \<exists>row. last_event (lg_events L) (m_id m) = Some row \<and> describes L row m) \<and>
     (\<forall>row. last_event (lg_events L) (ob_aggregate_id row) = Some row \<and> ob_aggregate_id row \<notin> m_id ` set (lg_memories L)
        \<longrightarrow> ob_op row = OP_tombstone)"

definition rows_ok :: "ledger \<Rightarrow> bool" where
  "rows_ok L \<longleftrightarrow> distinct (map m_id (lg_memories L)) \<and> (\<forall>m \<in> set (lg_memories L). row_ok L m)"

text \<open>Every memory with an event has the event of its creation, and its events are all of one environment.\<close>

definition log_ok :: "outbox_row list \<Rightarrow> bool" where
  "log_ok evs \<longleftrightarrow> distinct (map event_key evs) \<and>
     (\<forall>row \<in> set evs. ob_aggregate_type row = AT_memory \<and> (ob_aggregate_id row, 1) \<in> event_key ` set evs \<and>
        (\<forall>q \<in> set evs. ob_aggregate_id q = ob_aggregate_id row \<longrightarrow> ob_env_id q = ob_env_id row))"

definition ledger_inv :: "ledger \<Rightarrow> bool" where
  "ledger_inv L \<longleftrightarrow> rows_ok L \<and> projected L \<and> log_ok (lg_events L)"

lemma content_fields:
  assumes "content m = content m'"
  shows "m_id m = m_id m'" "m_version m = m_version m'" "m_status m = m_status m'" "m_env_id m = m_env_id m'"
    "m_macro m = m_macro m'" "m_superseded_by m = m_superseded_by m'"
  using assms by (cases m; cases m'; simp add: content_def)+

lemma describes_cong:
  "describes L row m \<Longrightarrow> content m' = content m \<Longrightarrow> lg_tags L' (m_id m) = lg_tags L (m_id m) \<Longrightarrow> describes L' row m'"
  using content_fields [of m' m] by (auto simp: describes_def)

lemma snapshot_describes:
  assumes "snapshot_event m (m_version m) (outbox_op_for (m_status m) c) tags row" and "lg_tags L (m_id m) = set tags"
  shows "describes L row m"
  using assms unfolding describes_def
  by (intro exI [of _ m] exI [of _ tags] exI [of _ "outbox_op_for (m_status m) c"]) (simp add: outbox_op_for_def)

lemma set_put_row: "set (put_row m rows) \<subseteq> insert m {r \<in> set rows. m_id r \<noteq> m_id m}"
  by (auto simp: put_row_def set_update_where)

lemma put_row_ids [simp]: "map m_id (put_row m rows) = map m_id rows"
  by (induction rows) (auto simp: put_row_def)

lemma put_row_id_set [simp]: "m_id ` set (put_row m rows) = m_id ` set rows"
  by (metis list.set_map put_row_ids)

subsection \<open>Table constraints\<close>

definition macro_clash :: "memory \<Rightarrow> memory \<Rightarrow> bool" where
  "macro_clash r m \<longleftrightarrow> m_id r \<noteq> m_id m \<and> m_env_id r = m_env_id m \<and> m_macro m \<noteq> None \<and>
     map_option lower (m_macro r) = map_option lower (m_macro m)"

text \<open>The part of the constraints that looks at the row alone.\<close>

definition row_alone :: "environment list \<Rightarrow> memory \<Rightarrow> bool" where
  "row_alone envs m \<longleftrightarrow> list_ex (\<lambda>e. env_id e = m_env_id m) envs \<and> 0 \<le> m_salience m \<and> m_salience m \<le> 1 \<and>
     0 \<le> m_confidence m \<and> m_confidence m \<le> 1 \<and> 0 \<le> m_access_count m \<and> 0 \<le> m_negative_feedback_count m \<and>
     0 < m_version m \<and> (m_status m = MS_superseded \<longleftrightarrow> m_superseded_by m \<noteq> None) \<and> m_superseded_by m \<noteq> Some (m_id m)"

lemma row_ok_iff:
  "row_ok L m \<longleftrightarrow> row_alone (lg_environments L) m \<and>
     (\<forall>j. m_superseded_by m = Some j \<longrightarrow> j \<in> m_id ` set (lg_memories L)) \<and>
     (\<forall>r \<in> set (lg_memories L). \<not> macro_clash r m)"
  by (cases "m_macro m"; cases "m_superseded_by m")
     (auto simp: row_ok_def memory_violation_def row_alone_def macro_clash_def env_exists_def list_ex_iff empty_db_def image_iff)

lemma macro_clash_sym: "macro_clash r m \<longleftrightarrow> macro_clash m r"
  by (auto simp: macro_clash_def)

lemma macro_clash_content:
  "content m = content m' \<Longrightarrow> macro_clash r m = macro_clash r m'"
  using content_fields [of m m'] by (simp add: macro_clash_def)

text \<open>No macro clashes among the old rows and a row that fits them.\<close>

lemma clash_free:
  assumes "rows_ok L" "row_ok L m" and "r \<in> set (lg_memories L) \<or> r = m" "q \<in> set (lg_memories L) \<or> q = m"
  shows "\<not> macro_clash q r"
proof -
  have new: "\<not> macro_clash p m" if "p \<in> set (lg_memories L)" for p
    using that assms(2) by (simp add: row_ok_iff)
  consider "r \<in> set (lg_memories L)" "q \<in> set (lg_memories L)" | "r = m" "q \<in> set (lg_memories L)"
    | "q = m" "r \<in> set (lg_memories L)" | "q = m" "r = m" using assms(3,4) by blast
  then show ?thesis
  proof cases
    case 1
    then show ?thesis using assms(1) by (simp add: rows_ok_def row_ok_iff)
  next
    case 2
    then show ?thesis using new by simp
  next
    case 3
    then show ?thesis using new macro_clash_sym by metis
  next
    case 4
    then show ?thesis by (simp add: macro_clash_def)
  qed
qed

lemma create_rows:
  assumes "rows_ok L" "row_ok L m" "m_id m \<notin> m_id ` set (lg_memories L)"
  shows "rows_ok (L\<lparr>lg_memories := lg_memories L @ [m], lg_tags := ts, lg_events := es\<rparr>)"
proof -
  have "row_ok (L\<lparr>lg_memories := lg_memories L @ [m], lg_tags := ts, lg_events := es\<rparr>) r"
    if "r \<in> set (lg_memories L) \<or> r = m" for r
    using that assms(1,2) clash_free [OF assms(1,2) that] by (auto simp: rows_ok_def row_ok_iff)
  then show ?thesis using assms(1,3) by (auto simp: rows_ok_def)
qed

lemma lookup_in_ids: "lookup m_id i rows = Some r \<Longrightarrow> i \<in> m_id ` set rows"
  by (auto dest!: lookup_SomeD)

lemma put_rows:
  assumes "rows_ok L" "row_ok L m" "m_id m \<in> m_id ` set (lg_memories L)"
  shows "rows_ok (L\<lparr>lg_memories := put_row m (lg_memories L), lg_tags := ts, lg_events := es\<rparr>)"
proof -
  let ?L = "L\<lparr>lg_memories := put_row m (lg_memories L), lg_tags := ts, lg_events := es\<rparr>"
  have "row_ok ?L r" if "r \<in> set (lg_memories ?L)" for r
  proof -
    have r: "r \<in> set (lg_memories L) \<or> r = m"
      using that set_put_row [of m "lg_memories L"] by auto
    have "\<not> macro_clash q r" if "q \<in> set (put_row m (lg_memories L))" for q
      using clash_free [OF assms(1,2)] r that set_put_row [of m "lg_memories L"] by blast
    moreover have "row_ok L r" using r assms by (auto simp: rows_ok_def)
    ultimately show ?thesis by (simp add: row_ok_iff)
  qed
  then show ?thesis using assms(1) by (simp add: rows_ok_def)
qed

lemma remove_rows:
  assumes "rows_ok L" and "\<forall>r \<in> set (lg_memories L). m_id r \<noteq> i \<longrightarrow> m_superseded_by r \<noteq> Some i"
  shows "rows_ok (L\<lparr>lg_memories := delete_where (\<lambda>r. m_id r = i) (lg_memories L), lg_tags := ts, lg_events := es\<rparr>)"
  using assms by (fastforce simp: rows_ok_def row_ok_iff distinct_delete_where image_iff)

lemma widen_rows:
  assumes "rows_ok L" and "env_id ` set (lg_environments L) \<subseteq> env_id ` set es"
  shows "rows_ok (L\<lparr>lg_environments := es\<rparr>)"
proof -
  have "row_alone es m" if "row_alone (lg_environments L) m" for m
  proof -
    have "m_env_id m \<in> env_id ` set (lg_environments L)"
      using that unfolding row_alone_def list_ex_iff by (metis imageI)
    then have "m_env_id m \<in> env_id ` set es" using assms(2) by blast
    then have "list_ex (\<lambda>e. env_id e = m_env_id m) es" unfolding list_ex_iff by (metis imageE)
    then show ?thesis using that by (simp add: row_alone_def)
  qed
  then show ?thesis using assms(1) by (simp add: rows_ok_def row_ok_iff)
qed

lemma step_rows: "ledger_step L L' \<Longrightarrow> rows_ok L \<Longrightarrow> rows_ok L'"
proof (induction rule: ledger_step.induct)
  case (create m L c tags row)
  then show ?case by (intro create_rows)
next
  case (revise m L old c tags row)
  then show ?case by (intro put_rows lookup_in_ids)
next
  case (remove m L tags row)
  then show ?case by (intro remove_rows)
next
  case (touch m L old)
  then show ?case
    using put_rows [of L m, where ts = "lg_tags L" and es = "lg_events L"] lookup_in_ids [OF touch(1)] by simp
next
  case (widen L es)
  then show ?case by (intro widen_rows)
qed

subsection \<open>Projection\<close>

lemma projectedI:
  assumes "\<And>m. m \<in> set (lg_memories L) \<Longrightarrow> \<exists>row. last_event (lg_events L) (m_id m) = Some row \<and> describes L row m"
    and "\<And>row. last_event (lg_events L) (ob_aggregate_id row) = Some row \<Longrightarrow>
      ob_aggregate_id row \<notin> m_id ` set (lg_memories L) \<Longrightarrow> ob_op row = OP_tombstone"
  shows "projected L"
  using assms by (auto simp: projected_def)

lemma projectedD:
  assumes "projected L" and "m \<in> set (lg_memories L)"
  obtains row where "last_event (lg_events L) (m_id m) = Some row" "describes L row m"
  using assms by (auto simp: projected_def)

text \<open>One event for memory \<open>i\<close> is appended and only the row of \<open>i\<close> changes.\<close>

lemma projected_snoc:
  assumes p: "projected L" and i: "ob_aggregate_id row = i"
    and others: "\<And>r. m_id r \<noteq> i \<Longrightarrow> r \<in> set rows \<longleftrightarrow> r \<in> set (lg_memories L)"
    and mine: "\<And>m. m \<in> set rows \<Longrightarrow> m_id m = i \<Longrightarrow>
      describes (L\<lparr>lg_memories := rows, lg_tags := (lg_tags L)(i := S), lg_events := lg_events L @ [row]\<rparr>) row m"
    and gone: "i \<notin> m_id ` set rows \<Longrightarrow> ob_op row = OP_tombstone"
  shows "projected (L\<lparr>lg_memories := rows, lg_tags := (lg_tags L)(i := S), lg_events := lg_events L @ [row]\<rparr>)"
    (is "projected ?L")
proof (rule projectedI)
  fix m assume m: "m \<in> set (lg_memories ?L)"
  show "\<exists>row. last_event (lg_events ?L) (m_id m) = Some row \<and> describes ?L row m"
  proof (cases "m_id m = i")
    case True
    then show ?thesis using m mine i by auto
  next
    case False
    then have "m \<in> set (lg_memories L)" using m others by simp
    then obtain row' where "last_event (lg_events L) (m_id m) = Some row'" "describes L row' m"
      by (rule projectedD [OF p])
    moreover have "describes ?L row' m"
      using describes_cong [OF calculation(2) refl, of ?L] False by simp
    ultimately show ?thesis using False i by auto
  qed
next
  fix r assume r: "last_event (lg_events ?L) (ob_aggregate_id r) = Some r" "ob_aggregate_id r \<notin> m_id ` set (lg_memories ?L)"
  show "ob_op r = OP_tombstone"
  proof (cases "ob_aggregate_id r = i")
    case True
    then show ?thesis using r i gone by auto
  next
    case False
    then have "ob_aggregate_id r \<notin> m_id ` set (lg_memories L)"
      using r(2) others by (auto simp: image_iff)
    then show ?thesis using r(1) False i p by (auto simp: projected_def)
  qed
qed

lemma step_projected:
  assumes "ledger_step L L'" and "rows_ok L" and p: "projected L"
  shows "projected L'"
  using assms(1) p
proof cases
  case (create m c tags row)
  show ?thesis unfolding create(1)
  proof (rule projected_snoc [OF p])
    show "ob_aggregate_id row = m_id m" using create(5) by (simp add: snapshot_event_def)
  next
    fix r assume "r \<in> set (lg_memories L @ [m])" "m_id r = m_id m"
    then have "r = m" using create(2) by (metis Un_iff empty_set image_eqI list.simps(15) set_append singletonD)
    then show "describes (L\<lparr>lg_memories := lg_memories L @ [m], lg_tags := (lg_tags L)(m_id m := set tags),
        lg_events := lg_events L @ [row]\<rparr>) row r"
      using snapshot_describes [OF create(5)] by simp
  qed auto
next
  case (revise m old c tags row)
  show ?thesis unfolding revise(1)
  proof (rule projected_snoc [OF p])
    show "ob_aggregate_id row = m_id m" using revise(7) by (simp add: snapshot_event_def)
  next
    fix r :: memory assume "m_id r \<noteq> m_id m"
    then show "r \<in> set (put_row m (lg_memories L)) \<longleftrightarrow> r \<in> set (lg_memories L)"
      by (auto simp: put_row_def set_update_where)
  next
    fix r assume "r \<in> set (put_row m (lg_memories L))" "m_id r = m_id m"
    then have "r = m" using set_put_row [of m "lg_memories L"] by auto
    then show "describes (L\<lparr>lg_memories := put_row m (lg_memories L), lg_tags := (lg_tags L)(m_id m := set tags),
        lg_events := lg_events L @ [row]\<rparr>) row r"
      using snapshot_describes [OF revise(7)] by simp
  next
    assume "m_id m \<notin> m_id ` set (put_row m (lg_memories L))"
    then show "ob_op row = OP_tombstone" using lookup_in_ids [OF revise(2)] by simp
  qed
next
  case (remove m tags row)
  then show ?thesis unfolding remove(1)
    by (intro projected_snoc [OF p]) (auto simp: snapshot_event_def)
next
  case (touch m old)
  have old: "old \<in> set (lg_memories L)" "m_id old = m_id m" using touch(2) lookup_SomeD by fastforce+
  show ?thesis unfolding touch(1)
  proof (rule projectedI)
    fix r assume "r \<in> set (lg_memories (L\<lparr>lg_memories := put_row m (lg_memories L)\<rparr>))"
    then consider "r = m" | "r \<in> set (lg_memories L)" using set_put_row [of m "lg_memories L"] by auto
    then obtain q where q: "q \<in> set (lg_memories L)" "content r = content q" "m_id q = m_id r"
      using old touch(4) by metis
    obtain row where "last_event (lg_events L) (m_id q) = Some row" "describes L row q"
      by (rule projectedD [OF p q(1)])
    then show "\<exists>row. last_event (lg_events (L\<lparr>lg_memories := put_row m (lg_memories L)\<rparr>)) (m_id r) = Some row \<and>
        describes (L\<lparr>lg_memories := put_row m (lg_memories L)\<rparr>) row r"
      using q describes_cong [of L row q r] by auto
  qed (use p in \<open>auto simp: projected_def\<close>)
next
  case (widen es)
  then show ?thesis using p by (simp add: projected_def describes_def)
qed

text \<open>Appending an event of a memory: its first at version 1, a later one in the environment of the last.\<close>

lemma log_ok_snoc:
  assumes "log_ok evs" "ob_aggregate_type row = AT_memory" "event_key row \<notin> event_key ` set evs"
    and key: "(ob_aggregate_id row, 1) \<in> event_key ` set (evs @ [row])"
    and env: "\<And>q. q \<in> set evs \<Longrightarrow> ob_aggregate_id q = ob_aggregate_id row \<Longrightarrow> ob_env_id q = ob_env_id row"
  shows "log_ok (evs @ [row])"
proof -
  have "ob_aggregate_type r = AT_memory \<and> (ob_aggregate_id r, 1) \<in> event_key ` set (evs @ [row]) \<and>
      (\<forall>q \<in> set (evs @ [row]). ob_aggregate_id q = ob_aggregate_id r \<longrightarrow> ob_env_id q = ob_env_id r)"
    if "r \<in> set (evs @ [row])" for r
  proof (cases "r = row")
    case True
    then show ?thesis using assms(2) key env by auto
  next
    case False
    then have r: "r \<in> set evs" using that by simp
    then have "ob_aggregate_type r = AT_memory" "(ob_aggregate_id r, 1) \<in> event_key ` set evs"
        "\<forall>q \<in> set evs. ob_aggregate_id q = ob_aggregate_id r \<longrightarrow> ob_env_id q = ob_env_id r"
      using assms(1) unfolding log_ok_def by blast+
    then show ?thesis using env [OF r] by auto
  qed
  moreover have "distinct (map event_key (evs @ [row]))" using assms(1,3) by (simp add: log_ok_def)
  ultimately show ?thesis unfolding log_ok_def by blast
qed

lemma log_ok_first:
  assumes "log_ok evs" "ob_aggregate_type row = AT_memory" "ob_aggregate_version row = 1" "event_key row \<notin> event_key ` set evs"
  shows "log_ok (evs @ [row])"
proof (rule log_ok_snoc)
  have k: "event_key row = (ob_aggregate_id row, 1)" using assms(3) by (simp add: event_key_def)
  then show "(ob_aggregate_id row, 1) \<in> event_key ` set (evs @ [row])" by simp
  fix q assume "q \<in> set evs" "ob_aggregate_id q = ob_aggregate_id row"
  then have "(ob_aggregate_id row, 1) \<in> event_key ` set evs" using assms(1) unfolding log_ok_def by metis
  then show "ob_env_id q = ob_env_id row" using assms(4) k by simp
qed (use assms in simp_all)

lemma log_ok_later:
  assumes "log_ok evs" "ob_aggregate_type row = AT_memory" "event_key row \<notin> event_key ` set evs"
    and "last_event evs (ob_aggregate_id row) = Some prev" "ob_env_id prev = ob_env_id row"
  shows "log_ok (evs @ [row])"
proof (rule log_ok_snoc)
  have prev: "prev \<in> set evs" "ob_aggregate_id prev = ob_aggregate_id row" using last_event_SomeD [OF assms(4)] by auto
  then have "(ob_aggregate_id row, 1) \<in> event_key ` set evs" using assms(1) unfolding log_ok_def by metis
  then show "(ob_aggregate_id row, 1) \<in> event_key ` set (evs @ [row])" by auto
  fix q assume "q \<in> set evs" "ob_aggregate_id q = ob_aggregate_id row"
  then show "ob_env_id q = ob_env_id row" using assms(1,5) prev unfolding log_ok_def by metis
qed (use assms in simp_all)

lemma projected_last:
  assumes "projected L" and "lookup m_id i (lg_memories L) = Some m"
  obtains prev where "last_event (lg_events L) i = Some prev" "ob_env_id prev = m_env_id m"
proof -
  have m: "m \<in> set (lg_memories L)" "m_id m = i" using lookup_SomeD [OF assms(2)] by auto
  obtain prev where p: "last_event (lg_events L) (m_id m) = Some prev" "describes L prev m"
    by (rule projectedD [OF assms(1) m(1)])
  have "ob_env_id prev = m_env_id m"
    using p(2) by (auto simp: describes_def snapshot_event_def dest: content_fields(4))
  then show ?thesis using p(1) m(2) that by blast
qed

lemma step_log:
  assumes "ledger_step L L'" and "projected L" and "log_ok (lg_events L)"
  shows "log_ok (lg_events L')"
  using assms(1)
proof cases
  case (create m c tags row)
  then show ?thesis using log_ok_first [OF assms(3), of row] by (simp add: snapshot_event_def)
next
  case (revise m old c tags row)
  obtain prev where "last_event (lg_events L) (m_id m) = Some prev" "ob_env_id prev = m_env_id old"
    by (rule projected_last [OF assms(2) revise(2)])
  then show ?thesis using log_ok_later [OF assms(3), of row prev] revise by (simp add: snapshot_event_def)
next
  case (remove m tags row)
  obtain prev where "last_event (lg_events L) (m_id m) = Some prev" "ob_env_id prev = m_env_id m"
    by (rule projected_last [OF assms(2) remove(2)])
  then show ?thesis using log_ok_later [OF assms(3), of row prev] remove by (simp add: snapshot_event_def)
next
  case (touch m old)
  then show ?thesis using assms(3) by simp
next
  case (widen es)
  then show ?thesis using assms(3) by simp
qed

lemma ledger_step_inv: "ledger_step L L' \<Longrightarrow> ledger_inv L \<Longrightarrow> ledger_inv L'"
  using step_rows step_projected step_log by (auto simp: ledger_inv_def)

lemma ledger_steps_inv: "ledger_step\<^sup>*\<^sup>* L L' \<Longrightarrow> ledger_inv L \<Longrightarrow> ledger_inv L'"
  by (induction rule: rtranclp_induct) (auto intro: ledger_step_inv)

lemma ledger_step_events: "ledger_step L L' \<Longrightarrow> set (lg_events L) \<subseteq> set (lg_events L')"
  by (induction rule: ledger_step.induct) auto

lemma ledger_steps_events: "ledger_step\<^sup>*\<^sup>* L L' \<Longrightarrow> set (lg_events L) \<subseteq> set (lg_events L')"
  by (induction rule: rtranclp_induct) (auto dest: ledger_step_events)

subsection \<open>The life of one memory\<close>

text \<open>What a step may do to a memory that is there before and after it.\<close>

definition row_step :: "memory \<Rightarrow> memory \<Rightarrow> bool" where
  "row_step r m \<longleftrightarrow> m_env_id m = m_env_id r \<and> m_version r \<le> m_version m \<and>
     (content m = content r \<or> m_version r < m_version m \<and> life_ok r m)"

lemma row_step_refl: "row_step m m"
  by (simp add: row_step_def)

lemma ids_distinct: "rows_ok L \<Longrightarrow> r \<in> set (lg_memories L) \<Longrightarrow> m \<in> set (lg_memories L) \<Longrightarrow> m_id r = m_id m \<Longrightarrow> r = m"
  by (auto simp: rows_ok_def distinct_map dest: inj_onD)

lemma put_row_cases:
  assumes "rows_ok L" and "lookup m_id (m_id m) (lg_memories L) = Some old"
    and "r \<in> set (lg_memories L)" "q \<in> set (put_row m (lg_memories L))" "m_id q = m_id r"
  shows "r = old \<and> q = m \<or> q = r"
proof (cases "q = m")
  case True
  have "old \<in> set (lg_memories L)" "m_id old = m_id m" using lookup_SomeD [OF assms(2)] by auto
  then show ?thesis using True ids_distinct [OF assms(1,3), of old] assms(5) by auto
next
  case False
  then have "q \<in> set (lg_memories L)" using assms(4) set_put_row [of m "lg_memories L"] by auto
  then show ?thesis using ids_distinct [OF assms(1,3), of q] assms(5) by auto
qed

lemma step_row:
  assumes "ledger_step L L'" and ok: "rows_ok L" and r: "r \<in> set (lg_memories L)"
    and q: "q \<in> set (lg_memories L')" "m_id q = m_id r"
  shows "row_step r q"
proof -
  have same: "row_step r q" if "q \<in> set (lg_memories L)"
    using ids_distinct [OF ok r that] q(2) row_step_refl by simp
  from assms(1) show ?thesis
  proof cases
    case (create m c tags row)
    have "q \<noteq> m" using create(2) q(2) r by (metis imageI)
    then show ?thesis using q(1) create(1) by (intro same) simp
  next
    case (revise m old c tags row)
    have "q \<in> set (put_row m (lg_memories L))" using q(1) revise(1) by simp
    from put_row_cases [OF ok revise(2) r this q(2)] show ?thesis
    proof
      assume "r = old \<and> q = m"
      then show ?thesis using revise(4-6) by (simp add: row_step_def)
    qed (simp add: row_step_refl)
  next
    case (remove m tags row)
    then show ?thesis using q(1) by (intro same) simp
  next
    case (touch m old)
    have "q \<in> set (put_row m (lg_memories L))" using q(1) touch(1) by simp
    from put_row_cases [OF ok touch(2) r this q(2)] show ?thesis
    proof
      assume "r = old \<and> q = m"
      then show ?thesis using touch(4) content_fields [OF touch(4)] by (simp add: row_step_def)
    qed (simp add: row_step_refl)
  next
    case (widen es)
    then show ?thesis using q(1) by (intro same) simp
  qed
qed

text \<open>An id that had a memory and lost it is never used again: its first event is still in the log.\<close>

definition spent :: "ledger \<Rightarrow> uuid \<Rightarrow> bool" where
  "spent L i \<longleftrightarrow> (i, 1) \<in> event_key ` set (lg_events L)"

lemma row_spent:
  assumes "ledger_inv L" and "m \<in> set (lg_memories L)"
  shows "spent L (m_id m)"
proof -
  have inv: "projected L" "log_ok (lg_events L)" using assms(1) by (simp_all add: ledger_inv_def)
  obtain row where "last_event (lg_events L) (m_id m) = Some row" "describes L row m"
    by (rule projectedD [OF inv(1) assms(2)])
  then have row: "row \<in> set (lg_events L)" "ob_aggregate_id row = m_id m" by (auto dest: last_event_SomeD)
  have "(ob_aggregate_id row, 1) \<in> event_key ` set (lg_events L)"
    using inv(2) row(1) by (simp add: log_ok_def)
  then show ?thesis unfolding spent_def row(2) .
qed

lemma step_spent: "ledger_step L L' \<Longrightarrow> spent L i \<Longrightarrow> spent L' i"
  using ledger_step_events unfolding spent_def by blast

lemma step_gone:
  assumes "ledger_step L L'" and "spent L i" and "i \<notin> m_id ` set (lg_memories L)"
  shows "i \<notin> m_id ` set (lg_memories L')"
  using assms(1)
proof cases
  case (create m c tags row)
  have "event_key row = (m_id m, 1)" using create(4,5) by (simp add: snapshot_event_def event_key_def)
  then have "m_id m \<noteq> i" using create(6) assms(2) by (auto simp: spent_def)
  then show ?thesis using create(1) assms(3) by auto
qed (use assms(3) in \<open>auto simp: set_delete_where\<close>)

text \<open>A property of rows that every row step keeps is kept by runs, through deletions too.\<close>

lemma run_keeps:
  assumes "ledger_step\<^sup>*\<^sup>* L L'" and "ledger_inv L" and "r \<in> set (lg_memories L)" and "P r"
    and keeps: "\<And>L r q es. \<lbrakk> ledger_inv L; r \<in> set (lg_memories L); row_alone (lg_environments L) r; row_step r q; row_alone es q; P r \<rbrakk> \<Longrightarrow> P q"
  shows "\<forall>q \<in> set (lg_memories L'). m_id q = m_id r \<longrightarrow> P q"
  using assms(1)
proof (induction rule: rtranclp_induct)
  case base
  then show ?case using assms(2-4) ids_distinct by (metis ledger_inv_def)
next
  case (step L1 L2)
  have inv: "ledger_inv L1" using ledger_steps_inv [OF step(1) assms(2)] .
  have sp: "spent L1 (m_id r)"
    using row_spent [OF assms(2,3)] ledger_steps_events [OF step(1)] unfolding spent_def by blast
  show ?case
  proof (intro ballI impI)
    fix q assume q: "q \<in> set (lg_memories L2)" "m_id q = m_id r"
    then have "m_id r \<in> m_id ` set (lg_memories L1)" using step_gone [OF step(2) sp] by (metis imageI)
    then obtain p where p: "p \<in> set (lg_memories L1)" "m_id p = m_id r" by auto
    have "row_step p q" using step_row [OF step(2) _ p(1) q(1)] inv p(2) q(2) by (simp add: ledger_inv_def)
    moreover have "row_alone (lg_environments L1) p" using inv p(1) by (simp add: ledger_inv_def rows_ok_def row_ok_iff)
    moreover have "row_alone (lg_environments L2) q"
      using ledger_step_inv [OF step(2) inv] q(1) by (simp add: ledger_inv_def rows_ok_def row_ok_iff)
    ultimately show "P q" using keeps [OF inv p(1)] step.IH p by blast
  qed
qed

subsection \<open>Stale reads\<close>

lemma map_JStr_inject: "map JStr xs = map JStr ys \<longleftrightarrow> xs = ys"
  by (rule inj_map_eq_map) (simp add: inj_def)

lemma payload_inject:
  assumes "projection_payload m tags model = projection_payload m' tags' model'"
  shows "m_status m = m_status m'" "tags = tags'"
  using assms by (auto simp: projection_payload_def texts_def map_JStr_inject)

lemma describesE:
  assumes "describes L row m"
  obtains m0 tags model where "content m0 = content m" "event_key row = (m_id m, m_version m)"
    "ob_env_id row = m_env_id m" "ob_payload row = projection_payload m0 tags model"
    "set tags = lg_tags L (m_id m)" "ob_op row = OP_tombstone \<longleftrightarrow> \<not> visible_in_projection (m_status m)"
proof -
  obtain m0 tags op where d: "content m0 = content m" "snapshot_event m0 (m_version m) op tags row"
      "set tags = lg_tags L (m_id m)" "op = OP_tombstone \<longleftrightarrow> \<not> visible_in_projection (m_status m)"
    using assms unfolding describes_def by blast
  show ?thesis
    using d(2) content_fields [OF d(1)] d(3,4)
    by (auto simp: snapshot_event_def event_key_def intro: that [OF d(1)])
qed

text \<open>A row read earlier at the version it still has: the event of that version fixes its content.\<close>

lemma stale_read:
  assumes inv: "ledger_inv L0" "ledger_inv L" and sub: "set (lg_events L0) \<subseteq> set (lg_events L)"
    and m0: "m0 \<in> set (lg_memories L0)" and m: "m \<in> set (lg_memories L)"
    and same: "m_id m0 = m_id m" "m_version m0 = m_version m"
  shows "m_status m0 = m_status m \<and> m_env_id m0 = m_env_id m \<and> lg_tags L0 (m_id m) = lg_tags L (m_id m)"
proof -
  obtain row0 where r0: "last_event (lg_events L0) (m_id m0) = Some row0" "describes L0 row0 m0"
    using projectedD [OF _ m0] inv(1) by (auto simp: ledger_inv_def)
  obtain row where r: "last_event (lg_events L) (m_id m) = Some row" "describes L row m"
    using projectedD [OF _ m] inv(2) by (auto simp: ledger_inv_def)
  obtain a t model where a: "content a = content m0" "event_key row0 = (m_id m0, m_version m0)"
      "ob_payload row0 = projection_payload a t model" "set t = lg_tags L0 (m_id m0)"
    using r0(2) by (rule describesE)
  obtain b u model' where b: "content b = content m" "event_key row = (m_id m, m_version m)"
      "ob_payload row = projection_payload b u model'" "set u = lg_tags L (m_id m)"
    using r(2) by (rule describesE)
  have "row0 \<in> set (lg_events L)" "row \<in> set (lg_events L)"
    using r0(1) r(1) sub by (auto dest: last_event_SomeD)
  moreover have "event_key row0 = event_key row" using a(2) b(2) same by simp
  ultimately have "row0 = row"
    using inv(2) by (auto simp: ledger_inv_def log_ok_def distinct_map dest: inj_onD)
  then have p: "projection_payload a t model = projection_payload b u model'" using a(3) b(3) by simp
  then have "m_env_id a = m_env_id b" by (simp add: projection_payload_def)
  with p show ?thesis
    using payload_inject [OF p] content_fields [OF a(1)] content_fields [OF b(1)] a(4) b(4) same(1) by simp
qed

end
