(* ===== verification/Memories.thy ===== *)
theory Memories
  imports MemoryRows
begin

text \<open>
  The tool calls of \<open>memory_mcp/memories.py\<close> on single memories: write, read, update with its
  lifecycle wrappers, and supersede. A call is \<open>Inl\<close> of its exception or \<open>Inr\<close> of the new
  database and the response. Parameters: \<open>sha\<close>, the text digest; \<open>refs\<close>, the citation counters
  of a row; \<open>now\<close>, the transaction's \<open>now()\<close> (or the process clock where the code reads that
  one). Where an optimistic-lock update follows a read, the read sees the state \<open>d0\<close> and the
  update finds \<open>d\<close>, which other transactions may have changed in between.
\<close>

record memory_write_request =
  mw_kind :: memory_kind
  mw_title :: "string option"
  mw_body :: string
  mw_trigger_description :: "string option"
  mw_steps :: "string list option"
  mw_macro :: "string option"
  mw_env_id :: "uuid option"
  mw_tags :: "string list"
  mw_metadata :: payload
  mw_salience :: "real option"
  mw_confidence :: "real option"
  mw_expires_at :: "time option"
  mw_pinned :: bool
  mw_entity_links :: "uuid list"
  mw_source_type :: memory_source_type
  mw_source_ref :: "string option"
  mw_evidence_span :: "string option"
  mw_decision_meta :: "payload option"

subsection \<open>Write\<close>

text \<open>The row \<open>_memory_write_in_session\<close> adds, with the server defaults of the other columns.\<close>

definition new_memory ::
  "uuid \<Rightarrow> uuid \<Rightarrow> memory_write_request \<Rightarrow> string list option \<Rightarrow> string option \<Rightarrow> payload option \<Rightarrow> time \<Rightarrow> memory" where
  "new_memory i env req steps macro meta now =
     \<lparr>m_id = i, m_env_id = env, m_kind = mw_kind req, m_status = MS_active, m_title = mw_title req,
      m_body = mw_body req, m_trigger_description = mw_trigger_description req, m_steps = steps, m_macro = macro,
      m_salience = (case mw_salience req of None \<Rightarrow> 1/2 | Some s \<Rightarrow> s),
      m_confidence = (case mw_confidence req of None \<Rightarrow> 1/2 | Some c \<Rightarrow> c),
      m_access_count = 0, m_last_accessed_at = None, m_pinned = mw_pinned req, m_negative_feedback_count = 0,
      m_verified_at = None, m_created_at = now, m_updated_at = now, m_expires_at = mw_expires_at req,
      m_superseded_by = None, m_metadata = mw_metadata req, m_decision_meta = meta, m_version = 1\<rparr>"

definition session_text :: "(uuid \<Rightarrow> string) \<Rightarrow> agent_context \<Rightarrow> string option" where
  "session_text uuid_text ctx = map_option uuid_text (ctx_session_id ctx)"

definition write_source :: "(uuid \<Rightarrow> string) \<Rightarrow> time \<Rightarrow> agent_context \<Rightarrow> memory_write_request \<Rightarrow> uuid \<Rightarrow> memory_source" where
  "write_source uuid_text now ctx req i =
     \<lparr>src_memory_id = i, src_type = mw_source_type req,
      src_ref = (case mw_source_ref req of Some r \<Rightarrow> Some r | None \<Rightarrow> session_text uuid_text ctx),
      src_agent_id = Some (ctx_agent_id ctx), src_evidence_span = mw_evidence_span req, src_created_at = now\<rparr>"

text \<open>The \<open>mentions\<close> relations of a new memory, one per linked entity.\<close>

fun link_entities :: "time \<Rightarrow> uuid \<Rightarrow> graph_node \<Rightarrow> uuid list \<Rightarrow> db \<Rightarrow> db res" where
  "link_entities now env mnode [] d = Inr d"
| "link_entities now env mnode (i # is) d =
     bindE (entity_graph_node env i d) (\<lambda>(d1, enode).
     bindE (case find_relation d1 (gn_id mnode) (gn_id enode) ''mentions'' of
              Some _ \<Rightarrow> Inr d1
            | None \<Rightarrow> insert_relation_row
                (new_relation (next_uuid d1) env mnode enode ''mentions'' [] now) (draw_uuid d1)) (\<lambda>d2.
       link_entities now env mnode is d2))"

definition link_new_memory :: "time \<Rightarrow> uuid \<Rightarrow> uuid \<Rightarrow> uuid list \<Rightarrow> db \<Rightarrow> db res" where
  "link_new_memory now env i links d =
     (if links = [] then Inr d
      else bindE (memory_graph_node env i d) (\<lambda>(d1, mnode). link_entities now env mnode (dedupe links) d1))"

definition set_new_tags :: "uuid \<Rightarrow> uuid \<Rightarrow> string list \<Rightarrow> db \<Rightarrow> db res" where
  "set_new_tags i env names d = (if names = [] then Inr d else set_tags i env names d)"

definition memory_write_in_session ::
  "(string \<Rightarrow> string) \<Rightarrow> (uuid \<Rightarrow> string) \<Rightarrow> (uuid \<Rightarrow> reference_columns) \<Rightarrow> settings \<Rightarrow> time \<Rightarrow> agent_context
   \<Rightarrow> memory_write_request \<Rightarrow> uuid \<Rightarrow> string list \<Rightarrow> string list option \<Rightarrow> string option \<Rightarrow> db \<Rightarrow> (db \<times> memory_response) res" where
  "memory_write_in_session sha uuid_text refs st now ctx req env tag_names steps macro d =
     bindE (ensure_macro_available env macro None d) (\<lambda>_.
     macro_guard (
     bindE (load_env_embedding_model d env) (\<lambda>model.
     bindE (validate_decision_meta_for_kind (mw_kind req) (mw_decision_meta req) env d) (\<lambda>meta.
     let m = new_memory (next_uuid d) env req steps macro meta now in
     bindE (insert_memory m (draw_uuid d)) (\<lambda>d1.
     bindE (set_new_tags (m_id m) env tag_names d1) (\<lambda>d2.
     bindE (insert_memory_source (write_source uuid_text now ctx req (m_id m)) d2) (\<lambda>d3.
     bindE (link_new_memory now env (m_id m) (mw_entity_links req) d3) (\<lambda>d4.
     let d5 = record_audit ''create'' m (ctx_agent_id ctx) None (Some (audit_snapshot sha m (Some tag_names))) None d4 in
     bindE (enqueue_memory st now m (m_version m) (outbox_op_for MS_active True) tag_names model d5) (\<lambda>d6.
       Inr (d6, memory_to_response refs m tag_names))))))))))"

definition memory_write ::
  "(string \<Rightarrow> string) \<Rightarrow> (uuid \<Rightarrow> string) \<Rightarrow> (uuid \<Rightarrow> reference_columns) \<Rightarrow> settings \<Rightarrow> time \<Rightarrow> agent_context
   \<Rightarrow> memory_write_request \<Rightarrow> db \<Rightarrow> (db \<times> memory_response) res" where
  "memory_write sha uuid_text refs st now ctx req d =
     bindE (resolve_env_id (mw_env_id req) ctx) (\<lambda>env.
     bindE (rbac_require ''write'' (Some env) ctx) (\<lambda>_.
     bindE (normalize_tags (mw_tags req)) (\<lambda>tag_names.
     bindE (normalize_playbook_fields (mw_kind req) (mw_steps req) (mw_macro req)) (\<lambda>(steps, macro).
       macro_guard (memory_write_in_session sha uuid_text refs st now ctx req env tag_names steps macro d)))))"

subsection \<open>Read\<close>

definition bumped_inputs :: "time \<Rightarrow> reference_columns \<Rightarrow> memory \<Rightarrow> salience_inputs" where
  "bumped_inputs now rc m = \<lparr>si_access_count = m_access_count m + 1, si_last_accessed_at = Some now,
     si_confidence = m_confidence m, si_pinned = m_pinned m,
     si_negative_feedback_count = m_negative_feedback_count m, si_verified_at = m_verified_at m,
     si_created_at = m_created_at m, si_references = rc\<rparr>"

text \<open>
  \<open>UPDATE memories SET access_count = access_count + 1, last_accessed_at = ..., salience = ...
  WHERE id = ?\<close>: the version stays, so the row's version trigger lets it through.
\<close>

definition bump_memory :: "time \<Rightarrow> salience_weights \<Rightarrow> reference_columns \<Rightarrow> memory \<Rightarrow> db \<Rightarrow> db res" where
  "bump_memory now w rc m d =
     (let s = compute_salience (bumped_inputs now rc m) now w;
          f = (\<lambda>r. r\<lparr>m_access_count := m_access_count r + 1, m_last_accessed_at := Some now, m_salience := s\<rparr>)
      in case lookup m_id (m_id m) (memories d) of
           None \<Rightarrow> Inr d
         | Some r \<Rightarrow> (case memory_violation d (f r) of
               Some c \<Rightarrow> Inl (IntegrityError c)
             | None \<Rightarrow> Inr (d\<lparr>memories := update_where (\<lambda>r. m_id r = m_id m) f (memories d)\<rparr>)))"

definition memory_get ::
  "(uuid \<Rightarrow> reference_columns) \<Rightarrow> salience_weights \<Rightarrow> time \<Rightarrow> agent_context \<Rightarrow> uuid \<Rightarrow> bool \<Rightarrow> db \<Rightarrow> (db \<times> memory_response) res" where
  "memory_get refs w now ctx i bump_access d =
     bindE (load_memory i d) (\<lambda>m.
     bindE (rbac_require ''read'' (Some (m_env_id m)) ctx) (\<lambda>_.
     bindE (ensure_env_visible m ctx) (\<lambda>_.
     bindE (if bump_access \<and> visible_in_projection (m_status m) then bump_memory now w (refs i) m d else Inr d) (\<lambda>d'.
     bindE (load_memory i d') (\<lambda>m'.
       Inr (d', memory_to_response refs m' (load_tag_names d' i)))))))"

definition visible_rows :: "agent_context \<Rightarrow> uuid list \<Rightarrow> db \<Rightarrow> memory list" where
  "visible_rows ctx ids d =
     filter (\<lambda>m. ctx_attached_env_ids ctx = [] \<or> m_env_id m \<in> set (ctx_attached_env_ids ctx))
       (List.map_filter (\<lambda>i. lookup m_id i (memories d)) ids)"

fun bump_all :: "(uuid \<Rightarrow> reference_columns) \<Rightarrow> salience_weights \<Rightarrow> time \<Rightarrow> memory list \<Rightarrow> db \<Rightarrow> db res" where
  "bump_all refs w now [] d = Inr d"
| "bump_all refs w now (m # ms) d =
     bindE (bump_memory now w (refs (m_id m)) m d) (\<lambda>d'. bump_all refs w now ms d')"

text \<open>The row a response shows: refreshed from the database after the bumps.\<close>

definition refreshed :: "db \<Rightarrow> memory \<Rightarrow> memory" where
  "refreshed d m = (case lookup m_id (m_id m) (memories d) of None \<Rightarrow> m | Some r \<Rightarrow> r)"

definition memory_get_many ::
  "(uuid \<Rightarrow> reference_columns) \<Rightarrow> salience_weights \<Rightarrow> time \<Rightarrow> agent_context \<Rightarrow> uuid list \<Rightarrow> bool \<Rightarrow> db
   \<Rightarrow> (db \<times> memory_response list) res" where
  "memory_get_many refs w now ctx ids bump_access d =
     (if ids = [] then Inr (d, [])
      else let vs = visible_rows ctx ids d in
        if vs = [] then Inr (d, [])
        else bindE (if bump_access then bump_all refs w now (filter (\<lambda>m. visible_in_projection (m_status m)) vs) d
                    else Inr d) (\<lambda>d'.
          Inr (d', map (\<lambda>m. memory_to_response refs
              (if bump_access \<and> visible_in_projection (m_status m) then refreshed d' m else m)
              (load_tag_names d (m_id m))) vs)))"

subsection \<open>Update\<close>

text \<open>
  A field of the patch is \<open>None\<close> when the caller did not set it, \<open>Some None\<close> when it set it to
  null.
\<close>

type_synonym 'a patch_field = "'a option option"

record memory_update_patch =
  mp_expected_version :: int
  mp_title :: "string patch_field"
  mp_body :: "string patch_field"
  mp_trigger_description :: "string patch_field"
  mp_steps :: "string list patch_field"
  mp_macro :: "string patch_field"
  mp_kind :: "memory_kind patch_field"
  mp_status :: "memory_status patch_field"
  mp_tags :: "string list patch_field"
  mp_metadata :: "payload patch_field"
  mp_salience :: "real patch_field"
  mp_confidence :: "real patch_field"
  mp_pinned :: "bool patch_field"
  mp_expires_at :: "time patch_field"
  mp_verified_at :: "time patch_field"
  mp_decision_meta :: "payload patch_field"

definition empty_patch :: "int \<Rightarrow> memory_update_patch" where
  "empty_patch v = \<lparr>mp_expected_version = v, mp_title = None, mp_body = None, mp_trigger_description = None,
     mp_steps = None, mp_macro = None, mp_kind = None, mp_status = None, mp_tags = None, mp_metadata = None,
     mp_salience = None, mp_confidence = None, mp_pinned = None, mp_expires_at = None, mp_verified_at = None,
     mp_decision_meta = None\<rparr>"

text \<open>A nullable column takes the field as it is, the others ignore a null.\<close>

definition patch_nullable :: "'a patch_field \<Rightarrow> 'a option \<Rightarrow> 'a option" where
  "patch_nullable p old = (case p of None \<Rightarrow> old | Some v \<Rightarrow> v)"

definition patch_value :: "'a patch_field \<Rightarrow> 'a \<Rightarrow> 'a" where
  "patch_value p old = (case p of Some (Some v) \<Rightarrow> v | _ \<Rightarrow> old)"

text \<open>
  The values of the update statement: the normalized playbook fields replace the columns only
  when they were set, \<open>meta\<close> is the new value of \<open>decision_meta\<close> when the field was set.
\<close>

definition apply_patch ::
  "memory_update_patch \<Rightarrow> string list option \<Rightarrow> string option \<Rightarrow> payload option option \<Rightarrow> int \<Rightarrow> time \<Rightarrow> memory \<Rightarrow> memory" where
  "apply_patch p steps macro meta version now r =
     r\<lparr>m_version := version, m_updated_at := now,
       m_title := patch_nullable (mp_title p) (m_title r),
       m_body := patch_value (mp_body p) (m_body r),
       m_trigger_description := patch_nullable (mp_trigger_description p) (m_trigger_description r),
       m_steps := (if mp_steps p \<noteq> None then steps else m_steps r),
       m_macro := (if mp_macro p \<noteq> None then macro else m_macro r),
       m_kind := patch_value (mp_kind p) (m_kind r),
       m_status := patch_value (mp_status p) (m_status r),
       m_metadata := (case mp_metadata p of None \<Rightarrow> m_metadata r | Some None \<Rightarrow> [] | Some (Some md) \<Rightarrow> md),
       m_decision_meta := (case meta of None \<Rightarrow> m_decision_meta r | Some v \<Rightarrow> v),
       m_salience := patch_value (mp_salience p) (m_salience r),
       m_confidence := patch_value (mp_confidence p) (m_confidence r),
       m_pinned := patch_value (mp_pinned p) (m_pinned r),
       m_expires_at := patch_nullable (mp_expires_at p) (m_expires_at r),
       m_verified_at := patch_nullable (mp_verified_at p) (m_verified_at r)\<rparr>"

text \<open>The new \<open>decision_meta\<close>, or the refusal to keep one on a memory that is no decision.\<close>

definition patch_decision_meta :: "memory_update_patch \<Rightarrow> memory \<Rightarrow> db \<Rightarrow> payload option option res" where
  "patch_decision_meta p m d =
     (let kind = patch_value (mp_kind p) (m_kind m) in
      case mp_decision_meta p of
        Some meta \<Rightarrow> bindE (validate_decision_meta_for_kind kind meta (m_env_id m) d) (\<lambda>v. Inr (Some v))
      | None \<Rightarrow> bindE (raise_if (m_decision_meta m \<noteq> None \<and> kind \<noteq> MK_decision) (InvalidInputError ''decision_meta''))
                 (\<lambda>_. Inr None))"

text \<open>Everything up to the update statement: the row as read and the update to apply.\<close>

definition memory_update_check ::
  "time \<Rightarrow> agent_context \<Rightarrow> uuid \<Rightarrow> memory_update_patch \<Rightarrow> db \<Rightarrow> (memory \<times> (memory \<Rightarrow> memory)) res" where
  "memory_update_check now ctx i p d =
     bindE (load_memory i d) (\<lambda>m.
     bindE (rbac_require ''write'' (Some (m_env_id m)) ctx) (\<lambda>_.
     bindE (ensure_env_visible m ctx) (\<lambda>_.
     bindE (raise_if (m_version m \<noteq> mp_expected_version p) (VersionConflictError (mp_expected_version p) (m_version m))) (\<lambda>_.
     bindE (normalize_playbook_fields (patch_value (mp_kind p) (m_kind m)) (patch_nullable (mp_steps p) (m_steps m))
              (patch_nullable (mp_macro p) (m_macro m))) (\<lambda>(steps, macro).
     bindE (ensure_macro_available (m_env_id m) macro (Some i) d) (\<lambda>_.
     bindE (raise_if (mp_body p = Some None) (ValueError ''body cannot be cleared'')) (\<lambda>_.
     bindE (raise_if (\<not> is_valid_transition (m_status m) (patch_value (mp_status p) (m_status m)))
              (InvalidTransitionError (memory_status_value (m_status m))
                 (memory_status_value (patch_value (mp_status p) (m_status m))))) (\<lambda>_.
     bindE (patch_decision_meta p m d) (\<lambda>meta.
       Inr (m, apply_patch p steps macro meta (m_version m + 1) now))))))))))"

definition fresh_memory_version :: "uuid \<Rightarrow> int \<Rightarrow> db \<Rightarrow> int" where
  "fresh_memory_version i expected d = (case lookup m_id i (memories d) of None \<Rightarrow> expected + 1 | Some m \<Rightarrow> m_version m)"

definition patch_tags :: "memory_update_patch \<Rightarrow> memory \<Rightarrow> string list \<Rightarrow> db \<Rightarrow> (db \<times> string list) res" where
  "patch_tags p m old_tags d =
     (case mp_tags p of
        None \<Rightarrow> Inr (d, old_tags)
      | Some ts \<Rightarrow>
          bindE (normalize_tags (case ts of None \<Rightarrow> [] | Some xs \<Rightarrow> xs)) (\<lambda>names.
          bindE (set_tags (m_id m) (m_env_id m) names d) (\<lambda>d'. Inr (d', names))))"

text \<open>The update statement and what follows it in the transaction.\<close>

definition memory_update_commit ::
  "(string \<Rightarrow> string) \<Rightarrow> settings \<Rightarrow> time \<Rightarrow> agent_context \<Rightarrow> uuid \<Rightarrow> memory_update_patch \<Rightarrow> payload option
   \<Rightarrow> memory \<Rightarrow> string list \<Rightarrow> (memory \<Rightarrow> memory) \<Rightarrow> db \<Rightarrow> (db \<times> memory \<times> string list) res" where
  "memory_update_commit sha st now ctx i p audit_extra old old_tags f d =
     bindE (update_memory_row i (mp_expected_version p) f d) (\<lambda>(d1, rowcount).
     bindE (raise_if (rowcount = 0) (VersionConflictError (mp_expected_version p) (fresh_memory_version i (mp_expected_version p) d))) (\<lambda>_.
     bindE (load_memory i d1) (\<lambda>m.
     bindE (patch_tags p m old_tags d1) (\<lambda>(d2, new_tags).
     let d3 = record_audit ''update'' m (ctx_agent_id ctx) (Some (audit_snapshot sha old (Some old_tags)))
                (Some (audit_snapshot sha m (Some new_tags))) audit_extra d2 in
     bindE (load_env_embedding_model d3 (m_env_id m)) (\<lambda>model.
     bindE (enqueue_memory st now m (m_version m) (outbox_op_for (patch_value (mp_status p) (m_status old)) False) new_tags model d3) (\<lambda>d4.
       Inr (d4, m, new_tags)))))))"

definition memory_update ::
  "(string \<Rightarrow> string) \<Rightarrow> (uuid \<Rightarrow> reference_columns) \<Rightarrow> settings \<Rightarrow> time \<Rightarrow> agent_context \<Rightarrow> uuid \<Rightarrow> memory_update_patch
   \<Rightarrow> payload option \<Rightarrow> db \<Rightarrow> db \<Rightarrow> (db \<times> memory_response) res" where
  "memory_update sha refs st now ctx i p audit_extra d0 d =
     macro_guard (
     bindE (memory_update_check now ctx i p d0) (\<lambda>(old, f).
     bindE (memory_update_commit sha st now ctx i p audit_extra old (load_tag_names d0 i) f d) (\<lambda>(d', m, tags).
       Inr (d', memory_to_response refs m tags))))"

definition memory_archive ::
  "(string \<Rightarrow> string) \<Rightarrow> (uuid \<Rightarrow> reference_columns) \<Rightarrow> settings \<Rightarrow> time \<Rightarrow> agent_context \<Rightarrow> uuid \<Rightarrow> int \<Rightarrow> db \<Rightarrow> db
   \<Rightarrow> (db \<times> memory_response) res" where
  "memory_archive sha refs st now ctx i v d0 d =
     memory_update sha refs st now ctx i ((empty_patch v)\<lparr>mp_status := Some (Some MS_archived)\<rparr>) None d0 d"

definition memory_retire ::
  "(string \<Rightarrow> string) \<Rightarrow> (uuid \<Rightarrow> reference_columns) \<Rightarrow> settings \<Rightarrow> time \<Rightarrow> agent_context \<Rightarrow> uuid \<Rightarrow> int \<Rightarrow> string
   \<Rightarrow> db \<Rightarrow> db \<Rightarrow> (db \<times> memory_response) res" where
  "memory_retire sha refs st now ctx i v reason d0 d =
     bindE (raise_if (strip reason = []) (ValueError ''reason is required for memory_retire'')) (\<lambda>_.
       memory_update sha refs st now ctx i ((empty_patch v)\<lparr>mp_status := Some (Some MS_retired)\<rparr>)
         (Some [(''retire_reason'', JStr (strip reason))]) d0 d)"

subsection \<open>Supersede\<close>

definition supersede_source :: "(uuid \<Rightarrow> string) \<Rightarrow> time \<Rightarrow> agent_context \<Rightarrow> uuid \<Rightarrow> memory_source" where
  "supersede_source uuid_text now ctx i =
     \<lparr>src_memory_id = i, src_type = SRC_agent, src_ref = session_text uuid_text ctx,
      src_agent_id = Some (ctx_agent_id ctx), src_evidence_span = None, src_created_at = now\<rparr>"

definition mark_superseded :: "uuid \<Rightarrow> int \<Rightarrow> time \<Rightarrow> memory \<Rightarrow> memory" where
  "mark_superseded successor version now r =
     r\<lparr>m_status := MS_superseded, m_superseded_by := Some successor, m_version := version, m_updated_at := now\<rparr>"

definition memory_supersede_check ::
  "agent_context \<Rightarrow> uuid \<Rightarrow> int \<Rightarrow> memory_write_request \<Rightarrow> db \<Rightarrow> memory res" where
  "memory_supersede_check ctx i expected_version req d =
     bindE (load_memory i d) (\<lambda>old.
     bindE (rbac_require ''write'' (Some (m_env_id old)) ctx) (\<lambda>_.
     bindE (ensure_env_visible old ctx) (\<lambda>_.
     bindE (raise_if (mw_env_id req \<noteq> None \<and> mw_env_id req \<noteq> Some (m_env_id old)) (InvalidTransitionError ''env'' ''env'')) (\<lambda>_.
     bindE (raise_if (m_version old \<noteq> expected_version) (VersionConflictError expected_version (m_version old))) (\<lambda>_.
     bindE (raise_if (\<not> is_valid_transition (m_status old) MS_superseded)
              (InvalidTransitionError (memory_status_value (m_status old)) (memory_status_value MS_superseded))) (\<lambda>_.
       Inr old))))))"

text \<open>
  The new row of a supersede has neither steps nor macro: the request's are not passed on. The
  old tags are read after the new memory's rows are in.
\<close>

definition memory_supersede ::
  "(string \<Rightarrow> string) \<Rightarrow> (uuid \<Rightarrow> string) \<Rightarrow> (uuid \<Rightarrow> reference_columns) \<Rightarrow> settings \<Rightarrow> time \<Rightarrow> agent_context \<Rightarrow> uuid \<Rightarrow> int
   \<Rightarrow> memory_write_request \<Rightarrow> db \<Rightarrow> db \<Rightarrow> (db \<times> memory_response \<times> memory_response) res" where
  "memory_supersede sha uuid_text refs st now ctx i expected_version req d0 d =
     bindE (normalize_tags (mw_tags req)) (\<lambda>new_tags.
     bindE (memory_supersede_check ctx i expected_version req d0) (\<lambda>old.
     let env = m_env_id old in
     bindE (load_env_embedding_model d env) (\<lambda>model.
     bindE (validate_decision_meta_for_kind (mw_kind req) (mw_decision_meta req) env d) (\<lambda>meta.
     let m = new_memory (next_uuid d) env req None None meta now in
     bindE (insert_memory m (draw_uuid d)) (\<lambda>d1.
     bindE (set_new_tags (m_id m) env new_tags d1) (\<lambda>d2.
     bindE (insert_memory_source (supersede_source uuid_text now ctx (m_id m)) d2) (\<lambda>d3.
     let old_tags = load_tag_names d3 i in
     bindE (update_memory_row i expected_version (mark_superseded (m_id m) (m_version old + 1) now) d3) (\<lambda>(d4, rowcount).
     bindE (raise_if (rowcount = 0) (VersionConflictError expected_version (expected_version + 1))) (\<lambda>_.
     bindE (load_memory i d4) (\<lambda>old'.
     bindE (insert_lineage \<lparr>ln_parent = i, ln_child = m_id m, ln_relation = LR_supersedes, ln_created_at = now\<rparr> d4) (\<lambda>d5.
     let d6 = record_audit ''create'' m (ctx_agent_id ctx) None (Some (audit_snapshot sha m (Some new_tags)))
                (Some [(''supersedes'', JUuid i)]) d5;
         d7 = record_audit ''supersede'' old' (ctx_agent_id ctx) (Some (audit_snapshot sha old (Some old_tags)))
                (Some (audit_snapshot sha old' (Some old_tags))) (Some [(''superseded_by'', JUuid (m_id m))]) d6 in
     bindE (enqueue_memory st now m (m_version m) (outbox_op_for MS_active True) new_tags model d7) (\<lambda>d8.
     bindE (enqueue_memory st now old' (m_version old') (outbox_op_for MS_superseded False) old_tags model d8) (\<lambda>d9.
       Inr (d9, memory_to_response refs old' old_tags, memory_to_response refs m new_tags))))))))))))))"

end
