(* ===== verification/HardDelete.thy ===== *)
theory HardDelete
  imports Memories
begin

text \<open>
  \<open>memory_hard_delete\<close> of \<open>memory_mcp/memories.py\<close>: the guarded delete of a single memory, the
  collection of the memories that depend on it (breadth first, with a depth and a row cap), and
  the cascade. The cascade collects in one transaction and deletes in a second one: \<open>d0\<close> is the
  state of the first, \<open>d\<close> that of the second.
\<close>

record hard_delete_request =
  hd_expected_version :: int
  hd_reason :: string
  hd_confirm_destroy :: bool
  hd_cascade :: bool
  hd_max_cascade_depth :: nat
  hd_max_cascade_count :: nat
  hd_dry_run :: bool

record hard_delete_candidate =
  cd_id :: uuid
  cd_env_id :: uuid
  cd_lifecycle_before :: memory_status
  cd_edge_reason :: string
  cd_version :: int
  cd_depth :: nat

record hard_delete_response =
  hr_deleted_id :: uuid
  hr_deleted_at :: "time option"
  hr_canonical_deleted :: bool
  hr_tombstone_id :: "uuid option"
  hr_cascade_root :: "uuid option"
  hr_affected :: "hard_delete_candidate list"

subsection \<open>Collecting the affected memories\<close>

definition order_hard_delete_candidates :: "hard_delete_candidate list \<Rightarrow> hard_delete_candidate list" where
  "order_hard_delete_candidates cs = sort_key (\<lambda>c. (- int (cd_depth c), cd_id c)) cs"

text \<open>\<open>dependents.setdefault(dependent.id, ...)\<close>: the first entry of an id stays.\<close>

fun first_entries :: "(memory \<times> string) list \<Rightarrow> (memory \<times> string) list" where
  "first_entries [] = []"
| "first_entries ((m, why) # rest) = (m, why) # filter (\<lambda>e. m_id (fst e) \<noteq> m_id m) (first_entries rest)"

definition load_forward_hard_delete_dependents :: "db \<Rightarrow> uuid \<Rightarrow> (memory \<times> string) list" where
  "load_forward_hard_delete_dependents d i = first_entries
     ([(m, lineage_relation_value (ln_relation l)). l \<leftarrow> memory_lineage d, m \<leftarrow> memories d, ln_parent l = i \<and> m_id m = ln_child l] @
      [(m, lineage_relation_value LR_supersedes). m \<leftarrow> memories d, m_superseded_by m = Some i])"

definition blast_radius_error :: "string \<Rightarrow> nat \<Rightarrow> hard_delete_candidate list \<Rightarrow> uuid \<Rightarrow> error" where
  "blast_radius_error cap_hit limit affected offending =
     (let ids = map cd_id (order_hard_delete_candidates affected) in
      BlastRadiusExceededError cap_hit (int limit) (if offending \<in> set ids then ids else ids @ [offending]))"

definition candidate_of :: "memory \<Rightarrow> string \<Rightarrow> nat \<Rightarrow> hard_delete_candidate" where
  "candidate_of m why depth = \<lparr>cd_id = m_id m, cd_env_id = m_env_id m, cd_lifecycle_before = m_status m,
     cd_edge_reason = why, cd_version = m_version m, cd_depth = depth\<rparr>"

text \<open>The loop over the dependents of one candidate; it returns \<open>visited\<close> and what it queued.\<close>

fun visit_dependents ::
  "agent_context \<Rightarrow> hard_delete_request \<Rightarrow> nat \<Rightarrow> (memory \<times> string) list \<Rightarrow> hard_delete_candidate list
   \<Rightarrow> hard_delete_candidate list \<Rightarrow> (hard_delete_candidate list \<times> hard_delete_candidate list) res" where
  "visit_dependents ctx req depth [] visited queue = Inr (visited, queue)"
| "visit_dependents ctx req depth ((m, why) # rest) visited queue =
     (if m_id m \<in> cd_id ` set visited then visit_dependents ctx req depth rest visited queue
      else if hd_max_cascade_depth req < depth
        then Inl (blast_radius_error ''depth'' (hd_max_cascade_depth req) visited (m_id m))
      else bindE (ensure_env_visible m ctx) (\<lambda>_.
        bindE (rbac_require ''write'' (Some (m_env_id m)) ctx) (\<lambda>_.
        if hd_max_cascade_count req < length visited + 1
        then Inl (blast_radius_error ''count'' (hd_max_cascade_count req) visited (m_id m))
        else visit_dependents ctx req depth rest (visited @ [candidate_of m why depth])
               (queue @ [candidate_of m why depth]))))"

lemma visit_dependents_shape:
  assumes "visit_dependents ctx req depth deps visited queue = Inr (visited', queue')"
  shows "\<exists>new. visited' = visited @ new \<and> queue' = queue @ new \<and>
    (new \<noteq> [] \<longrightarrow> length visited' \<le> hd_max_cascade_count req)"
  using assms
proof (induction ctx req depth deps visited queue rule: visit_dependents.induct)
  case (1 ctx req depth visited queue)
  then show ?case by auto
next
  case (2 ctx req depth m why rest visited queue)
  show ?case
  proof (cases "m_id m \<in> cd_id ` set visited")
    case True
    then show ?thesis using 2 by simp
  next
    case False
    then have run: "visit_dependents ctx req depth rest (visited @ [candidate_of m why depth])
        (queue @ [candidate_of m why depth]) = Inr (visited', queue')"
      and le: "length visited + 1 \<le> hd_max_cascade_count req"
      and ok: "\<not> hd_max_cascade_depth req < depth" "ensure_env_visible m ctx = Inr ()"
      using "2.prems" by (auto simp: res_simps split: if_splits)
    obtain new where new: "visited' = (visited @ [candidate_of m why depth]) @ new"
        "queue' = (queue @ [candidate_of m why depth]) @ new"
        "new \<noteq> [] \<longrightarrow> length visited' \<le> hd_max_cascade_count req"
      using "2.IH"(2) [OF False ok(1,2) rbac_require_simp _ run] le by auto
    then show ?thesis using le by (intro exI [of _ "candidate_of m why depth # new"]) (cases new; simp)
  qed
qed

function collect_loop ::
  "db \<Rightarrow> agent_context \<Rightarrow> hard_delete_request \<Rightarrow> hard_delete_candidate list \<Rightarrow> hard_delete_candidate list
   \<Rightarrow> hard_delete_candidate list res" where
  "collect_loop d ctx req visited [] = Inr visited"
| "collect_loop d ctx req visited (current # queue) =
     bindE (visit_dependents ctx req (cd_depth current + 1)
              (load_forward_hard_delete_dependents d (cd_id current)) visited queue)
       (\<lambda>vq. collect_loop d ctx req (fst vq) (snd vq))"
  by pat_completeness auto

termination collect_loop
proof (relation "measure (\<lambda>(d, ctx, req, visited, queue). 2 * (hd_max_cascade_count req - length visited) + length queue)")
  fix d ctx req visited queue vq and current :: hard_delete_candidate
  assume "visit_dependents ctx req (cd_depth current + 1) (load_forward_hard_delete_dependents d (cd_id current)) visited queue = Inr vq"
  then have "visit_dependents ctx req (cd_depth current + 1) (load_forward_hard_delete_dependents d (cd_id current)) visited queue
      = Inr (fst vq, snd vq)" by simp
  from visit_dependents_shape [OF this] obtain new where new: "fst vq = visited @ new" "snd vq = queue @ new"
      "new \<noteq> [] \<longrightarrow> length (fst vq) \<le> hd_max_cascade_count req"
    by blast
  then show "((d, ctx, req, fst vq, snd vq), (d, ctx, req, visited, current # queue))
      \<in> measure (\<lambda>(d, ctx, req, visited, queue). 2 * (hd_max_cascade_count req - length visited) + length queue)"
    by (cases new) auto
qed simp

definition collect_hard_delete_affected ::
  "db \<Rightarrow> agent_context \<Rightarrow> hard_delete_request \<Rightarrow> memory \<Rightarrow> hard_delete_candidate list res" where
  "collect_hard_delete_affected d ctx req target =
     bindE (collect_loop d ctx req [candidate_of target ''target'' 0] [candidate_of target ''target'' 0])
       (\<lambda>visited. Inr (order_hard_delete_candidates visited))"

subsection \<open>Deleting\<close>

definition ensure_memory_hard_delete_allowed :: "db \<Rightarrow> uuid \<Rightarrow> unit res" where
  "ensure_memory_hard_delete_allowed d i =
     raise_if (list_ex (\<lambda>l. ln_parent l = i \<or> ln_child l = i) (memory_lineage d) \<or>
               list_ex (\<lambda>m. m_superseded_by m = Some i) (memories d) \<or>
               list_ex (node_of_memory i) (graph_nodes d))
       (ConflictError i)"

definition insert_tombstone :: "tombstone \<Rightarrow> db \<Rightarrow> db res" where
  "insert_tombstone t d =
     (if list_ex (\<lambda>o'. ts_id o' = ts_id t) (memory_tombstones d) then Inl (IntegrityError ''memory_tombstones_pkey'')
      else if \<not> env_exists d (ts_env_id t) then Inl (IntegrityError ''memory_tombstones_env_id_fkey'')
      else Inr (d\<lparr>memory_tombstones := memory_tombstones d @ [t]\<rparr>))"

text \<open>
  The rows written for one memory: tombstone, audit, the outbox tombstone at the next version,
  and the delete. \<open>corr\<close> is the cascade's correlation id, if any.
\<close>

definition delete_one ::
  "(string \<Rightarrow> string) \<Rightarrow> settings \<Rightarrow> time \<Rightarrow> agent_context \<Rightarrow> string \<Rightarrow> uuid option \<Rightarrow> memory \<Rightarrow> db \<Rightarrow> (db \<times> uuid) res" where
  "delete_one sha st now ctx reason corr m d =
     bindE (load_env_embedding_model d (m_env_id m)) (\<lambda>model.
     let tags = load_tag_names d (m_id m);
         tomb = next_uuid d in
     bindE (insert_tombstone \<lparr>ts_id = tomb, ts_env_id = m_env_id m, ts_deleted_by = ctx_agent_id ctx,
              ts_cascade_root = corr, ts_reason = reason, ts_original_kind = m_kind m,
              ts_original_status = m_status m\<rparr> (draw_uuid d)) (\<lambda>d1.
     let d2 = record_audit ''hard_delete'' m (ctx_agent_id ctx) (Some (audit_snapshot sha m (Some tags)))
                (Some ([(''deleted'', JBool True), (''tombstone_id'', JUuid tomb), (''reason'', JStr reason)] @
                       (case corr of None \<Rightarrow> [] | Some r \<Rightarrow> [(''cascade_root'', JUuid r)]))) None d1 in
     bindE (enqueue_memory st now m (m_version m + 1) OP_tombstone tags model d2) (\<lambda>d3.
     bindE (delete_memory_row (m_id m) d3) (\<lambda>d4. Inr (d4, tomb)))))"

definition hard_delete_single ::
  "(string \<Rightarrow> string) \<Rightarrow> settings \<Rightarrow> time \<Rightarrow> agent_context \<Rightarrow> uuid \<Rightarrow> hard_delete_request \<Rightarrow> string \<Rightarrow> db
   \<Rightarrow> (db \<times> hard_delete_response) res" where
  "hard_delete_single sha st now ctx i req reason d =
     bindE (load_memory i d) (\<lambda>m.
     bindE (rbac_require ''write'' (Some (m_env_id m)) ctx) (\<lambda>_.
     bindE (ensure_env_visible m ctx) (\<lambda>_.
     bindE (raise_if (m_version m \<noteq> hd_expected_version req) (VersionConflictError (hd_expected_version req) (m_version m))) (\<lambda>_.
     bindE (ensure_memory_hard_delete_allowed d i) (\<lambda>_.
     bindE (delete_one sha st now ctx reason None m d) (\<lambda>(d', tomb).
       Inr (d', \<lparr>hr_deleted_id = i, hr_deleted_at = Some now, hr_canonical_deleted = True,
                 hr_tombstone_id = Some tomb, hr_cascade_root = None, hr_affected = []\<rparr>)))))))"

definition cascade_collect ::
  "agent_context \<Rightarrow> uuid \<Rightarrow> hard_delete_request \<Rightarrow> db \<Rightarrow> hard_delete_candidate list res" where
  "cascade_collect ctx i req d =
     bindE (load_memory i d) (\<lambda>target.
     bindE (rbac_require ''write'' (Some (m_env_id target)) ctx) (\<lambda>_.
     bindE (ensure_env_visible target ctx) (\<lambda>_.
     bindE (raise_if (m_version target \<noteq> hd_expected_version req)
              (VersionConflictError (hd_expected_version req) (m_version target))) (\<lambda>_.
       collect_hard_delete_affected d ctx req target))))"

text \<open>The deletes of the cascade; the last tombstone whose candidate is the root is kept.\<close>

fun cascade_delete ::
  "(string \<Rightarrow> string) \<Rightarrow> settings \<Rightarrow> time \<Rightarrow> agent_context \<Rightarrow> uuid \<Rightarrow> string \<Rightarrow> uuid \<Rightarrow> hard_delete_candidate list
   \<Rightarrow> uuid option \<Rightarrow> db \<Rightarrow> (db \<times> uuid option) res" where
  "cascade_delete sha st now ctx i reason corr [] tomb d = Inr (d, tomb)"
| "cascade_delete sha st now ctx i reason corr (c # cs) tomb d =
     bindE (some_or (VersionConflictError (cd_version c) (cd_version c + 1)) (lookup m_id (cd_id c) (memories d))) (\<lambda>m.
     bindE (ensure_env_visible m ctx) (\<lambda>_.
     bindE (rbac_require ''write'' (Some (m_env_id m)) ctx) (\<lambda>_.
     bindE (raise_if (m_version m \<noteq> cd_version c) (VersionConflictError (cd_version c) (m_version m))) (\<lambda>_.
     bindE (delete_one sha st now ctx reason (Some corr) m d) (\<lambda>(d', t).
       cascade_delete sha st now ctx i reason corr cs (if cd_id c = i then Some t else tomb) d')))))"

definition hard_delete_cascade ::
  "(string \<Rightarrow> string) \<Rightarrow> settings \<Rightarrow> time \<Rightarrow> agent_context \<Rightarrow> uuid \<Rightarrow> hard_delete_request \<Rightarrow> string \<Rightarrow> db \<Rightarrow> db
   \<Rightarrow> (db \<times> hard_delete_response) res" where
  "hard_delete_cascade sha st now ctx i req reason d0 d =
     (let corr = next_uuid d in
     bindE (cascade_collect ctx i req d0) (\<lambda>affected.
     if hd_dry_run req
     then Inr (draw_uuid d, \<lparr>hr_deleted_id = i, hr_deleted_at = None, hr_canonical_deleted = False,
                 hr_tombstone_id = None, hr_cascade_root = Some corr, hr_affected = affected\<rparr>)
     else bindE (cascade_delete sha st now ctx i reason corr affected None (draw_uuid d)) (\<lambda>(d', tomb).
       bindE (some_or (NotFoundError ''memory'' i) tomb) (\<lambda>t.
         Inr (d', \<lparr>hr_deleted_id = i, hr_deleted_at = Some now, hr_canonical_deleted = True,
                   hr_tombstone_id = Some t, hr_cascade_root = Some corr, hr_affected = affected\<rparr>)))))"

definition memory_hard_delete ::
  "(string \<Rightarrow> string) \<Rightarrow> settings \<Rightarrow> time \<Rightarrow> agent_context \<Rightarrow> uuid \<Rightarrow> hard_delete_request \<Rightarrow> db \<Rightarrow> db
   \<Rightarrow> (db \<times> hard_delete_response) res" where
  "memory_hard_delete sha st now ctx i req d0 d =
     bindE (raise_if (\<not> hd_confirm_destroy req) (InvalidInputError ''confirm_destroy'')) (\<lambda>_.
     bindE (raise_if (strip (hd_reason req) = []) (InvalidInputError ''reason'')) (\<lambda>_.
     if hd_cascade req then hard_delete_cascade sha st now ctx i req (strip (hd_reason req)) d0 d
     else hard_delete_single sha st now ctx i req (strip (hd_reason req)) d))"

end
