(* ===== verification/CopyMove.thy ===== *)
theory CopyMove
  imports HardDelete Handlers
begin

text \<open>
  \<open>mem_copy\<close> and \<open>mem_move\<close> of \<open>memory_mcp/memories.py\<close>. The vector store is a service: the
  copy of the vectors is the list of calls it makes on the store (\<open>get_vector\<close> reads it,
  \<open>re_embed\<close> is the embedder's answer), run by the transition function of the handlers.
\<close>

record mem_copy_request =
  mc_memory_id :: uuid
  mc_dst_env_id :: uuid
  mc_copy_tags :: bool
  mc_copy_provenance :: bool
  mc_create_lineage_edge :: bool
  mc_preserve_timestamps :: bool
  mc_re_embed_if_model_mismatch :: bool
  mc_copy_lineage :: bool

record mem_copy_response =
  cr_dst_memory_id :: uuid
  cr_dst_env_id :: uuid
  cr_lineage_edge_id :: "string option"
  cr_pending_vector_rebuild :: nat
  cr_source_memory_status :: string

subsection \<open>The copy\<close>

definition load_env_for_cross_env_copy :: "db \<Rightarrow> uuid \<Rightarrow> environment res" where
  "load_env_for_cross_env_copy d i =
     bindE (some_or (NotFoundError ''env'' i) (lookup env_id i (environments d))) (\<lambda>e.
     bindE (raise_if (env_deleted e) (EnvDeletedError i)) (\<lambda>_. Inr e))"

definition copied_memory :: "uuid \<Rightarrow> uuid \<Rightarrow> bool \<Rightarrow> time \<Rightarrow> memory \<Rightarrow> memory" where
  "copied_memory i env preserve now src =
     src\<lparr>m_id := i, m_env_id := env, m_status := MS_active, m_superseded_by := None, m_version := 1,
       m_created_at := (if preserve then m_created_at src else now),
       m_updated_at := (if preserve then m_updated_at src else now)\<rparr>"

fun copy_sources :: "uuid \<Rightarrow> memory_source list \<Rightarrow> db \<Rightarrow> db res" where
  "copy_sources i [] d = Inr d"
| "copy_sources i (s # ss) d =
     bindE (insert_memory_source (s\<lparr>src_memory_id := i, src_agent_id := None\<rparr>) d) (\<lambda>d'. copy_sources i ss d')"

fun copy_lineage_rows :: "uuid \<Rightarrow> uuid \<Rightarrow> lineage_row list \<Rightarrow> db \<Rightarrow> db res" where
  "copy_lineage_rows src i [] d = Inr d"
| "copy_lineage_rows src i (l # ls) d =
     bindE (insert_lineage (l\<lparr>ln_parent := if ln_parent l = src then i else ln_parent l,
                             ln_child := if ln_child l = src then i else ln_child l\<rparr>) d)
       (\<lambda>d'. copy_lineage_rows src i ls d')"

record copied =
  cp_source :: memory
  cp_dst :: memory
  cp_lineage_parent :: "uuid option"
  cp_tags :: "string list"
  cp_source_model :: string
  cp_target_model :: string

definition copy_memory_in_session ::
  "(string \<Rightarrow> string) \<Rightarrow> settings \<Rightarrow> time \<Rightarrow> agent_context \<Rightarrow> mem_copy_request \<Rightarrow> db \<Rightarrow> (db \<times> copied) res" where
  "copy_memory_in_session sha st now ctx req d =
     bindE (load_memory (mc_memory_id req) d) (\<lambda>src.
     bindE (ensure_env_visible src ctx) (\<lambda>_.
     bindE (load_env_for_cross_env_copy d (m_env_id src)) (\<lambda>src_env.
     bindE (load_env_for_cross_env_copy d (mc_dst_env_id req)) (\<lambda>dst_env.
     bindE (raise_if (env_id dst_env = m_env_id src) (InvalidInputError ''env'')) (\<lambda>_.
     bindE (rbac_require ''read'' (Some (m_env_id src)) ctx) (\<lambda>_.
     bindE (rbac_require ''write'' (Some (env_id dst_env)) ctx) (\<lambda>_.
     let source_model = env_embedding_model src_env;
         target_model = env_embedding_model dst_env in
     bindE (raise_if (source_model \<noteq> target_model \<and> \<not> mc_re_embed_if_model_mismatch req)
              (EmbeddingModelMismatchError target_model source_model)) (\<lambda>_.
     bindE (ensure_macro_available (env_id dst_env) (m_macro src) None d) (\<lambda>_.
     let tags = (if mc_copy_tags req then load_tag_names d (m_id src) else []);
         dst = copied_memory (next_uuid d) (env_id dst_env) (mc_preserve_timestamps req) now src in
     bindE (insert_memory dst (draw_uuid d)) (\<lambda>d1.
     bindE (set_new_tags (m_id dst) (env_id dst_env) tags d1) (\<lambda>d2.
     bindE (if mc_copy_provenance req
            then copy_sources (m_id dst) (filter (\<lambda>s. src_memory_id s = m_id src) (memory_sources d2)) d2
            else Inr d2) (\<lambda>d3.
     bindE (if mc_copy_lineage req
            then copy_lineage_rows (m_id src) (m_id dst)
                   (filter (\<lambda>l. ln_parent l = m_id src \<or> ln_child l = m_id src) (memory_lineage d3)) d3
            else Inr d3) (\<lambda>d4.
     bindE (if mc_create_lineage_edge req
            then insert_lineage \<lparr>ln_parent = m_id src, ln_child = m_id dst, ln_relation = LR_copied_from, ln_created_at = now\<rparr> d4
            else Inr d4) (\<lambda>d5.
     let d6 = record_audit ''copy'' dst (ctx_agent_id ctx) None (Some (audit_snapshot sha dst (Some tags)))
                (Some [(''copied_from'', JUuid (m_id src))]) d5 in
     bindE (enqueue_memory st now dst (m_version dst) (outbox_op_for MS_active True) tags target_model d6) (\<lambda>d7.
       Inr (d7, \<lparr>cp_source = src, cp_dst = dst,
                 cp_lineage_parent = (if mc_create_lineage_edge req then Some (m_id src) else None),
                 cp_tags = tags, cp_source_model = source_model, cp_target_model = target_model\<rparr>))))))))))))))))"

subsection \<open>The vectors\<close>

text \<open>
  The calls of \<open>_apply_mem_copy_vector\<close>; \<open>Inr None\<close> when there is no vector to copy. Reading
  the store or embedding may raise.
\<close>

definition copy_vector_calls ::
  "(uuid \<Rightarrow> uuid \<Rightarrow> string \<Rightarrow> real list option res) \<Rightarrow> (memory \<Rightarrow> string \<Rightarrow> string \<Rightarrow> real list option res) \<Rightarrow>
   bool \<Rightarrow> bool \<Rightarrow> copied \<Rightarrow> sink_call list option res" where
  "copy_vector_calls get_vector re_embed re_embed_if_model_mismatch delete_source_vector c =
     (let src = cp_source c; dst = cp_dst c;
          payload = projection_payload dst (cp_tags c) (cp_target_model c) in
      if cp_source_model c \<noteq> cp_target_model c \<and> re_embed_if_model_mismatch then
        bindE (re_embed dst (cp_source_model c) (cp_target_model c)) (\<lambda>body.
          Inr (map_option (\<lambda>b. [VectorEnsureCollection (m_env_id dst) (length b),
                                VectorUpsert (m_env_id dst) (m_id dst) [(''body'', b)] payload]) body))
      else
        bindE (get_vector (m_env_id src) (m_id src) ''body'') (\<lambda>body.
        bindE (get_vector (m_env_id src) (m_id src) ''trigger'') (\<lambda>trigger.
          Inr (map_option (\<lambda>b. [VectorEnsureCollection (m_env_id dst) (length b),
               VectorUpsert (m_env_id dst) (m_id dst)
                 ((''body'', b) # (case trigger of None \<Rightarrow> [] | Some t \<Rightarrow> [(''trigger'', t)])) payload] @
               (if delete_source_vector then [VectorDelete (m_env_id src) (m_id src)] else [])) body))))"

text \<open>The number of vectors left to rebuild; every exception counts as one.\<close>

definition apply_mem_copy_vector ::
  "(sink_call \<Rightarrow> 'w \<Rightarrow> 'w \<times> error option) \<Rightarrow> sink_call list option res \<Rightarrow> 'w \<Rightarrow> 'w \<times> nat" where
  "apply_mem_copy_vector exec calls w =
     (case calls of
        Inr (Some cs) \<Rightarrow> (case run_calls exec cs w of (w', None) \<Rightarrow> (w', 0) | (w', Some _) \<Rightarrow> (w', 1))
      | _ \<Rightarrow> (w, 1))"

definition lineage_edge_id :: "(uuid \<Rightarrow> string) \<Rightarrow> copied \<Rightarrow> string option" where
  "lineage_edge_id uuid_text c = map_option
     (\<lambda>p. uuid_text p @ '':'' @ uuid_text (m_id (cp_dst c)) @ '':'' @ lineage_relation_value LR_copied_from)
     (cp_lineage_parent c)"

definition copy_response :: "(uuid \<Rightarrow> string) \<Rightarrow> copied \<Rightarrow> nat \<Rightarrow> string \<Rightarrow> mem_copy_response" where
  "copy_response uuid_text c pending status = \<lparr>cr_dst_memory_id = m_id (cp_dst c), cr_dst_env_id = m_env_id (cp_dst c),
     cr_lineage_edge_id = lineage_edge_id uuid_text c, cr_pending_vector_rebuild = pending, cr_source_memory_status = status\<rparr>"

text \<open>The response of \<open>mem_copy\<close> has no source status; it is the empty text here.\<close>

definition mem_copy ::
  "(string \<Rightarrow> string) \<Rightarrow> (uuid \<Rightarrow> string) \<Rightarrow> (uuid \<Rightarrow> uuid \<Rightarrow> string \<Rightarrow> real list option res) \<Rightarrow>
   (memory \<Rightarrow> string \<Rightarrow> string \<Rightarrow> real list option res) \<Rightarrow> (sink_call \<Rightarrow> 'w \<Rightarrow> 'w \<times> error option) \<Rightarrow>
   settings \<Rightarrow> time \<Rightarrow> agent_context \<Rightarrow> mem_copy_request \<Rightarrow> db \<Rightarrow> 'w \<Rightarrow> (db \<times> 'w \<times> mem_copy_response) res" where
  "mem_copy sha uuid_text get_vector re_embed exec st now ctx req d w =
     bindE (copy_memory_in_session sha st now ctx req d) (\<lambda>(d', c).
     let (w', pending) = apply_mem_copy_vector exec
           (copy_vector_calls get_vector re_embed (mc_re_embed_if_model_mismatch req) False c) w in
     Inr (d', w', copy_response uuid_text c pending []))"

subsection \<open>The move\<close>

text \<open>\<open>UPDATE memories SET f WHERE id = i\<close>, without a version in the condition.\<close>

definition update_memory_by_id :: "uuid \<Rightarrow> (memory \<Rightarrow> memory) \<Rightarrow> db \<Rightarrow> db res" where
  "update_memory_by_id i f d =
     (case lookup m_id i (memories d) of
        None \<Rightarrow> Inr d
      | Some m \<Rightarrow>
          if m_version (f m) < m_version m then Inl (IntegrityError ''require_version_monotonic'')
          else case memory_violation d (f m) of
            Some c \<Rightarrow> Inl (IntegrityError c)
          | None \<Rightarrow> Inr (d\<lparr>memories := update_where (\<lambda>r. m_id r = i) f (memories d)\<rparr>))"

text \<open>The source is redirected to the copy: superseded by it, whatever its status was.\<close>

definition redirect_source ::
  "(string \<Rightarrow> string) \<Rightarrow> settings \<Rightarrow> time \<Rightarrow> agent_context \<Rightarrow> copied \<Rightarrow> db \<Rightarrow> db res" where
  "redirect_source sha st now ctx c d =
     (let src = cp_source c; old_tags = load_tag_names d (m_id src) in
     bindE (update_memory_by_id (m_id src) (mark_superseded (m_id (cp_dst c)) (m_version src + 1) now) d) (\<lambda>d1.
     bindE (load_memory (m_id src) d1) (\<lambda>src'.
     let d2 = record_audit ''move'' src' (ctx_agent_id ctx) (Some (audit_snapshot sha src (Some old_tags)))
                (Some (audit_snapshot sha src' (Some old_tags))) (Some [(''superseded_by'', JUuid (m_id (cp_dst c)))]) d1 in
       enqueue_memory st now src' (m_version src') (outbox_op_for MS_superseded False) old_tags (cp_source_model c) d2)))"

text \<open>The source is deleted; the tombstone event carries the version the row already has.\<close>

definition delete_source ::
  "(string \<Rightarrow> string) \<Rightarrow> settings \<Rightarrow> time \<Rightarrow> agent_context \<Rightarrow> copied \<Rightarrow> db \<Rightarrow> db res" where
  "delete_source sha st now ctx c d =
     (let src = cp_source c; old_tags = load_tag_names d (m_id src) in
     bindE (ensure_memory_hard_delete_allowed d (m_id src)) (\<lambda>_.
     bindE (enqueue_memory st now src (m_version src) OP_tombstone old_tags (cp_source_model c) d) (\<lambda>d1.
     let d2 = record_audit ''hard_delete'' src (ctx_agent_id ctx) (Some (audit_snapshot sha src (Some old_tags)))
                (Some [(''deleted'', JBool True), (''moved_to'', JUuid (m_id (cp_dst c)))]) None d1 in
       delete_memory_row (m_id src) d2)))"

definition mem_move ::
  "(string \<Rightarrow> string) \<Rightarrow> (uuid \<Rightarrow> string) \<Rightarrow> (uuid \<Rightarrow> uuid \<Rightarrow> string \<Rightarrow> real list option res) \<Rightarrow>
   (memory \<Rightarrow> string \<Rightarrow> string \<Rightarrow> real list option res) \<Rightarrow> (sink_call \<Rightarrow> 'w \<Rightarrow> 'w \<times> error option) \<Rightarrow>
   settings \<Rightarrow> time \<Rightarrow> agent_context \<Rightarrow> mem_copy_request \<Rightarrow> bool \<Rightarrow> db \<Rightarrow> 'w \<Rightarrow> (db \<times> 'w \<times> mem_copy_response) res" where
  "mem_move sha uuid_text get_vector re_embed exec st now ctx req redirect d w =
     bindE (copy_memory_in_session sha st now ctx req d) (\<lambda>(d1, c).
     bindE (if redirect then redirect_source sha st now ctx c d1 else delete_source sha st now ctx c d1) (\<lambda>d2.
     let (w', pending) = apply_mem_copy_vector exec
           (copy_vector_calls get_vector re_embed (mc_re_embed_if_model_mismatch req) (\<not> redirect) c) w in
     Inr (d2, w', copy_response uuid_text c pending (if redirect then ''superseded'' else ''deleted''))))"

end
