(* ===== verification/MemoryRefine.thy ===== *)
theory MemoryRefine
  imports Ledger CopyMove
begin

text \<open>
  The operations on memories refine the ledger: \<open>ledger_of\<close> abstracts a database to a ledger,
  and every successful tool call is a sequence of ledger steps between the abstractions of the
  states before and after it. The tables of tags keep their foreign keys on the way
  (\<open>tags_ok\<close>).
\<close>

definition tag_set :: "db \<Rightarrow> uuid \<Rightarrow> string set" where
  "tag_set d i = {tag_name t | t r. t \<in> set (tag_rows d) \<and> r \<in> set (memory_tags d) \<and> mt_tag_id r = tag_id t \<and> mt_memory_id r = i}"

definition memory_events :: "db \<Rightarrow> outbox_row list" where
  "memory_events d = filter (\<lambda>r. ob_aggregate_type r = AT_memory) (outbox d)"

definition ledger_of :: "db \<Rightarrow> ledger" where
  "ledger_of d = \<lparr>lg_environments = environments d, lg_memories = memories d, lg_tags = tag_set d,
     lg_events = memory_events d\<rparr>"

definition tags_ok :: "db \<Rightarrow> bool" where
  "tags_ok d \<longleftrightarrow> distinct (map tag_id (tag_rows d)) \<and>
     (\<forall>r \<in> set (memory_tags d). mt_tag_id r \<in> tag_id ` set (tag_rows d) \<and> mt_memory_id r \<in> m_id ` set (memories d))"

lemma load_tag_names_set: "set (load_tag_names d i) = tag_set d i"
  by (auto simp: load_tag_names_def tag_set_def)

lemma ledger_of_simps [simp]:
  "lg_environments (ledger_of d) = environments d" "lg_memories (ledger_of d) = memories d"
  "lg_tags (ledger_of d) = tag_set d" "lg_events (ledger_of d) = memory_events d"
  by (simp_all add: ledger_of_def)

lemma memory_violation_cong:
  assumes "environments d = environments d'" "memories d = memories d'"
  shows "memory_violation d m = memory_violation d' m"
  unfolding memory_violation_def env_exists_def assms ..

lemma row_ok_ledger: "row_ok (ledger_of d) m \<longleftrightarrow> memory_violation d m = None"
proof -
  have "memory_violation ((empty_db id)\<lparr>environments := environments d, memories := memories d\<rparr>) m = memory_violation d m"
    by (rule memory_violation_cong) simp_all
  then show ?thesis by (simp add: row_ok_def)
qed

subsection \<open>Statements that leave memories and events alone\<close>

definition mem_tables :: "db \<Rightarrow> environment list \<times> memory list \<times> tag list \<times> memory_tag list \<times> outbox_row list" where
  "mem_tables d = (environments d, memories d, tag_rows d, memory_tags d, outbox d)"

lemma mem_tables_eq:
  assumes "mem_tables d' = mem_tables d"
  shows "environments d' = environments d" "memories d' = memories d" "tag_rows d' = tag_rows d"
    "memory_tags d' = memory_tags d" "outbox d' = outbox d"
  using assms by (simp_all add: mem_tables_def)

lemma mem_tables_ledger:
  assumes "mem_tables d' = mem_tables d"
  shows "ledger_of d' = ledger_of d" "tags_ok d' = tags_ok d" "tag_set d' = tag_set d"
    "load_tag_names d' = load_tag_names d"
  using mem_tables_eq [OF assms]
  by (simp_all add: ledger_of_def tags_ok_def tag_set_def memory_events_def load_tag_names_def fun_eq_iff)

lemma draw_uuid_tables [simp]: "mem_tables (draw_uuid d) = mem_tables d"
  by (simp add: mem_tables_def draw_uuid_def)

lemma record_audit_tables [simp]: "mem_tables (record_audit op m agent before after extra d) = mem_tables d"
  by (simp add: mem_tables_def record_audit_def Let_def)

lemma insert_memory_source_tables: "insert_memory_source s d = Inr d' \<Longrightarrow> mem_tables d' = mem_tables d"
  by (auto simp: insert_memory_source_def mem_tables_def split: if_splits)

lemma insert_lineage_tables: "insert_lineage l d = Inr d' \<Longrightarrow> mem_tables d' = mem_tables d"
  by (auto simp: insert_lineage_def mem_tables_def split: option.splits)

lemma insert_tombstone_tables: "insert_tombstone t d = Inr d' \<Longrightarrow> mem_tables d' = mem_tables d"
  by (auto simp: insert_tombstone_def mem_tables_def split: if_splits)

lemma insert_graph_node_tables: "insert_graph_node n d = Inr d' \<Longrightarrow> mem_tables d' = mem_tables d"
  by (auto simp: insert_graph_node_def mem_tables_def split: option.splits)

lemma insert_relation_row_tables: "insert_relation_row r d = Inr d' \<Longrightarrow> mem_tables d' = mem_tables d"
  by (auto simp: insert_relation_row_def mem_tables_def split: option.splits)

lemma memory_graph_node_tables: "memory_graph_node env i d = Inr (d', n) \<Longrightarrow> mem_tables d' = mem_tables d"
  by (auto simp: memory_graph_node_def Let_def res_simps split: option.splits dest: insert_graph_node_tables)

lemma entity_graph_node_tables: "entity_graph_node env i d = Inr (d', n) \<Longrightarrow> mem_tables d' = mem_tables d"
  by (auto simp: entity_graph_node_def Let_def res_simps split: option.splits dest: insert_graph_node_tables)

lemma link_entities_tables: "link_entities now env n is d = Inr d' \<Longrightarrow> mem_tables d' = mem_tables d"
proof (induction now env n "is" d rule: link_entities.induct)
  case (1 now env n d)
  then show ?case by simp
next
  case (2 now env n i "is" d)
  from "2.prems" obtain d1 e d2 where s: "entity_graph_node env i d = Inr (d1, e)"
      "(case find_relation d1 (gn_id n) (gn_id e) ''mentions'' of Some _ \<Rightarrow> Inr d1
        | None \<Rightarrow> insert_relation_row (new_relation (next_uuid d1) env n e ''mentions'' [] now) (draw_uuid d1)) = Inr d2"
      "link_entities now env n is d2 = Inr d'"
    by (auto elim!: bindE_elims)
  have "mem_tables d2 = mem_tables d1"
    using s(2) by (auto split: option.splits dest: insert_relation_row_tables)
  moreover have "mem_tables d' = mem_tables d2" using "2.IH" s by blast
  ultimately show ?case using entity_graph_node_tables [OF s(1)] by simp
qed

lemma link_new_memory_tables: "link_new_memory now env i links d = Inr d' \<Longrightarrow> mem_tables d' = mem_tables d"
  by (auto simp: link_new_memory_def res_simps split: if_splits
      dest!: memory_graph_node_tables link_entities_tables)

lemma copy_sources_tables: "copy_sources i ss d = Inr d' \<Longrightarrow> mem_tables d' = mem_tables d"
  by (induction i ss d rule: copy_sources.induct) (auto simp: res_simps dest: insert_memory_source_tables)

lemma copy_lineage_rows_tables: "copy_lineage_rows src i ls d = Inr d' \<Longrightarrow> mem_tables d' = mem_tables d"
  by (induction src i ls d rule: copy_lineage_rows.induct) (auto simp: res_simps dest: insert_lineage_tables)

subsection \<open>Tags\<close>

text \<open>\<open>retagged d i S d'\<close>: only the tags of \<open>i\<close> changed, to the names \<open>S\<close>.\<close>

definition retagged :: "db \<Rightarrow> uuid \<Rightarrow> string set \<Rightarrow> db \<Rightarrow> bool" where
  "retagged d i S d' \<longleftrightarrow> tags_ok d' \<and> tag_set d' = (tag_set d)(i := S) \<and>
     environments d' = environments d \<and> memories d' = memories d \<and> outbox d' = outbox d"

lemma insert_tags_spec:
  assumes "insert_tags env names d = Inr d'"
  shows "environments d' = environments d \<and> memories d' = memories d \<and> outbox d' = outbox d \<and>
    memory_tags d' = memory_tags d \<and> (\<exists>new. tag_rows d' = tag_rows d @ new) \<and>
    (distinct (map tag_id (tag_rows d)) \<longrightarrow> distinct (map tag_id (tag_rows d')))"
  using assms
proof (induction env names d rule: insert_tags.induct)
  case (1 env d)
  then show ?case by simp
next
  case (2 env n ns d)
  let ?t = "\<lparr>tag_id = next_uuid d, tag_env_id = env, tag_name = n\<rparr>"
  consider (old) "insert_tags env ns (draw_uuid d) = Inr d'" "list_ex (\<lambda>t. tag_env_id t = env \<and> tag_name t = n) (tag_rows d)"
    | (new) "insert_tags env ns ((draw_uuid d)\<lparr>tag_rows := tag_rows d @ [?t]\<rparr>) = Inr d'"
        "\<not> list_ex (\<lambda>t. tag_env_id t = env \<and> tag_name t = n) (tag_rows d)"
        "\<not> list_ex (\<lambda>t. tag_id t = next_uuid d) (tag_rows d)" "env_exists d env"
    using "2.prems" by (auto simp: Let_def split: if_splits)
  then show ?case
  proof cases
    case old
    then show ?thesis using "2.IH"(1) [OF refl refl old(2,1)] by (simp add: draw_uuid_def)
  next
    case new
    have "next_uuid d \<notin> tag_id ` set (tag_rows d)" using new(3) by (auto simp: list_ex_iff)
    then show ?thesis using "2.IH"(2) [OF refl refl new(2,3) _ new(1)] new(4) by (auto simp: draw_uuid_def)
  qed
qed

lemma tag_ids_of_names:
  "tag_ids_of env d names = Inr ids \<Longrightarrow>
   set names = {tag_name t | t. t \<in> set (tag_rows d) \<and> tag_id t \<in> set ids \<and> tag_env_id t = env}
   \<or> \<not> distinct (map tag_id (tag_rows d))"
proof (induction env d names arbitrary: ids rule: tag_ids_of.induct)
  case (1 env d)
  then show ?case by simp
next
  case (2 env d n ns)
  then obtain t js where t: "find_tag env d n = Some t" "tag_ids_of env d ns = Inr js" "ids = tag_id t # js"
    by (auto elim!: bindE_elims simp: some_or_eq_Inr)
  have tt: "t \<in> set (tag_rows d)" "tag_name t = n" "tag_env_id t = env"
    using t(1) by (auto simp: find_tag_def dest: find_SomeD)
  show ?case
  proof (cases "distinct (map tag_id (tag_rows d))")
    case True
    have "s = t" if "s \<in> set (tag_rows d)" "tag_id s = tag_id t" for s
      using True that tt(1) by (auto simp: distinct_map dest: inj_onD)
    moreover have "set ns = {tag_name t | t. t \<in> set (tag_rows d) \<and> tag_id t \<in> set js \<and> tag_env_id t = env}"
      using "2.IH" t(1,2) True by (auto simp: some_or_def)
    ultimately have "set (n # ns) = {tag_name t | t. t \<in> set (tag_rows d) \<and> tag_id t \<in> set ids \<and> tag_env_id t = env}"
      using tt unfolding t(3) by auto
    then show ?thesis ..
  qed simp
qed

lemma replace_memory_tags_spec:
  assumes "replace_memory_tags i env ids d = Inr d'"
  shows "d' = d\<lparr>memory_tags := delete_where (\<lambda>r. mt_memory_id r = i) (memory_tags d) @
      map (\<lambda>j. \<lparr>mt_memory_id = i, mt_tag_id = j, mt_env_id = env\<rparr>) ids\<rparr>"
    and "\<forall>j \<in> set ids. \<exists>t \<in> set (tag_rows d). tag_id t = j \<and> tag_env_id t = env"
    and "ids = [] \<or> i \<in> m_id ` set (memories d)"
  using assms
  by (auto simp: replace_memory_tags_def memory_tags_violation_def list_ex_iff list_all_iff
      split: option.splits if_splits)

lemma set_tags_retagged:
  assumes ok: "tags_ok d" and run: "set_tags i env names d = Inr d'"
  shows "retagged d i (set names) d'"
proof -
  obtain d1 ids where ins: "insert_tags env names d = Inr d1" and ids: "tag_ids_of env d1 names = Inr ids"
    and rep: "replace_memory_tags i env ids d1 = Inr d'"
    using run unfolding set_tags_def upsert_tags_def by (auto elim!: bindE_elims)
  note s = insert_tags_spec [OF ins] and r = replace_memory_tags_spec [OF rep]
  obtain new where new: "tag_rows d1 = tag_rows d @ new" using s by blast
  have dist: "distinct (map tag_id (tag_rows d1))" using s ok by (simp add: tags_ok_def)
  have tags: "tag_rows d' = tag_rows d1" "memories d' = memories d" "environments d' = environments d" "outbox d' = outbox d"
    using r(1) s by simp_all
  have "tags_ok d'"
    unfolding tags_ok_def
  proof (intro conjI ballI)
    show "distinct (map tag_id (tag_rows d'))" using dist tags(1) by simp
    fix q assume "q \<in> set (memory_tags d')"
    then consider "q \<in> set (memory_tags d)" | j where "j \<in> set ids" "mt_tag_id q = j" "mt_memory_id q = i"
      using s by (auto simp: r(1))
    then have "mt_tag_id q \<in> tag_id ` set (tag_rows d1) \<and> mt_memory_id q \<in> m_id ` set (memories d)"
    proof cases
      case 1
      then show ?thesis using ok new by (simp add: tags_ok_def image_Un)
    next
      case 2
      then show ?thesis using r(2,3) s by (metis empty_iff empty_set image_eqI)
    qed
    then show "mt_tag_id q \<in> tag_id ` set (tag_rows d')" "mt_memory_id q \<in> m_id ` set (memories d')"
      using tags by simp_all
  qed
  moreover have "tag_set d' j = tag_set d j" if ne: "j \<noteq> i" for j
  proof
    show "tag_set d j \<subseteq> tag_set d' j"
      using ne s new by (auto simp: tag_set_def r(1))
    show "tag_set d' j \<subseteq> tag_set d j"
    proof
      fix n assume "n \<in> tag_set d' j"
      then obtain t q where t: "t \<in> set (tag_rows d1)" "q \<in> set (memory_tags d)" "mt_tag_id q = tag_id t" "mt_memory_id q = j"
          "n = tag_name t"
        using ne s by (auto simp: tag_set_def r(1))
      then obtain t' where t': "t' \<in> set (tag_rows d)" "tag_id t' = tag_id t" using ok by (force simp: tags_ok_def)
      then have "t' = t" using t(1) dist new by (auto simp: distinct_map dest: inj_onD)
      then show "n \<in> tag_set d j" using t t' by (auto simp: tag_set_def)
    qed
  qed
  moreover have "tag_set d' i = set names"
  proof -
    have k: "(\<exists>q. q \<in> set (memory_tags d') \<and> mt_tag_id q = x \<and> mt_memory_id q = i) \<longleftrightarrow> x \<in> set ids" for x
    proof
      assume "x \<in> set ids"
      then have "\<lparr>mt_memory_id = i, mt_tag_id = x, mt_env_id = env\<rparr> \<in> set (memory_tags d')" by (simp add: r(1))
      then show "\<exists>q. q \<in> set (memory_tags d') \<and> mt_tag_id q = x \<and> mt_memory_id q = i" by fastforce
    next
      assume "\<exists>q. q \<in> set (memory_tags d') \<and> mt_tag_id q = x \<and> mt_memory_id q = i"
      then obtain q where q: "mt_tag_id q = x" "mt_memory_id q = i" "q \<in> set (memory_tags d')" by blast
      then obtain j where "j \<in> set ids" "q = \<lparr>mt_memory_id = i, mt_tag_id = j, mt_env_id = env\<rparr>"
        unfolding r(1) by auto
      then show "x \<in> set ids" using q(1) by simp
    qed
    have "tag_set d' i = {tag_name t | t. t \<in> set (tag_rows d') \<and> (\<exists>q. q \<in> set (memory_tags d') \<and> mt_tag_id q = tag_id t \<and> mt_memory_id q = i)}"
      by (auto simp: tag_set_def)
    also have "\<dots> = {tag_name t | t. t \<in> set (tag_rows d1) \<and> tag_id t \<in> set ids}"
      unfolding k by (simp add: tags(1))
    also have "\<dots> = {tag_name t | t. t \<in> set (tag_rows d1) \<and> tag_id t \<in> set ids \<and> tag_env_id t = env}"
      using r(2) dist by (auto simp: distinct_map) (metis inj_onD)
    also have "\<dots> = set names" using tag_ids_of_names [OF ids] dist by blast
    finally show ?thesis .
  qed
  ultimately show ?thesis using tags by (auto simp: retagged_def fun_eq_iff)
qed

lemma set_new_tags_retagged:
  assumes "tags_ok d" and "i \<notin> mt_memory_id ` set (memory_tags d)" and "set_new_tags i env names d = Inr d'"
  shows "retagged d i (set names) d'"
proof (cases "names = []")
  case True
  have e: "tag_set d i = {}" using assms(2) by (auto simp: tag_set_def)
  have "(tag_set d)(i := {}) = tag_set d" using e by (simp add: fun_eq_iff)
  then show ?thesis using assms True by (simp add: set_new_tags_def retagged_def)
next
  case False
  then show ?thesis using assms by (auto simp: set_new_tags_def intro: set_tags_retagged)
qed

subsection \<open>Events\<close>

lemma outbox_fresh:
  "outbox_violation d r = None \<Longrightarrow> o' \<in> set (outbox d) \<Longrightarrow> ob_aggregate_type o' = ob_aggregate_type r \<Longrightarrow>
   event_key o' \<noteq> event_key r"
  by (auto simp: outbox_violation_def list_ex_iff event_key_def split: if_splits)

lemma enqueue_memory_spec:
  assumes "enqueue_memory st now m v op tags model d = Inr d'" and "resolve_sinks_for AT_memory st \<noteq> []"
  obtains row where "snapshot_event m v op tags row" "memory_events d' = memory_events d @ [row]"
    "event_key row \<notin> event_key ` set (memory_events d)" "environments d' = environments d" "memories d' = memories d"
    "tag_set d' = tag_set d" "tags_ok d' = tags_ok d"
proof -
  obtain e where run: "enqueue_event st now AT_memory (m_id m) v (m_env_id m) op (projection_payload m tags model) None d = Inr (d', e)"
    using assms(1) unfolding enqueue_memory_def by (auto elim!: bindE_elims)
  note fr = enqueue_frame [OF run]
  from run show ?thesis
  proof (cases rule: enqueue_event_cases)
    case no_sink
    then show ?thesis using assms(2) by (simp add: enqueue_sinks_def)
  next
    case (queued row)
    have row: "ob_aggregate_type row = AT_memory" "ob_payload row = projection_payload m tags model"
        "snapshot_event m v op tags row"
      unfolding snapshot_event_def queued(1) by (auto intro: exI [of _ model])
    have "event_key row \<notin> event_key ` set (memory_events d)"
      using outbox_fresh [OF queued(2)] row(1) by (force simp: memory_events_def)
    moreover have "memory_events d' = memory_events d @ [row]"
      using row(1) by (simp add: queued(5) memory_events_def)
    moreover note row(3)
    moreover have "tag_set d' = tag_set d" "tags_ok d' = tags_ok d"
      by (simp_all add: tag_set_def tags_ok_def fun_eq_iff fr(2,4,5))
    ultimately show ?thesis using fr(1,2) by (intro that [of row])
  qed
qed

subsection \<open>Creating a memory\<close>

lemma insert_memory_spec:
  assumes "insert_memory m d = Inr d'"
  shows "d' = d\<lparr>memories := memories d @ [m]\<rparr>" "m_id m \<notin> m_id ` set (memories d)" "memory_violation d m = None"
  using assms by (auto simp: insert_memory_def list_ex_iff split: if_splits option.splits)

lemma tags_ok_more_memories:
  "tags_ok d \<Longrightarrow> tags_ok (d\<lparr>memories := memories d @ [m]\<rparr>)"
  by (auto simp: tags_ok_def)

lemma tag_set_memories [simp]: "tag_set (d\<lparr>memories := ms\<rparr>) = tag_set d"
  by (simp add: tag_set_def fun_eq_iff)

text \<open>The row and its tags are in; the event is still to come.\<close>

lemma insert_with_tags:
  assumes ok: "tags_ok d" and ins: "insert_memory m (draw_uuid d) = Inr d1" and tags: "set_new_tags (m_id m) env names d1 = Inr d2"
  shows "tags_ok d2" "environments d2 = environments d" "memories d2 = memories d @ [m]"
    "tag_set d2 = (tag_set d)(m_id m := set names)" "outbox d2 = outbox d"
    "m_id m \<notin> m_id ` set (memories d)" "row_ok (ledger_of d) m"
proof -
  note i = insert_memory_spec [OF ins] and t = mem_tables_eq [OF draw_uuid_tables, of d] mem_tables_ledger [OF draw_uuid_tables, of d]
  have "tags_ok d1" unfolding i(1) by (rule tags_ok_more_memories) (use ok t in simp)
  moreover have "m_id m \<notin> mt_memory_id ` set (memory_tags d1)"
    using ok i(1,2) t by (auto simp: tags_ok_def)
  ultimately have "retagged d1 (m_id m) (set names) d2" using set_new_tags_retagged tags by blast
  then show "tags_ok d2" "environments d2 = environments d" "memories d2 = memories d @ [m]"
      "tag_set d2 = (tag_set d)(m_id m := set names)" "outbox d2 = outbox d"
    using i(1) t by (simp_all add: retagged_def)
  show "m_id m \<notin> m_id ` set (memories d)" using i(2) t by simp
  have "memory_violation (draw_uuid d) m = memory_violation d m"
    by (rule memory_violation_cong) (use t in simp_all)
  then show "row_ok (ledger_of d) m" using i(3) by (simp add: row_ok_ledger)
qed

lemma create_refines:
  assumes "tags_ok d" "insert_memory m (draw_uuid d) = Inr d1" "set_new_tags (m_id m) env names d1 = Inr d2"
    and d3: "mem_tables d3 = mem_tables d2"
    and enq: "enqueue_memory st now m (m_version m) (outbox_op_for (m_status m) True) names model d3 = Inr d4"
    and sinks: "resolve_sinks_for AT_memory st \<noteq> []" and first: "m_version m = 1"
  shows "tags_ok d4 \<and> ledger_step (ledger_of d) (ledger_of d4)"
proof -
  note i = insert_with_tags [OF assms(1-3)] and t = mem_tables_eq [OF d3] mem_tables_ledger [OF d3]
  obtain row where r: "snapshot_event m (m_version m) (outbox_op_for (m_status m) True) names row"
      "memory_events d4 = memory_events d3 @ [row]" "event_key row \<notin> event_key ` set (memory_events d3)"
      "environments d4 = environments d3" "memories d4 = memories d3" "tag_set d4 = tag_set d3" "tags_ok d4 = tags_ok d3"
    by (rule enqueue_memory_spec [OF enq sinks])
  have ev: "memory_events d3 = memory_events d" using i(5) t by (simp add: memory_events_def)
  have "ledger_of d4 = (ledger_of d)\<lparr>lg_memories := lg_memories (ledger_of d) @ [m],
      lg_tags := (lg_tags (ledger_of d))(m_id m := set names), lg_events := lg_events (ledger_of d) @ [row]\<rparr>"
    using r i t ev by (simp add: ledger_of_def)
  moreover have "ledger_step (ledger_of d) \<dots>"
    using i(6,7) r(1,3) ev first by (intro ledger_step.create) simp_all
  ultimately show ?thesis using r(7) t i(1) by simp
qed

lemma macro_guard_Inr [res_simps]: "macro_guard r = Inr x \<longleftrightarrow> r = Inr x"
  by (auto simp: macro_guard_def split: sum.splits)

lemma memory_write_refines:
  assumes "memory_write sha uuid_text refs st now ctx req d = Inr (d', resp)" and "tags_ok d"
    and "resolve_sinks_for AT_memory st \<noteq> []"
  shows "tags_ok d' \<and> ledger_step (ledger_of d) (ledger_of d')"
proof -
  obtain env names steps macro where w: "memory_write_in_session sha uuid_text refs st now ctx req env names steps macro d = Inr (d', resp)"
    using assms(1) unfolding memory_write_def by (auto elim!: bindE_elims simp: macro_guard_Inr)
  define m where "\<And>meta. m meta = new_memory (next_uuid d) env req steps macro meta now"
  obtain model meta d1 d2 d3 d4 where s:
      "insert_memory (m meta) (draw_uuid d) = Inr d1" "set_new_tags (m_id (m meta)) env names d1 = Inr d2"
      "insert_memory_source (write_source uuid_text now ctx req (m_id (m meta))) d2 = Inr d3"
      "link_new_memory now env (m_id (m meta)) (mw_entity_links req) d3 = Inr d4"
      "enqueue_memory st now (m meta) (m_version (m meta)) (outbox_op_for MS_active True) names model
        (record_audit ''create'' (m meta) (ctx_agent_id ctx) None (Some (audit_snapshot sha (m meta) (Some names))) None d4) = Inr d'"
    using w unfolding memory_write_in_session_def Let_def m_def
    by (auto elim!: bindE_elims simp: macro_guard_Inr)
  have "m_status (m meta) = MS_active" by (simp add: m_def new_memory_def)
  with s(5) have enq: "enqueue_memory st now (m meta) (m_version (m meta)) (outbox_op_for (m_status (m meta)) True) names model
      (record_audit ''create'' (m meta) (ctx_agent_id ctx) None (Some (audit_snapshot sha (m meta) (Some names))) None d4) = Inr d'"
    by simp
  show ?thesis
    by (rule create_refines [OF assms(2) s(1,2) _ enq assms(3)])
       (simp_all add: insert_memory_source_tables [OF s(3)] link_new_memory_tables [OF s(4)], simp add: m_def new_memory_def)
qed

subsection \<open>Changing a memory\<close>

lemma update_where_put_row:
  assumes "distinct (map m_id rows)" and "lookup m_id i rows = Some r" and "\<And>x. m_id (f x) = m_id x"
  shows "update_where (\<lambda>x. m_id x = i) f rows = put_row (f r) rows"
  unfolding put_row_def update_where_def
proof (rule map_cong [OF refl])
  fix x assume "x \<in> set rows"
  then have "x = r" if "m_id x = i"
    using that assms(1) lookup_SomeD [OF assms(2)] by (auto simp: distinct_map dest: inj_onD)
  then show "(if m_id x = i then f x else x) = (if m_id x = m_id (f r) then f r else x)"
    using lookup_SomeD [OF assms(2)] assms(3) by auto
qed

lemma update_memory_row_spec:
  assumes "update_memory_row i v f d = Inr (d', n)" and "n \<noteq> 0"
  obtains r where "lookup m_id i (memories d) = Some r" "m_version r = v" "memory_violation d (f r) = None"
    "d' = d\<lparr>memories := update_where (\<lambda>x. m_id x = i) f (memories d)\<rparr>"
  using assms by (auto simp: update_memory_row_def split: option.splits if_splits)

lemma lookup_updated:
  assumes "lookup m_id i rows = Some r" and "\<And>x. m_id (f x) = m_id x"
  shows "lookup m_id i (update_where (\<lambda>x. m_id x = i) f rows) = Some (f r)"
  using assms lookup_SomeD [OF assms(1)] by (simp add: lookup_update_where)

lemma tags_ok_ids:
  assumes "tags_ok d" "map m_id ms = map m_id (memories d)"
  shows "tags_ok (d\<lparr>memories := ms\<rparr>)"
proof -
  have "m_id ` set ms = m_id ` set (memories d)" using assms(2) by (metis list.set_map)
  then show ?thesis using assms(1) by (simp add: tags_ok_def)
qed

lemma retagged_same: "tags_ok d \<Longrightarrow> set names = tag_set d i \<Longrightarrow> retagged d i (set names) d"
  by (simp add: retagged_def)

lemma revise_refines:
  assumes inv: "rows_ok (ledger_of d)" and r: "lookup m_id i (memories d) = Some r"
    and id: "\<And>x. m_id (f x) = m_id x" and viol: "memory_violation d (f r) = None"
    and ver: "m_version (f r) = m_version r + 1" and env: "m_env_id (f r) = m_env_id r" and life: "life_ok r (f r)"
    and tags: "retagged (d\<lparr>memories := update_where (\<lambda>x. m_id x = i) f (memories d)\<rparr>) i (set names) d2"
    and d3: "mem_tables d3 = mem_tables d2"
    and enq: "enqueue_memory st now (f r) (m_version (f r)) (outbox_op_for (m_status (f r)) c) names model d3 = Inr d4"
    and sinks: "resolve_sinks_for AT_memory st \<noteq> []"
  shows "tags_ok d4 \<and> ledger_step (ledger_of d) (ledger_of d4)"
proof -
  note t = mem_tables_eq [OF d3] mem_tables_ledger [OF d3]
  have i: "m_id (f r) = i" using lookup_SomeD [OF r] id by simp
  obtain row where ev: "snapshot_event (f r) (m_version (f r)) (outbox_op_for (m_status (f r)) c) names row"
      "memory_events d4 = memory_events d3 @ [row]" "event_key row \<notin> event_key ` set (memory_events d3)"
      "environments d4 = environments d3" "memories d4 = memories d3" "tag_set d4 = tag_set d3" "tags_ok d4 = tags_ok d3"
    by (rule enqueue_memory_spec [OF enq sinks])
  have rows: "update_where (\<lambda>x. m_id x = i) f (memories d) = put_row (f r) (memories d)"
    using inv by (intro update_where_put_row r id) (simp add: rows_ok_def)
  have same: "memory_events d3 = memory_events d" using tags t by (simp add: memory_events_def retagged_def)
  have "ledger_of d4 = (ledger_of d)\<lparr>lg_memories := put_row (f r) (lg_memories (ledger_of d)),
      lg_tags := (lg_tags (ledger_of d))(m_id (f r) := set names), lg_events := lg_events (ledger_of d) @ [row]\<rparr>"
    using ev(2,4,5,6) t same tags by (simp add: ledger_of_def retagged_def rows i)
  moreover have "ledger_step (ledger_of d) \<dots>"
    using r viol ver env life ev(1,3) same i by (intro ledger_step.revise [where old = r]) (simp_all add: row_ok_ledger)
  ultimately show ?thesis using ev(7) t tags by (simp add: retagged_def)
qed

lemma apply_patch_fields [simp]:
  "m_id (apply_patch p steps macro meta v now r) = m_id r"
  "m_version (apply_patch p steps macro meta v now r) = v"
  "m_env_id (apply_patch p steps macro meta v now r) = m_env_id r"
  "m_status (apply_patch p steps macro meta v now r) = patch_value (mp_status p) (m_status r)"
  "m_superseded_by (apply_patch p steps macro meta v now r) = m_superseded_by r"
  by (simp_all add: apply_patch_def)

lemma memory_update_check_spec:
  assumes "memory_update_check now ctx i p d = Inr (old, f)"
  obtains steps macro meta where "lookup m_id i (memories d) = Some old" "m_version old = mp_expected_version p"
    "f = apply_patch p steps macro meta (m_version old + 1) now"
    "is_valid_transition (m_status old) (patch_value (mp_status p) (m_status old))"
    "mp_decision_meta p = None \<longrightarrow> meta = None"
proof -
  obtain steps macro meta where s: "lookup m_id i (memories d) = Some old" "m_version old = mp_expected_version p"
      "f = apply_patch p steps macro meta (m_version old + 1) now"
      "is_valid_transition (m_status old) (patch_value (mp_status p) (m_status old))"
      "patch_decision_meta p old d = Inr meta"
    using assms unfolding memory_update_check_def load_memory_def
    by (auto elim!: bindE_elims simp: some_or_eq_Inr raise_if_eq_Inr)
  moreover have "mp_decision_meta p = None \<longrightarrow> meta = None"
    using s(5) by (auto simp: patch_decision_meta_def Let_def res_simps split: option.splits)
  ultimately show ?thesis by (intro that)
qed

lemma patch_tags_retagged:
  assumes "tags_ok d" and "patch_tags p m old_tags d = Inr (d', names)"
    and "mp_tags p = None \<Longrightarrow> set old_tags = tag_set d (m_id m)"
  shows "retagged d (m_id m) (set names) d'"
  using assms
  by (auto simp: patch_tags_def res_simps intro: set_tags_retagged split: option.splits) (simp add: retagged_def)

text \<open>
  An update whose check ran against an earlier state \<open>d0\<close>: what it read of the row is still
  true of the row it changes, by \<open>stale_read\<close>.
\<close>

lemma memory_update_refines:
  assumes run: "memory_update sha refs st now ctx i p audit_extra d0 d = Inr (d', resp)"
    and inv: "ledger_inv (ledger_of d0)" "ledger_inv (ledger_of d)" "tags_ok d"
    and old_events: "set (memory_events d0) \<subseteq> set (memory_events d)"
    and sinks: "resolve_sinks_for AT_memory st \<noteq> []"
  shows "tags_ok d' \<and> ledger_step (ledger_of d) (ledger_of d')"
proof -
  obtain old f m tags where chk: "memory_update_check now ctx i p d0 = Inr (old, f)"
      and com: "memory_update_commit sha st now ctx i p audit_extra old (load_tag_names d0 i) f d = Inr (d', m, tags)"
    using run unfolding memory_update_def macro_guard_Inr by (auto elim!: bindE_elims)
  obtain steps macro meta where c: "lookup m_id i (memories d0) = Some old" "m_version old = mp_expected_version p"
      "f = apply_patch p steps macro meta (m_version old + 1) now"
      "is_valid_transition (m_status old) (patch_value (mp_status p) (m_status old))"
    by (rule memory_update_check_spec [OF chk])
  obtain d1 n d2 model where s: "update_memory_row i (mp_expected_version p) f d = Inr (d1, n)" "n \<noteq> 0"
      "load_memory i d1 = Inr m" "patch_tags p m (load_tag_names d0 i) d1 = Inr (d2, tags)"
      "enqueue_memory st now m (m_version m) (outbox_op_for (patch_value (mp_status p) (m_status old)) False) tags model
        (record_audit ''update'' m (ctx_agent_id ctx) (Some (audit_snapshot sha old (Some (load_tag_names d0 i))))
          (Some (audit_snapshot sha m (Some tags))) audit_extra d2) = Inr d'"
    using com unfolding memory_update_commit_def Let_def by (auto elim!: bindE_elims simp: raise_if_eq_Inr)
  obtain r where r: "lookup m_id i (memories d) = Some r" "m_version r = mp_expected_version p" "memory_violation d (f r) = None"
      "d1 = d\<lparr>memories := update_where (\<lambda>x. m_id x = i) f (memories d)\<rparr>"
    by (rule update_memory_row_spec [OF s(1,2)])
  have ids: "m_id old = i" "m_id r = i" using lookup_SomeD c(1) r(1) by fastforce+
  have st: "m_status old = m_status r" "tag_set d0 i = tag_set d i"
    using stale_read [OF inv(1,2), of old r] old_events lookup_SomeD [OF c(1)] lookup_SomeD [OF r(1)] c(2) r(2) ids by auto
  have m: "m = f r"
    using s(3) lookup_updated [OF r(1), of f] unfolding r(4) load_memory_def by (simp add: c(3))
  have "tags_ok d1" unfolding r(4) by (rule tags_ok_ids [OF inv(3)]) (simp add: c(3))
  then have ret: "retagged d1 i (set tags) d2"
    using patch_tags_retagged [OF _ s(4)] st(2) ids m c(3) by (simp add: load_tag_names_set r(4))
  have enq: "enqueue_memory st now (f r) (m_version (f r)) (outbox_op_for (m_status (f r)) False) tags model
        (record_audit ''update'' m (ctx_agent_id ctx) (Some (audit_snapshot sha old (Some (load_tag_names d0 i))))
          (Some (audit_snapshot sha m (Some tags))) audit_extra d2) = Inr d'"
    using s(5) st(1) by (simp add: m c(3))
  show ?thesis
  proof (rule revise_refines [OF _ r(1) _ r(3) _ _ _ ret [unfolded r(4)] record_audit_tables enq sinks])
    show "rows_ok (ledger_of d)" using inv(2) by (simp add: ledger_inv_def)
    show "life_ok r (f r)" using c(4) st(1) by (simp add: c(3) life_ok_def)
  qed (use c(1-3) r(2) in simp_all)
qed

subsection \<open>Reading\<close>

definition bumped :: "time \<Rightarrow> real \<Rightarrow> memory \<Rightarrow> memory" where
  "bumped now s r = r\<lparr>m_access_count := m_access_count r + 1, m_last_accessed_at := Some now, m_salience := s\<rparr>"

lemma bump_memory_refines:
  assumes run: "bump_memory now w rc m d = Inr d'" and inv: "rows_ok (ledger_of d)" "tags_ok d"
  shows "tags_ok d' \<and> ledger_step\<^sup>*\<^sup>* (ledger_of d) (ledger_of d')"
proof -
  define f where "f = bumped now (compute_salience (bumped_inputs now rc m) now w)"
  have id: "m_id (f x) = m_id x" for x by (simp add: f_def bumped_def)
  consider "d' = d" | r where "lookup m_id (m_id m) (memories d) = Some r" "memory_violation d (f r) = None"
      "d' = d\<lparr>memories := update_where (\<lambda>r. m_id r = m_id m) f (memories d)\<rparr>"
    using run unfolding bump_memory_def Let_def f_def bumped_def by (auto split: option.splits)
  then show ?thesis
  proof cases
    case 1
    then show ?thesis using inv by simp
  next
    case 2
    have rows: "update_where (\<lambda>x. m_id x = m_id m) f (memories d) = put_row (f r) (memories d)"
      using inv(1) by (intro update_where_put_row 2 id) (simp add: rows_ok_def)
    have "ledger_of d' = (ledger_of d)\<lparr>lg_memories := put_row (f r) (lg_memories (ledger_of d))\<rparr>"
      by (simp add: ledger_of_def 2(3) rows memory_events_def)
    moreover have "ledger_step (ledger_of d) \<dots>"
      using 2(1,2) id lookup_SomeD [OF 2(1)]
      by (intro ledger_step.touch [where old = r]) (simp_all add: row_ok_ledger f_def bumped_def content_def)
    moreover have "tags_ok d'" unfolding 2(3) by (rule tags_ok_ids [OF inv(2)]) (simp add: id)
    ultimately show ?thesis by simp
  qed
qed

lemma memory_get_refines:
  assumes "memory_get refs w now ctx i bump d = Inr (d', resp)" and "rows_ok (ledger_of d)" "tags_ok d"
  shows "tags_ok d' \<and> ledger_step\<^sup>*\<^sup>* (ledger_of d) (ledger_of d')"
  using assms unfolding memory_get_def
  by (auto elim!: bindE_elims dest!: bump_memory_refines split: if_splits)

lemma ledger_steps_rows: "ledger_step\<^sup>*\<^sup>* L L' \<Longrightarrow> rows_ok L \<Longrightarrow> rows_ok L'"
  by (induction rule: rtranclp_induct) (auto intro: step_rows)

lemma bump_all_refines:
  assumes "bump_all refs w now ms d = Inr d'" and "rows_ok (ledger_of d)" "tags_ok d"
  shows "tags_ok d' \<and> ledger_step\<^sup>*\<^sup>* (ledger_of d) (ledger_of d')"
  using assms
proof (induction refs w now ms d rule: bump_all.induct)
  case (1 refs w now d)
  then show ?case by simp
next
  case (2 refs w now m ms d)
  then obtain d1 where d1: "bump_memory now w (refs (m_id m)) m d = Inr d1" "bump_all refs w now ms d1 = Inr d'"
    by (auto elim!: bindE_elims)
  have first: "tags_ok d1 \<and> ledger_step\<^sup>*\<^sup>* (ledger_of d) (ledger_of d1)" by (rule bump_memory_refines [OF d1(1) "2.prems"(2,3)])
  then have "rows_ok (ledger_of d1)" using ledger_steps_rows "2.prems"(2) by blast
  then show ?case using "2.IH" [OF d1] first by (meson rtranclp_trans)
qed

lemma memory_get_many_refines:
  assumes "memory_get_many refs w now ctx ids bump d = Inr (d', resp)" and "rows_ok (ledger_of d)" "tags_ok d"
  shows "tags_ok d' \<and> ledger_step\<^sup>*\<^sup>* (ledger_of d) (ledger_of d')"
  using assms unfolding memory_get_many_def Let_def
  by (auto elim!: bindE_elims dest!: bump_all_refines split: if_splits)

subsection \<open>Removing a memory\<close>

lemma delete_memory_row_spec:
  assumes "delete_memory_row i d = Inr d'"
  shows "environments d' = environments d" "memories d' = delete_where (\<lambda>r. m_id r = i) (memories d)"
    "tag_rows d' = tag_rows d" "memory_tags d' = delete_where (\<lambda>r. mt_memory_id r = i) (memory_tags d)"
    "outbox d' = outbox d" "\<forall>r \<in> set (memories d). m_id r \<noteq> i \<longrightarrow> m_superseded_by r \<noteq> Some i"
  using assms by (auto simp: delete_memory_row_def Let_def list_ex_iff split: if_splits)

lemma remove_refines:
  assumes ok: "tags_ok d" and m: "lookup m_id (m_id m) (memories d) = Some m" and d1: "mem_tables d1 = mem_tables d"
    and enq: "enqueue_memory st now m (m_version m + 1) OP_tombstone names model d1 = Inr d2"
    and d2: "mem_tables d3 = mem_tables d2" and del: "delete_memory_row (m_id m) d3 = Inr d'"
    and sinks: "resolve_sinks_for AT_memory st \<noteq> []"
  shows "tags_ok d' \<and> ledger_step (ledger_of d) (ledger_of d')"
proof -
  obtain row where ev: "snapshot_event m (m_version m + 1) OP_tombstone names row"
      "memory_events d2 = memory_events d1 @ [row]" "event_key row \<notin> event_key ` set (memory_events d1)"
      "environments d2 = environments d1" "memories d2 = memories d1" "tag_set d2 = tag_set d1" "tags_ok d2 = tags_ok d1"
    by (rule enqueue_memory_spec [OF enq sinks])
  note t1 = mem_tables_eq [OF d1] mem_tables_ledger [OF d1] and t2 = mem_tables_eq [OF d2] mem_tables_ledger [OF d2]
    and del = delete_memory_row_spec [OF del]
  have e1: "memory_events d1 = memory_events d" "memory_events d' = memory_events d2"
    using t1 t2 del by (simp_all add: memory_events_def)
  have "tag_set d' = (tag_set d3)(m_id m := {})"
    using del by (auto simp: tag_set_def fun_eq_iff)
  then have "ledger_of d' = (ledger_of d)\<lparr>lg_memories := delete_where (\<lambda>r. m_id r = m_id m) (lg_memories (ledger_of d)),
      lg_tags := (lg_tags (ledger_of d))(m_id m := {}), lg_events := lg_events (ledger_of d) @ [row]\<rparr>"
    using ev t1 t2 del e1 by (simp add: ledger_of_def)
  moreover have "ledger_step (ledger_of d) \<dots>"
    using m ev(1,3) e1 del(6) t1 t2 ev(5) by (intro ledger_step.remove) simp_all
  moreover have "tags_ok d3" using ok ev t1 t2 by simp
  then have "tags_ok d'"
    unfolding tags_ok_def del by (auto simp: delete_where_def)
  ultimately show ?thesis by simp
qed

lemma delete_one_refines:
  assumes run: "delete_one sha st now ctx reason corr m d = Inr (d', tomb)" and "tags_ok d"
    and "lookup m_id (m_id m) (memories d) = Some m" and sinks: "resolve_sinks_for AT_memory st \<noteq> []"
  shows "tags_ok d' \<and> ledger_step (ledger_of d) (ledger_of d')"
proof -
  obtain t d1 a b tags model d3 where s: "insert_tombstone t (draw_uuid d) = Inr d1"
      "enqueue_memory st now m (m_version m + 1) OP_tombstone tags model (record_audit ''hard_delete'' m (ctx_agent_id ctx) a b None d1) = Inr d3"
      "delete_memory_row (m_id m) d3 = Inr d'"
    using run unfolding delete_one_def Let_def by (auto elim!: bindE_elims)
  show ?thesis
    by (rule remove_refines [OF assms(2,3) _ s(2) refl s(3) sinks]) (simp add: insert_tombstone_tables [OF s(1)])
qed

lemma cascade_delete_refines:
  assumes "cascade_delete sha st now ctx i reason corr cs tomb d = Inr (d', t)" and "tags_ok d"
    and sinks: "resolve_sinks_for AT_memory st \<noteq> []"
  shows "tags_ok d' \<and> ledger_step\<^sup>*\<^sup>* (ledger_of d) (ledger_of d')"
  using assms(1,2)
proof (induction cs arbitrary: d tomb)
  case Nil
  then show ?case by simp
next
  case (Cons c cs)
  then obtain m d1 u tomb' where s: "lookup m_id (cd_id c) (memories d) = Some m"
      "delete_one sha st now ctx reason (Some corr) m d = Inr (d1, u)"
      "cascade_delete sha st now ctx i reason corr cs tomb' d1 = Inr (d', t)"
    by (auto elim!: bindE_elims simp: some_or_eq_Inr)
  have "lookup m_id (m_id m) (memories d) = Some m" using s(1) lookup_SomeD [OF s(1)] by simp
  then have "tags_ok d1 \<and> ledger_step (ledger_of d) (ledger_of d1)"
    using delete_one_refines [OF s(2) Cons.prems(2) _ sinks] by blast
  then show ?case using Cons.IH [OF s(3)] by (meson converse_rtranclp_into_rtranclp)
qed

lemma memory_hard_delete_refines:
  assumes run: "memory_hard_delete sha st now ctx i req d0 d = Inr (d', resp)" and ok: "tags_ok d"
    and sinks: "resolve_sinks_for AT_memory st \<noteq> []"
  shows "tags_ok d' \<and> ledger_step\<^sup>*\<^sup>* (ledger_of d) (ledger_of d')"
proof -
  note draw = mem_tables_ledger [OF draw_uuid_tables, of d]
  consider (one) m t where "lookup m_id i (memories d) = Some m" "delete_one sha st now ctx (strip (hd_reason req)) None m d = Inr (d', t)"
    | (dry) "d' = draw_uuid d"
    | (all) corr cs t where "cascade_delete sha st now ctx i (strip (hd_reason req)) corr cs None (draw_uuid d) = Inr (d', t)"
    using run unfolding memory_hard_delete_def hard_delete_single_def hard_delete_cascade_def Let_def load_memory_def
    by (auto elim!: bindE_elims simp: some_or_eq_Inr split: if_splits)
  then show ?thesis
  proof cases
    case one
    then show ?thesis using delete_one_refines [OF one(2) ok _ sinks] lookup_SomeD [OF one(1)] by auto
  next
    case dry
    then show ?thesis using ok draw by simp
  next
    case all
    then show ?thesis using cascade_delete_refines [OF all _ sinks] ok draw by simp
  qed
qed

subsection \<open>Superseding a memory\<close>

lemma mark_superseded_fields [simp]:
  "m_id (mark_superseded j v now r) = m_id r" "m_version (mark_superseded j v now r) = v"
  "m_env_id (mark_superseded j v now r) = m_env_id r" "m_status (mark_superseded j v now r) = MS_superseded"
  "m_superseded_by (mark_superseded j v now r) = Some j"
  by (simp_all add: mark_superseded_def)

lemma memory_supersede_check_spec:
  "memory_supersede_check ctx i v req d = Inr old \<Longrightarrow>
   lookup m_id i (memories d) = Some old \<and> m_version old = v \<and> is_valid_transition (m_status old) MS_superseded"
  unfolding memory_supersede_check_def load_memory_def
  by (auto elim!: bindE_elims simp: some_or_eq_Inr raise_if_eq_Inr)

lemma mem_tables_outbox:
  assumes "mem_tables a = mem_tables b"
  shows "mem_tables (a\<lparr>outbox := es\<rparr>) = mem_tables (b\<lparr>outbox := es\<rparr>)"
  using mem_tables_eq [OF assms] by (simp add: mem_tables_def)

text \<open>
  The new row, then the old one: the two events are written at the end, so the state between
  the two ledger steps is the one after the inserts with the first event already in.
\<close>

text \<open>The statements of a supersede that succeeded: \<open>x\<close> the new row, \<open>f\<close> the update of the old one.\<close>

lemma memory_supersede_spec:
  assumes "memory_supersede sha uuid_text refs st now ctx i v req d0 d = Inr (d', resp)"
  obtains x f old meta names model d1 d2 d3 d4 n old' d5 a b c e d8 where
    "x = new_memory (next_uuid d) (m_env_id old) req None None meta now"
    "f = mark_superseded (m_id x) (m_version old + 1) now"
    "memory_supersede_check ctx i v req d0 = Inr old"
    "insert_memory x (draw_uuid d) = Inr d1" "set_new_tags (m_id x) (m_env_id old) names d1 = Inr d2"
    "insert_memory_source (supersede_source uuid_text now ctx (m_id x)) d2 = Inr d3"
    "update_memory_row i v f d3 = Inr (d4, n)" "n \<noteq> 0" "load_memory i d4 = Inr old'"
    "insert_lineage \<lparr>ln_parent = i, ln_child = m_id x, ln_relation = LR_supersedes, ln_created_at = now\<rparr> d4 = Inr d5"
    "enqueue_memory st now x (m_version x) (outbox_op_for MS_active True) names model
       (record_audit ''supersede'' old' (ctx_agent_id ctx) a b c (record_audit ''create'' x (ctx_agent_id ctx) None (Some (audit_snapshot sha x (Some names))) e d5)) = Inr d8"
    "enqueue_memory st now old' (m_version old') (outbox_op_for MS_superseded False) (load_tag_names d3 i) model d8 = Inr d'"
    "resp = (memory_to_response refs old' (load_tag_names d3 i), memory_to_response refs x names)"
  using assms unfolding memory_supersede_def Let_def
  by (auto elim!: bindE_elims simp: raise_if_eq_Inr)

lemma memory_supersede_refines:
  assumes run: "memory_supersede sha uuid_text refs st now ctx i v req d0 d = Inr (d', resp)"
    and inv: "rows_ok (ledger_of d)" "tags_ok d"
    and sinks: "resolve_sinks_for AT_memory st \<noteq> []"
  shows "tags_ok d' \<and> ledger_step\<^sup>*\<^sup>* (ledger_of d) (ledger_of d')"
proof -
  obtain x f old meta names model d1 d2 d3 d4 n old' d5 a b c e d8 where
    x_def: "x = new_memory (next_uuid d) (m_env_id old) req None None meta now" and f_def: "f = mark_superseded (m_id x) (m_version old + 1) now"
    and chk: "memory_supersede_check ctx i v req d0 = Inr old"
    and s: "insert_memory x (draw_uuid d) = Inr d1" "set_new_tags (m_id x) (m_env_id old) names d1 = Inr d2"
      "insert_memory_source (supersede_source uuid_text now ctx (m_id x)) d2 = Inr d3"
      "update_memory_row i v f d3 = Inr (d4, n)" "n \<noteq> 0" "load_memory i d4 = Inr old'"
      "insert_lineage \<lparr>ln_parent = i, ln_child = m_id x, ln_relation = LR_supersedes, ln_created_at = now\<rparr> d4 = Inr d5"
      "enqueue_memory st now x (m_version x) (outbox_op_for MS_active True) names model
         (record_audit ''supersede'' old' (ctx_agent_id ctx) a b c (record_audit ''create'' x (ctx_agent_id ctx) None (Some (audit_snapshot sha x (Some names))) e d5)) = Inr d8"
      "enqueue_memory st now old' (m_version old') (outbox_op_for MS_superseded False) (load_tag_names d3 i) model d8 = Inr d'"
    by (rule memory_supersede_spec [OF run])
  have fid: "m_id (f y) = m_id y" for y by (simp add: f_def)
  note new = insert_with_tags [OF inv(2) s(1,2)]
  note t3 = mem_tables_eq [OF insert_memory_source_tables [OF s(3)]] mem_tables_ledger [OF insert_memory_source_tables [OF s(3)]]
  obtain r where r: "lookup m_id i (memories d3) = Some r" "m_version r = v" "memory_violation d3 (f r) = None"
      "d4 = d3\<lparr>memories := update_where (\<lambda>x. m_id x = i) f (memories d3)\<rparr>"
    by (rule update_memory_row_spec [OF s(4,5)])
  have old': "old' = f r" using s(6) lookup_updated [OF r(1), of f] fid unfolding r(4) load_memory_def by simp
  have d5: "mem_tables d5 = mem_tables d4" by (rule insert_lineage_tables [OF s(7)])
  let ?d7 = "record_audit ''supersede'' old' (ctx_agent_id ctx) a b c (record_audit ''create'' x (ctx_agent_id ctx) None (Some (audit_snapshot sha x (Some names))) e d5)"
  have d7: "mem_tables ?d7 = mem_tables d4" using d5 by simp
  have "m_status x = MS_active" by (simp add: x_def new_memory_def)
  then obtain row where ev: "snapshot_event x (m_version x) (outbox_op_for (m_status x) True) names row"
      "memory_events d8 = memory_events ?d7 @ [row]" "event_key row \<notin> event_key ` set (memory_events ?d7)"
      "environments d8 = environments ?d7" "memories d8 = memories ?d7" "tag_set d8 = tag_set ?d7" "tags_ok d8 = tags_ok ?d7"
    using enqueue_memory_spec [OF s(8) sinks] by metis
  have evs: "memory_events ?d7 = memory_events d"
    using mem_tables_eq(5) [OF d7] new(5) t3 r(4) by (simp add: memory_events_def)
  define dm where "dm = d3\<lparr>outbox := outbox d8\<rparr>"
  have ldm: "ledger_of dm = (ledger_of d)\<lparr>lg_memories := lg_memories (ledger_of d) @ [x],
      lg_tags := (lg_tags (ledger_of d))(m_id x := set names), lg_events := lg_events (ledger_of d) @ [row]\<rparr>"
    using new t3 ev(2) evs by (simp add: dm_def ledger_of_def memory_events_def tag_set_def fun_eq_iff)
  have create: "ledger_step (ledger_of d) (ledger_of dm)"
    unfolding ldm using new(6,7) ev(1,3) evs by (intro ledger_step.create) (simp_all add: x_def new_memory_def)
  have "tags_ok d' \<and> ledger_step (ledger_of dm) (ledger_of d')"
  proof (rule revise_refines)
    show "rows_ok (ledger_of dm)" using step_rows [OF create inv(1)] .
    show "lookup m_id i (memories dm) = Some r" using r(1) by (simp add: dm_def)
    show "memory_violation dm (f r) = None"
      using r(3) memory_violation_cong [of dm d3 "f r"] by (simp add: dm_def)
    show "m_version (f r) = m_version r + 1"
      using memory_supersede_check_spec [OF chk] r(2) by (simp add: f_def)
    have "tags_ok (d3\<lparr>memories := update_where (\<lambda>x. m_id x = i) f (memories d3)\<rparr>)"
      by (rule tags_ok_ids) (use new(1) t3 fid in simp_all)
    then have "tags_ok (dm\<lparr>memories := update_where (\<lambda>x. m_id x = i) f (memories dm)\<rparr>)"
      by (simp add: dm_def tags_ok_def)
    then show "retagged (dm\<lparr>memories := update_where (\<lambda>x. m_id x = i) f (memories dm)\<rparr>) i (set (load_tag_names d3 i))
        (dm\<lparr>memories := update_where (\<lambda>x. m_id x = i) f (memories dm)\<rparr>)"
      by (rule retagged_same) (simp add: load_tag_names_set tag_set_def dm_def)
    show "mem_tables d8 = mem_tables (dm\<lparr>memories := update_where (\<lambda>x. m_id x = i) f (memories dm)\<rparr>)"
    proof -
      obtain e where "enqueue_event st now AT_memory (m_id x) (m_version x) (m_env_id x) (outbox_op_for MS_active True) (projection_payload x names model) None ?d7 = Inr (d8, e)"
        using s(8) unfolding enqueue_memory_def by (auto elim!: bindE_elims)
      from enqueue_frame [OF this] show ?thesis
        using mem_tables_eq [OF d7] by (simp add: mem_tables_def dm_def r(4))
    qed
    show "enqueue_memory st now (f r) (m_version (f r)) (outbox_op_for (m_status (f r)) False) (load_tag_names d3 i) model d8 = Inr d'"
      using s(9) by (simp add: old' f_def)
  qed (use fid sinks in \<open>simp_all add: f_def life_ok_def\<close>)
  with create show ?thesis by (meson converse_rtranclp_into_rtranclp r_into_rtranclp)
qed

subsection \<open>Copies and moves\<close>

lemma copy_spec:
  assumes "copy_memory_in_session sha st now ctx req d = Inr (d', c)"
  obtains d1 d2 d5 env names model a e where
    "lookup m_id (mc_memory_id req) (memories d) = Some (cp_source c)" "cp_dst c = copied_memory (next_uuid d) env (mc_preserve_timestamps req) now (cp_source c)"
    "insert_memory (cp_dst c) (draw_uuid d) = Inr d1" "set_new_tags (m_id (cp_dst c)) env names d1 = Inr d2"
    "mem_tables d5 = mem_tables d2"
    "enqueue_memory st now (cp_dst c) (m_version (cp_dst c)) (outbox_op_for MS_active True) names model
       (record_audit ''copy'' (cp_dst c) (ctx_agent_id ctx) None a e d5) = Inr d'"
proof -
  obtain src env names d1 d2 d3 d4 d5 a e sm tm where s: "lookup m_id (mc_memory_id req) (memories d) = Some src"
      "insert_memory (copied_memory (next_uuid d) env (mc_preserve_timestamps req) now src) (draw_uuid d) = Inr d1"
      "set_new_tags (m_id (copied_memory (next_uuid d) env (mc_preserve_timestamps req) now src)) env names d1 = Inr d2"
      "(if mc_copy_provenance req then copy_sources (m_id (copied_memory (next_uuid d) env (mc_preserve_timestamps req) now src))
          (filter (\<lambda>s. src_memory_id s = m_id src) (memory_sources d2)) d2 else Inr d2) = Inr d3"
      "(if mc_copy_lineage req then copy_lineage_rows (m_id src) (m_id (copied_memory (next_uuid d) env (mc_preserve_timestamps req) now src))
          (filter (\<lambda>l. ln_parent l = m_id src \<or> ln_child l = m_id src) (memory_lineage d3)) d3 else Inr d3) = Inr d4"
      "(if mc_create_lineage_edge req then insert_lineage \<lparr>ln_parent = m_id src, ln_child = m_id (copied_memory (next_uuid d) env (mc_preserve_timestamps req) now src), ln_relation = LR_copied_from, ln_created_at = now\<rparr> d4
          else Inr d4) = Inr d5"
      "enqueue_memory st now (copied_memory (next_uuid d) env (mc_preserve_timestamps req) now src)
        (m_version (copied_memory (next_uuid d) env (mc_preserve_timestamps req) now src)) (outbox_op_for MS_active True) names tm
        (record_audit ''copy'' (copied_memory (next_uuid d) env (mc_preserve_timestamps req) now src) (ctx_agent_id ctx) None a e d5) = Inr d'"
      "cp_source c = src" "cp_dst c = copied_memory (next_uuid d) env (mc_preserve_timestamps req) now src"
    using assms unfolding copy_memory_in_session_def Let_def load_memory_def
    by (auto elim!: bindE_elims simp: some_or_eq_Inr)
  have "mem_tables d3 = mem_tables d2" using s(4) by (auto split: if_splits dest: copy_sources_tables)
  moreover have "mem_tables d4 = mem_tables d3" using s(5) by (auto split: if_splits dest: copy_lineage_rows_tables)
  moreover have "mem_tables d5 = mem_tables d4" using s(6) by (auto split: if_splits dest: insert_lineage_tables)
  ultimately show ?thesis using s(1-3,7-9) by (intro that [of env d1 names d2 d5]) simp_all
qed

lemma copy_refines:
  assumes run: "copy_memory_in_session sha st now ctx req d = Inr (d', c)" and ok: "tags_ok d"
    and sinks: "resolve_sinks_for AT_memory st \<noteq> []"
  shows "tags_ok d' \<and> ledger_step (ledger_of d) (ledger_of d')"
proof -
  obtain d1 d2 d5 env names model a e where s:
      "cp_dst c = copied_memory (next_uuid d) env (mc_preserve_timestamps req) now (cp_source c)"
      "insert_memory (cp_dst c) (draw_uuid d) = Inr d1" "set_new_tags (m_id (cp_dst c)) env names d1 = Inr d2"
      "mem_tables d5 = mem_tables d2"
      "enqueue_memory st now (cp_dst c) (m_version (cp_dst c)) (outbox_op_for MS_active True) names model
         (record_audit ''copy'' (cp_dst c) (ctx_agent_id ctx) None a e d5) = Inr d'"
    by (rule copy_spec [OF run])
  have "m_status (cp_dst c) = MS_active" unfolding s(1) by (simp add: copied_memory_def)
  moreover have "m_version (cp_dst c) = 1" unfolding s(1) by (simp add: copied_memory_def)
  ultimately show ?thesis using create_refines [OF ok s(2,3) _ _ sinks, of "record_audit ''copy'' (cp_dst c) (ctx_agent_id ctx) None a e d5"] s(4,5)
    by simp
qed

lemma update_memory_by_id_spec:
  assumes "update_memory_by_id i f d = Inr d'" and "lookup m_id i (memories d) = Some r"
  shows "memory_violation d (f r) = None" "d' = d\<lparr>memories := update_where (\<lambda>x. m_id x = i) f (memories d)\<rparr>"
  using assms by (auto simp: update_memory_by_id_def split: option.splits if_splits)

lemma redirect_source_refines:
  assumes run: "redirect_source sha st now ctx c d = Inr d'" and inv: "rows_ok (ledger_of d)" "tags_ok d"
    and src: "lookup m_id (m_id (cp_source c)) (memories d) = Some (cp_source c)"
    and sinks: "resolve_sinks_for AT_memory st \<noteq> []"
  shows "tags_ok d' \<and> ledger_step (ledger_of d) (ledger_of d')"
proof -
  let ?i = "m_id (cp_source c)" and ?names = "load_tag_names d (m_id (cp_source c))"
  define f where "f = mark_superseded (m_id (cp_dst c)) (m_version (cp_source c) + 1) now"
  have fid: "m_id (f y) = m_id y" for y by (simp add: f_def)
  obtain d1 src' a b e model where s: "update_memory_by_id ?i f d = Inr d1" "load_memory ?i d1 = Inr src'"
      "enqueue_memory st now src' (m_version src') (outbox_op_for MS_superseded False) ?names model
        (record_audit ''move'' src' (ctx_agent_id ctx) a b e d1) = Inr d'"
    using run unfolding redirect_source_def Let_def f_def by (auto elim!: bindE_elims)
  note u = update_memory_by_id_spec [OF s(1) src]
  have src': "src' = f (cp_source c)"
    using s(2) lookup_updated [OF src, of f] fid unfolding u(2) load_memory_def by simp
  have "tags_ok (d\<lparr>memories := update_where (\<lambda>x. m_id x = ?i) f (memories d)\<rparr>)"
    by (rule tags_ok_ids [OF inv(2)]) (simp add: fid)
  then have ret: "retagged (d\<lparr>memories := update_where (\<lambda>x. m_id x = ?i) f (memories d)\<rparr>) ?i (set ?names) d1"
    unfolding u(2) by (rule retagged_same) (simp add: load_tag_names_set)
  have enq: "enqueue_memory st now (f (cp_source c)) (m_version (f (cp_source c))) (outbox_op_for (m_status (f (cp_source c))) False) ?names model
        (record_audit ''move'' src' (ctx_agent_id ctx) a b e d1) = Inr d'"
    using s(3) by (simp add: src' f_def)
  show ?thesis
    by (rule revise_refines [OF inv(1) src fid u(1) _ _ _ ret _ enq sinks]) (simp_all add: f_def life_ok_def)
qed

lemma delete_source_refines:
  assumes run: "delete_source sha st now ctx c d = Inr d'" and "projected (ledger_of d)" and "resolve_sinks_for AT_memory st \<noteq> []"
    and src: "lookup m_id (m_id (cp_source c)) (memories d) = Some (cp_source c)"
  shows False
proof -
  obtain model d1 names where s: "enqueue_memory st now (cp_source c) (m_version (cp_source c)) OP_tombstone names model d = Inr d1"
    using run unfolding delete_source_def Let_def by (auto elim!: bindE_elims)
  obtain row where "event_key row \<notin> event_key ` set (memory_events d)"
      "snapshot_event (cp_source c) (m_version (cp_source c)) OP_tombstone names row"
    by (rule enqueue_memory_spec [OF s assms(3)])
  moreover have "cp_source c \<in> set (memories d)" using lookup_SomeD [OF src] by simp
  then obtain row' where r: "last_event (memory_events d) (m_id (cp_source c)) = Some row'" "describes (ledger_of d) row' (cp_source c)"
    using projectedD [OF assms(2), of "cp_source c"] by auto
  have "event_key row' = (m_id (cp_source c), m_version (cp_source c))" by (rule describesE [OF r(2)])
  moreover have "event_key row' \<in> event_key ` set (memory_events d)"
    using last_event_SomeD [OF r(1)] by blast
  moreover from calculation(2) have "event_key row = event_key row'"
    unfolding \<open>event_key row' = _\<close> by (simp add: snapshot_event_def event_key_def)
  ultimately show False by simp
qed

lemma copied_source_kept:
  assumes "copy_memory_in_session sha st now ctx req d = Inr (d', c)" and sinks: "resolve_sinks_for AT_memory st \<noteq> []"
    and ok: "tags_ok d"
  shows "lookup m_id (m_id (cp_source c)) (memories d') = Some (cp_source c)"
proof -
  obtain d1 d2 d5 env names model a e where s: "lookup m_id (mc_memory_id req) (memories d) = Some (cp_source c)"
      "insert_memory (cp_dst c) (draw_uuid d) = Inr d1" "set_new_tags (m_id (cp_dst c)) env names d1 = Inr d2" "mem_tables d5 = mem_tables d2"
      "enqueue_memory st now (cp_dst c) (m_version (cp_dst c)) (outbox_op_for MS_active True) names model
         (record_audit ''copy'' (cp_dst c) (ctx_agent_id ctx) None a e d5) = Inr d'"
    by (rule copy_spec [OF assms(1)])
  have "memories d' = memories d @ [cp_dst c]"
    using insert_with_tags(3) [OF ok s(2,3)] mem_tables_eq(2) [OF s(4)]
      mem_tables_eq(2) [OF record_audit_tables, of "''copy''" "cp_dst c" "ctx_agent_id ctx" None a e d5]
    by (metis enqueue_memory_spec [OF s(5) sinks])
  then show ?thesis using s(1) lookup_SomeD [OF s(1)] by (simp add: lookup_append)
qed

lemma mem_copy_refines:
  assumes "mem_copy sha uuid_text gv re exec st now ctx req d w = Inr (d', w', resp)" and "tags_ok d"
    and "resolve_sinks_for AT_memory st \<noteq> []"
  shows "tags_ok d' \<and> ledger_step (ledger_of d) (ledger_of d')"
  using assms unfolding mem_copy_def Let_def by (auto elim!: bindE_elims dest: copy_refines split: prod.splits)

lemma mem_move_refines:
  assumes run: "mem_move sha uuid_text gv re exec st now ctx req redirect d w = Inr (d', w', resp)"
    and inv: "ledger_inv (ledger_of d)" "tags_ok d" and sinks: "resolve_sinks_for AT_memory st \<noteq> []"
  shows "redirect \<and> tags_ok d' \<and> ledger_step\<^sup>*\<^sup>* (ledger_of d) (ledger_of d')"
proof -
  obtain d1 c where c: "copy_memory_in_session sha st now ctx req d = Inr (d1, c)"
      "(if redirect then redirect_source sha st now ctx c d1 else delete_source sha st now ctx c d1) = Inr d'"
    using run unfolding mem_move_def Let_def by (auto elim!: bindE_elims split: prod.splits)
  have one: "tags_ok d1" "ledger_step (ledger_of d) (ledger_of d1)" using copy_refines [OF c(1) inv(2) sinks] by auto
  have i1: "ledger_inv (ledger_of d1)" using ledger_step_inv one(2) inv(1) by blast
  note src = copied_source_kept [OF c(1) sinks inv(2)]
  have redirect using c(2) delete_source_refines [OF _ _ sinks src] i1 by (auto simp: ledger_inv_def split: if_splits)
  moreover have "tags_ok d' \<and> ledger_step (ledger_of d1) (ledger_of d')"
    using redirect_source_refines [OF _ _ one(1) src sinks] c(2) i1 calculation by (auto simp: ledger_inv_def)
  ultimately show ?thesis using one(2) by (meson converse_rtranclp_into_rtranclp r_into_rtranclp)
qed

end
