(* ===== verification/DreamStore.thy ===== *)
theory DreamStore
  imports Memories
begin

text \<open>
  The tables of the dream worker (\<open>DreamRun\<close> and \<open>DreamProposal\<close> of
  \<open>memory_mcp/db/models.py\<close>) beside the canonical database. The columns whose CHECK admits the
  values of an enumeration hold a value of its datatype. A proposal's \<open>dedupe_key\<close> is the
  value its text spells: the kind of cluster and the uuids that identify it.
\<close>

datatype dream_mode = DM_decay | DM_dedupe | DM_promote | DM_decision_conflicts | DM_recount

datatype dream_outcome = DO_done | DO_failed | DO_skipped | DO_cancelled

datatype dream_run_status = DR_running | DR_done | DR_failed | DR_cancelled

datatype proposal_kind =
    PK_merge_candidate | PK_promotion_candidate | PK_decay_candidate | PK_decision_conflict_candidate

datatype proposal_status = DP_open | DP_accepted | DP_rejected | DP_amended | DP_deferred | DP_expired

datatype review_action = RA_accept | RA_reject | RA_amend | RA_defer

datatype summarizer_kind = SZ_llm | SZ_template

datatype dedupe_key =
    DK_merge "uuid list"
  | DK_promote uuid "uuid list"
  | DK_decision_conflict uuid uuid

fun dream_mode_value :: "dream_mode \<Rightarrow> string" where
  "dream_mode_value DM_decay = ''decay''"
| "dream_mode_value DM_dedupe = ''dedupe''"
| "dream_mode_value DM_promote = ''promote''"
| "dream_mode_value DM_decision_conflicts = ''decision_conflicts''"
| "dream_mode_value DM_recount = ''recount''"

fun proposal_status_value :: "proposal_status \<Rightarrow> string" where
  "proposal_status_value DP_open = ''open''"
| "proposal_status_value DP_accepted = ''accepted''"
| "proposal_status_value DP_rejected = ''rejected''"
| "proposal_status_value DP_amended = ''amended''"
| "proposal_status_value DP_deferred = ''deferred''"
| "proposal_status_value DP_expired = ''expired''"

fun review_action_value :: "review_action \<Rightarrow> string" where
  "review_action_value RA_accept = ''accept''"
| "review_action_value RA_reject = ''reject''"
| "review_action_value RA_amend = ''amend''"
| "review_action_value RA_defer = ''defer''"

fun summarizer_kind_value :: "summarizer_kind \<Rightarrow> string" where
  "summarizer_kind_value SZ_llm = ''llm''"
| "summarizer_kind_value SZ_template = ''template''"

record dream_run =
  rn_id :: uuid
  rn_env_id :: uuid
  rn_mode :: dream_mode
  rn_status :: dream_run_status
  rn_started_at :: time
  rn_ended_at :: "time option"
  rn_triggered_by :: string
  rn_summarizer_kind :: "summarizer_kind option"
  rn_summary :: payload
  rn_last_error :: "string option"

record dream_proposal =
  pr_id :: uuid
  pr_env_id :: uuid
  pr_kind :: proposal_kind
  pr_status :: proposal_status
  pr_payload :: payload
  pr_summarizer_kind :: "summarizer_kind option"
  pr_llm_failed :: bool
  pr_dedupe_key :: "dedupe_key option"
  pr_dream_run_id :: "uuid option"
  pr_created_at :: time
  pr_updated_at :: time
  pr_reviewed_at :: "time option"
  pr_reviewed_by_agent_id :: "uuid option"
  pr_review_action :: "review_action option"
  pr_review_notes :: "string option"

text \<open>
  The whole database: the canonical tables and the dream worker's. The heartbeats are the rows
  of \<open>projection_state\<close> whose sink is \<open>dream_worker:<mode>\<close>.
\<close>

record heartbeat =
  hb_mode :: dream_mode
  hb_env_id :: uuid
  hb_last_success_at :: "time option"
  hb_lag_seconds :: "real option"
  hb_status :: projection_status
  hb_last_error :: "string option"

record dream_db =
  canon :: db
  dream_runs :: "dream_run list"
  dream_proposals :: "dream_proposal list"
  heartbeats :: "heartbeat list"

subsection \<open>Statements on \<open>dream_proposals\<close>\<close>

text \<open>
  \<open>dream_proposals_open_dedupe_key_uniq\<close>: at most one open proposal per environment, kind and
  key. \<open>INSERT ... ON CONFLICT DO NOTHING\<close> against it inserts no row, without an error, when
  an open proposal has the key; \<open>True\<close> says that the row is in.
\<close>

definition open_conflict :: "dream_db \<Rightarrow> dream_proposal \<Rightarrow> bool" where
  "open_conflict s p \<longleftrightarrow> pr_status p = DP_open \<and> pr_dedupe_key p \<noteq> None \<and>
     list_ex (\<lambda>q. pr_status q = DP_open \<and> pr_env_id q = pr_env_id p \<and> pr_kind q = pr_kind p \<and>
       pr_dedupe_key q = pr_dedupe_key p) (dream_proposals s)"

text \<open>\<open>dream_proposals_review_fields_chk\<close>.\<close>

definition review_fields_ok :: "dream_proposal \<Rightarrow> bool" where
  "review_fields_ok p \<longleftrightarrow> (pr_status p = DP_open) = (pr_reviewed_at p = None) \<and> (pr_status p = DP_open) = (pr_review_action p = None)"

definition proposal_violation :: "dream_db \<Rightarrow> dream_proposal \<Rightarrow> string option" where
  "proposal_violation s p =
     (if list_ex (\<lambda>q. pr_id q = pr_id p) (dream_proposals s) then Some ''dream_proposals_pkey''
      else if \<not> env_exists (canon s) (pr_env_id p) then Some ''dream_proposals_env_id_fkey''
      else if (case pr_dream_run_id p of None \<Rightarrow> False | Some r \<Rightarrow> \<not> list_ex (\<lambda>q. rn_id q = r) (dream_runs s))
        then Some ''dream_proposals_dream_run_id_fkey''
      else if \<not> review_fields_ok p then Some ''dream_proposals_review_fields_chk''
      else None)"

definition insert_proposal :: "dream_proposal \<Rightarrow> dream_db \<Rightarrow> (dream_db \<times> bool) res" where
  "insert_proposal p s =
     (if open_conflict s p then Inr (s, False)
      else case proposal_violation s p of
        Some c \<Rightarrow> Inl (IntegrityError c)
      | None \<Rightarrow> Inr (s\<lparr>dream_proposals := dream_proposals s @ [p]\<rparr>, True))"

text \<open>The row a pass inserts, with the column defaults.\<close>

definition new_proposal ::
  "uuid \<Rightarrow> uuid \<Rightarrow> proposal_kind \<Rightarrow> payload \<Rightarrow> summarizer_kind option \<Rightarrow> bool \<Rightarrow> dedupe_key \<Rightarrow> uuid option \<Rightarrow> time \<Rightarrow> dream_proposal" where
  "new_proposal i env kind pl summarizer failed key run now =
     \<lparr>pr_id = i, pr_env_id = env, pr_kind = kind, pr_status = DP_open, pr_payload = pl,
      pr_summarizer_kind = summarizer, pr_llm_failed = failed, pr_dedupe_key = Some key, pr_dream_run_id = run,
      pr_created_at = now, pr_updated_at = now, pr_reviewed_at = None, pr_reviewed_by_agent_id = None,
      pr_review_action = None, pr_review_notes = None\<rparr>"

text \<open>The invariant the constraints keep.\<close>

definition open_key :: "dream_proposal \<Rightarrow> uuid \<times> proposal_kind \<times> dedupe_key option" where
  "open_key p = (pr_env_id p, pr_kind p, pr_dedupe_key p)"

definition keyed_open :: "dream_proposal \<Rightarrow> bool" where
  "keyed_open p \<longleftrightarrow> pr_status p = DP_open \<and> pr_dedupe_key p \<noteq> None"

definition proposals_ok :: "dream_db \<Rightarrow> bool" where
  "proposals_ok s \<longleftrightarrow> distinct (map pr_id (dream_proposals s)) \<and>
     (\<forall>p \<in> set (dream_proposals s). review_fields_ok p) \<and>
     distinct (map open_key (filter keyed_open (dream_proposals s)))"

lemma insert_proposal_ok:
  assumes ok: "proposals_ok s" and ins: "insert_proposal p s = Inr (s', b)"
  shows "proposals_ok s'"
proof (cases "open_conflict s p")
  case True
  then show ?thesis using ok ins by (simp add: insert_proposal_def)
next
  case False
  then have v: "proposal_violation s p = None" and s': "s' = s\<lparr>dream_proposals := dream_proposals s @ [p]\<rparr>"
    using ins by (auto simp: insert_proposal_def split: option.splits)
  have fresh: "pr_id p \<notin> pr_id ` set (dream_proposals s)"
  proof
    assume "pr_id p \<in> pr_id ` set (dream_proposals s)"
    then have "list_ex (\<lambda>q. pr_id q = pr_id p) (dream_proposals s)" by (force simp: list_ex_iff)
    with v show False by (simp add: proposal_violation_def)
  qed
  have rev: "review_fields_ok p"
    using v by (rule contrapos_pp) (simp add: proposal_violation_def split: option.split)
  have key: "open_key p \<notin> open_key ` set (filter keyed_open (dream_proposals s))" if "keyed_open p"
  proof
    assume "open_key p \<in> open_key ` set (filter keyed_open (dream_proposals s))"
    then obtain q where "q \<in> set (dream_proposals s)" "keyed_open q" "open_key p = open_key q" by auto
    then have "open_conflict s p"
      using that unfolding open_conflict_def list_ex_iff keyed_open_def open_key_def by auto
    with False show False ..
  qed
  show ?thesis
    unfolding proposals_ok_def
  proof (intro conjI)
    show "distinct (map pr_id (dream_proposals s'))" using ok fresh by (simp add: s' proposals_ok_def)
    show "\<forall>q \<in> set (dream_proposals s'). review_fields_ok q" using ok rev by (simp add: s' proposals_ok_def)
    show "distinct (map open_key (filter keyed_open (dream_proposals s')))"
    proof (cases "keyed_open p")
      case True
      have "distinct (map open_key (filter keyed_open (dream_proposals s)))" using ok by (simp add: proposals_ok_def)
      with key [OF True] True show ?thesis by (simp add: s' del: set_filter)
    next
      case False
      then show ?thesis using ok by (simp add: s' proposals_ok_def)
    qed
  qed
qed

end
