(* ===== verification/DreamReview.thy ===== *)
theory DreamReview
  imports DreamStore
begin

text \<open>
  Reviewing proposals, after \<open>memory_mcp/dream/api.py\<close>: \<open>dream_review\<close> locks an open
  proposal, runs the accept handler of its kind and writes the outcome, all in one transaction.
  Accepting a merge candidate inserts the merged memory and supersedes its sources; accepting
  a promotion candidate inserts a memory derived from the observations. In a payload the text of
  a uuid is the value \<open>JUuid\<close>; \<open>float_of\<close> is Python's \<open>float\<close> on texts.
\<close>

record review_patch =
  rp_title :: "string option"
  rp_body :: "string option"
  rp_confidence :: "real option"

record review_request =
  rq_proposal_id :: uuid
  rq_action :: review_action
  rq_notes :: "string option"
  rq_patch :: "review_patch option"
  rq_expected_versions :: "uuid \<Rightarrow> int option"

subsection \<open>Reading a payload\<close>

text \<open>
  \<open>UUID(str(x))\<close>, and \<open>[UUID(str(x)) for x in v]\<close>: a text or an object is iterated by its
  characters or keys, none of which is a uuid, and other values cannot be iterated; every
  failure becomes the same \<open>InvalidInputError\<close>.
\<close>

definition uuid_of_json :: "json \<Rightarrow> uuid option" where
  "uuid_of_json v = (case v of JUuid u \<Rightarrow> Some u | _ \<Rightarrow> None)"

definition uuids_of_json :: "json \<Rightarrow> uuid list option" where
  "uuids_of_json v = (case v of
       JList xs \<Rightarrow> those (map uuid_of_json xs)
     | JStr [] \<Rightarrow> Some [] | JObj [] \<Rightarrow> Some []
     | _ \<Rightarrow> None)"

text \<open>\<open>payload.get(k, [])\<close> as a list of uuids.\<close>

definition payload_uuids :: "payload \<Rightarrow> string \<Rightarrow> uuid list option" where
  "payload_uuids pl k = (case map_of pl k of None \<Rightarrow> Some [] | Some v \<Rightarrow> uuids_of_json v)"

text \<open>
  \<open>(patch.title if patch else None) or payload.get(k) or fallback\<close>, bound to a text column.
\<close>

definition text_choice :: "string option \<Rightarrow> json \<Rightarrow> string option \<Rightarrow> string option res" where
  "text_choice patched suggested fallback =
     (case patched of
        Some (c # cs) \<Rightarrow> Inr (Some (c # cs))
      | _ \<Rightarrow> if truthy suggested
             then (case suggested of JStr s \<Rightarrow> Inr (Some s) | _ \<Rightarrow> Inl (DataError ''expected str''))
             else Inr fallback)"

text \<open>\<open>(patch.confidence if patch else None) or payload.get(k)\<close>, then \<open>float\<close> of it unless it is null.\<close>

definition json_float :: "(string \<Rightarrow> real option) \<Rightarrow> json \<Rightarrow> real option res" where
  "json_float float_of v = (case v of
       JNull \<Rightarrow> Inr None
     | JReal r \<Rightarrow> Inr (Some r)
     | JInt i \<Rightarrow> Inr (Some (real_of_int i))
     | JBool b \<Rightarrow> Inr (Some (of_bool b))
     | JStr s \<Rightarrow> bindE (some_or (ValueError ''could not convert string to float'') (float_of s)) (\<lambda>r. Inr (Some r))
     | JUuid _ \<Rightarrow> Inl (ValueError ''could not convert string to float'')
     | JTime _ \<Rightarrow> Inl (ValueError ''could not convert string to float'')
     | _ \<Rightarrow> Inl (TypeError ''float''))"

definition confidence_choice :: "(string \<Rightarrow> real option) \<Rightarrow> real option \<Rightarrow> json \<Rightarrow> real option res" where
  "confidence_choice float_of patched suggested =
     (case patched of
        Some c \<Rightarrow> if c \<noteq> 0 then Inr (Some c) else json_float float_of suggested
      | None \<Rightarrow> json_float float_of suggested)"

subsection \<open>Accepting a merge candidate\<close>

definition merge_members :: "payload \<Rightarrow> (uuid \<times> uuid list) res" where
  "merge_members pl =
     (case (uuid_of_json (jget pl ''primary_id''), payload_uuids pl ''candidate_ids'') of
        (Some primary, Some candidates) \<Rightarrow>
          bindE (raise_if (candidates = []) (InvalidInputError ''merge_candidate payload has no candidate_ids'')) (\<lambda>_.
          bindE (raise_if (primary \<in> set candidates)
                   (InvalidInputError ''merge_candidate payload includes primary_id in candidate_ids'')) (\<lambda>_.
            Inr (primary, candidates)))
      | _ \<Rightarrow> Inl (InvalidInputError ''merge_candidate payload missing or malformed''))"

text \<open>The locked rows, or the first id that has none.\<close>

definition locked_rows :: "uuid list \<Rightarrow> db \<Rightarrow> memory list res" where
  "locked_rows ids d =
     (case find (\<lambda>i. lookup m_id i (memories d) = None) (sort (remdups ids)) of
        Some i \<Rightarrow> Inl (NotFoundError ''memory'' i)
      | None \<Rightarrow> Inr (lock_memories ids d))"

text \<open>\<open>[primary] + [by_id[c] for c in candidate_ids]\<close>.\<close>

definition source_rows :: "uuid list \<Rightarrow> memory list \<Rightarrow> memory list" where
  "source_rows ids rows = List.map_filter (\<lambda>i. lookup m_id i rows) ids"

fun check_sources :: "uuid \<Rightarrow> memory_kind \<Rightarrow> memory list \<Rightarrow> unit res" where
  "check_sources env kind [] = Inr ()"
| "check_sources env kind (r # rs) =
     bindE (raise_if (m_env_id r \<noteq> env) (InvalidTransitionError ''env'' ''env'')) (\<lambda>_.
     bindE (raise_if (m_kind r \<noteq> kind)
              (InvalidTransitionError (memory_kind_value (m_kind r)) (memory_kind_value kind))) (\<lambda>_.
     bindE (raise_if (m_status r \<noteq> MS_active \<and> m_status r \<noteq> MS_stale)
              (InvalidTransitionError (memory_status_value (m_status r)) (memory_status_value MS_superseded))) (\<lambda>_.
       check_sources env kind rs)))"

fun check_expected :: "(uuid \<Rightarrow> int option) \<Rightarrow> memory list \<Rightarrow> unit res" where
  "check_expected expected [] = Inr ()"
| "check_expected expected (r # rs) =
     bindE (case expected (m_id r) of
              None \<Rightarrow> Inr ()
            | Some v \<Rightarrow> raise_if (v \<noteq> m_version r) (VersionConflictError v (m_version r))) (\<lambda>_.
       check_expected expected rs)"

definition merged_memory :: "uuid \<Rightarrow> memory \<Rightarrow> string option \<Rightarrow> string \<Rightarrow> time \<Rightarrow> memory" where
  "merged_memory i primary title body now =
     \<lparr>m_id = i, m_env_id = m_env_id primary, m_kind = m_kind primary, m_status = MS_active, m_title = title,
      m_body = body, m_trigger_description = None, m_steps = None, m_macro = None, m_salience = 1/2,
      m_confidence = 1/2, m_access_count = 0, m_last_accessed_at = None, m_pinned = False,
      m_negative_feedback_count = 0, m_verified_at = None, m_created_at = now, m_updated_at = now,
      m_expires_at = None, m_superseded_by = None, m_metadata = m_metadata primary, m_decision_meta = None,
      m_version = 1\<rparr>"

definition dream_source :: "(uuid \<Rightarrow> string) \<Rightarrow> time \<Rightarrow> agent_context \<Rightarrow> dream_proposal \<Rightarrow> uuid \<Rightarrow> memory_source" where
  "dream_source uuid_text now ctx p i =
     \<lparr>src_memory_id = i, src_type = SRC_dream,
      src_ref = Some (uuid_text (case pr_dream_run_id p of Some r \<Rightarrow> r | None \<Rightarrow> pr_id p)),
      src_agent_id = Some (ctx_agent_id ctx), src_evidence_span = None, src_created_at = now\<rparr>"

text \<open>
  One round of the loop over the sources. \<open>src\<close> is the object of the session, refreshed by
  every update of its row: its columns are those of the row.
\<close>

definition supersede_into ::
  "(string \<Rightarrow> string) \<Rightarrow> settings \<Rightarrow> time \<Rightarrow> agent_context \<Rightarrow> memory \<Rightarrow> string \<Rightarrow> (uuid \<Rightarrow> string list) \<Rightarrow> uuid \<Rightarrow> db \<Rightarrow> db res" where
  "supersede_into sha st now ctx merged model tags_of i d =
     bindE (load_memory i d) (\<lambda>src.
     bindE (update_memory_row i (m_version src) (mark_superseded (m_id merged) (m_version src + 1) now) d) (\<lambda>(d1, rowcount).
     bindE (raise_if (rowcount = 0) (VersionConflictError (m_version src) (m_version src + 1))) (\<lambda>_.
     bindE (load_memory i d1) (\<lambda>src'.
     bindE (insert_lineage \<lparr>ln_parent = i, ln_child = m_id merged, ln_relation = LR_supersedes, ln_created_at = now\<rparr> d1) (\<lambda>d2.
     let d3 = record_audit ''supersede'' src' (ctx_agent_id ctx) (Some (audit_snapshot sha src (Some (tags_of i))))
                (Some (audit_snapshot sha src' (Some (tags_of i)))) (Some [(''superseded_by'', JUuid (m_id merged))]) d2 in
       enqueue_memory st now src' (m_version src') (outbox_op_for MS_superseded False) (tags_of i) model d3)))))"

fun supersede_all ::
  "(string \<Rightarrow> string) \<Rightarrow> settings \<Rightarrow> time \<Rightarrow> agent_context \<Rightarrow> memory \<Rightarrow> string \<Rightarrow> (uuid \<Rightarrow> string list) \<Rightarrow> uuid list \<Rightarrow> db \<Rightarrow> db res" where
  "supersede_all sha st now ctx merged model tags_of [] d = Inr d"
| "supersede_all sha st now ctx merged model tags_of (i # is) d =
     bindE (supersede_into sha st now ctx merged model tags_of i d) (\<lambda>d'.
       supersede_all sha st now ctx merged model tags_of is d')"

definition union_tags :: "(uuid \<Rightarrow> string list) \<Rightarrow> memory list \<Rightarrow> string list" where
  "union_tags tags_of sources = sort (remdups (concat (map (\<lambda>r. tags_of (m_id r)) sources)))"

definition accept_merge ::
  "(string \<Rightarrow> string) \<Rightarrow> (uuid \<Rightarrow> string) \<Rightarrow> settings \<Rightarrow> time \<Rightarrow> agent_context \<Rightarrow> dream_proposal \<Rightarrow> review_patch option
   \<Rightarrow> (uuid \<Rightarrow> int option) \<Rightarrow> db \<Rightarrow> (db \<times> memory \<times> string list \<times> uuid list) res" where
  "accept_merge sha uuid_text st now ctx p patch expected d =
     bindE (merge_members (pr_payload p)) (\<lambda>(primary_id, candidates).
     bindE (locked_rows (primary_id # candidates) d) (\<lambda>rows.
     bindE (some_or (KeyError ''primary_id'') (lookup m_id primary_id rows)) (\<lambda>primary.
     let sources = source_rows (primary_id # candidates) rows in
     bindE (check_sources (m_env_id primary) (m_kind primary) sources) (\<lambda>_.
     bindE (check_expected expected sources) (\<lambda>_.
     let tags_of = load_tag_names d; names = union_tags tags_of sources in
     bindE (load_env_embedding_model d (m_env_id primary)) (\<lambda>model.
     bindE (text_choice (Option.bind patch rp_title) (jget (pr_payload p) ''suggested_merged_title'') (m_title primary)) (\<lambda>title.
     bindE (text_choice (Option.bind patch rp_body) (jget (pr_payload p) ''suggested_merged_body'') (Some (m_body primary))) (\<lambda>body.
     let merged = merged_memory (next_uuid d) primary title (case body of None \<Rightarrow> [] | Some b \<Rightarrow> b) now in
     bindE (insert_memory merged (draw_uuid d)) (\<lambda>d1.
     bindE (set_new_tags (m_id merged) (m_env_id primary) names d1) (\<lambda>d2.
     bindE (insert_memory_source (dream_source uuid_text now ctx p (m_id merged)) d2) (\<lambda>d3.
     let d4 = record_audit ''create'' merged (ctx_agent_id ctx) None (Some (audit_snapshot sha merged (Some names)))
                (Some [(''merged_from'', JList (map (\<lambda>r. JUuid (m_id r)) sources))]) d3 in
     bindE (enqueue_memory st now merged (m_version merged) (outbox_op_for MS_active True) names model d4) (\<lambda>d5.
     bindE (supersede_all sha st now ctx merged model tags_of (map m_id sources) d5) (\<lambda>d6.
       Inr (d6, merged, names, map m_id sources))))))))))))))"

subsection \<open>Accepting a promotion candidate\<close>

definition memory_kind_of :: "string \<Rightarrow> memory_kind option" where
  "memory_kind_of t = find (\<lambda>k. memory_kind_value k = t)
     [MK_fact, MK_procedure, MK_playbook, MK_event, MK_decision, MK_preference, MK_observation,
      MK_journal_entry, MK_session_digest, MK_snippet, MK_message]"

text \<open>
  \<open>str(payload.get("target_kind", "fact"))\<close> as a value of the column \<open>kind\<close>: the text of a
  value that is no text names no kind.
\<close>

definition target_kind :: "payload \<Rightarrow> memory_kind option" where
  "target_kind pl = (case map_of pl ''target_kind'' of
       None \<Rightarrow> Some MK_fact | Some (JStr t) \<Rightarrow> memory_kind_of t | Some _ \<Rightarrow> None)"

definition promoted_observations :: "payload \<Rightarrow> uuid list res" where
  "promoted_observations pl =
     (case payload_uuids pl ''observation_ids'' of
        None \<Rightarrow> Inl (InvalidInputError ''promotion_candidate payload malformed'')
      | Some ids \<Rightarrow> bindE (raise_if (ids = []) (InvalidInputError ''promotion_candidate payload has no observation_ids''))
                    (\<lambda>_. Inr ids))"

fun check_observations :: "(uuid \<Rightarrow> int option) \<Rightarrow> memory list \<Rightarrow> unit res" where
  "check_observations expected [] = Inr ()"
| "check_observations expected (r # rs) =
     bindE (raise_if (m_status r = MS_retired \<or> m_status r = MS_superseded)
              (InvalidTransitionError (memory_status_value (m_status r)) ''promote'')) (\<lambda>_.
     bindE (case expected (m_id r) of
              None \<Rightarrow> Inr ()
            | Some v \<Rightarrow> raise_if (v \<noteq> m_version r) (VersionConflictError v (m_version r))) (\<lambda>_.
       check_observations expected rs))"

text \<open>\<open>env_id = next(iter(env_ids))\<close> of the one environment of the rows, the proposal's.\<close>

definition observations_env :: "uuid \<Rightarrow> memory list \<Rightarrow> uuid res" where
  "observations_env proposal_env rows =
     (case remdups (map m_env_id rows) of
        [env] \<Rightarrow> bindE (raise_if (proposal_env \<noteq> env) (InvalidTransitionError ''proposal.env'' ''observations.env'')) (\<lambda>_. Inr env)
      | _ \<Rightarrow> Inl (InvalidTransitionError ''observations span envs'' ''promote''))"

definition promoted_memory ::
  "uuid \<Rightarrow> uuid \<Rightarrow> memory_kind \<Rightarrow> string option \<Rightarrow> string \<Rightarrow> real option \<Rightarrow> time \<Rightarrow> memory" where
  "promoted_memory i env kind title body confidence now =
     \<lparr>m_id = i, m_env_id = env, m_kind = kind, m_status = MS_active, m_title = title,
      m_body = body, m_trigger_description = None, m_steps = None, m_macro = None, m_salience = 1/2,
      m_confidence = (case confidence of None \<Rightarrow> 1/2 | Some c \<Rightarrow> c), m_access_count = 0, m_last_accessed_at = None,
      m_pinned = False, m_negative_feedback_count = 0, m_verified_at = None, m_created_at = now, m_updated_at = now,
      m_expires_at = None, m_superseded_by = None, m_metadata = [], m_decision_meta = None, m_version = 1\<rparr>"

fun derive_from :: "time \<Rightarrow> uuid \<Rightarrow> memory list \<Rightarrow> db \<Rightarrow> db res" where
  "derive_from now child [] d = Inr d"
| "derive_from now child (r # rs) d =
     bindE (insert_lineage \<lparr>ln_parent = m_id r, ln_child = child, ln_relation = LR_promoted_from, ln_created_at = now\<rparr> d) (\<lambda>d'.
       derive_from now child rs d')"

definition accept_promotion ::
  "(string \<Rightarrow> string) \<Rightarrow> (uuid \<Rightarrow> string) \<Rightarrow> (string \<Rightarrow> real option) \<Rightarrow> settings \<Rightarrow> time \<Rightarrow> agent_context \<Rightarrow> dream_proposal
   \<Rightarrow> review_patch option \<Rightarrow> (uuid \<Rightarrow> int option) \<Rightarrow> db \<Rightarrow> (db \<times> memory \<times> string list) res" where
  "accept_promotion sha uuid_text float_of st now ctx p patch expected d =
     bindE (promoted_observations (pr_payload p)) (\<lambda>ids.
     bindE (locked_rows ids d) (\<lambda>rows.
     bindE (observations_env (pr_env_id p) rows) (\<lambda>env.
     bindE (check_observations expected rows) (\<lambda>_.
     bindE (load_env_embedding_model d env) (\<lambda>model.
     bindE (confidence_choice float_of (Option.bind patch rp_confidence) (jget (pr_payload p) ''suggested_confidence'')) (\<lambda>confidence.
     bindE (text_choice (Option.bind patch rp_title) (jget (pr_payload p) ''suggested_title'') (Some ''Promoted observation'')) (\<lambda>title.
     bindE (text_choice (Option.bind patch rp_body) (jget (pr_payload p) ''suggested_body'') (Some [])) (\<lambda>body.
     bindE (some_or (IntegrityError ''memories_kind_check'') (target_kind (pr_payload p))) (\<lambda>kind.
     let m = promoted_memory (next_uuid d) env kind title (case body of None \<Rightarrow> [] | Some b \<Rightarrow> b) confidence now in
     bindE (insert_memory m (draw_uuid d)) (\<lambda>d1.
     bindE (insert_memory_source (dream_source uuid_text now ctx p (m_id m)) d1) (\<lambda>d2.
     bindE (derive_from now (m_id m) rows d2) (\<lambda>d3.
     let d4 = record_audit ''create'' m (ctx_agent_id ctx) None (Some (audit_snapshot sha m (Some [])))
                (Some [(''promoted_from'', JList (map (\<lambda>r. JUuid (m_id r)) rows))]) d3 in
     bindE (enqueue_memory st now m (m_version m) (outbox_op_for MS_active True) [] model d4) (\<lambda>d5.
       Inr (d5, m, []))))))))))))))"

subsection \<open>The review\<close>

definition lock_proposal :: "uuid \<Rightarrow> dream_db \<Rightarrow> dream_proposal res" where
  "lock_proposal i s = some_or (NotFoundError ''dream_proposal'' i) (lookup pr_id i (dream_proposals s))"

text \<open>
  Writing the outcome. The dictionary of new statuses has no entry for \<open>amend\<close>; the trigger
  \<open>dream_proposals_updated_at_trg\<close> sets \<open>updated_at\<close>.
\<close>

fun reviewed_status :: "review_action \<Rightarrow> proposal_status res" where
  "reviewed_status RA_accept = Inr DP_accepted"
| "reviewed_status RA_reject = Inr DP_rejected"
| "reviewed_status RA_defer = Inr DP_deferred"
| "reviewed_status RA_amend = Inl (KeyError ''amend'')"

definition reviewed_payload :: "payload \<Rightarrow> uuid option \<Rightarrow> uuid list \<Rightarrow> payload" where
  "reviewed_payload pl accepted superseded =
     dict_union pl
       ((case accepted of None \<Rightarrow> [] | Some i \<Rightarrow> [(''accepted_memory_id'', JUuid i)]) @
        (if superseded = [] then [] else [(''superseded_memory_ids'', JList (map JUuid superseded))]))"

definition close_proposal ::
  "time \<Rightarrow> review_action \<Rightarrow> proposal_status \<Rightarrow> string option \<Rightarrow> uuid \<Rightarrow> payload \<Rightarrow> dream_proposal \<Rightarrow> dream_proposal" where
  "close_proposal now act status notes agent pl p =
     p\<lparr>pr_status := status, pr_review_action := Some act, pr_review_notes := notes, pr_reviewed_at := Some now,
       pr_reviewed_by_agent_id := Some agent, pr_payload := pl, pr_updated_at := now\<rparr>"

definition finalize_proposal_status ::
  "time \<Rightarrow> dream_proposal \<Rightarrow> review_action \<Rightarrow> string option \<Rightarrow> uuid \<Rightarrow> uuid option \<Rightarrow> uuid list \<Rightarrow> dream_db \<Rightarrow> dream_db res" where
  "finalize_proposal_status now p act notes agent accepted superseded s =
     bindE (reviewed_status act) (\<lambda>status.
       Inr (s\<lparr>dream_proposals := update_where (\<lambda>q. pr_id q = pr_id p)
         (close_proposal now act status notes agent (reviewed_payload (pr_payload p) accepted superseded)) (dream_proposals s)\<rparr>))"

definition accept_proposal ::
  "(string \<Rightarrow> string) \<Rightarrow> (uuid \<Rightarrow> string) \<Rightarrow> (string \<Rightarrow> real option) \<Rightarrow> settings \<Rightarrow> time \<Rightarrow> agent_context \<Rightarrow> review_request
   \<Rightarrow> dream_proposal \<Rightarrow> db \<Rightarrow> (db \<times> (memory \<times> string list) option \<times> uuid list) res" where
  "accept_proposal sha uuid_text float_of st now ctx req p d =
     (case pr_kind p of
        PK_merge_candidate \<Rightarrow>
          bindE (accept_merge sha uuid_text st now ctx p (rq_patch req) (rq_expected_versions req) d) (\<lambda>(d', m, names, ids).
            Inr (d', Some (m, names), ids))
      | PK_promotion_candidate \<Rightarrow>
          bindE (accept_promotion sha uuid_text float_of st now ctx p (rq_patch req) (rq_expected_versions req) d) (\<lambda>(d', m, names).
            Inr (d', Some (m, names), []))
      | PK_decay_candidate \<Rightarrow> Inr (d, None, [])
      | PK_decision_conflict_candidate \<Rightarrow> Inr (d, None, []))"

definition review_effect ::
  "(string \<Rightarrow> string) \<Rightarrow> (uuid \<Rightarrow> string) \<Rightarrow> (string \<Rightarrow> real option) \<Rightarrow> settings \<Rightarrow> time \<Rightarrow> agent_context \<Rightarrow> review_request
   \<Rightarrow> dream_proposal \<Rightarrow> db \<Rightarrow> (db \<times> (memory \<times> string list) option \<times> uuid list) res" where
  "review_effect sha uuid_text float_of st now ctx req p d =
     (if rq_action req = RA_accept then accept_proposal sha uuid_text float_of st now ctx req p d else Inr (d, None, []))"

text \<open>The entry of the response is the proposal's row without its \<open>dedupe_key\<close>.\<close>

record review_response =
  rv_proposal :: dream_proposal
  rv_accepted_memory :: "memory_response option"
  rv_superseded_memory_ids :: "uuid list"

definition proposal_to_entry :: "dream_proposal \<Rightarrow> dream_proposal" where
  "proposal_to_entry p = p\<lparr>pr_dedupe_key := None\<rparr>"

definition dream_review ::
  "(string \<Rightarrow> string) \<Rightarrow> (uuid \<Rightarrow> string) \<Rightarrow> (string \<Rightarrow> real option) \<Rightarrow> (uuid \<Rightarrow> reference_columns) \<Rightarrow> settings \<Rightarrow> time
   \<Rightarrow> agent_context \<Rightarrow> review_request \<Rightarrow> dream_db \<Rightarrow> (dream_db \<times> review_response) res" where
  "dream_review sha uuid_text float_of refs st now ctx req s =
     bindE (raise_if (rq_action req = RA_amend) (InvalidInputError ''dream_review action=amend'')) (\<lambda>_.
     bindE (lock_proposal (rq_proposal_id req) s) (\<lambda>p.
     bindE (rbac_require ''write'' (Some (pr_env_id p)) ctx) (\<lambda>_.
     bindE (raise_if (pr_status p \<noteq> DP_open)
              (InvalidTransitionError (proposal_status_value (pr_status p)) (review_action_value (rq_action req)))) (\<lambda>_.
     bindE (review_effect sha uuid_text float_of st now ctx req p (canon s)) (\<lambda>(d', accepted, superseded).
     bindE (finalize_proposal_status now p (rq_action req) (rq_notes req) (ctx_agent_id ctx)
              (map_option (\<lambda>(m, names). m_id m) accepted) superseded (s\<lparr>canon := d'\<rparr>)) (\<lambda>s'.
     bindE (lock_proposal (rq_proposal_id req) s') (\<lambda>p'.
       Inr (s', \<lparr>rv_proposal = proposal_to_entry p',
                 rv_accepted_memory = map_option (\<lambda>(m, names). memory_to_response refs m names) accepted,
                 rv_superseded_memory_ids = superseded\<rparr>))))))))"

subsection \<open>Browsing\<close>

record proposals_list_request =
  pl_env_id :: "uuid option"
  pl_status :: "proposal_status option"
  pl_kind :: "proposal_kind option"
  pl_summarizer_kind :: "summarizer_kind option"
  pl_limit :: nat
  pl_cursor :: "json option option"

record proposals_page =
  pp_items :: "dream_proposal list"
  pp_next_cursor :: "json option option"

text \<open>
  The fingerprint joins the texts of the four filters with bars, which none of these texts
  contains. A cursor is the JSON document its text spells.
\<close>

definition filters_hash :: "(uuid \<Rightarrow> string) \<Rightarrow> proposals_list_request \<Rightarrow> string" where
  "filters_hash uuid_text req =
     (case pl_env_id req of None \<Rightarrow> [] | Some e \<Rightarrow> uuid_text e) @ ''|'' @
     (case pl_status req of None \<Rightarrow> [] | Some x \<Rightarrow> proposal_status_value x) @ ''|'' @
     (case pl_kind req of None \<Rightarrow> [] | Some PK_merge_candidate \<Rightarrow> ''merge_candidate''
        | Some PK_promotion_candidate \<Rightarrow> ''promotion_candidate'' | Some PK_decay_candidate \<Rightarrow> ''decay_candidate''
        | Some PK_decision_conflict_candidate \<Rightarrow> ''decision_conflict_candidate'') @ ''|'' @
     (case pl_summarizer_kind req of None \<Rightarrow> [] | Some x \<Rightarrow> summarizer_kind_value x)"

text \<open>\<open>(created_at, id) DESC\<close>: the later proposal first.\<close>

definition proposal_order :: "dream_proposal \<Rightarrow> int \<times> int" where
  "proposal_order p = (- pr_created_at p, - int (pr_id p))"

definition encode_proposal_cursor :: "string \<Rightarrow> dream_proposal \<Rightarrow> json option" where
  "encode_proposal_cursor hash p = Some (JObj [(''created_at'', JTime (pr_created_at p)), (''id'', JUuid (pr_id p)),
     (''filters_hash'', JStr hash)])"

text \<open>
  \<open>_decode_cursor\<close>, then the two conversions: a text that is no timestamp or no uuid is a
  \<open>ValueError\<close>, another value a \<open>TypeError\<close> (\<open>fromisoformat\<close>) or an \<open>AttributeError\<close> (\<open>UUID\<close>).
\<close>

definition decode_proposal_cursor :: "string \<Rightarrow> json option \<Rightarrow> (time \<times> uuid) res" where
  "decode_proposal_cursor hash c =
     (case c of
        Some (JObj kvs) \<Rightarrow>
          bindE (raise_if (list_ex (\<lambda>k. map_of kvs k = None) [''created_at'', ''id'', ''filters_hash''])
                   (InvalidInputError ''cursor missing required fields'')) (\<lambda>_.
          bindE (raise_if (jget kvs ''filters_hash'' \<noteq> JStr hash)
                   (InvalidInputError ''cursor was issued for a different filter set'')) (\<lambda>_.
          bindE (case jget kvs ''created_at'' of JTime t \<Rightarrow> Inr t
                 | JStr _ \<Rightarrow> Inl (ValueError ''fromisoformat'') | JUuid _ \<Rightarrow> Inl (ValueError ''fromisoformat'')
                 | _ \<Rightarrow> Inl (TypeError ''fromisoformat'')) (\<lambda>t.
          bindE (case jget kvs ''id'' of JUuid u \<Rightarrow> Inr u
                 | JStr _ \<Rightarrow> Inl (ValueError ''UUID'') | JTime _ \<Rightarrow> Inl (ValueError ''UUID'')
                 | JNull \<Rightarrow> Inl (TypeError ''UUID'') | _ \<Rightarrow> Inl (AttributeError ''replace'')) (\<lambda>u.
            Inr (t, u)))))
      | Some _ \<Rightarrow> Inl (InvalidInputError ''cursor missing required fields'')
      | None \<Rightarrow> Inl (InvalidInputError ''malformed cursor''))"

definition keyset_lt :: "time \<times> uuid \<Rightarrow> dream_proposal \<Rightarrow> bool" where
  "keyset_lt k p \<longleftrightarrow> pr_created_at p < fst k \<or> (pr_created_at p = fst k \<and> pr_id p < snd k)"

definition proposal_filter :: "proposals_list_request \<Rightarrow> dream_proposal \<Rightarrow> bool" where
  "proposal_filter req p \<longleftrightarrow>
     (case pl_env_id req of None \<Rightarrow> True | Some e \<Rightarrow> pr_env_id p = e) \<and>
     (case pl_status req of None \<Rightarrow> True | Some x \<Rightarrow> pr_status p = x) \<and>
     (case pl_kind req of None \<Rightarrow> True | Some k \<Rightarrow> pr_kind p = k) \<and>
     (case pl_summarizer_kind req of None \<Rightarrow> True | Some k \<Rightarrow> pr_summarizer_kind p = Some k)"

definition dream_proposals_list ::
  "(uuid \<Rightarrow> string) \<Rightarrow> agent_context \<Rightarrow> proposals_list_request \<Rightarrow> dream_db \<Rightarrow> proposals_page res" where
  "dream_proposals_list uuid_text ctx req s =
     bindE (case pl_env_id req of None \<Rightarrow> Inr () | Some e \<Rightarrow> rbac_require ''read'' (Some e) ctx) (\<lambda>_.
     bindE (case pl_cursor req of
              None \<Rightarrow> Inr (\<lambda>p. True)
            | Some c \<Rightarrow> bindE (decode_proposal_cursor (filters_hash uuid_text req) c) (\<lambda>k. Inr (keyset_lt k))) (\<lambda>after.
     let rows = take (Suc (pl_limit req)) (sort_key proposal_order
                  (filter (\<lambda>p. proposal_filter req p \<and> after p) (dream_proposals s)));
         page = take (pl_limit req) rows in
       Inr \<lparr>pp_items = map proposal_to_entry page,
            pp_next_cursor = (if pl_limit req < length rows \<and> page \<noteq> []
              then Some (encode_proposal_cursor (filters_hash uuid_text req) (last page)) else None)\<rparr>))"

end
