(* ===== verification/DreamRefine.thy ===== *)
theory DreamRefine
  imports MemoryRefine DreamReview
begin

text \<open>
  Accepting a proposal refines the ledger like the other writes on memories: the accepted
  memory is created, then each source of a merge is revised.
\<close>

subsection \<open>Superseding one source\<close>

lemma supersede_into_spec:
  assumes "supersede_into sha st now ctx merged model tags_of i d = Inr d'"
  obtains src d2 x y where "lookup m_id i (memories d) = Some src"
    "memory_violation d (mark_superseded (m_id merged) (m_version src + 1) now src) = None"
    "insert_lineage \<lparr>ln_parent = i, ln_child = m_id merged, ln_relation = LR_supersedes, ln_created_at = now\<rparr>
       (d\<lparr>memories := update_where (\<lambda>x. m_id x = i) (mark_superseded (m_id merged) (m_version src + 1) now) (memories d)\<rparr>) = Inr d2"
    "enqueue_memory st now (mark_superseded (m_id merged) (m_version src + 1) now src) (m_version src + 1)
       (outbox_op_for MS_superseded False) (tags_of i) model
       (record_audit ''supersede'' (mark_superseded (m_id merged) (m_version src + 1) now src) (ctx_agent_id ctx) (Some x) (Some y)
          (Some [(''superseded_by'', JUuid (m_id merged))]) d2) = Inr d'"
proof -
  obtain src d1 n src' d2 where s: "load_memory i d = Inr src"
      "update_memory_row i (m_version src) (mark_superseded (m_id merged) (m_version src + 1) now) d = Inr (d1, n)" "n \<noteq> 0"
      "load_memory i d1 = Inr src'"
      "insert_lineage \<lparr>ln_parent = i, ln_child = m_id merged, ln_relation = LR_supersedes, ln_created_at = now\<rparr> d1 = Inr d2"
      "enqueue_memory st now src' (m_version src') (outbox_op_for MS_superseded False) (tags_of i) model
        (record_audit ''supersede'' src' (ctx_agent_id ctx) (Some (audit_snapshot sha src (Some (tags_of i))))
           (Some (audit_snapshot sha src' (Some (tags_of i)))) (Some [(''superseded_by'', JUuid (m_id merged))]) d2) = Inr d'"
    using assms unfolding supersede_into_def Let_def by (auto elim!: bindE_elims simp: raise_if_eq_Inr)
  let ?f = "mark_superseded (m_id merged) (m_version src + 1) now"
  obtain r where r: "lookup m_id i (memories d) = Some r" "memory_violation d (?f r) = None"
      "d1 = d\<lparr>memories := update_where (\<lambda>x. m_id x = i) ?f (memories d)\<rparr>"
    by (rule update_memory_row_spec [OF s(2,3)])
  have "r = src" using s(1) r(1) by (simp add: load_memory_def)
  moreover have "src' = ?f r"
    using s(4) lookup_updated [OF r(1), of ?f] unfolding r(3) load_memory_def by simp
  ultimately show ?thesis
    using r s(5) s(6) by (intro that [of src d2]) simp_all
qed

lemma supersede_into_refines:
  assumes inv: "rows_ok (ledger_of d)" "tags_ok d" and run: "supersede_into sha st now ctx merged model tags_of i d = Inr d'"
    and tags: "set (tags_of i) = tag_set d i" and sinks: "resolve_sinks_for AT_memory st \<noteq> []"
  shows "tags_ok d' \<and> ledger_step (ledger_of d) (ledger_of d')" and "tag_set d' = tag_set d"
proof -
  obtain src d2 x y where s: "lookup m_id i (memories d) = Some src"
    "memory_violation d (mark_superseded (m_id merged) (m_version src + 1) now src) = None"
    "insert_lineage \<lparr>ln_parent = i, ln_child = m_id merged, ln_relation = LR_supersedes, ln_created_at = now\<rparr>
       (d\<lparr>memories := update_where (\<lambda>x. m_id x = i) (mark_superseded (m_id merged) (m_version src + 1) now) (memories d)\<rparr>) = Inr d2"
    "enqueue_memory st now (mark_superseded (m_id merged) (m_version src + 1) now src) (m_version src + 1)
       (outbox_op_for MS_superseded False) (tags_of i) model
       (record_audit ''supersede'' (mark_superseded (m_id merged) (m_version src + 1) now src) (ctx_agent_id ctx) (Some x) (Some y)
          (Some [(''superseded_by'', JUuid (m_id merged))]) d2) = Inr d'"
    by (rule supersede_into_spec [OF run])
  let ?f = "mark_superseded (m_id merged) (m_version src + 1) now"
  let ?d1 = "d\<lparr>memories := update_where (\<lambda>x. m_id x = i) ?f (memories d)\<rparr>"
  have ok1: "tags_ok ?d1" by (rule tags_ok_ids [OF inv(2)]) simp
  have ret: "retagged ?d1 i (set (tags_of i)) ?d1" by (rule retagged_same [OF ok1]) (simp add: tags)
  let ?d3 = "record_audit ''supersede'' (?f src) (ctx_agent_id ctx) (Some x) (Some y) (Some [(''superseded_by'', JUuid (m_id merged))]) d2"
  have t3: "mem_tables ?d3 = mem_tables ?d1" using insert_lineage_tables [OF s(3)] by simp
  have enq: "enqueue_memory st now (?f src) (m_version (?f src)) (outbox_op_for (m_status (?f src)) False) (tags_of i) model ?d3 = Inr d'"
    using s(4) by simp
  show "tags_ok d' \<and> ledger_step (ledger_of d) (ledger_of d')"
    by (rule revise_refines [OF inv(1) s(1) _ s(2) _ _ _ ret t3 enq sinks]) (simp_all add: life_ok_def)
  obtain row where "tag_set d' = tag_set ?d3" by (rule enqueue_memory_spec [OF enq sinks])
  also have "\<dots> = tag_set ?d1" using mem_tables_ledger(3) [OF t3] .
  finally show "tag_set d' = tag_set d" by simp
qed

lemma supersede_all_refines:
  assumes "rows_ok (ledger_of d)" "tags_ok d" "supersede_all sha st now ctx merged model tags_of is d = Inr d'"
    "\<forall>i \<in> set is. set (tags_of i) = tag_set d i" and sinks: "resolve_sinks_for AT_memory st \<noteq> []"
  shows "tags_ok d' \<and> ledger_step\<^sup>*\<^sup>* (ledger_of d) (ledger_of d')"
  using assms(1-4)
proof (induction "is" arbitrary: d)
  case Nil
  then show ?case by simp
next
  case (Cons i js)
  obtain d1 where s: "supersede_into sha st now ctx merged model tags_of i d = Inr d1"
      "supersede_all sha st now ctx merged model tags_of js d1 = Inr d'"
    using Cons.prems(3) by (auto elim!: bindE_elims)
  have step: "tags_ok d1 \<and> ledger_step (ledger_of d) (ledger_of d1)" and same: "tag_set d1 = tag_set d"
    using supersede_into_refines [OF Cons.prems(1,2) s(1) _ sinks] Cons.prems(4) by simp_all
  then have "tags_ok d' \<and> ledger_step\<^sup>*\<^sup>* (ledger_of d1) (ledger_of d')"
    using Cons.IH [OF step_rows [OF _ Cons.prems(1)] _ s(2)] Cons.prems(4) by simp
  with step show ?case by (meson converse_rtranclp_into_rtranclp)
qed

subsection \<open>Accepting\<close>

lemma locked_rows_spec:
  assumes "locked_rows ids d = Inr rows"
  shows "rows = lock_memories ids d" "\<forall>i \<in> set ids. lookup m_id i (memories d) \<noteq> None"
  using assms by (auto simp: locked_rows_def find_None_iff split: option.splits)

lemma lookup_locked:
  assumes "i \<in> set ids" and "distinct (map m_id (memories d))"
  shows "lookup m_id i (lock_memories ids d) = lookup m_id i (memories d)"
proof (cases "lookup m_id i (memories d)")
  case None
  moreover from this have "lookup m_id i (lock_memories ids d) = None" by (simp add: lookup_None_iff lock_memories_def)
  ultimately show ?thesis by simp
next
  case (Some r)
  let ?rs = "lock_memories ids d"
  have "distinct (map m_id ?rs)"
    using assms(2) by (auto simp: lock_memories_def distinct_map intro: inj_on_subset)
  moreover have "r \<in> set ?rs" "m_id r = i" using lookup_SomeD [OF Some] assms(1) by (simp_all add: lock_memories_def)
  ultimately show ?thesis using distinct_lookup [of m_id ?rs r] Some by simp
qed

lemma accept_merge_spec:
  assumes run: "accept_merge sha uuid_text st now ctx p patch expected d = Inr (d', merged, names, ids)"
    and dist: "distinct (map m_id (memories d))"
  obtains primary_id candidates primary sources model title body d1 d2 d3 d5 where
    "merge_members (pr_payload p) = Inr (primary_id, candidates)"
    "map m_id sources = primary_id # candidates" "ids = primary_id # candidates"
    "\<forall>r \<in> set sources. lookup m_id (m_id r) (memories d) = Some r" "hd sources = primary" "sources \<noteq> []"
    "check_sources (m_env_id primary) (m_kind primary) sources = Inr ()" "check_expected expected sources = Inr ()"
    "names = union_tags (load_tag_names d) sources"
    "text_choice (Option.bind patch rp_title) (jget (pr_payload p) ''suggested_merged_title'') (m_title primary) = Inr title"
    "merged = merged_memory (next_uuid d) primary title body now"
    "insert_memory merged (draw_uuid d) = Inr d1" "set_new_tags (m_id merged) (m_env_id primary) names d1 = Inr d2"
    "insert_memory_source (dream_source uuid_text now ctx p (m_id merged)) d2 = Inr d3"
    "enqueue_memory st now merged (m_version merged) (outbox_op_for MS_active True) names model
       (record_audit ''create'' merged (ctx_agent_id ctx) None (Some (audit_snapshot sha merged (Some names)))
                (Some [(''merged_from'', JList (map (\<lambda>r. JUuid (m_id r)) sources))]) d3) = Inr d5"
    "supersede_all sha st now ctx merged model (load_tag_names d) ids d5 = Inr d'"
proof -
  obtain pid cs rows primary model title body d1 d2 d3 d5 where s: "merge_members (pr_payload p) = Inr (pid, cs)"
      "locked_rows (pid # cs) d = Inr rows" "lookup m_id pid rows = Some primary"
      "check_sources (m_env_id primary) (m_kind primary) (source_rows (pid # cs) rows) = Inr ()"
      "check_expected expected (source_rows (pid # cs) rows) = Inr ()"
      "names = union_tags (load_tag_names d) (source_rows (pid # cs) rows)"
      "text_choice (Option.bind patch rp_title) (jget (pr_payload p) ''suggested_merged_title'') (m_title primary) = Inr title"
      "merged = merged_memory (next_uuid d) primary title (case body of None \<Rightarrow> [] | Some b \<Rightarrow> b) now"
      "insert_memory merged (draw_uuid d) = Inr d1" "set_new_tags (m_id merged) (m_env_id primary) names d1 = Inr d2"
      "insert_memory_source (dream_source uuid_text now ctx p (m_id merged)) d2 = Inr d3"
      "enqueue_memory st now merged (m_version merged) (outbox_op_for MS_active True) names model
         (record_audit ''create'' merged (ctx_agent_id ctx) None (Some (audit_snapshot sha merged (Some names)))
                (Some [(''merged_from'', JList (map (\<lambda>r. JUuid (m_id r)) (source_rows (pid # cs) rows)))]) d3) = Inr d5"
      "supersede_all sha st now ctx merged model (load_tag_names d) (map m_id (source_rows (pid # cs) rows)) d5 = Inr d'"
      "ids = map m_id (source_rows (pid # cs) rows)"
    using run unfolding accept_merge_def Let_def by (auto elim!: bindE_elims simp: some_or_eq_Inr)
  note l = locked_rows_spec [OF s(2)]
  have look: "lookup m_id i rows = lookup m_id i (memories d)" "lookup m_id i rows \<noteq> None" if "i \<in> set (pid # cs)" for i
    using lookup_locked [OF that dist] l that by (simp, metis)
  have all: "map m_id (source_rows js rows) = js \<and> (\<forall>r \<in> set (source_rows js rows). lookup m_id (m_id r) (memories d) = Some r)"
    if "set js \<subseteq> set (pid # cs)" for js
    using that
  proof (induction js)
    case Nil
    then show ?case by (simp add: source_rows_def List.map_filter_simps)
  next
    case (Cons j js)
    then obtain r where r: "lookup m_id j rows = Some r" using look(2) [of j] by auto
    have "source_rows (j # js) rows = r # source_rows js rows" using r by (simp add: source_rows_def List.map_filter_simps)
    then show ?case using Cons lookup_SomeD [OF r] r look(1) [of j] by auto
  qed
  define sources where "sources = source_rows (pid # cs) rows"
  have hd: "hd sources = primary" "sources \<noteq> []"
    using s(3) by (simp_all add: sources_def source_rows_def List.map_filter_simps)
  have ids: "map m_id sources = pid # cs" "\<forall>r \<in> set sources. lookup m_id (m_id r) (memories d) = Some r"
    using all [OF subset_refl] unfolding sources_def by blast+
  note s = s [folded sources_def]
  show ?thesis
    by (rule that [OF s(1) ids(1) _ ids(2) hd s(4-12) _ ]) (simp_all only: s(13,14) ids(1) s(13) [unfolded ids(1)])
qed

lemma accept_merge_refines:
  assumes run: "accept_merge sha uuid_text st now ctx p patch expected d = Inr (d', merged, names, ids)"
    and inv: "rows_ok (ledger_of d)" "tags_ok d" and sinks: "resolve_sinks_for AT_memory st \<noteq> []"
  shows "tags_ok d' \<and> ledger_step\<^sup>*\<^sup>* (ledger_of d) (ledger_of d')"
proof -
  have dist: "distinct (map m_id (memories d))" using inv(1) by (simp add: rows_ok_def)
  from run dist show ?thesis
  proof (rule accept_merge_spec, goal_cases)
    case (1 primary_id candidates primary sources model title body d1 d2 d3 d5)
    note s = this
    have status: "m_status merged = MS_active" "m_version merged = 1" unfolding s(11) by (simp_all add: merged_memory_def)
    note new = insert_with_tags [OF inv(2) s(12,13)]
    note t3 = mem_tables_ledger [OF insert_memory_source_tables [OF s(14)]]
    let ?d4 = "record_audit ''create'' merged (ctx_agent_id ctx) None (Some (audit_snapshot sha merged (Some names)))
                (Some [(''merged_from'', JList (map (\<lambda>r. JUuid (m_id r)) sources))]) d3"
    have t4: "mem_tables ?d4 = mem_tables d2" using insert_memory_source_tables [OF s(14)] by simp
    have enq: "enqueue_memory st now merged (m_version merged) (outbox_op_for (m_status merged) True) names model ?d4 = Inr d5"
      using s(15) status by simp
    have step: "tags_ok d5 \<and> ledger_step (ledger_of d) (ledger_of d5)"
      by (rule create_refines [OF inv(2) s(12,13) t4 enq sinks status(2)])
    obtain row where "tag_set d5 = tag_set ?d4" by (rule enqueue_memory_spec [OF enq sinks])
    then have ts: "tag_set d5 = (tag_set d)(m_id merged := set names)" using mem_tables_ledger(3) [OF t4] new(4) by simp
    have "set (load_tag_names d i) = tag_set d5 i" if "i \<in> set ids" for i
    proof -
      have "i \<in> m_id ` set sources" using that s(2,3) by (metis list.set_map)
      then have "i \<in> m_id ` set (memories d)" using s(4) by (auto dest: lookup_SomeD)
      then have "i \<noteq> m_id merged" using new(6) by metis
      then show ?thesis using ts by (simp add: load_tag_names_set)
    qed
    then have "tags_ok d' \<and> ledger_step\<^sup>*\<^sup>* (ledger_of d5) (ledger_of d')"
      using supersede_all_refines [OF step_rows [OF _ inv(1)] _ s(16) _ sinks] step by blast
    with step show ?case by (meson converse_rtranclp_into_rtranclp)
  qed
qed

lemma derive_from_tables: "derive_from now child rs d = Inr d' \<Longrightarrow> mem_tables d' = mem_tables d"
  by (induction rs arbitrary: d) (auto elim!: bindE_elims dest!: insert_lineage_tables)

lemma accept_promotion_spec:
  assumes "accept_promotion sha uuid_text float_of st now ctx p patch expected d = Inr (d', m, names)"
  obtains ids rows env kind title body confidence model d1 d2 d3 where
    "promoted_observations (pr_payload p) = Inr ids" "locked_rows ids d = Inr rows"
    "observations_env (pr_env_id p) rows = Inr env" "check_observations expected rows = Inr ()"
    "m = promoted_memory (next_uuid d) env kind title body confidence now" "names = []"
    "insert_memory m (draw_uuid d) = Inr d1" "insert_memory_source (dream_source uuid_text now ctx p (m_id m)) d1 = Inr d2"
    "derive_from now (m_id m) rows d2 = Inr d3"
    "enqueue_memory st now m (m_version m) (outbox_op_for MS_active True) [] model
       (record_audit ''create'' m (ctx_agent_id ctx) None (Some (audit_snapshot sha m (Some [])))
          (Some [(''promoted_from'', JList (map (\<lambda>r. JUuid (m_id r)) rows))]) d3) = Inr d'"
  using assms unfolding accept_promotion_def Let_def by (auto elim!: bindE_elims simp: some_or_eq_Inr)

lemma accept_promotion_refines:
  assumes run: "accept_promotion sha uuid_text float_of st now ctx p patch expected d = Inr (d', m, names)"
    and ok: "tags_ok d" and sinks: "resolve_sinks_for AT_memory st \<noteq> []"
  shows "tags_ok d' \<and> ledger_step (ledger_of d) (ledger_of d')"
  using run
proof (rule accept_promotion_spec, goal_cases)
  case (1 ids rows env kind title body confidence model d1 d2 d3)
  note s = this
  have status: "m_status m = MS_active" "m_version m = 1" unfolding s(5) by (simp_all add: promoted_memory_def)
  show ?case
    by (rule create_refines [where names = "[]" and env = env, OF ok s(7) _ _ s(10) [folded status(1)] sinks status(2)])
       (simp_all add: set_new_tags_def derive_from_tables [OF s(9)] insert_memory_source_tables [OF s(8)])
qed

lemma dream_review_spec:
  assumes "dream_review sha uuid_text float_of refs st now ctx req s = Inr (s', resp)"
  obtains p d' accepted superseded status where
    "lookup pr_id (rq_proposal_id req) (dream_proposals s) = Some p" "pr_status p = DP_open"
    "review_effect sha uuid_text float_of st now ctx req p (canon s) = Inr (d', accepted, superseded)"
    "reviewed_status (rq_action req) = Inr status"
    "s' = s\<lparr>canon := d', dream_proposals := update_where (\<lambda>q. pr_id q = pr_id p)
         (close_proposal now (rq_action req) status (rq_notes req) (ctx_agent_id ctx)
           (reviewed_payload (pr_payload p) (map_option (\<lambda>(m, names). m_id m) accepted) superseded)) (dream_proposals s)\<rparr>"
    "rv_accepted_memory resp = map_option (\<lambda>(m, names). memory_to_response refs m names) accepted"
    "rv_superseded_memory_ids resp = superseded"
proof -
  obtain p d' accepted superseded s1 p' where s: "lock_proposal (rq_proposal_id req) s = Inr p" "pr_status p = DP_open"
    "review_effect sha uuid_text float_of st now ctx req p (canon s) = Inr (d', accepted, superseded)"
    "finalize_proposal_status now p (rq_action req) (rq_notes req) (ctx_agent_id ctx)
              (map_option (\<lambda>(m, names). m_id m) accepted) superseded (s\<lparr>canon := d'\<rparr>) = Inr s1"
    "s' = s1" "resp = \<lparr>rv_proposal = proposal_to_entry p',
                 rv_accepted_memory = map_option (\<lambda>(m, names). memory_to_response refs m names) accepted,
                 rv_superseded_memory_ids = superseded\<rparr>"
    using assms unfolding dream_review_def
    by (auto elim!: bindE_elims simp: raise_if_eq_Inr simp del: rbac_require_simp bindE_simps)
  obtain status where st: "reviewed_status (rq_action req) = Inr status"
      "s1 = s\<lparr>canon := d', dream_proposals := update_where (\<lambda>q. pr_id q = pr_id p)
         (close_proposal now (rq_action req) status (rq_notes req) (ctx_agent_id ctx)
           (reviewed_payload (pr_payload p) (map_option (\<lambda>(m, names). m_id m) accepted) superseded)) (dream_proposals s)\<rparr>"
    using s(4) unfolding finalize_proposal_status_def by (elim bindE_elims) simp
  show ?thesis
    by (rule that [of p d' accepted superseded status])
       (use s st in \<open>simp_all add: lock_proposal_def some_or_eq_Inr\<close>)
qed

lemma dream_review_refines:
  assumes run: "dream_review sha uuid_text float_of refs st now ctx req s = Inr (s', resp)"
    and inv: "rows_ok (ledger_of (canon s))" "tags_ok (canon s)" and sinks: "resolve_sinks_for AT_memory st \<noteq> []"
  shows "tags_ok (canon s') \<and> ledger_step\<^sup>*\<^sup>* (ledger_of (canon s)) (ledger_of (canon s'))"
  using run
proof (rule dream_review_spec, goal_cases)
  case (1 p d' accepted superseded status)
  note s = this
  have c: "canon s' = d'" unfolding s(5) by simp
  show ?case
  proof (cases "rq_action req = RA_accept")
    case False
    then show ?thesis using s(3) inv(2) c by (simp add: review_effect_def)
  next
    case True
    then have a: "accept_proposal sha uuid_text float_of st now ctx req p (canon s) = Inr (d', accepted, superseded)"
      using s(3) by (simp add: review_effect_def)
    show ?thesis
    proof (cases "pr_kind p")
      case PK_merge_candidate
      then show ?thesis using a accept_merge_refines [OF _ inv sinks] unfolding c accept_proposal_def
        by (auto elim!: bindE_InrE)
    next
      case PK_promotion_candidate
      then show ?thesis using a accept_promotion_refines [OF _ inv(2) sinks] unfolding c accept_proposal_def
        by (auto elim!: bindE_InrE)
    qed (use a inv(2) c in \<open>simp_all add: accept_proposal_def\<close>)
  qed
qed

end
