(* ===== verification/MemoryHistory.thy ===== *)
theory MemoryHistory
  imports DreamRefine Locking
begin

text \<open>
  All the tool calls on memories together, the reviews of dream proposals included: \<open>memory_history\<close> is a sequence of committed database
  states in which every state comes from the one before it by a tool call, the reading half of
  which may have seen any earlier state, or by work elsewhere in the program. Every state of such
  a history satisfies the ledger invariant, so its outbox describes its memories. The versioned
  update is an interpretation of the locking contract (\<open>memory_lock\<close>).
\<close>

text \<open>Transactions of the rest of the program: they write neither memories nor their tags and events.\<close>

definition elsewhere :: "db \<Rightarrow> db \<Rightarrow> bool" where
  "elsewhere d d' \<longleftrightarrow> memories d' = memories d \<and> tag_rows d' = tag_rows d \<and> memory_tags d' = memory_tags d \<and>
     memory_events d' = memory_events d \<and> env_id ` set (environments d) \<subseteq> env_id ` set (environments d')"

text \<open>\<open>memory_call st d0 d d'\<close>: a call that checked \<open>d0\<close> takes \<open>d\<close> to \<open>d'\<close>.\<close>

inductive memory_call :: "settings \<Rightarrow> db \<Rightarrow> db \<Rightarrow> db \<Rightarrow> bool" for st where
  create: "memory_write sha uuid_text refs st now ctx req d = Inr (d', resp) \<Longrightarrow> memory_call st d0 d d'"
| get: "memory_get refs w now ctx i bump d = Inr (d', resp) \<Longrightarrow> memory_call st d0 d d'"
| get_many: "memory_get_many refs w now ctx ids bump d = Inr (d', resps) \<Longrightarrow> memory_call st d0 d d'"
| update: "memory_update sha refs st now ctx i p extra d0 d = Inr (d', resp) \<Longrightarrow> memory_call st d0 d d'"
| supersede: "memory_supersede sha uuid_text refs st now ctx i v req d0 d = Inr (d', both) \<Longrightarrow> memory_call st d0 d d'"
| hard_delete: "memory_hard_delete sha st now ctx i dreq d0 d = Inr (d', dresp) \<Longrightarrow> memory_call st d0 d d'"
| copy: "mem_copy sha uuid_text gv re exec st now ctx creq d (vs :: sink_call list) = Inr (d', vs', cresp) \<Longrightarrow> memory_call st d0 d d'"
| move: "mem_move sha uuid_text gv re exec st now ctx creq redirect d (vs :: sink_call list) = Inr (d', vs', cresp) \<Longrightarrow> memory_call st d0 d d'"
| review: "dream_review sha uuid_text float_of refs st now ctx rreq s = Inr (s', rresp) \<Longrightarrow> d = canon s \<Longrightarrow> d' = canon s'
    \<Longrightarrow> memory_call st d0 d d'"
| other: "elsewhere d d' \<Longrightarrow> memory_call st d0 d d'"

inductive memory_history :: "settings \<Rightarrow> db list \<Rightarrow> bool" for st where
  start: "\<lbrakk> memories d = []; memory_tags d = []; distinct (map tag_id (tag_rows d)); memory_events d = [] \<rbrakk>
    \<Longrightarrow> memory_history st [d]"
| call: "\<lbrakk> memory_history st (d # ds); d0 \<in> set (d # ds); memory_call st d0 d d' \<rbrakk> \<Longrightarrow> memory_history st (d' # d # ds)"

inductive_cases memory_history_ConsE: "memory_history st (d' # d # ds)"

lemma elsewhere_refines: "elsewhere d d' \<Longrightarrow> tags_ok d \<Longrightarrow> tags_ok d' \<and> ledger_step (ledger_of d) (ledger_of d')"
proof -
  assume e: "elsewhere d d'" and ok: "tags_ok d"
  have "ledger_of d' = (ledger_of d)\<lparr>lg_environments := environments d'\<rparr>"
    using e by (simp add: ledger_of_def elsewhere_def tag_set_def fun_eq_iff)
  moreover have "ledger_step (ledger_of d) \<dots>" using e by (intro ledger_step.widen) (simp add: elsewhere_def)
  ultimately show ?thesis using e ok by (simp add: elsewhere_def tags_ok_def)
qed

lemma memory_call_refines:
  assumes "memory_call st d0 d d'" and sinks: "resolve_sinks_for AT_memory st \<noteq> []"
    and inv: "ledger_inv (ledger_of d0)" "ledger_inv (ledger_of d)" "tags_ok d"
    and sub: "set (memory_events d0) \<subseteq> set (memory_events d)"
  shows "tags_ok d' \<and> ledger_step\<^sup>*\<^sup>* (ledger_of d) (ledger_of d')"
  using assms(1)
proof cases
  case (create sha uuid_text refs now ctx req resp)
  from memory_write_refines [OF create inv(3) sinks] show ?thesis by auto
next
  case (get refs w now ctx i bump resp)
  then show ?thesis using memory_get_refines [OF _ _ inv(3)] inv(2) by (simp add: ledger_inv_def)
next
  case (get_many refs w now ctx "ids" bump resps)
  then show ?thesis using memory_get_many_refines [OF _ _ inv(3)] inv(2) by (simp add: ledger_inv_def)
next
  case (update sha refs now ctx i p extra resp)
  from memory_update_refines [OF update inv sub sinks] show ?thesis by auto
next
  case (supersede sha uuid_text refs now ctx i v req both)
  then show ?thesis using memory_supersede_refines [OF _ _ inv(3) sinks] inv(2) by (cases both) (simp add: ledger_inv_def)
next
  case (hard_delete sha now ctx i dreq dresp)
  from memory_hard_delete_refines [OF hard_delete inv(3) sinks] show ?thesis .
next
  case (copy sha uuid_text gv re exec now ctx creq vs vs' cresp)
  from mem_copy_refines [OF copy inv(3) sinks] show ?thesis by auto
next
  case (move sha uuid_text gv re exec now ctx creq redirect vs vs' cresp)
  from mem_move_refines [OF move inv(2,3) sinks] show ?thesis by simp
next
  case (review sha uuid_text float_of refs now ctx rreq s s' rresp)
  have "rows_ok (ledger_of d)" using inv(2) by (simp add: ledger_inv_def)
  with dream_review_refines [OF review(1) _ _ sinks] review(2,3) inv(3) show ?thesis by simp
next
  case other
  from elsewhere_refines [OF other inv(3)] show ?thesis by auto
qed

text \<open>The states of a history, and the runs of the ledger between them.\<close>

definition state_ok :: "db \<Rightarrow> bool" where
  "state_ok d \<longleftrightarrow> ledger_inv (ledger_of d) \<and> tags_ok d"

lemma history_inv:
  assumes "memory_history st ds" and sinks: "resolve_sinks_for AT_memory st \<noteq> []"
  shows "ds \<noteq> [] \<and> (\<forall>d \<in> set ds. state_ok d \<and> ledger_step\<^sup>*\<^sup>* (ledger_of d) (ledger_of (hd ds)))"
  using assms(1)
proof (induction rule: memory_history.induct)
  case (start d)
  then show ?case
    by (simp add: state_ok_def ledger_inv_def rows_ok_def projected_def log_ok_def tags_ok_def)
next
  case (call d ds d0 d')
  have run: "state_ok e" "ledger_step\<^sup>*\<^sup>* (ledger_of e) (ledger_of d)" if "e \<in> set (d # ds)" for e
    using call.IH that by auto
  have d: "state_ok d" "state_ok d0" "ledger_step\<^sup>*\<^sup>* (ledger_of d0) (ledger_of d)"
    using run [of d] run [OF call(2)] by simp_all
  have sub: "set (memory_events d0) \<subseteq> set (memory_events d)" using ledger_steps_events [OF d(3)] by simp
  have new: "tags_ok d'" "ledger_step\<^sup>*\<^sup>* (ledger_of d) (ledger_of d')"
    using memory_call_refines [OF call(3) sinks _ _ _ sub] d by (simp_all add: state_ok_def)
  then have "state_ok d'" using ledger_steps_inv [OF new(2)] d(1) by (simp add: state_ok_def)
  moreover have "ledger_step\<^sup>*\<^sup>* (ledger_of e) (ledger_of d')" if "e \<in> set (d # ds)" for e
    using run(2) [OF that] new(2) by (rule rtranclp_trans)
  ultimately show ?case using run(1) by auto
qed

lemma history_state:
  assumes "memory_history st (d # ds)" and "resolve_sinks_for AT_memory st \<noteq> []" and "e \<in> set (d # ds)"
  shows "ledger_inv (ledger_of e)" "tags_ok e" "ledger_step\<^sup>*\<^sup>* (ledger_of e) (ledger_of d)"
  using history_inv [OF assms(1,2)] assms(3) by (auto simp: state_ok_def)

subsection \<open>The versioned update\<close>

definition memory_version :: "db \<Rightarrow> uuid \<Rightarrow> int option" where
  "memory_version d i = map_option m_version (lookup m_id i (memories d))"

lemma insert_tags_memories: "insert_tags env names d = Inr d' \<Longrightarrow> memories d' = memories d"
  using insert_tags_spec by blast

lemma set_tags_memories: "set_tags i env names d = Inr d' \<Longrightarrow> memories d' = memories d"
  unfolding set_tags_def upsert_tags_def
  by (auto elim!: bindE_elims dest!: insert_tags_memories replace_memory_tags_spec(1))

lemma patch_tags_memories: "patch_tags p m old_tags d = Inr (d', names) \<Longrightarrow> memories d' = memories d"
  by (auto simp: patch_tags_def res_simps dest: set_tags_memories split: option.splits)

lemma enqueue_memory_memories: "enqueue_memory st now m v op tags model d = Inr d' \<Longrightarrow> memories d' = memories d"
  unfolding enqueue_memory_def by (auto elim!: bindE_elims dest: enqueue_frame(2))

lemma memory_update_rows:
  assumes run: "memory_update sha refs st now ctx i p extra d0 d = Inr (d', resp)"
  obtains r steps macro meta where "lookup m_id i (memories d) = Some r" "m_version r = mp_expected_version p"
    "memories d' = update_where (\<lambda>x. m_id x = i) (apply_patch p steps macro meta (mp_expected_version p + 1) now) (memories d)"
    "mp_decision_meta p = None \<longrightarrow> meta = None"
proof -
  obtain old f m tags where chk: "memory_update_check now ctx i p d0 = Inr (old, f)"
      and com: "memory_update_commit sha st now ctx i p extra old (load_tag_names d0 i) f d = Inr (d', m, tags)"
    using run unfolding memory_update_def macro_guard_Inr by (auto elim!: bindE_elims)
  obtain steps macro meta where c: "m_version old = mp_expected_version p"
      "f = apply_patch p steps macro meta (m_version old + 1) now" "mp_decision_meta p = None \<longrightarrow> meta = None"
    by (rule memory_update_check_spec [OF chk])
  obtain d1 n d2 model where s: "update_memory_row i (mp_expected_version p) f d = Inr (d1, n)" "n \<noteq> 0"
      "patch_tags p m (load_tag_names d0 i) d1 = Inr (d2, tags)"
      "enqueue_memory st now m (m_version m) (outbox_op_for (patch_value (mp_status p) (m_status old)) False) tags model
        (record_audit ''update'' m (ctx_agent_id ctx) (Some (audit_snapshot sha old (Some (load_tag_names d0 i))))
          (Some (audit_snapshot sha m (Some tags))) extra d2) = Inr d'"
    using com unfolding memory_update_commit_def Let_def by (auto elim!: bindE_elims simp: raise_if_eq_Inr)
  obtain r where r: "lookup m_id i (memories d) = Some r" "m_version r = mp_expected_version p"
      "d1 = d\<lparr>memories := update_where (\<lambda>x. m_id x = i) f (memories d)\<rparr>"
    by (rule update_memory_row_spec [OF s(1,2)])
  have "memories d' = memories d1"
    using enqueue_memory_memories [OF s(4)] patch_tags_memories [OF s(3)] mem_tables_eq(2) [OF record_audit_tables] by metis
  then show ?thesis using r c by (intro that [of r steps macro meta]) simp_all
qed

lemma memory_update_version:
  assumes "memory_update sha refs st now ctx i p extra d0 d = Inr (d', resp)"
  shows "memory_version d i = Some (mp_expected_version p)"
    and "memory_version d' j = (if j = i then Some (mp_expected_version p + 1) else memory_version d j)"
proof -
  obtain r steps macro meta where r: "lookup m_id i (memories d) = Some r" "m_version r = mp_expected_version p"
    and rows: "memories d' = update_where (\<lambda>x. m_id x = i) (apply_patch p steps macro meta (mp_expected_version p + 1) now) (memories d)"
    by (rule memory_update_rows [OF assms])
  show "memory_version d i = Some (mp_expected_version p)" using r by (simp add: memory_version_def)
  show "memory_version d' j = (if j = i then Some (mp_expected_version p + 1) else memory_version d j)"
    using r unfolding memory_version_def rows
    by (cases "lookup m_id j (memories d)") (auto simp: lookup_update_where dest: lookup_SomeD)
qed

text \<open>A caller of \<open>memory_update\<close>: digest, counters, settings, clock, context, patch, audit extra, what it read.\<close>

type_synonym memory_caller = "(string \<Rightarrow> string) \<times> (uuid \<Rightarrow> reference_columns) \<times> settings \<times> time \<times> agent_context \<times>
  memory_update_patch \<times> payload option \<times> db"

definition memory_writer :: "memory_caller \<Rightarrow> uuid \<Rightarrow> int \<Rightarrow> db \<Rightarrow> (db \<times> memory_response) res" where
  "memory_writer c i v d = (case c of (sha, refs, st, now, ctx, p, extra, d0) \<Rightarrow>
     memory_update sha refs st now ctx i (p\<lparr>mp_expected_version := v\<rparr>) extra d0 d)"

interpretation memory_lock: optimistic_lock memory_version memory_writer
proof (unfold_locales, unfold memory_writer_def)
  fix c :: memory_caller and i v d d' b
  assume a: "(case c of (sha, refs, st, now, ctx, p, extra, d0) \<Rightarrow>
     memory_update sha refs st now ctx i (p\<lparr>mp_expected_version := v\<rparr>) extra d0 d) = Inr (d', b)"
  obtain sha refs st now ctx p extra d0 where c: "c = (sha, refs, st, now, ctx, p, extra, d0)" by (metis surj_pair)
  note u = memory_update_version [OF a [unfolded c, simplified]]
  show "memory_version d i = Some v" using u(1) by simp
  show "memory_version d' i = Some (v + 1)" using u(2) [of i] by simp
  show "memory_version d' j = memory_version d j" if "j \<noteq> i" for j using u(2) that by simp
qed

end
