(* ===== verification/MemoryProps.thy ===== *)
theory MemoryProps
  imports MemoryHistory
begin

text \<open>
  The properties of the memory store over whole histories: the outbox describes the memories, the
  vector index the projection builds from it mirrors them, versions identify content, superseded
  memories stay superseded, and what the calls refuse.
\<close>

text \<open>A small store for the concrete instances: one environment, one memory written, then revised.\<close>

definition notes_settings :: settings where
  "notes_settings = \<lparr>vector_backend = ''qdrant'', graph_backend = ''neo4j''\<rparr>"

definition notes_ctx :: agent_context where
  "notes_ctx = \<lparr>ctx_agent_id = 7, ctx_session_id = None, ctx_attached_env_ids = [1]\<rparr>"

definition notes_db :: db where
  "notes_db = (empty_db (\<lambda>n. 100 + n))\<lparr>environments :=
     [\<lparr>env_id = 1, env_name = ''main'', env_embedding_model = ''e5'', env_deleted = False\<rparr>,
      \<lparr>env_id = 2, env_name = ''side'', env_embedding_model = ''e5'', env_deleted = False\<rparr>]\<rparr>"

definition notes_write :: memory_write_request where
  "notes_write = \<lparr>mw_kind = MK_fact, mw_title = Some ''T'', mw_body = ''B'', mw_trigger_description = None,
     mw_steps = None, mw_macro = None, mw_env_id = Some 1, mw_tags = [], mw_metadata = [], mw_salience = None,
     mw_confidence = None, mw_expires_at = None, mw_pinned = False, mw_entity_links = [],
     mw_source_type = SRC_agent, mw_source_ref = None, mw_evidence_span = None, mw_decision_meta = None\<rparr>"

definition no_refs :: "uuid \<Rightarrow> reference_columns" where
  "no_refs i = \<lparr>rc_rel_link = 0, rc_lineage = 0, rc_task = 0, rc_playbook = 0, rc_authority = 0\<rparr>"

lemmas write_defs = memory_write_def memory_write_in_session_def resolve_env_id_def normalize_tags_def
  normalize_playbook_fields_def ensure_macro_available_def load_env_embedding_model_def
  validate_decision_meta_for_kind_def insert_memory_def memory_violation_def new_memory_def set_new_tags_def
  insert_memory_source_def write_source_def session_text_def link_new_memory_def record_audit_def enqueue_memory_def enqueue_event_def
  resolve_sinks_for_def outbox_violation_def outbox_op_for_def visible_in_projection_def macro_guard_def
  env_exists_def next_uuid_def draw_uuid_def

lemmas notes_defs = notes_settings_def notes_ctx_def notes_db_def notes_write_def empty_db_def

lemma notes_sinks: "resolve_sinks_for AT_memory notes_settings \<noteq> []"
  by (simp add: resolve_sinks_for_def notes_settings_def)

definition note_row :: memory where
  "note_row = new_memory 100 1 notes_write None None None 5"

definition notes_one :: db where
  "notes_one = notes_db\<lparr>memories := [note_row],
     memory_sources := [\<lparr>src_memory_id = 100, src_type = SRC_agent, src_ref = None, src_agent_id = Some 7,
        src_evidence_span = None, src_created_at = 5\<rparr>],
     audit_log := [\<lparr>au_record_type = ''memory'', au_record_id = 100, au_env_id = 1, au_op = ''create'', au_by_agent_id = 7,
        au_before = None, au_after = Some (audit_snapshot (\<lambda>s. s) note_row (Some []))\<rparr>],
     outbox := [\<lparr>ob_event_id = 1, ob_aggregate_type = AT_memory, ob_aggregate_id = 100, ob_aggregate_version = 1,
        ob_env_id = 1, ob_op = OP_upsert, ob_payload = projection_payload note_row [] ''e5'', ob_created_at = 5\<rparr>],
     outbox_delivery := [new_delivery 1 SK_qdrant], projection_state := [new_projection SK_qdrant 1],
     uuid_used := 1, event_seq := 2\<rparr>"

lemma notes_written:
  "memory_write (\<lambda>s. s) (\<lambda>i. []) no_refs notes_settings 5 notes_ctx notes_write notes_db =
     Inr (notes_one, memory_to_response no_refs note_row [])"
  by (simp add: write_defs notes_defs note_row_def notes_one_def Let_def)

lemma notes_history: "memory_history notes_settings [notes_one, notes_db]"
proof (rule memory_history.call)
  show "memory_history notes_settings [notes_db]"
    by (rule memory_history.start) (simp_all add: notes_db_def empty_db_def memory_events_def)
  show "memory_call notes_settings notes_db notes_db notes_one"
    using notes_written by (rule memory_call.create)
qed simp

text \<open>The memory is superseded by a second one.\<close>

lemmas supersede_defs = memory_supersede_def memory_supersede_check_def load_memory_def ensure_env_visible_def
  is_valid_transition_def supersede_source_def update_memory_row_def mark_superseded_def insert_lineage_def lineage_violation_def

definition notes_supersede :: "(db \<times> memory_response \<times> memory_response) res" where
  "notes_supersede = memory_supersede (\<lambda>s. s) (\<lambda>i. []) no_refs notes_settings 6 notes_ctx 100 1 notes_write notes_one notes_one"

definition notes_two :: db where
  "notes_two = (case notes_supersede of Inl e \<Rightarrow> notes_one | Inr (d, r) \<Rightarrow> d)"

lemma notes_supersede_ok:
  "\<exists>d r. notes_supersede = Inr (d, r) \<and> map (\<lambda>m. (m_id m, m_status m, m_superseded_by m, m_version m)) (memories d) =
     [(100, MS_superseded, Some 101, 2), (101, MS_active, None, 1)] \<and>
     map (\<lambda>l. (ln_parent l, ln_child l)) (memory_lineage d) = [(100, 101)]"
  by (simp add: notes_supersede_def supersede_defs write_defs notes_defs note_row_def notes_one_def Let_def update_where_def lookup_def)

lemma notes_superseded:
  "map (\<lambda>m. (m_id m, m_status m, m_superseded_by m, m_version m)) (memories notes_two) =
     [(100, MS_superseded, Some 101, 2), (101, MS_active, None, 1)]"
  "map (\<lambda>l. (ln_parent l, ln_child l)) (memory_lineage notes_two) = [(100, 101)]"
  "memory_history notes_settings [notes_two, notes_one, notes_db]"
proof -
  obtain d r where d: "notes_supersede = Inr (d, r)" "map (\<lambda>m. (m_id m, m_status m, m_superseded_by m, m_version m)) (memories d) =
     [(100, MS_superseded, Some 101, 2), (101, MS_active, None, 1)]" "map (\<lambda>l. (ln_parent l, ln_child l)) (memory_lineage d) = [(100, 101)]"
    using notes_supersede_ok by (elim exE conjE)
  have two: "notes_two = d" unfolding notes_two_def d(1) by simp
  then show "map (\<lambda>m. (m_id m, m_status m, m_superseded_by m, m_version m)) (memories notes_two) =
     [(100, MS_superseded, Some 101, 2), (101, MS_active, None, 1)]"
    "map (\<lambda>l. (ln_parent l, ln_child l)) (memory_lineage notes_two) = [(100, 101)]" using d by simp_all
  show "memory_history notes_settings [notes_two, notes_one, notes_db]"
    by (rule memory_history.call [OF notes_history _ memory_call.supersede [OF d(1) [unfolded notes_supersede_def, folded two]]]) simp
qed

lemma notes_two_rows:
  obtains r m where "memories notes_two = [r, m]" "m_id r = 100" "m_status r = MS_superseded" "m_superseded_by r = Some 101"
    "m_version r = 2" "m_id m = 101"
  using notes_superseded(1) by (auto simp: map_eq_Cons_conv)

subsection \<open>The outbox describes the memories\<close>

text \<open>C3: In every state any history of memory tool calls reaches (each checked against a possibly
  older state), the last outbox event of every memory carries the row's version, environment and a
  payload of its current content and tags, and is a tombstone exactly when the status hides the
  memory from the projections; the last event of a memory that is gone is a tombstone; and no
  version of a memory has two events.\<close>

theorem outbox_describes_memories:
  assumes "memory_history st (d # ds)" and "resolve_sinks_for AT_memory st \<noteq> []"
  shows "(\<forall>m \<in> set (memories d). \<exists>row m0 tags model. last_event (memory_events d) (m_id m) = Some row \<and>
      content m0 = content m \<and> set tags = set (load_tag_names d (m_id m)) \<and>
      ob_aggregate_version row = m_version m \<and> ob_env_id row = m_env_id m \<and>
      ob_payload row = projection_payload m0 tags model \<and>
      (ob_op row = OP_tombstone \<longleftrightarrow> \<not> visible_in_projection (m_status m))) \<and>
    (\<forall>row. last_event (memory_events d) (ob_aggregate_id row) = Some row \<and>
      ob_aggregate_id row \<notin> m_id ` set (memories d) \<longrightarrow> ob_op row = OP_tombstone) \<and>
    distinct (map event_key (memory_events d))"
proof -
  have inv: "projected (ledger_of d)" "log_ok (memory_events d)"
    using history_state(1) [OF assms, of d] by (simp_all add: ledger_inv_def)
  have "\<exists>row m0 tags model. last_event (memory_events d) (m_id m) = Some row \<and>
      content m0 = content m \<and> set tags = set (load_tag_names d (m_id m)) \<and>
      ob_aggregate_version row = m_version m \<and> ob_env_id row = m_env_id m \<and>
      ob_payload row = projection_payload m0 tags model \<and>
      (ob_op row = OP_tombstone \<longleftrightarrow> \<not> visible_in_projection (m_status m))" if "m \<in> set (memories d)" for m
  proof -
    have m: "m \<in> set (lg_memories (ledger_of d))" using that by simp
    obtain row where "last_event (lg_events (ledger_of d)) (m_id m) = Some row" and row: "describes (ledger_of d) row m"
      by (rule projectedD [OF inv(1) m])
    then have last: "last_event (memory_events d) (m_id m) = Some row" by simp
    obtain m0 tags model where "content m0 = content m" "event_key row = (m_id m, m_version m)"
        "ob_env_id row = m_env_id m" "ob_payload row = projection_payload m0 tags model"
        "set tags = lg_tags (ledger_of d) (m_id m)" "ob_op row = OP_tombstone \<longleftrightarrow> \<not> visible_in_projection (m_status m)"
      by (rule describesE [OF row])
    with last show ?thesis
      by (intro exI [of _ row] exI [of _ m0] exI [of _ tags] exI [of _ model]) (simp add: event_key_def load_tag_names_set)
  qed
  moreover have "ob_op row = OP_tombstone"
    if "last_event (memory_events d) (ob_aggregate_id row) = Some row" "ob_aggregate_id row \<notin> m_id ` set (memories d)" for row
    using inv(1) that unfolding projected_def by simp
  ultimately show ?thesis using inv(2) by (simp add: log_ok_def)
qed

lemma outbox_describes_memories_witness:
  "\<exists>row. last_event (memory_events notes_one) 100 = Some row \<and> ob_aggregate_version row = 1 \<and> ob_op row \<noteq> OP_tombstone"
proof -
  have "note_row \<in> set (memories notes_one)" "m_id note_row = 100" "m_version note_row = 1" "visible_in_projection (m_status note_row)"
    by (simp_all add: notes_one_def note_row_def new_memory_def visible_in_projection_def)
  then show ?thesis
    using outbox_describes_memories [OF notes_history notes_sinks] by metis
qed

subsection \<open>Versions and lifecycle\<close>

text \<open>C10: A version names one content: over any history the version of a memory never goes back,
  and when it is unchanged nothing but the access counters and the salience has changed. So a call
  that passes its version check overwrites exactly what it read.\<close>

theorem version_identifies_content:
  assumes "memory_history st (d # ds)" and "resolve_sinks_for AT_memory st \<noteq> []"
    and "e \<in> set (d # ds)" and "r \<in> set (memories e)" and "m \<in> set (memories d)" and "m_id m = m_id r"
  shows "m_env_id m = m_env_id r \<and> m_version r \<le> m_version m \<and> (m_version m = m_version r \<longrightarrow> content m = content r)"
proof -
  note h = history_state [OF assms(1-3)]
  have "\<forall>q \<in> set (lg_memories (ledger_of d)). m_id q = m_id r \<longrightarrow>
      m_env_id q = m_env_id r \<and> m_version r \<le> m_version q \<and> (m_version q = m_version r \<longrightarrow> content q = content r)"
    by (rule run_keeps [OF h(3,1)]) (use assms(4) in \<open>auto simp: row_step_def\<close>)
  then show ?thesis using assms(5,6) by simp
qed

lemma version_identifies_content_witness:
  "\<exists>m \<in> set (memories notes_two). m_id m = 100 \<and> m_env_id m = 1 \<and> m_version note_row < m_version m"
proof -
  obtain r m where r: "memories notes_two = [r, m]" "m_id r = 100" "m_version r = 2" by (rule notes_two_rows)
  have "m_env_id r = m_env_id note_row \<and> m_version note_row \<le> m_version r \<and> (m_version r = m_version note_row \<longrightarrow> content r = content note_row)"
    by (rule version_identifies_content [OF notes_superseded(3) notes_sinks, of notes_one])
      (simp_all add: r notes_one_def note_row_def new_memory_def)
  then show ?thesis using r by (intro bexI [of _ r]) (simp_all add: note_row_def new_memory_def)
qed

text \<open>C11: A memory that was superseded once stays superseded for ever, as long as it exists, and a
  retired one stays retired or becomes superseded: neither is ever visible to the projections
  again. (The lifecycle table permits retiring a superseded memory; the CHECK constraint on the
  successor column makes that impossible.)\<close>

theorem hidden_memories_stay_hidden:
  assumes "memory_history st (d # ds)" and "resolve_sinks_for AT_memory st \<noteq> []"
    and "e \<in> set (d # ds)" and "r \<in> set (memories e)" and "hidden (m_status r)"
    and "m \<in> set (memories d)" and "m_id m = m_id r"
  shows "hidden (m_status m) \<and> \<not> visible_in_projection (m_status m) \<and>
    (m_status r = MS_superseded \<longrightarrow> m_status m = MS_superseded)"
proof -
  note h = history_state [OF assms(1-3)]
  have step: "hidden (m_status q)" if "hidden (m_status p)" "row_step p q" for p q
    using that superseded_life.stays content_fields(3) [of q p] by (auto simp: row_step_def life_ok_def hidden_def)
  have step': "m_status q = MS_superseded"
    if "m_status p = MS_superseded" "row_step p q" "row_alone es p" "row_alone es' q" for p q es es'
    using that content_fields(3) [of q p] by (auto simp: row_step_def life_ok_def row_alone_def)
  have hid: "\<forall>q \<in> set (lg_memories (ledger_of d)). m_id q = m_id r \<longrightarrow> hidden (m_status q)"
    by (rule run_keeps [OF h(3,1)]) (use assms(4,5) step in auto)
  have sup: "\<forall>q \<in> set (lg_memories (ledger_of d)). m_id q = m_id r \<longrightarrow> m_status q = MS_superseded"
    if "m_status r = MS_superseded"
    by (rule run_keeps [OF h(3,1)]) (use assms(4) that step' in auto)
  have "hidden (m_status m)" using hid assms(6,7) by simp
  moreover have "m_status m = MS_superseded" if "m_status r = MS_superseded" using sup [OF that] assms(6,7) by simp
  ultimately show ?thesis by (auto simp: hidden_def visible_in_projection_def)
qed

lemma hidden_memories_stay_hidden_witness:
  "\<exists>r \<in> set (memories notes_two). m_id r = 100 \<and> hidden (m_status r) \<and> m_status r = MS_superseded"
proof -
  obtain r m where r: "memories notes_two = [r, m]" "m_id r = 100" "m_status r = MS_superseded" by (rule notes_two_rows)
  then show ?thesis
    using hidden_memories_stay_hidden [OF notes_superseded(3) notes_sinks, of notes_two r r] by (auto simp: hidden_def)
qed

subsection \<open>Updates\<close>

text \<open>Two patches of the running example.\<close>

definition notes_patch :: memory_update_patch where
  "notes_patch = (empty_patch 1)\<lparr>mp_title := Some None, mp_status := Some (Some MS_stale)\<rparr>"

lemmas update_defs = memory_update_def memory_update_check_def memory_update_commit_def patch_decision_meta_def patch_tags_def
  fresh_memory_version_def load_memory_def ensure_env_visible_def is_valid_transition_def update_memory_row_def
  apply_patch_def patch_value_def patch_nullable_def empty_patch_def

definition notes_update :: "(db \<times> memory_response) res" where
  "notes_update = memory_update (\<lambda>s. s) no_refs notes_settings 8 notes_ctx 100 notes_patch None notes_one notes_one"

lemma notes_update_ok: "isl notes_update = False"
  by (simp add: notes_update_def notes_patch_def update_defs write_defs notes_defs note_row_def notes_one_def Let_def
      update_where_def lookup_def)

definition notes_revised :: db where
  "notes_revised = fst (projr notes_update)"

lemma notes_revised:
  "memory_update (\<lambda>s. s) no_refs notes_settings 8 notes_ctx 100 notes_patch None notes_one notes_one =
     Inr (notes_revised, snd (projr notes_update))"
  using notes_update_ok unfolding notes_revised_def notes_update_def by (metis prod.collapse sum.collapse(2))

text \<open>C5: Of the callers that hold the same version of a memory at most one commits: once an update
  with expected version \<open>v\<close> has gone through, an update of the same memory with expected version
  \<open>v\<close> fails, whatever versioned updates of any memories came between and whatever state the
  second caller had read.\<close>

theorem memory_update_one_winner:
  assumes "memory_update sha refs st now ctx i p extra d0 d = Inr (d1, resp)"
    and "(\<lambda>a b. \<exists>c j v r. memory_writer c j v a = Inr (b, r))\<^sup>*\<^sup>* d1 d2"
    and "mp_expected_version p' = mp_expected_version p"
  shows "\<exists>e. memory_update sha' refs' st' now' ctx' i p' extra' d0' d2 = Inl e"
proof -
  have "memory_writer (sha, refs, st, now, ctx, p, extra, d0) i (mp_expected_version p) d = Inr (d1, resp)"
    using assms(1) by (simp add: memory_writer_def)
  from memory_lock.one_winner [OF this assms(2), of "(sha', refs', st', now', ctx', p', extra', d0')"]
  show ?thesis using assms(3) [symmetric] by (simp add: memory_writer_def)
qed

lemma memory_update_one_winner_witness:
  "\<exists>e. memory_update (\<lambda>s. s) no_refs notes_settings 9 notes_ctx 100 notes_patch None notes_one notes_revised = Inl e"
  by (rule memory_update_one_winner [OF notes_revised rtranclp.rtrancl_refl refl])

lemma same_version_content:
  assumes "ledger_step\<^sup>*\<^sup>* (ledger_of d0) (ledger_of d)" and "ledger_inv (ledger_of d0)"
    and "r \<in> set (memories d0)" and "m \<in> set (memories d)" and "m_id m = m_id r" and "m_version m = m_version r"
  shows "content m = content r"
proof -
  have "\<forall>q \<in> set (lg_memories (ledger_of d)). m_id q = m_id r \<longrightarrow>
      m_env_id q = m_env_id r \<and> m_version r \<le> m_version q \<and> (m_version q = m_version r \<longrightarrow> content q = content r)"
    by (rule run_keeps [OF assms(1,2)]) (use assms(3) in \<open>auto simp: row_step_def\<close>)
  then show ?thesis using assms(4-6) by simp
qed

lemma patch_tags_names:
  assumes "patch_tags p m old d = Inr (d', names)"
  shows "case mp_tags p of None \<Rightarrow> names = old | Some ts \<Rightarrow> normalize_tags (case ts of None \<Rightarrow> [] | Some xs \<Rightarrow> xs) = Inr names"
proof (cases "mp_tags p")
  case None
  then show ?thesis using assms by (simp add: patch_tags_def)
next
  case (Some ts)
  then obtain names' where "normalize_tags (case ts of None \<Rightarrow> [] | Some xs \<Rightarrow> xs) = Inr names'" "names' = names"
    using assms by (auto simp: patch_tags_def bindE_eq_Inr)
  then show ?thesis using Some by simp
qed

text \<open>The row, the tags and the checked fields of an update. The check may have read an earlier state \<open>d0\<close>.\<close>

lemma memory_update_effect:
  assumes run: "memory_update sha refs st now ctx i p extra d0 d = Inr (d', resp)"
    and inv: "ledger_inv (ledger_of d0)" "ledger_inv (ledger_of d)" "tags_ok d"
    and steps: "ledger_step\<^sup>*\<^sup>* (ledger_of d0) (ledger_of d)"
    and sinks: "resolve_sinks_for AT_memory st \<noteq> []"
  obtains r steps macro meta where "lookup m_id i (memories d) = Some r" "m_version r = mp_expected_version p"
    "memories d' = update_where (\<lambda>x. m_id x = i) (apply_patch p steps macro meta (mp_expected_version p + 1) now) (memories d)"
    "normalize_playbook_fields (patch_value (mp_kind p) (m_kind r)) (patch_nullable (mp_steps p) (m_steps r))
       (patch_nullable (mp_macro p) (m_macro r)) = Inr (steps, macro)"
    "patch_decision_meta p r d0 = Inr meta"
    "\<exists>names. tag_set d' = (tag_set d)(i := set names) \<and>
       (case mp_tags p of None \<Rightarrow> set names = tag_set d i | Some ts \<Rightarrow> normalize_tags (case ts of None \<Rightarrow> [] | Some xs \<Rightarrow> xs) = Inr names)"
proof -
  obtain old f m tags where chk: "memory_update_check now ctx i p d0 = Inr (old, f)"
      and com: "memory_update_commit sha st now ctx i p extra old (load_tag_names d0 i) f d = Inr (d', m, tags)"
    using run unfolding memory_update_def macro_guard_Inr by (auto elim!: bindE_elims)
  obtain steps macro meta where c: "lookup m_id i (memories d0) = Some old" "m_version old = mp_expected_version p"
      "f = apply_patch p steps macro meta (m_version old + 1) now" "patch_decision_meta p old d0 = Inr meta"
      "normalize_playbook_fields (patch_value (mp_kind p) (m_kind old)) (patch_nullable (mp_steps p) (m_steps old))
        (patch_nullable (mp_macro p) (m_macro old)) = Inr (steps, macro)"
    using chk unfolding memory_update_check_def load_memory_def
    by (auto elim!: bindE_elims simp: some_or_eq_Inr raise_if_eq_Inr)
  obtain d1 n d2 model where s: "update_memory_row i (mp_expected_version p) f d = Inr (d1, n)" "n \<noteq> 0"
      "load_memory i d1 = Inr m" "patch_tags p m (load_tag_names d0 i) d1 = Inr (d2, tags)"
      "enqueue_memory st now m (m_version m) (outbox_op_for (patch_value (mp_status p) (m_status old)) False) tags model
        (record_audit ''update'' m (ctx_agent_id ctx) (Some (audit_snapshot sha old (Some (load_tag_names d0 i))))
          (Some (audit_snapshot sha m (Some tags))) extra d2) = Inr d'"
    using com unfolding memory_update_commit_def Let_def by (auto elim!: bindE_elims simp: raise_if_eq_Inr)
  obtain r where r: "lookup m_id i (memories d) = Some r" "m_version r = mp_expected_version p"
      "d1 = d\<lparr>memories := update_where (\<lambda>x. m_id x = i) f (memories d)\<rparr>"
    by (rule update_memory_row_spec [OF s(1,2)])
  have ids: "m_id old = i" "m_id r = i" using lookup_SomeD c(1) r(1) by fastforce+
  have rows: "old \<in> set (memories d0)" "r \<in> set (memories d)" using lookup_SomeD [OF c(1)] lookup_SomeD [OF r(1)] by simp_all
  have "tag_set d0 i = tag_set d i"
    using stale_read [OF inv(1,2), of old r] ledger_steps_events [OF steps] rows c(2) r(2) ids by auto
  moreover have "content r = content old" by (rule same_version_content [OF steps inv(1) rows]) (simp_all add: ids c(2) r(2))
  ultimately have same: "content old = content r" "tag_set d0 i = tag_set d i" by simp_all
  then have fields: "m_kind old = m_kind r" "m_steps old = m_steps r" "m_macro old = m_macro r" "m_env_id old = m_env_id r"
      "m_decision_meta old = m_decision_meta r"
    by (cases old; cases r; simp add: content_def)+
  have "m_id m = i" using s(3) unfolding load_memory_def some_or_eq_Inr by (auto dest: lookup_SomeD)
  moreover have ok1: "tags_ok d1" unfolding r(3) by (rule tags_ok_ids [OF inv(3)]) (simp add: c(3))
  moreover have t1: "tag_set d1 = tag_set d" unfolding r(3) by simp
  ultimately have "retagged d1 i (set tags) d2"
    using patch_tags_retagged [OF ok1 s(4)] same(2) by (simp add: load_tag_names_set)
  moreover have "tag_set d' = tag_set d2"
  proof -
    obtain row where "tag_set d' = tag_set (record_audit ''update'' m (ctx_agent_id ctx) (Some (audit_snapshot sha old (Some (load_tag_names d0 i))))
        (Some (audit_snapshot sha m (Some tags))) extra d2)"
      by (rule enqueue_memory_spec [OF s(5) sinks])
    then show ?thesis by (simp only: mem_tables_ledger(3) [OF record_audit_tables])
  qed
  ultimately have tags: "tag_set d' = (tag_set d)(i := set tags)" unfolding retagged_def t1 by simp
  have "case mp_tags p of None \<Rightarrow> set tags = tag_set d i | Some ts \<Rightarrow> normalize_tags (case ts of None \<Rightarrow> [] | Some xs \<Rightarrow> xs) = Inr tags"
    using patch_tags_names [OF s(4)] same(2) by (simp add: load_tag_names_set split: option.splits)
  moreover have "memories d' = update_where (\<lambda>x. m_id x = i) (apply_patch p steps macro meta (mp_expected_version p + 1) now) (memories d)"
  proof -
    have "memories d' = memories d1"
      using enqueue_memory_memories [OF s(5)] patch_tags_memories [OF s(4)] mem_tables_eq(2) [OF record_audit_tables] by metis
    then show ?thesis using r(3) c(2,3) by simp
  qed
  moreover have "patch_decision_meta p r d0 = Inr meta" using c(4) by (simp only: patch_decision_meta_def fields)
  ultimately show thesis using that r(1,2) c(5) fields tags by metis
qed

text \<open>C8: What an update writes: every field the patch leaves unset keeps its value, the tags included; a
  nullable field set to null is cleared, a null for another field is ignored (null metadata and null tags become
  empty); the version grows by one, the steps and the macro are stored as normalized for the resulting kind, the
  decision metadata as validated, the lifecycle table permits the move, the environment, the creation time, the
  successor and the access counters never change, and no other memory and no other memory's tags are touched.\<close>

theorem memory_update_writes_patch:
  assumes "memory_history st (d # ds)" and "resolve_sinks_for AT_memory st \<noteq> []" and "d0 \<in> set (d # ds)"
    and "memory_update sha refs st now ctx i p extra d0 d = Inr (d', resp)"
  shows "\<exists>r m steps macro meta. r \<in> set (memories d) \<and> m_id r = i \<and> set (memories d') = insert m {q \<in> set (memories d). m_id q \<noteq> i} \<and>
    normalize_playbook_fields (patch_value (mp_kind p) (m_kind r)) (patch_nullable (mp_steps p) (m_steps r))
      (patch_nullable (mp_macro p) (m_macro r)) = Inr (steps, macro) \<and>
    patch_decision_meta p r d0 = Inr meta \<and>
    m_version r = mp_expected_version p \<and> is_valid_transition (m_status r) (m_status m) \<and>
    m = r\<lparr>m_version := m_version r + 1, m_updated_at := now,
      m_title := (case mp_title p of None \<Rightarrow> m_title r | Some v \<Rightarrow> v),
      m_body := (case mp_body p of Some (Some v) \<Rightarrow> v | _ \<Rightarrow> m_body r),
      m_trigger_description := (case mp_trigger_description p of None \<Rightarrow> m_trigger_description r | Some v \<Rightarrow> v),
      m_steps := (case mp_steps p of None \<Rightarrow> m_steps r | Some _ \<Rightarrow> steps),
      m_macro := (case mp_macro p of None \<Rightarrow> m_macro r | Some _ \<Rightarrow> macro),
      m_kind := (case mp_kind p of Some (Some v) \<Rightarrow> v | _ \<Rightarrow> m_kind r),
      m_status := (case mp_status p of Some (Some v) \<Rightarrow> v | _ \<Rightarrow> m_status r),
      m_metadata := (case mp_metadata p of None \<Rightarrow> m_metadata r | Some None \<Rightarrow> [] | Some (Some v) \<Rightarrow> v),
      m_decision_meta := (case mp_decision_meta p of None \<Rightarrow> m_decision_meta r | Some _ \<Rightarrow> the meta),
      m_salience := (case mp_salience p of Some (Some v) \<Rightarrow> v | _ \<Rightarrow> m_salience r),
      m_confidence := (case mp_confidence p of Some (Some v) \<Rightarrow> v | _ \<Rightarrow> m_confidence r),
      m_pinned := (case mp_pinned p of Some (Some v) \<Rightarrow> v | _ \<Rightarrow> m_pinned r),
      m_expires_at := (case mp_expires_at p of None \<Rightarrow> m_expires_at r | Some v \<Rightarrow> v),
      m_verified_at := (case mp_verified_at p of None \<Rightarrow> m_verified_at r | Some v \<Rightarrow> v)\<rparr> \<and>
    (case mp_tags p of None \<Rightarrow> set (load_tag_names d' i) = set (load_tag_names d i)
     | Some ts \<Rightarrow> \<exists>names. normalize_tags (case ts of None \<Rightarrow> [] | Some xs \<Rightarrow> xs) = Inr names \<and> set (load_tag_names d' i) = set names) \<and>
    (\<forall>j. j \<noteq> i \<longrightarrow> set (load_tag_names d' j) = set (load_tag_names d j)) \<and>
    (m_status m = MS_superseded \<longleftrightarrow> m_status r = MS_superseded)"
proof -
  note h = history_state [OF assms(1,2)]
  have inv: "ledger_inv (ledger_of d)" "tags_ok d" "ledger_inv (ledger_of d0)" and run: "ledger_step\<^sup>*\<^sup>* (ledger_of d0) (ledger_of d)"
    using h(1,2) [of d] h(1,3) [OF assms(3)] by simp_all
  have old: "set (memory_events d0) \<subseteq> set (memory_events d)" using ledger_steps_events [OF run] by simp
  have step: "ledger_step (ledger_of d) (ledger_of d')"
    using memory_update_refines [OF assms(4) inv(3,1,2) old assms(2)] by simp
  have inv': "ledger_inv (ledger_of d')" by (rule ledger_step_inv [OF step inv(1)])
  obtain r steps macro meta where r: "lookup m_id i (memories d) = Some r" "m_version r = mp_expected_version p"
    and rows: "memories d' = update_where (\<lambda>x. m_id x = i) (apply_patch p steps macro meta (mp_expected_version p + 1) now) (memories d)"
    and norm: "normalize_playbook_fields (patch_value (mp_kind p) (m_kind r)) (patch_nullable (mp_steps p) (m_steps r))
      (patch_nullable (mp_macro p) (m_macro r)) = Inr (steps, macro)"
    and meta: "patch_decision_meta p r d0 = Inr meta"
    and tags: "\<exists>names. tag_set d' = (tag_set d)(i := set names) \<and>
       (case mp_tags p of None \<Rightarrow> set names = tag_set d i | Some ts \<Rightarrow> normalize_tags (case ts of None \<Rightarrow> [] | Some xs \<Rightarrow> xs) = Inr names)"
    by (rule memory_update_effect [OF assms(4) inv(3,1,2) run assms(2)])
  define m where "m = apply_patch p steps macro meta (mp_expected_version p + 1) now r"
  have rr: "r \<in> set (memories d)" "m_id r = i" using lookup_SomeD [OF r(1)] by auto
  have one: "q = r" if "q \<in> set (memories d)" "m_id q = i" for q
    using ids_distinct [of "ledger_of d" q r] inv(1) that rr by (simp add: ledger_inv_def)
  have set': "set (memories d') = insert m {q \<in> set (memories d). m_id q \<noteq> i}"
  proof -
    have "(if m_id q = i then apply_patch p steps macro meta (mp_expected_version p + 1) now q else q) = (if m_id q = i then m else q)"
      if "q \<in> set (memories d)" for q
      using one [OF that] by (simp add: m_def)
    then have "set (memories d') = (\<lambda>q. if m_id q = i then m else q) ` set (memories d)"
      unfolding rows update_where_def set_map by (rule image_cong [OF refl])
    then show ?thesis using rr by auto
  qed
  have mid: "m_id m = i" "m \<in> set (memories d')" using rr set' by (simp_all add: m_def)
  have "row_step r m" using step_row [OF step, of r m] inv(1) rr mid by (simp add: ledger_inv_def)
  moreover have "m_version r < m_version m" using r(2) by (simp add: m_def)
  ultimately have life: "life_ok r m" using content_fields(2) [of m r] by (auto simp: row_step_def)
  have alone: "row_alone (environments d) r" "row_alone (environments d') m"
    using inv(1) inv' rr mid by (auto simp: ledger_inv_def rows_ok_def row_ok_iff)
  have sup: "m_superseded_by m = m_superseded_by r" by (simp add: m_def)
  then have hidden: "m_status m = MS_superseded \<longleftrightarrow> m_status r = MS_superseded"
    using alone by (simp add: row_alone_def)
  have move: "is_valid_transition (m_status r) (m_status m)" using life hidden by (auto simp: life_ok_def is_valid_transition_def)
  have meta': "meta \<noteq> None \<longleftrightarrow> mp_decision_meta p \<noteq> None"
    using meta by (auto simp: patch_decision_meta_def Let_def res_simps split: option.splits)
  have fields: "(if mp_steps p \<noteq> None then steps else m_steps r) = (case mp_steps p of None \<Rightarrow> m_steps r | Some _ \<Rightarrow> steps)"
      "(if mp_macro p \<noteq> None then macro else m_macro r) = (case mp_macro p of None \<Rightarrow> m_macro r | Some _ \<Rightarrow> macro)"
      "(case meta of None \<Rightarrow> m_decision_meta r | Some v \<Rightarrow> v) = (case mp_decision_meta p of None \<Rightarrow> m_decision_meta r | Some _ \<Rightarrow> the meta)"
    using meta' by (auto split: option.split)
  note written = m_def [unfolded apply_patch_def patch_nullable_def patch_value_def fields, folded r(2)]
  obtain names where names: "tag_set d' = (tag_set d)(i := set names)"
      "case mp_tags p of None \<Rightarrow> set names = tag_set d i | Some ts \<Rightarrow> normalize_tags (case ts of None \<Rightarrow> [] | Some xs \<Rightarrow> xs) = Inr names"
    using tags by blast
  have own: "case mp_tags p of None \<Rightarrow> set (load_tag_names d' i) = set (load_tag_names d i)
     | Some ts \<Rightarrow> \<exists>names. normalize_tags (case ts of None \<Rightarrow> [] | Some xs \<Rightarrow> xs) = Inr names \<and> set (load_tag_names d' i) = set names"
    using names unfolding load_tag_names_set by (cases "mp_tags p") auto
  have others: "\<forall>j. j \<noteq> i \<longrightarrow> set (load_tag_names d' j) = set (load_tag_names d j)"
    using names(1) by (simp add: load_tag_names_set)
  show ?thesis
    by (rule exI [of _ r], rule exI [of _ m], rule exI [of _ steps], rule exI [of _ macro], rule exI [of _ meta], intro conjI)
      (rule rr set' norm meta r(2) move written own others hidden)+
qed

lemma memory_update_writes_patch_witness:
  "\<exists>r m. r \<in> set (memories notes_one) \<and> m \<in> set (memories notes_revised) \<and> m_title r = Some ''T'' \<and> m_title m = None \<and>
     m_body m = ''B'' \<and> m_status m = MS_stale \<and> m_version m = 2"
proof -
  from memory_update_writes_patch [OF notes_history notes_sinks _ notes_revised]
  obtain r m where "r \<in> set (memories notes_one)" "set (memories notes_revised) = insert m {q \<in> set (memories notes_one). m_id q \<noteq> 100}"
      "m_version r = 1" "m_version m = m_version r + 1" "m_title m = None" "m_body m = m_body r" "m_status m = MS_stale"
    by (auto simp: notes_patch_def empty_patch_def)
  then show ?thesis
    by (intro exI [of _ r] exI [of _ m]) (simp add: notes_one_def note_row_def new_memory_def notes_write_def)
qed

subsection \<open>What the calls refuse\<close>

text \<open>\<open>mem_move\<close> with \<open>redirect_source = False\<close> never succeeds on a store with a vector
  backend: its tombstone event reuses the version of the last event of the source, which the unique
  key of the outbox rejects (and with a lineage edge the source cannot be deleted at all).\<close>

lemma mem_move_without_redirect_fails:
  assumes "memory_history st (d # ds)" and "resolve_sinks_for AT_memory st \<noteq> []"
  shows "\<exists>e. mem_move sha uuid_text gv re exec st now ctx req False d w = Inl e"
proof (cases "mem_move sha uuid_text gv re exec st now ctx req False d w")
  case (Inr x)
  obtain d' w' resp where x: "x = (d', w', resp)" by (rule prod_cases3)
  then show ?thesis
    using mem_move_refines [of sha uuid_text gv re exec st now ctx req False d w d' w' resp] Inr
      history_state(1,2) [OF assms, of d] assms(2) by simp
qed simp

definition notes_move :: mem_copy_request where
  "notes_move = \<lparr>mc_memory_id = 100, mc_dst_env_id = 2, mc_copy_tags = True, mc_copy_provenance = True,
     mc_create_lineage_edge = False, mc_preserve_timestamps = False, mc_re_embed_if_model_mismatch = False, mc_copy_lineage = False\<rparr>"

lemma mem_move_without_redirect_fails_witness:
  "\<exists>e. mem_move (\<lambda>s. s) (\<lambda>i. []) (\<lambda>a b c. Inr (Some [0])) (\<lambda>m a b. Inr (Some [0])) (\<lambda>c w. (w @ [c], None)) notes_settings 9
      (notes_ctx\<lparr>ctx_attached_env_ids := []\<rparr>) notes_move False notes_one [] = Inl e"
  by (rule mem_move_without_redirect_fails [OF notes_history notes_sinks])

end
