(* ===== verification/VectorIndex.thy ===== *)
theory VectorIndex
  imports MemoryProps
begin

text \<open>
  From the outbox to the vector store: the memory events of a database, run through the vector
  handler in the order they were written, build the index. In any history of tool calls that index
  holds exactly the visible memories that have text to embed, each with its current fields, the
  salience apart, which reads change without an event.
\<close>

type_synonym vector_index = "uuid \<times> uuid \<Rightarrow> payload option"

text \<open>What the calls mean for a store: a point is its payload.\<close>

fun apply_call :: "sink_call \<Rightarrow> vector_index \<Rightarrow> vector_index" where
  "apply_call (VectorDelete env pt) ix = ix((env, pt) := None)"
| "apply_call (VectorUpsert env pt vs p) ix = ix((env, pt) := Some p)"
| "apply_call c ix = ix"

definition leased_row :: "outbox_row \<Rightarrow> leased_event" where
  "leased_row r = \<lparr>le_event_id = ob_event_id r, le_sink = SK_qdrant, le_aggregate_type = ob_aggregate_type r,
     le_aggregate_id = ob_aggregate_id r, le_aggregate_version = ob_aggregate_version r, le_env_id = ob_env_id r,
     le_op = ob_op r, le_payload = ob_payload r, le_attempt_count = 0, le_created_at = ob_created_at r\<rparr>"

fun replay :: "embedder \<Rightarrow> outbox_row list \<Rightarrow> vector_index \<Rightarrow> vector_index res" where
  "replay emb [] ix = Inr ix"
| "replay emb (r # rs) ix =
     bindE (handle_qdrant_event emb (leased_row r)) (\<lambda>calls. replay emb rs (fold apply_call calls ix))"

lemma replay_snoc:
  "replay emb (rs @ [r]) ix =
     bindE (replay emb rs ix) (\<lambda>ix'. bindE (handle_qdrant_event emb (leased_row r)) (\<lambda>calls. Inr (fold apply_call calls ix')))"
  by (induction rs arbitrary: ix) (auto simp: bindE_def split: sum.splits)

text \<open>The point an event leaves.\<close>

definition event_point :: "embedder \<Rightarrow> outbox_row \<Rightarrow> payload option" where
  "event_point emb r =
     (if is_tombstone_event (leased_row r) \<or> embed_text (ob_payload r) = [] then None
      else Some (qdrant_payload (leased_row r) (trigger_text (ob_payload r)) emb))"

lemma handler_point:
  assumes "handle_qdrant_event emb (leased_row r) = Inr calls"
  shows "fold apply_call calls ix = ix((ob_env_id r, ob_aggregate_id r) := event_point emb r)"
  using assms unfolding handle_qdrant_event_def Let_def event_point_def
  by (auto simp: leased_row_def elim!: bindE_elims split: if_splits)

lemma replay_last:
  assumes "replay emb evs Map.empty = Inr ix"
    and "\<And>r q. r \<in> set evs \<Longrightarrow> q \<in> set evs \<Longrightarrow> ob_aggregate_id q = ob_aggregate_id r \<Longrightarrow> ob_env_id q = ob_env_id r"
  shows "ix (env, i) = (case last_event evs i of None \<Rightarrow> None
     | Some r \<Rightarrow> if ob_env_id r = env then event_point emb r else None)"
  using assms
proof (induction evs arbitrary: ix rule: rev_induct)
  case Nil
  then show ?case by auto
next
  case (snoc r evs)
  obtain ix0 calls where s: "replay emb evs Map.empty = Inr ix0" "handle_qdrant_event emb (leased_row r) = Inr calls"
      "ix = fold apply_call calls ix0"
    using snoc.prems(1) unfolding replay_snoc by (elim bindE_elims) blast
  have IH: "ix0 (env, i) = (case last_event evs i of None \<Rightarrow> None
     | Some r \<Rightarrow> if ob_env_id r = env then event_point emb r else None)"
    by (rule snoc.IH [OF s(1)]) (rule snoc.prems(2); simp)
  have env: "ob_env_id q = ob_env_id r" if "last_event evs i = Some q" "ob_aggregate_id r = i" for q
    using last_event_SomeD [OF that(1)] that(2) snoc.prems(2) [of r q] by simp
  show ?case
    using IH env by (auto simp: s(3) handler_point [OF s(2)] split: option.splits)
qed

text \<open>The point of a memory, its fields those of the row.\<close>

definition memory_text :: "memory \<Rightarrow> string" where
  "memory_text m = embed_text [(''title'', opt_json JStr (m_title m)), (''body'', JStr (m_body m))]"

definition memory_point :: "embedder \<Rightarrow> memory \<Rightarrow> string list \<Rightarrow> payload" where
  "memory_point emb m tags =
     (let trig = strip (case m_trigger_description m of None \<Rightarrow> [] | Some t \<Rightarrow> t) in
      [(''memory_id'', JUuid (m_id m)),
       (''env_id'', JUuid (m_env_id m)),
       (''kind'', JStr (memory_kind_value (m_kind m))),
       (''status'', JStr (memory_status_value (m_status m))),
       (''title'', opt_json JStr (m_title m)),
       (''trigger_description'', if trig \<noteq> [] then JStr trig else JNull),
       (''has_trigger_description'', JBool (trig \<noteq> [])),
       (''tags'', texts tags),
       (''salience'', JReal (m_salience m)),
       (''confidence'', JReal (m_confidence m)),
       (''pinned'', JBool (m_pinned m)),
       (''version'', JInt (m_version m)),
       (''embedding_model_id'', JStr (emb_model_id emb)),
       (''created_at'', JTime (m_created_at m)),
       (''updated_at'', JTime (m_updated_at m))])"

lemma payload_fields [simp]:
  "jget (projection_payload m tags model) ''kind'' = JStr (memory_kind_value (m_kind m))"
  "jget (projection_payload m tags model) ''status'' = JStr (memory_status_value (m_status m))"
  "jget (projection_payload m tags model) ''title'' = opt_json JStr (m_title m)"
  "jget (projection_payload m tags model) ''body'' = JStr (m_body m)"
  "jget (projection_payload m tags model) ''trigger_description'' = opt_json JStr (m_trigger_description m)"
  "jget (projection_payload m tags model) ''tags'' = texts tags"
  "jget (projection_payload m tags model) ''salience'' = JReal (m_salience m)"
  "jget (projection_payload m tags model) ''confidence'' = JReal (m_confidence m)"
  "jget (projection_payload m tags model) ''pinned'' = JBool (m_pinned m)"
  "jget (projection_payload m tags model) ''created_at'' = JTime (m_created_at m)"
  "jget (projection_payload m tags model) ''updated_at'' = JTime (m_updated_at m)"
  by (simp_all add: jget_def projection_payload_def)

lemma payload_text: "embed_text (projection_payload m tags model) = memory_text m"
  by (simp add: memory_text_def embed_text_def text_field_def) (simp add: jget_def)

lemma payload_trigger:
  "trigger_text (projection_payload m tags model) = strip (case m_trigger_description m of None \<Rightarrow> [] | Some t \<Rightarrow> t)"
  by (simp add: trigger_text_def text_field_def opt_json_def split: option.splits)

lemma truthy_texts: "\<not> truthy (texts tags) \<Longrightarrow> JList [] = texts tags"
  by (cases tags) (simp_all add: texts_def)

lemma snapshot_point:
  assumes "snapshot_event m v op tags row" and "v = m_version m" and "op = OP_tombstone \<longleftrightarrow> \<not> visible_in_projection (m_status m)"
  shows "event_point emb row = (if visible_in_projection (m_status m) \<and> memory_text m \<noteq> [] then Some (memory_point emb m tags) else None)"
proof -
  obtain model where row: "ob_payload row = projection_payload m tags model" "ob_aggregate_id row = m_id m"
      "ob_aggregate_version row = m_version m" "ob_env_id row = m_env_id m" "ob_op row = op"
    using assms(1,2) by (auto simp: snapshot_event_def)
  have "is_tombstone_event (leased_row row) \<longleftrightarrow> \<not> visible_in_projection (m_status m)"
    using assms(3) by (cases "m_status m")
      (simp_all add: is_tombstone_event_def leased_row_def row text_field_def tombstone_statuses_def visible_in_projection_def
        lower_def lower_char_def)
  moreover have "qdrant_payload (leased_row row) (trigger_text (ob_payload row)) emb = memory_point emb m tags"
    unfolding qdrant_payload_def Let_def memory_point_def row payload_trigger
    by (simp add: leased_row_def row truthy_texts)
  ultimately show ?thesis by (simp add: event_point_def row payload_text)
qed

lemma memory_text_content: "content m0 = content m \<Longrightarrow> memory_text m0 = memory_text m"
  by (cases m0; cases m) (simp add: content_def memory_text_def)

lemma memory_point_content:
  "content m0 = content m \<Longrightarrow> memory_point emb m0 tags = memory_point emb (m\<lparr>m_salience := m_salience m0\<rparr>) tags"
  by (cases m0; cases m) (simp add: content_def memory_point_def)

text \<open>C4: The vector index mirrors the memories: replaying a history's outbox through the vector
  handler, if every event is handled, gives an index with a point for exactly the memories that are
  visible and have text to embed, under their own environment and id; every field of the point is the
  memory's current one, the tags included, except the salience: a read changes the salience of the row without an
  event, so the point may hold an earlier one.\<close>

theorem index_mirrors_memories:
  assumes "memory_history st (d # ds)" and "resolve_sinks_for AT_memory st \<noteq> []"
    and "replay emb (memory_events d) Map.empty = Inr ix"
  shows "(\<forall>env i. ix (env, i) \<noteq> None \<longleftrightarrow>
      (\<exists>m \<in> set (memories d). m_id m = i \<and> m_env_id m = env \<and> visible_in_projection (m_status m) \<and> memory_text m \<noteq> [])) \<and>
    (\<forall>m \<in> set (memories d). \<forall>p. ix (m_env_id m, m_id m) = Some p \<longrightarrow>
      (\<exists>tags salience. set tags = set (load_tag_names d (m_id m)) \<and> p = memory_point emb (m\<lparr>m_salience := salience\<rparr>) tags))"
proof -
  have inv: "projected (ledger_of d)" "log_ok (memory_events d)" "rows_ok (ledger_of d)"
    using history_state(1) [OF assms(1,2), of d] by (simp_all add: ledger_inv_def)
  have envs: "ob_env_id q = ob_env_id r"
    if "r \<in> set (memory_events d)" "q \<in> set (memory_events d)" "ob_aggregate_id q = ob_aggregate_id r" for r q
    using inv(2) that unfolding log_ok_def by blast
  have ix: "ix (env, i) = (case last_event (memory_events d) i of None \<Rightarrow> None
     | Some r \<Rightarrow> if ob_env_id r = env then event_point emb r else None)" for env i
    by (rule replay_last [OF assms(3) envs])
  have here: "\<exists>m0 tags. content m0 = content m \<and> set tags = set (load_tag_names d (m_id m)) \<and>
      ix (env, m_id m) = (if m_env_id m = env \<and> visible_in_projection (m_status m) \<and> memory_text m \<noteq> []
        then Some (memory_point emb m0 tags) else None)" if m: "m \<in> set (memories d)" for m env
  proof -
    have m': "m \<in> set (lg_memories (ledger_of d))" using m by simp
    obtain row where last: "last_event (lg_events (ledger_of d)) (m_id m) = Some row" and row: "describes (ledger_of d) row m"
      by (rule projectedD [OF inv(1) m'])
    obtain m0 tags op where d: "content m0 = content m" "snapshot_event m0 (m_version m) op tags row"
        "set tags = tag_set d (m_id m)" "op = OP_tombstone \<longleftrightarrow> \<not> visible_in_projection (m_status m)"
      using row unfolding describes_def ledger_of_simps by (elim exE conjE)
    note f = content_fields(1-4) [OF d(1)] memory_text_content [OF d(1)]
    have "event_point emb row = (if visible_in_projection (m_status m0) \<and> memory_text m0 \<noteq> [] then Some (memory_point emb m0 tags) else None)"
      by (rule snapshot_point [OF d(2)]) (simp_all only: d(4) f)
    moreover have "ob_env_id row = m_env_id m" using d(2) f(4) unfolding snapshot_event_def by metis
    ultimately have "ix (env, m_id m) = (if m_env_id m = env \<and> visible_in_projection (m_status m) \<and> memory_text m \<noteq> []
        then Some (memory_point emb m0 tags) else None)"
      using last f by (simp add: ix)
    then show ?thesis using d(1,3) unfolding load_tag_names_set by blast
  qed
  have "\<exists>tags salience. set tags = set (load_tag_names d (m_id m)) \<and> p = memory_point emb (m\<lparr>m_salience := salience\<rparr>) tags"
    if m: "m \<in> set (memories d)" and pt: "ix (m_env_id m, m_id m) = Some p" for m p
  proof -
    obtain m0 tags where t: "content m0 = content m" "set tags = set (load_tag_names d (m_id m))" "p = memory_point emb m0 tags"
      using here [OF m, of "m_env_id m"] pt by (auto split: if_splits)
    show ?thesis by (intro exI [of _ tags] exI [of _ "m_salience m0"] conjI t(2)) (simp only: t(3) memory_point_content [OF t(1)])
  qed
  moreover have "ix (env, i) \<noteq> None \<longleftrightarrow>
      (\<exists>m \<in> set (memories d). m_id m = i \<and> m_env_id m = env \<and> visible_in_projection (m_status m) \<and> memory_text m \<noteq> [])" for env i
  proof (cases "i \<in> m_id ` set (memories d)")
    case True
    then obtain m where m: "m \<in> set (memories d)" "m_id m = i" by auto
    have "q = m" if "q \<in> set (memories d)" "m_id q = i" for q
      using ids_distinct [OF inv(3), of q m] that m by simp
    then have "(\<exists>m \<in> set (memories d). m_id m = i \<and> m_env_id m = env \<and> visible_in_projection (m_status m) \<and> memory_text m \<noteq> [])
        \<longleftrightarrow> m_env_id m = env \<and> visible_in_projection (m_status m) \<and> memory_text m \<noteq> []"
      using m by blast
    moreover obtain m0 tags where "ix (env, m_id m) = (if m_env_id m = env \<and> visible_in_projection (m_status m) \<and> memory_text m \<noteq> []
        then Some (memory_point emb m0 tags) else None)"
      using here [OF m(1)] by blast
    ultimately show ?thesis using m(2) by simp
  next
    case False
    have gone: "event_point emb row = None" if "last_event (memory_events d) i = Some row" for row
    proof -
      have "ob_op row = OP_tombstone"
        using inv(1) that False last_event_SomeD [OF that] unfolding projected_def by simp
      then show ?thesis by (simp add: event_point_def is_tombstone_event_def leased_row_def)
    qed
    then have "ix (env, i) = None" by (simp add: ix split: option.split)
    then show ?thesis using False by (metis imageI)
  qed
  ultimately show ?thesis by blast
qed

text \<open>The store of the running example, embedded by a constant model.\<close>

definition notes_embedder :: embedder where
  "notes_embedder = \<lparr>emb_model_id = ''e5'', emb_dimension = 1, emb_embed_texts = (\<lambda>ts. Inr (map (\<lambda>t. [0]) ts))\<rparr>"

lemma notes_replay: "replay notes_embedder (memory_events notes_one) Map.empty = Inr (Map.empty((1, 100) := Some (memory_point notes_embedder note_row [])))"
  by (simp add: memory_events_def notes_one_def handle_qdrant_event_def Let_def leased_row_def is_tombstone_event_def
      tombstone_statuses_def text_field_def payload_text payload_trigger qdrant_payload_def memory_point_def note_row_def new_memory_def
      notes_write_def notes_embedder_def memory_text_def embed_text_def jget_def opt_json_def strip_def is_space_def lower_def
      lower_char_def texts_def projection_payload_def trigger_text_def)

lemma index_mirrors_memories_witness:
  "\<exists>ix. replay notes_embedder (memory_events notes_one) Map.empty = Inr ix \<and> ix (1, 100) \<noteq> None \<and> ix (1, 101) = None"
proof -
  have "memories notes_one = [note_row]" "m_id note_row = 100" by (simp_all add: notes_one_def note_row_def new_memory_def)
  then show ?thesis
    using notes_replay index_mirrors_memories [OF notes_history notes_sinks notes_replay] by fastforce
qed

end
