(* ===== verification/HardDeleteProps.thy ===== *)
theory HardDeleteProps
  imports MemoryProps
begin

text \<open>
  The cascade of \<open>memory_hard_delete\<close>: what the breadth-first collection returns, in which order
  the rows go, and which cascades the foreign key on \<open>superseded_by\<close> makes impossible.
\<close>

subsection \<open>The collection\<close>

text \<open>Memory \<open>j\<close> depends on memory \<open>i\<close>: lineage from \<open>i\<close> to \<open>j\<close>, or \<open>j\<close> superseded by \<open>i\<close>.\<close>

definition depends :: "db \<Rightarrow> (uuid \<times> uuid) set" where
  "depends d = {(i, m_id m) | i m. m \<in> set (memories d) \<and>
     (m_superseded_by m = Some i \<or> (\<exists>l \<in> set (memory_lineage d). ln_parent l = i \<and> ln_child l = m_id m))}"

lemma image_other_than: "f ` {e \<in> A. f e \<noteq> k} = f ` A - {k}"
  by auto

lemma first_entries_ids: "(\<lambda>e. m_id (fst e)) ` set (first_entries es) = (\<lambda>e. m_id (fst e)) ` set es"
proof (induction es rule: first_entries.induct)
  case (2 m why rest)
  then show ?case using image_other_than [of "\<lambda>e. m_id (fst e)" "set (first_entries rest)" "m_id m"] by simp
qed simp

lemma dependents_ids: "(\<lambda>e. m_id (fst e)) ` set (load_forward_hard_delete_dependents d i) = depends d `` {i}"
  unfolding load_forward_hard_delete_dependents_def first_entries_ids depends_def by force

lemma visit_dependents_spec:
  assumes "visit_dependents ctx req depth deps visited queue = Inr (visited', queue')"
    and "distinct (map cd_id visited)"
  shows "\<exists>new. visited' = visited @ new \<and> queue' = queue @ new \<and> distinct (map cd_id visited') \<and>
    cd_id ` set new \<subseteq> (\<lambda>e. m_id (fst e)) ` set deps \<and> (\<lambda>e. m_id (fst e)) ` set deps \<subseteq> cd_id ` set visited' \<and>
    (\<forall>c \<in> set new. cd_depth c = depth \<and> depth \<le> hd_max_cascade_depth req)"
  using assms
proof (induction ctx req depth deps visited queue rule: visit_dependents.induct)
  case (1 ctx req depth visited queue)
  then show ?case by simp
next
  case (2 ctx req depth m why rest visited queue)
  show ?case
  proof (cases "m_id m \<in> cd_id ` set visited")
    case True
    then have "visit_dependents ctx req depth rest visited queue = Inr (visited', queue')" using "2.prems"(1) by simp
    from "2.IH"(1) [OF True this "2.prems"(2)]
    obtain new where new: "visited' = visited @ new" "queue' = queue @ new" "distinct (map cd_id visited')"
        "cd_id ` set new \<subseteq> (\<lambda>e. m_id (fst e)) ` set rest" "(\<lambda>e. m_id (fst e)) ` set rest \<subseteq> cd_id ` set visited'"
        "\<forall>c \<in> set new. cd_depth c = depth \<and> depth \<le> hd_max_cascade_depth req"
      by blast
    moreover have "m_id m \<in> cd_id ` set visited'" using True new(1) by auto
    ultimately show ?thesis by (intro exI [of _ new]) auto
  next
    case False
    let ?c = "candidate_of m why depth"
    have run: "visit_dependents ctx req depth rest (visited @ [?c]) (queue @ [?c]) = Inr (visited', queue')"
      and cap: "\<not> hd_max_cascade_count req < length visited + 1"
      and ok: "\<not> hd_max_cascade_depth req < depth" "ensure_env_visible m ctx = Inr ()"
      using "2.prems" False by (auto simp: res_simps split: if_splits)
    have c: "cd_id ?c = m_id m" "cd_depth ?c = depth" by (simp_all add: candidate_of_def)
    have "distinct (map cd_id (visited @ [?c]))" using "2.prems"(2) False c by auto
    from "2.IH"(2) [OF False ok(1,2) rbac_require_simp cap run this]
    obtain new where new: "visited' = (visited @ [?c]) @ new" "queue' = (queue @ [?c]) @ new" "distinct (map cd_id visited')"
        "cd_id ` set new \<subseteq> (\<lambda>e. m_id (fst e)) ` set rest" "(\<lambda>e. m_id (fst e)) ` set rest \<subseteq> cd_id ` set visited'"
        "\<forall>c \<in> set new. cd_depth c = depth \<and> depth \<le> hd_max_cascade_depth req"
      by blast
    then show ?thesis using c ok(1) by (intro exI [of _ "?c # new"]) auto
  qed
qed

text \<open>What the loop keeps: candidates that left the queue have their dependents among the visited.\<close>

definition collect_inv :: "db \<Rightarrow> hard_delete_request \<Rightarrow> uuid \<Rightarrow> hard_delete_candidate list \<Rightarrow> hard_delete_candidate list \<Rightarrow> bool" where
  "collect_inv d req i visited queue \<longleftrightarrow> distinct (map cd_id visited) \<and> set queue \<subseteq> set visited \<and>
     i \<in> cd_id ` set visited \<and> cd_id ` set visited \<subseteq> (depends d)\<^sup>* `` {i} \<and>
     (\<forall>c \<in> set visited - set queue. depends d `` {cd_id c} \<subseteq> cd_id ` set visited) \<and>
     (\<forall>c \<in> set visited. if cd_id c = i then cd_depth c = 0 else 0 < cd_depth c \<and> cd_depth c \<le> hd_max_cascade_depth req)"

lemma collect_loop_inv:
  assumes "collect_loop d ctx req visited queue = Inr visited'" and "collect_inv d req i visited queue"
  shows "collect_inv d req i visited' [] \<and> (visited' = visited \<or> length visited' \<le> hd_max_cascade_count req)"
  using assms
proof (induction d ctx req visited queue rule: collect_loop.induct)
  case (1 d ctx req visited)
  then show ?case by simp
next
  case (2 d ctx req visited current queue)
  let ?deps = "load_forward_hard_delete_dependents d (cd_id current)"
  obtain v q where v: "visit_dependents ctx req (cd_depth current + 1) ?deps visited queue = Inr (v, q)"
      and run: "collect_loop d ctx req v q = Inr visited'"
    using "2.prems"(1) by (auto elim!: bindE_InrE)
  note inv = "2.prems"(2) [unfolded collect_inv_def]
  obtain new where new: "v = visited @ new" "q = queue @ new" "distinct (map cd_id v)"
      "cd_id ` set new \<subseteq> depends d `` {cd_id current}" "depends d `` {cd_id current} \<subseteq> cd_id ` set v"
      "\<forall>c \<in> set new. cd_depth c = cd_depth current + 1 \<and> cd_depth current + 1 \<le> hd_max_cascade_depth req"
    using visit_dependents_spec [OF v] inv unfolding dependents_ids by blast
  have cur: "current \<in> set visited" using inv by auto
  then have reach: "(i, cd_id current) \<in> (depends d)\<^sup>*" using inv by blast
  have "collect_inv d req i v q"
    unfolding collect_inv_def
  proof (intro conjI)
    show "distinct (map cd_id v)" by (rule new(3))
    show "set q \<subseteq> set v" using inv new(1,2) by auto
    show "i \<in> cd_id ` set v" using inv new(1) by auto
    have "cd_id ` set new \<subseteq> (depends d)\<^sup>* `` {i}" using new(4) reach by (auto intro: rtrancl_into_rtrancl)
    then show "cd_id ` set v \<subseteq> (depends d)\<^sup>* `` {i}" using inv new(1) by auto
    show "\<forall>c \<in> set v - set q. depends d `` {cd_id c} \<subseteq> cd_id ` set v"
    proof
      fix c assume c: "c \<in> set v - set q"
      then have c': "c \<in> set visited" "c \<notin> set queue" using new(1,2) by auto
      show "depends d `` {cd_id c} \<subseteq> cd_id ` set v"
      proof (cases "c = current")
        case True
        then show ?thesis using new(5) by simp
      next
        case False
        then have "depends d `` {cd_id c} \<subseteq> cd_id ` set visited" using inv c' by auto
        then show ?thesis using new(1) by auto
      qed
    qed
    show "\<forall>c \<in> set v. if cd_id c = i then cd_depth c = 0 else 0 < cd_depth c \<and> cd_depth c \<le> hd_max_cascade_depth req"
    proof
      fix c assume "c \<in> set v"
      then consider "c \<in> set visited" | "c \<in> set new" using new(1) by auto
      then show "if cd_id c = i then cd_depth c = 0 else 0 < cd_depth c \<and> cd_depth c \<le> hd_max_cascade_depth req"
      proof cases
        case 1
        then show ?thesis using inv by blast
      next
        case 2
        have "cd_id c \<notin> cd_id ` set visited" using new(1,3) 2 by auto
        then have "cd_id c \<noteq> i" using inv by auto
        then show ?thesis using 2 new(6) by auto
      qed
    qed
  qed
  then have IH: "collect_inv d req i visited' [] \<and> (visited' = v \<or> length visited' \<le> hd_max_cascade_count req)"
    using "2.IH"[of "(v, q)"] v run by simp
  moreover have "v = visited \<or> length v \<le> hd_max_cascade_count req"
    using visit_dependents_shape [OF v] by auto
  ultimately show ?case by auto
qed

lemma order_candidates [simp]:
  "set (order_hard_delete_candidates cs) = set cs" "length (order_hard_delete_candidates cs) = length cs"
  "distinct (map cd_id (order_hard_delete_candidates cs)) = distinct (map cd_id cs)"
  by (simp_all add: order_hard_delete_candidates_def distinct_map)

lemma order_candidates_depth: "sorted_wrt (\<lambda>a b. cd_depth b \<le> cd_depth a) (order_hard_delete_candidates cs)"
proof -
  have "sorted (map (\<lambda>c. (- int (cd_depth c), cd_id c)) (order_hard_delete_candidates cs))"
    by (simp add: order_hard_delete_candidates_def)
  then show ?thesis
    unfolding sorted_map by (rule sorted_wrt_mono_rel [rotated]) (auto simp: less_eq_prod_def)
qed

text \<open>A successful collection returns exactly the memories reachable over lineage and successor
  links, each once, deeper ones first and the target last, within both caps.\<close>

lemma cascade_collect_spec:
  assumes "cascade_collect ctx i req d = Inr affected"
  shows "distinct (map cd_id affected) \<and> set (map cd_id affected) = (depends d)\<^sup>* `` {i} \<and>
    sorted_wrt (\<lambda>a b. cd_depth b \<le> cd_depth a) affected \<and> affected \<noteq> [] \<and> cd_id (last affected) = i \<and>
    list_all (\<lambda>c. cd_depth c \<le> hd_max_cascade_depth req) affected \<and> length affected \<le> max 1 (hd_max_cascade_count req)"
proof -
  obtain m visited where m: "lookup m_id i (memories d) = Some m"
      and run: "collect_loop d ctx req [candidate_of m ''target'' 0] [candidate_of m ''target'' 0] = Inr visited"
      and aff: "affected = order_hard_delete_candidates visited"
    using assms unfolding cascade_collect_def collect_hard_delete_affected_def load_memory_def
    by (auto elim!: bindE_elims simp: some_or_eq_Inr)
  have "m_id m = i" using lookup_SomeD [OF m] by simp
  then have "collect_inv d req i [candidate_of m ''target'' 0] [candidate_of m ''target'' 0]"
    by (simp add: collect_inv_def candidate_of_def)
  from collect_loop_inv [OF run this]
  have inv: "collect_inv d req i visited []" and len: "length visited \<le> max 1 (hd_max_cascade_count req)" by auto
  note inv' = inv [unfolded collect_inv_def]
  have "(depends d)\<^sup>* `` {i} \<subseteq> cd_id ` set visited"
  proof
    fix j assume "j \<in> (depends d)\<^sup>* `` {i}"
    then have "(i, j) \<in> (depends d)\<^sup>*" by simp
    then show "j \<in> cd_id ` set visited"
      by (induction rule: rtrancl_induct) (use inv' in fastforce)+
  qed
  then have ids: "set (map cd_id affected) = (depends d)\<^sup>* `` {i}" using inv' by (auto simp: aff)
  have ne: "affected \<noteq> []" using inv' by (auto simp: aff simp flip: set_empty)
  have sorted: "sorted_wrt (\<lambda>a b. cd_depth b \<le> cd_depth a) affected" unfolding aff by (rule order_candidates_depth)
  obtain r where r: "r \<in> set affected" "cd_id r = i" using inv' by (auto simp: aff)
  have depth: "if cd_id c = i then cd_depth c = 0 else 0 < cd_depth c \<and> cd_depth c \<le> hd_max_cascade_depth req"
    if "c \<in> set affected" for c using inv' that by (auto simp: aff)
  have "cd_depth (last affected) \<le> cd_depth r"
  proof (cases "r = last affected")
    case False
    have "affected = butlast affected @ [last affected]" using ne by simp
    moreover have "r \<in> set (butlast affected)" using r(1) False ne by (metis UnE append_butlast_last_id empty_iff empty_set set_ConsD set_append)
    ultimately show ?thesis using sorted by (metis list.set_intros(1) sorted_wrt_append)
  qed simp
  then have "cd_id (last affected) = i" using depth [OF r(1)] depth [OF last_in_set [OF ne]] r(2) by (auto split: if_splits)
  moreover have "list_all (\<lambda>c. cd_depth c \<le> hd_max_cascade_depth req) affected"
    unfolding list_all_iff
  proof
    fix c assume "c \<in> set affected"
    from depth [OF this] show "cd_depth c \<le> hd_max_cascade_depth req" by (cases "cd_id c = i") simp_all
  qed
  ultimately show ?thesis using ids ne sorted inv' len by (auto simp: aff)
qed

subsection \<open>The order of the deletes\<close>

lemma delete_one_rows:
  assumes "delete_one sha st now ctx reason corr m d = Inr (d', tomb)"
  shows "memories d' = delete_where (\<lambda>r. m_id r = m_id m) (memories d)"
    and "\<forall>r \<in> set (memories d). m_id r \<noteq> m_id m \<longrightarrow> m_superseded_by r \<noteq> Some (m_id m)"
proof -
  obtain t d1 a b tags model d3 where s: "insert_tombstone t (draw_uuid d) = Inr d1"
      "enqueue_memory st now m (m_version m + 1) OP_tombstone tags model (record_audit ''hard_delete'' m (ctx_agent_id ctx) a b None d1) = Inr d3"
      "delete_memory_row (m_id m) d3 = Inr d'"
    using assms unfolding delete_one_def Let_def by (auto elim!: bindE_elims)
  have "memories d3 = memories d"
    using enqueue_memory_memories [OF s(2)] mem_tables_eq(2) [OF insert_tombstone_tables [OF s(1)]]
      mem_tables_eq(2) [OF record_audit_tables] mem_tables_eq(2) [OF draw_uuid_tables] by metis
  then show "memories d' = delete_where (\<lambda>r. m_id r = m_id m) (memories d)"
    "\<forall>r \<in> set (memories d). m_id r \<noteq> m_id m \<longrightarrow> m_superseded_by r \<noteq> Some (m_id m)"
    using delete_memory_row_spec(2,6) [OF s(3)] by simp_all
qed

lemma cascade_delete_ConsE:
  assumes "cascade_delete sha st now ctx i reason corr (c # cs) tomb d = Inr (d', t)"
  obtains m d1 u tomb' where "lookup m_id (cd_id c) (memories d) = Some m" "m_version m = cd_version c"
    "delete_one sha st now ctx reason (Some corr) m d = Inr (d1, u)"
    "cascade_delete sha st now ctx i reason corr cs tomb' d1 = Inr (d', t)"
  using assms by (auto elim!: bindE_elims simp: some_or_eq_Inr raise_if_eq_Inr)

text \<open>A memory goes only after every memory that names it as its successor.\<close>

lemma cascade_delete_order:
  assumes "cascade_delete sha st now ctx i reason corr (pre @ c # post) tomb d = Inr (d', t)"
    and "r \<in> set (memories d)" and "m_superseded_by r = Some (cd_id c)" and "cd_id c \<noteq> m_id r"
  shows "m_id r \<in> cd_id ` set pre"
  using assms(1,2)
proof (induction pre arbitrary: d tomb)
  case Nil
  then have "cascade_delete sha st now ctx i reason corr (c # post) tomb d = Inr (d', t)" by simp
  then obtain m d1 u tomb' where s: "lookup m_id (cd_id c) (memories d) = Some m"
      "delete_one sha st now ctx reason (Some corr) m d = Inr (d1, u)"
    by (rule cascade_delete_ConsE)
  then have "m_id m = cd_id c" by (auto dest: lookup_SomeD)
  then have "m_superseded_by r \<noteq> Some (cd_id c)"
    using delete_one_rows(2) [OF s(2)] Nil(2) assms(4) by auto
  then show ?case using assms(3) by contradiction
next
  case (Cons b pre)
  then have "cascade_delete sha st now ctx i reason corr (b # (pre @ c # post)) tomb d = Inr (d', t)" by simp
  then obtain m d1 u tomb' where s: "lookup m_id (cd_id b) (memories d) = Some m"
      "delete_one sha st now ctx reason (Some corr) m d = Inr (d1, u)"
      "cascade_delete sha st now ctx i reason corr (pre @ c # post) tomb' d1 = Inr (d', t)"
    by (rule cascade_delete_ConsE)
  have "m_id m = cd_id b" using s(1) by (auto dest: lookup_SomeD)
  then have "r \<in> set (memories d1) \<or> m_id r = cd_id b" using delete_one_rows(1) [OF s(2)] Cons.prems(2) by auto
  then show ?case using Cons.IH [OF s(3)] by auto
qed

lemma cascade_delete_ids:
  assumes "cascade_delete sha st now ctx i reason corr cs tomb d = Inr (d', t)"
  shows "set (memories d') = {r \<in> set (memories d). m_id r \<notin> cd_id ` set cs}"
  using assms
proof (induction cs arbitrary: d tomb)
  case Nil
  then show ?case by simp
next
  case (Cons c cs)
  obtain m d1 u tomb' where s: "lookup m_id (cd_id c) (memories d) = Some m"
      "delete_one sha st now ctx reason (Some corr) m d = Inr (d1, u)"
      "cascade_delete sha st now ctx i reason corr cs tomb' d1 = Inr (d', t)"
    using Cons.prems by (rule cascade_delete_ConsE)
  have "m_id m = cd_id c" using s(1) by (auto dest: lookup_SomeD)
  then show ?case using Cons.IH [OF s(3)] delete_one_rows(1) [OF s(2)] by auto
qed

text \<open>C7: A cascading hard delete that goes through removes exactly the target and the memories that
  depend on it, over lineage and successor links in the state it collected from; every other memory
  stays as it is. The report lists each removed id once, deeper ones first and the target last,
  within the depth cap and the row cap of the request.\<close>

theorem cascade_removes_dependents:
  assumes "memory_hard_delete sha st now ctx i req d0 d = Inr (d', resp)" and "hd_cascade req" and "\<not> hd_dry_run req"
  shows "set (memories d') = {r \<in> set (memories d). (i, m_id r) \<notin> (depends d0)\<^sup>*} \<and>
    set (map cd_id (hr_affected resp)) = (depends d0)\<^sup>* `` {i} \<and> distinct (map cd_id (hr_affected resp)) \<and>
    sorted_wrt (\<lambda>a b. cd_depth b \<le> cd_depth a) (hr_affected resp) \<and> cd_id (last (hr_affected resp)) = i \<and>
    list_all (\<lambda>c. cd_depth c \<le> hd_max_cascade_depth req) (hr_affected resp) \<and>
    length (hr_affected resp) \<le> max 1 (hd_max_cascade_count req)"
proof -
  obtain affected t where c: "cascade_collect ctx i req d0 = Inr affected"
      "cascade_delete sha st now ctx i (strip (hd_reason req)) (next_uuid d) affected None (draw_uuid d) = Inr (d', t)"
      "hr_affected resp = affected"
    using assms unfolding memory_hard_delete_def hard_delete_cascade_def Let_def
    by (auto elim!: bindE_elims)
  note aff = cascade_collect_spec [OF c(1)]
  have "set (memories d') = {r \<in> set (memories d). m_id r \<notin> cd_id ` set affected}"
    using cascade_delete_ids [OF c(2)] by (simp add: draw_uuid_def)
  moreover have "cd_id ` set affected = (depends d0)\<^sup>* `` {i}" using aff by simp
  ultimately have "set (memories d') = {r \<in> set (memories d). (i, m_id r) \<notin> (depends d0)\<^sup>*}" by auto
  then show ?thesis using aff c(3) by simp
qed

text \<open>Two memories, the second derived from the first.\<close>

definition notes_pair :: db where
  "notes_pair = notes_one\<lparr>memories := [note_row, note_row\<lparr>m_id := 101\<rparr>],
     memory_lineage := [\<lparr>ln_parent = 100, ln_child = 101, ln_relation = LR_derived_from, ln_created_at = 6\<rparr>]\<rparr>"

definition notes_delete :: hard_delete_request where
  "notes_delete = \<lparr>hd_expected_version = 1, hd_reason = ''x'', hd_confirm_destroy = True, hd_cascade = True,
     hd_max_cascade_depth = 5, hd_max_cascade_count = 10, hd_dry_run = False\<rparr>"

lemmas delete_defs = memory_hard_delete_def hard_delete_cascade_def cascade_collect_def collect_hard_delete_affected_def
  load_forward_hard_delete_dependents_def candidate_of_def order_hard_delete_candidates_def delete_one_def
  insert_tombstone_def delete_memory_row_def load_memory_def ensure_env_visible_def load_tag_names_def

lemma notes_delete_ok:
  "isl (memory_hard_delete (\<lambda>s. s) notes_settings 9 notes_ctx 100 notes_delete notes_pair notes_pair) = False"
  by (simp add: delete_defs write_defs notes_defs notes_delete_def notes_pair_def notes_one_def note_row_def Let_def
      lookup_def strip_def is_space_def node_of_memory_def update_where_def delete_where_def less_eq_prod_def)

lemma cascade_removes_dependents_witness:
  "\<exists>d' resp. memory_hard_delete (\<lambda>s. s) notes_settings 9 notes_ctx 100 notes_delete notes_pair notes_pair = Inr (d', resp) \<and>
     memories d' = [] \<and> set (map cd_id (hr_affected resp)) = {100, 101}"
proof -
  obtain d' resp where run: "memory_hard_delete (\<lambda>s. s) notes_settings 9 notes_ctx 100 notes_delete notes_pair notes_pair = Inr (d', resp)"
    using notes_delete_ok by (metis prod.collapse sum.collapse(2))
  have "hd_cascade notes_delete" "\<not> hd_dry_run notes_delete" by (simp_all add: notes_delete_def)
  note t = cascade_removes_dependents [OF run this]
  have ids: "map m_id (memories notes_pair) = [100, 101]" by (simp add: notes_pair_def note_row_def new_memory_def)
  have row: "m_id note_row = 100" "m_superseded_by note_row = None" by (simp_all add: note_row_def new_memory_def)
  have "depends notes_pair = {(k, m_id m) | k m. (m = note_row \<or> m = note_row\<lparr>m_id := 101\<rparr>) \<and> k = 100 \<and> m_id m = 101}"
    by (auto simp: depends_def notes_pair_def row)
  also have "\<dots> = {(100, 101)}"
    by (auto intro: exI [of _ "note_row\<lparr>m_id := 101\<rparr>"])
  finally have dep: "depends notes_pair = {(100, 101)}" .
  have reach: "(depends notes_pair)\<^sup>* `` {100} = {100, 101}"
  proof -
    have "(100, x) \<in> {(100, 101)}\<^sup>* \<Longrightarrow> x = 100 \<or> x = (101 :: uuid)" for x
      by (induction rule: rtrancl_induct) auto
    then show ?thesis unfolding dep by auto
  qed
  have "m_id r \<in> {100, 101}" if "r \<in> set (memories notes_pair)" for r
    using ids that by (metis image_eqI list.set_map list.simps(15) set_empty2)
  then have "(100, m_id r) \<in> (depends notes_pair)\<^sup>*" if "r \<in> set (memories notes_pair)" for r
    using reach that by blast
  then have "set (memories d') = {}" unfolding conjunct1 [OF t] by blast
  then have none: "memories d' = []" by simp
  have "set (map cd_id (hr_affected resp)) = {100, 101}"
    using conjunct1 [OF conjunct2 [OF t]] unfolding reach .
  with run none show ?thesis by (intro exI conjI)
qed

text \<open>A superseded memory cannot be hard-deleted by cascade: its successor is a dependent by
  lineage, hence deleted before it, and the successor column of the memory still points there. So
  the call fails whenever the lineage row of the supersession exists.\<close>

lemma cascade_of_superseded_fails:
  assumes "hd_cascade req" and "\<not> hd_dry_run req" and "(i, j) \<in> depends d0" and "j \<noteq> i"
    and "r \<in> set (memories d)" and "m_id r = i" and "m_superseded_by r = Some j"
  shows "\<exists>e. memory_hard_delete sha st now ctx i req d0 d = Inl e"
proof (cases "memory_hard_delete sha st now ctx i req d0 d")
  case (Inr x)
  obtain affected t d' where c: "cascade_collect ctx i req d0 = Inr affected"
      "cascade_delete sha st now ctx i (strip (hd_reason req)) (next_uuid d) affected None (draw_uuid d) = Inr (d', t)"
    using Inr assms(1,2) unfolding memory_hard_delete_def hard_delete_cascade_def Let_def
    by (auto elim!: bindE_elims)
  note aff = cascade_collect_spec [OF c(1)]
  have "j \<in> set (map cd_id affected)" using aff assms(3) by auto
  then obtain cj pre post where split: "affected = pre @ cj # post" "cd_id cj = j" by (auto dest!: split_list)
  have "m_id r \<in> cd_id ` set pre"
    by (rule cascade_delete_order [OF c(2) [unfolded split(1)], of r]) (use assms split in \<open>simp_all add: draw_uuid_def\<close>)
  moreover have "cd_id (last (cj # post)) = i" using aff split(1) by simp
  moreover have "post \<noteq> []" using calculation(2) split(2) assms(4) by auto
  then have "last (cj # post) \<in> set post" by simp
  ultimately have "\<not> distinct (map cd_id affected)" using assms(6) split(1) by (auto simp: image_iff)
  then show ?thesis using aff by blast
qed simp

lemma cascade_of_superseded_fails_witness:
  "\<exists>e. memory_hard_delete (\<lambda>s. s) notes_settings 9 notes_ctx 100 (notes_delete\<lparr>hd_expected_version := 2\<rparr>) notes_two notes_two = Inl e"
proof -
  obtain r m where two: "memories notes_two = [r, m]" "m_id r = 100" "m_superseded_by r = Some 101" "m_id m = 101"
    by (rule notes_two_rows)
  obtain l where "memory_lineage notes_two = [l]" "ln_parent l = 100" "ln_child l = 101"
    using notes_superseded(2) by (auto simp: map_eq_Cons_conv)
  then have "(100, 101) \<in> depends notes_two" using two unfolding depends_def by auto
  then show ?thesis
    by (rule cascade_of_superseded_fails [rotated 2, where r = r]) (simp_all add: two notes_delete_def)
qed

end
