(* ===== verification/MemoryCalls.thy ===== *)
theory MemoryCalls
  imports MemoryProps
begin

text \<open>
  What single calls of the memory tools do: tag normalization, the two rows a supersede leaves, the
  memory a supersede of a playbook makes, and the redirect of a move.
\<close>

subsection \<open>Tags\<close>

lemma normalize_tags_loop_spec:
  assumes "normalize_tags_loop out tags = Inr res" and "distinct out" and "\<forall>t \<in> set out. stripped_text t \<and> length t \<le> 200"
  shows "distinct res \<and> (\<forall>t \<in> set res. stripped_text t \<and> length t \<le> 200) \<and>
    set res = set out \<union> {strip t | t. t \<in> set tags \<and> strip t \<noteq> []}"
  using assms
proof (induction out tags rule: normalize_tags_loop.induct)
  case (1 out)
  then show ?case by simp
next
  case (2 out raw rest)
  let ?t = "strip raw"
  consider (skip) "?t = [] \<or> ?t \<in> set out" "normalize_tags_loop out rest = Inr res"
    | (take) "\<not> (?t = [] \<or> ?t \<in> set out)" "\<not> 200 < length ?t" "normalize_tags_loop (out @ [?t]) rest = Inr res"
    using "2.prems"(1) by (auto simp: Let_def split: if_splits)
  then show ?case
  proof cases
    case skip
    then show ?thesis using "2.IH"(1) [OF refl skip(1,2) "2.prems"(2,3)] by auto
  next
    case take
    have "distinct (out @ [?t])" "\<forall>t \<in> set (out @ [?t]). stripped_text t \<and> length t \<le> 200"
      using take "2.prems"(2,3) by (auto simp: stripped_text_def)
    from "2.IH"(2) [OF refl take(1,2,3) this] show ?thesis using take(1) by auto
  qed
qed

lemma normalize_tags_loop_idem:
  assumes "distinct (out @ tags)" and "\<forall>t \<in> set tags. stripped_text t \<and> length t \<le> 200"
  shows "normalize_tags_loop out tags = Inr (out @ tags)"
  using assms by (induction tags arbitrary: out) (auto simp: stripped_text_def)

text \<open>Normalized tags are distinct, stripped, non-empty and at most 200 characters long; they are
  exactly the stripped non-empty input tags; and normalizing them again changes nothing.\<close>

lemma normalize_tags_spec:
  assumes "normalize_tags tags = Inr res"
  shows "distinct res \<and> list_all (\<lambda>t. stripped_text t \<and> length t \<le> 200) res \<and>
    set res = {strip t | t. t \<in> set tags \<and> strip t \<noteq> []} \<and> normalize_tags res = Inr res"
proof -
  have s: "distinct res" "\<forall>t \<in> set res. stripped_text t \<and> length t \<le> 200" "set res = {strip t | t. t \<in> set tags \<and> strip t \<noteq> []}"
    using normalize_tags_loop_spec [OF assms [unfolded normalize_tags_def]] by simp_all
  have "normalize_tags res = Inr res"
    using normalize_tags_loop_idem [of "[]" res] s unfolding normalize_tags_def by simp
  then show ?thesis using s by (simp add: list_all_iff)
qed

lemma normalize_tags_spec_witness:
  "normalize_tags [''a '', ''b'', '' a'', '' ''] = Inr [''a'', ''b''] \<and> normalize_tags [''a'', ''b''] = Inr [''a'', ''b'']"
proof -
  have "normalize_tags [''a '', ''b'', '' a'', '' ''] = Inr [''a'', ''b'']"
    by (simp add: normalize_tags_def strip_def is_space_def)
  from this normalize_tags_spec [OF this] show ?thesis by simp
qed

subsection \<open>Supersede\<close>

lemma memory_supersede_rows:
  assumes "memory_supersede sha uuid_text refs st now ctx i v req d0 d = Inr (d', resp)" and "tags_ok d"
  obtains x old meta r where "x = new_memory (next_uuid d) (m_env_id old) req None None meta now"
    "memory_supersede_check ctx i v req d0 = Inr old" "m_id x \<notin> m_id ` set (memories d)"
    "lookup m_id i (memories d) = Some r" "m_version r = v"
    "memories d' = update_where (\<lambda>y. m_id y = i) (mark_superseded (m_id x) (v + 1) now) (memories d @ [x])"
    "\<lparr>ln_parent = i, ln_child = m_id x, ln_relation = LR_supersedes, ln_created_at = now\<rparr> \<in> set (memory_lineage d')"
    "mr_id (snd resp) = m_id x"
proof -
  obtain x f old meta names model d1 d2 d3 d4 n old' d5 a b c e d8 where
    x: "x = new_memory (next_uuid d) (m_env_id old) req None None meta now" and f: "f = mark_superseded (m_id x) (m_version old + 1) now"
    and chk: "memory_supersede_check ctx i v req d0 = Inr old"
    and s: "insert_memory x (draw_uuid d) = Inr d1" "set_new_tags (m_id x) (m_env_id old) names d1 = Inr d2"
      "insert_memory_source (supersede_source uuid_text now ctx (m_id x)) d2 = Inr d3"
      "update_memory_row i v f d3 = Inr (d4, n)" "n \<noteq> 0" "load_memory i d4 = Inr old'"
      "insert_lineage \<lparr>ln_parent = i, ln_child = m_id x, ln_relation = LR_supersedes, ln_created_at = now\<rparr> d4 = Inr d5"
      "enqueue_memory st now x (m_version x) (outbox_op_for MS_active True) names model
         (record_audit ''supersede'' old' (ctx_agent_id ctx) a b c (record_audit ''create'' x (ctx_agent_id ctx) None (Some (audit_snapshot sha x (Some names))) e d5)) = Inr d8"
      "enqueue_memory st now old' (m_version old') (outbox_op_for MS_superseded False) (load_tag_names d3 i) model d8 = Inr d'"
    and resp: "resp = (memory_to_response refs old' (load_tag_names d3 i), memory_to_response refs x names)"
    by (rule memory_supersede_spec [OF assms(1)])
  note new = insert_with_tags [OF assms(2) s(1,2)]
  have m3: "memories d3 = memories d @ [x]"
    using new(3) mem_tables_eq(2) [OF insert_memory_source_tables [OF s(3)]] by simp
  obtain r where r: "lookup m_id i (memories d3) = Some r" "m_version r = v"
      "d4 = d3\<lparr>memories := update_where (\<lambda>x. m_id x = i) f (memories d3)\<rparr>"
    by (rule update_memory_row_spec [OF s(4,5)])
  have after: "memories d' = memories d5" "memory_lineage d' = memory_lineage d5"
  proof -
    have "memories d' = memories d8" "memories d8 = memories d5"
      using enqueue_memory_memories [OF s(9)] enqueue_memory_memories [OF s(8)] mem_tables_eq(2) [OF record_audit_tables] by metis+
    then show "memories d' = memories d5" by simp
    have "memory_lineage y' = memory_lineage y" if "enqueue_memory st now m ver op tags mo y = Inr y'" for m ver op tags mo y y'
      using that unfolding enqueue_memory_def by (auto elim!: bindE_elims dest: enqueue_frame(7))
    from this [OF s(9)] this [OF s(8)] show "memory_lineage d' = memory_lineage d5" by (simp add: record_audit_def Let_def)
  qed
  have d5: "memories d5 = memories d4" by (rule mem_tables_eq(2) [OF insert_lineage_tables [OF s(7)]])
  have old: "m_version old = v" using memory_supersede_check_spec [OF chk] by simp
  have i: "i \<noteq> m_id x"
  proof
    assume "i = m_id x"
    then show False using s(7) by (simp add: insert_lineage_def lineage_violation_def)
  qed
  show ?thesis
  proof (rule that [OF x chk new(6)])
    show "lookup m_id i (memories d) = Some r"
      using r(1) i unfolding m3 lookup_append by (auto split: option.splits if_splits)
    show "m_version r = v" by (rule r(2))
    show "memories d' = update_where (\<lambda>y. m_id y = i) (mark_superseded (m_id x) (v + 1) now) (memories d @ [x])"
      unfolding after(1) d5 r(3) using m3 old by (simp add: f)
    show "\<lparr>ln_parent = i, ln_child = m_id x, ln_relation = LR_supersedes, ln_created_at = now\<rparr> \<in> set (memory_lineage d')"
      unfolding after(2) using s(7) by (auto simp: insert_lineage_def split: option.splits)
    show "mr_id (snd resp) = m_id x" by (simp add: resp memory_to_response_def Let_def)
  qed
qed

text \<open>C9: What a supersede leaves in any history: the old memory, at the expected version and in a
  status the lifecycle table lets be superseded, becomes superseded by a new memory with a fresh id;
  the new one is active, at version 1, in the same environment, with the request's kind, title and
  body, but with no steps and no macro; a lineage row joins the two; no other memory changes.\<close>

theorem supersede_links_successor:
  assumes "memory_history st (d # ds)" and "resolve_sinks_for AT_memory st \<noteq> []" and "d0 \<in> set (d # ds)"
    and "memory_supersede sha uuid_text refs st now ctx i v req d0 d = Inr (d', resp)"
  shows "\<exists>r x. r \<in> set (memories d) \<and> m_id r = i \<and> m_version r = v \<and> is_valid_transition (m_status r) MS_superseded \<and>
    m_id x \<notin> m_id ` set (memories d) \<and> m_id x = mr_id (snd resp) \<and>
    set (memories d') = insert x (insert (mark_superseded (m_id x) (v + 1) now r) {q \<in> set (memories d). m_id q \<noteq> i}) \<and>
    m_status x = MS_active \<and> m_version x = 1 \<and> m_env_id x = m_env_id r \<and> m_kind x = mw_kind req \<and> m_title x = mw_title req \<and>
    m_body x = mw_body req \<and> m_steps x = None \<and> m_macro x = None \<and>
    \<lparr>ln_parent = i, ln_child = m_id x, ln_relation = LR_supersedes, ln_created_at = now\<rparr> \<in> set (memory_lineage d')"
proof -
  note h = history_state [OF assms(1,2)]
  have inv: "ledger_inv (ledger_of d)" "tags_ok d" "ledger_inv (ledger_of d0)" and run: "ledger_step\<^sup>*\<^sup>* (ledger_of d0) (ledger_of d)"
    using h(1,2) [of d] h(1,3) [OF assms(3)] by simp_all
  obtain x old meta r where x: "x = new_memory (next_uuid d) (m_env_id old) req None None meta now"
      and chk: "memory_supersede_check ctx i v req d0 = Inr old" and fresh: "m_id x \<notin> m_id ` set (memories d)"
      and r: "lookup m_id i (memories d) = Some r" "m_version r = v"
      and rows: "memories d' = update_where (\<lambda>y. m_id y = i) (mark_superseded (m_id x) (v + 1) now) (memories d @ [x])"
      and lin: "\<lparr>ln_parent = i, ln_child = m_id x, ln_relation = LR_supersedes, ln_created_at = now\<rparr> \<in> set (memory_lineage d')"
      and resp: "mr_id (snd resp) = m_id x"
    by (rule memory_supersede_rows [OF assms(4) inv(2)])
  have rr: "r \<in> set (memories d)" "m_id r = i" using lookup_SomeD [OF r(1)] by auto
  have old: "old \<in> set (memories d0)" "m_id old = i" "m_version old = v" "is_valid_transition (m_status old) MS_superseded"
    using memory_supersede_check_spec [OF chk] by (auto dest: lookup_SomeD)
  have same: "m_status old = m_status r" "m_env_id old = m_env_id r"
    using stale_read [OF inv(3,1), of old r] ledger_steps_events [OF run] old rr r(2) by auto
  let ?f = "mark_superseded (m_id x) (v + 1) now"
  have one: "q = r" if "q \<in> set (memories d)" "m_id q = i" for q
    using ids_distinct [of "ledger_of d" q r] inv(1) that rr by (simp add: ledger_inv_def)
  have xi: "m_id x \<noteq> i" using fresh rr by auto
  have "(if m_id q = i then ?f q else q) = (if m_id q = i then ?f r else q)" if "q \<in> set (memories d)" for q
    using one [OF that] by simp
  then have "(\<lambda>q. if m_id q = i then ?f q else q) ` set (memories d) = (\<lambda>q. if m_id q = i then ?f r else q) ` set (memories d)"
    by (rule image_cong [OF refl])
  also have "\<dots> = insert (?f r) {q \<in> set (memories d). m_id q \<noteq> i}" using rr by auto
  finally have "set (memories d') = insert x (insert (?f r) {q \<in> set (memories d). m_id q \<noteq> i})"
    unfolding rows update_where_def using xi by simp
  then show ?thesis
    using rr r(2) old(4) same fresh resp lin
    by (intro exI [of _ r] exI [of _ x]) (simp add: x new_memory_def)
qed

lemma notes_supersede_run:
  obtains resp where "memory_supersede (\<lambda>s. s) (\<lambda>i. []) no_refs notes_settings 6 notes_ctx 100 1 notes_write notes_one notes_one = Inr (notes_two, resp)"
proof -
  obtain d r where d: "notes_supersede = Inr (d, r)" using notes_supersede_ok by (elim exE conjE)
  have "notes_two = d" unfolding notes_two_def d by simp
  then show ?thesis using that d unfolding notes_supersede_def by simp
qed

lemma supersede_links_successor_witness:
  "\<exists>r (x :: memory). r \<in> set (memories notes_one) \<and> m_id r = 100 \<and> m_status x = MS_active \<and> m_body x = ''B'' \<and> m_env_id x = m_env_id r"
proof -
  obtain resp where run: "memory_supersede (\<lambda>s. s) (\<lambda>i. []) no_refs notes_settings 6 notes_ctx 100 1 notes_write notes_one notes_one = Inr (notes_two, resp)"
    by (rule notes_supersede_run)
  have "notes_one \<in> set [notes_one, notes_db]" by simp
  note t = supersede_links_successor [OF notes_history notes_sinks this run]
  show ?thesis
    by (rule ex_forward [OF t], erule ex_forward, elim conjE, intro conjI) (simp_all add: notes_write_def)
qed

text \<open>C18: Superseding a playbook makes a memory the update call cannot touch: the new playbook has
  no steps, so every update that does not itself bring steps or change the kind (a status change, a
  retitling, an archival) is refused with an error, as long as the memory stays as the supersede left it.\<close>

theorem superseded_playbook_refuses_updates:
  assumes "memory_supersede sha uuid_text refs st now ctx i v req d0 d = Inr (d', resp)" and "tags_ok d"
    and "mw_kind req = MK_playbook" and "mp_kind p = None" and "mp_steps p = None"
  shows "\<exists>e. memory_update sha' refs' st' now' ctx' (mr_id (snd resp)) p extra d' d'' = Inl e"
proof -
  obtain x old meta r where x: "x = new_memory (next_uuid d) (m_env_id (old :: memory)) req None None meta now"
      and chk: "memory_supersede_check ctx i v req d0 = Inr old"
      and fresh: "m_id x \<notin> m_id ` set (memories d)" and r: "lookup m_id i (memories d) = Some r" "m_version r = v"
      and rows: "memories d' = update_where (\<lambda>y. m_id y = i) (mark_superseded (m_id x) (v + 1) now) (memories d @ [x])"
      and lin: "\<lparr>ln_parent = i, ln_child = m_id x, ln_relation = LR_supersedes, ln_created_at = now\<rparr> \<in> set (memory_lineage d')"
      and resp: "mr_id (snd resp) = m_id x"
    by (rule memory_supersede_rows [OF assms(1,2)])
  have "i \<noteq> m_id x" using fresh lookup_in_ids [OF r(1)] by metis
  moreover have "lookup m_id (m_id x) (memories d) = None"
  proof (cases "lookup m_id (m_id x) (memories d)")
    case (Some q)
    show ?thesis using fresh lookup_in_ids [OF Some] by contradiction
  qed simp
  ultimately have look: "lookup m_id (m_id x) (memories d') = Some x"
    unfolding rows by (simp add: lookup_update_where lookup_append)
  have "normalize_playbook_fields (patch_value (mp_kind p) (m_kind x)) (patch_nullable (mp_steps p) (m_steps x)) mac = Inl (InvalidInputError ''steps'')" for mac
    using assms(3-5) by (simp add: x new_memory_def normalize_playbook_fields_def patch_value_def patch_nullable_def)
  then have "\<exists>e. memory_update_check now' ctx' (m_id x) p d' = Inl e"
    using look by (cases "memory_update_check now' ctx' (m_id x) p d'") (auto simp: memory_update_check_def load_memory_def elim!: bindE_elims)
  then show ?thesis unfolding resp memory_update_def macro_guard_def by (auto split: if_splits)
qed

definition notes_playbook :: memory_write_request where
  "notes_playbook = notes_write\<lparr>mw_kind := MK_playbook\<rparr>"

lemma notes_playbook_ok:
  "isl (memory_supersede (\<lambda>s. s) (\<lambda>i. []) no_refs notes_settings 6 notes_ctx 100 1 notes_playbook notes_one notes_one) = False"
  by (simp add: notes_playbook_def supersede_defs write_defs notes_defs note_row_def notes_one_def Let_def update_where_def lookup_def)

lemma superseded_playbook_refuses_updates_witness:
  "\<exists>d' resp. memory_supersede (\<lambda>s. s) (\<lambda>i. []) no_refs notes_settings 6 notes_ctx 100 1 notes_playbook notes_one notes_one = Inr (d', resp) \<and>
     (\<exists>e. memory_update (\<lambda>s. s) no_refs notes_settings 9 notes_ctx (mr_id (snd resp)) (empty_patch 1) None d' d' = Inl e)"
proof -
  obtain d' resp where run: "memory_supersede (\<lambda>s. s) (\<lambda>i. []) no_refs notes_settings 6 notes_ctx 100 1 notes_playbook notes_one notes_one = Inr (d', resp)"
    using notes_playbook_ok by (metis prod.collapse sum.collapse(2))
  have "tags_ok notes_one" by (rule history_state(2) [OF notes_history notes_sinks]) simp
  moreover have "mw_kind notes_playbook = MK_playbook" "mp_kind (empty_patch 1) = None" "mp_steps (empty_patch 1) = None"
    by (simp_all add: notes_playbook_def empty_patch_def)
  ultimately have "\<exists>e. memory_update (\<lambda>s. s) no_refs notes_settings 9 notes_ctx (mr_id (snd resp)) (empty_patch 1) None d' d' = Inl e"
    by (rule superseded_playbook_refuses_updates [OF run])
  with run show ?thesis by (intro exI [of _ d'] exI [of _ resp] conjI)
qed

end
