(* ===== verification/Decay.thy ===== *)
theory Decay
  imports MemoryHistory
begin

text \<open>
  The decay pass, \<open>memory_mcp/dream/passes/decay.py\<close>: two legs, active to stale and stale to
  archived, over candidates loaded before each leg, every transition a \<open>memory_update\<close> of its own
  transaction. \<open>others k\<close> is what other transactions do to the database before the pass's \<open>k\<close>-th
  access of a leg; \<open>clock\<close> gives the transaction times. A pass that raises leaves what it had
  committed, so a leg returns the database and the outcome. Rows with equal sort keys keep the order
  of the table.
\<close>

record decay_candidate =
  dc_id :: uuid
  dc_version :: int
  dc_status :: memory_status
  dc_inputs :: salience_inputs
  dc_reference_count :: int

record leg_result =
  lr_examined :: nat
  lr_transitioned :: nat
  lr_above_threshold :: nat
  lr_version_conflicts :: nat
  lr_reference_floor :: nat
  lr_capped :: bool

record decay_pass_result =
  dp_env_id :: uuid
  dp_examined_active :: nat
  dp_examined_stale :: nat
  dp_transitioned_to_stale :: nat
  dp_transitioned_to_archived :: nat
  dp_skipped_version_conflicts :: nat
  dp_skipped_above_threshold :: nat
  dp_skipped_reference_floor :: nat
  dp_items_capped_active_leg :: bool
  dp_items_capped_stale_leg :: bool

subsection \<open>Candidates\<close>

text \<open>\<open>reference_count\<close> is the generated sum of the four counters.\<close>

definition row_to_candidate :: "(uuid \<Rightarrow> reference_columns) \<Rightarrow> memory \<Rightarrow> decay_candidate" where
  "row_to_candidate refs m = (let rc = refs (m_id m) in
     \<lparr>dc_id = m_id m, dc_version = m_version m, dc_status = m_status m,
      dc_inputs = \<lparr>si_access_count = m_access_count m, si_last_accessed_at = m_last_accessed_at m,
        si_confidence = m_confidence m, si_pinned = m_pinned m,
        si_negative_feedback_count = m_negative_feedback_count m, si_verified_at = m_verified_at m,
        si_created_at = m_created_at m, si_references = rc\<rparr>,
      dc_reference_count = rc_rel_link rc + rc_lineage rc + rc_task rc + rc_playbook rc\<rparr>)"

text \<open>\<open>last_accessed_at ASC NULLS FIRST\<close>\<close>

definition nulls_first :: "time option \<Rightarrow> int \<times> time" where
  "nulls_first t = (case t of None \<Rightarrow> (0, 0) | Some x \<Rightarrow> (1, x))"

definition inactive_since :: "time \<Rightarrow> memory \<Rightarrow> bool" where
  "inactive_since cutoff m \<longleftrightarrow> (case m_last_accessed_at m of Some t \<Rightarrow> t < cutoff | None \<Rightarrow> m_created_at m < cutoff)"

definition active_rows :: "uuid \<Rightarrow> time \<Rightarrow> nat \<Rightarrow> db \<Rightarrow> memory list" where
  "active_rows env cutoff cap d = take cap (sort_key (\<lambda>m. nulls_first (m_last_accessed_at m))
     (filter (\<lambda>m. m_env_id m = env \<and> m_status m = MS_active \<and> \<not> m_pinned m \<and> inactive_since cutoff m) (memories d)))"

definition load_active_candidates :: "(uuid \<Rightarrow> reference_columns) \<Rightarrow> uuid \<Rightarrow> time \<Rightarrow> nat \<Rightarrow> db \<Rightarrow> decay_candidate list" where
  "load_active_candidates refs env cutoff cap d = map (row_to_candidate refs) (active_rows env cutoff cap d)"

definition stale_rows :: "uuid \<Rightarrow> nat \<Rightarrow> db \<Rightarrow> memory list" where
  "stale_rows env cap d = take cap (sort_key m_updated_at
     (filter (\<lambda>m. m_env_id m = env \<and> m_status m = MS_stale \<and> \<not> m_pinned m) (memories d)))"

definition load_stale_candidates :: "(uuid \<Rightarrow> reference_columns) \<Rightarrow> uuid \<Rightarrow> nat \<Rightarrow> db \<Rightarrow> decay_candidate list" where
  "load_stale_candidates refs env cap d = map (row_to_candidate refs) (stale_rows env cap d)"

subsection \<open>A leg\<close>

definition decay_patch :: "int \<Rightarrow> memory_status \<Rightarrow> memory_update_patch" where
  "decay_patch version status = (empty_patch version)\<lparr>mp_status := Some (Some status)\<rparr>"

definition is_version_conflict :: "error \<Rightarrow> bool" where
  "is_version_conflict e = (case e of VersionConflictError _ _ \<Rightarrow> True | _ \<Rightarrow> False)"

text \<open>What stays the same during a pass.\<close>

record decay_run =
  dr_sha :: "string \<Rightarrow> string"
  dr_refs :: "uuid \<Rightarrow> reference_columns"
  dr_settings :: settings
  dr_dream :: dream_settings
  dr_ctx :: agent_context
  dr_now :: time
  dr_clock :: "nat \<Rightarrow> time"

definition candidate_salience :: "decay_run \<Rightarrow> decay_candidate \<Rightarrow> real" where
  "candidate_salience run c = compute_salience (dc_inputs c) (dr_now run) (salience_weights_from_settings (dr_dream run))"

fun run_leg_loop ::
  "decay_run \<Rightarrow> memory_status \<Rightarrow> real \<Rightarrow> int \<Rightarrow> (nat \<Rightarrow> db \<Rightarrow> db) \<Rightarrow> decay_candidate list \<Rightarrow> leg_result \<Rightarrow> db \<Rightarrow> db \<times> leg_result res" where
  "run_leg_loop run target threshold floor_count others [] acc d = (d, Inr acc)"
| "run_leg_loop run target threshold floor_count others (c # cs) acc0 d =
     (let k = lr_examined acc0; acc = acc0\<lparr>lr_examined := k + 1\<rparr> in
      if 0 < floor_count \<and> floor_count \<le> dc_reference_count c
      then run_leg_loop run target threshold floor_count others cs (acc\<lparr>lr_reference_floor := lr_reference_floor acc + 1\<rparr>) d
      else if threshold \<le> candidate_salience run c
      then run_leg_loop run target threshold floor_count others cs (acc\<lparr>lr_above_threshold := lr_above_threshold acc + 1\<rparr>) d
      else
        let d0 = others (2 * k) d; d1 = others (2 * k + 1) d0 in
        case memory_update (dr_sha run) (dr_refs run) (dr_settings run) (dr_clock run k) (dr_ctx run) (dc_id c)
               (decay_patch (dc_version c) target) None d0 d1 of
          Inl e \<Rightarrow> if is_version_conflict e
            then run_leg_loop run target threshold floor_count others cs (acc\<lparr>lr_version_conflicts := lr_version_conflicts acc + 1\<rparr>) d1
            else (d1, Inl e)
        | Inr r \<Rightarrow> run_leg_loop run target threshold floor_count others cs (acc\<lparr>lr_transitioned := lr_transitioned acc + 1\<rparr>) (fst r))"

definition leg_start :: "nat \<Rightarrow> decay_candidate list \<Rightarrow> leg_result" where
  "leg_start cap cs = \<lparr>lr_examined = 0, lr_transitioned = 0, lr_above_threshold = 0, lr_version_conflicts = 0,
     lr_reference_floor = 0, lr_capped = (cap \<le> length cs)\<rparr>"

definition run_leg ::
  "decay_run \<Rightarrow> memory_status \<Rightarrow> real \<Rightarrow> int \<Rightarrow> (nat \<Rightarrow> db \<Rightarrow> db) \<Rightarrow> decay_candidate list \<Rightarrow> db \<Rightarrow> db \<times> leg_result res" where
  "run_leg run target threshold floor_count others cs d =
     run_leg_loop run target threshold floor_count others cs (leg_start (dream_decay_batch_cap (dr_dream run)) cs) d"

subsection \<open>The pass\<close>

definition inactive_cutoff :: "decay_run \<Rightarrow> time" where
  "inactive_cutoff run = dr_now run - dream_decay_inactive_days (dr_dream run) * 86400 * 1000000"

definition decay_result :: "uuid \<Rightarrow> leg_result \<Rightarrow> leg_result \<Rightarrow> decay_pass_result" where
  "decay_result env a s = \<lparr>dp_env_id = env, dp_examined_active = lr_examined a, dp_examined_stale = lr_examined s,
     dp_transitioned_to_stale = lr_transitioned a, dp_transitioned_to_archived = lr_transitioned s,
     dp_skipped_version_conflicts = lr_version_conflicts a + lr_version_conflicts s,
     dp_skipped_above_threshold = lr_above_threshold a + lr_above_threshold s,
     dp_skipped_reference_floor = lr_reference_floor a,
     dp_items_capped_active_leg = lr_capped a, dp_items_capped_stale_leg = lr_capped s\<rparr>"

text \<open>\<open>others1\<close> and \<open>others2\<close> are the other transactions during the legs, \<open>between\<close> those before the
  second load.\<close>

definition run_decay ::
  "decay_run \<Rightarrow> (nat \<Rightarrow> db \<Rightarrow> db) \<Rightarrow> (db \<Rightarrow> db) \<Rightarrow> (nat \<Rightarrow> db \<Rightarrow> db) \<Rightarrow> uuid \<Rightarrow> db \<Rightarrow> db \<times> decay_pass_result res" where
  "run_decay run others1 between others2 env d =
     (let ds = dr_dream run; cap = dream_decay_batch_cap ds in
      if env \<notin> set (ctx_attached_env_ids (dr_ctx run)) then (d, Inl (ValueError ''actor_ctx.attached_env_ids''))
      else
        let (d1, active) = run_leg run MS_stale (dream_decay_stale_threshold ds) (dream_decay_reference_floor ds) others1
              (load_active_candidates (dr_refs run) env (inactive_cutoff run) cap d) d
        in case active of
             Inl e \<Rightarrow> (d1, Inl e)
           | Inr a \<Rightarrow>
               let d2 = between d1;
                   (d3, stale) = run_leg run MS_archived (dream_decay_archive_threshold ds) 0 others2
                     (load_stale_candidates (dr_refs run) env cap d2) d2
               in case stale of
                    Inl e \<Rightarrow> (d3, Inl e)
                  | Inr s \<Rightarrow> (d3, Inr (decay_result env a s)))"

end
