(* ===== verification/DecayDemo.thy ===== *)
theory DecayDemo
  imports Decay MemoryProps
begin

text \<open>
  A concrete pass: the one memory of a small store, never read and with no confidence, forty days
  later, under the default settings. One pass takes it from active over stale to archived.
\<close>

definition quiet_run :: decay_run where
  "quiet_run = \<lparr>dr_sha = (\<lambda>s. s), dr_refs = no_refs, dr_settings = notes_settings, dr_dream = default_dream_settings,
     dr_ctx = notes_ctx, dr_now = 40 * 86400 * 1000000, dr_clock = (\<lambda>k. 40 * 86400 * 1000000 + int k)\<rparr>"

definition forgotten_db :: db where
  "forgotten_db = notes_one\<lparr>memories := [note_row\<lparr>m_confidence := 0\<rparr>]\<rparr>"

lemma exp_small: "(4 :: real) \<le> x \<Longrightarrow> exp (- x) \<le> 1 / 5"
proof -
  assume x: "(4 :: real) \<le> x"
  have "1 + x \<le> exp x" by (rule exp_ge_add_one_self)
  then have "5 \<le> exp x" using x by linarith
  then show ?thesis by (simp add: exp_minus divide_simps)
qed

lemma forgotten_salience:
  assumes "m_access_count m = 0" "m_last_accessed_at m = None" "m_confidence m = 0" "\<not> m_pinned m"
    "m_negative_feedback_count m = 0" "m_verified_at m = None" "m_created_at m = 5"
  shows "candidate_salience quiet_run (row_to_candidate no_refs m) < 1 / 10"
proof -
  have "exp (- ((40 * 86400 * 1000000 - 5) / 1000000 / 604800)) \<le> (1 / 5 :: real)"
    by (rule exp_small) simp
  then show ?thesis using assms
    by (simp add: candidate_salience_def row_to_candidate_def quiet_run_def compute_salience_def
        salience_weights_from_settings_def default_dream_settings_def access_term_def recency_term_def authority_term_def
        verified_term_def references_term_def per_kind_def log1p_def clamp01_def no_refs_def seconds_since_def decay_factor_def Let_def)
qed

text \<open>The row between the legs and at the end, the transitions and the run.\<close>

definition forgotten_row :: "memory_status \<Rightarrow> int \<Rightarrow> time \<Rightarrow> memory" where
  "forgotten_row s v t = note_row\<lparr>m_confidence := 0, m_status := s, m_version := v, m_updated_at := t\<rparr>"

lemma forgotten_db_row: "memories forgotten_db = [forgotten_row MS_active 1 5]"
  by (simp add: forgotten_db_def forgotten_row_def note_row_def new_memory_def)

lemma forgotten_row_salience:
  "candidate_salience quiet_run (row_to_candidate no_refs (forgotten_row s v t)) * 10 < 3"
  "candidate_salience quiet_run (row_to_candidate no_refs (forgotten_row s v t)) * 10 < 1"
  using forgotten_salience [of "forgotten_row s v t"] by (simp_all add: forgotten_row_def note_row_def new_memory_def notes_write_def)

lemma forgotten_candidate [simp]:
  "dc_id (row_to_candidate no_refs (forgotten_row s v t)) = 100" "dc_version (row_to_candidate no_refs (forgotten_row s v t)) = v"
  "dc_reference_count (row_to_candidate no_refs (forgotten_row s v t)) = 0"
  by (simp_all add: row_to_candidate_def forgotten_row_def note_row_def new_memory_def no_refs_def Let_def)

lemma quiet_cutoff: "inactive_cutoff quiet_run = 10 * 86400 * 1000000"
  by (simp add: inactive_cutoff_def quiet_run_def default_dream_settings_def)

lemma forgotten_candidates:
  "load_active_candidates no_refs 1 (inactive_cutoff quiet_run) 500 forgotten_db = [row_to_candidate no_refs (forgotten_row MS_active 1 5)]"
  "memories d = [forgotten_row MS_stale v t] \<Longrightarrow> load_stale_candidates no_refs 1 500 d = [row_to_candidate no_refs (forgotten_row MS_stale v t)]"
  by (simp_all add: load_active_candidates_def load_stale_candidates_def active_rows_def stale_rows_def forgotten_db_row quiet_cutoff
      inactive_since_def forgotten_row_def note_row_def new_memory_def notes_write_def)

lemma forgotten_steps:
  "\<exists>d r d' r'. memory_update (\<lambda>s. s) no_refs notes_settings 3456000000000 notes_ctx 100 (decay_patch 1 MS_stale) None forgotten_db forgotten_db
     = Inr (d, r) \<and> memories d = [forgotten_row MS_stale 2 3456000000000] \<and>
     memory_update (\<lambda>s. s) no_refs notes_settings 3456000000000 notes_ctx 100 (decay_patch 2 MS_archived) None d d
     = Inr (d', r') \<and> memories d' = [forgotten_row MS_archived 3 3456000000000]"
  by (simp add: decay_patch_def update_defs write_defs notes_defs note_row_def notes_one_def Let_def
      forgotten_db_def forgotten_row_def update_where_def lookup_def)

lemma quiet_fields [simp]:
  "dr_sha quiet_run = (\<lambda>s. s)" "dr_refs quiet_run = no_refs" "dr_settings quiet_run = notes_settings"
  "dr_clock quiet_run 0 = 3456000000000" "dr_ctx quiet_run = notes_ctx"
  "dream_decay_stale_threshold (dr_dream quiet_run) = 3 / 10" "dream_decay_archive_threshold (dr_dream quiet_run) = 1 / 10"
  "dream_decay_batch_cap (dr_dream quiet_run) = 500" "dream_decay_reference_floor (dr_dream quiet_run) = 3"
  by (simp_all add: quiet_run_def default_dream_settings_def)

lemma forgotten_run:
  "\<exists>d' res. run_decay quiet_run (\<lambda>k d. d) id (\<lambda>k d. d) 1 forgotten_db = (d', Inr res) \<and>
     memories d' = [forgotten_row MS_archived 3 3456000000000] \<and>
     dp_transitioned_to_stale res = 1 \<and> dp_transitioned_to_archived res = 1 \<and> dp_skipped_version_conflicts res = 0 \<and>
     \<not> dp_items_capped_active_leg res \<and> \<not> dp_items_capped_stale_leg res"
proof -
  obtain d r d' r' where u: "memory_update (\<lambda>s. s) no_refs notes_settings 3456000000000 notes_ctx 100 (decay_patch 1 MS_stale) None forgotten_db forgotten_db
     = Inr (d, r)" "memories d = [forgotten_row MS_stale 2 3456000000000]"
     "memory_update (\<lambda>s. s) no_refs notes_settings 3456000000000 notes_ctx 100 (decay_patch 2 MS_archived) None d d
     = Inr (d', r')" "memories d' = [forgotten_row MS_archived 3 3456000000000]"
    using forgotten_steps by (elim exE conjE)
  have attached: "1 \<in> set (ctx_attached_env_ids notes_ctx)" by (simp add: notes_ctx_def)
  show ?thesis
    by (simp add: run_decay_def run_leg_def leg_start_def forgotten_candidates(1) forgotten_candidates(2) [OF u(2)] forgotten_row_salience [folded not_le]
        u(1,3,4) attached decay_result_def Let_def del: One_nat_def)
qed

end
