(* ===== verification/DecayProps.thy ===== *)
theory DecayProps
  imports DecayDemo
begin

text \<open>
  What a decay pass does when nothing else touches the store meanwhile: which rows it moves, that it
  moves all it should, that a second pass finds nothing to do, and that one pass can take a memory
  through both legs; and why reads that race with a pass go unnoticed.
\<close>

text \<open>A row after a transition of the pass.\<close>

definition moved :: "time \<Rightarrow> memory_status \<Rightarrow> memory \<Rightarrow> memory" where
  "moved t s r = r\<lparr>m_version := m_version r + 1, m_updated_at := t, m_status := s\<rparr>"

lemma moved_fields [simp]:
  "m_id (moved t s r) = m_id r" "m_env_id (moved t s r) = m_env_id r" "m_status (moved t s r) = s"
  "m_pinned (moved t s r) = m_pinned r" "m_version (moved t s r) = m_version r + 1"
  "m_last_accessed_at (moved t s r) = m_last_accessed_at r" "m_created_at (moved t s r) = m_created_at r"
  "m_updated_at (moved t s r) = t"
  by (simp_all add: moved_def)

lemma moved_other [simp]: "moved t s r \<noteq> r"
proof
  assume "moved t s r = r"
  then have "m_version (moved t s r) = m_version r" by (rule arg_cong)
  then show False by simp
qed

lemma decay_update_rows:
  assumes "memory_update sha refs st now ctx i (decay_patch v s) None d0 d = Inr (d', resp)"
  shows "\<exists>r. lookup m_id i (memories d) = Some r \<and> m_version r = v \<and>
    memories d' = update_where (\<lambda>x. m_id x = i) (\<lambda>x. x\<lparr>m_version := v + 1, m_updated_at := now, m_status := s\<rparr>) (memories d)"
proof -
  have p: "mp_expected_version (decay_patch v s) = v" "mp_decision_meta (decay_patch v s) = None"
    by (simp_all add: decay_patch_def empty_patch_def)
  obtain r steps macro meta where r: "lookup m_id i (memories d) = Some r" "m_version r = v"
    and rows: "memories d' = update_where (\<lambda>x. m_id x = i) (apply_patch (decay_patch v s) steps macro meta (v + 1) now) (memories d)"
    and meta: "meta = None"
  proof (rule memory_update_rows [OF assms], unfold p)
    fix r steps macro meta
    assume "lookup m_id i (memories d) = Some r" "m_version r = v"
      "memories d' = update_where (\<lambda>x. m_id x = i) (apply_patch (decay_patch v s) steps macro meta (v + 1) now) (memories d)"
      "None = (None :: payload option option) \<longrightarrow> meta = None"
    then show thesis using that by simp
  qed
  have "apply_patch (decay_patch v s) steps macro meta (v + 1) now = (\<lambda>x. x\<lparr>m_version := v + 1, m_updated_at := now, m_status := s\<rparr>)"
    by (rule ext) (simp add: meta apply_patch_def decay_patch_def empty_patch_def patch_nullable_def patch_value_def)
  then show ?thesis using r rows by auto
qed

lemma other_moved [simp]: "r \<noteq> moved t s r"
  by (rule moved_other [symmetric])

text \<open>Whether a leg wants to move a row.\<close>

definition decays :: "decay_run \<Rightarrow> real \<Rightarrow> int \<Rightarrow> memory \<Rightarrow> bool" where
  "decays run threshold floor_count r \<longleftrightarrow> (let c = row_to_candidate (dr_refs run) r in
     \<not> (0 < floor_count \<and> floor_count \<le> dc_reference_count c) \<and> candidate_salience run c < threshold)"

lemma decays_moved [simp]: "decays run threshold floor_count (moved t s r) = decays run threshold floor_count r"
  by (simp add: decays_def row_to_candidate_def candidate_salience_def moved_def Let_def)

text \<open>\<open>leg_map\<close>: the rows changed by a function that moves some of the candidates.\<close>

definition leg_map :: "decay_run \<Rightarrow> memory_status \<Rightarrow> real \<Rightarrow> int \<Rightarrow> memory set \<Rightarrow> memory list \<Rightarrow> (memory \<Rightarrow> memory) \<Rightarrow> memory list \<Rightarrow> bool" where
  "leg_map run target threshold floor_count cands rows g rows' \<longleftrightarrow> rows' = map g rows \<and>
     (\<forall>r \<in> set rows. g r = r \<or> r \<in> cands \<and> decays run threshold floor_count r \<and> (\<exists>t. g r = moved t target r))"

lemma leg_rows:
  assumes "run_leg_loop run target threshold floor_count (\<lambda>k d. d) (map (row_to_candidate (dr_refs run)) rs) acc d = (d', out)"
    and "distinct (map m_id rs)" and "set rs \<subseteq> set (memories d)" and "distinct (map m_id (memories d))"
  shows "\<exists>g. leg_map run target threshold floor_count (set rs) (memories d) g (memories d') \<and>
    (\<forall>res. out = Inr res \<longrightarrow> lr_version_conflicts acc \<le> lr_version_conflicts res \<and>
      (lr_version_conflicts res = lr_version_conflicts acc \<longrightarrow> (\<forall>r \<in> set rs. decays run threshold floor_count r \<longrightarrow> g r \<noteq> r)))"
  using assms
proof (induction rs arbitrary: acc d)
  case Nil
  then show ?case by (intro exI [of _ id]) (auto simp: leg_map_def)
next
  case (Cons r rs)
  let ?loop = "run_leg_loop run target threshold floor_count (\<lambda>k d. d) (map (row_to_candidate (dr_refs run)) rs)"
  let ?k = "lr_examined acc" and ?c = "row_to_candidate (dr_refs run) r"
  have c: "dc_id ?c = m_id r" "dc_version ?c = m_version r" by (simp_all add: row_to_candidate_def Let_def)
  have rs: "distinct (map m_id rs)" "set rs \<subseteq> set (memories d)" "m_id r \<notin> m_id ` set rs" using Cons.prems(2,3) by auto
  let ?upd = "memory_update (dr_sha run) (dr_refs run) (dr_settings run) (dr_clock run ?k) (dr_ctx run) (m_id r) (decay_patch (m_version r) target) None d d"
  consider (skip) acc' where "?loop acc' d = (d', out)" "lr_version_conflicts acc' = lr_version_conflicts acc" "\<not> decays run threshold floor_count r"
    | (conflict) acc' where "?loop acc' d = (d', out)" "lr_version_conflicts acc' = Suc (lr_version_conflicts acc)"
    | (stop) e where "d' = d" "out = Inl e"
    | (move) acc' d2 resp where "?upd = Inr (d2, resp)" "?loop acc' d2 = (d', out)" "lr_version_conflicts acc' = lr_version_conflicts acc"
        "decays run threshold floor_count r"
    using Cons.prems(1) by (auto simp: Let_def c decays_def split: if_splits sum.splits)
  then show ?case
  proof cases
    case skip
    from Cons.IH [OF skip(1) rs(1,2) Cons.prems(4)] obtain g where g: "leg_map run target threshold floor_count (set rs) (memories d) g (memories d')"
        "\<forall>res. out = Inr res \<longrightarrow> lr_version_conflicts acc' \<le> lr_version_conflicts res \<and>
          (lr_version_conflicts res = lr_version_conflicts acc' \<longrightarrow> (\<forall>r \<in> set rs. decays run threshold floor_count r \<longrightarrow> g r \<noteq> r))" by blast
    then show ?thesis using skip(2,3) by (intro exI [of _ g]) (auto simp: leg_map_def)
  next
    case conflict
    from Cons.IH [OF conflict(1) rs(1,2) Cons.prems(4)] obtain g where g: "leg_map run target threshold floor_count (set rs) (memories d) g (memories d')"
        "\<forall>res. out = Inr res \<longrightarrow> lr_version_conflicts acc' \<le> lr_version_conflicts res" by blast
    then show ?thesis using conflict(2) by (intro exI [of _ g]) (fastforce simp: leg_map_def)
  next
    case stop
    then show ?thesis by (intro exI [of _ id]) (auto simp: leg_map_def)
  next
    case move
    define g1 where "g1 x = (if m_id x = m_id r then moved (dr_clock run ?k) target r else x)" for x
    obtain q where q: "lookup m_id (m_id r) (memories d) = Some q"
      and rows: "memories d2 = update_where (\<lambda>x. m_id x = m_id r)
        (\<lambda>x. x\<lparr>m_version := m_version r + 1, m_updated_at := dr_clock run ?k, m_status := target\<rparr>) (memories d)"
      using decay_update_rows [OF move(1)] by blast
    have one: "x = r" if "x \<in> set (memories d)" "m_id x = m_id r" for x
      using that Cons.prems(3,4) by (auto simp: distinct_map dest: inj_onD)
    have d2: "memories d2 = map g1 (memories d)"
      unfolding rows update_where_def by (rule map_cong [OF refl]) (auto simp: g1_def moved_def dest: one)
    have "map m_id (memories d2) = map m_id (memories d)" unfolding d2 by (auto simp: g1_def)
    then have dist: "distinct (map m_id (memories d2))" using Cons.prems(4) by simp
    have g1rs: "g1 x = x" if "x \<in> set rs" for x
    using rs(3) imageI [OF that, of m_id] unfolding g1_def by metis
    have sub: "set rs \<subseteq> set (memories d2)" unfolding d2 using rs(2) g1rs by (auto intro!: image_eqI)
    from Cons.IH [OF move(2) rs(1) sub dist] obtain g where g: "leg_map run target threshold floor_count (set rs) (memories d2) g (memories d')"
        "\<forall>res. out = Inr res \<longrightarrow> lr_version_conflicts acc' \<le> lr_version_conflicts res \<and>
          (lr_version_conflicts res = lr_version_conflicts acc' \<longrightarrow> (\<forall>r \<in> set rs. decays run threshold floor_count r \<longrightarrow> g r \<noteq> r))" by blast
    have gr: "g (g1 r) = moved (dr_clock run ?k) target r"
    proof -
      have "g1 r \<in> set (memories d2)" using d2 Cons.prems(3) by simp
      moreover have "g1 r \<notin> set rs"
      proof
        assume "g1 r \<in> set rs"
        then have "m_id (g1 r) \<in> m_id ` set rs" by (rule imageI)
        then show False using rs(3) by (simp add: g1_def)
      qed
      ultimately show ?thesis using g(1) by (auto simp: leg_map_def g1_def)
    qed
    have other: "g (g1 x) = g x" if "x \<in> set (memories d)" "x \<noteq> r" for x
      using one [OF that(1)] that(2) by (auto simp: g1_def)
    have in2: "x \<in> set (memories d2)" if "x \<in> set (memories d)" "x \<noteq> r" for x
      using one [OF that(1)] that unfolding d2 by (auto simp: g1_def intro!: image_eqI [of _ _ x])
    have "leg_map run target threshold floor_count (set (r # rs)) (memories d) (\<lambda>x. g (g1 x)) (memories d')"
      unfolding leg_map_def
    proof (intro conjI ballI)
      show "memories d' = map (\<lambda>x. g (g1 x)) (memories d)" using g(1) d2 by (simp add: leg_map_def)
      fix x assume x: "x \<in> set (memories d)"
      show "g (g1 x) = x \<or> x \<in> set (r # rs) \<and> decays run threshold floor_count x \<and> (\<exists>t. g (g1 x) = moved t target x)"
      proof (cases "x = r")
        case True
        then show ?thesis using gr move(4) by auto
      next
        case False
        then show ?thesis using other [OF x False] in2 [OF x False] g(1) by (auto simp: leg_map_def)
      qed
    qed
    moreover have "g (g1 x) \<noteq> x" if "x = r \<or> g x \<noteq> x \<and> x \<in> set rs" for x
      using that gr g1rs by auto
    ultimately show ?thesis using g(2) move(3) by (intro exI [of _ "\<lambda>x. g (g1 x)"]) auto
  qed
qed

lemma leg_map_ids:
  assumes "leg_map run target threshold floor_count C rows g rows'"
  shows "map m_id rows' = map m_id rows"
proof -
  have "m_id (g r) = m_id r" if "r \<in> set rows" for r using assms that unfolding leg_map_def by fastforce
  then show ?thesis using assms by (simp add: leg_map_def)
qed

subsection \<open>The whole pass\<close>

definition alone :: "nat \<Rightarrow> db \<Rightarrow> db" where
  "alone k d = d"

lemma alone_eq [simp]: "alone = (\<lambda>k d. d)"
  by (simp add: alone_def fun_eq_iff)

lemma take_filter_distinct: "distinct (map m_id rows) \<Longrightarrow> distinct (map m_id (take n (sort_key k (filter P rows))))"
proof -
  assume "distinct (map m_id rows)"
  then have "distinct (map m_id (filter P rows))" by (rule distinct_map_filter)
  then have "distinct (map m_id (sort_key k (filter P rows)))" by (simp add: distinct_map)
  then show ?thesis unfolding take_map [symmetric] by (rule distinct_take)
qed

lemma active_rows_ok: "distinct (map m_id (memories d)) \<Longrightarrow> distinct (map m_id (active_rows env cutoff cap d)) \<and>
    set (active_rows env cutoff cap d) \<subseteq> {m \<in> set (memories d). m_env_id m = env \<and> m_status m = MS_active \<and> \<not> m_pinned m \<and> inactive_since cutoff m}"
  unfolding active_rows_def by (intro conjI take_filter_distinct) (auto dest: in_set_takeD)

lemma stale_rows_ok: "distinct (map m_id (memories d)) \<Longrightarrow> distinct (map m_id (stale_rows env cap d)) \<and>
    set (stale_rows env cap d) \<subseteq> {m \<in> set (memories d). m_env_id m = env \<and> m_status m = MS_stale \<and> \<not> m_pinned m}"
  unfolding stale_rows_def by (intro conjI take_filter_distinct) (auto dest: in_set_takeD)

lemma uncapped_rows:
  "length (active_rows env cutoff cap d) < cap \<Longrightarrow>
   set (active_rows env cutoff cap d) = {m \<in> set (memories d). m_env_id m = env \<and> m_status m = MS_active \<and> \<not> m_pinned m \<and> inactive_since cutoff m}"
  "length (stale_rows env cap d) < cap \<Longrightarrow>
   set (stale_rows env cap d) = {m \<in> set (memories d). m_env_id m = env \<and> m_status m = MS_stale \<and> \<not> m_pinned m}"
  by (auto simp: active_rows_def stale_rows_def min_def split: if_splits)

lemma leg_loop_capped: "run_leg_loop run target threshold floor_count others cs acc d = (d', Inr res) \<Longrightarrow> lr_capped res = lr_capped acc"
  by (induction run target threshold floor_count others cs acc d rule: run_leg_loop.induct)
     (auto simp: Let_def split: if_splits sum.splits)

lemma leg_spec:
  assumes "run_leg run target threshold floor_count alone (map (row_to_candidate (dr_refs run)) rs) d = (d', out)"
    and "distinct (map m_id rs)" and "set rs \<subseteq> set (memories d)" and "distinct (map m_id (memories d))"
  obtains g where "leg_map run target threshold floor_count (set rs) (memories d) g (memories d')"
    "\<And>a. out = Inr a \<Longrightarrow> lr_version_conflicts a = 0 \<Longrightarrow> \<forall>r \<in> set rs. decays run threshold floor_count r \<longrightarrow> g r \<noteq> r"
    "\<And>a. out = Inr a \<Longrightarrow> lr_capped a \<longleftrightarrow> dream_decay_batch_cap (dr_dream run) \<le> length rs"
proof -
  let ?acc = "leg_start (dream_decay_batch_cap (dr_dream run)) (map (row_to_candidate (dr_refs run)) rs)"
  have run: "run_leg_loop run target threshold floor_count (\<lambda>k d. d) (map (row_to_candidate (dr_refs run)) rs) ?acc d = (d', out)"
    using assms(1) by (simp add: run_leg_def)
  have start: "lr_version_conflicts ?acc = 0" "lr_capped ?acc \<longleftrightarrow> dream_decay_batch_cap (dr_dream run) \<le> length rs"
    by (simp_all add: leg_start_def)
  from leg_rows [OF run assms(2-4)] obtain g where g: "leg_map run target threshold floor_count (set rs) (memories d) g (memories d')"
      "\<forall>res. out = Inr res \<longrightarrow> lr_version_conflicts ?acc \<le> lr_version_conflicts res \<and>
        (lr_version_conflicts res = lr_version_conflicts ?acc \<longrightarrow> (\<forall>r \<in> set rs. decays run threshold floor_count r \<longrightarrow> g r \<noteq> r))"
    by blast
  show ?thesis
  proof (rule that [OF g(1)])
    fix a assume a: "out = Inr a"
    then show "lr_capped a \<longleftrightarrow> dream_decay_batch_cap (dr_dream run) \<le> length rs"
      using leg_loop_capped [of run target threshold floor_count "\<lambda>k d. d" _ ?acc d d' a] run start(2) by simp
    assume "lr_version_conflicts a = 0"
    then show "\<forall>r \<in> set rs. decays run threshold floor_count r \<longrightarrow> g r \<noteq> r" using g(2) a start(1) by simp
  qed
qed

text \<open>The first leg's and the second leg's effect on the rows.\<close>

lemma run_decay_rows:
  assumes "run_decay run alone id alone env d = (d', out)" and "distinct (map m_id (memories d))"
  obtains d1 f g out1 where
    "leg_map run MS_stale (dream_decay_stale_threshold (dr_dream run)) (dream_decay_reference_floor (dr_dream run))
       (set (active_rows env (inactive_cutoff run) (dream_decay_batch_cap (dr_dream run)) d)) (memories d) f (memories d1)"
    "leg_map run MS_archived (dream_decay_archive_threshold (dr_dream run)) 0
       (set (stale_rows env (dream_decay_batch_cap (dr_dream run)) d1)) (memories d1) g (memories d')"
    "\<And>r. out = Inr r \<Longrightarrow> dp_skipped_version_conflicts r = 0 \<Longrightarrow>
       (\<forall>m \<in> set (active_rows env (inactive_cutoff run) (dream_decay_batch_cap (dr_dream run)) d).
          decays run (dream_decay_stale_threshold (dr_dream run)) (dream_decay_reference_floor (dr_dream run)) m \<longrightarrow> f m \<noteq> m) \<and>
       (\<forall>m \<in> set (stale_rows env (dream_decay_batch_cap (dr_dream run)) d1).
          decays run (dream_decay_archive_threshold (dr_dream run)) 0 m \<longrightarrow> g m \<noteq> m)"
    "\<And>r. out = Inr r \<Longrightarrow> (dp_items_capped_active_leg r \<longleftrightarrow> dream_decay_batch_cap (dr_dream run) \<le> length (active_rows env (inactive_cutoff run) (dream_decay_batch_cap (dr_dream run)) d)) \<and>
       (dp_items_capped_stale_leg r \<longleftrightarrow> dream_decay_batch_cap (dr_dream run) \<le> length (stale_rows env (dream_decay_batch_cap (dr_dream run)) d1))"
proof -
  let ?ds = "dr_dream run"
  let ?cap = "dream_decay_batch_cap ?ds"
  let ?as = "active_rows env (inactive_cutoff run) ?cap d"
  have idmap: "leg_map run t h k C rows id rows" for t h k C rows by (simp add: leg_map_def)
  show ?thesis
  proof (cases "env \<in> set (ctx_attached_env_ids (dr_ctx run))")
    case False
    then have "d' = d" "out = Inl (ValueError ''actor_ctx.attached_env_ids'')" using assms(1) by (simp_all add: run_decay_def Let_def)
    then show ?thesis using idmap by (intro that [of id d id]) auto
  next
    case True
    obtain d1 out1 where leg1: "run_leg run MS_stale (dream_decay_stale_threshold ?ds) (dream_decay_reference_floor ?ds) alone
        (map (row_to_candidate (dr_refs run)) ?as) d = (d1, out1)"
      by (metis surj_pair)
    note rest = assms(1) [unfolded run_decay_def Let_def load_active_candidates_def load_stale_candidates_def leg1]
    have as: "distinct (map m_id ?as)" "set ?as \<subseteq> set (memories d)" using active_rows_ok [OF assms(2)] by auto
    obtain f where f: "leg_map run MS_stale (dream_decay_stale_threshold ?ds) (dream_decay_reference_floor ?ds) (set ?as) (memories d) f (memories d1)"
        "\<And>a. out1 = Inr a \<Longrightarrow> lr_version_conflicts a = 0 \<Longrightarrow>
          \<forall>m \<in> set ?as. decays run (dream_decay_stale_threshold ?ds) (dream_decay_reference_floor ?ds) m \<longrightarrow> f m \<noteq> m"
        "\<And>a. out1 = Inr a \<Longrightarrow> lr_capped a \<longleftrightarrow> ?cap \<le> length ?as"
      using leg_spec [OF leg1 as assms(2)] by blast
    show ?thesis
    proof (cases out1)
      case (Inl e)
      then have "d' = d1" "out = Inl e" using rest True by auto
      then show ?thesis using f(1) idmap by (intro that [of f d1 id]) auto
    next
      case (Inr a)
      let ?ss = "stale_rows env ?cap d1"
      have dist1: "distinct (map m_id (memories d1))" using leg_map_ids [OF f(1)] assms(2) by simp
      have ss: "distinct (map m_id ?ss)" "set ?ss \<subseteq> set (memories d1)" using stale_rows_ok [OF dist1] by auto
      obtain d3 out2 where leg2: "run_leg run MS_archived (dream_decay_archive_threshold ?ds) 0 alone
          (map (row_to_candidate (dr_refs run)) ?ss) d1 = (d3, out2)"
        by (metis surj_pair)
      obtain g where g: "leg_map run MS_archived (dream_decay_archive_threshold ?ds) 0 (set ?ss) (memories d1) g (memories d3)"
          "\<And>s. out2 = Inr s \<Longrightarrow> lr_version_conflicts s = 0 \<Longrightarrow>
            \<forall>m \<in> set ?ss. decays run (dream_decay_archive_threshold ?ds) 0 m \<longrightarrow> g m \<noteq> m"
          "\<And>s. out2 = Inr s \<Longrightarrow> lr_capped s \<longleftrightarrow> ?cap \<le> length ?ss"
        using leg_spec [OF leg2 ss dist1] by blast
      have d': "d' = d3" "out = (case out2 of Inl e \<Rightarrow> Inl e | Inr s \<Rightarrow> Inr (decay_result env a s))"
        using rest True Inr leg2 by (auto split: sum.splits)
      show ?thesis
      proof (rule that [of f d1 g])
        show "leg_map run MS_archived (dream_decay_archive_threshold ?ds) 0 (set ?ss) (memories d1) g (memories d')"
          using g(1) d'(1) by simp
        fix r assume r: "out = Inr r"
        then obtain s where s: "out2 = Inr s" "r = decay_result env a s" using d'(2) by (auto split: sum.splits)
        show "(dp_items_capped_active_leg r \<longleftrightarrow> ?cap \<le> length ?as) \<and> (dp_items_capped_stale_leg r \<longleftrightarrow> ?cap \<le> length ?ss)"
          using f(3) [OF Inr] g(3) [OF s(1)] s(2) by (simp add: decay_result_def)
        assume "dp_skipped_version_conflicts r = 0"
        then have "lr_version_conflicts a = 0" "lr_version_conflicts s = 0" using s(2) by (simp_all add: decay_result_def)
        then show "(\<forall>m \<in> set ?as. decays run (dream_decay_stale_threshold ?ds) (dream_decay_reference_floor ?ds) m \<longrightarrow> f m \<noteq> m) \<and>
            (\<forall>m \<in> set ?ss. decays run (dream_decay_archive_threshold ?ds) 0 m \<longrightarrow> g m \<noteq> m)"
          using f(2) [OF Inr] g(2) [OF s(1)] by blast
      qed (rule f(1))
    qed
  qed
qed

text \<open>What became of one row.\<close>

lemma leg_map_row:
  assumes "leg_map run target threshold floor_count C rows g rows'" and "r \<in> set rows"
  shows "g r \<in> set rows' \<and> m_id (g r) = m_id r \<and> (g r = r \<or> r \<in> C \<and> decays run threshold floor_count r \<and> (\<exists>t. g r = moved t target r))"
  using assms unfolding leg_map_def by fastforce

text \<open>C16: A decay pass that nothing interferes with, whether it finishes or raises on the way, only
  walks memories of its environment down the ladder: every memory that was there is still there, and
  either untouched or unpinned and moved from active, unused since the cutoff and below the stale
  threshold, to stale, or from stale to archived, or both; nothing but status, version and update
  time changes.\<close>

theorem decay_walks_down:
  assumes "run_decay run alone id alone env d = (d', out)" and "distinct (map m_id (memories d))" and "r \<in> set (memories d)"
  shows "\<exists>q \<in> set (memories d'). m_id q = m_id r \<and> (q = r \<or>
    q = r\<lparr>m_status := m_status q, m_version := m_version q, m_updated_at := m_updated_at q\<rparr> \<and>
    m_version r < m_version q \<and> m_env_id r = env \<and> \<not> m_pinned r \<and>
    (m_status r = MS_active \<and> inactive_since (inactive_cutoff run) r \<and> m_status q \<in> {MS_stale, MS_archived} \<and>
       decays run (dream_decay_stale_threshold (dr_dream run)) (dream_decay_reference_floor (dr_dream run)) r \<or>
     m_status r = MS_stale \<and> m_status q = MS_archived \<and> decays run (dream_decay_archive_threshold (dr_dream run)) 0 r))"
proof -
  let ?ds = "dr_dream run"
  let ?cap = "dream_decay_batch_cap ?ds" and ?cut = "inactive_cutoff run"
  obtain d1 f g where f: "leg_map run MS_stale (dream_decay_stale_threshold ?ds) (dream_decay_reference_floor ?ds)
       (set (active_rows env (inactive_cutoff run) ?cap d)) (memories d) f (memories d1)"
    and g: "leg_map run MS_archived (dream_decay_archive_threshold ?ds) 0 (set (stale_rows env ?cap d1)) (memories d1) g (memories d')"
    by (rule run_decay_rows [OF assms(1,2)])
  have dist1: "distinct (map m_id (memories d1))" using leg_map_ids [OF f] assms(2) by simp
  have as: "set (active_rows env (inactive_cutoff run) ?cap d) \<subseteq> {m \<in> set (memories d). m_env_id m = env \<and> m_status m = MS_active \<and> \<not> m_pinned m \<and> inactive_since (inactive_cutoff run) m}"
    using active_rows_ok [OF assms(2)] by blast
  have ss: "set (stale_rows env ?cap d1) \<subseteq> {m \<in> set (memories d1). m_env_id m = env \<and> m_status m = MS_stale \<and> \<not> m_pinned m}"
    using stale_rows_ok [OF dist1] by blast
  note F = leg_map_row [OF f assms(3)]
  note G = leg_map_row [OF g conjunct1 [OF F]]
  have id: "m_id (g (f r)) = m_id r" "g (f r) \<in> set (memories d')" using F G by simp_all
  consider (same) "f r = r" "g (f r) = r"
    | (first) t where "f r = moved t MS_stale r" "g (f r) = f r" "r \<in> set (active_rows env (inactive_cutoff run) ?cap d)"
        "decays run (dream_decay_stale_threshold ?ds) (dream_decay_reference_floor ?ds) r"
    | (second) t where "f r = r" "g (f r) = moved t MS_archived r" "r \<in> set (stale_rows env ?cap d1)" "decays run (dream_decay_archive_threshold ?ds) 0 r"
    | (both) t u where "f r = moved t MS_stale r" "g (f r) = moved u MS_archived (f r)" "r \<in> set (active_rows env (inactive_cutoff run) ?cap d)"
        "decays run (dream_decay_stale_threshold ?ds) (dream_decay_reference_floor ?ds) r"
    using F G by metis
  then show ?thesis
  proof cases
    case same
    then show ?thesis using id by (intro bexI [of _ "g (f r)"]) simp_all
  next
    case first
    then have "m_env_id r = env" "m_status r = MS_active" "\<not> m_pinned r" "inactive_since ?cut r" using as by blast+
    moreover have "f r = r\<lparr>m_status := MS_stale, m_version := m_version r + 1, m_updated_at := t\<rparr>" using first(1) by (simp add: moved_def)
    ultimately show ?thesis using id first by (intro bexI [of _ "f r"]) auto
  next
    case second
    then have "m_env_id r = env" "m_status r = MS_stale" "\<not> m_pinned r" using ss by blast+
    moreover have "g r = r\<lparr>m_status := MS_archived, m_version := m_version r + 1, m_updated_at := t\<rparr>" using second(1,2) by (simp add: moved_def)
    ultimately show ?thesis using id second by (intro bexI [of _ "g r"]) auto
  next
    case both
    then have "m_env_id r = env" "m_status r = MS_active" "\<not> m_pinned r" "inactive_since ?cut r" using as by blast+
    moreover have "g (f r) = r\<lparr>m_status := MS_archived, m_version := m_version r + 1 + 1, m_updated_at := u\<rparr>" using both(1,2) by (simp add: moved_def)
    ultimately show ?thesis using id both by (intro bexI [of _ "g (f r)"]) auto
  qed
qed

lemma forgotten_ids: "distinct (map m_id (memories forgotten_db))"
  by (simp add: forgotten_db_row)

lemma forgotten_decays:
  "decays quiet_run (3 / 10) n (forgotten_row s v t)" if "0 < n"
  using that forgotten_row_salience [of s v t] by (simp add: decays_def Let_def)

lemma forgotten_decays_archive:
  "decays quiet_run (1 / 10) 0 (forgotten_row s v t)"
  using forgotten_row_salience [of s v t] by (simp add: decays_def Let_def)

lemma decay_walks_down_witness:
  "\<exists>d' q. fst (run_decay quiet_run alone id alone 1 forgotten_db) = d' \<and> q \<in> set (memories d') \<and> m_id q = 100 \<and>
     m_status q = MS_archived \<and> q = (forgotten_row MS_active 1 5)\<lparr>m_status := MS_archived, m_version := m_version q, m_updated_at := m_updated_at q\<rparr>"
proof -
  obtain d' res where run: "run_decay quiet_run alone id alone 1 forgotten_db = (d', Inr res)"
      "memories d' = [forgotten_row MS_archived 3 3456000000000]"
    using forgotten_run by auto
  have "forgotten_row MS_active 1 5 \<in> set (memories forgotten_db)" by (simp add: forgotten_db_row)
  from decay_walks_down [OF run(1) forgotten_ids this] obtain q where q: "q \<in> set (memories d')" "m_id q = m_id (forgotten_row MS_active 1 5)"
      "q = forgotten_row MS_active 1 5 \<or> q = (forgotten_row MS_active 1 5)\<lparr>m_status := m_status q, m_version := m_version q, m_updated_at := m_updated_at q\<rparr>"
    by blast
  have s: "m_status q = MS_archived" using q(1) run(2) by (simp add: forgotten_row_def)
  moreover have "q \<noteq> forgotten_row MS_active 1 5" using s by (auto simp: forgotten_row_def)
  ultimately have "q = (forgotten_row MS_active 1 5)\<lparr>m_status := MS_archived, m_version := m_version q, m_updated_at := m_updated_at q\<rparr>"
    using q(3) unfolding s by blast
  then show ?thesis using s q(1,2) run(1)
    by (intro exI [of _ d'] exI [of _ q]) (simp add: forgotten_row_def note_row_def new_memory_def)
qed

text \<open>A leg without a row to move changes nothing.\<close>

lemma leg_idle:
  assumes "\<forall>r \<in> set rs. \<not> decays run threshold floor_count r"
  shows "\<exists>a. run_leg_loop run target threshold floor_count others (map (row_to_candidate (dr_refs run)) rs) acc d = (d, Inr a) \<and>
    lr_transitioned a = lr_transitioned acc \<and> lr_version_conflicts a = lr_version_conflicts acc"
  using assms
proof (induction rs arbitrary: acc)
  case Nil
  then show ?case by simp
next
  case (Cons r rs)
  then have IH: "\<exists>a. run_leg_loop run target threshold floor_count others (map (row_to_candidate (dr_refs run)) rs) acc' d = (d, Inr a) \<and>
    lr_transitioned a = lr_transitioned acc' \<and> lr_version_conflicts a = lr_version_conflicts acc'" for acc' by simp
  have "\<not> decays run threshold floor_count r" using Cons.prems by simp
  then show ?case using IH by (fastforce simp: decays_def Let_def)
qed

text \<open>C17: Re-running the pass converges: after an undisturbed run that finished without version
  conflicts and hit neither batch cap, a second run at the same time changes nothing and reports no
  transition.\<close>

theorem decay_converges:
  assumes "run_decay run alone id alone env d = (d', Inr res)" and "distinct (map m_id (memories d))"
    and "dp_skipped_version_conflicts res = 0"
    and "\<not> dp_items_capped_active_leg res" and "\<not> dp_items_capped_stale_leg res"
  shows "\<exists>res'. run_decay run alone id alone env d' = (d', Inr res') \<and>
    dp_transitioned_to_stale res' = 0 \<and> dp_transitioned_to_archived res' = 0"
proof -
  let ?ds = "dr_dream run"
  let ?cap = "dream_decay_batch_cap ?ds" and ?cut = "inactive_cutoff run"
  obtain d1 f g where f: "leg_map run MS_stale (dream_decay_stale_threshold ?ds) (dream_decay_reference_floor ?ds)
       (set (active_rows env ?cut ?cap d)) (memories d) f (memories d1)"
    and g: "leg_map run MS_archived (dream_decay_archive_threshold ?ds) 0 (set (stale_rows env ?cap d1)) (memories d1) g (memories d')"
    and all: "\<forall>m \<in> set (active_rows env ?cut ?cap d). decays run (dream_decay_stale_threshold ?ds) (dream_decay_reference_floor ?ds) m \<longrightarrow> f m \<noteq> m"
      "\<forall>m \<in> set (stale_rows env ?cap d1). decays run (dream_decay_archive_threshold ?ds) 0 m \<longrightarrow> g m \<noteq> m"
    and caps: "length (active_rows env ?cut ?cap d) < ?cap" "length (stale_rows env ?cap d1) < ?cap"
    using run_decay_rows [OF assms(1,2)] assms(3-5) by (metis not_le)
  have dist1: "distinct (map m_id (memories d1))" using leg_map_ids [OF f] assms(2) by simp
  have dist': "distinct (map m_id (memories d'))" using leg_map_ids [OF g] dist1 by simp
  have origin: "\<exists>r p. r \<in> set (memories d) \<and> p \<in> set (memories d1) \<and> p = f r \<and> q = g p" if "q \<in> set (memories d')" for q
    using that f g unfolding leg_map_def by auto
  have active: "\<not> decays run (dream_decay_stale_threshold ?ds) (dream_decay_reference_floor ?ds) q"
    if "q \<in> set (active_rows env ?cut ?cap d')" for q
  proof -
    have q: "q \<in> set (memories d')" "m_env_id q = env" "m_status q = MS_active" "\<not> m_pinned q" "inactive_since ?cut q"
      using active_rows_ok [OF dist'] that by blast+
    obtain r p where r: "r \<in> set (memories d)" "p \<in> set (memories d1)" "p = f r" "q = g p" using origin [OF q(1)] by blast
    have "q = p" using leg_map_row [OF g r(2)] r(4) q(3) by auto
    moreover have "p = r" using leg_map_row [OF f r(1)] r(3) q(3) calculation by auto
    ultimately have "r \<in> set (active_rows env ?cut ?cap d)" "f r = r" using uncapped_rows(1) [OF caps(1)] q r by auto
    then show ?thesis using all(1) \<open>q = p\<close> \<open>p = r\<close> by auto
  qed
  have stale: "\<not> decays run (dream_decay_archive_threshold ?ds) 0 q" if "q \<in> set (stale_rows env ?cap d')" for q
  proof -
    have q: "q \<in> set (memories d')" "m_env_id q = env" "m_status q = MS_stale" "\<not> m_pinned q"
      using stale_rows_ok [OF dist'] that by blast+
    obtain r p where r: "p \<in> set (memories d1)" "q = g p" using origin [OF q(1)] by blast
    have "q = p" using leg_map_row [OF g r(1)] r(2) q(3) by auto
    then have "p \<in> set (stale_rows env ?cap d1)" "g p = p" using uncapped_rows(2) [OF caps(2)] q r by auto
    then show ?thesis using all(2) \<open>q = p\<close> by auto
  qed
  have env: "env \<in> set (ctx_attached_env_ids (dr_ctx run))" using assms(1) by (auto simp: run_decay_def Let_def split: if_splits)
  obtain a where a: "run_leg run MS_stale (dream_decay_stale_threshold ?ds) (dream_decay_reference_floor ?ds) alone
      (load_active_candidates (dr_refs run) env ?cut ?cap d') d' = (d', Inr a)" "lr_transitioned a = 0"
    using leg_idle [of "active_rows env ?cut ?cap d'" run] active unfolding run_leg_def load_active_candidates_def
    by (metis (no_types, lifting) leg_start_def leg_result.select_convs(2))
  obtain b where b: "run_leg run MS_archived (dream_decay_archive_threshold ?ds) 0 alone
      (load_stale_candidates (dr_refs run) env ?cap d') d' = (d', Inr b)" "lr_transitioned b = 0"
    using leg_idle [of "stale_rows env ?cap d'" run] stale unfolding run_leg_def load_stale_candidates_def
    by (metis (no_types, lifting) leg_start_def leg_result.select_convs(2))
  show ?thesis using env a b by (simp add: run_decay_def Let_def decay_result_def)
qed

lemma decay_converges_witness:
  "\<exists>d' res'. run_decay quiet_run alone id alone 1 forgotten_db = (d', snd (run_decay quiet_run alone id alone 1 forgotten_db)) \<and>
     map m_status (memories d') = [MS_archived] \<and>
     run_decay quiet_run alone id alone 1 d' = (d', Inr res') \<and> dp_transitioned_to_stale res' = 0 \<and> dp_transitioned_to_archived res' = 0"
proof -
  obtain d' res where run: "run_decay quiet_run alone id alone 1 forgotten_db = (d', Inr res)"
      "memories d' = [forgotten_row MS_archived 3 3456000000000]" "dp_skipped_version_conflicts res = 0"
      "\<not> dp_items_capped_active_leg res" "\<not> dp_items_capped_stale_leg res"
    using forgotten_run by auto
  from decay_converges [OF run(1) forgotten_ids run(3-5)] show ?thesis using run(1,2) by (auto simp: forgotten_row_def)
qed

text \<open>One pass can take a memory through both legs: an unpinned active memory of the environment,
  unused since the cutoff, under the reference floor and below both thresholds is archived, two
  versions up, by a pass that nothing interferes with, that finishes without a version conflict and
  that hits no batch cap.\<close>

lemma decay_archives_in_one_run:
  assumes "run_decay run alone id alone env d = (d', Inr res)" and "distinct (map m_id (memories d))"
    and "dp_skipped_version_conflicts res = 0"
    and "\<not> dp_items_capped_active_leg res" and "\<not> dp_items_capped_stale_leg res"
    and "r \<in> set (memories d)" and "m_env_id r = env" and "m_status r = MS_active" and "\<not> m_pinned r"
    and "inactive_since (inactive_cutoff run) r"
    and "decays run (dream_decay_stale_threshold (dr_dream run)) (dream_decay_reference_floor (dr_dream run)) r"
    and "decays run (dream_decay_archive_threshold (dr_dream run)) 0 r"
  shows "\<exists>q \<in> set (memories d'). m_id q = m_id r \<and> m_status q = MS_archived \<and> m_version q = m_version r + 2"
proof -
  let ?ds = "dr_dream run"
  let ?cap = "dream_decay_batch_cap ?ds" and ?cut = "inactive_cutoff run"
  obtain d1 f g where f: "leg_map run MS_stale (dream_decay_stale_threshold ?ds) (dream_decay_reference_floor ?ds)
       (set (active_rows env ?cut ?cap d)) (memories d) f (memories d1)"
    and g: "leg_map run MS_archived (dream_decay_archive_threshold ?ds) 0 (set (stale_rows env ?cap d1)) (memories d1) g (memories d')"
    and all: "\<forall>m \<in> set (active_rows env ?cut ?cap d). decays run (dream_decay_stale_threshold ?ds) (dream_decay_reference_floor ?ds) m \<longrightarrow> f m \<noteq> m"
      "\<forall>m \<in> set (stale_rows env ?cap d1). decays run (dream_decay_archive_threshold ?ds) 0 m \<longrightarrow> g m \<noteq> m"
    and caps: "length (active_rows env ?cut ?cap d) < ?cap" "length (stale_rows env ?cap d1) < ?cap"
    using run_decay_rows [OF assms(1,2)] assms(3-5) by (metis not_le)
  have "r \<in> set (active_rows env ?cut ?cap d)" using uncapped_rows(1) [OF caps(1)] assms(6-10) by auto
  then obtain t where fr: "f r = moved t MS_stale r" "f r \<in> set (memories d1)"
    using all(1) assms(11) leg_map_row [OF f assms(6)] by blast
  then have "f r \<in> set (stale_rows env ?cap d1)" using uncapped_rows(2) [OF caps(2)] assms(7,9) by auto
  then obtain u where "g (f r) = moved u MS_archived (f r)" "g (f r) \<in> set (memories d')"
    using all(2) assms(12) fr(1) leg_map_row [OF g fr(2)] decays_moved by metis
  then show ?thesis using fr(1) by (intro bexI [of _ "g (f r)"]) simp_all
qed

lemma decay_archives_in_one_run_witness:
  "\<exists>d' q. fst (run_decay quiet_run alone id alone 1 forgotten_db) = d' \<and> q \<in> set (memories d') \<and> m_id q = 100 \<and>
     m_status q = MS_archived \<and> m_version q = 3"
proof -
  obtain d' res where run: "run_decay quiet_run alone id alone 1 forgotten_db = (d', Inr res)" "dp_skipped_version_conflicts res = 0"
      "\<not> dp_items_capped_active_leg res" "\<not> dp_items_capped_stale_leg res"
    using forgotten_run by auto
  have row: "forgotten_row MS_active 1 5 \<in> set (memories forgotten_db)" by (simp add: forgotten_db_row)
  have "\<exists>q \<in> set (memories d'). m_id q = m_id (forgotten_row MS_active 1 5) \<and> m_status q = MS_archived \<and> m_version q = m_version (forgotten_row MS_active 1 5) + 2"
    by (rule decay_archives_in_one_run [OF run(1) forgotten_ids run(2-4) row])
      (simp_all add: forgotten_decays forgotten_decays_archive quiet_cutoff inactive_since_def,
       simp_all add: forgotten_row_def note_row_def new_memory_def notes_write_def)
  then show ?thesis using run(1) by (auto simp: forgotten_row_def note_row_def new_memory_def)
qed

end
