(* ===== verification/Ranking.thy ===== *)
theory Ranking
  imports Complex_Main "HOL-Library.Product_Lexorder" Prelude
begin

text \<open>
  Reciprocal rank fusion, \<open>memory_mcp/search/ranking.py\<close>. Python floats are real numbers; a
  \<open>dict\<close> keyed by memory ids is the list of its values in insertion order, one per id. The lemmas
  say what the fused map holds: one entry per id, the sum of the reciprocal ranks, every source once;
  and that the sort is a stable descending sort.
\<close>

record ranked_hit =
  rh_memory_id :: uuid
  rh_rank :: nat
  rh_raw_score :: real
  rh_source :: string

text \<open>\<open>updated_at\<close> is \<open>None\<close> until the caller fills it in.\<close>

record fused_hit =
  fh_memory_id :: uuid
  fh_score :: real
  fh_sources :: "string list"
  fh_raw_scores :: "(string \<times> real) list"
  fh_pinned :: bool
  fh_salience :: real
  fh_updated_at :: "time option"

definition new_fused :: "uuid \<Rightarrow> fused_hit" where
  "new_fused i = \<lparr>fh_memory_id = i, fh_score = 0, fh_sources = [], fh_raw_scores = [], fh_pinned = False,
     fh_salience = 0, fh_updated_at = None\<rparr>"

text \<open>\<open>d[k] = v\<close> on a dict: in place, or at the end.\<close>

fun dict_set :: "'k \<Rightarrow> 'v \<Rightarrow> ('k \<times> 'v) list \<Rightarrow> ('k \<times> 'v) list" where
  "dict_set k v [] = [(k, v)]"
| "dict_set k v (p # ps) = (if fst p = k then (k, v) # ps else p # dict_set k v ps)"

definition add_once :: "'a \<Rightarrow> 'a list \<Rightarrow> 'a list" where
  "add_once x xs = (if x \<in> set xs then xs else xs @ [x])"

definition fuse_into :: "nat \<Rightarrow> ranked_hit \<Rightarrow> fused_hit \<Rightarrow> fused_hit" where
  "fuse_into k h e = e\<lparr>fh_score := fh_score e + 1 / (real k + real (rh_rank h)),
     fh_raw_scores := dict_set (rh_source h) (rh_raw_score h) (fh_raw_scores e),
     fh_sources := add_once (rh_source h) (fh_sources e)\<rparr>"

definition fuse_hit :: "nat \<Rightarrow> fused_hit list \<Rightarrow> ranked_hit \<Rightarrow> fused_hit list" where
  "fuse_hit k out h =
     (if list_ex (\<lambda>e. fh_memory_id e = rh_memory_id h) out
      then update_where (\<lambda>e. fh_memory_id e = rh_memory_id h) (fuse_into k h) out
      else out @ [fuse_into k h (new_fused (rh_memory_id h))])"

definition reciprocal_rank_fuse :: "nat \<Rightarrow> ranked_hit list list \<Rightarrow> fused_hit list" where
  "reciprocal_rank_fuse k ranked = foldl (foldl (fuse_hit k)) [] ranked"

definition rrf_k :: nat where
  "rrf_k = 60"

text \<open>\<open>h.salience or 0.0\<close> is \<open>h.salience\<close>.\<close>

definition apply_salience_boost :: "real \<Rightarrow> fused_hit list \<Rightarrow> fused_hit list" where
  "apply_salience_boost weight hits = map (\<lambda>h. h\<lparr>fh_score := fh_score h * (1 + weight * fh_salience h)\<rparr>) hits"

text \<open>
  The key of the descending sort, negated for the ascending one: both are stable. A hit without a
  time comes after every time (\<open>datetime.min\<close> is before every row's).
\<close>

definition hit_order :: "fused_hit \<Rightarrow> int \<times> real \<times> int \<times> int" where
  "hit_order h = ((if fh_pinned h then 0 else 1), - fh_score h,
     (case fh_updated_at h of None \<Rightarrow> (1, 0) | Some t \<Rightarrow> (0, - t)))"

definition sort_hits :: "fused_hit list \<Rightarrow> fused_hit list" where
  "sort_hits hits = sort_key hit_order hits"

subsection \<open>What fusing computes\<close>

lemma fuse_into_id [simp]: "fh_memory_id (fuse_into k h e) = fh_memory_id e"
  by (simp add: fuse_into_def)

lemma new_fused_id [simp]: "fh_memory_id (new_fused i) = i" "fh_score (new_fused i) = 0" "fh_sources (new_fused i) = []"
  by (simp_all add: new_fused_def)

lemma list_ex_key: "list_ex (\<lambda>e. key e = k) xs \<longleftrightarrow> k \<in> key ` set xs"
  by (induction xs) auto

lemma fuse_hit_ids:
  "map fh_memory_id (fuse_hit k out h) = (if rh_memory_id h \<in> fh_memory_id ` set out then map fh_memory_id out
     else map fh_memory_id out @ [rh_memory_id h])"
  by (simp add: fuse_hit_def list_ex_key)

lemma fuse_hit_distinct: "distinct (map fh_memory_id out) \<Longrightarrow> distinct (map fh_memory_id (fuse_hit k out h))"
  unfolding fuse_hit_ids by auto

lemma foldl_concat: "foldl (foldl f) a xss = foldl f a (concat xss)"
  by (induction xss arbitrary: a) simp_all

lemma set_add_once [simp]: "set (add_once x xs) = insert x (set xs)"
  by (auto simp: add_once_def)

lemma distinct_add_once: "distinct xs \<Longrightarrow> distinct (add_once x xs)"
  by (simp add: add_once_def)

text \<open>What the entry of an id holds after the hits \<open>hs\<close>.\<close>

definition rrf_entry :: "nat \<Rightarrow> ranked_hit list \<Rightarrow> fused_hit \<Rightarrow> bool" where
  "rrf_entry k hs e \<longleftrightarrow>
     fh_score e = (\<Sum>h \<leftarrow> filter (\<lambda>h. rh_memory_id h = fh_memory_id e) hs. 1 / (real k + real (rh_rank h))) \<and>
     set (fh_sources e) = rh_source ` {h \<in> set hs. rh_memory_id h = fh_memory_id e} \<and> distinct (fh_sources e)"

lemma rrf_entry_step:
  assumes "\<forall>e \<in> set out. rrf_entry k hs e" and "fh_memory_id ` set out = rh_memory_id ` set hs"
  shows "\<forall>e \<in> set (fuse_hit k out h). rrf_entry k (hs @ [h]) e"
proof -
  have new: "rrf_entry k (hs @ [h]) (fuse_into k h (new_fused (rh_memory_id h)))" if "rh_memory_id h \<notin> rh_memory_id ` set hs"
  proof -
    have ne: "rh_memory_id x \<noteq> rh_memory_id h" if "x \<in> set hs" for x
      using imageI [OF that, of rh_memory_id] \<open>rh_memory_id h \<notin> rh_memory_id ` set hs\<close> by metis
    have none: "filter (\<lambda>x. rh_memory_id x = rh_memory_id h) hs = []" using ne by (auto simp: filter_empty_conv)
    have "{x \<in> set (hs @ [h]). rh_memory_id x = rh_memory_id h} = {h}" using ne by auto
    then show ?thesis by (simp add: rrf_entry_def none fuse_into_def new_fused_def add_once_def)
  qed
  have upd: "rrf_entry k (hs @ [h]) (if fh_memory_id e = rh_memory_id h then fuse_into k h e else e)" if "rrf_entry k hs e" for e
  proof (cases "fh_memory_id e = rh_memory_id h")
    case True
    have "{x \<in> set (hs @ [h]). rh_memory_id x = rh_memory_id h} = insert h {x \<in> set hs. rh_memory_id x = rh_memory_id h}" by auto
    then show ?thesis using that True by (auto simp: rrf_entry_def fuse_into_def distinct_add_once)
  next
    case False
    then have "{x \<in> set (hs @ [h]). rh_memory_id x = fh_memory_id e} = {x \<in> set hs. rh_memory_id x = fh_memory_id e}" by auto
    then show ?thesis using that False by (simp add: rrf_entry_def)
  qed
  show ?thesis
  proof (cases "rh_memory_id h \<in> fh_memory_id ` set out")
    case True
    then have "fuse_hit k out h = update_where (\<lambda>e. fh_memory_id e = rh_memory_id h) (fuse_into k h) out"
      by (simp add: fuse_hit_def list_ex_key)
    then show ?thesis using assms(1) upd by (metis (no_types, lifting) imageE set_update_where)
  next
    case False
    then have eq: "fuse_hit k out h = out @ [fuse_into k h (new_fused (rh_memory_id h))]"
      by (simp add: fuse_hit_def list_ex_key)
    have "fh_memory_id e \<noteq> rh_memory_id h" if "e \<in> set out" for e
      using imageI [OF that, of fh_memory_id] False by metis
    then have "rrf_entry k (hs @ [h]) e" if "e \<in> set out" for e
      using upd [of e] assms(1) that by simp
    then show ?thesis using new False assms(2) unfolding eq by auto
  qed
qed

lemma fused_spec:
  assumes "fused = foldl (fuse_hit k) [] hs"
  shows "distinct (map fh_memory_id fused) \<and> fh_memory_id ` set fused = rh_memory_id ` set hs \<and> (\<forall>e \<in> set fused. rrf_entry k hs e)"
  using assms
proof (induction hs arbitrary: fused rule: rev_induct)
  case Nil
  then show ?case by simp
next
  case (snoc h hs)
  let ?out = "foldl (fuse_hit k) [] hs"
  have IH: "distinct (map fh_memory_id ?out)" "fh_memory_id ` set ?out = rh_memory_id ` set hs" "\<forall>e \<in> set ?out. rrf_entry k hs e"
    using snoc.IH by blast+
  have fused: "fused = fuse_hit k ?out h" using snoc.prems by simp
  have "set (map fh_memory_id fused) = insert (rh_memory_id h) (rh_memory_id ` set hs)"
    unfolding fused fuse_hit_ids using IH(2) by auto
  then show ?case unfolding fused using fuse_hit_distinct [OF IH(1)] rrf_entry_step [OF IH(3,2)] fused by simp
qed

text \<open>Reciprocal rank fusion computes its formula: one entry for every id some list ranks, whose
  score is the sum of \<open>1 / (k + rank)\<close> over its appearances in all lists and whose sources are those
  that rank it, each once. So the scores do not depend on the order of the lists.\<close>

lemma rrf_spec:
  "distinct (map fh_memory_id (reciprocal_rank_fuse k ranked)) \<and>
   fh_memory_id ` set (reciprocal_rank_fuse k ranked) = rh_memory_id ` set (concat ranked) \<and>
   list_all (rrf_entry k (concat ranked)) (reciprocal_rank_fuse k ranked)"
  using fused_spec [OF refl, of k "concat ranked"] by (simp add: reciprocal_rank_fuse_def foldl_concat list_all_iff)

text \<open>The copy of the fused map's facts that other theories use.\<close>

lemma rrf_distinct: "distinct (map fh_memory_id (reciprocal_rank_fuse k ranked))"
  using fused_spec [OF refl, of k "concat ranked"] by (simp add: reciprocal_rank_fuse_def foldl_concat)

lemma rrf_ids: "fh_memory_id ` set (reciprocal_rank_fuse k ranked) = rh_memory_id ` set (concat ranked)"
  using fused_spec [OF refl, of k "concat ranked"] by (simp add: reciprocal_rank_fuse_def foldl_concat)

lemma boost_ids [simp]: "map fh_memory_id (apply_salience_boost w hits) = map fh_memory_id hits"
  by (simp add: apply_salience_boost_def)

lemma sort_hits_set [simp]: "set (sort_hits hits) = set hits"
  by (simp add: sort_hits_def)

lemma sort_hits_length [simp]: "length (sort_hits hits) = length hits"
  by (simp add: sort_hits_def)

lemma sort_hits_distinct: "distinct (map fh_memory_id hits) \<Longrightarrow> distinct (map fh_memory_id (sort_hits hits))"
  by (simp add: sort_hits_def distinct_map)

lemma sort_hits_sorted: "sorted (map hit_order (sort_hits hits))"
  by (simp add: sort_hits_def)

text \<open>A pinned hit comes before every other, then the scores descend.\<close>

lemma hit_order_le: "hit_order a \<le> hit_order b \<Longrightarrow>
    (fh_pinned b \<longrightarrow> fh_pinned a) \<and> (fh_pinned a = fh_pinned b \<longrightarrow> fh_score b \<le> fh_score a)"
  by (auto simp: hit_order_def split: if_splits option.splits)

end
