(* ===== verification/SearchLegs.thy ===== *)
theory SearchLegs
  imports Ranking MemoryRows
begin

text \<open>
  The three retrieval legs of \<open>mem_search\<close>: \<open>search/lex.py\<close>, \<open>search/sem.py\<close>,
  \<open>search/graph.py\<close> with \<open>search/entity_resolution.py\<close>. What is not this code is a parameter:
  full text matching and its rank (Postgres), the embedding model, the vector store, the graph store,
  and the named entity recogniser with its pattern fallback.
\<close>

subsection \<open>Parameters\<close>

record embedder =
  em_model_id :: string
  em_embed :: "string \<Rightarrow> real list res"

record vector_filter =
  vf_statuses :: "memory_status list"
  vf_kinds :: "memory_kind list option"
  vf_tags :: "string list option"
  vf_has_trigger :: "bool option"

text \<open>
  \<open>sb_match query m\<close> is the \<open>ts_rank_cd\<close> of a row that matches the query. The vector store
  answers (environment, vector, limit, filter, vector name) with scored ids, the graph store
  (environment, entity, hops, limit) with the ids and path lengths of a page of neighbours.
\<close>

record search_backend =
  sb_match :: "string \<Rightarrow> memory \<Rightarrow> real option"
  sb_embedder :: embedder
  sb_vectors :: "uuid \<Rightarrow> real list \<Rightarrow> nat \<Rightarrow> vector_filter \<Rightarrow> string \<Rightarrow> (uuid \<times> real) list res"
  sb_graph_store :: "unit res"
  sb_neighbors :: "uuid \<Rightarrow> uuid \<Rightarrow> nat \<Rightarrow> nat \<Rightarrow> (uuid \<times> nat) list res"
  sb_mentions :: "string \<Rightarrow> string list"

record search_settings =
  ss_min_per_leg :: nat
  ss_graph_hops :: nat
  ss_entities_per_env :: nat
  ss_entities_total :: nat

text \<open>\<open>is_expired\<close> and \<open>exclude_expired_clause\<close>\<close>

definition is_expired :: "time \<Rightarrow> memory \<Rightarrow> bool" where
  "is_expired now m \<longleftrightarrow> (case m_expires_at m of None \<Rightarrow> False | Some t \<Rightarrow> t \<le> now)"

text \<open>\<open>if kinds: ... in kinds\<close>: an empty list is no filter.\<close>

definition in_filter :: "'a list option \<Rightarrow> 'a \<Rightarrow> bool" where
  "in_filter f x \<longleftrightarrow> (case f of None \<Rightarrow> True | Some xs \<Rightarrow> xs = [] \<or> x \<in> set xs)"

definition tags_filter :: "string list option \<Rightarrow> string list \<Rightarrow> bool" where
  "tags_filter f names \<longleftrightarrow> (case f of None \<Rightarrow> True | Some ts \<Rightarrow> ts = [] \<or> list_ex (\<lambda>t. t \<in> set names) ts)"

definition at_or_after :: "time option \<Rightarrow> time \<Rightarrow> bool" where
  "at_or_after bound t \<longleftrightarrow> (case bound of None \<Rightarrow> True | Some b \<Rightarrow> b \<le> t)"

definition before :: "time option \<Rightarrow> time \<Rightarrow> bool" where
  "before bound t \<longleftrightarrow> (case bound of None \<Rightarrow> True | Some b \<Rightarrow> t < b)"

text \<open>\<open>enumerate\<close> with ranks from 1\<close>

fun ranked_from :: "nat \<Rightarrow> string \<Rightarrow> (uuid \<times> real) list \<Rightarrow> ranked_hit list" where
  "ranked_from i source [] = []"
| "ranked_from i source ((j, s) # xs) =
     \<lparr>rh_memory_id = j, rh_rank = i, rh_raw_score = s, rh_source = source\<rparr> # ranked_from (Suc i) source xs"

definition ranked_hits :: "string \<Rightarrow> (uuid \<times> real) list \<Rightarrow> ranked_hit list" where
  "ranked_hits source xs = ranked_from 1 source xs"

subsection \<open>Lexical\<close>

record lex_filter =
  lf_statuses :: "memory_status list"
  lf_kinds :: "memory_kind list option"
  lf_tags :: "string list option"
  lf_created_after :: "time option"
  lf_created_before :: "time option"
  lf_updated_after :: "time option"
  lf_include_expired :: bool

definition lex_where :: "time \<Rightarrow> db \<Rightarrow> uuid list \<Rightarrow> lex_filter \<Rightarrow> memory \<Rightarrow> bool" where
  "lex_where now d env_ids f m \<longleftrightarrow> m_env_id m \<in> set env_ids \<and> m_status m \<in> set (lf_statuses f) \<and>
     (lf_include_expired f \<or> \<not> is_expired now m) \<and> in_filter (lf_kinds f) (m_kind m) \<and>
     tags_filter (lf_tags f) (load_tag_names d (m_id m)) \<and>
     at_or_after (lf_created_after f) (m_created_at m) \<and> before (lf_created_before f) (m_created_at m) \<and>
     at_or_after (lf_updated_after f) (m_updated_at m)"

definition lex_search ::
  "(string \<Rightarrow> memory \<Rightarrow> real option) \<Rightarrow> time \<Rightarrow> db \<Rightarrow> string \<Rightarrow> uuid list \<Rightarrow> lex_filter \<Rightarrow> nat \<Rightarrow> ranked_hit list" where
  "lex_search matches now d query env_ids f limit =
     (if strip query = [] \<or> env_ids = [] then []
      else ranked_hits ''lex'' (map (\<lambda>m. (m_id m, the (matches query m)))
        (take limit (sort_key (\<lambda>m. (- the (matches query m), - m_updated_at m))
          (filter (\<lambda>m. matches query m \<noteq> None \<and> lex_where now d env_ids f m) (memories d))))))"

subsection \<open>Vectors\<close>

definition check_env_models :: "string \<Rightarrow> uuid list \<Rightarrow> db \<Rightarrow> unit res" where
  "check_env_models model env_ids d =
     (case filter (\<lambda>e. lookup env_id e (environments d) = None) env_ids of
        e # es \<Rightarrow> Inl (NotFoundError ''environments'' e)
      | [] \<Rightarrow> (case filter (\<lambda>r. env_id r \<in> set env_ids \<and> env_embedding_model r \<noteq> model) (environments d) of
            r # rs \<Rightarrow> Inl (EmbeddingModelMismatchError (env_embedding_model r) model)
          | [] \<Rightarrow> Inr ()))"

text \<open>\<open>gather\<close>, with the error of the first environment that fails\<close>

fun vector_pages :: "(uuid \<Rightarrow> (uuid \<times> real) list res) \<Rightarrow> uuid list \<Rightarrow> (uuid \<times> real) list res" where
  "vector_pages f [] = Inr []"
| "vector_pages f (e # es) = bindE (f e) (\<lambda>xs. bindE (vector_pages f es) (\<lambda>ys. Inr (xs @ ys)))"

text \<open>A dict of the best score per id.\<close>

fun best_scores :: "(uuid \<times> real) list \<Rightarrow> (uuid \<times> real) list \<Rightarrow> (uuid \<times> real) list" where
  "best_scores best [] = best"
| "best_scores best ((i, s) # rest) =
     best_scores (case map_of best i of None \<Rightarrow> best @ [(i, s)] | Some b \<Rightarrow> if b < s then dict_set i s best else best) rest"

definition sem_search :: "search_backend \<Rightarrow> db \<Rightarrow> string \<Rightarrow> uuid list \<Rightarrow> vector_filter \<Rightarrow> nat \<Rightarrow> ranked_hit list res" where
  "sem_search be d query env_ids f limit =
     (if strip query = [] \<or> env_ids = [] then Inr []
      else
        bindE (check_env_models (em_model_id (sb_embedder be)) env_ids d) (\<lambda>_.
        bindE (em_embed (sb_embedder be) query) (\<lambda>v.
        bindE (vector_pages (\<lambda>e. sb_vectors be e v limit f ''body'') env_ids) (\<lambda>merged.
          Inr (ranked_hits ''sem'' (take limit (sort_key (\<lambda>(i, s). - s) (best_scores [] merged))))))))"

subsection \<open>Graph\<close>

definition mention_candidates :: "db \<Rightarrow> uuid \<Rightarrow> string \<Rightarrow> uuid list" where
  "mention_candidates d env nm =
     (let canonical = [e_id e. e \<leftarrow> entities d, e_env_id e = env \<and> e_normalized_name e = nm] in
      foldl (\<lambda>out i. add_once i out) canonical
        [ea_entity_id a. a \<leftarrow> entity_aliases d, ea_env_id a = env \<and> ea_normalized_alias a = nm])"

text \<open>
  The loops with their breaks. \<open>n\<close> counts over all environments; the boolean says that the
  inner loop was left by its break. An environment's list is also its set of seen ids.
\<close>

fun take_candidates :: "nat \<Rightarrow> nat \<Rightarrow> uuid list \<Rightarrow> uuid list \<Rightarrow> nat \<Rightarrow> uuid list \<times> nat" where
  "take_candidates per_env cap [] acc n = (acc, n)"
| "take_candidates per_env cap (i # is) acc n =
     (if i \<in> set acc then take_candidates per_env cap is acc n
      else if per_env \<le> Suc (length acc) \<or> cap \<le> Suc n then (acc @ [i], Suc n)
      else take_candidates per_env cap is (acc @ [i]) (Suc n))"

fun take_mentions :: "nat \<Rightarrow> nat \<Rightarrow> (string \<Rightarrow> uuid list) \<Rightarrow> string list \<Rightarrow> uuid list \<Rightarrow> nat \<Rightarrow> uuid list \<times> nat" where
  "take_mentions per_env cap cands [] acc n = (acc, n)"
| "take_mentions per_env cap cands (nm # nms) acc n =
     (let (acc', n') = take_candidates per_env cap (cands nm) acc n in
      if per_env \<le> length acc' \<or> cap \<le> n' then (acc', n')
      else take_mentions per_env cap cands nms acc' n')"

fun take_envs :: "nat \<Rightarrow> nat \<Rightarrow> (uuid \<Rightarrow> string \<Rightarrow> uuid list) \<Rightarrow> string list \<Rightarrow> uuid list \<Rightarrow> nat \<Rightarrow> (uuid \<times> uuid list) list" where
  "take_envs per_env cap cands nms [] n = []"
| "take_envs per_env cap cands nms (env # envs) n =
     (let (found, n') = take_mentions per_env cap (cands env) nms [] n;
          here = (if found = [] then [] else [(env, found)])
      in if cap \<le> n' then here else here @ take_envs per_env cap cands nms envs n')"

definition resolve_query_entities :: "search_settings \<Rightarrow> db \<Rightarrow> string list \<Rightarrow> uuid list \<Rightarrow> (uuid \<times> uuid list) list" where
  "resolve_query_entities ss d mentions env_ids =
     (let nms = filter (\<lambda>m. m \<noteq> []) (dedupe mentions) in
      if nms = [] \<or> env_ids = [] then []
      else take_envs (ss_entities_per_env ss) (ss_entities_total ss) (mention_candidates d) nms (dedupe env_ids) 0)"

text \<open>What is collected per memory over all calls of \<open>neighbors\<close>.\<close>

record memory_aggregate =
  ag_memory_id :: uuid
  ag_entities :: "uuid list"
  ag_min_path :: nat
  ag_rank_score :: real
  ag_first_order :: nat

record neighbor_row =
  nb_memory_id :: uuid
  nb_entity_id :: uuid
  nb_order :: nat
  nb_rank :: nat
  nb_path :: nat

definition aggregate_row :: "neighbor_row \<Rightarrow> memory_aggregate \<Rightarrow> memory_aggregate" where
  "aggregate_row r a = a\<lparr>ag_entities := add_once (nb_entity_id r) (ag_entities a),
     ag_min_path := min (nb_path r) (ag_min_path a),
     ag_rank_score := ag_rank_score a + 1 / (60 + real (nb_rank r)),
     ag_first_order := min (nb_order r) (ag_first_order a)\<rparr>"

definition aggregate_hit :: "memory_aggregate list \<Rightarrow> neighbor_row \<Rightarrow> memory_aggregate list" where
  "aggregate_hit agg r =
     (if list_ex (\<lambda>a. ag_memory_id a = nb_memory_id r) agg
      then update_where (\<lambda>a. ag_memory_id a = nb_memory_id r) (aggregate_row r) agg
      else agg @ [aggregate_row r \<lparr>ag_memory_id = nb_memory_id r, ag_entities = [], ag_min_path = 2 ^ 30,
             ag_rank_score = 0, ag_first_order = 2 ^ 30\<rparr>])"

definition graph_order :: "memory_aggregate \<Rightarrow> int \<times> nat \<times> real \<times> nat \<times> uuid" where
  "graph_order a = (- int (length (ag_entities a)), ag_min_path a, - ag_rank_score a, ag_first_order a, ag_memory_id a)"

fun fetch_neighbors ::
  "(uuid \<Rightarrow> uuid \<Rightarrow> (uuid \<times> nat) list res) \<Rightarrow> nat \<Rightarrow> (uuid \<times> uuid) list \<Rightarrow> neighbor_row list res" where
  "fetch_neighbors f k [] = Inr []"
| "fetch_neighbors f k ((env, entity) # calls) =
     bindE (f env entity) (\<lambda>hits.
     bindE (fetch_neighbors f (Suc k) calls) (\<lambda>rest.
       Inr (map (\<lambda>(i, j, path). \<lparr>nb_memory_id = j, nb_entity_id = entity, nb_order = k, nb_rank = i, nb_path = path\<rparr>)
              (zip [1..<Suc (length hits)] hits) @ rest)))"

definition graph_search :: "search_backend \<Rightarrow> search_settings \<Rightarrow> db \<Rightarrow> string \<Rightarrow> uuid list \<Rightarrow> nat \<Rightarrow> ranked_hit list res" where
  "graph_search be ss d query env_ids limit =
     (if query = [] \<or> env_ids = [] \<or> limit = 0 then Inr []
      else
        let mentions = sb_mentions be query; resolved = resolve_query_entities ss d mentions env_ids in
        if mentions = [] \<or> resolved = [] then Inr []
        else
          bindE (fetch_neighbors (\<lambda>env entity. sb_neighbors be env entity (ss_graph_hops ss) (max (2 * limit) (ss_min_per_leg ss))) 0
              [(env, entity). (env, es) \<leftarrow> resolved, entity \<leftarrow> es]) (\<lambda>rows.
            let agg = foldl aggregate_hit [] rows in
            Inr (ranked_hits ''graph'' (map (\<lambda>a. (ag_memory_id a, real (length (ag_entities a))))
              (take limit (sort_key graph_order agg))))))"

subsection \<open>What the legs return\<close>

lemma ranked_from_ids: "map rh_memory_id (ranked_from i s xs) = map fst xs"
  by (induction xs arbitrary: i) auto

lemma ranked_hits_ids [simp]: "map rh_memory_id (ranked_hits s xs) = map fst xs"
  by (simp add: ranked_hits_def ranked_from_ids)

lemma lex_search_where:
  assumes "h \<in> set (lex_search matches now d query env_ids f limit)"
  shows "\<exists>m \<in> set (memories d). m_id m = rh_memory_id h \<and> lex_where now d env_ids f m"
proof -
  let ?rows = "take limit (sort_key (\<lambda>m. (- the (matches query m), - m_updated_at m))
          (filter (\<lambda>m. matches query m \<noteq> None \<and> lex_where now d env_ids f m) (memories d)))"
  have "rh_memory_id h \<in> set (map rh_memory_id (lex_search matches now d query env_ids f limit))" using assms by simp
  moreover have "lex_search matches now d query env_ids f limit \<noteq> []" using assms by auto
  ultimately have "rh_memory_id h \<in> set (map m_id ?rows)"
    unfolding lex_search_def ranked_hits_ids by (auto simp del: set_map simp: comp_def split: if_splits)
  then show ?thesis by (fastforce dest!: in_set_takeD)
qed

end
