(* ===== verification/Search.thy ===== *)
theory Search
  imports SearchLegs
begin

text \<open>
  \<open>mem_search\<close>, \<open>memory_mcp/search/api.py\<close>: mode dispatch, the freshness wait, the legs, fusion,
  the redirection of superseded hits, the filters and the fallback ladder. A pass reads the database
  in several transactions; \<open>search_view\<close> names the states they see. \<open>now\<close> is both clocks.
\<close>

subsection \<open>Requests and responses\<close>

datatype search_mode = SM_auto | SM_hybrid | SM_lex | SM_sem | SM_graph | SM_id

datatype consistency_mode = CM_default | CM_fresh | CM_canonical

datatype expansion_preset = EP_narrow | EP_default | EP_broad

record search_request =
  sr_query :: string
  sr_env_ids :: "uuid list option"
  sr_kinds :: "memory_kind list option"
  sr_tags :: "string list option"
  sr_created_after :: "time option"
  sr_created_before :: "time option"
  sr_updated_after :: "time option"
  sr_mode :: search_mode
  sr_limit :: nat
  sr_expansion :: "expansion_preset option"
  sr_include_stale :: bool
  sr_include_archived :: bool
  sr_include_retired :: bool
  sr_include_expired :: bool
  sr_follow_superseded :: bool
  sr_consistency :: consistency_mode
  sr_ids :: "uuid list option"
  sr_min_score :: "real option"
  sr_fallback :: bool

record search_hit =
  sh_memory :: memory_response
  sh_score :: real
  sh_sources :: "string list"
  sh_raw_scores :: "(string \<times> real) list"

record projection_entry =
  pe_env_id :: uuid
  pe_sink :: outbox_sink
  pe_last_event_id :: "int option"
  pe_lag :: "time option"
  pe_status :: "projection_status option"

record search_response =
  sp_hits :: "search_hit list"
  sp_mode :: search_mode
  sp_effective_mode :: search_mode
  sp_consistency_used :: consistency_mode
  sp_projection_status :: "projection_entry list"
  sp_truncated :: bool
  sp_fallback_used :: "string list"
  sp_expansion_resolved :: "payload option"

definition empty_response :: "search_mode \<Rightarrow> search_mode \<Rightarrow> consistency_mode \<Rightarrow> search_response" where
  "empty_response mode effective used = \<lparr>sp_hits = [], sp_mode = mode, sp_effective_mode = effective,
     sp_consistency_used = used, sp_projection_status = [], sp_truncated = False, sp_fallback_used = [],
     sp_expansion_resolved = None\<rparr>"

text \<open>The field values an expansion preset stands for.\<close>

definition expansion_preset_updates :: "search_request \<Rightarrow> payload option" where
  "expansion_preset_updates req = (case sr_expansion req of
       None \<Rightarrow> None
     | Some EP_default \<Rightarrow> Some []
     | Some EP_narrow \<Rightarrow> Some [(''min_score'', JReal (35/1000)), (''fallback'', JBool False), (''follow_superseded'', JBool False)]
     | Some EP_broad \<Rightarrow> Some [(''fallback'', JBool True), (''follow_superseded'', JBool True), (''include_stale'', JBool True),
         (''include_archived'', JBool True)])"

definition resolve_expansion_preset :: "search_request \<Rightarrow> search_request" where
  "resolve_expansion_preset req = (case sr_expansion req of
       Some EP_narrow \<Rightarrow> req\<lparr>sr_min_score := Some (35/1000), sr_fallback := False, sr_follow_superseded := False\<rparr>
     | Some EP_broad \<Rightarrow> req\<lparr>sr_fallback := True, sr_follow_superseded := True, sr_include_stale := True, sr_include_archived := True\<rparr>
     | _ \<Rightarrow> req)"

definition with_expansion_resolved :: "search_response \<Rightarrow> payload option \<Rightarrow> search_response" where
  "with_expansion_resolved resp r = (case r of None \<Rightarrow> resp | Some u \<Rightarrow> resp\<lparr>sp_expansion_resolved := Some u\<rparr>)"

subsection \<open>Dispatch\<close>

definition is_hex :: "char \<Rightarrow> bool" where
  "is_hex c = (let n = of_char c :: nat in (48 \<le> n \<and> n \<le> 57) \<or> (65 \<le> n \<and> n \<le> 70) \<or> (97 \<le> n \<and> n \<le> 102))"

fun dash_groups :: "string \<Rightarrow> string list" where
  "dash_groups [] = [[]]"
| "dash_groups (c # cs) = (if c = CHR ''-'' then [] # dash_groups cs
     else case dash_groups cs of g # gs \<Rightarrow> (c # g) # gs | [] \<Rightarrow> [[c]])"

text \<open>\<open>^[0-9a-fA-F]{8,32}(-[0-9a-fA-F]+)*$\<close>\<close>

definition uuid_shaped :: "string \<Rightarrow> bool" where
  "uuid_shaped s \<longleftrightarrow> (case dash_groups s of
       g # gs \<Rightarrow> 8 \<le> length g \<and> length g \<le> 32 \<and> list_all is_hex g \<and> list_all (\<lambda>h. h \<noteq> [] \<and> list_all is_hex h) gs
     | [] \<Rightarrow> False)"

definition resolve_auto_mode :: "string \<Rightarrow> search_mode res" where
  "resolve_auto_mode query =
     (let trimmed = strip query in
      if trimmed = [] then Inl (InvalidInputError ''mem_search query cannot be empty'')
      else if uuid_shaped trimmed then Inr SM_id else Inr SM_hybrid)"

definition hex_digit :: "char \<Rightarrow> nat" where
  "hex_digit c = (let n = of_char c :: nat in if n \<le> 57 then n - 48 else if n \<le> 70 then n - 55 else n - 87)"

text \<open>\<open>UUID(s)\<close> on the strings that have the shape above.\<close>

definition parse_uuid :: "string \<Rightarrow> uuid option" where
  "parse_uuid s = (let h = filter (\<lambda>c. c \<noteq> CHR ''-'') s in
     if length h = 32 then Some (foldl (\<lambda>n c. 16 * n + hex_digit c) 0 h) else None)"

definition with_auto_resolved_id :: "search_request \<Rightarrow> search_request" where
  "with_auto_resolved_id req =
     (if sr_ids req \<noteq> None \<and> sr_ids req \<noteq> Some [] then req
      else case parse_uuid (strip (sr_query req)) of None \<Rightarrow> req | Some i \<Rightarrow> req\<lparr>sr_ids := Some [i]\<rparr>)"

definition statuses_to_query :: "search_request \<Rightarrow> memory_status list" where
  "statuses_to_query req = [MS_proposed, MS_active] @ (if sr_include_stale req then [MS_stale] else []) @
     (if sr_include_archived req then [MS_archived] else []) @ (if sr_include_retired req then [MS_retired, MS_superseded] else [])"

definition resolve_env_ids :: "uuid list option \<Rightarrow> agent_context \<Rightarrow> uuid list" where
  "resolve_env_ids explicit ctx = (case explicit of
       Some (e # es) \<Rightarrow> dedupe (e # es) | _ \<Rightarrow> dedupe (ctx_attached_env_ids ctx))"

subsection \<open>Freshness\<close>

definition projection_status :: "db \<Rightarrow> uuid list \<Rightarrow> outbox_sink list \<Rightarrow> projection_entry list" where
  "projection_status d env_ids sinks =
     map (\<lambda>p. \<lparr>pe_env_id = pj_env_id p, pe_sink = pj_sink p, pe_last_event_id = pj_last_event_id p, pe_lag = pj_lag p,
         pe_status = pj_status p\<rparr>)
       (filter (\<lambda>p. pj_env_id p \<in> set env_ids \<and> pj_sink p \<in> set sinks) (projection_state d))"

text \<open>The latest event of each environment that has one.\<close>

definition capture_watermarks :: "db \<Rightarrow> uuid list \<Rightarrow> (uuid \<times> int) list" where
  "capture_watermarks d env_ids =
     concat (map (\<lambda>e. let evs = map ob_event_id (filter (\<lambda>r. ob_env_id r = e) (outbox d)) in
       if evs = [] then [] else [(e, Max (set evs))]) env_ids)"

definition watermark_reached :: "db \<Rightarrow> outbox_sink list \<Rightarrow> uuid \<times> int \<Rightarrow> bool" where
  "watermark_reached d sinks w \<longleftrightarrow> list_all (\<lambda>s.
     list_ex (\<lambda>p. pj_env_id p = fst w \<and> pj_sink p = s \<and> (case pj_last_event_id p of None \<Rightarrow> False | Some n \<Rightarrow> snd w \<le> n))
       (projection_state d)) sinks"

text \<open>\<open>polls\<close> are the states seen until the deadline; the loop reads at least once.\<close>

definition wait_for_watermarks :: "(uuid \<times> int) list \<Rightarrow> outbox_sink list \<Rightarrow> db list \<Rightarrow> bool" where
  "wait_for_watermarks marks sinks polls \<longleftrightarrow>
     marks = [] \<or> sinks = [] \<or> list_ex (\<lambda>d. list_all (watermark_reached d sinks) marks) polls"

subsection \<open>Hydration and superseded hits\<close>

text \<open>A dict of rows by id is the list of the rows.\<close>

definition hydrate_memories :: "db \<Rightarrow> uuid list \<Rightarrow> uuid list \<Rightarrow> memory list" where
  "hydrate_memories d ids env_ids =
     (if ids = [] then []
      else filter (\<lambda>m. m_id m \<in> set ids \<and> (env_ids = [] \<or> m_env_id m \<in> set env_ids)) (memories d))"

text \<open>The rows a dict gains by \<open>update\<close>, and the successors still to be looked up.\<close>

definition new_rows :: "memory list \<Rightarrow> memory list \<Rightarrow> memory list" where
  "new_rows mems batch = filter (\<lambda>m. m_id m \<notin> m_id ` set mems) batch"

definition pending_successors :: "memory list \<Rightarrow> memory list \<Rightarrow> uuid list" where
  "pending_successors mems batch =
     concat (map (\<lambda>m. case m_superseded_by m of None \<Rightarrow> []
       | Some j \<Rightarrow> if j \<in> m_id ` set mems then [] else [j]) batch)"

function (sequential) hydrate_loop :: "db \<Rightarrow> uuid list \<Rightarrow> memory list \<Rightarrow> uuid list \<Rightarrow> memory list" where
  "hydrate_loop d env_ids mems [] = mems"
| "hydrate_loop d env_ids mems (i # is) =
     (let batch = hydrate_memories d (i # is) env_ids; mems' = mems @ new_rows mems batch in
      hydrate_loop d env_ids mems' (pending_successors mems' batch))"
  by pat_completeness auto

text \<open>The measure: the rows not loaded yet, then whether the pending ids are all unknown.\<close>

definition unloaded :: "db \<Rightarrow> memory list \<Rightarrow> memory set" where
  "unloaded d mems = {m \<in> set (memories d). m_id m \<notin> m_id ` set mems}"

definition pending_rank :: "memory list \<Rightarrow> uuid list \<Rightarrow> nat" where
  "pending_rank mems pending = (if pending = [] then 0 else if set pending \<inter> m_id ` set mems = {} then 1 else 2)"

lemma pending_successors_unknown: "set (pending_successors mems batch) \<inter> m_id ` set mems = {}"
  by (auto simp: pending_successors_def split: option.splits if_splits)

lemma unloaded_new:
  assumes "batch \<subseteq> set (memories d)" and "set (new_rows mems bs) \<noteq> {}" and "batch = set bs"
  shows "card (unloaded d (mems @ new_rows mems bs)) < card (unloaded d mems)"
proof (rule psubset_card_mono)
  show "finite (unloaded d mems)" by (simp add: unloaded_def)
  obtain m where m: "m \<in> set (new_rows mems bs)" using assms(2) by (cases "new_rows mems bs") auto
  then have "m \<in> unloaded d mems" "m \<notin> unloaded d (mems @ new_rows mems bs)"
    using assms(1,3) by (auto simp: new_rows_def unloaded_def)
  moreover have "unloaded d (mems @ new_rows mems bs) \<subseteq> unloaded d mems" by (auto simp: unloaded_def)
  ultimately show "unloaded d (mems @ new_rows mems bs) \<subset> unloaded d mems" by blast
qed

lemma hydrate_loop_decreases:
  fixes mems batch :: "memory list"
  assumes batch: "batch = hydrate_memories d (i # is) env_ids" and mems': "mems' = mems @ new_rows mems batch"
  shows "3 * card (unloaded d mems') + pending_rank mems' (pending_successors mems' batch) < 3 * card (unloaded d mems) + pending_rank mems (i # is)"
proof -
  have rank: "pending_rank mems' (pending_successors mems' batch) \<le> 1"
    using pending_successors_unknown [of mems' batch] by (simp add: pending_rank_def)
  show ?thesis
  proof (cases "set (new_rows mems batch) = {}")
    case False
    have "set batch \<subseteq> set (memories d)" by (auto simp: batch hydrate_memories_def)
    then have "card (unloaded d mems') < card (unloaded d mems)" using unloaded_new [OF _ False refl] by (simp add: mems')
    then show ?thesis using rank by simp
  next
    case True
    then have same: "mems' = mems" by (simp add: mems')
    show ?thesis
    proof (cases "set (i # is) \<inter> m_id ` set mems = {}")
      case unknown: True
      have "batch = []"
      proof (rule ccontr)
        assume "batch \<noteq> []"
        then obtain m where m: "m \<in> set batch" by (cases batch) auto
        then have "m_id m \<in> set (i # is)" by (auto simp: batch hydrate_memories_def split: if_splits)
        then have "m \<in> set (new_rows mems batch)" using unknown m by (auto simp: new_rows_def)
        then show False using True by simp
      qed
      then show ?thesis using same unknown by (simp add: pending_rank_def pending_successors_def)
    next
      case False
      then have "pending_rank mems (i # is) = 2" by (simp add: pending_rank_def)
      then show ?thesis using same rank by simp
    qed
  qed
qed

termination hydrate_loop
  by (relation "measure (\<lambda>(d, env_ids, mems, pending). 3 * card (unloaded d mems) + pending_rank mems pending)")
    (simp_all add: hydrate_loop_decreases)

definition max_hops :: nat where
  "max_hops = 8"

text \<open>\<open>seen\<close> holds the ids on the way; a cycle gives the start back.\<close>

fun walk_chain :: "nat \<Rightarrow> memory list \<Rightarrow> uuid \<Rightarrow> uuid \<Rightarrow> uuid list \<Rightarrow> uuid" where
  "walk_chain 0 mems start cursor seen = cursor"
| "walk_chain (Suc n) mems start cursor seen =
     (case lookup m_id cursor mems of
        None \<Rightarrow> cursor
      | Some row \<Rightarrow> (case m_superseded_by row of
            None \<Rightarrow> cursor
          | Some nxt \<Rightarrow>
              if nxt \<in> set seen then start
              else if lookup m_id nxt mems = None then cursor
              else walk_chain n mems start nxt (nxt # seen)))"

definition chain_resolution :: "memory list \<Rightarrow> uuid list \<Rightarrow> (uuid \<times> uuid) list" where
  "chain_resolution mems starts =
     filter (\<lambda>(i, j). i \<noteq> j) (map (\<lambda>i. (i, walk_chain max_hops mems i i [i])) starts)"

definition merge_fused :: "fused_hit \<Rightarrow> fused_hit \<Rightarrow> fused_hit" where
  "merge_fused old e = e\<lparr>fh_score := fh_score e + fh_score old,
     fh_sources := foldl (\<lambda>xs x. add_once x xs) (fh_sources e) (fh_sources old),
     fh_raw_scores := foldl (\<lambda>xs (k, v). dict_set k v xs) (fh_raw_scores e) (fh_raw_scores old)\<rparr>"

definition redirect :: "fused_hit list \<Rightarrow> uuid \<times> uuid \<Rightarrow> fused_hit list" where
  "redirect fused p =
     (case lookup fh_memory_id (fst p) fused of
        None \<Rightarrow> fused
      | Some old \<Rightarrow>
          let rest = delete_where (\<lambda>h. fh_memory_id h = fst p) fused in
          (case lookup fh_memory_id (snd p) rest of
            None \<Rightarrow> rest @ [old\<lparr>fh_memory_id := snd p\<rparr>]
          | Some e \<Rightarrow> update_where (\<lambda>h. fh_memory_id h = snd p) (merge_fused old) rest))"

definition superseded_ids :: "memory list \<Rightarrow> uuid list" where
  "superseded_ids mems = map m_id (filter (\<lambda>m. m_superseded_by m \<noteq> None) mems)"

text \<open>The fused map, the rows loaded on the way and the redirections.\<close>

definition follow_superseded ::
  "db \<Rightarrow> uuid list \<Rightarrow> fused_hit list \<Rightarrow> memory list \<Rightarrow> fused_hit list \<times> memory list \<times> (uuid \<times> uuid) list" where
  "follow_superseded d env_ids fused mems =
     (let starts = superseded_ids mems in
      if starts = [] then (fused, mems, [])
      else
        let mems' = hydrate_loop d env_ids mems (pending_successors mems mems);
            resolution = chain_resolution mems' starts
        in (foldl redirect fused resolution, mems', resolution))"

end
