(* ===== verification/SearchPass.thy ===== *)
theory SearchPass
  imports Search
begin

text \<open>
  One pass of \<open>mem_search\<close>, the fallback ladder around it, the lookup by ids, and the search by
  trigger description with \<open>search/auto_context.py\<close> on top of it.
\<close>

text \<open>The states the transactions of a pass see: the capture of the watermarks, the polls of the
  wait until its deadline, the three legs, and the post-processing.\<close>

record search_view =
  sv_start :: db
  sv_polls :: "db list"
  sv_lex :: db
  sv_sem :: db
  sv_graph :: db
  sv_final :: db

subsection \<open>Retrieval\<close>

definition do_lex :: "search_backend \<Rightarrow> time \<Rightarrow> db \<Rightarrow> search_request \<Rightarrow> uuid list \<Rightarrow> memory_status list \<Rightarrow> nat \<Rightarrow> ranked_hit list" where
  "do_lex be now d req env_ids statuses leg_limit =
     lex_search (sb_match be) now d (sr_query req) env_ids
       \<lparr>lf_statuses = statuses, lf_kinds = sr_kinds req, lf_tags = sr_tags req, lf_created_after = sr_created_after req,
        lf_created_before = sr_created_before req, lf_updated_after = sr_updated_after req,
        lf_include_expired = sr_include_expired req\<rparr> leg_limit"

definition do_sem :: "search_backend \<Rightarrow> db \<Rightarrow> search_request \<Rightarrow> uuid list \<Rightarrow> memory_status list \<Rightarrow> nat \<Rightarrow> ranked_hit list res" where
  "do_sem be d req env_ids statuses leg_limit =
     (let sem_statuses = filter (\<lambda>s. s \<in> {MS_proposed, MS_active, MS_stale}) statuses in
      if sem_statuses = [] then Inr []
      else sem_search be d (sr_query req) env_ids
        \<lparr>vf_statuses = sem_statuses, vf_kinds = sr_kinds req, vf_tags = sr_tags req, vf_has_trigger = None\<rparr> leg_limit)"

definition do_graph :: "search_backend \<Rightarrow> search_settings \<Rightarrow> db \<Rightarrow> search_request \<Rightarrow> uuid list \<Rightarrow> nat \<Rightarrow> ranked_hit list res" where
  "do_graph be ss d req env_ids leg_limit =
     (if strip (sr_query req) = [] then Inr [] else graph_search be ss d (sr_query req) env_ids leg_limit)"

definition graph_leg :: "search_backend \<Rightarrow> search_settings \<Rightarrow> db \<Rightarrow> search_request \<Rightarrow> uuid list \<Rightarrow> nat \<Rightarrow> ranked_hit list res" where
  "graph_leg be ss d req env_ids leg_limit =
     bindE (sb_graph_store be) (\<lambda>_. do_graph be ss d req env_ids leg_limit)"

fun retrieve ::
  "search_mode \<Rightarrow> search_backend \<Rightarrow> search_settings \<Rightarrow> time \<Rightarrow> search_view \<Rightarrow> search_request \<Rightarrow> uuid list \<Rightarrow> memory_status list \<Rightarrow> nat
   \<Rightarrow> ranked_hit list list res" where
  "retrieve SM_lex be ss now v req env_ids statuses n = Inr [do_lex be now (sv_lex v) req env_ids statuses n]"
| "retrieve SM_sem be ss now v req env_ids statuses n = bindE (do_sem be (sv_sem v) req env_ids statuses n) (\<lambda>xs. Inr [xs])"
| "retrieve SM_graph be ss now v req env_ids statuses n =
     (case graph_leg be ss (sv_graph v) req env_ids n of Inl e \<Rightarrow> Inl GraphBackendUnavailableError | Inr xs \<Rightarrow> Inr [xs])"
| "retrieve SM_hybrid be ss now v req env_ids statuses n =
     bindE (do_sem be (sv_sem v) req env_ids statuses n) (\<lambda>sem.
       Inr [do_lex be now (sv_lex v) req env_ids statuses n, sem,
            (case graph_leg be ss (sv_graph v) req env_ids n of Inl e \<Rightarrow> [] | Inr xs \<Rightarrow> xs)])"
| "retrieve mode be ss now v req env_ids statuses n = Inl (ValueError ''unsupported mode'')"

subsection \<open>Fusion and filters\<close>

definition passes_post_filters :: "time \<Rightarrow> db \<Rightarrow> search_request \<Rightarrow> memory_status list \<Rightarrow> memory \<Rightarrow> bool" where
  "passes_post_filters now d req statuses m \<longleftrightarrow> m_status m \<in> set statuses \<and> in_filter (sr_kinds req) (m_kind m) \<and>
     tags_filter (sr_tags req) (load_tag_names d (m_id m)) \<and>
     at_or_after (sr_created_after req) (m_created_at m) \<and> before (sr_created_before req) (m_created_at m) \<and>
     at_or_after (sr_updated_after req) (m_updated_at m) \<and> (sr_include_expired req \<or> \<not> is_expired now m)"

definition hydrate_hit :: "memory list \<Rightarrow> fused_hit \<Rightarrow> fused_hit" where
  "hydrate_hit mems h = (case lookup m_id (fh_memory_id h) mems of
       None \<Rightarrow> h
     | Some m \<Rightarrow> h\<lparr>fh_salience := m_salience m, fh_pinned := m_pinned m, fh_updated_at := Some (m_updated_at m)\<rparr>)"

text \<open>The surviving fused map, boosted, and the rows it refers to.\<close>

definition fuse_and_filter ::
  "time \<Rightarrow> db \<Rightarrow> search_request \<Rightarrow> uuid list \<Rightarrow> ranked_hit list list \<Rightarrow> fused_hit list \<times> memory list" where
  "fuse_and_filter now d req env_ids ranked =
     (let fused0 = reciprocal_rank_fuse rrf_k ranked;
          mems0 = hydrate_memories d (map fh_memory_id fused0) env_ids;
          fused1 = filter (\<lambda>h. fh_memory_id h \<in> m_id ` set mems0) fused0;
          (fused2, mems, _) = (if sr_follow_superseded req then follow_superseded d env_ids fused1 mems0 else (fused1, mems0, []));
          fused3 = filter (\<lambda>h. case lookup m_id (fh_memory_id h) mems of None \<Rightarrow> False
             | Some m \<Rightarrow> passes_post_filters now d req (statuses_to_query req) m) fused2;
          fused4 = apply_salience_boost (1/2) (map (hydrate_hit mems) fused3)
      in (case sr_min_score req of None \<Rightarrow> fused4 | Some s \<Rightarrow> filter (\<lambda>h. s \<le> fh_score h) fused4, mems))"

definition search_hits :: "(uuid \<Rightarrow> reference_columns) \<Rightarrow> db \<Rightarrow> memory list \<Rightarrow> fused_hit list \<Rightarrow> search_hit list" where
  "search_hits refs d mems hits = concat (map (\<lambda>h. case lookup m_id (fh_memory_id h) mems of None \<Rightarrow> []
     | Some m \<Rightarrow> [\<lparr>sh_memory = memory_to_response refs m (load_tag_names d (m_id m)), sh_score = fh_score h,
          sh_sources = fh_sources h, sh_raw_scores = fh_raw_scores h\<rparr>]) hits)"

subsection \<open>Lookup by ids\<close>

text \<open>The resolved rows in request order; \<open>seen\<close> are the targets taken.\<close>

fun serve_order ::
  "time \<Rightarrow> search_request \<Rightarrow> memory_status list \<Rightarrow> memory list \<Rightarrow> (uuid \<times> uuid) list \<Rightarrow> uuid list \<Rightarrow> uuid list \<Rightarrow> memory list" where
  "serve_order now req statuses mems resolved seen [] = []"
| "serve_order now req statuses mems resolved seen (i # is) =
     (let target = (case map_of resolved i of None \<Rightarrow> i | Some j \<Rightarrow> j) in
      if target \<in> set seen then serve_order now req statuses mems resolved seen is
      else case lookup m_id target mems of
        None \<Rightarrow> serve_order now req statuses mems resolved seen is
      | Some m \<Rightarrow>
          if m_status m \<notin> set statuses \<or> (\<not> sr_include_expired req \<and> is_expired now m)
          then serve_order now req statuses mems resolved seen is
          else m # serve_order now req statuses mems resolved (target # seen) is)"

definition serve_by_ids ::
  "(uuid \<Rightarrow> reference_columns) \<Rightarrow> time \<Rightarrow> db \<Rightarrow> search_request \<Rightarrow> uuid list \<Rightarrow> memory_status list \<Rightarrow> search_mode \<Rightarrow> search_response" where
  "serve_by_ids refs now d req env_ids statuses response_mode =
     (let ids = (case sr_ids req of None \<Rightarrow> [] | Some is \<Rightarrow> dedupe is) in
      if ids = [] then empty_response response_mode SM_id CM_canonical
      else
        let mems0 = hydrate_memories d ids env_ids;
            (_, mems, resolved) = (if sr_follow_superseded req
               then follow_superseded d env_ids (map (\<lambda>m. (new_fused (m_id m))\<lparr>fh_score := 1, fh_sources := [''id'']\<rparr>) mems0) mems0
               else ([], mems0, []));
            ordered = serve_order now req statuses mems resolved [] ids
        in \<lparr>sp_hits = map (\<lambda>m. \<lparr>sh_memory = memory_to_response refs m (load_tag_names d (m_id m)), sh_score = 1,
                sh_sources = [''id''], sh_raw_scores = [(''id'', 1)]\<rparr>) (take (sr_limit req) ordered),
            sp_mode = response_mode, sp_effective_mode = SM_id, sp_consistency_used = CM_canonical,
            sp_projection_status = projection_status d env_ids [SK_qdrant],
            sp_truncated = (sr_limit req < length ordered), sp_fallback_used = [], sp_expansion_resolved = None\<rparr>)"

subsection \<open>A pass\<close>

definition needed_sinks :: "search_mode \<Rightarrow> outbox_sink list" where
  "needed_sinks mode = (if mode \<in> {SM_hybrid, SM_sem} then [SK_qdrant] else []) @ (if mode \<in> {SM_hybrid, SM_graph} then [SK_neo4j] else [])"

definition consistency_used :: "search_view \<Rightarrow> search_mode \<Rightarrow> search_request \<Rightarrow> uuid list \<Rightarrow> consistency_mode" where
  "consistency_used v mode req env_ids =
     (if mode \<in> {SM_hybrid, SM_sem, SM_graph} \<and> sr_consistency req = CM_fresh \<and> env_ids \<noteq> [] \<and>
         \<not> wait_for_watermarks (capture_watermarks (sv_start v) env_ids) (needed_sinks mode) (sv_polls v)
      then CM_canonical else sr_consistency req)"

definition effective_mode :: "search_mode \<Rightarrow> consistency_mode \<Rightarrow> search_mode" where
  "effective_mode mode used = (if used = CM_canonical \<and> mode \<in> {SM_hybrid, SM_sem, SM_graph} then SM_lex else mode)"

definition retrieval_statuses :: "search_request \<Rightarrow> memory_status list" where
  "retrieval_statuses req = (let s = statuses_to_query req in
     if sr_follow_superseded req \<and> MS_superseded \<notin> set s then s @ [MS_superseded] else s)"

definition memory_search_pass ::
  "(uuid \<Rightarrow> reference_columns) \<Rightarrow> search_backend \<Rightarrow> search_settings \<Rightarrow> time \<Rightarrow> agent_context \<Rightarrow> search_view \<Rightarrow> search_request
   \<Rightarrow> search_response res" where
  "memory_search_pass refs be ss now ctx v req =
     bindE (if sr_mode req = SM_auto then resolve_auto_mode (sr_query req) else Inr (sr_mode req)) (\<lambda>mode.
     let env_ids = resolve_env_ids (sr_env_ids req) ctx in
     if mode = SM_id
     then Inr (serve_by_ids refs now (sv_final v) (if sr_mode req = SM_auto then with_auto_resolved_id req else req)
                 env_ids (statuses_to_query req) (sr_mode req))
     else
       let used = consistency_used v mode req env_ids; eff = effective_mode mode used in
       if env_ids = [] then Inr (empty_response (sr_mode req) eff used)
       else
         bindE (retrieve eff be ss now v req env_ids (retrieval_statuses req) (max (2 * sr_limit req) (ss_min_per_leg ss))) (\<lambda>ranked.
         let d = sv_final v; (fused, mems) = fuse_and_filter now d req env_ids ranked;
             sinks = (if needed_sinks mode = [] then [SK_qdrant] else needed_sinks mode)
         in Inr \<lparr>sp_hits = search_hits refs d mems (take (sr_limit req) (sort_hits fused)), sp_mode = sr_mode req,
                 sp_effective_mode = eff, sp_consistency_used = used,
                 sp_projection_status = projection_status d env_ids sinks,
                 sp_truncated = (sr_limit req < length fused), sp_fallback_used = [], sp_expansion_resolved = None\<rparr>))"

subsection \<open>The fallback ladder\<close>

definition step_widen_mode :: "search_request \<Rightarrow> search_request option" where
  "step_widen_mode req = (if sr_mode req = SM_lex then Some (req\<lparr>sr_mode := SM_hybrid\<rparr>) else None)"

definition step_drop_filters :: "search_request \<Rightarrow> search_request option" where
  "step_drop_filters req =
     (if (sr_kinds req = None \<or> sr_kinds req = Some []) \<and> (sr_tags req = None \<or> sr_tags req = Some []) \<and>
         sr_created_after req = None \<and> sr_created_before req = None \<and> sr_updated_after req = None
      then None
      else Some (req\<lparr>sr_kinds := None, sr_tags := None, sr_created_after := None, sr_created_before := None,
                  sr_updated_after := None\<rparr>))"

definition step_widen_lifecycle :: "search_request \<Rightarrow> search_request option" where
  "step_widen_lifecycle req = (if sr_include_stale req \<and> sr_include_archived req then None
     else Some (req\<lparr>sr_include_stale := True, sr_include_archived := True\<rparr>))"

definition step_boost_limit :: "search_request \<Rightarrow> search_request option" where
  "step_boost_limit req = (let n = min (sr_limit req * 5) 100 in
     if \<not> sr_follow_superseded req \<and> n = sr_limit req then None
     else Some (req\<lparr>sr_follow_superseded := False, sr_limit := n\<rparr>))"

definition fallback_steps :: "(string \<times> (search_request \<Rightarrow> search_request option)) list" where
  "fallback_steps = [(''mode->hybrid'', step_widen_mode), (''drop_filters'', step_drop_filters),
     (''widen_lifecycle'', step_widen_lifecycle), (''boost_limit'', step_boost_limit)]"

text \<open>\<open>run k\<close> is the \<open>k\<close>-th pass of the call.\<close>

fun fallback_loop ::
  "(nat \<Rightarrow> search_request \<Rightarrow> search_response res) \<Rightarrow> nat \<Rightarrow> (string \<times> (search_request \<Rightarrow> search_request option)) list
   \<Rightarrow> search_request \<Rightarrow> search_response \<Rightarrow> string list \<Rightarrow> (search_response \<times> string list) res" where
  "fallback_loop run k [] req resp used = Inr (resp, used)"
| "fallback_loop run k ((name, builder) # steps) req resp used =
     (case builder req of
        None \<Rightarrow> fallback_loop run k steps req resp used
      | Some next \<Rightarrow>
          bindE (run k next) (\<lambda>resp'.
            if sp_hits resp' \<noteq> [] then Inr (resp', used @ [name])
            else fallback_loop run (Suc k) steps next resp' (used @ [name])))"

definition memory_search_with :: "(nat \<Rightarrow> search_request \<Rightarrow> search_response res) \<Rightarrow> search_request \<Rightarrow> search_response res" where
  "memory_search_with run req =
     (let r = resolve_expansion_preset req; expansion = expansion_preset_updates req in
      bindE (run 0 r) (\<lambda>resp.
        if sp_hits resp \<noteq> [] \<or> \<not> sr_fallback r \<or> sr_mode r = SM_id
        then Inr (with_expansion_resolved resp expansion)
        else
          bindE (fallback_loop run 1 fallback_steps r resp []) (\<lambda>(resp', used).
            Inr (with_expansion_resolved (resp'\<lparr>sp_fallback_used := used\<rparr>) expansion))))"

definition memory_search ::
  "(uuid \<Rightarrow> reference_columns) \<Rightarrow> search_backend \<Rightarrow> search_settings \<Rightarrow> time \<Rightarrow> agent_context \<Rightarrow> (nat \<Rightarrow> search_view) \<Rightarrow> search_request
   \<Rightarrow> search_response res" where
  "memory_search refs be ss now ctx views req =
     memory_search_with (\<lambda>k r. memory_search_pass refs be ss now ctx (views k) r) req"

subsection \<open>Search by trigger\<close>

definition trigger_statuses :: "memory_status list" where
  "trigger_statuses = [MS_proposed, MS_active, MS_stale]"

text \<open>\<open>d1\<close> and \<open>d2\<close> are the states of the two transactions.\<close>

definition search_by_trigger :: "search_backend \<Rightarrow> db \<Rightarrow> db \<Rightarrow> string \<Rightarrow> uuid \<Rightarrow> nat \<Rightarrow> (uuid \<times> real) list res" where
  "search_by_trigger be d1 d2 task_desc env top_k =
     (let query = strip task_desc in
      if query = [] \<or> top_k = 0 then Inr []
      else case lookup env_id env (environments d1) of
        None \<Rightarrow> Inr []
      | Some e \<Rightarrow>
          bindE (raise_if (env_embedding_model e \<noteq> em_model_id (sb_embedder be))
                   (EmbeddingModelMismatchError (env_embedding_model e) (em_model_id (sb_embedder be)))) (\<lambda>_.
          bindE (em_embed (sb_embedder be) query) (\<lambda>v.
          bindE (sb_vectors be env v (max (top_k * 4) top_k)
                   \<lparr>vf_statuses = trigger_statuses, vf_kinds = None, vf_tags = None, vf_has_trigger = Some True\<rparr> ''trigger'') (\<lambda>hits.
          let scores = best_scores [] hits;
              score = (\<lambda>m. the (map_of scores (m_id m)));
              rows = filter (\<lambda>m. m_id m \<in> fst ` set scores \<and> m_env_id m = env \<and> m_trigger_description m \<noteq> None \<and>
                        m_status m \<in> set trigger_statuses) (memories d2);
              ordered = sort_key (\<lambda>m. (- score m, - m_salience m)) rows
          in Inr (if scores = [] then [] else map (\<lambda>m. (m_id m, score m)) (take top_k ordered))))))"

record auto_context_hit =
  ah_memory_id :: uuid
  ah_title :: string
  ah_body :: string
  ah_trigger_description :: string
  ah_score :: real
  ah_salience :: real
  ah_kind :: memory_kind

definition auto_context_hit_of :: "time \<Rightarrow> db \<Rightarrow> uuid \<Rightarrow> uuid \<times> real \<Rightarrow> auto_context_hit list" where
  "auto_context_hit_of now d env p =
     (case find (\<lambda>m. m_id m = fst p \<and> m_env_id m = env \<and> \<not> is_expired now m) (memories d) of
        None \<Rightarrow> []
      | Some m \<Rightarrow> (case m_trigger_description m of
            Some (c # cs) \<Rightarrow> [\<lparr>ah_memory_id = m_id m, ah_title = (case m_title m of None \<Rightarrow> [] | Some t \<Rightarrow> t), ah_body = m_body m,
              ah_trigger_description = c # cs, ah_score = snd p, ah_salience = m_salience m, ah_kind = m_kind m\<rparr>]
          | _ \<Rightarrow> []))"

definition memory_auto_context ::
  "search_backend \<Rightarrow> time \<Rightarrow> db \<Rightarrow> db \<Rightarrow> db \<Rightarrow> string \<Rightarrow> uuid \<Rightarrow> int \<Rightarrow> (auto_context_hit list \<times> string) res" where
  "memory_auto_context be now d1 d2 d3 task_desc env top_k =
     (let used = strip task_desc in
      bindE (raise_if (used = []) (InvalidInputError ''mem_auto_context task_desc cannot be empty'')) (\<lambda>_.
      bindE (raise_if (top_k < 1) (InvalidInputError ''mem_auto_context top_k must be at least 1'')) (\<lambda>_.
      bindE (search_by_trigger be d1 d2 used env (nat (min top_k 50))) (\<lambda>ranked.
        Inr (concat (map (auto_context_hit_of now d3 env) ranked), used)))))"

end
