(* ===== verification/SearchDemo.thy ===== *)
theory SearchDemo
  imports SearchPass MemoryProps
begin

text \<open>
  Concrete searches in the small store of the memory properties: a backend whose full text search
  matches every row while the embedder and the graph store are down.
\<close>

definition offline_backend :: search_backend where
  "offline_backend = \<lparr>sb_match = (\<lambda>q m. Some 1), sb_embedder = \<lparr>em_model_id = ''e5'', em_embed = (\<lambda>q. Inl (ValueError ''down''))\<rparr>,
     sb_vectors = (\<lambda>e v n f nm. Inl (ValueError ''down'')), sb_graph_store = Inl GraphBackendUnavailableError,
     sb_neighbors = (\<lambda>e i h n. Inr []), sb_mentions = (\<lambda>q. [])\<rparr>"

definition notes_search :: search_request where
  "notes_search = \<lparr>sr_query = ''T'', sr_env_ids = Some [1], sr_kinds = None, sr_tags = None, sr_created_after = None,
     sr_created_before = None, sr_updated_after = None, sr_mode = SM_lex, sr_limit = 10, sr_expansion = None,
     sr_include_stale = False, sr_include_archived = False, sr_include_retired = False, sr_include_expired = False,
     sr_follow_superseded = True, sr_consistency = CM_default, sr_ids = None, sr_min_score = None, sr_fallback = False\<rparr>"

definition small_legs :: search_settings where
  "small_legs = \<lparr>ss_min_per_leg = 50, ss_graph_hops = 1, ss_entities_per_env = 8, ss_entities_total = 16\<rparr>"

definition notes_view :: search_view where
  "notes_view = \<lparr>sv_start = notes_one, sv_polls = [], sv_lex = notes_one, sv_sem = notes_one, sv_graph = notes_one, sv_final = notes_one\<rparr>"

lemmas search_defs = memory_search_pass_def do_lex_def lex_search_def lex_where_def fuse_and_filter_def reciprocal_rank_fuse_def
  fuse_hit_def fuse_into_def new_fused_def add_once_def hydrate_memories_def follow_superseded_def superseded_ids_def
  passes_post_filters_def in_filter_def tags_filter_def at_or_after_def before_def is_expired_def apply_salience_boost_def
  hydrate_hit_def search_hits_def sort_hits_def statuses_to_query_def retrieval_statuses_def resolve_env_ids_def
  consistency_used_def effective_mode_def needed_sinks_def rrf_k_def ranked_hits_def

lemmas search_demo_defs = offline_backend_def notes_search_def small_legs_def notes_view_def

lemma strip_T: "strip ''T'' = ''T''"
  by (simp add: strip_def is_space_def)

lemma notes_found:
  "\<exists>resp. memory_search_pass no_refs offline_backend small_legs 9 notes_ctx notes_view (notes_search\<lparr>sr_consistency := c, sr_mode := SM_lex\<rparr>) = Inr resp \<and>
     map (\<lambda>h. mr_id (sh_memory h)) (sp_hits resp) = [100] \<and> sp_effective_mode resp = SM_lex \<and> sp_consistency_used resp = c"
  by (simp add: search_defs search_demo_defs strip_T notes_one_def note_row_def new_memory_def notes_write_def Let_def memory_to_response_def)

lemma notes_not_found:
  "\<exists>resp. memory_search no_refs offline_backend small_legs 9 notes_ctx (\<lambda>k. notes_view)
     (notes_search\<lparr>sr_mode := SM_auto, sr_query := ''20240131'', sr_fallback := True\<rparr>) = Inr resp"
  by (simp add: memory_search_def memory_search_with_def resolve_expansion_preset_def memory_search_pass_def resolve_auto_mode_def
      strip_def is_space_def uuid_shaped_def is_hex_def serve_by_ids_def empty_response_def with_auto_resolved_id_def parse_uuid_def
      fallback_steps_def step_widen_mode_def step_drop_filters_def step_widen_lifecycle_def step_boost_limit_def notes_search_def Let_def)

end
