(* ===== verification/SearchProps.thy ===== *)
theory SearchProps
  imports SearchDemo
begin

text \<open>
  What a search may show and in which order, that following superseded hits reaches the end of their
  chain and loses no score, that a canonical search does not depend on the projections, and two ways
  in which the dispatch by ids surprises.
\<close>

subsection \<open>Loading successors\<close>

definition readable_rows :: "db \<Rightarrow> uuid list \<Rightarrow> memory set" where
  "readable_rows d env_ids = {m \<in> set (memories d). env_ids = [] \<or> m_env_id m \<in> set env_ids}"

lemma hydrate_visible: "set (hydrate_memories d ids env_ids) = {m \<in> readable_rows d env_ids. m_id m \<in> set ids}"
  by (auto simp: hydrate_memories_def readable_rows_def)

lemma hydrate_distinct: "distinct (map m_id (memories d)) \<Longrightarrow> distinct (map m_id (hydrate_memories d ids env_ids))"
  by (simp add: hydrate_memories_def distinct_map_filter)

lemma new_rows_distinct:
  assumes "distinct (map m_id mems)" and "distinct (map m_id batch)"
  shows "distinct (map m_id (mems @ new_rows mems batch))"
  using assms by (auto simp: new_rows_def distinct_map_filter image_iff)

lemma hydrate_loop_visible:
  "set mems \<subseteq> readable_rows d env_ids \<Longrightarrow> set (hydrate_loop d env_ids mems pending) \<subseteq> readable_rows d env_ids"
proof (induction d env_ids mems pending rule: hydrate_loop.induct)
  case (2 d env_ids mems i "is")
  have "set (new_rows mems (hydrate_memories d (i # is) env_ids)) \<subseteq> readable_rows d env_ids"
    using hydrate_visible [of d "i # is" env_ids] by (auto simp: new_rows_def)
  then show ?case using 2 by (simp add: Let_def)
qed simp

lemma hydrate_loop_keeps: "set mems \<subseteq> set (hydrate_loop d env_ids mems pending)"
proof (induction d env_ids mems pending rule: hydrate_loop.induct)
  case (2 d env_ids mems i "is")
  then show ?case by (auto simp: Let_def)
qed simp

lemma hydrate_loop_distinct:
  "distinct (map m_id (memories d)) \<Longrightarrow> distinct (map m_id mems) \<Longrightarrow> distinct (map m_id (hydrate_loop d env_ids mems pending))"
proof (induction d env_ids mems pending rule: hydrate_loop.induct)
  case (2 d env_ids mems i "is")
  have "distinct (map m_id (mems @ new_rows mems (hydrate_memories d (i # is) env_ids)))"
    by (rule new_rows_distinct [OF "2.prems"(2) hydrate_distinct [OF "2.prems"(1)]])
  then show ?case using "2.IH" [OF refl refl "2.prems"(1)] by (simp add: Let_def)
qed simp

text \<open>Closed under visible successors: every loaded row's successor is loaded, pending, or not visible.\<close>

definition successors_loaded :: "db \<Rightarrow> uuid list \<Rightarrow> memory list \<Rightarrow> uuid list \<Rightarrow> bool" where
  "successors_loaded d env_ids mems pending \<longleftrightarrow> (\<forall>m \<in> set mems. \<forall>j. m_superseded_by m = Some j \<longrightarrow>
     j \<in> m_id ` set mems \<or> j \<in> set pending \<or> j \<notin> m_id ` readable_rows d env_ids)"

lemma pending_successors_covers:
  "m \<in> set batch \<Longrightarrow> m_superseded_by m = Some j \<Longrightarrow> j \<in> m_id ` set mems \<or> j \<in> set (pending_successors mems batch)"
  by (cases "j \<in> m_id ` set mems") (force simp: pending_successors_def)+

lemma hydrate_loop_closed:
  "successors_loaded d env_ids mems pending \<Longrightarrow> successors_loaded d env_ids (hydrate_loop d env_ids mems pending) []"
proof (induction d env_ids mems pending rule: hydrate_loop.induct)
  case (1 d env_ids mems)
  then show ?case by simp
next
  case (2 d env_ids mems i "is")
  let ?batch = "hydrate_memories d (i # is) env_ids"
  let ?mems = "mems @ new_rows mems ?batch"
  have sub: "m_id ` set mems \<subseteq> m_id ` set ?mems" "m_id ` set ?batch \<subseteq> m_id ` set ?mems"
    by (auto simp: new_rows_def)
  have "successors_loaded d env_ids ?mems (pending_successors ?mems ?batch)"
    unfolding successors_loaded_def
  proof (intro ballI allI impI)
    fix m j assume m: "m \<in> set ?mems" and j: "m_superseded_by m = Some j"
    show "j \<in> m_id ` set ?mems \<or> j \<in> set (pending_successors ?mems ?batch) \<or> j \<notin> m_id ` readable_rows d env_ids"
    proof (cases "m \<in> set ?batch")
      case True
      then show ?thesis using pending_successors_covers [OF _ j] by blast
    next
      case False
      then have "m \<in> set mems" using m by (auto simp: new_rows_def)
      then consider "j \<in> m_id ` set mems" | "j \<in> set (i # is)" "j \<in> m_id ` readable_rows d env_ids" | "j \<notin> m_id ` readable_rows d env_ids"
        using "2.prems" j unfolding successors_loaded_def by blast
      then show ?thesis
      proof cases
        case 2
        then have "j \<in> m_id ` set ?batch" unfolding hydrate_visible by auto
        then show ?thesis using sub(2) by blast
      qed (use sub(1) in blast)+
    qed
  qed
  then show ?case using "2.IH" [OF refl refl] by (simp add: Let_def)
qed

subsection \<open>Following chains\<close>

text \<open>One hop between visible rows.\<close>

definition succeeds :: "db \<Rightarrow> uuid list \<Rightarrow> (uuid \<times> uuid) set" where
  "succeeds d env_ids = {(m_id m, j) | m j. m \<in> readable_rows d env_ids \<and> m_superseded_by m = Some j \<and> j \<in> m_id ` readable_rows d env_ids}"

lemma lookup_in_image: "lookup m_id i mems \<noteq> None \<longleftrightarrow> i \<in> m_id ` set mems"
  by (induction mems) auto

lemma walk_chain_path:
  assumes "set mems \<subseteq> readable_rows d env_ids" and "cursor \<in> m_id ` set mems" and "(start, cursor) \<in> (succeeds d env_ids)\<^sup>*"
  shows "(start, walk_chain n mems start cursor seen) \<in> (succeeds d env_ids)\<^sup>*"
  using assms(2,3)
proof (induction n arbitrary: cursor seen)
  case (Suc n)
  obtain row where row: "lookup m_id cursor mems = Some row" using Suc.prems(1) lookup_in_image [of cursor mems] by auto
  have "(start, walk_chain n mems start j (j # seen)) \<in> (succeeds d env_ids)\<^sup>*"
    if j: "m_superseded_by row = Some j" "lookup m_id j mems = Some m" for j m
  proof -
    have "j \<in> m_id ` set mems" using j(2) lookup_in_image [of j mems] by simp
    moreover have "(cursor, j) \<in> succeeds d env_ids"
      using lookup_SomeD [OF row] j(1) calculation assms(1) by (auto simp: succeeds_def)
    ultimately show ?thesis using Suc.IH [of j "j # seen"] Suc.prems(2) by (meson rtrancl_into_rtrancl)
  qed
  then show ?case using row Suc.prems(2) by (auto split: option.split)
qed simp

subsection \<open>Redirecting\<close>

lemma delete_id_ids: "set (map fh_memory_id (delete_where (\<lambda>h. fh_memory_id h = i) fused)) = fh_memory_id ` set fused - {i}"
  by auto

lemma merge_fused_fields [simp]:
  "fh_memory_id (merge_fused old e) = fh_memory_id e" "fh_score (merge_fused old e) = fh_score e + fh_score old"
  by (simp_all add: merge_fused_def)

lemma redirect_distinct: "distinct (map fh_memory_id fused) \<Longrightarrow> distinct (map fh_memory_id (redirect fused p))"
proof -
  assume d: "distinct (map fh_memory_id fused)"
  let ?rest = "delete_where (\<lambda>h. fh_memory_id h = fst p) fused"
  have rest: "distinct (map fh_memory_id ?rest)" by (rule distinct_delete_where [OF d])
  show ?thesis
  proof (cases "lookup fh_memory_id (snd p) ?rest")
    case None
    then have "snd p \<notin> set (map fh_memory_id ?rest)" unfolding lookup_None_iff by auto
    then show ?thesis using rest d None by (simp add: redirect_def Let_def split: option.split)
  next
    case (Some e)
    then show ?thesis using rest d by (simp add: redirect_def Let_def split: option.split)
  qed
qed

lemma sum_delete:
  fixes f :: "fused_hit \<Rightarrow> real"
  shows "distinct (map fh_memory_id fused) \<Longrightarrow> lookup fh_memory_id i fused = Some old \<Longrightarrow>
    (\<Sum>h \<leftarrow> delete_where (\<lambda>h. fh_memory_id h = i) fused. f h) + f old = (\<Sum>h \<leftarrow> fused. f h)"
proof (induction fused)
  case (Cons h hs)
  show ?case
  proof (cases "fh_memory_id h = i")
    case True
    have nin: "i \<notin> fh_memory_id ` set hs" using Cons.prems(1) True by auto
    have ne: "fh_memory_id x \<noteq> i" if "x \<in> set hs" for x using imageI [OF that, of fh_memory_id] nin by metis
    have "delete_where (\<lambda>h. fh_memory_id h = i) hs = hs"
      using ne by (auto simp: delete_where_def filter_id_conv)
    then show ?thesis using Cons.prems(2) True by simp
  next
    case False
    then show ?thesis using Cons by simp
  qed
qed simp

lemma sum_filter:
  fixes f :: "'a \<Rightarrow> real"
  shows "(\<Sum>h \<leftarrow> filter P xs. f h) = (\<Sum>h \<leftarrow> xs. of_bool (P h) * f h)"
  by (induction xs) simp_all

text \<open>Merging and redirecting keep every sum of scores weighted by the id the hit ends at.\<close>

lemma sum_merge:
  fixes w :: "uuid \<Rightarrow> real"
  shows "distinct (map fh_memory_id fused) \<Longrightarrow> lookup fh_memory_id i fused = Some e \<Longrightarrow>
    (\<Sum>h \<leftarrow> update_where (\<lambda>h. fh_memory_id h = i) (merge_fused old) fused. w (fh_memory_id h) * fh_score h) =
    (\<Sum>h \<leftarrow> fused. w (fh_memory_id h) * fh_score h) + w i * fh_score old"
proof (induction fused)
  case (Cons h hs)
  show ?case
  proof (cases "fh_memory_id h = i")
    case True
    have nin: "i \<notin> fh_memory_id ` set hs" using Cons.prems(1) True by auto
    have ne: "fh_memory_id x \<noteq> i" if "x \<in> set hs" for x using imageI [OF that, of fh_memory_id] nin by metis
    have "update_where (\<lambda>h. fh_memory_id h = i) (merge_fused old) hs = hs"
      using ne by (auto simp: update_where_def map_idI)
    then show ?thesis using True by (simp add: algebra_simps)
  next
    case False
    then show ?thesis using Cons by simp
  qed
qed simp

lemma redirect_weight:
  fixes w :: "uuid \<Rightarrow> real"
  assumes "distinct (map fh_memory_id fused)"
  shows "(\<Sum>h \<leftarrow> redirect fused (i, j). w (fh_memory_id h) * fh_score h) =
    (\<Sum>h \<leftarrow> fused. w (if fh_memory_id h = i then j else fh_memory_id h) * fh_score h)"
proof (cases "lookup fh_memory_id i fused")
  case None
  then have ne: "fh_memory_id h \<noteq> i" if "h \<in> set fused" for h using that by (auto simp: lookup_None_iff)
  have "redirect fused (i, j) = fused" using None by (simp add: redirect_def)
  then show ?thesis by (simp only:, intro arg_cong [where f = sum_list] map_cong [OF refl]) (simp add: ne)
next
  case (Some old)
  let ?rest = "delete_where (\<lambda>h. fh_memory_id h = i) fused"
  let ?w = "\<lambda>h. w (if fh_memory_id h = i then j else fh_memory_id h) * fh_score h"
  have rest: "distinct (map fh_memory_id ?rest)" by (rule distinct_delete_where [OF assms])
  have id: "fh_memory_id old = i" using lookup_SomeD [OF Some] by simp
  have "(\<Sum>h \<leftarrow> ?rest. ?w h) + ?w old = (\<Sum>h \<leftarrow> fused. ?w h)" by (rule sum_delete [OF assms Some])
  moreover have "(\<Sum>h \<leftarrow> ?rest. ?w h) = (\<Sum>h \<leftarrow> ?rest. w (fh_memory_id h) * fh_score h)"
    by (rule arg_cong [where f = sum_list], rule map_cong [OF refl]) (auto simp: delete_where_def)
  ultimately have s: "(\<Sum>h \<leftarrow> fused. ?w h) = (\<Sum>h \<leftarrow> ?rest. w (fh_memory_id h) * fh_score h) + w j * fh_score old"
    using id by simp
  show ?thesis
  proof (cases "lookup fh_memory_id j ?rest")
    case None
    then show ?thesis using s Some by (simp add: redirect_def Let_def)
  next
    case (Some e)
    then show ?thesis using s \<open>lookup fh_memory_id i fused = Some old\<close> sum_merge [OF rest Some, of w old]
      by (simp add: redirect_def Let_def)
  qed
qed

lemma redirect_ids: "fh_memory_id ` set (redirect fused (i, j)) = (\<lambda>x. if x = i then j else x) ` fh_memory_id ` set fused"
proof (cases "lookup fh_memory_id i fused")
  case None
  then have "redirect fused (i, j) = fused" by (simp add: redirect_def)
  then show ?thesis using None by (auto simp: lookup_None_iff image_iff)
next
  case (Some old)
  let ?rest = "delete_where (\<lambda>h. fh_memory_id h = i) fused"
  have rest: "fh_memory_id ` set ?rest = fh_memory_id ` set fused - {i}" by (auto simp: delete_where_def)
  have "fh_memory_id ` set (redirect fused (i, j)) = insert j (fh_memory_id ` set ?rest)"
  proof (cases "lookup fh_memory_id j ?rest")
    case None
    then show ?thesis using Some by (simp add: redirect_def Let_def)
  next
    case (Some e)
    have "j \<in> fh_memory_id ` set ?rest" using lookup_SomeD [OF Some] by auto
    moreover have "map fh_memory_id (update_where (\<lambda>h. fh_memory_id h = j) (merge_fused old) ?rest) = map fh_memory_id ?rest"
      by (simp add: update_where_def)
    then have "fh_memory_id ` set (update_where (\<lambda>h. fh_memory_id h = j) (merge_fused old) ?rest) = fh_memory_id ` set ?rest"
      by (metis set_map)
    ultimately show ?thesis using Some \<open>lookup fh_memory_id i fused = Some old\<close>
      by (simp add: redirect_def Let_def insert_absorb)
  qed
  moreover have "i \<in> fh_memory_id ` set fused" using lookup_SomeD [OF Some] by auto
  ultimately show ?thesis unfolding rest by auto
qed

lemma redirects_image:
  assumes "fst ` set ps \<inter> snd ` set ps = {}"
  shows "fh_memory_id ` set (foldl redirect fused ps) =
    (\<lambda>x. case map_of ps x of None \<Rightarrow> x | Some j \<Rightarrow> j) ` fh_memory_id ` set fused"
  using assms
proof (induction ps arbitrary: fused)
  case (Cons p ps)
  obtain i j where p: "p = (i, j)" by (cases p)
  have j: "map_of ps j = None" using Cons.prems p by (auto simp: map_of_eq_None_iff)
  have "fh_memory_id ` set (foldl redirect fused (p # ps)) =
      (\<lambda>x. case map_of ps x of None \<Rightarrow> x | Some y \<Rightarrow> y) ` (\<lambda>x. if x = i then j else x) ` fh_memory_id ` set fused"
    using Cons.IH [of "redirect fused p"] Cons.prems by (auto simp: p redirect_ids)
  also have "\<dots> = (\<lambda>x. case map_of (p # ps) x of None \<Rightarrow> x | Some y \<Rightarrow> y) ` fh_memory_id ` set fused"
    unfolding image_image by (rule image_cong [OF refl]) (simp add: p j)
  finally show ?case .
qed simp

lemma redirects_weight:
  fixes w :: "uuid \<Rightarrow> real"
  assumes "distinct (map fh_memory_id fused)" and "distinct (map fst ps)" and "fst ` set ps \<inter> snd ` set ps = {}"
  shows "(\<Sum>h \<leftarrow> foldl redirect fused ps. w (fh_memory_id h) * fh_score h) =
    (\<Sum>h \<leftarrow> fused. w (case map_of ps (fh_memory_id h) of None \<Rightarrow> fh_memory_id h | Some j \<Rightarrow> j) * fh_score h)"
  using assms
proof (induction ps arbitrary: fused)
  case (Cons p ps)
  obtain i j where p: "p = (i, j)" by (cases p)
  let ?w = "\<lambda>x. w (case map_of ps x of None \<Rightarrow> x | Some y \<Rightarrow> y)"
  have j: "map_of ps j = None" using Cons.prems(3) p by (auto simp: map_of_eq_None_iff)
  have "(\<Sum>h \<leftarrow> foldl redirect fused (p # ps). w (fh_memory_id h) * fh_score h) =
      (\<Sum>h \<leftarrow> redirect fused (i, j). ?w (fh_memory_id h) * fh_score h)"
    using Cons.IH [of "redirect fused (i, j)"] Cons.prems redirect_distinct [of fused "(i, j)"] p by auto
  also have "\<dots> = (\<Sum>h \<leftarrow> fused. ?w (if fh_memory_id h = i then j else fh_memory_id h) * fh_score h)"
    by (rule redirect_weight [OF Cons.prems(1)])
  also have "\<dots> = (\<Sum>h \<leftarrow> fused. w (case map_of (p # ps) (fh_memory_id h) of None \<Rightarrow> fh_memory_id h | Some y \<Rightarrow> y) * fh_score h)"
    by (rule arg_cong [where f = sum_list], rule map_cong [OF refl]) (simp add: p j)
  finally show ?case .
qed simp

lemma redirect_score:
  assumes "distinct (map fh_memory_id fused)"
  shows "(\<Sum>h \<leftarrow> redirect fused p. fh_score h) = (\<Sum>h \<leftarrow> fused. fh_score h)"
  using redirect_weight [OF assms, where i = "fst p" and j = "snd p" and w = "\<lambda>_. 1"] by simp

lemma redirects:
  assumes "distinct (map fh_memory_id fused)"
  shows "distinct (map fh_memory_id (foldl redirect fused ps)) \<and> (\<Sum>h \<leftarrow> foldl redirect fused ps. fh_score h) = (\<Sum>h \<leftarrow> fused. fh_score h)"
  using assms by (induction ps arbitrary: fused) (auto simp: redirect_distinct redirect_score)

lemma follow_superseded_rows:
  assumes "follow_superseded d env_ids fused mems = (fused', mems', resolution)" and "set mems \<subseteq> readable_rows d env_ids"
    and "distinct (map fh_memory_id fused)"
  shows "set mems' \<subseteq> readable_rows d env_ids \<and> distinct (map fh_memory_id fused') \<and>
    (\<Sum>h \<leftarrow> fused'. fh_score h) = (\<Sum>h \<leftarrow> fused. fh_score h)"
proof (cases "superseded_ids mems = []")
  case True
  then show ?thesis using assms by (simp add: follow_superseded_def)
next
  case False
  then have "mems' = hydrate_loop d env_ids mems (pending_successors mems mems)" "fused' = foldl redirect fused resolution"
    using assms(1) by (auto simp: follow_superseded_def Let_def)
  then show ?thesis using hydrate_loop_visible [OF assms(2)] redirects [OF assms(3)] by simp
qed

lemma redirects_ids:
  assumes "set ps \<subseteq> R\<^sup>*"
  shows "fh_memory_id ` set (foldl redirect fused ps) \<subseteq> R\<^sup>* `` (fh_memory_id ` set fused)"
  using assms
proof (induction ps arbitrary: fused)
  case (Cons p ps)
  obtain i j where p: "p = (i, j)" by (cases p)
  have "(x, if x = i then j else x) \<in> R\<^sup>*" for x using Cons.prems p by simp
  then have "(\<lambda>x. if x = i then j else x) ` fh_memory_id ` set fused \<subseteq> R\<^sup>* `` (fh_memory_id ` set fused)"
    by blast
  then have "fh_memory_id ` set (redirect fused p) \<subseteq> R\<^sup>* `` (fh_memory_id ` set fused)"
    unfolding p redirect_ids .
  then have "R\<^sup>* `` (fh_memory_id ` set (redirect fused p)) \<subseteq> R\<^sup>* `` (fh_memory_id ` set fused)"
    by (blast intro: rtrancl_trans)
  then show ?case using Cons.IH [of "redirect fused p"] Cons.prems by fastforce
qed auto

lemma follow_superseded_ids:
  assumes "follow_superseded d env_ids fused mems = (fused', mems', resolution)" and "set mems \<subseteq> readable_rows d env_ids"
  shows "fh_memory_id ` set fused' \<subseteq> (succeeds d env_ids)\<^sup>* `` (fh_memory_id ` set fused)"
proof (cases "superseded_ids mems = []")
  case True
  then show ?thesis using assms(1) by (auto simp: follow_superseded_def)
next
  case False
  let ?mems = "hydrate_loop d env_ids mems (pending_successors mems mems)"
  have run: "resolution = chain_resolution ?mems (superseded_ids mems)" "fused' = foldl redirect fused resolution"
    using assms(1) False by (auto simp: follow_superseded_def Let_def)
  have "i \<in> m_id ` set ?mems" if "i \<in> set (superseded_ids mems)" for i
    using that hydrate_loop_keeps [of mems d env_ids "pending_successors mems mems"] by (auto simp: superseded_ids_def)
  then have "set resolution \<subseteq> (succeeds d env_ids)\<^sup>*"
    unfolding run(1) chain_resolution_def using walk_chain_path [OF hydrate_loop_visible [OF assms(2)]] by auto
  then show ?thesis unfolding run(2) by (rule redirects_ids)
qed

subsection \<open>Short chains\<close>

text \<open>When no chain of visible successors is longer than eight hops, none is cyclic and each ends.\<close>

lemma cycle_has_powers: "(x, x) \<in> R\<^sup>+ \<Longrightarrow> \<exists>y. (y, y) \<in> R\<^sup>+ \<and> (x, y) \<in> R ^^ n"
proof (induction n)
  case (Suc n)
  then obtain y where y: "(y, y) \<in> R\<^sup>+" "(x, y) \<in> R ^^ n" by blast
  from y(1) obtain z where z: "(y, z) \<in> R" "(z, y) \<in> R\<^sup>*" by (metis tranclD)
  then have "(z, z) \<in> R\<^sup>+" by (meson rtrancl_into_trancl1)
  then show ?case using y(2) z(1) by (auto intro: relpow_Suc_I)
qed auto

lemma short_chains_acyclic: "R ^^ n = {} \<Longrightarrow> (x, x) \<notin> R\<^sup>+"
  using cycle_has_powers [of x R n] by blast

lemma succeeds_single_valued:
  assumes "distinct (map m_id (memories d))"
  shows "single_valued (succeeds d env_ids)"
proof (rule single_valuedI)
  fix x y z assume "(x, y) \<in> succeeds d env_ids" "(x, z) \<in> succeeds d env_ids"
  then obtain m m' where m: "m \<in> set (memories d)" "m_id m = x" "m_superseded_by m = Some y"
      "m' \<in> set (memories d)" "m_id m' = x" "m_superseded_by m' = Some z"
    by (auto simp: succeeds_def readable_rows_def)
  then have "m = m'" using assms by (auto simp: distinct_map dest: inj_onD)
  then show "y = z" using m by simp
qed

lemma single_valued_end:
  assumes "single_valued R" and "(x, y) \<in> R\<^sup>*" "y \<notin> Domain R" and "(x, z) \<in> R\<^sup>*" "z \<notin> Domain R"
  shows "y = z"
  using single_valued_confluent [OF assms(1,2,4)] assms(3,5) by (auto elim: converse_rtranclE)

lemma walk_chain_end:
  assumes "set mems \<subseteq> readable_rows d env_ids" and "successors_loaded d env_ids mems []" and "distinct (map m_id (memories d))"
    and short: "succeeds d env_ids ^^ 9 = {}" and "(start, cursor) \<in> succeeds d env_ids ^^ k" and "k + n = 8"
    and "cursor \<in> m_id ` set mems" and "\<forall>x \<in> set seen. (x, cursor) \<in> (succeeds d env_ids)\<^sup>*"
  shows "(start, walk_chain n mems start cursor seen) \<in> (succeeds d env_ids)\<^sup>* \<and>
    walk_chain n mems start cursor seen \<notin> Domain (succeeds d env_ids)"
  using assms(5-8)
proof (induction n arbitrary: cursor seen k)
  case 0
  have "cursor \<notin> Domain (succeeds d env_ids)"
  proof
    assume "cursor \<in> Domain (succeeds d env_ids)"
    then obtain z where "(cursor, z) \<in> succeeds d env_ids" by blast
    moreover have "(start, cursor) \<in> succeeds d env_ids ^^ 8" using "0.prems"(1,2) by simp
    ultimately have "(start, z) \<in> succeeds d env_ids ^^ Suc 8" by (metis relpow_Suc_I)
    moreover have "Suc 8 = 9" by simp
    ultimately show False using short by (metis empty_iff)
  qed
  then show ?case using "0.prems"(1) by (auto dest: relpow_imp_rtrancl)
next
  case (Suc n)
  obtain row where row: "lookup m_id cursor mems = Some row"
    using Suc.prems(3) lookup_in_image [of cursor mems] by auto
  have r: "row \<in> set mems" "m_id row = cursor" using lookup_SomeD [OF row] by simp_all
  have uniq: "m = row" if "m \<in> readable_rows d env_ids" "m_id m = cursor" for m
    using that r assms(1,3) by (auto simp: readable_rows_def distinct_map dest!: subsetD inj_onD)
  have reach: "(start, cursor) \<in> (succeeds d env_ids)\<^sup>*" using Suc.prems(1) by (rule relpow_imp_rtrancl)
  show ?case
  proof (cases "cursor \<in> Domain (succeeds d env_ids)")
    case False
    have "lookup m_id j mems = None" if "m_superseded_by row = Some j" for j
    proof (rule ccontr)
      assume "lookup m_id j mems \<noteq> None"
      then have "j \<in> m_id ` readable_rows d env_ids" using lookup_in_image [of j mems] assms(1) by blast
      then show False using False that r assms(1) by (auto simp: succeeds_def Domain_iff)
    qed
    moreover have "j \<notin> set seen" if "m_superseded_by row = Some j" for j
    proof
      assume "j \<in> set seen"
      then have j: "(j, cursor) \<in> (succeeds d env_ids)\<^sup>*" using Suc.prems(4) by blast
      have "j \<in> m_id ` readable_rows d env_ids"
        using j r assms(1) by (cases rule: converse_rtranclE) (auto simp: succeeds_def)
      then show False using False that r assms(1) by (auto simp: succeeds_def Domain_iff)
    qed
    ultimately have "walk_chain (Suc n) mems start cursor seen = cursor" using row by (simp split: option.split)
    then show ?thesis using reach False by simp
  next
    case True
    then obtain j where cj: "(cursor, j) \<in> succeeds d env_ids" by blast
    then have j: "m_superseded_by row = Some j" "j \<in> m_id ` readable_rows d env_ids"
      using uniq by (auto simp: succeeds_def)
    then have loaded: "j \<in> m_id ` set mems" using assms(2) r(1) unfolding successors_loaded_def by auto
    have new: "j \<notin> set seen"
      using Suc.prems(4) cj short_chains_acyclic [OF short, of cursor] by (meson rtrancl_into_trancl2)
    obtain row' where "lookup m_id j mems = Some row'" using loaded lookup_in_image [of j mems] by auto
    then have step: "walk_chain (Suc n) mems start cursor seen = walk_chain n mems start j (j # seen)"
      using row j(1) new by simp
    have "(start, j) \<in> succeeds d env_ids ^^ Suc k" using Suc.prems(1) cj by (rule relpow_Suc_I)
    moreover have "\<forall>x \<in> set (j # seen). (x, j) \<in> (succeeds d env_ids)\<^sup>*"
      using Suc.prems(4) cj by (auto intro: rtrancl_into_rtrancl)
    ultimately show ?thesis using Suc.IH [of j "Suc k" "j # seen"] Suc.prems(2) loaded step by simp
  qed
qed

lemma successors_reached:
  assumes "successors_loaded d env_ids mems []" and "set mems \<subseteq> readable_rows d env_ids" and "distinct (map m_id (memories d))"
    and "(i, j) \<in> (succeeds d env_ids)\<^sup>*" and "i \<in> m_id ` set mems"
  shows "j \<in> m_id ` set mems"
  using assms(4,5)
proof (induction rule: rtrancl_induct)
  case (step y z)
  then obtain row m where row: "row \<in> set mems" "m_id row = y"
    and m: "m \<in> readable_rows d env_ids" "m_id m = y" "m_superseded_by m = Some z" "z \<in> m_id ` readable_rows d env_ids"
    by (auto simp: succeeds_def)
  have "m = row" using m(1,2) row assms(2,3) by (auto simp: readable_rows_def distinct_map dest!: subsetD inj_onD)
  then show ?case using assms(1) row m unfolding successors_loaded_def by auto
qed simp

lemma map_of_resolution:
  "map_of (chain_resolution mems starts) i =
     (if i \<in> set starts \<and> walk_chain max_hops mems i i [i] \<noteq> i then Some (walk_chain max_hops mems i i [i]) else None)"
  by (induction starts) (auto simp: chain_resolution_def)

text \<open>Where a hit ends: the id its redirection gives.\<close>

lemma resolution_ends:
  assumes run: "follow_superseded d env_ids fused mems = (fused', mems', resolution)" and rows: "set mems \<subseteq> readable_rows d env_ids"
    and ids: "distinct (map m_id (memories d))" and short: "succeeds d env_ids ^^ 9 = {}" and i: "i \<in> m_id ` set mems"
    and e: "e = (case map_of resolution i of None \<Rightarrow> i | Some j \<Rightarrow> j)"
  shows "(i, e) \<in> (succeeds d env_ids)\<^sup>* \<and> e \<notin> Domain (succeeds d env_ids) \<and> e \<in> m_id ` set mems'"
proof (cases "i \<in> set (superseded_ids mems)")
  case True
  let ?mems = "hydrate_loop d env_ids mems (pending_successors mems mems)"
  have m: "mems' = ?mems" "resolution = chain_resolution ?mems (superseded_ids mems)"
    using run True by (auto simp: follow_superseded_def Let_def split: if_splits)
  have start: "successors_loaded d env_ids mems (pending_successors mems mems)"
    unfolding successors_loaded_def using pending_successors_covers by blast
  note loaded = hydrate_loop_closed [OF start] and vis = hydrate_loop_visible [OF rows]
  have here: "i \<in> m_id ` set ?mems" using i hydrate_loop_keeps [of mems d env_ids "pending_successors mems mems"] by blast
  have e': "e = walk_chain 8 ?mems i i [i]" using e True by (simp add: m(2) map_of_resolution max_hops_def)
  have "(i, e) \<in> (succeeds d env_ids)\<^sup>* \<and> e \<notin> Domain (succeeds d env_ids)"
    unfolding e' by (rule walk_chain_end [OF vis loaded ids short, where k = 0]) (use here in auto)
  then show ?thesis using successors_reached [OF loaded vis ids _ here] m(1) by blast
next
  case False
  then have "map_of resolution i = None"
    using run by (auto simp: follow_superseded_def Let_def map_of_resolution split: if_splits)
  then have "e = i" using e by simp
  moreover obtain row where row: "row \<in> set mems" "m_id row = i" using i by blast
  then have "m_superseded_by row = None" using False by (auto simp: superseded_ids_def)
  moreover have "m = row" if "m \<in> readable_rows d env_ids" "m_id m = i" for m
    using that row ids rows by (auto simp: readable_rows_def distinct_map dest!: subsetD inj_onD)
  ultimately have "i \<notin> Domain (succeeds d env_ids)" by (auto simp: succeeds_def Domain_iff)
  moreover have "set mems \<subseteq> set mems'"
    using run hydrate_loop_keeps [of mems] by (auto simp: follow_superseded_def Let_def split: if_splits)
  ultimately show ?thesis using \<open>e = i\<close> i by blast
qed

text \<open>C24: Following superseded hits moves every hit to the end of its chain: when the loaded rows are those of the fused
  hits and no chain of visible successors is longer than eight hops, the ids of the result are exactly the ends of
  the chains that start at a fused hit, each once, with its row loaded, and the score at an end is the sum of the
  scores of the hits whose chains end there.\<close>

theorem follow_superseded_reaches_the_end:
  assumes "follow_superseded d env_ids fused mems = (fused', mems', resolution)" and "set mems \<subseteq> readable_rows d env_ids"
    and "distinct (map m_id (memories d))" and "distinct (map fh_memory_id fused)" and "distinct (map m_id mems)"
    and "fh_memory_id ` set fused \<subseteq> m_id ` set mems" and "succeeds d env_ids ^^ 9 = {}"
  shows "distinct (map fh_memory_id fused') \<and>
    fh_memory_id ` set fused' =
      {j. \<exists>h \<in> set fused. (fh_memory_id h, j) \<in> (succeeds d env_ids)\<^sup>* \<and> j \<notin> Domain (succeeds d env_ids)} \<and>
    fh_memory_id ` set fused' \<subseteq> m_id ` set mems' \<and>
    (\<forall>j. (\<Sum>h \<leftarrow> filter (\<lambda>h. fh_memory_id h = j) fused'. fh_score h) =
      (\<Sum>h \<leftarrow> filter (\<lambda>h. (fh_memory_id h, j) \<in> (succeeds d env_ids)\<^sup>* \<and> j \<notin> Domain (succeeds d env_ids)) fused. fh_score h))"
proof -
  define e where "e x = (case map_of resolution x of None \<Rightarrow> x | Some j \<Rightarrow> j)" for x
  have end_at: "(x, e x) \<in> (succeeds d env_ids)\<^sup>* \<and> e x \<notin> Domain (succeeds d env_ids) \<and> e x \<in> m_id ` set mems'"
    if "x \<in> fh_memory_id ` set fused" for x
    by (rule resolution_ends [OF assms(1-3,7) _ e_def]) (use that assms(6) in blast)
  have ends: "e x = j \<longleftrightarrow> (x, j) \<in> (succeeds d env_ids)\<^sup>* \<and> j \<notin> Domain (succeeds d env_ids)" if "x \<in> fh_memory_id ` set fused" for x j
    using end_at [OF that] single_valued_end [OF succeeds_single_valued [OF assms(3)]] by blast
  have fused': "fused' = foldl redirect fused resolution" and keys: "fst ` set resolution \<subseteq> m_id ` set mems"
    and dist: "distinct (map fst resolution)"
    using assms(1,5) by (auto simp: follow_superseded_def Let_def chain_resolution_def superseded_ids_def distinct_map_filter
        comp_def distinct_map inj_on_def split: if_splits)
  have apart: "fst ` set resolution \<inter> snd ` set resolution = {}"
  proof -
    have "i \<in> Domain (succeeds d env_ids) \<and> j \<notin> Domain (succeeds d env_ids)" if p: "(i, j) \<in> set resolution" for i j
    proof -
      have "map_of resolution i = Some j" using dist p by simp
      moreover have "i \<in> m_id ` set mems" using keys p by force
      moreover have "i \<noteq> j" using assms(1) p by (auto simp: follow_superseded_def Let_def chain_resolution_def split: if_splits)
      ultimately show ?thesis
        using resolution_ends [OF assms(1-3,7), of i j] by (auto elim: converse_rtranclE)
    qed
    then have "x \<notin> snd ` set resolution" if "x \<in> fst ` set resolution" for x using that by (metis (no_types) imageE prod.collapse)
    then show ?thesis by blast
  qed
  have ids: "fh_memory_id ` set fused' = e ` fh_memory_id ` set fused"
    unfolding fused' redirects_image [OF apart] e_def ..
  have scores: "(\<Sum>h \<leftarrow> filter (\<lambda>h. fh_memory_id h = j) fused'. fh_score h) =
      (\<Sum>h \<leftarrow> filter (\<lambda>h. (fh_memory_id h, j) \<in> (succeeds d env_ids)\<^sup>* \<and> j \<notin> Domain (succeeds d env_ids)) fused. fh_score h)" for j
  proof -
    have "(\<Sum>h \<leftarrow> filter (\<lambda>h. fh_memory_id h = j) fused'. fh_score h) = (\<Sum>h \<leftarrow> fused'. of_bool (fh_memory_id h = j) * fh_score h)"
      by (rule sum_filter)
    also have "\<dots> = (\<Sum>h \<leftarrow> fused. of_bool (e (fh_memory_id h) = j) * fh_score h)"
      unfolding fused' e_def by (rule redirects_weight [OF assms(4) dist apart, where w = "\<lambda>x. of_bool (x = j)"])
    also have "\<dots> = (\<Sum>h \<leftarrow> filter (\<lambda>h. e (fh_memory_id h) = j) fused. fh_score h)"
      by (rule sum_filter [symmetric])
    also have "filter (\<lambda>h. e (fh_memory_id h) = j) fused =
        filter (\<lambda>h. (fh_memory_id h, j) \<in> (succeeds d env_ids)\<^sup>* \<and> j \<notin> Domain (succeeds d env_ids)) fused"
      by (rule filter_cong [OF refl]) (simp add: ends)
    finally show ?thesis .
  qed
  have once: "distinct (map fh_memory_id fused')" using redirects [OF assms(4)] fused' by blast
  have exactly: "fh_memory_id ` set fused' = {j. \<exists>h \<in> set fused. (fh_memory_id h, j) \<in> (succeeds d env_ids)\<^sup>* \<and> j \<notin> Domain (succeeds d env_ids)}"
  proof -
    have "fh_memory_id ` set fused' = {j. \<exists>h \<in> set fused. e (fh_memory_id h) = j}" unfolding ids by auto
    then show ?thesis by (simp add: ends cong: bex_cong)
  qed
  have loaded: "fh_memory_id ` set fused' \<subseteq> m_id ` set mems'" unfolding ids using end_at by blast
  show ?thesis by (intro conjI allI) (rule once exactly loaded scores)+
qed

lemma follow_superseded_reaches_the_end_witness:
  "\<exists>r m fused'. memories notes_two = [r, m] \<and>
    follow_superseded notes_two [] [(new_fused 100)\<lparr>fh_score := 1\<rparr>] [r] = (fused', [r, m], [(100, 101)]) \<and>
    fh_memory_id ` set fused' = {101} \<and> (\<Sum>h \<leftarrow> filter (\<lambda>h. fh_memory_id h = 101) fused'. fh_score h) = 1"
proof -
  obtain r m where rm: "memories notes_two = [r, m]" "m_id r = 100" "m_superseded_by r = Some 101" "m_id m = 101" "m_superseded_by m = None"
    using notes_superseded(1) by (auto simp: map_eq_Cons_conv)
  have walk: "walk_chain 8 [r, m] 100 100 [100] = 101"
    using rm by (simp add: numeral_eq_Suc)
  have run: "follow_superseded notes_two [] [(new_fused 100)\<lparr>fh_score := 1\<rparr>] [r] =
      (foldl redirect [(new_fused 100)\<lparr>fh_score := 1\<rparr>] [(100, 101)], [r, m], [(100, 101)])"
    using rm walk by (simp add: follow_superseded_def superseded_ids_def pending_successors_def hydrate_memories_def new_rows_def
        chain_resolution_def max_hops_def Let_def)
  have S: "succeeds notes_two [] = {(100, 101)}" using rm by (auto simp: succeeds_def readable_rows_def)
  have "succeeds notes_two [] ^^ 9 = {}" unfolding S by (auto simp: numeral_eq_Suc)
  then have "fh_memory_id ` set (foldl redirect [(new_fused 100)\<lparr>fh_score := 1\<rparr>] [(100, 101)]) =
      {j. \<exists>h \<in> set [(new_fused 100)\<lparr>fh_score := 1\<rparr>]. (fh_memory_id h, j) \<in> {(100, 101)}\<^sup>* \<and> j \<notin> Domain {(100, 101)}} \<and>
    (\<Sum>h \<leftarrow> filter (\<lambda>h. fh_memory_id h = 101) (foldl redirect [(new_fused 100)\<lparr>fh_score := 1\<rparr>] [(100, 101)]). fh_score h) =
      (\<Sum>h \<leftarrow> filter (\<lambda>h. (fh_memory_id h, 101) \<in> {(100, 101)}\<^sup>* \<and> 101 \<notin> Domain {(100 :: uuid, 101 :: uuid)}) [(new_fused 100)\<lparr>fh_score := 1\<rparr>]. fh_score h)"
    using follow_superseded_reaches_the_end [OF run] rm unfolding S by (simp add: readable_rows_def new_fused_def)
  moreover have "(100, j) \<in> {(100, 101)}\<^sup>* \<longleftrightarrow> j = 100 \<or> j = (101 :: uuid)" for j
    by (auto elim: rtranclE converse_rtranclE)
  ultimately show ?thesis
    using run rm(1) by (intro exI [of _ r] exI [of _ m] exI [of _ "foldl redirect [(new_fused 100)\<lparr>fh_score := 1\<rparr>] [(100, 101)]"])
      (auto simp: new_fused_def)
qed

subsection \<open>What a search shows\<close>

lemma fuse_and_filter_spec:
  assumes "fuse_and_filter now d req env_ids ranked = (fused, mems)"
  shows "distinct (map fh_memory_id fused) \<and> set mems \<subseteq> readable_rows d env_ids \<and>
    (\<forall>h \<in> set fused. \<exists>m. lookup m_id (fh_memory_id h) mems = Some m \<and> passes_post_filters now d req (statuses_to_query req) m \<and>
      fh_pinned h = m_pinned m \<and> (\<forall>s. sr_min_score req = Some s \<longrightarrow> s \<le> fh_score h))"
proof -
  let ?fused0 = "reciprocal_rank_fuse rrf_k ranked"
  let ?mems0 = "hydrate_memories d (map fh_memory_id ?fused0) env_ids"
  let ?fused1 = "filter (\<lambda>h. fh_memory_id h \<in> m_id ` set ?mems0) ?fused0"
  obtain fused2 mems2 r where step: "(if sr_follow_superseded req then follow_superseded d env_ids ?fused1 ?mems0 else (?fused1, ?mems0, [])) = (fused2, mems2, r)"
    by (rule prod_cases3)
  have rows0: "set ?mems0 \<subseteq> readable_rows d env_ids" using hydrate_visible [of d _ env_ids] by auto
  have dist1: "distinct (map fh_memory_id ?fused1)" by (rule distinct_map_filter [OF rrf_distinct])
  have two: "set mems2 \<subseteq> readable_rows d env_ids" "distinct (map fh_memory_id fused2)"
    using step follow_superseded_rows [OF _ rows0 dist1] rows0 dist1 by (cases "sr_follow_superseded req"; fastforce)+
  let ?fused3 = "filter (\<lambda>h. case lookup m_id (fh_memory_id h) mems2 of None \<Rightarrow> False
             | Some m \<Rightarrow> passes_post_filters now d req (statuses_to_query req) m) fused2"
  let ?fused4 = "apply_salience_boost (1/2) (map (hydrate_hit mems2) ?fused3)"
  have res: "mems = mems2" "fused = (case sr_min_score req of None \<Rightarrow> ?fused4 | Some s \<Rightarrow> filter (\<lambda>h. s \<le> fh_score h) ?fused4)"
    using assms step unfolding fuse_and_filter_def Let_def by auto
  have hyd: "fh_memory_id (hydrate_hit mems2 h) = fh_memory_id h" for h by (simp add: hydrate_hit_def split: option.split)
  have "map fh_memory_id ?fused4 = map fh_memory_id ?fused3" by (simp add: hyd)
  then have dist4: "distinct (map fh_memory_id ?fused4)" using distinct_map_filter [OF two(2)] by (simp only:)
  have four: "\<exists>m. lookup m_id (fh_memory_id h) mems2 = Some m \<and> passes_post_filters now d req (statuses_to_query req) m \<and> fh_pinned h = m_pinned m"
    if "h \<in> set ?fused4" for h
  proof -
    obtain g where g: "g \<in> set ?fused3" "fh_memory_id h = fh_memory_id g" "fh_pinned h = fh_pinned (hydrate_hit mems2 g)"
      using \<open>h \<in> set ?fused4\<close> hyd by (auto simp: apply_salience_boost_def)
    then obtain m where m: "lookup m_id (fh_memory_id g) mems2 = Some m" "passes_post_filters now d req (statuses_to_query req) m"
      by (auto split: option.splits)
    then show ?thesis using g(2,3) by (simp add: hydrate_hit_def)
  qed
  have sub: "set fused \<subseteq> set ?fused4" "\<forall>h \<in> set fused. \<forall>s. sr_min_score req = Some s \<longrightarrow> s \<le> fh_score h"
    unfolding res(2) by (auto split: option.split)
  have "distinct (map fh_memory_id fused)" unfolding res(2) using dist4 by (simp add: distinct_map_filter split: option.split)
  moreover have "set mems \<subseteq> readable_rows d env_ids" using two(1) res(1) by simp
  moreover have "\<forall>h \<in> set fused. \<exists>m. lookup m_id (fh_memory_id h) mems = Some m \<and> passes_post_filters now d req (statuses_to_query req) m \<and>
      fh_pinned h = m_pinned m \<and> (\<forall>s. sr_min_score req = Some s \<longrightarrow> s \<le> fh_score h)"
    using four sub res(1) by blast
  ultimately show ?thesis by blast
qed

text \<open>Where the surviving hits come from: a leg's hit, along successor links.\<close>

lemma fuse_and_filter_from:
  assumes "fuse_and_filter now d req env_ids ranked = (fused, mems)"
  shows "fh_memory_id ` set fused \<subseteq> (succeeds d env_ids)\<^sup>* `` (rh_memory_id ` set (concat ranked))"
proof -
  let ?fused0 = "reciprocal_rank_fuse rrf_k ranked"
  let ?mems0 = "hydrate_memories d (map fh_memory_id ?fused0) env_ids"
  let ?fused1 = "filter (\<lambda>h. fh_memory_id h \<in> m_id ` set ?mems0) ?fused0"
  obtain fused2 mems2 r where step: "(if sr_follow_superseded req then follow_superseded d env_ids ?fused1 ?mems0 else (?fused1, ?mems0, [])) = (fused2, mems2, r)"
    by (rule prod_cases3)
  have rows0: "set ?mems0 \<subseteq> readable_rows d env_ids" using hydrate_visible [of d _ env_ids] by auto
  have two: "fh_memory_id ` set fused2 \<subseteq> (succeeds d env_ids)\<^sup>* `` (fh_memory_id ` set ?fused1)"
  proof (cases "sr_follow_superseded req")
    case True
    then have "follow_superseded d env_ids ?fused1 ?mems0 = (fused2, mems2, r)" using step by simp
    then show ?thesis by (rule follow_superseded_ids [OF _ rows0])
  next
    case False
    have "(?fused1, ?mems0, []) = (fused2, mems2, r)" using step unfolding if_not_P [OF False] .
    then have "fused2 = ?fused1" by (elim Pair_inject) (rule sym)
    then show ?thesis by blast
  qed
  have "fh_memory_id ` set ?fused1 \<subseteq> rh_memory_id ` set (concat ranked)" using rrf_ids [of rrf_k ranked] by auto
  then have "fh_memory_id ` set fused2 \<subseteq> (succeeds d env_ids)\<^sup>* `` (rh_memory_id ` set (concat ranked))"
    by (rule subset_trans [OF two Image_mono [OF subset_refl]])
  then have r: "fh_memory_id ` set fused2 \<subseteq> (succeeds d env_ids)\<^sup>* `` (rh_memory_id ` set (concat ranked))" .
  have "fh_memory_id ` set fused \<subseteq> fh_memory_id ` set fused2"
  proof -
    have hyd: "fh_memory_id (hydrate_hit mems2 h) = fh_memory_id h" for h by (simp add: hydrate_hit_def split: option.split)
    have boost: "fh_memory_id ` set (apply_salience_boost w hs) = fh_memory_id ` set hs" for w hs
      by (auto simp: apply_salience_boost_def image_image)
    let ?fused3 = "filter (\<lambda>h. case lookup m_id (fh_memory_id h) mems2 of None \<Rightarrow> False
             | Some m \<Rightarrow> passes_post_filters now d req (statuses_to_query req) m) fused2"
    let ?fused4 = "apply_salience_boost (1/2) (map (hydrate_hit mems2) ?fused3)"
    have "fused = (case sr_min_score req of None \<Rightarrow> ?fused4 | Some s \<Rightarrow> filter (\<lambda>h. s \<le> fh_score h) ?fused4)"
      using assms step unfolding fuse_and_filter_def Let_def by auto
    then have "fh_memory_id ` set fused \<subseteq> fh_memory_id ` set ?fused4" by (auto split: option.splits)
    also have "\<dots> = fh_memory_id ` set ?fused3" unfolding boost by (simp add: image_image hyd)
    also have "\<dots> \<subseteq> fh_memory_id ` set fused2" by auto
    finally show ?thesis .
  qed
  then show ?thesis by (rule subset_trans [OF _ r])
qed

lemma pass_response_fields [simp]:
  "mr_id (memory_to_response refs m tags) = m_id m" "mr_env_id (memory_to_response refs m tags) = m_env_id m"
  "mr_status (memory_to_response refs m tags) = m_status m" "mr_pinned (memory_to_response refs m tags) = m_pinned m"
  "mr_expires_at (memory_to_response refs m tags) = m_expires_at m"
  by (simp_all add: memory_to_response_def Let_def)

text \<open>The hits of a response keep the order of the fused hits.\<close>

lemma search_hits_map:
  assumes "\<forall>h \<in> set hits. lookup m_id (fh_memory_id h) mems \<noteq> None"
  shows "\<exists>f. search_hits refs d mems hits = map f hits \<and> (\<forall>h \<in> set hits. \<exists>m. lookup m_id (fh_memory_id h) mems = Some m \<and>
    f h = \<lparr>sh_memory = memory_to_response refs m (load_tag_names d (m_id m)), sh_score = fh_score h,
          sh_sources = fh_sources h, sh_raw_scores = fh_raw_scores h\<rparr>)"
proof -
  let ?f = "\<lambda>h. let m = the (lookup m_id (fh_memory_id h) mems) in
    \<lparr>sh_memory = memory_to_response refs m (load_tag_names d (m_id m)), sh_score = fh_score h,
          sh_sources = fh_sources h, sh_raw_scores = fh_raw_scores h\<rparr>"
  have "search_hits refs d mems hits = map ?f hits"
    using assms by (induction hits) (auto simp: search_hits_def Let_def)
  then show ?thesis using assms by (intro exI [of _ ?f]) (auto simp: Let_def)
qed

lemma search_hits_source:
  "h \<in> set (search_hits refs d mems hits) \<Longrightarrow> \<exists>g \<in> set hits. \<exists>m. lookup m_id (fh_memory_id g) mems = Some m \<and>
    sh_memory h = memory_to_response refs m (load_tag_names d (m_id m))"
proof (induction hits)
  case (Cons g hits)
  show ?case
  proof (cases "lookup m_id (fh_memory_id g) mems")
    case None
    then show ?thesis using Cons by (auto simp: search_hits_def)
  next
    case (Some m)
    then consider "h = \<lparr>sh_memory = memory_to_response refs m (load_tag_names d (m_id m)), sh_score = fh_score g,
          sh_sources = fh_sources g, sh_raw_scores = fh_raw_scores g\<rparr>" | "h \<in> set (search_hits refs d mems hits)"
      using Cons.prems by (auto simp: search_hits_def)
    then show ?thesis
    proof cases
      case 1
      then show ?thesis using Some by (intro bexI [of _ g] exI [of _ m]) simp_all
    next
      case 2
      then show ?thesis using Cons.IH by auto
    qed
  qed
qed (simp add: search_hits_def)

text \<open>The three ways a pass answers.\<close>

lemma pass_cases:
  assumes "memory_search_pass refs be ss now ctx v req = Inr resp"
  obtains (ids) req' where "resp = serve_by_ids refs now (sv_final v) req' (resolve_env_ids (sr_env_ids req) ctx) (statuses_to_query req) (sr_mode req)"
      "req' = req \<or> req' = with_auto_resolved_id req" "sp_effective_mode resp = SM_id"
    | (none) "sp_hits resp = []" "resolve_env_ids (sr_env_ids req) ctx = []"
    | (ranked) ranked fused mems where "resolve_env_ids (sr_env_ids req) ctx \<noteq> []"
      "retrieve (sp_effective_mode resp) be ss now v req (resolve_env_ids (sr_env_ids req) ctx) (retrieval_statuses req)
         (max (2 * sr_limit req) (ss_min_per_leg ss)) = Inr ranked"
      "fuse_and_filter now (sv_final v) req (resolve_env_ids (sr_env_ids req) ctx) ranked = (fused, mems)"
      "sp_hits resp = search_hits refs (sv_final v) mems (take (sr_limit req) (sort_hits fused))"
      "sp_truncated resp \<longleftrightarrow> sr_limit req < length fused"
proof -
  obtain mode where mode: "(if sr_mode req = SM_auto then resolve_auto_mode (sr_query req) else Inr (sr_mode req)) = Inr mode"
    using assms by (auto simp: memory_search_pass_def elim!: bindE_InrE)
  let ?envs = "resolve_env_ids (sr_env_ids req) ctx"
  let ?used = "consistency_used v mode req ?envs"
  show thesis
  proof (cases "mode = SM_id")
    case True
    let ?req = "if sr_mode req = SM_auto then with_auto_resolved_id req else req"
    have resp: "resp = serve_by_ids refs now (sv_final v) ?req ?envs (statuses_to_query req) (sr_mode req)"
      using assms mode True by (simp add: memory_search_pass_def Let_def)
    then show thesis by (intro ids [of ?req]) (auto simp: serve_by_ids_def empty_response_def Let_def split: prod.split)
  next
    case False
    show thesis
    proof (cases "?envs = []")
      case True
      then show thesis using assms mode False none by (auto simp: memory_search_pass_def Let_def empty_response_def)
    next
      case envs: False
      obtain found where r: "retrieve (effective_mode mode ?used) be ss now v req ?envs (retrieval_statuses req) (max (2 * sr_limit req) (ss_min_per_leg ss)) = Inr found"
        using assms mode False envs by (auto simp: memory_search_pass_def Let_def elim!: bindE_InrE)
      obtain fused mems where f: "fuse_and_filter now (sv_final v) req ?envs found = (fused, mems)" by (rule prod.exhaust)
      show thesis using assms mode False envs r f by (intro ranked [OF envs _ f]) (auto simp: memory_search_pass_def Let_def)
    qed
  qed
qed

text \<open>C23: What a search pass shows, unless it is a lookup by ids: at most the limit of distinct
  memories, each a row of the final transaction's state in an environment of the request or, without
  one, of the caller's attached ones, that passes every filter of the request (status, kind, tags,
  times, expiry) and the score threshold, and that a hit of one of the legs the pass ran leads to along
  successor links; pinned ones first, then by descending score.\<close>

theorem search_pass_hits:
  assumes "memory_search_pass refs be ss now ctx v req = Inr resp" and "sp_effective_mode resp \<noteq> SM_id"
  shows "length (sp_hits resp) \<le> sr_limit req \<and> distinct (map (\<lambda>h. mr_id (sh_memory h)) (sp_hits resp)) \<and>
    sorted_wrt (\<lambda>a b. (mr_pinned (sh_memory b) \<longrightarrow> mr_pinned (sh_memory a)) \<and>
      (mr_pinned (sh_memory a) = mr_pinned (sh_memory b) \<longrightarrow> sh_score b \<le> sh_score a)) (sp_hits resp) \<and>
    (\<forall>h \<in> set (sp_hits resp). \<exists>m \<in> set (memories (sv_final v)).
      sh_memory h = memory_to_response refs m (load_tag_names (sv_final v) (m_id m)) \<and>
      m_env_id m \<in> set (resolve_env_ids (sr_env_ids req) ctx) \<and>
      passes_post_filters now (sv_final v) req (statuses_to_query req) m \<and>
      (\<forall>s. sr_min_score req = Some s \<longrightarrow> s \<le> sh_score h) \<and>
      (\<exists>legs. retrieve (sp_effective_mode resp) be ss now v req (resolve_env_ids (sr_env_ids req) ctx) (retrieval_statuses req)
          (max (2 * sr_limit req) (ss_min_per_leg ss)) = Inr legs \<and>
        (\<exists>l \<in> set (concat legs). (rh_memory_id l, m_id m) \<in> (succeeds (sv_final v) (resolve_env_ids (sr_env_ids req) ctx))\<^sup>*)))"
  using assms(1)
proof (cases rule: pass_cases)
  case ids
  then show ?thesis using assms(2) by simp
next
  case none
  then show ?thesis by simp
next
  case (ranked found fused mems)
  let ?d = "sv_final v" and ?envs = "resolve_env_ids (sr_env_ids req) ctx"
  let ?top = "take (sr_limit req) (sort_hits fused)"
  note F = fuse_and_filter_spec [OF ranked(3)]
  have top: "set ?top \<subseteq> set fused" using set_take_subset [of "sr_limit req" "sort_hits fused"] by simp
  have "\<forall>h \<in> set ?top. lookup m_id (fh_memory_id h) mems \<noteq> None" using F top by fastforce
  then obtain f where f: "search_hits refs ?d mems ?top = map f ?top"
      "\<And>h. h \<in> set ?top \<Longrightarrow> \<exists>m. lookup m_id (fh_memory_id h) mems = Some m \<and>
        f h = \<lparr>sh_memory = memory_to_response refs m (load_tag_names ?d (m_id m)), sh_score = fh_score h,
          sh_sources = fh_sources h, sh_raw_scores = fh_raw_scores h\<rparr>"
    using search_hits_map by meson
  have hit: "\<exists>m \<in> readable_rows ?d ?envs. m_id m = fh_memory_id h \<and> sh_memory (f h) = memory_to_response refs m (load_tag_names ?d (m_id m)) \<and>
      passes_post_filters now ?d req (statuses_to_query req) m \<and> fh_pinned h = m_pinned m \<and> sh_score (f h) = fh_score h \<and>
      (\<forall>s. sr_min_score req = Some s \<longrightarrow> s \<le> sh_score (f h))" if h: "h \<in> set ?top" for h
  proof -
    obtain m where m: "lookup m_id (fh_memory_id h) mems = Some m" "f h = \<lparr>sh_memory = memory_to_response refs m (load_tag_names ?d (m_id m)),
        sh_score = fh_score h, sh_sources = fh_sources h, sh_raw_scores = fh_raw_scores h\<rparr>"
      using f(2) [OF h] by blast
    have "h \<in> set fused" using h top by blast
    then show ?thesis using F m lookup_SomeD [OF m(1)] by (intro bexI [of _ m]) auto
  qed
  have fields: "mr_id (sh_memory (f h)) = fh_memory_id h \<and> mr_pinned (sh_memory (f h)) = fh_pinned h \<and> sh_score (f h) = fh_score h" if "h \<in> set ?top" for h
    using hit [OF that] by auto
  have "distinct (map fh_memory_id ?top)"
    unfolding take_map [symmetric] by (rule distinct_take [OF sort_hits_distinct]) (use F in blast)
  moreover have "map (\<lambda>h. mr_id (sh_memory h)) (sp_hits resp) = map fh_memory_id ?top"
    unfolding ranked(4) f(1) map_map comp_def by (rule map_cong [OF refl]) (use fields in blast)
  ultimately have dist: "distinct (map (\<lambda>h. mr_id (sh_memory h)) (sp_hits resp))" by simp
  have "sorted_wrt (\<lambda>a b. hit_order a \<le> hit_order b) ?top"
    using sort_hits_sorted [of fused] by (simp add: sorted_wrt_take sorted_map)
  then have "sorted_wrt (\<lambda>a b. (fh_pinned b \<longrightarrow> fh_pinned a) \<and> (fh_pinned a = fh_pinned b \<longrightarrow> fh_score b \<le> fh_score a)) ?top"
    by (rule sorted_wrt_mono_rel [rotated]) (rule hit_order_le)
  then have "sorted_wrt (\<lambda>a b. (mr_pinned (sh_memory (f b)) \<longrightarrow> mr_pinned (sh_memory (f a))) \<and>
      (mr_pinned (sh_memory (f a)) = mr_pinned (sh_memory (f b)) \<longrightarrow> sh_score (f b) \<le> sh_score (f a))) ?top"
    by (rule sorted_wrt_mono_rel [rotated]) (use fields in simp)
  then have sorted: "sorted_wrt (\<lambda>a b. (mr_pinned (sh_memory b) \<longrightarrow> mr_pinned (sh_memory a)) \<and>
      (mr_pinned (sh_memory a) = mr_pinned (sh_memory b) \<longrightarrow> sh_score b \<le> sh_score a)) (sp_hits resp)"
    unfolding ranked(4) f(1) sorted_wrt_map by simp
  have "\<exists>m \<in> set (memories ?d). sh_memory g = memory_to_response refs m (load_tag_names ?d (m_id m)) \<and> m_env_id m \<in> set ?envs \<and>
      passes_post_filters now ?d req (statuses_to_query req) m \<and> (\<forall>s. sr_min_score req = Some s \<longrightarrow> s \<le> sh_score g) \<and>
      (\<exists>l \<in> set (concat found). (rh_memory_id l, m_id m) \<in> (succeeds ?d ?envs)\<^sup>*)" if g: "g \<in> set (sp_hits resp)" for g
  proof -
    obtain h where h: "h \<in> set ?top" "g = f h" using g unfolding ranked(4) f(1) by auto
    have "fh_memory_id h \<in> (succeeds ?d ?envs)\<^sup>* `` (rh_memory_id ` set (concat found))"
      using fuse_and_filter_from [OF ranked(3)] h(1) top by blast
    then obtain l where l: "l \<in> set (concat found)" "(rh_memory_id l, fh_memory_id h) \<in> (succeeds ?d ?envs)\<^sup>*" by blast
    obtain m where m: "m \<in> readable_rows ?d ?envs" "m_id m = fh_memory_id h" "sh_memory g = memory_to_response refs m (load_tag_names ?d (m_id m))"
        "passes_post_filters now ?d req (statuses_to_query req) m" "\<forall>s. sr_min_score req = Some s \<longrightarrow> s \<le> sh_score g"
      using hit [OF h(1)] unfolding h(2) by blast
    have "m \<in> set (memories ?d)" "m_env_id m \<in> set ?envs" using m(1) ranked(1) by (auto simp: readable_rows_def)
    moreover have "\<exists>l \<in> set (concat found). (rh_memory_id l, m_id m) \<in> (succeeds ?d ?envs)\<^sup>*" unfolding m(2) using l by blast
    ultimately show ?thesis using m(3-5) by blast
  qed
  then show ?thesis using dist sorted ranked(2) by (simp add: f(1) ranked(4))
qed

lemma search_pass_hits_witness:
  "\<exists>resp m. memory_search_pass no_refs offline_backend small_legs 9 notes_ctx notes_view notes_search = Inr resp \<and>
    length (sp_hits resp) \<le> 10 \<and> m \<in> set (memories notes_one) \<and> passes_post_filters 9 notes_one notes_search [MS_proposed, MS_active] m \<and>
    map (\<lambda>h. mr_id (sh_memory h)) (sp_hits resp) = [m_id m]"
proof -
  have same: "notes_search\<lparr>sr_consistency := CM_default, sr_mode := SM_lex\<rparr> = notes_search" by (simp add: notes_search_def)
  obtain resp where r: "memory_search_pass no_refs offline_backend small_legs 9 notes_ctx notes_view notes_search = Inr resp"
      "map (\<lambda>h. mr_id (sh_memory h)) (sp_hits resp) = [100]" "sp_effective_mode resp = SM_lex"
    using notes_found [of CM_default] unfolding same by auto
  then obtain h where h: "sp_hits resp = [h]" "mr_id (sh_memory h) = 100" by (auto simp: map_eq_Cons_conv)
  have "sp_effective_mode resp \<noteq> SM_id" using r(3) by simp
  note S = search_pass_hits [OF r(1) this]
  obtain m where m: "m \<in> set (memories notes_one)" "sh_memory h = memory_to_response no_refs m (load_tag_names notes_one (m_id m))"
      "passes_post_filters 9 notes_one notes_search (statuses_to_query notes_search) m"
    using S h(1) by (auto simp: notes_view_def)
  have "m_id m = 100" using h(2) m(2) by simp
  moreover have "statuses_to_query notes_search = [MS_proposed, MS_active]" by (simp add: statuses_to_query_def notes_search_def)
  ultimately show ?thesis using S r(1,2) m(1,3) by (intro exI [of _ resp] exI [of _ m]) (simp add: notes_search_def)
qed

subsection \<open>The ladder\<close>

text \<open>What no step of the ladder changes.\<close>

definition scope :: "search_request \<Rightarrow> uuid list option \<times> bool \<times> bool \<times> string \<times> uuid list option" where
  "scope req = (sr_env_ids req, sr_include_retired req, sr_include_expired req, sr_query req, sr_ids req)"

lemma fallback_steps_scope: "(name, builder) \<in> set fallback_steps \<Longrightarrow> builder req = Some req' \<Longrightarrow> scope req' = scope req"
  by (auto simp: fallback_steps_def step_widen_mode_def step_drop_filters_def step_widen_lifecycle_def step_boost_limit_def scope_def
      Let_def split: if_splits)

lemma fallback_loop_run:
  assumes "fallback_loop run k steps req resp used = Inr (resp', used')" and "set steps \<subseteq> set fallback_steps"
  shows "resp' = resp \<or> (\<exists>j r. scope r = scope req \<and> run j r = Inr resp')"
  using assms
proof (induction run k steps req resp used rule: fallback_loop.induct)
  case (2 run k name builder steps req resp used)
  show ?case
  proof (cases "builder req")
    case None
    then show ?thesis using 2 by simp
  next
    case (Some r)
    then have r: "scope r = scope req" using fallback_steps_scope [of name builder req r] "2.prems"(2) by auto
    obtain x where x: "run k r = Inr x" "(if sp_hits x \<noteq> [] then Inr (x, used @ [name]) else fallback_loop run (Suc k) steps r x (used @ [name])) = Inr (resp', used')"
      using "2.prems"(1) Some by (auto elim!: bindE_InrE)
    show ?thesis
    proof (cases "sp_hits x = []")
      case True
      then show ?thesis using "2.IH"(2) [OF Some x(1)] x "2.prems"(2) r by auto
    next
      case False
      then show ?thesis using x r by auto
    qed
  qed
qed simp

lemma memory_search_run:
  assumes "memory_search refs be ss now ctx views req = Inr resp"
  shows "\<exists>k r x. memory_search_pass refs be ss now ctx (views k) r = Inr x \<and> scope r = scope req \<and> sp_hits x = sp_hits resp"
proof -
  let ?r = "resolve_expansion_preset req"
  have r: "scope ?r = scope req" by (simp add: scope_def resolve_expansion_preset_def split: option.split expansion_preset.split)
  have exp: "sp_hits (with_expansion_resolved y u) = sp_hits y" for y u by (simp add: with_expansion_resolved_def split: option.split)
  obtain x where x: "memory_search_pass refs be ss now ctx (views 0) ?r = Inr x"
    using assms by (auto simp: memory_search_def memory_search_with_def Let_def elim!: bindE_InrE)
  show ?thesis
  proof (cases "sp_hits x \<noteq> [] \<or> \<not> sr_fallback ?r \<or> sr_mode ?r = SM_id")
    case True
    then have "resp = with_expansion_resolved x (expansion_preset_updates req)"
      using assms x by (simp add: memory_search_def memory_search_with_def Let_def)
    then have "sp_hits x = sp_hits resp" using exp by simp
    then show ?thesis using x r by (intro exI [of _ 0] exI [of _ ?r] exI [of _ x]) simp
  next
    case False
    then obtain y used where y: "fallback_loop (\<lambda>k r. memory_search_pass refs be ss now ctx (views k) r) 1 fallback_steps ?r x [] = Inr (y, used)"
        "resp = with_expansion_resolved (y\<lparr>sp_fallback_used := used\<rparr>) (expansion_preset_updates req)"
      using assms x by (auto simp: memory_search_def memory_search_with_def Let_def elim!: bindE_pair_InrE)
    have h: "sp_hits resp = sp_hits y" using y(2) exp by simp
    show ?thesis using fallback_loop_run [OF y(1) subset_refl] x r h by metis
  qed
qed

lemma hidden_statuses: "\<not> sr_include_retired req \<Longrightarrow> s \<in> set (statuses_to_query req) \<Longrightarrow> s \<noteq> MS_retired \<and> s \<noteq> MS_superseded"
  by (auto simp: statuses_to_query_def split: if_splits)

lemma serve_order_rows:
  "m \<in> set (serve_order now req statuses mems resolved seen is) \<Longrightarrow>
    m \<in> set mems \<and> m_status m \<in> set statuses \<and> (sr_include_expired req \<or> \<not> is_expired now m)"
  by (induction now req statuses mems resolved seen "is" rule: serve_order.induct)
     (auto simp: Let_def dest: lookup_SomeD split: if_splits option.splits)

lemma serve_by_ids_rows:
  assumes "h \<in> set (sp_hits (serve_by_ids refs now d req env_ids statuses mode))"
  shows "\<exists>m \<in> readable_rows d env_ids. sh_memory h = memory_to_response refs m (load_tag_names d (m_id m)) \<and>
    m_status m \<in> set statuses \<and> (sr_include_expired req \<or> \<not> is_expired now m)"
proof -
  define ids where "ids = (case sr_ids req of None \<Rightarrow> [] | Some is \<Rightarrow> dedupe is)"
  let ?mems0 = "hydrate_memories d ids env_ids"
  let ?fake = "map (\<lambda>m. (new_fused (m_id m))\<lparr>fh_score := 1, fh_sources := [''id'']\<rparr>) ?mems0"
  obtain f mems resolved where follow: "(if sr_follow_superseded req then follow_superseded d env_ids ?fake ?mems0 else ([], ?mems0, [])) = (f, mems, resolved)"
    by (rule prod_cases3)
  have rows0: "set ?mems0 \<subseteq> readable_rows d env_ids" using hydrate_visible [of d ids env_ids] by auto
  have rows: "set mems \<subseteq> readable_rows d env_ids"
  proof (cases "sr_follow_superseded req \<and> superseded_ids ?mems0 \<noteq> []")
    case True
    then have "mems = hydrate_loop d env_ids ?mems0 (pending_successors ?mems0 ?mems0)"
      using follow by (auto simp: follow_superseded_def Let_def)
    then show ?thesis using hydrate_loop_visible [OF rows0] by simp
  next
    case False
    then show ?thesis using follow rows0 by (auto simp: follow_superseded_def split: if_splits)
  qed
  have "ids \<noteq> []" using assms by (auto simp: serve_by_ids_def ids_def empty_response_def Let_def split: if_splits)
  then have "sp_hits (serve_by_ids refs now d req env_ids statuses mode) =
      map (\<lambda>m. \<lparr>sh_memory = memory_to_response refs m (load_tag_names d (m_id m)), sh_score = 1, sh_sources = [''id''], sh_raw_scores = [(''id'', 1)]\<rparr>)
        (take (sr_limit req) (serve_order now req statuses mems resolved [] ids))"
    using follow by (simp add: serve_by_ids_def ids_def [symmetric] Let_def)
  then obtain m where m: "m \<in> set (serve_order now req statuses mems resolved [] ids)"
      "sh_memory h = memory_to_response refs m (load_tag_names d (m_id m))"
    using assms by (auto dest: in_set_takeD)
  show ?thesis using serve_order_rows [OF m(1)] m(2) rows by blast
qed

lemma auto_id_scope: "scope (with_auto_resolved_id req) = (sr_env_ids req, sr_include_retired req, sr_include_expired req, sr_query req, sr_ids (with_auto_resolved_id req))"
  by (simp add: scope_def with_auto_resolved_id_def split: option.split)

text \<open>C22: Whatever mode, preset or fallback step produced it, a search result never shows a retired or
  superseded memory unless the request includes retired ones, never an expired memory unless the
  request includes expired ones, and, when the request or the caller names any environment, never a
  memory of another environment.\<close>

theorem search_never_shows:
  assumes "memory_search refs be ss now ctx views req = Inr resp" and "h \<in> set (sp_hits resp)"
  shows "\<exists>k. \<exists>m \<in> set (memories (sv_final (views k))).
    sh_memory h = memory_to_response refs m (load_tag_names (sv_final (views k)) (m_id m)) \<and>
    (sr_include_retired req \<or> m_status m \<noteq> MS_retired \<and> m_status m \<noteq> MS_superseded) \<and>
    (sr_include_expired req \<or> \<not> is_expired now m) \<and>
    (resolve_env_ids (sr_env_ids req) ctx \<noteq> [] \<longrightarrow> m_env_id m \<in> set (resolve_env_ids (sr_env_ids req) ctx))"
proof -
  obtain k r x where x: "memory_search_pass refs be ss now ctx (views k) r = Inr x" "scope r = scope req" "sp_hits x = sp_hits resp"
    using memory_search_run [OF assms(1)] by blast
  have s: "sr_env_ids r = sr_env_ids req" "sr_include_retired r = sr_include_retired req" "sr_include_expired r = sr_include_expired req"
    using x(2) by (simp_all add: scope_def)
  let ?d = "sv_final (views k)" and ?envs = "resolve_env_ids (sr_env_ids req) ctx"
  have "\<exists>m \<in> readable_rows ?d ?envs. sh_memory h = memory_to_response refs m (load_tag_names ?d (m_id m)) \<and>
      m_status m \<in> set (statuses_to_query r) \<and> (sr_include_expired req \<or> \<not> is_expired now m)"
    using x(1)
  proof (cases rule: pass_cases)
    case (ids req')
    have e: "sr_include_expired req' = sr_include_expired req"
      using ids(2) s(3) auto_id_scope [of r] by (auto simp: scope_def)
    have "h \<in> set (sp_hits (serve_by_ids refs now ?d req' (resolve_env_ids (sr_env_ids r) ctx) (statuses_to_query r) (sr_mode r)))"
      using assms(2) x(3) ids(1) by simp
    from serve_by_ids_rows [OF this] show ?thesis unfolding e s(1) .
  next
    case none
    then show ?thesis using assms(2) x(3) by simp
  next
    case (ranked found fused mems)
    have "h \<in> set (search_hits refs ?d mems (take (sr_limit r) (sort_hits fused)))" using assms(2) x(3) ranked(4) by simp
    from search_hits_source [OF this] obtain g m where "g \<in> set (take (sr_limit r) (sort_hits fused))"
        and g2: "lookup m_id (fh_memory_id g) mems = Some m" "sh_memory h = memory_to_response refs m (load_tag_names ?d (m_id m))"
      by blast
    then have "g \<in> set fused" by (auto dest: in_set_takeD)
    note g = this g2
    have "passes_post_filters now ?d r (statuses_to_query r) m" "m \<in> readable_rows ?d ?envs"
      using fuse_and_filter_spec [OF ranked(3)] g(1,2) lookup_SomeD [OF g(2)] s(1) by (fastforce, auto)
    then show ?thesis using g(3) s(3) by (auto simp: passes_post_filters_def)
  qed
  then obtain m where m: "m \<in> readable_rows ?d ?envs" "sh_memory h = memory_to_response refs m (load_tag_names ?d (m_id m))"
      "m_status m \<in> set (statuses_to_query r)" "sr_include_expired req \<or> \<not> is_expired now m"
    by blast
  show ?thesis using m hidden_statuses [OF _ m(3)] s(2) by (intro exI [of _ k] bexI [of _ m]) (auto simp: readable_rows_def)
qed

lemma search_never_shows_witness:
  "\<exists>m \<in> set (memories notes_one). m_id m = 100 \<and> m_status m \<noteq> MS_retired \<and> m_status m \<noteq> MS_superseded \<and> m_env_id m = 1"
proof -
  have same: "notes_search\<lparr>sr_consistency := CM_default, sr_mode := SM_lex\<rparr> = notes_search" by (simp add: notes_search_def)
  obtain resp where r: "memory_search_pass no_refs offline_backend small_legs 9 notes_ctx notes_view notes_search = Inr resp"
      "map (\<lambda>h. mr_id (sh_memory h)) (sp_hits resp) = [100]"
    using notes_found [of CM_default] unfolding same by auto
  then obtain h where h: "sp_hits resp = [h]" "mr_id (sh_memory h) = 100" by (auto simp: map_eq_Cons_conv)
  have "resolve_expansion_preset notes_search = notes_search" "expansion_preset_updates notes_search = None"
    by (simp_all add: resolve_expansion_preset_def expansion_preset_updates_def notes_search_def)
  then have "memory_search no_refs offline_backend small_legs 9 notes_ctx (\<lambda>k. notes_view) notes_search = Inr resp"
    using r(1) h(1) by (simp add: memory_search_def memory_search_with_def with_expansion_resolved_def)
  from search_never_shows [OF this, of h] h obtain m where
    "m \<in> set (memories notes_one)" "sh_memory h = memory_to_response no_refs m (load_tag_names notes_one (m_id m))"
    "m_status m \<noteq> MS_retired \<and> m_status m \<noteq> MS_superseded" "m_env_id m \<in> set (resolve_env_ids (sr_env_ids notes_search) notes_ctx)"
    by (auto simp: notes_view_def notes_search_def resolve_env_ids_def)
  then show ?thesis using h(2) by (intro bexI [of _ m]) (auto simp: notes_search_def resolve_env_ids_def)
qed

subsection \<open>Canonical searches and the dispatch\<close>

text \<open>C25: A canonical search is what it says: a pass that reports canonical consistency, asked for or
  degraded from a fresh one that timed out, gives the same answer whatever the vector store, the
  embedding model, the graph store and the entity recogniser answer or fail with.\<close>

theorem canonical_search_ignores_projections:
  assumes "memory_search_pass refs be ss now ctx v req = Inr resp" and "sp_consistency_used resp = CM_canonical"
    and "sb_match be' = sb_match be"
  shows "memory_search_pass refs be' ss now ctx v req = Inr resp"
proof -
  obtain mode where mode: "(if sr_mode req = SM_auto then resolve_auto_mode (sr_query req) else Inr (sr_mode req)) = Inr mode"
    using assms by (auto simp: memory_search_pass_def elim!: bindE_InrE)
  let ?envs = "resolve_env_ids (sr_env_ids req) ctx"
  let ?eff = "effective_mode mode (consistency_used v mode req ?envs)"
  show ?thesis
  proof (cases "mode = SM_id \<or> ?envs = []")
    case True
    then show ?thesis using assms(1) mode by (auto simp: memory_search_pass_def Let_def)
  next
    case False
    then have "consistency_used v mode req ?envs = CM_canonical"
      using assms(1,2) mode by (auto simp: memory_search_pass_def Let_def split: prod.splits elim!: bindE_InrE)
    then have eff: "?eff = SM_lex \<or> ?eff = SM_auto" using False by (cases mode) (auto simp: effective_mode_def)
    have same: "retrieve ?eff be' ss now v req ?envs (retrieval_statuses req) n = retrieve ?eff be ss now v req ?envs (retrieval_statuses req) n" for n
      using eff by (auto simp: do_lex_def assms(3))
    show ?thesis using assms(1) mode False by (simp add: memory_search_pass_def Let_def same)
  qed
qed

lemma canonical_search_ignores_projections_witness:
  "\<exists>resp. memory_search_pass no_refs (offline_backend\<lparr>sb_graph_store := Inr (), sb_vectors := \<lambda>e v n f nm. Inr [(5, 1)]\<rparr>) small_legs 9
      notes_ctx notes_view (notes_search\<lparr>sr_consistency := CM_canonical, sr_mode := SM_lex\<rparr>) = Inr resp \<and>
    map (\<lambda>h. mr_id (sh_memory h)) (sp_hits resp) = [100]"
proof -
  obtain resp where r: "memory_search_pass no_refs offline_backend small_legs 9 notes_ctx notes_view
      (notes_search\<lparr>sr_consistency := CM_canonical, sr_mode := SM_lex\<rparr>) = Inr resp"
      "map (\<lambda>h. mr_id (sh_memory h)) (sp_hits resp) = [100]" "sp_consistency_used resp = CM_canonical"
    using notes_found [of CM_canonical] by auto
  have "sb_match (offline_backend\<lparr>sb_graph_store := Inr (), sb_vectors := \<lambda>e v n f nm. Inr [(5, 1)]\<rparr>) = sb_match offline_backend" by simp
  then show ?thesis by (intro exI [of _ resp] conjI canonical_search_ignores_projections [OF r(1,3)] r(2))
qed

lemma effective_id: "sp_effective_mode (serve_by_ids refs now d req env_ids statuses mode) = SM_id"
  by (simp add: serve_by_ids_def empty_response_def Let_def split: prod.split)

text \<open>In automatic mode a query that is a group of eight or more hexadecimal digits, such as a date
  written 20240131, but no whole UUID, is looked up as an id that does not exist: the search returns no hits, whatever
  the store holds and even with the fallback ladder on.\<close>

lemma auto_hex_query_finds_nothing:
  assumes "sr_mode req = SM_auto" and "uuid_shaped (strip (sr_query req))" and "parse_uuid (strip (sr_query req)) = None"
    and "sr_ids req = None" and "strip (sr_query req) \<noteq> []"
    and "memory_search refs be ss now ctx views req = Inr resp"
  shows "sp_hits resp = []"
proof -
  have pass: "sp_hits x = []" if "memory_search_pass refs be ss now ctx v r = Inr x" "sr_mode r = SM_auto" "sr_query r = sr_query req" "sr_ids r = None" for v r x
    using that assms(2,3,5)
    by (auto simp: memory_search_pass_def resolve_auto_mode_def with_auto_resolved_id_def serve_by_ids_def empty_response_def Let_def)
  have mode: "sr_mode r' = SM_auto" if "(name, builder) \<in> set fallback_steps" "builder r = Some r'" "sr_mode r = SM_auto" for name builder r r'
    using that by (auto simp: fallback_steps_def step_widen_mode_def step_drop_filters_def step_widen_lifecycle_def step_boost_limit_def
        Let_def split: if_splits)
  have loop: "sp_hits y = []"
    if "fallback_loop (\<lambda>k r. memory_search_pass refs be ss now ctx (views k) r) k steps r x used = Inr (y, used')"
      "sr_mode r = SM_auto" "scope r = scope req" "sp_hits x = []" "set steps \<subseteq> set fallback_steps" for k steps r x used y used'
    using that
  proof (induction steps arbitrary: k r x used)
    case (Cons s steps)
    obtain name builder where s: "s = (name, builder)" by fastforce
    show ?case
    proof (cases "builder r")
      case None
      then show ?thesis using Cons s by simp
    next
      case (Some r')
      then have r': "sr_mode r' = SM_auto" "scope r' = scope req"
        using mode [of name builder r r'] fallback_steps_scope [of name builder r r'] Cons.prems s by auto
      obtain z where z: "memory_search_pass refs be ss now ctx (views k) r' = Inr z"
          "(if sp_hits z \<noteq> [] then Inr (z, used @ [name])
            else fallback_loop (\<lambda>k r. memory_search_pass refs be ss now ctx (views k) r) (Suc k) steps r' z (used @ [name])) = Inr (y, used')"
        using Cons.prems(1) s Some by (auto elim!: bindE_InrE)
      have "sp_hits z = []" using pass [OF z(1)] r' assms(4) by (simp add: scope_def)
      then show ?thesis using Cons.IH [of "Suc k" r' z "used @ [name]"] z(2) r' Cons.prems(5) by simp
    qed
  qed simp
  let ?r = "resolve_expansion_preset req"
  have r: "sr_mode ?r = SM_auto" "scope ?r = scope req" using assms(1)
    by (auto simp: scope_def resolve_expansion_preset_def split: option.split expansion_preset.split)
  have exp: "sp_hits (with_expansion_resolved y u) = sp_hits y" for y u by (simp add: with_expansion_resolved_def split: option.split)
  obtain x where x: "memory_search_pass refs be ss now ctx (views 0) ?r = Inr x"
    using assms(6) by (auto simp: memory_search_def memory_search_with_def Let_def elim!: bindE_InrE)
  have none: "sp_hits x = []" using pass [OF x] r assms(4) by (simp add: scope_def)
  show ?thesis
  proof (cases "sr_fallback ?r")
    case False
    then have "resp = with_expansion_resolved x (expansion_preset_updates req)"
      using assms(6) x by (simp add: memory_search_def memory_search_with_def Let_def)
    then show ?thesis using none exp by simp
  next
    case True
    then obtain y used where y: "fallback_loop (\<lambda>k r. memory_search_pass refs be ss now ctx (views k) r) 1 fallback_steps ?r x [] = Inr (y, used)"
        "resp = with_expansion_resolved (y\<lparr>sp_fallback_used := used\<rparr>) (expansion_preset_updates req)"
      using assms(6) x none r(1) by (auto simp: memory_search_def memory_search_with_def Let_def elim!: bindE_pair_InrE)
    show ?thesis using loop [OF y(1) r none subset_refl] y(2) exp by simp
  qed
qed

lemma auto_hex_query_finds_nothing_witness:
  "\<exists>resp. memory_search no_refs offline_backend small_legs 9 notes_ctx (\<lambda>k. notes_view)
     (notes_search\<lparr>sr_mode := SM_auto, sr_query := ''20240131'', sr_fallback := True\<rparr>) = Inr resp \<and> sp_hits resp = []"
proof -
  obtain resp where r: "memory_search no_refs offline_backend small_legs 9 notes_ctx (\<lambda>k. notes_view)
     (notes_search\<lparr>sr_mode := SM_auto, sr_query := ''20240131'', sr_fallback := True\<rparr>) = Inr resp"
    using notes_not_found by blast
  have "sp_hits resp = []"
    by (rule auto_hex_query_finds_nothing [OF _ _ _ _ _ r])
      (simp_all add: strip_def is_space_def uuid_shaped_def is_hex_def parse_uuid_def notes_search_def)
  with r show ?thesis by blast
qed

lemma filter_key_single: "distinct (map key xs) \<Longrightarrow> x \<in> set xs \<Longrightarrow> filter (\<lambda>y. key y = key x) xs = [x]"
proof (induction xs)
  case (Cons a xs)
  show ?case
  proof (cases "x = a")
    case True
    then have "filter (\<lambda>y. key y = key x) xs = []" using Cons.prems(1) by (auto simp: filter_empty_conv image_iff)
    then show ?thesis using True by simp
  next
    case False
    then have "x \<in> set xs" using Cons.prems(2) by simp
    then have "key a \<noteq> key x" using Cons.prems(1) by (auto simp: image_iff)
    then show ?thesis using Cons \<open>x \<in> set xs\<close> by simp
  qed
qed simp

text \<open>C26: A lookup by ids for a caller without any environment is not restricted to any: it returns an
  active memory of whatever environment.\<close>

theorem id_lookup_without_envs_sees_all:
  assumes "sr_mode req = SM_id" and "sr_env_ids req = None" and "ctx_attached_env_ids ctx = []" and "sr_ids req = Some [m_id m]"
    and "0 < sr_limit req" and "\<not> sr_fallback req" and "sr_expansion req = None"
    and "m \<in> set (memories (sv_final (views 0)))" and "distinct (map m_id (memories (sv_final (views 0))))"
    and "m_status m = MS_active" and "m_superseded_by m = None" and "m_expires_at m = None"
  shows "\<exists>resp. memory_search refs be ss now ctx views req = Inr resp \<and> map (\<lambda>h. mr_id (sh_memory h)) (sp_hits resp) = [m_id m]"
proof -
  let ?d = "sv_final (views 0)"
  have "filter (\<lambda>x. m_id x = m_id m) (memories ?d) = [m]" by (rule filter_key_single [OF assms(9,8)])
  then have rows: "hydrate_memories ?d [m_id m] [] = [m]" by (simp add: hydrate_memories_def)
  show ?thesis using assms
    by (auto simp: memory_search_def memory_search_with_def memory_search_pass_def resolve_expansion_preset_def expansion_preset_updates_def
        with_expansion_resolved_def serve_by_ids_def resolve_env_ids_def rows follow_superseded_def superseded_ids_def
        statuses_to_query_def is_expired_def Let_def)
qed

lemma id_lookup_without_envs_sees_all_witness:
  "\<exists>resp. memory_search no_refs offline_backend small_legs 9 (notes_ctx\<lparr>ctx_attached_env_ids := []\<rparr>) (\<lambda>k. notes_view)
     (notes_search\<lparr>sr_mode := SM_id, sr_env_ids := None, sr_ids := Some [m_id note_row]\<rparr>) = Inr resp \<and>
   map (\<lambda>h. mr_id (sh_memory h)) (sp_hits resp) = [m_id note_row]"
  by (rule id_lookup_without_envs_sees_all)
    (simp_all add: notes_search_def notes_view_def notes_one_def note_row_def new_memory_def notes_write_def)

end
