(* ===== verification/SearchFresh.thy ===== *)
theory SearchFresh
  imports Delivery Search
begin

text \<open>
  The wait of a fresh search against the projection worker: the watermark it waits for is the
  greatest event a sink has finished, so it does not say that the events before it are done.
\<close>

definition two_row :: "int \<Rightarrow> outbox_row" where
  "two_row v = (demo_row v)\<lparr>ob_aggregate_id := nat (6 + v), ob_aggregate_version := 1\<rparr>"

definition two_event :: "int \<Rightarrow> leased_event" where
  "two_event v = (demo_event v)\<lparr>le_aggregate_id := nat (6 + v), le_aggregate_version := 1\<rparr>"

definition two_queue :: "delivery list \<Rightarrow> projection list \<Rightarrow> db" where
  "two_queue qs ps = demo_db0\<lparr>outbox := [two_row 1, two_row 2], outbox_delivery := qs, projection_state := ps, event_seq := 3\<rparr>"

text \<open>Two memories are written, both events are leased, the handler of the first raises and the
  second one succeeds.\<close>

definition two_wait :: system where
  "two_wait = \<lparr>sys_db = two_queue [new_delivery 1 SK_qdrant, new_delivery 2 SK_qdrant] [new_projection SK_qdrant 1],
     sys_hand = [], sys_log = []\<rparr>"

definition two_leased :: system where
  "two_leased = \<lparr>sys_db = two_queue [demo_taken 1, demo_taken 2] [new_projection SK_qdrant 1],
     sys_hand = [two_event 1, two_event 2], sys_log = []\<rparr>"

definition two_failed :: system where
  "two_failed = \<lparr>sys_db = fst (mark_fail 5 1 SK_qdrant 1 ''boom'' 5 (sys_db two_leased)), sys_hand = [two_event 2], sys_log = [two_event 1]\<rparr>"

definition two_done :: system where
  "two_done = \<lparr>sys_db = mark_done 6 2 SK_qdrant 1 0 (sys_db two_failed), sys_hand = [], sys_log = [two_event 1, two_event 2]\<rparr>"

lemmas two_defs = two_row_def two_event_def two_queue_def two_wait_def two_leased_def two_failed_def two_done_def
  mark_fail_def requeue_delivery_def

lemma two_wait_reachable: "reachable two_wait"
proof -
  let ?st = demo_settings and ?pl = "[] :: payload"
  let ?d1 = "demo_db0\<lparr>outbox := [two_row 1], outbox_delivery := [new_delivery 1 SK_qdrant],
     projection_state := [new_projection SK_qdrant 1], event_seq := 2\<rparr>"
  let ?s0 = "\<lparr>sys_db = demo_db0, sys_hand = [], sys_log = []\<rparr>"
  have r0: "reachable ?s0" by (rule reachable.start) (simp_all add: demo_defs)
  have e1: "enqueue_event ?st 0 AT_memory 7 1 1 OP_upsert ?pl None demo_db0 = Inr (?d1, \<lparr>ee_event_id = Some 1, ee_sinks = [SK_qdrant]\<rparr>)"
    by (simp add: enqueue_event_def resolve_sinks_for_def outbox_violation_def env_exists_def demo_defs two_defs)
  have e2: "enqueue_event ?st 0 AT_memory 8 1 1 OP_upsert ?pl None ?d1 = Inr (sys_db two_wait, \<lparr>ee_event_id = Some 2, ee_sinks = [SK_qdrant]\<rparr>)"
    by (simp add: enqueue_event_def resolve_sinks_for_def outbox_violation_def env_exists_def demo_defs two_defs)
  have "worker_step ?s0 (?s0\<lparr>sys_db := ?d1\<rparr>)"
    by (rule worker_step.enqueue) (use e1 in \<open>simp_all add: fresh_version_def demo_db0_def empty_db_def\<close>)
  then have r1: "reachable (?s0\<lparr>sys_db := ?d1\<rparr>)" by (rule reachable.step [OF r0])
  have "worker_step (?s0\<lparr>sys_db := ?d1\<rparr>) (?s0\<lparr>sys_db := sys_db two_wait\<rparr>)"
    using worker_step.enqueue [of "?s0\<lparr>sys_db := ?d1\<rparr>" 8 1] e2 by (simp add: fresh_version_def two_row_def demo_row_def)
  then have "reachable (?s0\<lparr>sys_db := sys_db two_wait\<rparr>)" by (rule reachable.step [OF r1])
  then show ?thesis by (simp add: two_wait_def)
qed

lemma two_leased_step: "worker_step two_wait two_leased"
  using worker_step.lease [of "''w''" 0 SK_qdrant 10 60 "\<lambda>_. False" two_wait "sys_db two_leased" "[two_event 1, two_event 2]"]
  by (simp add: lease_code demo_defs two_defs)

lemma two_failed_step: "worker_step two_leased two_failed"
  using worker_step.fail [of two_leased "[]" "two_event 1" "[two_event 2]" "sys_db two_failed" 5 1 "''boom''" 5]
  by (simp add: demo_event_def two_event_def two_leased_def two_failed_def)

lemma two_done_step: "worker_step two_failed two_done"
  using worker_step.succeed [of two_failed "[]" "two_event 2" "[]" "sys_db two_done" 6 1 0]
  by (simp add: demo_event_def two_event_def two_failed_def two_done_def)

lemma two_done_reachable: "reachable two_done"
  using two_wait_reachable two_leased_step two_failed_step two_done_step by (blast intro: reachable.step)

text \<open>A fresh search can miss a write it waited for: there is a reachable state of the projection
  in which the wait for the captured watermarks succeeds at once while the delivery of an earlier
  event of the environment at that sink has failed and is still pending.\<close>

lemma fresh_wait_misses_failed_events:
  "\<exists>s q r. reachable s \<and> wait_for_watermarks (capture_watermarks (sys_db s) [1]) [SK_qdrant] [sys_db s] \<and>
    q \<in> set (outbox_delivery (sys_db s)) \<and> od_sink q = SK_qdrant \<and> od_status q = OD_pending \<and> 0 < od_attempt_count q \<and>
    r \<in> set (outbox (sys_db s)) \<and> ob_event_id r = od_event_id q \<and> ob_env_id r = 1"
proof -
  have db: "sys_db two_done = (two_queue [requeue_delivery 5 1 ''boom'' (demo_taken 1), finish_delivery 6 (demo_taken 2)]
      [advance_projection 6 2 0 (new_projection SK_qdrant 1)])"
    by (simp add: two_defs demo_defs finish_code od_key_def mark_leased_def backoff_seconds_def)
  have wait: "wait_for_watermarks (capture_watermarks (sys_db two_done) [1]) [SK_qdrant] [sys_db two_done]"
    by (simp add: db wait_for_watermarks_def capture_watermarks_def watermark_reached_def two_queue_def two_row_def demo_row_def
        demo_db0_def empty_db_def advance_projection_def new_projection_def Let_def)
  have "requeue_delivery 5 1 ''boom'' (demo_taken 1) \<in> set (outbox_delivery (sys_db two_done))" "two_row 1 \<in> set (outbox (sys_db two_done))"
    by (simp_all add: db two_queue_def)
  moreover have "od_sink (requeue_delivery 5 1 ''boom'' (demo_taken 1)) = SK_qdrant" "od_status (requeue_delivery 5 1 ''boom'' (demo_taken 1)) = OD_pending"
      "od_attempt_count (requeue_delivery 5 1 ''boom'' (demo_taken 1)) = 1" "od_event_id (requeue_delivery 5 1 ''boom'' (demo_taken 1)) = 1"
    by (simp_all add: requeue_delivery_def demo_taken_def mark_leased_def new_delivery_def)
  moreover have "ob_event_id (two_row 1) = 1" "ob_env_id (two_row 1) = 1" by (simp_all add: two_row_def demo_row_def)
  ultimately show ?thesis using two_done_reachable wait
    by (intro exI [of _ two_done] exI [of _ "requeue_delivery 5 1 ''boom'' (demo_taken 1)"] exI [of _ "two_row 1"]) simp
qed

end
