(* ===== verification/Budget.thy ===== *)
theory Budget
  imports Complex_Main "HOL-Library.Product_Lexorder" "HOL-Library.Multiset" Prelude
begin

text \<open>
  Token budgets of the context pack, \<open>memory_mcp/context_pack/budget.py\<close>: word counts, truncation,
  and the largest-remainder split of a budget over the sections. Floats are real numbers. The lemmas
  show that truncation stops and fits, and that the caps add up to the budget exactly.
\<close>

datatype section_name = SEC_digest | SEC_trigger_matched | SEC_recent_journal | SEC_tasks | SEC_decisions | SEC_playbooks | SEC_archival

definition section_weights :: "(section_name \<times> real) list" where
  "section_weights = [(SEC_digest, 18/100), (SEC_trigger_matched, 25/100), (SEC_recent_journal, 20/100), (SEC_tasks, 10/100),
     (SEC_decisions, 10/100), (SEC_playbooks, 7/100), (SEC_archival, 10/100)]"

definition max_token_budget :: int where
  "max_token_budget = 100000"

definition min_token_budget :: int where
  "min_token_budget = 200"

definition clamp_token_budget :: "int \<Rightarrow> int" where
  "clamp_token_budget b = min b max_token_budget"

subsection \<open>Words\<close>

text \<open>\<open>re.compile(r"\S+").findall\<close>\<close>

function (sequential) words :: "string \<Rightarrow> string list" where
  "words [] = []"
| "words (c # cs) = (if is_space c then words cs
     else (c # takeWhile (\<lambda>x. \<not> is_space x) cs) # words (dropWhile (\<lambda>x. \<not> is_space x) cs))"
  by pat_completeness auto
termination by (relation "measure length") (auto simp: length_dropWhile_le le_imp_less_Suc)

definition join_words :: "string list \<Rightarrow> string" where
  "join_words ws = concat (case ws of [] \<Rightarrow> [] | w # rest \<Rightarrow> w # map (\<lambda>x. CHR '' '' # x) rest)"

text \<open>\<open>ceil(n / 0.75)\<close>, at least 1\<close>

definition word_tokens :: "nat \<Rightarrow> int" where
  "word_tokens n = (if n = 0 then 0 else max 1 \<lceil>real n / (3/4)\<rceil>)"

definition estimate_tokens :: "string \<Rightarrow> int" where
  "estimate_tokens t = word_tokens (length (words t))"

fun shrink :: "string list \<Rightarrow> int \<Rightarrow> nat \<Rightarrow> string" where
  "shrink ws cap 0 = []"
| "shrink ws cap (Suc keep) = (let candidate = join_words (take (Suc keep) ws) in
     if candidate \<noteq> [] \<and> cap < estimate_tokens candidate then shrink ws cap keep else candidate)"

definition truncate_to_token_budget :: "string \<Rightarrow> int \<Rightarrow> string \<times> bool \<times> int" where
  "truncate_to_token_budget text cap =
     (if cap \<le> 0 then ([], text \<noteq> [], 0)
      else let current = estimate_tokens text in
        if current \<le> cap then (text, False, current)
        else let candidate = shrink (words text) cap (nat (max 1 \<lfloor>real_of_int cap * (3/4)\<rfloor>))
             in (candidate, True, estimate_tokens candidate))"

subsection \<open>Section caps\<close>

definition raw_caps :: "int \<Rightarrow> (section_name \<times> real) list \<Rightarrow> (section_name \<times> real) list" where
  "raw_caps budget weights = map (\<lambda>(name, w). (name, real_of_int budget * w / sum_list (map snd weights))) weights"

definition remainder_order :: "(section_name \<times> real) \<Rightarrow> real \<times> real" where
  "remainder_order p = (- (snd p - \<lfloor>snd p\<rfloor>), - the (map_of section_weights (fst p)))"

definition calculate_section_caps :: "int \<Rightarrow> bool \<Rightarrow> section_name list option \<Rightarrow> (section_name \<times> int) list" where
  "calculate_section_caps token_budget include_journal available =
     (let budget = clamp_token_budget token_budget;
          w1 = (if include_journal then section_weights else filter (\<lambda>p. fst p \<noteq> SEC_recent_journal) section_weights);
          weights = (case available of None \<Rightarrow> w1 | Some names \<Rightarrow> filter (\<lambda>p. fst p \<in> set names) w1)
      in if weights = [] then []
         else
           let raw = raw_caps budget weights;
               remainder = budget - (\<Sum>p \<leftarrow> raw. \<lfloor>snd p\<rfloor>);
               extra = map fst (take (nat remainder) (sort_key remainder_order raw))
           in map (\<lambda>(name, r). (name, \<lfloor>r\<rfloor> + (if name \<in> set extra then 1 else 0))) raw)"

subsection \<open>Words of a joined text\<close>

definition is_word :: "string \<Rightarrow> bool" where
  "is_word w \<longleftrightarrow> w \<noteq> [] \<and> (\<forall>c \<in> set w. \<not> is_space c)"

lemma space_is_space [simp]: "is_space (CHR '' '')"
  by (simp add: is_space_def)

lemma words_are_words: "w \<in> set (words t) \<Longrightarrow> is_word w"
proof (induction t rule: words.induct)
  case (2 c cs)
  show ?case
  proof (cases "is_space c")
    case True
    then show ?thesis using 2 by simp
  next
    case False
    then consider "w = c # takeWhile (\<lambda>x. \<not> is_space x) cs" | "w \<in> set (words (dropWhile (\<lambda>x. \<not> is_space x) cs))"
      using "2.prems" by auto
    then show ?thesis
    proof cases
      case 1
      then show ?thesis using False by (auto simp: is_word_def dest: set_takeWhileD)
    next
      case 2
      then show ?thesis using "2.IH"(2) [OF False] by simp
    qed
  qed
qed simp

lemma words_word:
  assumes "is_word w"
  shows "words (w @ rest) = (case rest of [] \<Rightarrow> [w] | c # cs \<Rightarrow> if is_space c then w # words cs else words (w @ rest))"
proof (cases w)
  case Nil
  then show ?thesis using assms by (simp add: is_word_def)
next
  case (Cons c cs)
  then have ns: "\<not> is_space c" "\<forall>x \<in> set cs. \<not> is_space x" using assms by (auto simp: is_word_def)
  show ?thesis
  proof (cases rest)
    case Nil
    then show ?thesis using Cons ns by (simp add: takeWhile_eq_all_conv [THEN iffD2] dropWhile_eq_Nil_conv [THEN iffD2])
  next
    case rest: (Cons d ds)
    show ?thesis
    proof (cases "is_space d")
      case True
      have "takeWhile (\<lambda>x. \<not> is_space x) (cs @ d # ds) = cs" "dropWhile (\<lambda>x. \<not> is_space x) (cs @ d # ds) = d # ds"
        using ns(2) True by (simp_all add: takeWhile_append2 dropWhile_append2)
      then show ?thesis using Cons ns(1) rest True by simp
    next
      case False
      then show ?thesis using rest by simp
    qed
  qed
qed

lemma words_join:
  assumes "\<forall>w \<in> set ws. is_word w"
  shows "words (join_words ws) = ws"
proof (cases ws)
  case Nil
  then show ?thesis by (simp add: join_words_def)
next
  case (Cons w rest)
  have "words (w @ concat (map (\<lambda>x. CHR '' '' # x) rest)) = w # rest" if "is_word w" "\<forall>x \<in> set rest. is_word x" for w rest
    using that
  proof (induction rest arbitrary: w)
    case Nil
    then show ?case using words_word [of w "[]"] by simp
  next
    case (Cons x xs)
    have "words (w @ CHR '' '' # x @ concat (map (\<lambda>x. CHR '' '' # x) xs)) = w # words (x @ concat (map (\<lambda>x. CHR '' '' # x) xs))"
      using words_word [OF Cons.prems(1), of "CHR '' '' # x @ concat (map (\<lambda>x. CHR '' '' # x) xs)"] by simp
    then show ?case using Cons by simp
  qed
  then show ?thesis using Cons assms by (simp add: join_words_def)
qed

lemma join_take_words: "words (join_words (take k (words t))) = take k (words t)"
  by (rule words_join) (meson in_set_takeD words_are_words)

subsection \<open>Truncation\<close>

lemma word_tokens_mono:
  assumes "m \<le> n"
  shows "word_tokens m \<le> word_tokens n"
proof -
  have "\<lceil>real m / (3/4)\<rceil> \<le> \<lceil>real n / (3/4)\<rceil>" using assms by (intro ceiling_mono) simp
  then show ?thesis using assms by (cases "m = 0") (auto simp: word_tokens_def)
qed

lemma word_tokens_nonneg [simp]: "0 \<le> word_tokens n"
  by (simp add: word_tokens_def)

lemma shrink_spec:
  "0 \<le> cap \<Longrightarrow> \<exists>k \<le> keep. shrink (words t) cap keep = join_words (take k (words t)) \<and> estimate_tokens (shrink (words t) cap keep) \<le> cap \<and>
    (k < keep \<longrightarrow> cap < estimate_tokens (join_words (take (Suc k) (words t))))"
proof (induction keep)
  case 0
  then show ?case by (simp add: join_words_def estimate_tokens_def word_tokens_def)
next
  case (Suc keep)
  let ?c = "join_words (take (Suc keep) (words t))"
  show ?case
  proof (cases "?c \<noteq> [] \<and> cap < estimate_tokens ?c")
    case True
    then have eq: "shrink (words t) cap (Suc keep) = shrink (words t) cap keep" by (simp add: Let_def)
    obtain k where k: "k \<le> keep" "shrink (words t) cap keep = join_words (take k (words t))" "estimate_tokens (shrink (words t) cap keep) \<le> cap"
        "k < keep \<longrightarrow> cap < estimate_tokens (join_words (take (Suc k) (words t)))"
      using Suc by blast
    have "cap < estimate_tokens (join_words (take (Suc k) (words t)))"
    proof (cases "k < keep")
      case True
      then show ?thesis using k(4) by simp
    next
      case False
      then have "k = keep" using k(1) by simp
      then show ?thesis using True by simp
    qed
    then show ?thesis using k(1-3) unfolding eq by (intro exI [of _ k]) simp
  next
    case False
    then have eq: "shrink (words t) cap (Suc keep) = ?c" by (auto simp: Let_def)
    have "estimate_tokens ?c \<le> cap" using False Suc.prems by (auto simp: estimate_tokens_def word_tokens_def)
    then show ?thesis unfolding eq by (intro exI [of _ "Suc keep"]) simp
  qed
qed

text \<open>Truncation to a token budget always returns a text that fits: the reported count is the
  estimate of the returned text, it is at most the cap (or 0 for a cap that is not positive), the text is returned
  unchanged exactly when it fits, and otherwise it is a prefix of the text's words, joined by
  blanks, that could not be one word longer.\<close>

lemma truncate_fits:
  "case truncate_to_token_budget text cap of (t, truncated, n) \<Rightarrow>
     n = estimate_tokens t \<and> n \<le> max 0 cap \<and>
     (0 < cap \<longrightarrow> (truncated \<longleftrightarrow> cap < estimate_tokens text) \<and> (\<not> truncated \<longrightarrow> t = text) \<and>
       (truncated \<longrightarrow> (\<exists>k < length (words text). t = join_words (take k (words text)) \<and> word_tokens k \<le> cap \<and> cap < word_tokens (Suc k))))"
proof (cases "cap \<le> 0 \<or> estimate_tokens text \<le> cap")
  case True
  then consider "cap \<le> 0" | "0 < cap" "estimate_tokens text \<le> cap" by linarith
  then show ?thesis
  proof cases
    case 1
    then show ?thesis by (simp add: truncate_to_token_budget_def estimate_tokens_def word_tokens_def)
  next
    case 2
    then show ?thesis by (simp add: truncate_to_token_budget_def)
  qed
next
  case False
  let ?keep = "nat (max 1 \<lfloor>real_of_int cap * (3/4)\<rfloor>)"
  let ?t = "shrink (words text) cap ?keep"
  have nonneg: "0 \<le> cap" using False by simp
  obtain k where k: "k \<le> ?keep" "?t = join_words (take k (words text))" "estimate_tokens ?t \<le> cap"
      "k < ?keep \<longrightarrow> cap < estimate_tokens (join_words (take (Suc k) (words text)))"
    using shrink_spec [OF nonneg, of ?keep "text"] by blast
  have est: "estimate_tokens (join_words (take j (words text))) = word_tokens (min j (length (words text)))" for j
    by (simp add: estimate_tokens_def join_take_words min.commute)
  have short: "k < length (words text)"
  proof (rule ccontr)
    assume "\<not> k < length (words text)"
    then have "estimate_tokens ?t = estimate_tokens text" unfolding k(2) est by (simp add: estimate_tokens_def min_def)
    then show False using k(3) False by simp
  qed
  have fits: "word_tokens k \<le> cap" using k(3) short unfolding k(2) est by (simp add: min_def)
  have next_k: "cap < word_tokens (Suc k)"
  proof (cases "k < ?keep")
    case True
    then show ?thesis using k(4) short unfolding est by (simp add: min_def)
  next
    case False
    then have keep: "k = ?keep" using k(1) by simp
    have "real_of_int cap * (3/4) < real_of_int \<lfloor>real_of_int cap * (3/4)\<rfloor> + 1" by linarith
    also have "\<dots> \<le> real (Suc k)" unfolding keep by (simp add: of_nat_nat)
    finally have "real_of_int cap < real (Suc k) / (3/4)" by simp
    then have "cap < \<lceil>real (Suc k) / (3/4)\<rceil>" by (simp add: less_ceiling_iff)
    then show ?thesis by (simp add: word_tokens_def)
  qed
  have "truncate_to_token_budget text cap = (?t, True, estimate_tokens ?t)"
    using False by (simp add: truncate_to_token_budget_def Let_def)
  then show ?thesis using False k(2,3) short fits next_k by auto
qed

lemma cut_three: "truncate_to_token_budget ''a b c'' 3 = (''a b'', True, 3)"
proof -
  have words: "words ''a b c'' = [''a'', ''b'', ''c'']" "words ''a b'' = [''a'', ''b'']" by (simp_all add: is_space_def Let_def)
  have est: "estimate_tokens ''a b c'' = 4" "estimate_tokens ''a b'' = 3" by (simp_all add: estimate_tokens_def word_tokens_def is_space_def)
  have keep: "nat (max 1 \<lfloor>real_of_int 3 * (3/4)\<rfloor>) = Suc (Suc 0)" by simp
  show ?thesis unfolding truncate_to_token_budget_def Let_def keep words est
    by (simp add: est join_words_def)
qed

lemma truncate_fits_witness:
  "truncate_to_token_budget ''a b c'' 3 = (''a b'', True, 3) \<and>
   (\<exists>k < length (words ''a b c''). ''a b'' = join_words (take k (words ''a b c'')) \<and> 3 < word_tokens (Suc k))"
  using truncate_fits [of 3 "''a b c''"] unfolding cut_three by auto

subsection \<open>The caps\<close>

lemma sum_floor_le: "real_of_int (\<Sum>p \<leftarrow> xs. \<lfloor>f p\<rfloor>) \<le> (\<Sum>p \<leftarrow> xs. f p)"
  by (induction xs) (auto intro: add_mono of_int_floor_le)

lemma sum_floor_gt: "xs \<noteq> [] \<Longrightarrow> (\<Sum>p \<leftarrow> xs. f p) < real_of_int (\<Sum>p \<leftarrow> xs. \<lfloor>f p\<rfloor>) + real (length xs)"
proof (induction xs rule: list_nonempty_induct)
  case (single x)
  have "f x < real_of_int \<lfloor>f x\<rfloor> + 1" by linarith
  then show ?case by simp
next
  case (cons x xs)
  have "f x < real_of_int \<lfloor>f x\<rfloor> + 1" by linarith
  from add_strict_mono [OF this cons.IH] show ?case by simp
qed

lemma sum_indicator:
  assumes "distinct names" "set extra \<subseteq> set names" "distinct extra"
  shows "(\<Sum>n \<leftarrow> names. if n \<in> set extra then 1 else (0 :: int)) = int (length extra)"
proof -
  have "(\<Sum>n \<leftarrow> names. if n \<in> set extra then 1 else (0 :: int)) = (\<Sum>n \<in> set names. if n \<in> set extra then 1 else 0)"
    by (rule sum_list_distinct_conv_sum_set [OF assms(1)])
  also have "\<dots> = int (card (set names \<inter> set extra))" by (simp add: sum.If_cases)
  also have "set names \<inter> set extra = set extra" using assms(2) by blast
  finally show ?thesis using distinct_card [OF assms(3)] by simp
qed

definition weighted_sections :: "bool \<Rightarrow> section_name list option \<Rightarrow> (section_name \<times> real) list" where
  "weighted_sections include_journal available = filter (\<lambda>(n, w). (include_journal \<or> n \<noteq> SEC_recent_journal) \<and>
     (case available of None \<Rightarrow> True | Some names \<Rightarrow> n \<in> set names)) section_weights"

lemma caps_weights:
  "(case available of None \<Rightarrow> (if j then section_weights else filter (\<lambda>p. fst p \<noteq> SEC_recent_journal) section_weights)
     | Some names \<Rightarrow> filter (\<lambda>p. fst p \<in> set names) (if j then section_weights else filter (\<lambda>p. fst p \<noteq> SEC_recent_journal) section_weights))
   = weighted_sections j available"
  by (cases available; cases j) (auto simp: weighted_sections_def case_prod_beta intro: filter_cong)

lemma weighted_sections_sum: "weighted_sections j available \<noteq> [] \<Longrightarrow> 0 < sum_list (map snd (weighted_sections j available))"
proof -
  assume "weighted_sections j available \<noteq> []"
  moreover have "0 < snd p" if "p \<in> set (weighted_sections j available)" for p
  proof -
    have "p \<in> set section_weights" using that by (simp add: weighted_sections_def)
    then show ?thesis by (auto simp: section_weights_def)
  qed
  moreover have "xs \<noteq> [] \<Longrightarrow> (\<And>p. p \<in> set xs \<Longrightarrow> 0 < (snd p :: real)) \<Longrightarrow> 0 < sum_list (map snd xs)" for xs :: "(section_name \<times> real) list"
    by (induction xs rule: list_nonempty_induct) (auto intro: add_pos_pos)
  ultimately show ?thesis by blast
qed

lemma raw_caps_sum: "ws \<noteq> [] \<Longrightarrow> 0 < sum_list (map snd ws) \<Longrightarrow> (\<Sum>p \<leftarrow> raw_caps b ws. snd p) = real_of_int b"
proof -
  assume "0 < sum_list (map snd ws)"
  have "(\<Sum>p \<leftarrow> raw_caps b ws. snd p) = (\<Sum>p \<leftarrow> ws. real_of_int b / sum_list (map snd ws) * snd p)"
    by (simp add: raw_caps_def case_prod_beta o_def)
  also have "\<dots> = real_of_int b / sum_list (map snd ws) * sum_list (map snd ws)"
    by (simp only: sum_list_const_mult)
  finally show ?thesis using \<open>0 < sum_list (map snd ws)\<close> by simp
qed

lemma raw_caps_names [simp]: "map fst (raw_caps b ws) = map fst ws" "length (raw_caps b ws) = length ws" "raw_caps b ws = [] \<longleftrightarrow> ws = []"
  by (simp_all add: raw_caps_def case_prod_beta o_def)

lemma weighted_sections_distinct: "distinct (map fst (weighted_sections j available))"
  unfolding weighted_sections_def by (rule distinct_map_filter) (simp add: section_weights_def)

lemma apportioned:
  "let ws = weighted_sections include_journal available; caps = calculate_section_caps b include_journal available in
   map fst caps = map fst ws \<and> (ws = [] \<or> sum_list (map snd caps) = clamp_token_budget b) \<and>
   list_all2 (\<lambda>(n, c) (n', share). c = \<lfloor>share\<rfloor> \<or> c = \<lfloor>share\<rfloor> + 1) caps (raw_caps (clamp_token_budget b) ws)"
proof -
  let ?ws = "weighted_sections include_journal available" and ?b = "clamp_token_budget b"
  let ?raw = "raw_caps ?b ?ws"
  let ?rem = "?b - (\<Sum>p \<leftarrow> ?raw. \<lfloor>snd p\<rfloor>)"
  let ?extra = "map fst (take (nat ?rem) (sort_key remainder_order ?raw))"
  let ?cap = "\<lambda>(name, r). (name, \<lfloor>r\<rfloor> + (if name \<in> set ?extra then 1 else 0))"
  have caps: "calculate_section_caps b include_journal available = (if ?ws = [] then [] else map ?cap ?raw)"
    unfolding calculate_section_caps_def Let_def caps_weights ..
  have share: "list_all2 (\<lambda>(n, c) (n', share). c = \<lfloor>share\<rfloor> \<or> c = \<lfloor>share\<rfloor> + 1) (map ?cap ?raw) ?raw"
    by (simp add: list_all2_map1 list.rel_refl case_prod_beta list_all2_same)
  show ?thesis
  proof (cases "?ws = []")
    case True
    then show ?thesis by (simp add: caps raw_caps_def)
  next
    case False
    have total: "(\<Sum>p \<leftarrow> ?raw. snd p) = real_of_int ?b" by (rule raw_caps_sum [OF False weighted_sections_sum [OF False]])
    have "real_of_int (\<Sum>p \<leftarrow> ?raw. \<lfloor>snd p\<rfloor>) \<le> real_of_int ?b" using sum_floor_le [of snd ?raw] unfolding total .
    then have low: "0 \<le> ?rem" by linarith
    have "real_of_int ?b < real_of_int (\<Sum>p \<leftarrow> ?raw. \<lfloor>snd p\<rfloor>) + real (length ?raw)"
      using sum_floor_gt [of ?raw snd] False unfolding total by simp
    then have high: "nat ?rem \<le> length ?raw" by linarith
    have perm: "mset (map fst (sort_key remainder_order ?raw)) = mset (map fst ?raw)" by (simp only: mset_map mset_sort)
    then have dist: "distinct (map fst (sort_key remainder_order ?raw))"
      using weighted_sections_distinct [of include_journal available] by (metis mset_eq_imp_distinct_iff raw_caps_names(1))
    have extra: "distinct ?extra" "set ?extra \<subseteq> set (map fst ?raw)" "int (length ?extra) = ?rem"
    proof -
      show "distinct ?extra" using dist by (simp only: take_map [symmetric] distinct_take)
      show "set ?extra \<subseteq> set (map fst ?raw)" 
        unfolding set_map by (rule image_mono) (use set_take_subset [of "nat ?rem" "sort_key remainder_order ?raw"] in simp)
      show "int (length ?extra) = ?rem" using low high by simp
    qed
    have "sum_list (map snd (map ?cap ?raw)) = (\<Sum>p \<leftarrow> ?raw. \<lfloor>snd p\<rfloor>) + (\<Sum>n \<leftarrow> map fst ?raw. if n \<in> set ?extra then 1 else 0)"
      by (simp only: map_map o_def case_prod_beta snd_conv sum_list_addf)
    also have "\<dots> = ?b"
      unfolding sum_indicator [OF _ extra(2,1)] using extra(3) weighted_sections_distinct [of include_journal available]
      by (subst sum_indicator [OF _ extra(2,1)]) auto
    finally have sum: "sum_list (map snd (map ?cap ?raw)) = ?b" .
    have names: "map fst (map ?cap ?raw) = map fst ?ws"
      using raw_caps_names(1) [of ?b ?ws] by (simp only: map_map o_def case_prod_beta fst_conv)
    show ?thesis unfolding Let_def caps if_not_P [OF False] using names sum share by blast
  qed
qed

text \<open>The section caps of a pack are an apportionment: the sections that are asked for, in
  their fixed order, each get the integer part of their share of the clamped budget or one token more, and
  together they get the clamped budget exactly.\<close>

lemma section_caps_apportion:
  "let ws = weighted_sections include_journal available; caps = calculate_section_caps b include_journal available in
   map fst caps = map fst ws \<and> (ws = [] \<or> sum_list (map snd caps) = clamp_token_budget b) \<and>
   list_all2 (\<lambda>(n, c) (n', share). c = \<lfloor>share\<rfloor> \<or> c = \<lfloor>share\<rfloor> + 1) caps (raw_caps (clamp_token_budget b) ws)"
  by (rule apportioned)

end
