(* ===== verification/Texts.thy ===== *)
theory Texts
  imports Prelude
begin

text \<open>
  Text functions of the standard library and of SQL that several modules use: \<open>re.sub\<close> and
  \<open>re.split\<close> on runs of characters, \<open>\w\<close>, and \<open>LIKE\<close> with the backslash escape. Characters are those of HOL's
  \<open>char\<close> (code points 0 to 255), as in the prelude.
\<close>

text \<open>\<open>re.sub(r"[P]+", rep, s)\<close> for one character \<open>rep\<close>; the flag says that the last character was replaced.\<close>

fun sub_runs :: "(char \<Rightarrow> bool) \<Rightarrow> char \<Rightarrow> bool \<Rightarrow> string \<Rightarrow> string" where
  "sub_runs P rep b [] = []"
| "sub_runs P rep b (c # cs) = (if \<not> P c then c # sub_runs P rep False cs
     else if b then sub_runs P rep True cs else rep # sub_runs P rep True cs)"

text \<open>The maximal runs of characters with \<open>P\<close>\<close>

function (sequential) runs :: "(char \<Rightarrow> bool) \<Rightarrow> string \<Rightarrow> string list" where
  "runs P [] = []"
| "runs P (c # cs) = (if \<not> P c then runs P cs else (c # takeWhile P cs) # runs P (dropWhile P cs))"
  by pat_completeness auto
termination by (relation "measure (\<lambda>(P, s). length s)") (auto simp: length_dropWhile_le le_imp_less_Suc)

text \<open>The letters and digits of \<open>\w\<close>; the underscore is the third part of it.\<close>

definition is_alnum :: "char \<Rightarrow> bool" where
  "is_alnum c = (let n = of_char c :: nat in (48 \<le> n \<and> n \<le> 57) \<or> (65 \<le> n \<and> n \<le> 90) \<or> (97 \<le> n \<and> n \<le> 122) \<or>
     n \<in> {170, 178, 179, 181, 185, 186, 188, 189, 190} \<or> (192 \<le> n \<and> n \<noteq> 215 \<and> n \<noteq> 247))"

definition is_word_char :: "char \<Rightarrow> bool" where
  "is_word_char c \<longleftrightarrow> is_alnum c \<or> c = CHR ''_''"

subsection \<open>LIKE\<close>

text \<open>Percent, underscore and the backslash escape; \<open>ilike\<close> compares lowered texts.\<close>

function (sequential) like :: "string \<Rightarrow> string \<Rightarrow> bool" where
  "like [] s = (s = [])"
| "like (p # ps) s =
     (if p = CHR ''%'' then like ps s \<or> (case s of [] \<Rightarrow> False | c # cs \<Rightarrow> like (p # ps) cs)
      else if p = CHR 0x5C then (case (ps, s) of (q # qs, c # cs) \<Rightarrow> c = q \<and> like qs cs | _ \<Rightarrow> False)
      else (case s of [] \<Rightarrow> False | c # cs \<Rightarrow> (p = CHR ''_'' \<or> c = p) \<and> like ps cs))"
  by pat_completeness auto
termination by (relation "measure (\<lambda>(p, s). length p + length s)") auto

definition ilike :: "string \<Rightarrow> string \<Rightarrow> bool" where
  "ilike s pattern = like (lower pattern) (lower s)"

text \<open>Escaping of the two wildcards and of the escape character itself.\<close>

fun like_escape :: "string \<Rightarrow> string" where
  "like_escape [] = []"
| "like_escape (c # cs) = (if c \<in> {CHR 0x5C, CHR ''%'', CHR ''_''} then [CHR 0x5C, c] else [c]) @ like_escape cs"

lemma like_percent: "like ''%'' s"
  by (induction s) auto

text \<open>An escaped text followed by a percent sign matches exactly the texts it is a prefix of.\<close>

lemma like_prefix: "like (like_escape p @ ''%'') s \<longleftrightarrow> (\<exists>rest. s = p @ rest)"
proof (induction p arbitrary: s)
  case Nil
  then show ?case by (simp add: like_percent del: like.simps)
next
  case (Cons c p)
  then show ?case by (cases s) auto
qed

end
