(* ===== verification/ContextPack.thy ===== *)
theory ContextPack
  imports Budget SearchPass Tasks Texts
begin

text \<open>
  The context pack of \<open>mem_context_pack\<close>, \<open>memory_mcp/context_pack/api.py\<close>: seven fetches, each in its own
  transaction and failing open, then the packing of the fetched rows into sections within their
  token caps. \<open>view k\<close> is the state the k-th transaction reads and \<open>now k\<close> its clock.
\<close>

record pack_hit =
  ph_memory_id :: uuid
  ph_title :: string
  ph_body :: string
  ph_kind :: string
  ph_salience :: real
  ph_tokens_used :: int
  ph_body_truncated :: bool

record pack_section =
  ps_name :: section_name
  ps_items :: "pack_hit list"
  ps_tokens_used :: int
  ps_cap_tokens :: int
  ps_truncation_count :: nat

record pack_response =
  pr_sections :: "pack_section list"
  pr_total_tokens :: int
  pr_budget_used_pct :: real
  pr_sections_skipped :: "section_name list"
  pr_task_desc_used :: string

definition section_order :: "section_name list" where
  "section_order = [SEC_digest, SEC_trigger_matched, SEC_recent_journal, SEC_tasks, SEC_decisions, SEC_playbooks, SEC_archival]"

definition visible_statuses :: "memory_status list" where
  "visible_statuses = [MS_proposed, MS_active]"

subsection \<open>Reading\<close>

definition visible_row :: "time \<Rightarrow> uuid \<Rightarrow> memory \<Rightarrow> bool" where
  "visible_row now env m \<longleftrightarrow> m_env_id m = env \<and> m_status m \<in> set visible_statuses \<and> \<not> is_expired now m"

definition by_creation :: "memory \<Rightarrow> int \<times> int" where
  "by_creation m = (- m_created_at m, - int (m_id m))"

definition by_salience :: "memory \<Rightarrow> real \<times> int \<times> int" where
  "by_salience m = (- m_salience m, - m_updated_at m, - int (m_id m))"

definition fetch_latest_digest :: "time \<Rightarrow> uuid \<Rightarrow> db \<Rightarrow> memory option" where
  "fetch_latest_digest now env d =
     (case sort_key by_creation (filter (\<lambda>m. visible_row now env m \<and> m_kind m = MK_session_digest) (memories d)) of
        [] \<Rightarrow> None
      | m # _ \<Rightarrow> Some m)"

definition journal_kinds :: "memory_kind list" where
  "journal_kinds = [MK_journal_entry, MK_observation]"

definition fetch_recent_journal :: "time \<Rightarrow> uuid \<Rightarrow> db \<Rightarrow> memory list" where
  "fetch_recent_journal now env d =
     take 50 (sort_key by_creation (filter (\<lambda>m. visible_row now env m \<and> m_kind m \<in> set journal_kinds) (memories d)))"

definition fetch_memories_by_ids :: "time \<Rightarrow> uuid \<Rightarrow> db \<Rightarrow> uuid list \<Rightarrow> memory list" where
  "fetch_memories_by_ids now env d ids =
     (let rows = filter (\<lambda>m. m_id m \<in> set ids \<and> visible_row now env m) (memories d)
      in List.map_filter (\<lambda>i. lookup m_id i rows) (dedupe ids))"

text \<open>
  \<open>except (MemoryMCPError, UnexpectedResponse, RuntimeError, ValueError)\<close>: the errors of the application and
  two builtin families (\<open>NotImplementedError\<close> is a \<open>RuntimeError\<close>); every other exception leaves the pack. The
  \<open>UnexpectedResponse\<close> of the vector client is among the \<open>RuntimeError\<close>s of the model, both are caught everywhere.
\<close>

definition fail_open :: "error \<Rightarrow> bool" where
  "fail_open e \<longleftrightarrow> error_code e \<noteq> None \<or>
     (case e of RuntimeError _ \<Rightarrow> True | NotImplementedError _ \<Rightarrow> True | ValueError _ \<Rightarrow> True | _ \<Rightarrow> False)"

definition fetch_trigger_matches :: "search_backend \<Rightarrow> (nat \<Rightarrow> time) \<Rightarrow> (nat \<Rightarrow> db) \<Rightarrow> string \<Rightarrow> uuid \<Rightarrow> nat \<Rightarrow> memory list res" where
  "fetch_trigger_matches be now view task_desc env top_k =
     (case search_by_trigger be (view 1) (view 2) task_desc env top_k of
        Inl e \<Rightarrow> (if fail_open e then Inr [] else Inl e)
      | Inr ranked \<Rightarrow> Inr (if ranked = [] then [] else fetch_memories_by_ids (now 3) env (view 3) (map fst ranked)))"

definition fetch_tasks :: "uuid \<Rightarrow> db \<Rightarrow> task list" where
  "fetch_tasks env d =
     (let in_progress = take 3 (sort_key (\<lambda>t. (t_priority t, - t_updated_at t, t_id t))
            (filter (\<lambda>t. t_env_id t = env \<and> t_status t = TS_in_progress) (task_rows d)));
          remaining = 5 - length in_progress
      in in_progress @ take remaining (sort_key task_order (ready_rows env d)))"

definition meta_accepted :: "memory \<Rightarrow> bool" where
  "meta_accepted m \<longleftrightarrow> (case m_decision_meta m of None \<Rightarrow> False | Some p \<Rightarrow> map_of p ''status'' = Some (JStr ''accepted''))"

definition fetch_decisions :: "time \<Rightarrow> uuid \<Rightarrow> db \<Rightarrow> uuid list \<Rightarrow> memory list" where
  "fetch_decisions now env d excluded =
     take 5 (sort_key by_salience (filter (\<lambda>m. visible_row now env m \<and> m_kind m = MK_decision \<and> meta_accepted m \<and>
       m_id m \<notin> set excluded) (memories d)))"

definition fetch_archival :: "time \<Rightarrow> uuid \<Rightarrow> db \<Rightarrow> uuid list \<Rightarrow> memory list" where
  "fetch_archival now env d excluded =
     take 100 (sort_key by_salience (filter (\<lambda>m. visible_row now env m \<and> m_kind m \<noteq> MK_session_digest \<and>
       m_kind m \<notin> set journal_kinds \<and> m_id m \<notin> set excluded) (memories d)))"

subsection \<open>Playbooks\<close>

definition contains_pattern :: "string \<Rightarrow> string" where
  "contains_pattern s = ''%'' @ s @ ''%''"

text \<open>\<open>[\W_]+\<close>, and runs that are at least two characters long\<close>

definition task_desc_tokens :: "string \<Rightarrow> string list" where
  "task_desc_tokens task_desc = filter (\<lambda>t. 2 \<le> length t) (runs is_alnum (lower task_desc))"

definition macro_matches :: "string \<Rightarrow> string \<Rightarrow> bool" where
  "macro_matches task_desc macro \<longleftrightarrow>
     (let normalized = join_words (words (lower task_desc)) in
      list_ex (\<lambda>t. ilike macro (contains_pattern t)) (task_desc_tokens task_desc) \<or>
      normalized \<noteq> [] \<and> (ilike macro (contains_pattern normalized) \<or> ilike normalized (contains_pattern macro)))"

definition playbook_by_macro :: "time \<Rightarrow> uuid \<Rightarrow> db \<Rightarrow> string \<Rightarrow> uuid list \<Rightarrow> nat \<Rightarrow> memory list" where
  "playbook_by_macro now env d task_desc excluded top_k =
     take top_k (sort_key by_salience (filter (\<lambda>m. visible_row now env m \<and> m_kind m = MK_playbook \<and>
       (case m_macro m of None \<Rightarrow> False | Some macro \<Rightarrow> macro_matches task_desc macro) \<and> m_id m \<notin> set excluded) (memories d)))"

definition search_playbook_body_ids :: "search_backend \<Rightarrow> db \<Rightarrow> string \<Rightarrow> uuid \<Rightarrow> nat \<Rightarrow> uuid list res" where
  "search_playbook_body_ids be d task_desc env top_k =
     (if strip task_desc = [] \<or> top_k = 0 then Inr []
      else bindE (sem_search be d task_desc [env]
             \<lparr>vf_statuses = visible_statuses, vf_kinds = Some [MK_playbook], vf_tags = None, vf_has_trigger = None\<rparr> top_k) (\<lambda>hits.
           Inr (map rh_memory_id hits)))"

definition fetch_playbooks ::
  "search_backend \<Rightarrow> (nat \<Rightarrow> time) \<Rightarrow> (nat \<Rightarrow> db) \<Rightarrow> string \<Rightarrow> uuid \<Rightarrow> nat \<Rightarrow> uuid list \<Rightarrow> memory list res" where
  "fetch_playbooks be now view task_desc env top_k excluded =
     (if top_k = 0 then Inr []
      else let out = playbook_by_macro (now 7) env (view 7) task_desc excluded top_k;
               remaining = top_k - length out
           in if remaining = 0 then Inr out
              else case search_playbook_body_ids be (view 8) task_desc env top_k of
                Inl e \<Rightarrow> (if fail_open e then Inr out else Inl e)
              | Inr found \<Rightarrow>
                  let ids = take remaining (filter (\<lambda>i. i \<notin> set excluded \<and> i \<notin> m_id ` set out) found)
                  in Inr (if ids = [] then out else take top_k (out @ fetch_memories_by_ids (now 9) env (view 9) ids)))"

subsection \<open>Digest sections\<close>

definition is_line_break :: "char \<Rightarrow> bool" where
  "is_line_break c = (let n = of_char c :: nat in (10 \<le> n \<and> n \<le> 13) \<or> (28 \<le> n \<and> n \<le> 30) \<or> n = 133)"

function (sequential) split_lines :: "string \<Rightarrow> string list" where
  "split_lines [] = []"
| "split_lines (c # cs) =
     (let line = takeWhile (\<lambda>x. \<not> is_line_break x) (c # cs) in
      line # (case dropWhile (\<lambda>x. \<not> is_line_break x) (c # cs) of
          [] \<Rightarrow> []
        | b # rest \<Rightarrow> split_lines (if b = CHR 0x0D \<and> rest \<noteq> [] \<and> hd rest = CHR 0x0A then tl rest else rest)))"
  by pat_completeness auto
termination
proof (relation "measure length", goal_cases)
  case 1
  then show ?case by simp
next
  case (2 c cs line b rest)
  then have "length (b # rest) \<le> length (c # cs)" by (metis length_dropWhile_le)
  then show ?case by auto
qed

definition is_slug_char :: "char \<Rightarrow> bool" where
  "is_slug_char c = (let n = of_char c :: nat in (48 \<le> n \<and> n \<le> 57) \<or> (97 \<le> n \<and> n \<le> 122))"

definition strip_underscores :: "string \<Rightarrow> string" where
  "strip_underscores s = rev (dropWhile (\<lambda>c. c = CHR ''_'') (rev (dropWhile (\<lambda>c. c = CHR ''_'') s)))"

definition normalize_digest_heading :: "string \<Rightarrow> string" where
  "normalize_digest_heading v = strip_underscores (sub_runs (\<lambda>c. \<not> is_slug_char c) (CHR ''_'') False (lower (strip v)))"

text \<open>
  The heading pattern: one to six hashes, white space, at least one more character. A heading of
  white space alone matches when there are two blanks, with an empty name.
\<close>

definition heading_of :: "string \<Rightarrow> string option" where
  "heading_of line =
     (let hashes = takeWhile (\<lambda>c. c = CHR ''#'') line; rest = dropWhile (\<lambda>c. c = CHR ''#'') line in
      if 1 \<le> length hashes \<and> length hashes \<le> 6 \<and> rest \<noteq> [] \<and> is_space (hd rest) \<and> (strip rest \<noteq> [] \<or> 2 \<le> length rest)
      then Some (normalize_digest_heading (strip rest)) else None)"

fun digest_sections :: "string list \<Rightarrow> (string \<times> string list) option \<Rightarrow> (string \<times> string list) list" where
  "digest_sections [] current = (case current of None \<Rightarrow> [] | Some s \<Rightarrow> [s])"
| "digest_sections (line # rest) current =
     (case heading_of line of
        Some h \<Rightarrow> (case current of None \<Rightarrow> [] | Some s \<Rightarrow> [s]) @ digest_sections rest (Some (h, [line]))
      | None \<Rightarrow> digest_sections rest (map_option (\<lambda>(h, ls). (h, ls @ [line])) current))"

definition digest_section_names :: "string list" where
  "digest_section_names = [''brief'', ''active_context'']"

fun join_lines :: "string list \<Rightarrow> string" where
  "join_lines [] = []"
| "join_lines [l] = l"
| "join_lines (l # ls) = l @ CHR 0x0A # join_lines ls"

definition extract_digest_sections :: "string \<Rightarrow> string" where
  "extract_digest_sections body = strip (join_lines (concat (map snd
     (filter (\<lambda>s. fst s \<in> set digest_section_names) (digest_sections (split_lines body) None)))))"

subsection \<open>Packing\<close>

definition finish_hit :: "string \<Rightarrow> string \<Rightarrow> int \<Rightarrow> (string \<Rightarrow> int \<Rightarrow> bool \<Rightarrow> pack_hit) \<Rightarrow> pack_hit option" where
  "finish_hit title body cap_tokens mk =
     (let title_tokens = estimate_tokens title; body_cap = max 0 (cap_tokens - title_tokens) in
      if body_cap \<le> 0 \<and> body \<noteq> [] then None
      else case truncate_to_token_budget body body_cap of (b, truncated, body_tokens) \<Rightarrow>
        let used = title_tokens + body_tokens in
        if cap_tokens < used then None else Some (mk b used truncated))"

definition build_hit :: "bool \<Rightarrow> memory \<Rightarrow> int \<Rightarrow> pack_hit option" where
  "build_hit digest m cap_tokens =
     (let title = (case m_title m of None \<Rightarrow> [] | Some t \<Rightarrow> t);
          selected = extract_digest_sections (m_body m);
          body = (if digest \<and> cap_tokens < estimate_tokens (m_body m) \<and> selected \<noteq> [] then selected else m_body m)
      in finish_hit title body cap_tokens (\<lambda>b used truncated.
           \<lparr>ph_memory_id = m_id m, ph_title = title, ph_body = b, ph_kind = memory_kind_value (m_kind m),
            ph_salience = m_salience m, ph_tokens_used = used, ph_body_truncated = truncated\<rparr>))"

fun nat_digits :: "nat \<Rightarrow> string" where
  "nat_digits n = (if n < 10 then [char_of (48 + n)] else nat_digits (n div 10) @ [char_of (48 + n mod 10)])"

declare nat_digits.simps [simp del]

definition int_str :: "int \<Rightarrow> string" where
  "int_str i = (if i < 0 then CHR ''-'' # nat_digits (nat (- i)) else nat_digits (nat i))"

definition build_task_hit :: "task \<Rightarrow> int \<Rightarrow> pack_hit option" where
  "build_task_hit t cap_tokens =
     finish_hit (t_title t) (''[priority='' @ int_str (t_priority t) @ ''] status='' @ task_status_value (t_status t)) cap_tokens
       (\<lambda>b used truncated. \<lparr>ph_memory_id = t_id t, ph_title = t_title t, ph_body = b, ph_kind = ''task'',
          ph_salience = 0, ph_tokens_used = used, ph_body_truncated = truncated\<rparr>)"

text \<open>The loop of \<open>_pack_section\<close> and \<open>_pack_task_section\<close>: \<open>seen\<close> is the set shared by all sections.\<close>

fun pack_loop :: "('a \<Rightarrow> uuid) \<Rightarrow> ('a \<Rightarrow> int \<Rightarrow> pack_hit option) \<Rightarrow> int \<Rightarrow> 'a list \<Rightarrow> uuid list \<Rightarrow> pack_hit list \<Rightarrow> int \<Rightarrow> pack_hit list \<times> uuid list" where
  "pack_loop ident build cap [] seen hits used = (hits, seen)"
| "pack_loop ident build cap (x # xs) seen hits used =
     (if ident x \<in> set seen then pack_loop ident build cap xs seen hits used
      else if cap - used \<le> 0 then (hits, seen)
      else case build x (cap - used) of
          None \<Rightarrow> pack_loop ident build cap xs seen hits used
        | Some h \<Rightarrow>
            let hits' = hits @ [h]; seen' = ident x # seen; used' = used + ph_tokens_used h in
            if cap \<le> used' then (hits', seen') else pack_loop ident build cap xs seen' hits' used')"

definition pack_rows :: "section_name \<Rightarrow> ('a \<Rightarrow> uuid) \<Rightarrow> ('a \<Rightarrow> int \<Rightarrow> pack_hit option) \<Rightarrow> 'a list \<Rightarrow> int \<Rightarrow> uuid list \<Rightarrow> pack_section \<times> uuid list" where
  "pack_rows name ident build xs cap seen =
     (case pack_loop ident build cap xs seen [] 0 of (hits, seen') \<Rightarrow>
        (\<lparr>ps_name = name, ps_items = hits, ps_tokens_used = sum_list (map ph_tokens_used hits), ps_cap_tokens = cap,
          ps_truncation_count = length (filter ph_body_truncated hits)\<rparr>, seen'))"

datatype candidates = Rows "memory list" | Task_rows "task list"

fun no_candidates :: "candidates \<Rightarrow> bool" where
  "no_candidates (Rows ms) = (ms = [])"
| "no_candidates (Task_rows ts) = (ts = [])"

fun pack_section_of :: "section_name \<Rightarrow> candidates \<Rightarrow> int \<Rightarrow> uuid list \<Rightarrow> pack_section \<times> uuid list" where
  "pack_section_of name (Rows ms) cap seen = pack_rows name m_id (build_hit (name = SEC_digest)) ms cap seen"
| "pack_section_of name (Task_rows ts) cap seen = pack_rows name t_id build_task_hit ts cap seen"

fun pack_sections :: "bool \<Rightarrow> (section_name \<Rightarrow> candidates) \<Rightarrow> (section_name \<times> int) list \<Rightarrow> section_name list \<Rightarrow> uuid list \<Rightarrow> section_name list \<Rightarrow>
    pack_section list \<times> section_name list" where
  "pack_sections include_journal cands caps [] seen skipped = ([], skipped)"
| "pack_sections include_journal cands caps (name # names) seen skipped =
     (if name = SEC_recent_journal \<and> \<not> include_journal then pack_sections include_journal cands caps names seen (add_once name skipped)
      else if no_candidates (cands name) then pack_sections include_journal cands caps names seen (add_once name skipped)
      else
        let cap = (case map_of caps name of None \<Rightarrow> 0 | Some c \<Rightarrow> c);
            (sec, seen') = pack_section_of name (cands name) cap seen in
        if ps_items sec = [] then pack_sections include_journal cands caps names seen' (add_once name skipped)
        else (case pack_sections include_journal cands caps names seen' skipped of (secs, sk) \<Rightarrow> (sec # secs, sk)))"

subsection \<open>The call\<close>

text \<open>\<open>round(x, 2)\<close> for a real number: half to even\<close>

definition round2 :: "real \<Rightarrow> real" where
  "round2 x = (let y = x * 100; f = \<lfloor>y\<rfloor>; frac = y - of_int f in
     (if frac < 1/2 \<or> frac = 1/2 \<and> even f then of_int f else of_int f + 1) / 100)"

definition fetch_section :: "section_name \<Rightarrow> 'a \<Rightarrow> 'a res \<Rightarrow> section_name list \<Rightarrow> ('a \<times> section_name list) res" where
  "fetch_section name dflt fetched skipped =
     (case fetched of
        Inr x \<Rightarrow> Inr (x, skipped)
      | Inl e \<Rightarrow> if fail_open e then Inr (dflt, add_once name skipped) else Inl e)"

definition pack_candidates ::
  "search_backend \<Rightarrow> (nat \<Rightarrow> time) \<Rightarrow> (nat \<Rightarrow> db) \<Rightarrow> string \<Rightarrow> uuid \<Rightarrow> bool \<Rightarrow> ((section_name \<Rightarrow> candidates) \<times> section_name list) res" where
  "pack_candidates be now view task_desc env include_journal =
     bindE (fetch_section SEC_digest None (Inr (fetch_latest_digest (now 0) env (view 0))) []) (\<lambda>(digest, s1).
     bindE (fetch_section SEC_trigger_matched [] (fetch_trigger_matches be now view task_desc env 20) s1) (\<lambda>(triggers, s2).
     bindE (if include_journal then fetch_section SEC_recent_journal [] (Inr (fetch_recent_journal (now 4) env (view 4))) s2
            else Inr ([], s2)) (\<lambda>(journal, s3).
     bindE (fetch_section SEC_tasks [] (Inr (fetch_tasks env (view 5))) s3) (\<lambda>(tasks, s4).
       let digests = (case digest of None \<Rightarrow> [] | Some m \<Rightarrow> [m]);
           ex1 = map m_id (digests @ triggers @ journal) in
     bindE (fetch_section SEC_decisions [] (Inr (fetch_decisions (now 6) env (view 6) ex1)) s4) (\<lambda>(decisions, s5).
       let ex2 = ex1 @ map m_id decisions in
     bindE (fetch_section SEC_playbooks [] (fetch_playbooks be now view task_desc env 3 ex2) s5) (\<lambda>(playbooks, s6).
       let ex3 = ex2 @ map m_id playbooks in
     bindE (fetch_section SEC_archival [] (Inr (fetch_archival (now 10) env (view 10) ex3)) s6) (\<lambda>(archival, s7).
       Inr (\<lambda>name. case name of SEC_digest \<Rightarrow> Rows digests | SEC_trigger_matched \<Rightarrow> Rows triggers
              | SEC_recent_journal \<Rightarrow> Rows journal | SEC_tasks \<Rightarrow> Task_rows tasks | SEC_decisions \<Rightarrow> Rows decisions
              | SEC_playbooks \<Rightarrow> Rows playbooks | SEC_archival \<Rightarrow> Rows archival, s7))))))))"

definition pack ::
  "search_backend \<Rightarrow> (nat \<Rightarrow> time) \<Rightarrow> (nat \<Rightarrow> db) \<Rightarrow> string \<Rightarrow> uuid \<Rightarrow> int \<Rightarrow> bool \<Rightarrow> pack_response res" where
  "pack be now view task_desc env token_budget include_journal =
     (let used_desc = strip task_desc in
      bindE (raise_if (used_desc = []) (InvalidInputError ''task_desc cannot be empty'')) (\<lambda>_.
      bindE (raise_if (token_budget < min_token_budget) (InvalidInputError ''token_budget too small'')) (\<lambda>_.
      let budget = clamp_token_budget token_budget in
      bindE (pack_candidates be now view used_desc env include_journal) (\<lambda>(cands, skipped).
      let available = filter (\<lambda>n. \<not> no_candidates (cands n) \<and> (include_journal \<or> n \<noteq> SEC_recent_journal)) section_order;
          caps = calculate_section_caps budget include_journal (Some available);
          (sections, skipped') = pack_sections include_journal cands caps section_order [] skipped;
          total = sum_list (map ps_tokens_used sections)
      in Inr \<lparr>pr_sections = sections, pr_total_tokens = total,
            pr_budget_used_pct = round2 (real_of_int total / real_of_int budget * 100),
            pr_sections_skipped = skipped', pr_task_desc_used = used_desc\<rparr>))))"

end
