(* ===== verification/ContextPackProps.thy ===== *)
theory ContextPackProps
  imports ContextPack SearchDemo "HOL-Library.Sublist"
begin

text \<open>
  What the context pack promises: the token budget, no row twice, visible rows only, and an answer whatever
  the backends do. \<open>hit_builder\<close> is the contract between the packing loop and the two functions that
  build a hit.
\<close>

subsection \<open>The builders of hits\<close>

locale hit_builder =
  fixes ident :: "'a \<Rightarrow> uuid" and build :: "'a \<Rightarrow> int \<Rightarrow> pack_hit option"
  assumes build_id: "build x cap = Some h \<Longrightarrow> ph_memory_id h = ident x"
    and build_fits: "build x cap = Some h \<Longrightarrow> 0 \<le> ph_tokens_used h \<and> ph_tokens_used h \<le> cap"
    and build_counts: "build x cap = Some h \<Longrightarrow> ph_tokens_used h = estimate_tokens (ph_title h) + estimate_tokens (ph_body h)"
begin

lemma loop_spec:
  "pack_loop ident build cap xs seen hits used = (hits', seen') \<Longrightarrow> used = sum_list (map ph_tokens_used hits) \<Longrightarrow> used \<le> cap \<Longrightarrow>
   \<exists>new. hits' = hits @ new \<and> sum_list (map ph_tokens_used hits') \<le> cap \<and> distinct (map ph_memory_id new) \<and>
     set (map ph_memory_id new) \<inter> set seen = {} \<and> set seen' = set seen \<union> set (map ph_memory_id new) \<and>
     (\<forall>h \<in> set new. \<exists>x \<in> set xs. \<exists>c. build x c = Some h)"
proof (induction xs arbitrary: seen hits used)
  case Nil
  then show ?case by auto
next
  case (Cons x xs)
  show ?case
  proof (cases "ident x \<in> set seen")
    case True
    then have "pack_loop ident build cap xs seen hits used = (hits', seen')" using Cons.prems(1) by simp
    from Cons.IH [OF this Cons.prems(2,3)] show ?thesis by auto
  next
    case new: False
    show ?thesis
    proof (cases "cap - used \<le> 0")
      case True
      then show ?thesis using Cons.prems new by auto
    next
      case room: False
      show ?thesis
      proof (cases "build x (cap - used)")
        case None
        then have "pack_loop ident build cap xs seen hits used = (hits', seen')" using Cons.prems(1) new room by simp
        from Cons.IH [OF this Cons.prems(2,3)] show ?thesis by auto
      next
        case (Some h)
        let ?used = "used + ph_tokens_used h"
        have h: "ph_memory_id h = ident x" "0 \<le> ph_tokens_used h" "?used \<le> cap"
          using build_id [OF Some] build_fits [OF Some] by auto
        show ?thesis
        proof (cases "cap \<le> ?used")
          case True
          then have "hits' = hits @ [h]" "seen' = ident x # seen" using Cons.prems(1) new room Some by (simp_all add: Let_def)
          then show ?thesis using h Cons.prems(2) new Some by (intro exI [of _ "[h]"]) auto
        next
          case False
          then have run: "pack_loop ident build cap xs (ident x # seen) (hits @ [h]) ?used = (hits', seen')"
            using Cons.prems(1) new room Some by (simp add: Let_def)
          have "?used = sum_list (map ph_tokens_used (hits @ [h]))" using Cons.prems(2) by simp
          from Cons.IH [OF run this h(3)] obtain new' where n: "hits' = (hits @ [h]) @ new'" "sum_list (map ph_tokens_used hits') \<le> cap"
            "distinct (map ph_memory_id new')" "set (map ph_memory_id new') \<inter> set (ident x # seen) = {}"
            "set seen' = set (ident x # seen) \<union> set (map ph_memory_id new')" "\<forall>h \<in> set new'. \<exists>x \<in> set xs. \<exists>c. build x c = Some h"
            by blast
          show ?thesis
          proof (intro exI [of _ "h # new'"] conjI)
            show "distinct (map ph_memory_id (h # new'))" using n(3,4) h(1) by auto
            show "set (map ph_memory_id (h # new')) \<inter> set seen = {}" using n(4) h(1) new by auto
            show "set seen' = set seen \<union> set (map ph_memory_id (h # new'))" using n(5) h(1) by auto
            show "\<forall>h' \<in> set (h # new'). \<exists>x' \<in> set (x # xs). \<exists>c. build x' c = Some h'" using n(6) Some by auto
          qed (use n(1,2) in auto)
        qed
      qed
    qed
  qed
qed

lemma rows_spec:
  assumes "pack_rows name ident build xs cap seen = (sec, seen')" "0 \<le> cap"
  shows "ps_name sec = name" "ps_cap_tokens sec = cap" "ps_tokens_used sec = sum_list (map ph_tokens_used (ps_items sec))"
    "ps_tokens_used sec \<le> cap" "distinct (map ph_memory_id (ps_items sec))"
    "set (map ph_memory_id (ps_items sec)) \<inter> set seen = {}" "set seen' = set seen \<union> set (map ph_memory_id (ps_items sec))"
    "\<forall>h \<in> set (ps_items sec). ph_tokens_used h = estimate_tokens (ph_title h) + estimate_tokens (ph_body h)"
    "\<forall>h \<in> set (ps_items sec). \<exists>x \<in> set xs. \<exists>c. build x c = Some h"
proof -
  obtain hits where run: "pack_loop ident build cap xs seen [] 0 = (hits, seen')" and sec: "ps_items sec = hits"
    "ps_name sec = name" "ps_cap_tokens sec = cap" "ps_tokens_used sec = sum_list (map ph_tokens_used hits)"
    using assms(1) by (auto simp: pack_rows_def split: prod.splits)
  from loop_spec [OF run] assms(2) have l: "sum_list (map ph_tokens_used hits) \<le> cap" "distinct (map ph_memory_id hits)"
    "set (map ph_memory_id hits) \<inter> set seen = {}" "set seen' = set seen \<union> set (map ph_memory_id hits)"
    "\<forall>h \<in> set hits. \<exists>x \<in> set xs. \<exists>c. build x c = Some h" by auto
  then show "ps_name sec = name" "ps_cap_tokens sec = cap" "ps_tokens_used sec = sum_list (map ph_tokens_used (ps_items sec))"
    "ps_tokens_used sec \<le> cap" "distinct (map ph_memory_id (ps_items sec))"
    "set (map ph_memory_id (ps_items sec)) \<inter> set seen = {}" "set seen' = set seen \<union> set (map ph_memory_id (ps_items sec))"
    "\<forall>h \<in> set (ps_items sec). ph_tokens_used h = estimate_tokens (ph_title h) + estimate_tokens (ph_body h)"
    "\<forall>h \<in> set (ps_items sec). \<exists>x \<in> set xs. \<exists>c. build x c = Some h"
    using sec build_counts by auto
qed

end

lemma truncate_tokens:
  assumes "truncate_to_token_budget t cap = (b, truncated, n)" "0 \<le> cap"
  shows "n = estimate_tokens b" "0 \<le> n" "n \<le> cap"
proof -
  consider "cap \<le> 0" | "0 < cap" "estimate_tokens t \<le> cap" | "\<not> (cap \<le> 0)" "\<not> estimate_tokens t \<le> cap" by linarith
  then show "n = estimate_tokens b"
  proof cases
    case 1
    then show ?thesis using assms(1) by (auto simp: truncate_to_token_budget_def estimate_tokens_def word_tokens_def)
  next
    case 2
    then show ?thesis using assms(1) by (auto simp: truncate_to_token_budget_def)
  next
    case 3
    then show ?thesis using assms(1) unfolding truncate_to_token_budget_def Let_def by (metis prod.inject)
  qed
  then show "0 \<le> n" by (simp add: estimate_tokens_def)
  show "n \<le> cap"
  proof (cases "cap \<le> 0 \<or> estimate_tokens t \<le> cap")
    case True
    then show ?thesis using assms by (auto simp: truncate_to_token_budget_def Let_def split: if_splits)
  next
    case False
    then have "n = estimate_tokens (shrink (words t) cap (nat (max 1 \<lfloor>real_of_int cap * (3/4)\<rfloor>)))"
      using assms(1) by (auto simp: truncate_to_token_budget_def Let_def)
    then show ?thesis using shrink_spec [OF assms(2)] by blast
  qed
qed

lemma finish_hit_SomeD:
  assumes "finish_hit title body cap mk = Some h"
  obtains b n truncated where "h = mk b (estimate_tokens title + n) truncated" "n = estimate_tokens b" "0 \<le> n"
    "estimate_tokens title + n \<le> cap"
proof -
  let ?bc = "max 0 (cap - estimate_tokens title)"
  obtain b truncated n where t: "truncate_to_token_budget body ?bc = (b, truncated, n)" by (metis prod_cases3)
  have "0 \<le> ?bc" by simp
  note n = truncate_tokens [OF t this]
  show thesis using assms t n that [of b n truncated] by (auto simp: finish_hit_def Let_def split: if_splits)
qed

lemma estimate_tokens_nonneg [simp]: "0 \<le> estimate_tokens t"
  by (simp add: estimate_tokens_def)

interpretation memory_hits: hit_builder m_id "build_hit digest" for digest
  by unfold_locales (auto simp: build_hit_def Let_def elim!: finish_hit_SomeD)

interpretation task_hits: hit_builder t_id build_task_hit
  by unfold_locales (auto simp: build_task_hit_def elim!: finish_hit_SomeD)

subsection \<open>The sections of a pack\<close>

definition cap_of :: "(section_name \<times> int) list \<Rightarrow> section_name \<Rightarrow> int" where
  "cap_of caps n = (case map_of caps n of None \<Rightarrow> 0 | Some c \<Rightarrow> c)"

definition section_ids :: "pack_section \<Rightarrow> uuid list" where
  "section_ids s = map ph_memory_id (ps_items s)"

definition hit_from :: "section_name \<Rightarrow> candidates \<Rightarrow> pack_hit \<Rightarrow> bool" where
  "hit_from name cands h \<longleftrightarrow> (case cands of
       Rows ms \<Rightarrow> \<exists>m \<in> set ms. \<exists>c. build_hit (name = SEC_digest) m c = Some h
     | Task_rows ts \<Rightarrow> \<exists>t \<in> set ts. \<exists>c. build_task_hit t c = Some h)"

definition section_ok :: "(section_name \<Rightarrow> candidates) \<Rightarrow> (section_name \<times> int) list \<Rightarrow> pack_section \<Rightarrow> bool" where
  "section_ok cands caps s \<longleftrightarrow> ps_cap_tokens s = cap_of caps (ps_name s) \<and> ps_tokens_used s \<le> ps_cap_tokens s \<and>
     ps_tokens_used s = sum_list (map ph_tokens_used (ps_items s)) \<and>
     (\<forall>h \<in> set (ps_items s). ph_tokens_used h = estimate_tokens (ph_title h) + estimate_tokens (ph_body h) \<and>
        hit_from (ps_name s) (cands (ps_name s)) h)"

lemma pack_section_of_spec:
  assumes "pack_section_of name c cap seen = (sec, seen')" "0 \<le> cap" "c = cands name" "cap = cap_of caps name"
  shows "ps_name sec = name" "section_ok cands caps sec" "distinct (section_ids sec)"
    "set (section_ids sec) \<inter> set seen = {}" "set seen' = set seen \<union> set (section_ids sec)"
proof -
  consider (rows) ms where "c = Rows ms" | (tasks) ts where "c = Task_rows ts" by (cases c)
  then have "ps_name sec = name \<and> section_ok cands caps sec \<and> distinct (section_ids sec) \<and>
    set (section_ids sec) \<inter> set seen = {} \<and> set seen' = set seen \<union> set (section_ids sec)"
  proof cases
    case rows
    then have "pack_rows name m_id (build_hit (name = SEC_digest)) ms cap seen = (sec, seen')" using assms(1) by simp
    note s = memory_hits.rows_spec [OF this assms(2)]
    have "cands name = Rows ms" using rows assms(3) by simp
    then show ?thesis using s assms(4) by (simp add: section_ok_def section_ids_def hit_from_def)
  next
    case tasks
    then have "pack_rows name t_id build_task_hit ts cap seen = (sec, seen')" using assms(1) by simp
    note s = task_hits.rows_spec [OF this assms(2)]
    have "cands name = Task_rows ts" using tasks assms(3) by simp
    then show ?thesis using s assms(4) by (simp add: section_ok_def section_ids_def hit_from_def)
  qed
  then show "ps_name sec = name" "section_ok cands caps sec" "distinct (section_ids sec)"
    "set (section_ids sec) \<inter> set seen = {}" "set seen' = set seen \<union> set (section_ids sec)" by blast+
qed

lemma subseq_distinct: "subseq xs ys \<Longrightarrow> distinct ys \<Longrightarrow> distinct xs"
  by (induction rule: list_emb.induct) (auto elim: list_emb_set)

definition packed :: "(section_name \<Rightarrow> candidates) \<Rightarrow> (section_name \<times> int) list \<Rightarrow> section_name list \<Rightarrow> uuid list \<Rightarrow> pack_section list \<Rightarrow> bool" where
  "packed cands caps names seen secs \<longleftrightarrow> subseq (map ps_name secs) names \<and> (\<forall>s \<in> set secs. section_ok cands caps s \<and> ps_items s \<noteq> []) \<and>
     distinct (concat (map section_ids secs)) \<and> set (concat (map section_ids secs)) \<inter> set seen = {}"

lemma packed_skip: "packed cands caps names seen' secs \<Longrightarrow> set seen \<subseteq> set seen' \<Longrightarrow> packed cands caps (n # names) seen secs"
  unfolding packed_def by (auto intro: list_emb_Cons)

lemma packed_take:
  assumes "packed cands caps names seen' secs" "set seen' = set seen \<union> set (section_ids s)" "section_ok cands caps s" "ps_items s \<noteq> []"
    "distinct (section_ids s)" "set (section_ids s) \<inter> set seen = {}"
  shows "packed cands caps (ps_name s # names) seen (s # secs)"
  using assms unfolding packed_def by auto

lemma pack_sections_left:
  "n = SEC_recent_journal \<and> \<not> j \<or> no_candidates (cands n) \<Longrightarrow>
   pack_sections j cands caps (n # names) seen skipped = pack_sections j cands caps names seen (add_once n skipped)"
  by auto

lemma pack_sections_step:
  assumes "\<not> (n = SEC_recent_journal \<and> \<not> j \<or> no_candidates (cands n))" "pack_section_of n (cands n) (cap_of caps n) seen = (sec, seen')"
  shows "pack_sections j cands caps (n # names) seen skipped =
    (if ps_items sec = [] then pack_sections j cands caps names seen' (add_once n skipped)
     else (case pack_sections j cands caps names seen' skipped of (secs, sk) \<Rightarrow> (sec # secs, sk)))"
  using assms unfolding cap_of_def pack_sections.simps Let_def by (simp only: de_Morgan_disj if_False prod.case)

lemma pack_sections_packed:
  assumes "\<And>n. 0 \<le> cap_of caps n"
  shows "pack_sections j cands caps names seen skipped = (secs, sk) \<Longrightarrow> packed cands caps names seen secs"
proof (induction names arbitrary: seen skipped secs)
  case Nil
  then show ?case by (simp add: packed_def)
next
  case (Cons n names)
  show ?case
  proof (cases "n = SEC_recent_journal \<and> \<not> j \<or> no_candidates (cands n)")
    case True
    then have "pack_sections j cands caps names seen (add_once n skipped) = (secs, sk)"
      using Cons.prems pack_sections_left [where cands = cands, OF True] by simp
    from Cons.IH [OF this] show ?thesis by (rule packed_skip) simp
  next
    case False
    obtain sec seen' where sec: "pack_section_of n (cands n) (cap_of caps n) seen = (sec, seen')" by (metis surj_pair)
    note spec = pack_section_of_spec [where cands = cands and caps = caps, OF sec assms refl refl]
    show ?thesis
    proof (cases "ps_items sec = []")
      case True
      then have "pack_sections j cands caps names seen' (add_once n skipped) = (secs, sk)"
        using Cons.prems pack_sections_step [where cands = cands, OF False sec] by simp
      from Cons.IH [OF this] show ?thesis by (rule packed_skip) (use spec(5) in blast)
    next
      case items: False
      then obtain rest where "pack_sections j cands caps names seen' skipped = (rest, sk)" "secs = sec # rest"
        using Cons.prems pack_sections_step [where cands = cands, OF False sec] by (auto split: prod.splits)
      then show ?thesis using packed_take [OF Cons.IH spec(5,2) items spec(3,4)] spec(1) by simp
    qed
  qed
qed

lemma pack_sections_skipped:
  "pack_sections j cands caps names seen skipped = (secs, sk) \<Longrightarrow> distinct names \<Longrightarrow>
   set sk = set skipped \<union> (set names - set (map ps_name secs)) \<and> (distinct skipped \<longrightarrow> distinct sk) \<and>
   (\<forall>s \<in> set secs. \<not> no_candidates (cands (ps_name s)) \<and> ps_name s \<in> set names)"
proof (induction names arbitrary: seen skipped secs)
  case Nil
  then show ?case by simp
next
  case (Cons n names)
  have left: ?case if "pack_sections j cands caps names seen' (add_once n skipped) = (secs, sk)" for seen'
    using Cons.IH [OF that] Cons.prems(2) by (auto simp: distinct_add_once)
  show ?case
  proof (cases "n = SEC_recent_journal \<and> \<not> j \<or> no_candidates (cands n)")
    case True
    then have "pack_sections j cands caps names seen (add_once n skipped) = (secs, sk)"
      using Cons.prems pack_sections_left [where cands = cands, OF True] by simp
    then show ?thesis by (rule left)
  next
    case False
    obtain sec seen' where sec: "pack_section_of n (cands n) (cap_of caps n) seen = (sec, seen')" by (metis surj_pair)
    have name: "ps_name sec = n" using sec by (cases "cands n") (auto simp: pack_rows_def split: prod.splits)
    show ?thesis
    proof (cases "ps_items sec = []")
      case True
      then have "pack_sections j cands caps names seen' (add_once n skipped) = (secs, sk)"
        using Cons.prems pack_sections_step [where cands = cands, OF False sec] by simp
      then show ?thesis by (rule left)
    next
      case items: False
      then obtain rest where "pack_sections j cands caps names seen' skipped = (rest, sk)" "secs = sec # rest"
        using Cons.prems pack_sections_step [where cands = cands, OF False sec] by (auto split: prod.splits)
      then show ?thesis using Cons.IH [of seen' skipped rest] Cons.prems(2) False name by auto
    qed
  qed
qed

subsection \<open>The budget\<close>

lemma sum_one_le: "distinct names \<Longrightarrow> 0 \<le> (v :: int) \<Longrightarrow> (\<Sum>n \<leftarrow> names. if n = k then v else 0) \<le> v"
proof (induction names)
  case (Cons n names)
  show ?case
  proof (cases "n = k")
    case True
    then have "(\<Sum>x \<leftarrow> names. if x = k then v else 0) = (\<Sum>x \<leftarrow> names. 0)"
      using Cons.prems(1) by (intro arg_cong [where f = sum_list] map_cong) auto
    then show ?thesis using True by simp
  next
    case False
    then show ?thesis using Cons by simp
  qed
qed simp

lemma sum_caps_le:
  "distinct (map fst caps) \<Longrightarrow> distinct names \<Longrightarrow> \<forall>c \<in> set (map snd caps). 0 \<le> c \<Longrightarrow>
   (\<Sum>n \<leftarrow> names. cap_of caps n) \<le> sum_list (map snd caps)"
proof (induction caps)
  case Nil
  then show ?case by (simp add: cap_of_def)
next
  case (Cons kv caps)
  obtain k v where kv: "kv = (k, v)" by fastforce
  have "map_of caps k = None" using Cons.prems(1) kv by (simp add: map_of_eq_None_iff)
  then have "cap_of caps k = 0" by (simp add: cap_of_def)
  then have "cap_of (kv # caps) n = (if n = k then v else 0) + cap_of caps n" for n by (simp add: cap_of_def kv)
  then have "(\<Sum>n \<leftarrow> names. cap_of (kv # caps) n) = (\<Sum>n \<leftarrow> names. if n = k then v else 0) + (\<Sum>n \<leftarrow> names. cap_of caps n)"
    by (simp add: sum_list_addf)
  also have "\<dots> \<le> v + sum_list (map snd caps)" using Cons kv by (intro add_mono sum_one_le) auto
  finally show ?case by (simp add: kv)
qed

lemma caps_nonneg: "0 \<le> b \<Longrightarrow> (n, c) \<in> set (calculate_section_caps b j av) \<Longrightarrow> 0 \<le> c"
proof -
  assume b: "0 \<le> b" and "(n, c) \<in> set (calculate_section_caps b j av)"
  then obtain r where r: "(n, r) \<in> set (raw_caps (clamp_token_budget b) (weighted_sections j av))" "\<lfloor>r\<rfloor> \<le> c"
    and ne: "weighted_sections j av \<noteq> []"
    unfolding calculate_section_caps_def Let_def caps_weights by (auto split: if_splits)
  from r(1) obtain w where w: "(n, w) \<in> set (weighted_sections j av)"
    "r = real_of_int (clamp_token_budget b) * w / sum_list (map snd (weighted_sections j av))"
    by (auto simp: raw_caps_def)
  have "(n, w) \<in> set section_weights" using w(1) by (simp add: weighted_sections_def)
  then have "0 \<le> w" by (auto simp: section_weights_def)
  then have "0 \<le> r" using w(2) b weighted_sections_sum [OF ne] by (simp add: clamp_token_budget_def max_token_budget_def)
  then show "0 \<le> c" using r(2) by linarith
qed

lemma caps_total:
  "0 \<le> b \<Longrightarrow> sum_list (map snd (calculate_section_caps b j av)) \<le> clamp_token_budget b"
  "distinct (map fst (calculate_section_caps b j av))"
proof -
  have names: "map fst (calculate_section_caps b j av) = map fst (weighted_sections j av)"
    and total: "weighted_sections j av = [] \<or> sum_list (map snd (calculate_section_caps b j av)) = clamp_token_budget b"
    using apportioned [of j av b] unfolding Let_def by blast+
  show "distinct (map fst (calculate_section_caps b j av))" unfolding names by (rule weighted_sections_distinct)
  assume "0 \<le> b"
  then have "0 \<le> clamp_token_budget b" by (simp add: clamp_token_budget_def max_token_budget_def)
  then show "sum_list (map snd (calculate_section_caps b j av)) \<le> clamp_token_budget b" using total names by auto
qed

lemma fetch_section_Inr [simp]: "fetch_section name dflt (Inr x) s = Inr (x, s)"
  by (simp add: fetch_section_def)

lemma fetch_section_cases:
  assumes "fetch_section name dflt r s = Inr (x, s')"
  shows "r = Inr x \<and> s' = s \<or> x = dflt \<and> s' = add_once name s"
  using assms by (auto simp: fetch_section_def split: sum.splits if_splits)

lemma pack_candidatesE:
  assumes "pack_candidates be now view desc env j = Inr (cands, skipped)"
  obtains triggers playbooks ex ex1 ex2 s where
    "cands SEC_digest = Rows (case fetch_latest_digest (now 0) env (view 0) of None \<Rightarrow> [] | Some m \<Rightarrow> [m])"
    "cands SEC_trigger_matched = Rows triggers" "fetch_section SEC_trigger_matched [] (fetch_trigger_matches be now view desc env 20) [] = Inr (triggers, s)"
    "cands SEC_recent_journal = Rows (if j then fetch_recent_journal (now 4) env (view 4) else [])"
    "cands SEC_tasks = Task_rows (fetch_tasks env (view 5))"
    "cands SEC_decisions = Rows (fetch_decisions (now 6) env (view 6) ex1)"
    "cands SEC_playbooks = Rows playbooks" "fetch_section SEC_playbooks [] (fetch_playbooks be now view desc env 3 ex) s = Inr (playbooks, skipped)"
    "cands SEC_archival = Rows (fetch_archival (now 10) env (view 10) ex2)"
proof -
  have "(if j then fetch_section SEC_recent_journal [] (Inr (fetch_recent_journal (now 4) env (view 4))) s else Inr ([], s))
    = Inr (if j then fetch_recent_journal (now 4) env (view 4) else [], s)" for s by simp
  note journal = this
  show thesis
    using assms that unfolding pack_candidates_def journal
    by (auto simp: bindE_eq_Inr Let_def; blast)
qed

lemma candidates_skipped:
  assumes "pack_candidates be now view desc env j = Inr (cands, skipped)"
  shows "distinct skipped" "\<forall>n \<in> set skipped. no_candidates (cands n)"
proof -
  from assms obtain triggers playbooks ex s where t: "cands SEC_trigger_matched = Rows triggers"
      "fetch_section SEC_trigger_matched [] (fetch_trigger_matches be now view desc env 20) [] = Inr (triggers, s)"
    and p: "cands SEC_playbooks = Rows playbooks" "fetch_section SEC_playbooks [] (fetch_playbooks be now view desc env 3 ex) s = Inr (playbooks, skipped)"
    by (rule pack_candidatesE)
  have "distinct s \<and> (\<forall>n \<in> set s. no_candidates (cands n))"
    using fetch_section_cases [OF t(2)] t(1) by (auto simp: distinct_add_once)
  then show "distinct skipped" "\<forall>n \<in> set skipped. no_candidates (cands n)"
    using fetch_section_cases [OF p(2)] p(1) by (auto simp: distinct_add_once)
qed

lemma packE:
  assumes "pack be now view desc env budget j = Inr r"
  obtains cands skipped caps where
    "pack_candidates be now view (strip desc) env j = Inr (cands, skipped)"
    "caps = calculate_section_caps (clamp_token_budget budget) j (Some (filter (\<lambda>n. \<not> no_candidates (cands n) \<and> (j \<or> n \<noteq> SEC_recent_journal)) section_order))"
    "pack_sections j cands caps section_order [] skipped = (pr_sections r, pr_sections_skipped r)"
    "pr_total_tokens r = sum_list (map ps_tokens_used (pr_sections r))" "min_token_budget \<le> budget"
proof -
  have ok: "strip desc \<noteq> []" "min_token_budget \<le> budget" using assms by (auto simp: pack_def Let_def res_simps)
  obtain cands skipped where c: "pack_candidates be now view (strip desc) env j = Inr (cands, skipped)"
    using assms by (auto simp: pack_def Let_def res_simps)
  let ?caps = "calculate_section_caps (clamp_token_budget budget) j (Some (filter (\<lambda>n. \<not> no_candidates (cands n) \<and> (j \<or> n \<noteq> SEC_recent_journal)) section_order))"
  obtain secs sk where run: "pack_sections j cands ?caps section_order [] skipped = (secs, sk)" by fastforce
  have "r = \<lparr>pr_sections = secs, pr_total_tokens = sum_list (map ps_tokens_used secs),
      pr_budget_used_pct = round2 (real_of_int (sum_list (map ps_tokens_used secs)) / real_of_int (clamp_token_budget budget) * 100),
      pr_sections_skipped = sk, pr_task_desc_used = strip desc\<rparr>"
    using assms ok unfolding pack_def Let_def by (simp add: c run del: pack_sections.simps)
  then show thesis using that [OF c refl] run ok(2) by simp
qed

lemma pack_budget:
  assumes "pack be now view desc env budget j = Inr r"
  shows "pr_total_tokens r \<le> min budget max_token_budget"
    and "pr_total_tokens r = (\<Sum>s \<leftarrow> pr_sections r. \<Sum>h \<leftarrow> ps_items s. estimate_tokens (ph_title h) + estimate_tokens (ph_body h))"
    and "\<forall>s \<in> set (pr_sections r). ps_tokens_used s \<le> ps_cap_tokens s \<and> ps_items s \<noteq> []"
    and "subseq (map ps_name (pr_sections r)) section_order"
    and "distinct (concat (map section_ids (pr_sections r)))"
    and "distinct (pr_sections_skipped r) \<and> set (pr_sections_skipped r) = UNIV - set (map ps_name (pr_sections r))"
proof -
  obtain cands skipped caps where c: "pack_candidates be now view (strip desc) env j = Inr (cands, skipped)"
    and caps: "caps = calculate_section_caps (clamp_token_budget budget) j (Some (filter (\<lambda>n. \<not> no_candidates (cands n) \<and> (j \<or> n \<noteq> SEC_recent_journal)) section_order))"
    and run: "pack_sections j cands caps section_order [] skipped = (pr_sections r, pr_sections_skipped r)"
    and total: "pr_total_tokens r = sum_list (map ps_tokens_used (pr_sections r))" and low: "min_token_budget \<le> budget"
    using assms by (rule packE)
  let ?b = "clamp_token_budget budget"
  have b: "0 \<le> ?b" using low by (simp add: clamp_token_budget_def min_token_budget_def max_token_budget_def)
  have nonneg: "0 \<le> cap_of caps n" for n
    using caps_nonneg [OF b] unfolding caps by (auto simp: cap_of_def split: option.splits dest: map_of_SomeD)
  have packed: "packed cands caps section_order [] (pr_sections r)" by (rule pack_sections_packed [OF nonneg run])
  have order: "distinct section_order" "set section_order = UNIV" by (auto simp: section_order_def) (metis section_name.exhaust)
  note skip = pack_sections_skipped [OF run order(1)]
  have names: "distinct (map ps_name (pr_sections r))" using packed order(1) unfolding packed_def by (blast intro: subseq_distinct)
  have "pr_total_tokens r \<le> (\<Sum>s \<leftarrow> pr_sections r. cap_of caps (ps_name s))"
    unfolding total using packed by (intro sum_list_mono) (auto simp: packed_def section_ok_def)
  also have "\<dots> = (\<Sum>n \<leftarrow> map ps_name (pr_sections r). cap_of caps n)" by (simp add: o_def)
  also have "\<dots> \<le> sum_list (map snd caps)"
    using caps_total(2) names caps_nonneg [OF b] unfolding caps by (intro sum_caps_le) auto
  also have "\<dots> \<le> clamp_token_budget ?b" unfolding caps by (rule caps_total(1) [OF b])
  finally show "pr_total_tokens r \<le> min budget max_token_budget" by (simp add: clamp_token_budget_def)
  show "pr_total_tokens r = (\<Sum>s \<leftarrow> pr_sections r. \<Sum>h \<leftarrow> ps_items s. estimate_tokens (ph_title h) + estimate_tokens (ph_body h))"
    unfolding total using packed by (intro arg_cong [where f = sum_list] map_cong) (auto simp: packed_def section_ok_def cong: map_cong)
  show "\<forall>s \<in> set (pr_sections r). ps_tokens_used s \<le> ps_cap_tokens s \<and> ps_items s \<noteq> []"
    "subseq (map ps_name (pr_sections r)) section_order" "distinct (concat (map section_ids (pr_sections r)))"
    using packed by (auto simp: packed_def section_ok_def)
  show "distinct (pr_sections_skipped r) \<and> set (pr_sections_skipped r) = UNIV - set (map ps_name (pr_sections r))"
    using skip candidates_skipped [OF c] order(2) by auto
qed

text \<open>C31: A pack stays within the token budget: the sections come in the fixed order, each uses at most its cap, every hit is
  counted with the estimate of the title and the text it shows, the total is at most the requested budget and the
  clamp of 100,000, no memory or task is shown twice, and the skipped sections are exactly the ones not shown, each
  listed once.\<close>

theorem pack_fits_budget:
  assumes "pack be now view desc env budget j = Inr r"
  shows "(pr_total_tokens r \<le> min budget max_token_budget) \<and>
    (pr_total_tokens r = (\<Sum>s \<leftarrow> pr_sections r. \<Sum>h \<leftarrow> ps_items s. estimate_tokens (ph_title h) + estimate_tokens (ph_body h))) \<and>
    (\<forall>s \<in> set (pr_sections r). ps_tokens_used s \<le> ps_cap_tokens s \<and> ps_items s \<noteq> []) \<and>
    (subseq (map ps_name (pr_sections r)) section_order) \<and>
    (distinct (concat (map section_ids (pr_sections r)))) \<and>
    (distinct (pr_sections_skipped r) \<and> set (pr_sections_skipped r) = UNIV - set (map ps_name (pr_sections r)))"
  using pack_budget [OF assms] by blast

subsection \<open>Failing open\<close>

definition backend_fails_open :: "search_backend \<Rightarrow> bool" where
  "backend_fails_open be \<longleftrightarrow> (\<forall>q e. em_embed (sb_embedder be) q = Inl e \<longrightarrow> fail_open e) \<and>
     (\<forall>env v n f nm e. sb_vectors be env v n f nm = Inl e \<longrightarrow> fail_open e)"

lemma fail_open_application [simp]: "error_code e \<noteq> None \<Longrightarrow> fail_open e"
  by (simp add: fail_open_def)

lemma vector_pages_error: "vector_pages f es = Inl e \<Longrightarrow> \<exists>env. f env = Inl e"
  by (induction es) (auto simp: res_simps)

lemma sem_search_fails_open: "backend_fails_open be \<Longrightarrow> sem_search be d q envs f n = Inl e \<Longrightarrow> fail_open e"
  by (auto simp: sem_search_def res_simps backend_fails_open_def check_env_models_def
      split: if_splits list.splits dest!: vector_pages_error)

lemma trigger_search_fails_open: "backend_fails_open be \<Longrightarrow> search_by_trigger be d1 d2 q env n = Inl e \<Longrightarrow> fail_open e"
  by (auto simp: search_by_trigger_def res_simps backend_fails_open_def Let_def split: if_splits option.splits)

lemma fetches_fail_open:
  assumes "backend_fails_open be"
  shows "\<exists>xs. fetch_trigger_matches be now view q env n = Inr xs" "\<exists>xs. fetch_playbooks be now view q env n ex = Inr xs"
proof -
  show "\<exists>xs. fetch_trigger_matches be now view q env n = Inr xs"
    using trigger_search_fails_open [OF assms] by (auto simp: fetch_trigger_matches_def split: sum.splits)
  have "fail_open e" if "search_playbook_body_ids be d q env n = Inl e" for d e
    using that sem_search_fails_open [OF assms] by (auto simp: search_playbook_body_ids_def res_simps split: if_splits)
  then show "\<exists>xs. fetch_playbooks be now view q env n ex = Inr xs"
    by (auto simp: fetch_playbooks_def Let_def split: sum.splits)
qed

lemma pack_candidates_answer:
  assumes "backend_fails_open be"
  shows "\<exists>cs sk. pack_candidates be now view q env j = Inr (cs, sk)"
proof -
  obtain triggers where "fetch_trigger_matches be now view q env 20 = Inr triggers" using fetches_fail_open(1) [OF assms] by blast
  moreover have "\<exists>ps. fetch_playbooks be now view q env 3 ex = Inr ps" for ex using fetches_fail_open(2) [OF assms] by blast
  ultimately show ?thesis unfolding pack_candidates_def by (cases j) (auto simp: Let_def bindE_eq_Inr, (metis fetch_section_Inr)+)
qed

lemma pack_answers:
  assumes "backend_fails_open be" "strip desc \<noteq> []" "min_token_budget \<le> budget"
  shows "\<exists>r. pack be now view desc env budget j = Inr r"
proof -
  obtain cs sk where "pack_candidates be now view (strip desc) env j = Inr (cs, sk)" using pack_candidates_answer [OF assms(1)] by blast
  then show ?thesis using assms(2,3) by (auto simp: pack_def Let_def split: prod.splits)
qed

text \<open>A context pack fails open: whatever errors of the application, the vector store or the embedder the two vector
  searches meet, a call with a task description that is not blank and a budget of at least 200 tokens returns a pack, and every
  other call is refused as invalid input.\<close>

lemma pack_fails_open:
  assumes "backend_fails_open be"
  shows "(\<exists>r. pack be now view desc env budget j = Inr r) \<or>
    (strip desc = [] \<or> budget < 200) \<and> (\<exists>msg. pack be now view desc env budget j = Inl (InvalidInputError msg))"
proof (cases "strip desc = [] \<or> budget < 200")
  case True
  then show ?thesis by (auto simp: pack_def Let_def min_token_budget_def raise_if_def)
next
  case False
  then show ?thesis using pack_answers [OF assms] by (simp add: min_token_budget_def)
qed

lemma offline_fails_open: "backend_fails_open offline_backend"
  by (simp add: backend_fails_open_def offline_backend_def fail_open_def)

lemma pack_fails_open_witness:
  "\<exists>r. pack offline_backend (\<lambda>k. 9) (\<lambda>k. notes_one) ''T'' 1 1000 True = Inr r"
  using pack_fails_open [OF offline_fails_open, of "\<lambda>k. 9" "\<lambda>k. notes_one" "''T''" 1 1000 True] strip_T by auto

lemma pack_fits_budget_witness:
  "\<exists>r. pack offline_backend (\<lambda>k. 9) (\<lambda>k. notes_one) ''T'' 1 1000 True = Inr r \<and> pr_total_tokens r \<le> 1000"
proof -
  obtain r where r: "pack offline_backend (\<lambda>k. 9) (\<lambda>k. notes_one) ''T'' 1 1000 True = Inr r"
    using pack_answers [OF offline_fails_open, of "''T''" 1000 "\<lambda>k. 9" "\<lambda>k. notes_one" 1 True] strip_T by (auto simp: min_token_budget_def)
  show ?thesis using pack_fits_budget [OF r] r by auto
qed

subsection \<open>What is shown\<close>

definition section_admits :: "section_name \<Rightarrow> memory \<Rightarrow> bool" where
  "section_admits name m = (case name of
       SEC_digest \<Rightarrow> m_kind m = MK_session_digest
     | SEC_recent_journal \<Rightarrow> m_kind m \<in> {MK_journal_entry, MK_observation}
     | SEC_decisions \<Rightarrow> m_kind m = MK_decision \<and> meta_accepted m
     | SEC_archival \<Rightarrow> m_kind m \<notin> {MK_session_digest, MK_journal_entry, MK_observation}
     | SEC_tasks \<Rightarrow> False
     | _ \<Rightarrow> True)"

lemma map_filter_member: "m \<in> set (List.map_filter f xs) \<Longrightarrow> \<exists>i \<in> set xs. f i = Some m"
  by (induction xs) (auto simp: List.map_filter_simps split: option.splits)

lemma sort_key_head: "sort_key f xs = y # ys \<Longrightarrow> y \<in> set xs"
  by (metis list.set_intros(1) set_sort)

lemma fetch_by_ids_rows: "m \<in> set (fetch_memories_by_ids now env d ids) \<Longrightarrow> m \<in> set (memories d) \<and> visible_row now env m"
  unfolding fetch_memories_by_ids_def Let_def by (drule map_filter_member) (auto dest!: lookup_SomeD)

lemma digest_row:
  "fetch_latest_digest now env d = Some m \<Longrightarrow> m \<in> set (memories d) \<and> visible_row now env m \<and> m_kind m = MK_session_digest"
  by (auto simp: fetch_latest_digest_def split: list.splits dest!: sort_key_head)

lemma trigger_rows:
  "fetch_trigger_matches be now view q env n = Inr ms \<Longrightarrow> m \<in> set ms \<Longrightarrow> m \<in> set (memories (view 3)) \<and> visible_row (now 3) env m"
  by (auto simp: fetch_trigger_matches_def split: sum.splits if_splits dest: fetch_by_ids_rows)

lemma playbook_rows:
  assumes "fetch_playbooks be now view q env n ex = Inr ms" "m \<in> set ms"
  shows "\<exists>k. m \<in> set (memories (view k)) \<and> visible_row (now k) env m"
proof -
  have macro: "m \<in> set (memories (view 7)) \<and> visible_row (now 7) env m" if "m \<in> set (playbook_by_macro (now 7) env (view 7) q ex n)"
    using that by (auto simp: playbook_by_macro_def dest!: in_set_takeD)
  consider "m \<in> set (playbook_by_macro (now 7) env (view 7) q ex n)" | ids where "m \<in> set (fetch_memories_by_ids (now 9) env (view 9) ids)"
    using assms unfolding fetch_playbooks_def Let_def by (auto split: sum.splits if_splits dest!: in_set_takeD)
  then show ?thesis using macro fetch_by_ids_rows by cases blast+
qed

lemma fetched_tasks: "t \<in> set (fetch_tasks env d) \<Longrightarrow> t \<in> set (task_rows d) \<and> t_env_id t = env \<and> t_status t \<in> {TS_in_progress, TS_pending}"
  by (auto simp: fetch_tasks_def Let_def ready_rows_def dest!: in_set_takeD split: if_splits)

lemma candidate_rows:
  assumes "pack_candidates be now view q env j = Inr (cands, skipped)" "cands name = Rows ms" "m \<in> set ms"
  shows "(\<exists>k. m \<in> set (memories (view k)) \<and> visible_row (now k) env m) \<and> section_admits name m"
proof -
  from assms(1) obtain triggers playbooks ex ex1 ex2 s where
      digest: "cands SEC_digest = Rows (case fetch_latest_digest (now 0) env (view 0) of None \<Rightarrow> [] | Some m \<Rightarrow> [m])"
    and trigger: "cands SEC_trigger_matched = Rows triggers" "fetch_section SEC_trigger_matched [] (fetch_trigger_matches be now view q env 20) [] = Inr (triggers, s)"
    and journal: "cands SEC_recent_journal = Rows (if j then fetch_recent_journal (now 4) env (view 4) else [])"
    and tasks: "cands SEC_tasks = Task_rows (fetch_tasks env (view 5))"
    and decisions: "cands SEC_decisions = Rows (fetch_decisions (now 6) env (view 6) ex1)"
    and playbook: "cands SEC_playbooks = Rows playbooks" "fetch_section SEC_playbooks [] (fetch_playbooks be now view q env 3 ex) s = Inr (playbooks, skipped)"
    and archival: "cands SEC_archival = Rows (fetch_archival (now 10) env (view 10) ex2)"
    by (rule pack_candidatesE)
  show ?thesis
  proof (cases name)
    case SEC_digest
    then have "fetch_latest_digest (now 0) env (view 0) = Some m" using digest assms(2,3) by (auto split: option.splits)
    then show ?thesis using SEC_digest digest_row by (force simp: section_admits_def)
  next
    case SEC_trigger_matched
    then have "fetch_trigger_matches be now view q env 20 = Inr ms" using fetch_section_cases [OF trigger(2)] trigger(1) assms(2,3) by auto
    then show ?thesis using trigger_rows assms(3) SEC_trigger_matched by (force simp: section_admits_def)
  next
    case SEC_recent_journal
    then show ?thesis using journal assms(2,3)
      by (auto simp: fetch_recent_journal_def journal_kinds_def section_admits_def split: if_splits dest!: in_set_takeD)
  next
    case SEC_tasks
    then show ?thesis using tasks assms(2) by simp
  next
    case SEC_decisions
    then show ?thesis using decisions assms(2,3) by (auto simp: fetch_decisions_def section_admits_def dest!: in_set_takeD)
  next
    case SEC_playbooks
    then have "fetch_playbooks be now view q env 3 ex = Inr ms" using fetch_section_cases [OF playbook(2)] playbook(1) assms(2,3) by auto
    then show ?thesis using playbook_rows assms(3) SEC_playbooks by (force simp: section_admits_def)
  next
    case SEC_archival
    then show ?thesis using archival assms(2,3) by (auto simp: fetch_archival_def journal_kinds_def section_admits_def dest!: in_set_takeD)
  qed
qed

text \<open>C32: A pack shows only what may be shown: every hit outside the task section is a proposed or active memory
  of the environment that had not expired when it was read, of a kind its section admits, and every hit of the task section is
  a pending or running task of the environment.\<close>

theorem pack_shows_visible:
  assumes "pack be now view desc env budget j = Inr r" "s \<in> set (pr_sections r)" "h \<in> set (ps_items s)"
  shows "if ps_name s = SEC_tasks
     then \<exists>t \<in> set (task_rows (view 5)). t_id t = ph_memory_id h \<and> t_env_id t = env \<and> t_status t \<in> {TS_in_progress, TS_pending}
     else \<exists>k. \<exists>m \<in> set (memories (view k)). m_id m = ph_memory_id h \<and> m_env_id m = env \<and> m_status m \<in> {MS_proposed, MS_active} \<and>
            \<not> is_expired (now k) m \<and> section_admits (ps_name s) m"
proof -
  obtain cands skipped caps where c: "pack_candidates be now view (strip desc) env j = Inr (cands, skipped)"
    and caps: "caps = calculate_section_caps (clamp_token_budget budget) j (Some (filter (\<lambda>n. \<not> no_candidates (cands n) \<and> (j \<or> n \<noteq> SEC_recent_journal)) section_order))"
    and run: "pack_sections j cands caps section_order [] skipped = (pr_sections r, pr_sections_skipped r)"
    and low: "min_token_budget \<le> budget"
    using assms(1) by (rule packE)
  have nonneg: "0 \<le> cap_of caps n" for n
    using caps_nonneg [of "clamp_token_budget budget"] low unfolding caps
    by (auto simp: cap_of_def clamp_token_budget_def min_token_budget_def max_token_budget_def split: option.splits dest: map_of_SomeD)
  have from_c: "hit_from (ps_name s) (cands (ps_name s)) h"
    using pack_sections_packed [OF nonneg run] assms(2,3) by (auto simp: packed_def section_ok_def)
  have task: "cands n = Task_rows ts \<longleftrightarrow> n = SEC_tasks \<and> ts = fetch_tasks env (view 5)" for n ts
    using c by (rule pack_candidatesE) (cases n, auto)
  show ?thesis
  proof (cases "cands (ps_name s)")
    case (Rows ms)
    then obtain m c where m: "m \<in> set ms" "build_hit (ps_name s = SEC_digest) m c = Some h" using from_c by (auto simp: hit_from_def)
    have "m_id m = ph_memory_id h" using memory_hits.build_id [OF m(2)] by simp
    moreover have "ps_name s \<noteq> SEC_tasks" using task [of "ps_name s" "fetch_tasks env (view 5)"] Rows by auto
    ultimately show ?thesis using candidate_rows [OF c Rows m(1)] by (auto simp: visible_row_def visible_statuses_def)
  next
    case (Task_rows ts)
    then have n: "ps_name s = SEC_tasks" "ts = fetch_tasks env (view 5)" using task by blast+
    obtain t c where t: "t \<in> set ts" "build_task_hit t c = Some h" using from_c Task_rows by (auto simp: hit_from_def)
    then show ?thesis using fetched_tasks task_hits.build_id [OF t(2)] n by auto
  qed
qed

lemma estimate_short: "estimate_tokens ''T'' = 2" "estimate_tokens ''B'' = 2"
  by (simp_all add: estimate_tokens_def word_tokens_def is_space_def)

lemmas demo_fetch_defs = fetch_latest_digest_def fetch_trigger_matches_def search_by_trigger_def fetch_recent_journal_def fetch_tasks_def
     fetch_decisions_def fetch_playbooks_def playbook_by_macro_def search_playbook_body_ids_def sem_search_def check_env_models_def
     fetch_archival_def visible_row_def visible_statuses_def is_expired_def journal_kinds_def by_salience_def offline_backend_def
     notes_one_def notes_db_def note_row_def new_memory_def notes_write_def fail_open_def ready_rows_def meta_accepted_def empty_db_def

lemma demo_fetches:
  "fetch_latest_digest 9 1 notes_one = None" "fetch_trigger_matches offline_backend (\<lambda>k. 9) (\<lambda>k. notes_one) ''T'' 1 20 = Inr []"
  "fetch_recent_journal 9 1 notes_one = []" "fetch_tasks 1 notes_one = []" "fetch_decisions 9 1 notes_one [] = []"
  "fetch_playbooks offline_backend (\<lambda>k. 9) (\<lambda>k. notes_one) ''T'' 1 3 [] = Inr []" "fetch_archival 9 1 notes_one [] = [note_row]"
  by (simp_all add: demo_fetch_defs Let_def strip_T)

lemma demo_caps: "calculate_section_caps 1000 True (Some [SEC_archival]) = [(SEC_archival, 1000)]"
  by (simp add: calculate_section_caps_def Let_def clamp_token_budget_def max_token_budget_def section_weights_def raw_caps_def)

lemma demo_hit: "\<exists>h. build_hit False note_row 1000 = Some h \<and> ph_tokens_used h = 4"
  by (simp add: build_hit_def finish_hit_def note_row_def new_memory_def notes_write_def Let_def estimate_short truncate_to_token_budget_def)

lemma demo_pack:
  "\<exists>r s h. pack offline_backend (\<lambda>k. 9) (\<lambda>k. notes_one) ''T'' 1 1000 True = Inr r \<and> s \<in> set (pr_sections r) \<and> ps_name s = SEC_archival \<and> h \<in> set (ps_items s)"
proof -
  obtain h where h: "build_hit False note_row 1000 = Some h" "ph_tokens_used h = 4" using demo_hit by blast
  show ?thesis
    using h by (simp add: pack_def strip_T min_token_budget_def clamp_token_budget_def max_token_budget_def pack_candidates_def demo_fetches
      section_order_def demo_caps pack_rows_def Let_def add_once_def del: One_nat_def)
qed
lemma pack_shows_visible_witness:
  "\<exists>r s h. pack offline_backend (\<lambda>k. 9) (\<lambda>k. notes_one) ''T'' 1 1000 True = Inr r \<and> s \<in> set (pr_sections r) \<and> h \<in> set (ps_items s) \<and>
     (\<exists>m \<in> set (memories notes_one). m_id m = ph_memory_id h \<and> m_env_id m = 1 \<and> m_status m \<in> {MS_proposed, MS_active})"
proof -
  obtain r s h where r: "pack offline_backend (\<lambda>k. 9) (\<lambda>k. notes_one) ''T'' 1 1000 True = Inr r" "s \<in> set (pr_sections r)" "h \<in> set (ps_items s)"
    and name: "ps_name s = SEC_archival"
    using demo_pack by blast
  have "\<exists>m \<in> set (memories notes_one). m_id m = ph_memory_id h \<and> m_env_id m = 1 \<and> m_status m \<in> {MS_proposed, MS_active}"
    using pack_shows_visible [OF r] name by auto
  then show ?thesis using r by blast
qed

end
