(* ===== verification/Entities.thy ===== *)
theory Entities
  imports MemoryRows Relations Paging Texts
begin

text \<open>
  Entities and their aliases, \<open>memory_mcp/entities.py\<close>: upsert by normalized name, resolve, merge and
  browse, with the graph nodes and relations a merge moves, the audit rows and the outbox events. Unicode
  NFKC, the collation of the database and \<open>str\<close> of a JSON value are parameters.
\<close>

record text_services =
  tx_nfkc :: "string \<Rightarrow> string"
  tx_collate :: "string \<Rightarrow> real"
  tx_str :: "json \<Rightarrow> string"

text \<open>\<open>_PUNCT_RE\<close>, then \<open>_WS_RE\<close>\<close>

definition normalize_name :: "text_services \<Rightarrow> string \<Rightarrow> string" where
  "normalize_name tx name =
     (let s = lower (tx_nfkc tx name);
          s = sub_runs (\<lambda>c. \<not> is_word_char c \<and> \<not> is_space c) (CHR '' '') False s
      in strip (sub_runs is_space (CHR '' '') False s))"

record entity_upsert_request =
  eu_kind :: string
  eu_canonical_name :: string
  eu_aliases :: "string list"
  eu_metadata :: payload
  eu_env_id :: "uuid option"
  eu_expected_version :: "int option"

record entity_response =
  er_id :: uuid
  er_env_id :: uuid
  er_kind :: string
  er_canonical_name :: string
  er_normalized_name :: string
  er_aliases :: "string list"
  er_metadata :: payload
  er_version :: int
  er_created_at :: time
  er_updated_at :: time

text \<open>The field validators of the request: names are not empty after normalization.\<close>

definition valid_upsert :: "text_services \<Rightarrow> entity_upsert_request \<Rightarrow> bool" where
  "valid_upsert tx req \<longleftrightarrow> eu_kind req \<noteq> [] \<and> length (eu_kind req) \<le> 64 \<and> length (eu_canonical_name req) \<le> 400 \<and>
     normalize_name tx (eu_canonical_name req) \<noteq> [] \<and>
     list_all (\<lambda>a. normalize_name tx a \<noteq> [] \<and> length a \<le> 400) (eu_aliases req) \<and>
     (case eu_expected_version req of None \<Rightarrow> True | Some v \<Rightarrow> 1 \<le> v)"

subsection \<open>Rows\<close>

definition load_aliases :: "text_services \<Rightarrow> db \<Rightarrow> uuid \<Rightarrow> string list" where
  "load_aliases tx d i = sort_key (tx_collate tx) (map ea_alias (filter (\<lambda>a. ea_entity_id a = i) (entity_aliases d)))"

definition entity_payload :: "entity \<Rightarrow> string list \<Rightarrow> payload" where
  "entity_payload e aliases =
     [(''entity_id'', JUuid (e_id e)),
      (''env_id'', JUuid (e_env_id e)),
      (''kind'', JStr (e_kind e)),
      (''canonical_name'', JStr (e_canonical_name e)),
      (''normalized_name'', JStr (e_normalized_name e)),
      (''aliases'', texts aliases),
      (''metadata'', JObj (e_metadata e)),
      (''version'', JInt (e_version e)),
      (''created_at'', JTime (e_created_at e)),
      (''updated_at'', JTime (e_updated_at e))]"

definition entity_to_response :: "entity \<Rightarrow> string list \<Rightarrow> entity_response" where
  "entity_to_response e aliases = \<lparr>er_id = e_id e, er_env_id = e_env_id e, er_kind = e_kind e,
     er_canonical_name = e_canonical_name e, er_normalized_name = e_normalized_name e, er_aliases = aliases,
     er_metadata = e_metadata e, er_version = e_version e, er_created_at = e_created_at e, er_updated_at = e_updated_at e\<rparr>"

definition record_entity_audit ::
  "string \<Rightarrow> uuid \<Rightarrow> uuid \<Rightarrow> uuid \<Rightarrow> payload option \<Rightarrow> payload option \<Rightarrow> db \<Rightarrow> db" where
  "record_entity_audit op i env agent before after d =
     d\<lparr>audit_log := audit_log d @ [\<lparr>au_record_type = ''entity'', au_record_id = i, au_env_id = env, au_op = op,
        au_by_agent_id = agent, au_before = before, au_after = after\<rparr>]\<rparr>"

definition insert_entity :: "entity \<Rightarrow> db \<Rightarrow> db res" where
  "insert_entity e d =
     (if list_ex (\<lambda>r. e_id r = e_id e) (entities d) then Inl (IntegrityError ''entities_pkey'')
      else if \<not> env_exists d (e_env_id e) then Inl (IntegrityError ''entities_env_id_fkey'')
      else if list_ex (\<lambda>r. e_env_id r = e_env_id e \<and> e_normalized_name r = e_normalized_name e) (entities d)
        then Inl (IntegrityError ''entities_env_id_normalized_name_key'')
      else Inr (d\<lparr>entities := entities d @ [e]\<rparr>))"

text \<open>
  \<open>INSERT ... ON CONFLICT (entity_id, normalized_alias) DO NOTHING\<close>: a row that collides on
  the other key, \<open>(env_id, normalized_alias)\<close>, raises.
\<close>

definition insert_alias :: "entity_alias \<Rightarrow> db \<Rightarrow> db res" where
  "insert_alias a d =
     (if list_ex (\<lambda>r. ea_entity_id r = ea_entity_id a \<and> ea_normalized_alias r = ea_normalized_alias a) (entity_aliases d) then Inr d
      else if list_ex (\<lambda>r. ea_env_id r = ea_env_id a \<and> ea_normalized_alias r = ea_normalized_alias a) (entity_aliases d)
        then Inl (IntegrityError ''entity_aliases_env_id_normalized_alias_key'')
      else if \<not> list_ex (\<lambda>e. e_id e = ea_entity_id a \<and> e_env_id e = ea_env_id a) (entities d)
        then Inl (IntegrityError ''entity_aliases_entity_env_fk'')
      else Inr (d\<lparr>entity_aliases := entity_aliases d @ [a]\<rparr>))"

fun insert_aliases :: "text_services \<Rightarrow> uuid \<Rightarrow> uuid \<Rightarrow> string \<Rightarrow> string list \<Rightarrow> db \<Rightarrow> db res" where
  "insert_aliases tx i env canonical [] d = Inr d"
| "insert_aliases tx i env canonical (alias # rest) d =
     (let n = normalize_name tx alias in
      if n = canonical then insert_aliases tx i env canonical rest d
      else bindE (insert_alias \<lparr>ea_entity_id = i, ea_env_id = env, ea_alias = alias, ea_normalized_alias = n\<rparr> d) (\<lambda>d'.
             insert_aliases tx i env canonical rest d'))"

subsection \<open>entity_upsert\<close>

definition new_entity :: "uuid \<Rightarrow> uuid \<Rightarrow> entity_upsert_request \<Rightarrow> string \<Rightarrow> time \<Rightarrow> entity" where
  "new_entity i env req normalized now = \<lparr>e_id = i, e_env_id = env, e_kind = eu_kind req,
     e_canonical_name = eu_canonical_name req, e_normalized_name = normalized, e_metadata = eu_metadata req,
     e_created_at = now, e_updated_at = now, e_version = 1\<rparr>"

definition revised_entity :: "entity_upsert_request \<Rightarrow> time \<Rightarrow> entity \<Rightarrow> entity" where
  "revised_entity req now e = e\<lparr>e_kind := eu_kind req, e_canonical_name := eu_canonical_name req,
     e_metadata := eu_metadata req, e_updated_at := now, e_version := e_version e + 1\<rparr>"

text \<open>
  The row after the insert or the guarded update, whether it was created, and the outbox operation
  if an event is due. \<open>d0\<close> is the state the select reads, \<open>d\<close> the one the update meets.
\<close>

definition entity_update_row :: "uuid \<Rightarrow> int \<Rightarrow> (entity \<Rightarrow> entity) \<Rightarrow> db \<Rightarrow> (db \<times> nat)" where
  "entity_update_row i v f d =
     (case lookup e_id i (entities d) of
        None \<Rightarrow> (d, 0)
      | Some e \<Rightarrow> if e_version e \<noteq> v then (d, 0)
                  else (d\<lparr>entities := update_where (\<lambda>r. e_id r = i) f (entities d)\<rparr>, 1))"

definition upsert_entity_row ::
  "time \<Rightarrow> uuid \<Rightarrow> string \<Rightarrow> entity_upsert_request \<Rightarrow> db \<Rightarrow> db \<Rightarrow> (db \<times> entity \<times> bool \<times> outbox_op option) res" where
  "upsert_entity_row now env normalized req d0 d =
     (case find (\<lambda>e. e_env_id e = env \<and> e_normalized_name e = normalized) (entities d0) of
        None \<Rightarrow>
          let e = new_entity (next_uuid d) env req normalized now in
          bindE (insert_entity e (draw_uuid d)) (\<lambda>d'. Inr (d', e, True, Some OP_upsert))
      | Some e \<Rightarrow>
          bindE (case eu_expected_version req of None \<Rightarrow> Inr ()
                 | Some v \<Rightarrow> raise_if (e_version e \<noteq> v) (VersionConflictError v (e_version e))) (\<lambda>_.
          if e_kind e = eu_kind req \<and> e_canonical_name e = eu_canonical_name req \<and> e_metadata e = eu_metadata req
          then Inr (d, e, False, None)
          else
            case entity_update_row (e_id e) (e_version e) (revised_entity req now) d of
              (d', n) \<Rightarrow> if n = 0 then Inl (VersionConflictError (e_version e) (e_version e + 1))
                         else Inr (d', revised_entity req now e, False, Some OP_update)))"

text \<open>
  \<open>before_snap\<close> is taken from the object that was refreshed after the update, so before and after are
  equal unless the entity is new.
\<close>

definition audit_upsert :: "uuid \<Rightarrow> uuid \<Rightarrow> entity \<Rightarrow> string list \<Rightarrow> bool \<Rightarrow> bool \<Rightarrow> db \<Rightarrow> db" where
  "audit_upsert env agent e aliases is_create emit d =
     (let before = (if is_create then None else Some (entity_payload e aliases)); after = Some (entity_payload e aliases) in
      if is_create \<or> emit \<or> before \<noteq> after
      then record_entity_audit (if is_create then ''create'' else ''update'') (e_id e) env agent before after d
      else d)"

definition enqueue_entity :: "settings \<Rightarrow> time \<Rightarrow> uuid \<Rightarrow> int \<Rightarrow> uuid \<Rightarrow> outbox_op \<Rightarrow> payload \<Rightarrow> db \<Rightarrow> db res" where
  "enqueue_entity st now i v env op p d = bindE (enqueue_event st now AT_entity i v env op p None d) (\<lambda>(d', _). Inr d')"

definition entity_upsert ::
  "text_services \<Rightarrow> settings \<Rightarrow> time \<Rightarrow> agent_context \<Rightarrow> entity_upsert_request \<Rightarrow> db \<Rightarrow> db \<Rightarrow> (db \<times> entity_response) res" where
  "entity_upsert tx st now ctx req d0 d =
     bindE (resolve_env_id (eu_env_id req) ctx) (\<lambda>env.
     bindE (rbac_require ''write'' (Some env) ctx) (\<lambda>_.
     let normalized = normalize_name tx (eu_canonical_name req) in
     bindE (upsert_entity_row now env normalized req d0 d) (\<lambda>(d1, e, is_create, emit).
     bindE (insert_aliases tx (e_id e) env normalized (eu_aliases req) d1) (\<lambda>d2.
     let aliases = load_aliases tx d2 (e_id e);
         d3 = audit_upsert env (ctx_agent_id ctx) e aliases is_create (emit \<noteq> None) d2 in
     bindE (case emit of None \<Rightarrow> Inr d3
            | Some op \<Rightarrow> enqueue_entity st now (e_id e) (e_version e) env op (entity_payload e aliases) d3) (\<lambda>d4.
       Inr (d4, entity_to_response e aliases))))))"

subsection \<open>entity_resolve\<close>

record entity_resolve_request =
  es_name :: string
  es_env_ids :: "uuid list option"
  es_kinds :: "string list option"
  es_limit :: nat

definition has_alias :: "db \<Rightarrow> (string \<Rightarrow> bool) \<Rightarrow> entity \<Rightarrow> bool" where
  "has_alias d P e \<longleftrightarrow> list_ex (\<lambda>a. ea_entity_id a = e_id e \<and> P (ea_normalized_alias a)) (entity_aliases d)"

definition named :: "db \<Rightarrow> string \<Rightarrow> entity \<Rightarrow> bool" where
  "named d n e \<longleftrightarrow> e_normalized_name e = n \<or> has_alias d (\<lambda>x. x = n) e"

definition kinds_filter :: "string list option \<Rightarrow> entity \<Rightarrow> bool" where
  "kinds_filter ks e \<longleftrightarrow> (case ks of None \<Rightarrow> True | Some xs \<Rightarrow> xs = [] \<or> e_kind e \<in> set xs)"

definition respond :: "text_services \<Rightarrow> db \<Rightarrow> entity \<Rightarrow> entity_response" where
  "respond tx d e = entity_to_response e (load_aliases tx d (e_id e))"

definition entity_resolve :: "text_services \<Rightarrow> agent_context \<Rightarrow> entity_resolve_request \<Rightarrow> db \<Rightarrow> entity_response list res" where
  "entity_resolve tx ctx req d =
     (let normalized = normalize_name tx (es_name req);
          envs = (case es_env_ids req of Some es \<Rightarrow> es | None \<Rightarrow> ctx_attached_env_ids ctx) in
      if normalized = [] then Inr []
      else if envs = [] then Inr []
      else Inr (map (respond tx d) (take (es_limit req) (sort_key (\<lambda>e. (e_env_id e, tx_collate tx (e_canonical_name e)))
             (filter (\<lambda>e. e_env_id e \<in> set envs \<and> named d normalized e \<and> kinds_filter (es_kinds req) e) (entities d))))))"

subsection \<open>entity_merge\<close>

record entity_merge_request =
  em_keep_id :: uuid
  em_merge_ids :: "uuid list"
  em_expected_versions :: "(uuid \<times> int) list"

definition valid_merge :: "entity_merge_request \<Rightarrow> bool" where
  "valid_merge req \<longleftrightarrow> em_merge_ids req \<noteq> [] \<and> distinct (em_merge_ids req)"

definition relation_key :: "relation_row \<Rightarrow> uuid \<times> uuid \<times> string" where
  "relation_key r = (r_src_node_id r, r_dst_node_id r, r_type r)"

definition repointed :: "uuid \<Rightarrow> uuid \<Rightarrow> uuid \<Rightarrow> uuid" where
  "repointed from to i = (if i = from then to else i)"

text \<open>The loop of the plan: \<open>taken\<close> is \<open>existing_keys\<close> with \<open>seen_new_keys\<close>.\<close>

fun plan_relation_node_repoint ::
  "uuid \<Rightarrow> uuid \<Rightarrow> relation_row list \<Rightarrow> (uuid \<times> uuid \<times> string) list \<Rightarrow> uuid list \<times> (uuid \<times> uuid \<times> uuid) list" where
  "plan_relation_node_repoint from to [] taken = ([], [])"
| "plan_relation_node_repoint from to (r # rs) taken =
     (let src = repointed from to (r_src_node_id r); dst = repointed from to (r_dst_node_id r); key = (src, dst, r_type r) in
      if key \<in> set taken
      then (let (dels, moves) = plan_relation_node_repoint from to rs taken in (r_id r # dels, moves))
      else (let (dels, moves) = plan_relation_node_repoint from to rs (key # taken) in (dels, (r_id r, src, dst) # moves)))"

text \<open>One \<open>UPDATE relations\<close>, with the unique key on (source, destination, type).\<close>

definition move_relation :: "time \<Rightarrow> uuid \<times> uuid \<times> uuid \<Rightarrow> db \<Rightarrow> db res" where
  "move_relation now mv d = (case mv of (i, s, t) \<Rightarrow>
     let f = (\<lambda>r. r\<lparr>r_src_node_id := s, r_dst_node_id := t, r_updated_at := now\<rparr>) in
     if list_ex (\<lambda>r. r_id r = i \<and> list_ex (\<lambda>r'. r_id r' \<noteq> i \<and> relation_key r' = relation_key (f r)) (relation_rows d)) (relation_rows d)
     then Inl (IntegrityError ''relations_src_dst_type_uniq'')
     else Inr (d\<lparr>relation_rows := update_where (\<lambda>r. r_id r = i) f (relation_rows d)\<rparr>))"

fun move_relations :: "time \<Rightarrow> (uuid \<times> uuid \<times> uuid) list \<Rightarrow> db \<Rightarrow> db res" where
  "move_relations now [] d = Inr d"
| "move_relations now (mv # mvs) d = bindE (move_relation now mv d) (move_relations now mvs)"

definition delete_node :: "uuid \<Rightarrow> db \<Rightarrow> db" where
  "delete_node i d = d\<lparr>graph_nodes := delete_where (\<lambda>n. gn_id n = i) (graph_nodes d),
     relation_rows := delete_where (\<lambda>r. r_src_node_id r = i \<or> r_dst_node_id r = i) (relation_rows d)\<rparr>"

definition touching :: "uuid \<Rightarrow> uuid \<Rightarrow> db \<Rightarrow> relation_row list" where
  "touching env n d = sort_key (\<lambda>r. (r_created_at r, r_id r))
     (filter (\<lambda>r. r_env_id r = env \<and> (r_src_node_id r = n \<or> r_dst_node_id r = n)) (relation_rows d))"

definition merge_node :: "time \<Rightarrow> uuid \<Rightarrow> graph_node \<Rightarrow> graph_node \<Rightarrow> db \<Rightarrow> db res" where
  "merge_node now env keep_node node d =
     (let rels = touching env (gn_id node) d; ids = map r_id rels;
          existing = map relation_key (filter (\<lambda>r. r_env_id r = env \<and> r_id r \<notin> set ids) (relation_rows d));
          (dels, moves) = plan_relation_node_repoint (gn_id node) (gn_id keep_node) rels existing
      in bindE (move_relations now moves (d\<lparr>relation_rows := delete_where (\<lambda>r. r_id r \<in> set dels) (relation_rows d)\<rparr>)) (\<lambda>d'.
           Inr (delete_node (gn_id node) d')))"

definition entity_node :: "uuid \<Rightarrow> db \<Rightarrow> graph_node option" where
  "entity_node i d = find (\<lambda>n. gn_entity_id n = Some i) (graph_nodes d)"

fun merge_entity_graph_nodes :: "time \<Rightarrow> uuid \<Rightarrow> uuid \<Rightarrow> uuid list \<Rightarrow> graph_node option \<Rightarrow> db \<Rightarrow> db res" where
  "merge_entity_graph_nodes now env keep_id [] keep_node d = Inr d"
| "merge_entity_graph_nodes now env keep_id (i # is) keep_node d =
     (case entity_node i d of
        None \<Rightarrow> merge_entity_graph_nodes now env keep_id is keep_node d
      | Some node \<Rightarrow> (case keep_node of
          None \<Rightarrow> merge_entity_graph_nodes now env keep_id is (Some (node\<lparr>gn_entity_id := Some keep_id\<rparr>))
                    (d\<lparr>graph_nodes := update_where (\<lambda>n. gn_id n = gn_id node) (\<lambda>n. n\<lparr>gn_entity_id := Some keep_id\<rparr>) (graph_nodes d)\<rparr>)
        | Some k \<Rightarrow> bindE (merge_node now env k node d) (merge_entity_graph_nodes now env keep_id is keep_node)))"

text \<open>
  The two statements on the aliases: the delete of those that keep has already, and the repointing of the others,
  with the primary key and the foreign key of the table.
\<close>

definition repoint_aliases :: "entity \<Rightarrow> uuid list \<Rightarrow> db \<Rightarrow> db res" where
  "repoint_aliases keep merge_ids d =
     (let keep_set = e_normalized_name keep # map ea_normalized_alias (filter (\<lambda>a. ea_entity_id a = e_id keep) (entity_aliases d));
          left = delete_where (\<lambda>a. ea_entity_id a \<in> set merge_ids \<and> ea_normalized_alias a \<in> set keep_set) (entity_aliases d);
          moved = update_where (\<lambda>a. ea_entity_id a \<in> set merge_ids) (\<lambda>a. a\<lparr>ea_entity_id := e_id keep\<rparr>) left
      in if \<not> distinct (map (\<lambda>a. (ea_entity_id a, ea_normalized_alias a)) moved) then Inl (IntegrityError ''entity_aliases_pkey'')
         else if list_ex (\<lambda>a. ea_entity_id a \<in> set merge_ids \<and> ea_env_id a \<noteq> e_env_id keep) left
           then Inl (IntegrityError ''entity_aliases_entity_env_fk'')
         else Inr (d\<lparr>entity_aliases := moved\<rparr>))"

text \<open>\<open>DELETE FROM entities WHERE id IN (...)\<close> with its cascades\<close>

definition delete_entities :: "uuid list \<Rightarrow> db \<Rightarrow> db" where
  "delete_entities ids d =
     (let gone = (\<lambda>n. case gn_entity_id n of None \<Rightarrow> False | Some i \<Rightarrow> i \<in> set ids);
          nodes = map gn_id (filter gone (graph_nodes d)) in
      d\<lparr>entities := delete_where (\<lambda>e. e_id e \<in> set ids) (entities d),
        entity_aliases := delete_where (\<lambda>a. ea_entity_id a \<in> set ids) (entity_aliases d),
        graph_nodes := delete_where gone (graph_nodes d),
        relation_rows := delete_where (\<lambda>r. r_src_node_id r \<in> set nodes \<or> r_dst_node_id r \<in> set nodes) (relation_rows d)\<rparr>)"

fun check_versions :: "(uuid \<times> int) list \<Rightarrow> db \<Rightarrow> uuid list \<Rightarrow> unit res" where
  "check_versions expected d [] = Inr ()"
| "check_versions expected d (i # is) =
     bindE (some_or (NotFoundError ''entity'' i) (lookup e_id i (entities d))) (\<lambda>e.
     bindE (raise_if (map_of expected i \<noteq> Some (e_version e)) (VersionConflictError (the (map_of expected i)) (e_version e))) (\<lambda>_.
       check_versions expected d is))"

fun emit_merged :: "settings \<Rightarrow> time \<Rightarrow> uuid \<Rightarrow> uuid \<Rightarrow> uuid \<Rightarrow> (uuid \<times> int) list \<Rightarrow> (uuid \<times> payload) list \<Rightarrow> db \<Rightarrow> db res" where
  "emit_merged st now env agent keep_id expected [] d = Inr d"
| "emit_merged st now env agent keep_id expected ((i, before) # rest) d =
     bindE (enqueue_entity st now i (the (map_of expected i) + 1) env OP_tombstone
              [(''entity_id'', JUuid i), (''env_id'', JUuid env), (''merged_into'', JUuid keep_id)]
              (record_entity_audit ''merge'' i env agent (Some before) (Some [(''merged_into'', JUuid keep_id)]) d)) (\<lambda>d'.
       emit_merged st now env agent keep_id expected rest d')"

text \<open>
  The loop over the set of required ids takes its elements in the order of the request here; the order decides only
  which of several errors is raised.
\<close>

definition entity_merge :: "text_services \<Rightarrow> settings \<Rightarrow> time \<Rightarrow> agent_context \<Rightarrow> entity_merge_request \<Rightarrow> db \<Rightarrow> (db \<times> entity_response) res" where
  "entity_merge tx st now ctx req d =
     (let keep_id = em_keep_id req; merge_ids = em_merge_ids req; expected = em_expected_versions req in
      bindE (rbac_require ''admin'' None ctx) (\<lambda>_.
      bindE (raise_if (keep_id \<in> set merge_ids) (ValueError ''keep_id cannot appear in merge_ids'')) (\<lambda>_.
      bindE (raise_if (list_ex (\<lambda>i. map_of expected i = None) (keep_id # merge_ids)) (ValueError ''expected_versions missing'')) (\<lambda>_.
      bindE (check_versions expected d (keep_id # merge_ids)) (\<lambda>_.
      bindE (some_or (NotFoundError ''entity'' keep_id) (lookup e_id keep_id (entities d))) (\<lambda>keep.
      let env = e_env_id keep; row = (\<lambda>i. the (lookup e_id i (entities d))) in
      bindE (raise_if (list_ex (\<lambda>i. e_env_id (row i) \<noteq> env) merge_ids) (ValueError ''cross-env merge not allowed'')) (\<lambda>_.
      let merged_before = map (\<lambda>i. (i, entity_payload (row i) (load_aliases tx d i))) merge_ids;
          keep_before = entity_payload keep (load_aliases tx d keep_id) in
      bindE (repoint_aliases keep merge_ids d) (\<lambda>d1.
      bindE (merge_entity_graph_nodes now env keep_id merge_ids (entity_node keep_id d1) d1) (\<lambda>d2.
      let keep' = keep\<lparr>e_version := e_version keep + 1, e_updated_at := now\<rparr> in
      (case entity_update_row keep_id (e_version keep) (\<lambda>e. e\<lparr>e_version := e_version keep + 1, e_updated_at := now\<rparr>) d2 of
        (d3, n) \<Rightarrow>
          if n = 0 then Inl (VersionConflictError (e_version keep) (e_version keep + 1))
          else
            bindE (emit_merged st now env (ctx_agent_id ctx) keep_id expected merged_before (delete_entities merge_ids d3)) (\<lambda>d4.
            let aliases = load_aliases tx d4 keep_id; after = entity_payload keep' aliases in
            bindE (enqueue_entity st now keep_id (e_version keep') env OP_update after
                     (record_entity_audit ''update'' keep_id env (ctx_agent_id ctx) (Some keep_before) (Some after) d4)) (\<lambda>d5.
              Inr (d5, entity_to_response keep' aliases)))))))))))))"

subsection \<open>entity_browse\<close>

datatype entity_order = EO_canonical_name | EO_created_at

fun entity_order_value :: "entity_order \<Rightarrow> string" where
  "entity_order_value EO_canonical_name = ''canonical_name''"
| "entity_order_value EO_created_at = ''created_at''"

record entity_browse_request =
  eb_env_ids :: "uuid list option"
  eb_kinds :: "string list option"
  eb_name_prefix :: "string option"
  eb_order_by :: entity_order
  eb_descending :: bool
  eb_limit :: nat
  eb_cursor :: "json option option"

record entity_browse_response =
  ew_hits :: "entity_response list"
  ew_next_cursor :: "json option option"
  ew_has_more :: bool

definition entity_order_key :: "text_services \<Rightarrow> entity_order \<Rightarrow> entity \<Rightarrow> real \<times> uuid" where
  "entity_order_key tx o' e = (case o' of EO_canonical_name \<Rightarrow> tx_collate tx (e_canonical_name e) | EO_created_at \<Rightarrow> real_of_int (e_created_at e), e_id e)"

definition prefix_matches :: "db \<Rightarrow> string option \<Rightarrow> entity \<Rightarrow> bool" where
  "prefix_matches d prefix e \<longleftrightarrow> (case prefix of None \<Rightarrow> True
     | Some p \<Rightarrow> let pattern = like_escape p @ ''%'' in like pattern (e_normalized_name e) \<or> has_alias d (like pattern) e)"

definition entity_cursor ::
  "text_services \<Rightarrow> string \<Rightarrow> entity_browse_request \<Rightarrow> (real \<times> uuid) option res" where
  "entity_cursor tx fp req = (case eb_cursor req of None \<Rightarrow> Inr None
     | Some c \<Rightarrow> bindE (decode_cursor c fp (Some (entity_order_value (eb_order_by req))) (Some (if eb_descending req then ''desc'' else ''asc''))) (\<lambda>k.
         case eb_order_by req of
           EO_canonical_name \<Rightarrow> Inr (Some (tx_collate tx (tx_str tx (kc_order_value k)), kc_tiebreak_id k))
         | EO_created_at \<Rightarrow> (case kc_order_value k of JTime v \<Rightarrow> Inr (Some (real_of_int v, kc_tiebreak_id k)) | _ \<Rightarrow> Inl InvalidCursorError)))"

definition browsed_entities :: "text_services \<Rightarrow> entity_browse_request \<Rightarrow> uuid list \<Rightarrow> string option \<Rightarrow> (real \<times> uuid) option \<Rightarrow> db \<Rightarrow> entity list" where
  "browsed_entities tx req envs prefix after d =
     (let key = entity_order_key tx (eb_order_by req);
          rows = filter (\<lambda>e. e_env_id e \<in> set envs \<and> kinds_filter (eb_kinds req) e \<and> prefix_matches d prefix e \<and>
                   (case after of None \<Rightarrow> True | Some k \<Rightarrow> if eb_descending req then key e < k else k < key e)) (entities d);
          asc = sort_key key rows
      in take (eb_limit req + 1) (if eb_descending req then rev asc else asc))"

definition entity_browse ::
  "text_services \<Rightarrow> (entity_browse_request \<Rightarrow> uuid list \<Rightarrow> string option \<Rightarrow> string) \<Rightarrow> agent_context \<Rightarrow> entity_browse_request \<Rightarrow> db
   \<Rightarrow> entity_browse_response res" where
  "entity_browse tx fingerprint ctx req d =
     (let envs = resolve_browse_env_ids (eb_env_ids req) ctx; prefix = map_option (normalize_name tx) (eb_name_prefix req) in
      if envs = [] then Inr \<lparr>ew_hits = [], ew_next_cursor = None, ew_has_more = False\<rparr>
      else bindE (raise_if (prefix = Some []) (InvalidInputError ''name_prefix'')) (\<lambda>_.
      let fp = fingerprint req envs prefix in
      bindE (entity_cursor tx fp req) (\<lambda>after.
      let rows = browsed_entities tx req envs prefix after d;
          page = take (eb_limit req) rows; has_more = length rows > eb_limit req in
      Inr \<lparr>ew_hits = map (respond tx d) page,
        ew_next_cursor = (if has_more \<and> page \<noteq> [] then
          Some (encode_cursor fp (entity_order_value (eb_order_by req))
            (case eb_order_by req of EO_canonical_name \<Rightarrow> JStr (e_canonical_name (last page)) | EO_created_at \<Rightarrow> JTime (e_created_at (last page)))
            (e_id (last page)) (if eb_descending req then ''desc'' else ''asc''))
          else None),
        ew_has_more = has_more\<rparr>)))"

end
