(* ===== verification/EntityMerge.thy ===== *)
theory EntityMerge
  imports Entities
begin

text \<open>
  The graph part of \<open>entity_merge\<close>: moving the relations of a merged entity's node onto the node that stays never
  violates a key, and the edges between records afterwards are the image of the edges before.
\<close>

subsection \<open>The plan of one node\<close>

definition new_key :: "uuid \<Rightarrow> uuid \<Rightarrow> relation_row \<Rightarrow> uuid \<times> uuid \<times> string" where
  "new_key from to r = (repointed from to (r_src_node_id r), repointed from to (r_dst_node_id r), r_type r)"

lemma plan_spec:
  "plan_relation_node_repoint from to rels taken = (dels, moves) \<Longrightarrow> distinct (map r_id rels) \<Longrightarrow>
   set dels \<inter> fst ` set moves = {} \<and> set dels \<union> fst ` set moves = r_id ` set rels \<and> distinct (map fst moves) \<and>
   (\<forall>r \<in> set rels. r_id r \<in> set dels \<longrightarrow> new_key from to r \<in> set taken \<union> new_key from to ` {r' \<in> set rels. r_id r' \<notin> set dels}) \<and>
   (\<forall>r \<in> set rels. r_id r \<notin> set dels \<longrightarrow> new_key from to r \<notin> set taken) \<and>
   inj_on (new_key from to) {r \<in> set rels. r_id r \<notin> set dels} \<and>
   (\<forall>i s t. (i, s, t) \<in> set moves \<longrightarrow> (\<exists>r \<in> set rels. r_id r = i \<and> new_key from to r = (s, t, r_type r)))"
proof (induction rels arbitrary: taken dels moves)
  case Nil
  then show ?case by simp
next
  case (Cons r rs)
  let ?k = "new_key from to r"
  have ids: "distinct (map r_id rs)" "r_id r \<notin> r_id ` set rs" using Cons.prems(2) by auto
  have ne: "r_id x \<noteq> r_id r" if "x \<in> set rs" for x using ids(2) that by (metis imageI)
  show ?case
  proof (cases "?k \<in> set taken")
    case True
    then obtain dels' where run: "plan_relation_node_repoint from to rs taken = (dels', moves)" "dels = r_id r # dels'"
      using Cons.prems(1) by (auto simp: Let_def new_key_def split: prod.splits)
    have sub: "{r' \<in> set (r # rs). r_id r' \<notin> set dels} = {r' \<in> set rs. r_id r' \<notin> set dels'}" using run(2) ne by auto
    note IH = Cons.IH [OF run(1) ids(1)]
    show ?thesis unfolding sub
    proof (intro conjI)
      show "set dels \<inter> fst ` set moves = {}" using IH run(2) ids(2) by auto
      show "set dels \<union> fst ` set moves = r_id ` set (r # rs)" using IH run(2) by auto
      show "\<forall>r'\<in>set (r # rs). r_id r' \<in> set dels \<longrightarrow> new_key from to r' \<in> set taken \<union> new_key from to ` {r' \<in> set rs. r_id r' \<notin> set dels'}"
        using IH run(2) True ids(2) by auto
      show "\<forall>r'\<in>set (r # rs). r_id r' \<notin> set dels \<longrightarrow> new_key from to r' \<notin> set taken" using IH run(2) by auto
      show "\<forall>i s t. (i, s, t) \<in> set moves \<longrightarrow> (\<exists>r'\<in>set (r # rs). r_id r' = i \<and> new_key from to r' = (s, t, r_type r'))"
        using IH by (meson list.set_intros(2))
    qed (use IH in auto)
  next
    case False
    then obtain moves' where run: "plan_relation_node_repoint from to rs (?k # taken) = (dels, moves')"
      "moves = (r_id r, repointed from to (r_src_node_id r), repointed from to (r_dst_node_id r)) # moves'"
      using Cons.prems(1) by (auto simp: Let_def new_key_def split: prod.splits)
    note IH = Cons.IH [OF run(1) ids(1)]
    have here: "r_id r \<notin> set dels" "r_id r \<notin> fst ` set moves'" using IH ids(2) by blast+
    have sub: "{r' \<in> set (r # rs). r_id r' \<notin> set dels} = insert r {r' \<in> set rs. r_id r' \<notin> set dels}" using here by auto
    show ?thesis unfolding sub
    proof (intro conjI)
      show "set dels \<inter> fst ` set moves = {}" using IH run(2) here by auto
      show "set dels \<union> fst ` set moves = r_id ` set (r # rs)" using IH run(2) by auto
      show "distinct (map fst moves)" using IH run(2) here by auto
      show "\<forall>r'\<in>set (r # rs). r_id r' \<in> set dels \<longrightarrow> new_key from to r' \<in> set taken \<union> new_key from to ` insert r {r' \<in> set rs. r_id r' \<notin> set dels}"
        using IH here by auto
      show "\<forall>r'\<in>set (r # rs). r_id r' \<notin> set dels \<longrightarrow> new_key from to r' \<notin> set taken" using IH False by auto
      show "inj_on (new_key from to) (insert r {r' \<in> set rs. r_id r' \<notin> set dels})" using IH by auto
      show "\<forall>i s t. (i, s, t) \<in> set moves \<longrightarrow> (\<exists>r'\<in>set (r # rs). r_id r' = i \<and> new_key from to r' = (s, t, r_type r'))"
        using IH run(2) unfolding new_key_def by auto
    qed
  qed
qed

subsection \<open>The moves\<close>

definition moved_row :: "time \<Rightarrow> (uuid \<times> uuid \<times> uuid) list \<Rightarrow> relation_row \<Rightarrow> relation_row" where
  "moved_row now moves r = (case map_of moves (r_id r) of None \<Rightarrow> r
     | Some (s, t) \<Rightarrow> r\<lparr>r_src_node_id := s, r_dst_node_id := t, r_updated_at := now\<rparr>)"

lemma moved_row_id [simp]: "r_id (moved_row now moves r) = r_id r" "r_type (moved_row now moves r) = r_type r" "r_env_id (moved_row now moves r) = r_env_id r"
  by (simp_all add: moved_row_def split: option.splits)

definition target :: "relation_row list \<Rightarrow> uuid \<times> uuid \<times> uuid \<Rightarrow> (uuid \<times> uuid \<times> string) set" where
  "target rows mv = (case mv of (i, s, t) \<Rightarrow> {(s, t, r_type r) | r. r \<in> set rows \<and> r_id r = i})"

lemma target_ids: "target rows (i, s, t) = {(s, t, ty) | ty. (i, ty) \<in> (\<lambda>r. (r_id r, r_type r)) ` set rows}"
  by (auto simp: target_def image_iff)

lemma move_relations_ok:
  "distinct (map r_id (relation_rows d)) \<Longrightarrow> distinct (map fst moves) \<Longrightarrow>
   \<forall>mv \<in> set moves. \<forall>r \<in> set (relation_rows d). r_id r \<noteq> fst mv \<longrightarrow> relation_key r \<notin> target (relation_rows d) mv \<Longrightarrow>
   \<forall>mv \<in> set moves. \<forall>mv' \<in> set moves. fst mv \<noteq> fst mv' \<longrightarrow> target (relation_rows d) mv \<inter> target (relation_rows d) mv' = {} \<Longrightarrow>
   move_relations now moves d = Inr (d\<lparr>relation_rows := map (moved_row now moves) (relation_rows d)\<rparr>)"
proof (induction moves arbitrary: d)
  case Nil
  then show ?case by (simp add: moved_row_def)
next
  case (Cons mv moves)
  obtain i s t where mv: "mv = (i, s, t)" by (cases mv)
  let ?f = "\<lambda>r. r\<lparr>r_src_node_id := s, r_dst_node_id := t, r_updated_at := now\<rparr>"
  let ?d = "d\<lparr>relation_rows := update_where (\<lambda>r. r_id r = i) ?f (relation_rows d)\<rparr>"
  have step: "move_relation now mv d = Inr ?d"
  proof -
    have "\<not> list_ex (\<lambda>r. r_id r = i \<and> list_ex (\<lambda>r'. r_id r' \<noteq> i \<and> relation_key r' = relation_key (?f r)) (relation_rows d)) (relation_rows d)"
    proof
      assume "list_ex (\<lambda>r. r_id r = i \<and> list_ex (\<lambda>r'. r_id r' \<noteq> i \<and> relation_key r' = relation_key (?f r)) (relation_rows d)) (relation_rows d)"
      then obtain r r' where r: "r \<in> set (relation_rows d)" "r_id r = i" "r' \<in> set (relation_rows d)" "r_id r' \<noteq> i" "relation_key r' = relation_key (?f r)"
        unfolding list_ex_iff by blast
      have "relation_key (?f r) \<in> target (relation_rows d) mv" using r(1,2) unfolding mv target_def relation_key_def by auto
      then show False using Cons.prems(3) r(3,4,5) mv by auto
    qed
    then show ?thesis unfolding mv move_relation_def by (simp add: Let_def)
  qed
  have "map (\<lambda>r. (r_id r, r_type r)) (relation_rows ?d) = map (\<lambda>r. (r_id r, r_type r)) (relation_rows d)"
    by (simp add: update_where_def)
  from arg_cong [OF this, of set]
  have "(\<lambda>r. (r_id r, r_type r)) ` set (relation_rows ?d) = (\<lambda>r. (r_id r, r_type r)) ` set (relation_rows d)"
    by (simp only: set_map)
  then have target: "target (relation_rows ?d) mv' = target (relation_rows d) mv'" for mv'
    by (cases mv') (simp only: target_ids)
  have rest: "move_relations now moves ?d = Inr (?d\<lparr>relation_rows := map (moved_row now moves) (relation_rows ?d)\<rparr>)"
  proof (rule Cons.IH)
    have "map r_id (update_where (\<lambda>r. r_id r = i) ?f (relation_rows d)) = map r_id (relation_rows d)"
      by (simp add: update_where_def)
    then show "distinct (map r_id (relation_rows ?d))" using Cons.prems(1) by simp
    show "distinct (map fst moves)" using Cons.prems(2) by simp
    show "\<forall>mv \<in> set moves. \<forall>r \<in> set (relation_rows ?d). r_id r \<noteq> fst mv \<longrightarrow> relation_key r \<notin> target (relation_rows ?d) mv"
    proof (intro ballI impI)
      fix mv' r assume mv': "mv' \<in> set moves" and r: "r \<in> set (relation_rows ?d)" "r_id r \<noteq> fst mv'"
      obtain r0 where r0: "r0 \<in> set (relation_rows d)" "r = (if r_id r0 = i then ?f r0 else r0)" using r(1) by (auto simp: set_update_where)
      show "relation_key r \<notin> target (relation_rows ?d) mv'" unfolding target
      proof (cases "r_id r0 = i")
        case True
        then have "relation_key r \<in> target (relation_rows d) mv" using r0 unfolding mv target_def relation_key_def by auto
        moreover have "fst mv \<notin> fst ` set moves" using Cons.prems(2) by simp
        then have "fst mv' \<noteq> fst mv" using imageI [OF mv', of fst] by metis
        ultimately show "relation_key r \<notin> target (relation_rows d) mv'" using Cons.prems(4) mv' by (metis disjoint_iff list.set_intros)
      next
        case False
        then show "relation_key r \<notin> target (relation_rows d) mv'" using Cons.prems(3) mv' r0 r(2) by auto
      qed
    qed
    show "\<forall>mv \<in> set moves. \<forall>mv' \<in> set moves. fst mv \<noteq> fst mv' \<longrightarrow> target (relation_rows ?d) mv \<inter> target (relation_rows ?d) mv' = {}"
      unfolding target using Cons.prems(4) by auto
  qed
  have "map_of moves i = None" using Cons.prems(2) mv by (simp add: map_of_eq_None_iff)
  then have "map (moved_row now moves) (update_where (\<lambda>r. r_id r = i) ?f (relation_rows d)) = map (moved_row now (mv # moves)) (relation_rows d)"
    by (auto simp: update_where_def moved_row_def mv)
  then show ?case using step rest by simp
qed

subsection \<open>One node onto another\<close>

text \<open>What \<open>graph_ok\<close> gives for a relation at a node: the environment of the node, and one row per key.\<close>

lemma node_env:
  assumes "graph_ok d" "r \<in> set (relation_rows d)" "n \<in> set (graph_nodes d)" "gn_id n = r_src_node_id r \<or> gn_id n = r_dst_node_id r"
  shows "r_env_id r = gn_env_id n"
proof -
  have "has_node d (gn_id n) (r_env_id r)" using assms unfolding graph_ok_def by metis
  then obtain n' where n': "n' \<in> set (graph_nodes d)" "gn_id n' = gn_id n" "gn_env_id n' = r_env_id r" by (auto simp: has_node_def)
  then have "n' = n" using assms(1,3) by (auto simp: graph_ok_def distinct_map inj_on_def)
  then show ?thesis using n'(3) by simp
qed

lemma row_by_id: "graph_ok d \<Longrightarrow> r \<in> set (relation_rows d) \<Longrightarrow> r' \<in> set (relation_rows d) \<Longrightarrow> r_id r = r_id r' \<Longrightarrow> r = r'"
  by (auto simp: graph_ok_def distinct_map inj_on_def)

lemma row_by_key: "graph_ok d \<Longrightarrow> r \<in> set (relation_rows d) \<Longrightarrow> r' \<in> set (relation_rows d) \<Longrightarrow> relation_key r = relation_key r' \<Longrightarrow> r = r'"
  by (auto simp: graph_ok_def distinct_map inj_on_def relation_key_def)

lemma delete_where_none: "\<forall>x \<in> set xs. \<not> P x \<Longrightarrow> delete_where P xs = xs"
  by (simp add: delete_where_def)

lemma new_key_other: "r_src_node_id r \<noteq> from \<Longrightarrow> r_dst_node_id r \<noteq> from \<Longrightarrow> new_key from to r = relation_key r"
  by (simp add: new_key_def relation_key_def repointed_def)

lemma new_key_avoids: "from \<noteq> to \<Longrightarrow> new_key from to r = (s, t, ty) \<Longrightarrow> s \<noteq> from \<and> t \<noteq> from"
  by (auto simp: new_key_def repointed_def split: if_splits)

lemma moved_row_eq:
  assumes "map_of moves (r_id r) = None \<and> relation_key r = k \<or> (\<exists>s t. map_of moves (r_id r) = Some (s, t) \<and> k = (s, t, r_type r))"
  shows "relation_key (moved_row now moves r) = k"
  using assms by (auto simp: moved_row_def relation_key_def)

lemma merge_node_spec:
  assumes g: "graph_ok d" and n: "node \<in> set (graph_nodes d)" "gn_env_id node = env"
    and k: "keep \<in> set (graph_nodes d)" "gn_env_id keep = env" and ne: "gn_id node \<noteq> gn_id keep"
  obtains rows where
    "merge_node now env keep node d = Inr (d\<lparr>graph_nodes := delete_where (\<lambda>x. gn_id x = gn_id node) (graph_nodes d), relation_rows := rows\<rparr>)"
    "\<And>r'. r' \<in> set rows \<Longrightarrow> \<exists>r \<in> set (relation_rows d). r_id r' = r_id r \<and> r_env_id r' = r_env_id r \<and> relation_key r' = new_key (gn_id node) (gn_id keep) r"
    "\<And>r. r \<in> set (relation_rows d) \<Longrightarrow> \<exists>r' \<in> set rows. relation_key r' = new_key (gn_id node) (gn_id keep) r"
    "distinct (map r_id rows)" "distinct (map relation_key rows)"
proof -
  let ?from = "gn_id node" and ?to = "gn_id keep"
  let ?rels = "touching env ?from d" and ?ids = "map r_id (touching env (gn_id node) d)"
  let ?existing = "map relation_key (filter (\<lambda>r. r_env_id r = env \<and> r_id r \<notin> set ?ids) (relation_rows d))"
  let ?nk = "new_key ?from ?to"
  obtain dels moves where plan: "plan_relation_node_repoint ?from ?to ?rels ?existing = (dels, moves)" by fastforce
  let ?rows1 = "delete_where (\<lambda>r. r_id r \<in> set dels) (relation_rows d)"
  let ?d1 = "d\<lparr>relation_rows := ?rows1\<rparr>"
  let ?rows = "map (moved_row now moves) ?rows1"
  have ids: "distinct (map r_id (relation_rows d))" using g by (simp add: graph_ok_def)
  have touch: "r \<in> set ?rels \<longleftrightarrow> r \<in> set (relation_rows d) \<and> (r_src_node_id r = ?from \<or> r_dst_node_id r = ?from)" for r
    using node_env [OF g _ n(1)] n(2) by (auto simp: touching_def)
  have "distinct (map r_id ?rels)" unfolding touching_def using ids by (simp add: distinct_map inj_on_def)
  note spec = plan_spec [OF plan this]
  have cover: "set dels \<union> fst ` set moves = r_id ` set ?rels" and apart: "set dels \<inter> fst ` set moves = {}"
    and single: "distinct (map fst moves)" using spec by blast+
  have in_ids: "r_id r \<in> r_id ` set ?rels \<longleftrightarrow> r \<in> set ?rels" if "r \<in> set (relation_rows d)" for r
    using that row_by_id [OF g] touch  by (auto simp: image_iff)
  have move_of: "\<exists>s t. map_of moves (r_id r) = Some (s, t) \<and> ?nk r = (s, t, r_type r)" if "r \<in> set ?rels" "r_id r \<notin> set dels" for r
  proof -
    have "r_id r \<in> fst ` set moves" using that cover by blast
    then obtain s t where m: "(r_id r, s, t) \<in> set moves" by force
    obtain r0 where r0: "r0 \<in> set ?rels" "r_id r0 = r_id r" "?nk r0 = (s, t, r_type r0)" using spec m by blast
    have "r0 = r" using row_by_id [OF g] r0(1,2) that(1) touch by blast
    then show ?thesis using r0(3) map_of_is_SomeI [OF single m] by auto
  qed
  have stay: "map_of moves (r_id r) = None" if "r \<in> set (relation_rows d)" "r \<notin> set ?rels" for r
    using that in_ids cover by (metis UnCI map_of_eq_None_iff)
  have key: "relation_key (moved_row now moves r) = ?nk r" if "r \<in> set (relation_rows d)" "r_id r \<notin> set dels" for r
  proof (cases "r \<in> set ?rels")
    case True
    then show ?thesis using move_of [OF True that(2)] by (intro moved_row_eq) auto
  next
    case False
    then have "?nk r = relation_key r" using touch that(1) by (intro new_key_other) auto
    then show ?thesis using stay [OF that(1) False] by (intro moved_row_eq) auto
  qed
  have inj: "r = r'" if r: "r \<in> set (relation_rows d)" "r_id r \<notin> set dels" "r' \<in> set (relation_rows d)" "r_id r' \<notin> set dels" and eq: "?nk r = ?nk r'" for r r'
  proof -
    have mixed: False if "x \<in> set ?rels" "r_id x \<notin> set dels" "y \<in> set (relation_rows d)" "y \<notin> set ?rels" "?nk x = ?nk y" for x y
    proof -
      have "r_id y \<notin> set ?ids" using in_ids [OF that(3)] that(4) by simp
      have nky: "?nk y = relation_key y" using touch that(3,4) by (intro new_key_other) auto
      have "x \<in> set (relation_rows d)" using that(1) touch by blast
      have "r_env_id y = env"
      proof (cases "r_src_node_id x = ?from")
        case True
        then have "r_src_node_id y = ?to" using that(5) nky by (simp add: new_key_def relation_key_def repointed_def)
        then show ?thesis using node_env [OF g that(3) k(1)] k(2) by simp
      next
        case False
        then have "r_dst_node_id x = ?from" using that(1) touch by blast
        then have "r_dst_node_id y = ?to" using that(5) nky by (simp add: new_key_def relation_key_def repointed_def)
        then show ?thesis using node_env [OF g that(3) k(1)] k(2) by simp
      qed
      then have "relation_key y \<in> set ?existing" using that(3) \<open>r_id y \<notin> set ?ids\<close> by auto
      moreover have "?nk x \<notin> set ?existing" using spec that(1,2) by blast
      ultimately show False using that(5) nky by simp
    qed
    show ?thesis
    proof (cases "r \<in> set ?rels"; cases "r' \<in> set ?rels")
      assume "r \<in> set ?rels" "r' \<in> set ?rels"
      then show ?thesis using spec r eq unfolding inj_on_def by blast
    next
      assume "r \<in> set ?rels" "r' \<notin> set ?rels"
      then show ?thesis using mixed r eq by blast
    next
      assume "r \<notin> set ?rels" "r' \<in> set ?rels"
      then show ?thesis using mixed [of r' r] r eq by simp
    next
      assume "r \<notin> set ?rels" "r' \<notin> set ?rels"
      then have "relation_key r = relation_key r'" using eq touch r by (metis new_key_other)
      then show ?thesis using row_by_key [OF g] r by blast
    qed
  qed
  have target_of: "target ?rows1 mv = {?nk r}" if "mv \<in> set moves" "r \<in> set ?rels" "r_id r = fst mv" for mv r
  proof -
    obtain i s t where mv: "mv = (i, s, t)" by (cases mv)
    have nd: "r_id r \<notin> set dels" using apart that by (metis disjoint_iff imageI)
    have "map_of moves i = Some (s, t)" using map_of_is_SomeI [OF single] that(1) mv by simp
    then have nk: "?nk r = (s, t, r_type r)" using move_of [OF that(2) nd] that(3) mv by auto
    have "r' = r" if "r' \<in> set ?rows1" "r_id r' = i" for r' using row_by_id [OF g] that \<open>r_id r = fst mv\<close> mv \<open>r \<in> set ?rels\<close> touch by auto
    moreover have "r \<in> set ?rows1" using nd that(2) touch by simp
    ultimately show ?thesis unfolding mv target_def nk using that(3) mv by auto
  qed
  have row_of: "\<exists>r \<in> set ?rels. r_id r = fst mv \<and> r_id r \<notin> set dels" if "mv \<in> set moves" for mv
  proof -
    have "fst mv \<in> r_id ` set ?rels" using cover that by blast
    then show ?thesis using apart that by (metis (no_types, lifting) disjoint_iff image_iff)
  qed
  have moved: "move_relations now moves ?d1 = Inr (?d1\<lparr>relation_rows := map (moved_row now moves) (relation_rows ?d1)\<rparr>)"
  proof (rule move_relations_ok)
    show "distinct (map r_id (relation_rows ?d1))" using ids by (simp add: delete_where_def distinct_map inj_on_def)
    show "distinct (map fst moves)" by (rule single)
    show "\<forall>mv \<in> set moves. \<forall>r \<in> set (relation_rows ?d1). r_id r \<noteq> fst mv \<longrightarrow> relation_key r \<notin> target (relation_rows ?d1) mv"
    proof (intro ballI impI notI)
      fix mv r assume mv: "mv \<in> set moves" and r: "r \<in> set (relation_rows ?d1)" "r_id r \<noteq> fst mv" and hit: "relation_key r \<in> target (relation_rows ?d1) mv"
      obtain r0 where r0: "r0 \<in> set ?rels" "r_id r0 = fst mv" "r_id r0 \<notin> set dels" using row_of [OF mv] by blast
      have eq: "relation_key r = ?nk r0" using hit target_of [OF mv r0(1,2)] by simp
      then have "r_src_node_id r \<noteq> ?from \<and> r_dst_node_id r \<noteq> ?from" using new_key_avoids [OF ne] unfolding relation_key_def by metis
      then have "?nk r = ?nk r0" using eq new_key_other by metis
      then have "r = r0" using inj r(1) r0 touch by auto
      then show False using r(2) r0(2) by simp
    qed
    show "\<forall>mv \<in> set moves. \<forall>mv' \<in> set moves. fst mv \<noteq> fst mv' \<longrightarrow> target (relation_rows ?d1) mv \<inter> target (relation_rows ?d1) mv' = {}"
    proof (intro ballI impI)
      fix mv mv' assume mv: "mv \<in> set moves" "mv' \<in> set moves" "fst mv \<noteq> fst mv'"
      obtain r0 where r0: "r0 \<in> set ?rels" "r_id r0 = fst mv" "r_id r0 \<notin> set dels" using row_of [OF mv(1)] by blast
      obtain r1 where r1: "r1 \<in> set ?rels" "r_id r1 = fst mv'" "r_id r1 \<notin> set dels" using row_of [OF mv(2)] by blast
      have "?nk r0 \<noteq> ?nk r1" using inj [of r0 r1] r0 r1 mv(3) touch by metis
      then show "target (relation_rows ?d1) mv \<inter> target (relation_rows ?d1) mv' = {}"
        using target_of [OF mv(1) r0(1,2)] target_of [OF mv(2) r1(1,2)] by simp
    qed
  qed
  have clear: "r_src_node_id r \<noteq> ?from \<and> r_dst_node_id r \<noteq> ?from" if r: "r \<in> set ?rows" for r
  proof -
    obtain r0 where "r0 \<in> set (relation_rows d)" "r_id r0 \<notin> set dels" "r = moved_row now moves r0" using r by auto
    then show ?thesis using key [of r0] new_key_avoids [OF ne, of r0] unfolding relation_key_def by metis
  qed
  have "delete_where (\<lambda>r. r_src_node_id r = ?from \<or> r_dst_node_id r = ?from) ?rows = ?rows"
    using clear by (intro delete_where_none) blast
  then have run: "merge_node now env keep node d = Inr (d\<lparr>graph_nodes := delete_where (\<lambda>x. gn_id x = ?from) (graph_nodes d), relation_rows := ?rows\<rparr>)"
    using moved plan by (simp add: merge_node_def Let_def delete_node_def)
  show thesis
  proof (rule that [OF run])
    fix r' assume "r' \<in> set ?rows"
    then obtain r where "r \<in> set (relation_rows d)" "r_id r \<notin> set dels" "r' = moved_row now moves r" by auto
    then show "\<exists>r \<in> set (relation_rows d). r_id r' = r_id r \<and> r_env_id r' = r_env_id r \<and> relation_key r' = ?nk r"
      using key by (intro bexI [of _ r]) auto
  next
    fix r assume r: "r \<in> set (relation_rows d)"
    have here: "\<exists>r' \<in> set ?rows. relation_key r' = ?nk x" if "x \<in> set (relation_rows d)" "r_id x \<notin> set dels" for x
      using key [OF that] that by (intro bexI [of _ "moved_row now moves x"]) auto
    show "\<exists>r' \<in> set ?rows. relation_key r' = ?nk r"
    proof (cases "r_id r \<in> set dels")
      case True
      then have "r \<in> set ?rels" using cover in_ids [OF r] by blast
      then have "?nk r \<in> set ?existing \<union> ?nk ` {r' \<in> set ?rels. r_id r' \<notin> set dels}" using spec True by blast
      then consider y where "y \<in> set (relation_rows d)" "r_id y \<notin> set ?ids" "?nk r = relation_key y"
        | y where "y \<in> set ?rels" "r_id y \<notin> set dels" "?nk r = ?nk y" by auto
      then show ?thesis
      proof cases
        case 1
        then have "y \<notin> set ?rels" "r_id y \<notin> set dels" using cover by auto
        then have "?nk y = relation_key y" using touch 1(1) by (intro new_key_other) auto
        then show ?thesis using here [OF 1(1) \<open>r_id y \<notin> set dels\<close>] 1(3) by simp
      next
        case 2
        then show ?thesis using here [of y] touch by auto
      qed
    qed (rule here [OF r])
  next
    show "distinct (map r_id ?rows)" using ids by (simp add: o_def delete_where_def distinct_map inj_on_def)
    have "inj_on (relation_key \<circ> moved_row now moves) (set ?rows1)" using inj key by (auto simp: inj_on_def)
    moreover have "distinct ?rows1" using ids by (simp add: delete_where_def distinct_map)
    ultimately show "distinct (map relation_key ?rows)" by (simp add: distinct_map)
  qed
qed

subsection \<open>Edges between records\<close>

type_synonym endpoint = "uuid option \<times> uuid option \<times> uuid option"

definition endpoint :: "graph_node \<Rightarrow> endpoint" where
  "endpoint n = (gn_entity_id n, gn_memory_id n, gn_task_id n)"

definition graph_edges :: "db \<Rightarrow> (endpoint \<times> string \<times> endpoint) set" where
  "graph_edges d = {(endpoint s, r_type r, endpoint t) | r s t. r \<in> set (relation_rows d) \<and> s \<in> set (graph_nodes d) \<and> t \<in> set (graph_nodes d) \<and>
     gn_id s = r_src_node_id r \<and> gn_id t = r_dst_node_id r}"

definition merge_endpoint :: "uuid \<Rightarrow> uuid set \<Rightarrow> endpoint \<Rightarrow> endpoint" where
  "merge_endpoint keep ids p = (map_option (\<lambda>i. if i \<in> ids then keep else i) (fst p), snd p)"

definition merge_edge :: "uuid \<Rightarrow> uuid set \<Rightarrow> endpoint \<times> string \<times> endpoint \<Rightarrow> endpoint \<times> string \<times> endpoint" where
  "merge_edge keep ids e = (merge_endpoint keep ids (fst e), fst (snd e), merge_endpoint keep ids (snd (snd e)))"

lemma merge_edge_compose: "keep \<notin> ids \<Longrightarrow> merge_edge keep ids (merge_edge keep {i} e) = merge_edge keep (insert i ids) e"
  by (cases e) (auto simp: merge_edge_def merge_endpoint_def option.map_comp o_def intro!: map_option_cong)

lemma merge_edge_none: "merge_edge keep {} = id"
  by (rule ext) (simp add: merge_edge_def merge_endpoint_def option.map_ident)

definition one_node_per_entity :: "db \<Rightarrow> bool" where
  "one_node_per_entity d \<longleftrightarrow> (\<forall>n \<in> set (graph_nodes d). \<forall>n' \<in> set (graph_nodes d).
     gn_entity_id n \<noteq> None \<and> gn_entity_id n = gn_entity_id n' \<longrightarrow> n = n')"

lemma one_nodeD: "one_node_per_entity d \<Longrightarrow> n \<in> set (graph_nodes d) \<Longrightarrow> n' \<in> set (graph_nodes d) \<Longrightarrow>
    gn_entity_id n = Some i \<Longrightarrow> gn_entity_id n' = Some i \<Longrightarrow> n = n'"
  unfolding one_node_per_entity_def by simp

lemma node_by_id: "graph_ok d \<Longrightarrow> n \<in> set (graph_nodes d) \<Longrightarrow> n' \<in> set (graph_nodes d) \<Longrightarrow> gn_id n = gn_id n' \<Longrightarrow> n = n'"
  by (auto simp: graph_ok_def distinct_map inj_on_def)

lemma edges_image:
  assumes g: "graph_ok d" and dist: "distinct (map gn_id (graph_nodes d'))"
    and nodes: "\<And>x. x \<in> set (graph_nodes d) \<Longrightarrow> \<exists>y \<in> set (graph_nodes d'). gn_id y = f (gn_id x) \<and> endpoint y = h (endpoint x)"
    and bwd: "\<And>r'. r' \<in> set (relation_rows d') \<Longrightarrow> \<exists>r \<in> set (relation_rows d). relation_key r' = (f (r_src_node_id r), f (r_dst_node_id r), r_type r)"
    and fwd: "\<And>r. r \<in> set (relation_rows d) \<Longrightarrow> \<exists>r' \<in> set (relation_rows d'). relation_key r' = (f (r_src_node_id r), f (r_dst_node_id r), r_type r)"
  shows "graph_edges d' = (\<lambda>e. (h (fst e), fst (snd e), h (snd (snd e)))) ` graph_edges d"
proof (intro set_eqI iffI)
  fix e assume "e \<in> graph_edges d'"
  then obtain r' s t where e: "e = (endpoint s, r_type r', endpoint t)" and r': "r' \<in> set (relation_rows d')"
    and st: "s \<in> set (graph_nodes d')" "t \<in> set (graph_nodes d')" "gn_id s = r_src_node_id r'" "gn_id t = r_dst_node_id r'"
    by (auto simp: graph_edges_def)
  obtain r where r: "r \<in> set (relation_rows d)" "relation_key r' = (f (r_src_node_id r), f (r_dst_node_id r), r_type r)" using bwd [OF r'] by blast
  obtain s0 t0 where st0: "s0 \<in> set (graph_nodes d)" "gn_id s0 = r_src_node_id r" "t0 \<in> set (graph_nodes d)" "gn_id t0 = r_dst_node_id r"
    using g r(1) unfolding graph_ok_def has_node_def by blast
  have same: "y = z" if "y \<in> set (graph_nodes d')" "z \<in> set (graph_nodes d')" "gn_id y = gn_id z" for y z
    using dist that by (auto simp: distinct_map inj_on_def)
  obtain y where y: "y \<in> set (graph_nodes d')" "gn_id y = f (gn_id s0)" "endpoint y = h (endpoint s0)" using nodes [OF st0(1)] by blast
  obtain z where z: "z \<in> set (graph_nodes d')" "gn_id z = f (gn_id t0)" "endpoint z = h (endpoint t0)" using nodes [OF st0(3)] by blast
  have "y = s" "z = t" using same y z st r(2) st0 by (auto simp: relation_key_def)
  then have "e = (\<lambda>e. (h (fst e), fst (snd e), h (snd (snd e)))) (endpoint s0, r_type r, endpoint t0)"
    using e y z r(2) by (simp add: relation_key_def)
  moreover have "(endpoint s0, r_type r, endpoint t0) \<in> graph_edges d" using r(1) st0 unfolding graph_edges_def by blast
  ultimately show "e \<in> (\<lambda>e. (h (fst e), fst (snd e), h (snd (snd e)))) ` graph_edges d" by (rule image_eqI)
next
  fix e assume "e \<in> (\<lambda>e. (h (fst e), fst (snd e), h (snd (snd e)))) ` graph_edges d"
  then obtain r s0 t0 where e: "e = (h (endpoint s0), r_type r, h (endpoint t0))" and r: "r \<in> set (relation_rows d)"
    and st0: "s0 \<in> set (graph_nodes d)" "t0 \<in> set (graph_nodes d)" "gn_id s0 = r_src_node_id r" "gn_id t0 = r_dst_node_id r"
    by (auto simp: graph_edges_def)
  obtain r' where r': "r' \<in> set (relation_rows d')" "relation_key r' = (f (r_src_node_id r), f (r_dst_node_id r), r_type r)" using fwd [OF r] by blast
  obtain y where y: "y \<in> set (graph_nodes d')" "gn_id y = f (gn_id s0)" "endpoint y = h (endpoint s0)" using nodes [OF st0(1)] by blast
  obtain z where z: "z \<in> set (graph_nodes d')" "gn_id z = f (gn_id t0)" "endpoint z = h (endpoint t0)" using nodes [OF st0(2)] by blast
  have "gn_id y = r_src_node_id r'" "gn_id z = r_dst_node_id r'" "e = (endpoint y, r_type r', endpoint z)"
    using e y z r'(2) st0 by (simp_all add: relation_key_def)
  then show "e \<in> graph_edges d'" using r'(1) y(1) z(1) unfolding graph_edges_def by blast
qed

lemma merge_edge_eq: "(\<lambda>e. (merge_endpoint k ids (fst e), fst (snd e), merge_endpoint k ids (snd (snd e)))) = merge_edge k ids"
  by (rule ext) (simp add: merge_edge_def)

lemma entity_endpoint: "graph_ok d \<Longrightarrow> n \<in> set (graph_nodes d) \<Longrightarrow> gn_entity_id n = Some i \<Longrightarrow> endpoint n = (Some i, None, None)"
  by (auto simp: graph_ok_def node_shape_def endpoint_def)

lemma merge_node_edges:
  assumes g: "graph_ok d" and u: "one_node_per_entity d" and n: "node \<in> set (graph_nodes d)" "gn_env_id node = env" "gn_entity_id node = Some i"
    and k: "keep \<in> set (graph_nodes d)" "gn_env_id keep = env" "gn_entity_id keep = Some keep_id" and ne: "i \<noteq> keep_id"
  shows "\<exists>nodes rows. merge_node now env keep node d = Inr (d\<lparr>graph_nodes := nodes, relation_rows := rows\<rparr>) \<and>
    nodes = delete_where (\<lambda>x. gn_id x = gn_id node) (graph_nodes d) \<and>
    graph_ok (d\<lparr>graph_nodes := nodes, relation_rows := rows\<rparr>) \<and>
    graph_edges (d\<lparr>graph_nodes := nodes, relation_rows := rows\<rparr>) = merge_edge keep_id {i} ` graph_edges d"
proof -
  have ids: "gn_id node \<noteq> gn_id keep" using node_by_id [OF g n(1) k(1)] n(3) k(3) ne by auto
  obtain rows where run: "merge_node now env keep node d =
      Inr (d\<lparr>graph_nodes := delete_where (\<lambda>x. gn_id x = gn_id node) (graph_nodes d), relation_rows := rows\<rparr>)"
    and bwd: "\<And>r'. r' \<in> set rows \<Longrightarrow> \<exists>r \<in> set (relation_rows d). r_id r' = r_id r \<and> r_env_id r' = r_env_id r \<and> relation_key r' = new_key (gn_id node) (gn_id keep) r"
    and fwd: "\<And>r. r \<in> set (relation_rows d) \<Longrightarrow> \<exists>r' \<in> set rows. relation_key r' = new_key (gn_id node) (gn_id keep) r"
    and dist: "distinct (map r_id rows)" "distinct (map relation_key rows)" 
  proof (rule merge_node_spec [where now = now, OF g n(1,2) k(1,2) ids], goal_cases)
    case (1 rows)
    show ?case by (rule that [of rows]) (simp_all only: 1)
  qed
  let ?nodes = "delete_where (\<lambda>x. gn_id x = gn_id node) (graph_nodes d)"
  let ?d = "d\<lparr>graph_nodes := ?nodes, relation_rows := rows\<rparr>"
  have image: "\<exists>y \<in> set ?nodes. gn_id y = repointed (gn_id node) (gn_id keep) (gn_id x) \<and> endpoint y = merge_endpoint keep_id {i} (endpoint x)"
    if x: "x \<in> set (graph_nodes d)" for x
  proof (cases "gn_id x = gn_id node")
    case True
    then have "x = node" using node_by_id [OF g x n(1)] by simp
    then show ?thesis using k(1) ids entity_endpoint [OF g n(1,3)] entity_endpoint [OF g k(1,3)]
      by (intro bexI [of _ keep]) (auto simp: repointed_def merge_endpoint_def)
  next
    case False
    then have "gn_entity_id x \<noteq> Some i" using one_nodeD [OF u x n(1) _ n(3)] by blast
    then have "merge_endpoint keep_id {i} (endpoint x) = endpoint x" by (cases "gn_entity_id x") (auto simp: merge_endpoint_def endpoint_def)
    then show ?thesis using x False by (intro bexI [of _ x]) (auto simp: repointed_def)
  qed
  have nodes_dist: "distinct (map gn_id ?nodes)" using g by (simp add: graph_ok_def delete_where_def distinct_map inj_on_def)
  have edges: "graph_edges ?d = merge_edge keep_id {i} ` graph_edges d"
    unfolding merge_edge_eq [symmetric]
  proof (rule edges_image [OF g, of ?d "repointed (gn_id node) (gn_id keep)"])
    show "distinct (map gn_id (graph_nodes ?d))" using nodes_dist by simp
  next
    fix r' assume "r' \<in> set (relation_rows ?d)"
    then show "\<exists>r \<in> set (relation_rows d). relation_key r' = (repointed (gn_id node) (gn_id keep) (r_src_node_id r), repointed (gn_id node) (gn_id keep) (r_dst_node_id r), r_type r)"
      using bwd [of r'] by (auto simp: new_key_def)
  next
    fix r assume "r \<in> set (relation_rows d)"
    then show "\<exists>r' \<in> set (relation_rows ?d). relation_key r' = (repointed (gn_id node) (gn_id keep) (r_src_node_id r), repointed (gn_id node) (gn_id keep) (r_dst_node_id r), r_type r)"
      using fwd [of r] by (auto simp: new_key_def)
  qed (use image in simp)
  have env: "has_node ?d (repointed (gn_id node) (gn_id keep) j) e" if h: "has_node d j e" for j e
  proof -
    obtain x where x: "x \<in> set (graph_nodes d)" "gn_id x = j" "gn_env_id x = e" using h by (auto simp: has_node_def)
    show ?thesis
    proof (cases "j = gn_id node")
      case True
      then have "e = env" using node_by_id [OF g x(1) n(1)] x n(2) by simp
      then show ?thesis using True k ids by (auto simp: has_node_def repointed_def)
    next
      case False
      then show ?thesis using x by (auto simp: has_node_def repointed_def)
    qed
  qed
  have ok: "graph_ok ?d"
  proof -
    have ends: "has_node ?d (r_src_node_id r') (r_env_id r') \<and> has_node ?d (r_dst_node_id r') (r_env_id r')" if h: "r' \<in> set rows" for r'
    proof -
      obtain r where r: "r \<in> set (relation_rows d)" "r_env_id r' = r_env_id r" "relation_key r' = new_key (gn_id node) (gn_id keep) r" using bwd [OF h] by blast
      have "has_node d (r_src_node_id r) (r_env_id r)" "has_node d (r_dst_node_id r) (r_env_id r)" using g r(1) by (auto simp: graph_ok_def)
      then show ?thesis using env r(2,3) by (simp add: new_key_def relation_key_def)
    qed
    have key: "relation_key = (\<lambda>r. (r_src_node_id r, r_dst_node_id r, r_type r))" by (rule ext) (simp add: relation_key_def)
    show ?thesis using g nodes_dist dist(1) dist(2) [unfolded key] ends by (auto simp: graph_ok_def)
  qed
  show ?thesis using run ok edges by blast
qed

subsection \<open>The loop over the merged entities\<close>

definition keep_ok :: "uuid \<Rightarrow> uuid \<Rightarrow> graph_node option \<Rightarrow> db \<Rightarrow> bool" where
  "keep_ok env keep_id kn d \<longleftrightarrow> (case kn of
     None \<Rightarrow> (\<forall>n \<in> set (graph_nodes d). gn_entity_id n \<noteq> Some keep_id)
   | Some k \<Rightarrow> k \<in> set (graph_nodes d) \<and> gn_entity_id k = Some keep_id \<and> gn_env_id k = env)"

definition merge_ready :: "uuid \<Rightarrow> uuid \<Rightarrow> uuid list \<Rightarrow> graph_node option \<Rightarrow> db \<Rightarrow> bool" where
  "merge_ready env keep_id ids kn d \<longleftrightarrow> graph_ok d \<and> one_node_per_entity d \<and> keep_ok env keep_id kn d \<and> keep_id \<notin> set ids \<and>
     (\<forall>n \<in> set (graph_nodes d). \<forall>i \<in> set ids. gn_entity_id n = Some i \<longrightarrow> gn_env_id n = env)"

lemma entity_node_SomeD: "entity_node i d = Some n \<Longrightarrow> n \<in> set (graph_nodes d) \<and> gn_entity_id n = Some i"
  by (auto simp: entity_node_def find_Some_iff)

lemma entity_node_NoneD: "entity_node i d = None \<Longrightarrow> n \<in> set (graph_nodes d) \<Longrightarrow> gn_entity_id n \<noteq> Some i"
  by (auto simp: entity_node_def find_None_iff)

lemma edges_without_node:
  assumes "\<forall>n \<in> set (graph_nodes d). gn_entity_id n \<noteq> Some i"
  shows "merge_edge keep {i} ` graph_edges d = graph_edges d"
proof -
  have "merge_edge keep {i} e = e" if h: "e \<in> graph_edges d" for e
  proof -
    obtain s r t where e: "e = (endpoint s, r_type r, endpoint t)" "r \<in> set (relation_rows d)" and st: "s \<in> set (graph_nodes d)" "t \<in> set (graph_nodes d)"
      using h unfolding graph_edges_def mem_Collect_eq by blast
    then show ?thesis using assms
      by (cases "gn_entity_id s"; cases "gn_entity_id t") (auto simp: merge_edge_def merge_endpoint_def endpoint_def)
  qed
  then show ?thesis by (simp add: image_def)
qed

lemma adopt_node_edges:
  assumes g: "graph_ok d" and u: "one_node_per_entity d" and n: "node \<in> set (graph_nodes d)" "gn_entity_id node = Some i"
    and none: "\<forall>n \<in> set (graph_nodes d). gn_entity_id n \<noteq> Some keep_id"
    and d1: "d1 = d\<lparr>graph_nodes := update_where (\<lambda>n. gn_id n = gn_id node) (\<lambda>n. n\<lparr>gn_entity_id := Some keep_id\<rparr>) (graph_nodes d)\<rparr>"
  shows "graph_ok d1 \<and> one_node_per_entity d1 \<and> graph_edges d1 = merge_edge keep_id {i} ` graph_edges d"
proof -
  let ?f = "\<lambda>n. if gn_id n = gn_id node then n\<lparr>gn_entity_id := Some keep_id\<rparr> else n"
  have nodes: "graph_nodes d1 = map ?f (graph_nodes d)" by (simp add: d1 update_where_def)
  have rows: "relation_rows d1 = relation_rows d" by (simp add: d1)
  have ids: "map gn_id (graph_nodes d1) = map gn_id (graph_nodes d)" by (simp add: nodes)
  have same: "x = node" if h: "x \<in> set (graph_nodes d)" "gn_id x = gn_id node" for x using node_by_id [OF g h(1) n(1) h(2)] .
  have shape: "node_shape (?f x)" if h: "x \<in> set (graph_nodes d)" for x
    using g h same [OF h] n by (auto simp: graph_ok_def node_shape_def)
  have has: "has_node d1 j e = has_node d j e" for j e unfolding has_node_def nodes set_map bex_simps by (auto intro!: bex_cong)
  have "distinct (map gn_id (graph_nodes d1))" using g unfolding ids by (simp add: graph_ok_def)
  moreover have "\<forall>n \<in> set (graph_nodes d1). node_shape n" using shape unfolding nodes set_map by blast
  ultimately have ok: "graph_ok d1" using g unfolding graph_ok_def has rows by blast
  have one: "one_node_per_entity d1" unfolding one_node_per_entity_def
  proof (intro ballI impI)
    fix y z assume yz: "y \<in> set (graph_nodes d1)" "z \<in> set (graph_nodes d1)" "gn_entity_id y \<noteq> None \<and> gn_entity_id y = gn_entity_id z"
    obtain a where a: "a \<in> set (graph_nodes d)" "y = ?f a" using yz(1) unfolding nodes set_map by blast
    obtain b where b: "b \<in> set (graph_nodes d)" "z = ?f b" using yz(2) unfolding nodes set_map by blast
    show "y = z"
    proof (cases "gn_id a = gn_id node"; cases "gn_id b = gn_id node")
      assume ab: "gn_id a = gn_id node" "gn_id b = gn_id node"
      show ?thesis using same [OF a(1) ab(1)] same [OF b(1) ab(2)] a(2) b(2) by simp
    next
      assume "gn_id a = gn_id node" "gn_id b \<noteq> gn_id node"
      then show ?thesis using a b yz(3) none by auto
    next
      assume "gn_id a \<noteq> gn_id node" "gn_id b = gn_id node"
      then show ?thesis using a b yz(3) none by auto
    next
      assume "gn_id a \<noteq> gn_id node" "gn_id b \<noteq> gn_id node"
      then show ?thesis using a b yz(3) u unfolding one_node_per_entity_def by auto
    qed
  qed
  have "graph_edges d1 = (\<lambda>e. (merge_endpoint keep_id {i} (fst e), fst (snd e), merge_endpoint keep_id {i} (snd (snd e)))) ` graph_edges d"
  proof (rule edges_image [OF g, of d1 id])
    show "distinct (map gn_id (graph_nodes d1))" using g unfolding ids by (simp add: graph_ok_def)
  next
    fix x assume x: "x \<in> set (graph_nodes d)"
    have "endpoint (?f x) = merge_endpoint keep_id {i} (endpoint x)"
    proof (cases "gn_id x = gn_id node")
      case True
      then show ?thesis using same [OF x True] n(2) by (simp add: endpoint_def merge_endpoint_def)
    next
      case False
      then have "gn_entity_id x \<noteq> Some i" using one_nodeD [OF u x n(1) _ n(2)] by blast
      then show ?thesis using False by (cases "gn_entity_id x") (auto simp: merge_endpoint_def endpoint_def)
    qed
    then show "\<exists>y \<in> set (graph_nodes d1). gn_id y = id (gn_id x) \<and> endpoint y = merge_endpoint keep_id {i} (endpoint x)"
      unfolding nodes using x by (intro bexI [of _ "?f x"]) auto
  qed (auto simp: rows relation_key_def)
  then show ?thesis using ok one unfolding merge_edge_eq by simp
qed

text \<open>One round of the loop, whichever branch it takes.\<close>

lemma merge_round:
  assumes ready: "merge_ready env keep_id (i # is) kn d"
  obtains kn1 nodes1 rows1 where
    "merge_entity_graph_nodes now env keep_id (i # is) kn d =
       merge_entity_graph_nodes now env keep_id is kn1 (d\<lparr>graph_nodes := nodes1, relation_rows := rows1\<rparr>)"
    "merge_ready env keep_id is kn1 (d\<lparr>graph_nodes := nodes1, relation_rows := rows1\<rparr>)"
    "graph_edges (d\<lparr>graph_nodes := nodes1, relation_rows := rows1\<rparr>) = merge_edge keep_id {i} ` graph_edges d"
    "\<forall>n \<in> set nodes1. gn_entity_id n \<noteq> Some i \<and> (gn_entity_id n = Some keep_id \<and> gn_env_id n = env \<or> n \<in> set (graph_nodes d))"
proof -
  have g: "graph_ok d" and u: "one_node_per_entity d" and k: "keep_ok env keep_id kn d" and ne: "i \<noteq> keep_id" "keep_id \<notin> set is"
    and envs: "\<And>n j. n \<in> set (graph_nodes d) \<Longrightarrow> j \<in> set (i # is) \<Longrightarrow> gn_entity_id n = Some j \<Longrightarrow> gn_env_id n = env"
    using ready by (auto simp: merge_ready_def)
  show thesis
  proof (cases "entity_node i d")
    case None
    have no: "\<forall>n \<in> set (graph_nodes d). gn_entity_id n \<noteq> Some i" using entity_node_NoneD [OF None] by blast
    show thesis
    proof (rule that [of kn "relation_rows d" "graph_nodes d"])
      show "merge_ready env keep_id is kn (d\<lparr>graph_nodes := graph_nodes d, relation_rows := relation_rows d\<rparr>)"
        using ready by (auto simp: merge_ready_def)
    qed (use None no edges_without_node [OF no] in auto)
  next
    case (Some node)
    have n: "node \<in> set (graph_nodes d)" "gn_entity_id node = Some i" using entity_node_SomeD [OF Some] by auto
    have ne_env: "gn_env_id node = env" using envs [OF n(1) _ n(2)] by simp
    show thesis
    proof (cases kn)
      case None
      let ?nodes = "update_where (\<lambda>n. gn_id n = gn_id node) (\<lambda>n. n\<lparr>gn_entity_id := Some keep_id\<rparr>) (graph_nodes d)"
      let ?d = "d\<lparr>graph_nodes := ?nodes, relation_rows := relation_rows d\<rparr>"
      have none: "\<forall>n \<in> set (graph_nodes d). gn_entity_id n \<noteq> Some keep_id" using k None by (simp add: keep_ok_def)
      have adopt: "graph_ok ?d \<and> one_node_per_entity ?d \<and> graph_edges ?d = merge_edge keep_id {i} ` graph_edges d"
        by (rule adopt_node_edges [OF g u n none]) simp
      have from_old: "y \<in> set (graph_nodes d) \<and> gn_id y \<noteq> gn_id node \<or> y = node\<lparr>gn_entity_id := Some keep_id\<rparr>" if h: "y \<in> set ?nodes" for y
      proof -
        obtain a where "a \<in> set (graph_nodes d)" "y = (if gn_id a = gn_id node then a\<lparr>gn_entity_id := Some keep_id\<rparr> else a)"
          using h unfolding update_where_def set_map by blast
        then show ?thesis using node_by_id [OF g _ n(1)] by (cases "gn_id a = gn_id node") auto
      qed
      have mem: "node\<lparr>gn_entity_id := Some keep_id\<rparr> \<in> set ?nodes" unfolding update_where_def set_map by (rule image_eqI [OF _ n(1)]) simp
      have new_envs: "gn_env_id y = env" if h: "y \<in> set ?nodes" "j \<in> set is" "gn_entity_id y = Some j" for y j
        using from_old [OF h(1)] envs [of y j] h(2,3) ne(2) by auto
      show thesis
      proof (rule that [of "Some (node\<lparr>gn_entity_id := Some keep_id\<rparr>)" "relation_rows d" ?nodes])
        show "merge_ready env keep_id is (Some (node\<lparr>gn_entity_id := Some keep_id\<rparr>)) ?d"
          unfolding merge_ready_def using adopt mem ne ne_env new_envs by (simp add: keep_ok_def)
        show "\<forall>y \<in> set ?nodes. gn_entity_id y \<noteq> Some i \<and> (gn_entity_id y = Some keep_id \<and> gn_env_id y = env \<or> y \<in> set (graph_nodes d))"
          using from_old ne ne_env one_nodeD [OF u _ n(1) _ n(2)] by fastforce
      qed (use Some None adopt in simp_all)
    next
      case (Some kp)
      have kp: "kp \<in> set (graph_nodes d)" "gn_env_id kp = env" "gn_entity_id kp = Some keep_id" using k Some by (auto simp: keep_ok_def)
      obtain nodes rows where m: "merge_node now env kp node d = Inr (d\<lparr>graph_nodes := nodes, relation_rows := rows\<rparr>)"
        "nodes = delete_where (\<lambda>x. gn_id x = gn_id node) (graph_nodes d)"
        "graph_ok (d\<lparr>graph_nodes := nodes, relation_rows := rows\<rparr>)"
        "graph_edges (d\<lparr>graph_nodes := nodes, relation_rows := rows\<rparr>) = merge_edge keep_id {i} ` graph_edges d"
        using merge_node_edges [OF g u n(1) ne_env n(2) kp ne(1), of now] by blast
      have sub: "y \<in> set (graph_nodes d) \<and> gn_id y \<noteq> gn_id node" if h: "y \<in> set nodes" for y using h m(2) by simp
      have "gn_id kp \<noteq> gn_id node" using node_by_id [OF g kp(1) n(1)] kp(3) n(2) ne(1) by auto
      have new_envs: "gn_env_id y = env" if h: "y \<in> set nodes" "j \<in> set is" "gn_entity_id y = Some j" for y j
        using sub [OF h(1)] envs [of y j] h(2,3) by simp
      have new_one: "one_node_per_entity (d\<lparr>graph_nodes := nodes, relation_rows := rows\<rparr>)"
        using u sub unfolding one_node_per_entity_def by (simp, blast)
      from \<open>gn_id kp \<noteq> gn_id node\<close> have mem: "kp \<in> set nodes" using kp(1) m(2) by simp
      show thesis
      proof (rule that [of kn rows nodes])
        show "merge_ready env keep_id is kn (d\<lparr>graph_nodes := nodes, relation_rows := rows\<rparr>)"
          unfolding merge_ready_def keep_ok_def using m(3) new_one mem kp ne(2) new_envs Some by simp
        show "\<forall>y \<in> set nodes. gn_entity_id y \<noteq> Some i \<and> (gn_entity_id y = Some keep_id \<and> gn_env_id y = env \<or> y \<in> set (graph_nodes d))"
          using sub one_nodeD [OF u _ n(1) _ n(2)] by blast
      qed (use \<open>entity_node i d = Some node\<close> Some m(1,4) in simp_all)
    qed
  qed
qed

lemma merge_nodes_edges:
  assumes "merge_ready env keep_id ids kn d"
  shows "\<exists>nodes rows. merge_entity_graph_nodes now env keep_id ids kn d = Inr (d\<lparr>graph_nodes := nodes, relation_rows := rows\<rparr>) \<and>
    graph_ok (d\<lparr>graph_nodes := nodes, relation_rows := rows\<rparr>) \<and> one_node_per_entity (d\<lparr>graph_nodes := nodes, relation_rows := rows\<rparr>) \<and>
    graph_edges (d\<lparr>graph_nodes := nodes, relation_rows := rows\<rparr>) = merge_edge keep_id (set ids) ` graph_edges d \<and>
    (\<forall>n \<in> set nodes. (\<forall>i \<in> set ids. gn_entity_id n \<noteq> Some i) \<and> (gn_entity_id n = Some keep_id \<and> gn_env_id n = env \<or> n \<in> set (graph_nodes d)))"
  using assms
proof (induction ids arbitrary: kn d)
  case Nil
  then show ?case
    by (intro exI [of _ "graph_nodes d"] exI [of _ "relation_rows d"]) (auto simp: merge_edge_none merge_ready_def)
next
  case (Cons i "is")
  have ne: "keep_id \<notin> set is" "keep_id \<noteq> i" using Cons.prems by (auto simp: merge_ready_def)
  obtain kn1 nodes1 rows1 where r: "merge_entity_graph_nodes now env keep_id (i # is) kn d =
       merge_entity_graph_nodes now env keep_id is kn1 (d\<lparr>graph_nodes := nodes1, relation_rows := rows1\<rparr>)"
    "merge_ready env keep_id is kn1 (d\<lparr>graph_nodes := nodes1, relation_rows := rows1\<rparr>)"
    "graph_edges (d\<lparr>graph_nodes := nodes1, relation_rows := rows1\<rparr>) = merge_edge keep_id {i} ` graph_edges d"
    "\<forall>n \<in> set nodes1. gn_entity_id n \<noteq> Some i \<and> (gn_entity_id n = Some keep_id \<and> gn_env_id n = env \<or> n \<in> set (graph_nodes d))"
    by (rule merge_round [OF Cons.prems])
  obtain nodes rows where s: "merge_entity_graph_nodes now env keep_id is kn1 (d\<lparr>graph_nodes := nodes1, relation_rows := rows1\<rparr>) =
      Inr (d\<lparr>graph_nodes := nodes, relation_rows := rows\<rparr>)"
    "graph_ok (d\<lparr>graph_nodes := nodes, relation_rows := rows\<rparr>)" "one_node_per_entity (d\<lparr>graph_nodes := nodes, relation_rows := rows\<rparr>)"
    "graph_edges (d\<lparr>graph_nodes := nodes, relation_rows := rows\<rparr>) =
       merge_edge keep_id (set is) ` graph_edges (d\<lparr>graph_nodes := nodes1, relation_rows := rows1\<rparr>)"
    "\<forall>n \<in> set nodes. (\<forall>i \<in> set is. gn_entity_id n \<noteq> Some i) \<and> (gn_entity_id n = Some keep_id \<and> gn_env_id n = env \<or> n \<in> set nodes1)"
    using Cons.IH [OF r(2)] by auto
  have "merge_edge keep_id (set is) ` merge_edge keep_id {i} ` graph_edges d = merge_edge keep_id (set (i # is)) ` graph_edges d"
    by (simp add: image_comp o_def merge_edge_compose [OF ne(1)])
  moreover have "\<forall>n \<in> set nodes. (\<forall>j \<in> set (i # is). gn_entity_id n \<noteq> Some j) \<and> (gn_entity_id n = Some keep_id \<and> gn_env_id n = env \<or> n \<in> set (graph_nodes d))"
    using s(5) r(4) ne(2) by (metis list.set_intros(1) option.inject set_ConsD)
  ultimately show ?case using r(1,3) s by metis
qed

end
