(* ===== verification/EntityProps.thy ===== *)
theory EntityProps
  imports EntityMerge
begin

text \<open>
  Properties of the entity registry: its well-formedness under upserts and merges, idempotence of the upsert,
  resolution by any spelling, and what a merge does to names, relations and the outbox.
\<close>

subsection \<open>A well-formed registry\<close>

definition alias_ok :: "text_services \<Rightarrow> db \<Rightarrow> entity_alias \<Rightarrow> bool" where
  "alias_ok tx d a \<longleftrightarrow> ea_normalized_alias a = normalize_name tx (ea_alias a) \<and>
     (\<exists>e \<in> set (entities d). e_id e = ea_entity_id a \<and> e_env_id e = ea_env_id a \<and> e_normalized_name e \<noteq> ea_normalized_alias a)"

definition entities_ok :: "text_services \<Rightarrow> db \<Rightarrow> bool" where
  "entities_ok tx d \<longleftrightarrow> distinct (map e_id (entities d)) \<and>
     distinct (map (\<lambda>e. (e_env_id e, e_normalized_name e)) (entities d)) \<and>
     (\<forall>e \<in> set (entities d). e_normalized_name e = normalize_name tx (e_canonical_name e) \<and> 1 \<le> e_version e \<and> env_exists d (e_env_id e)) \<and>
     distinct (map (\<lambda>a. (ea_env_id a, ea_normalized_alias a)) (entity_aliases d)) \<and>
     (\<forall>a \<in> set (entity_aliases d). alias_ok tx d a)"

definition nodes_named :: "db \<Rightarrow> bool" where
  "nodes_named d \<longleftrightarrow> (\<forall>n \<in> set (graph_nodes d). \<forall>i. gn_entity_id n = Some i \<longrightarrow> (\<exists>e \<in> set (entities d). e_id e = i \<and> e_env_id e = gn_env_id n))"

definition registry_ok :: "text_services \<Rightarrow> db \<Rightarrow> bool" where
  "registry_ok tx d \<longleftrightarrow> entities_ok tx d \<and> graph_ok d \<and> one_node_per_entity d \<and> nodes_named d"

lemma entity_by_id: "entities_ok tx d \<Longrightarrow> e \<in> set (entities d) \<Longrightarrow> e' \<in> set (entities d) \<Longrightarrow> e_id e = e_id e' \<Longrightarrow> e = e'"
  by (auto simp: entities_ok_def distinct_map inj_on_def)

lemma entity_by_name: "entities_ok tx d \<Longrightarrow> e \<in> set (entities d) \<Longrightarrow> e' \<in> set (entities d) \<Longrightarrow> e_env_id e = e_env_id e' \<Longrightarrow>
    e_normalized_name e = e_normalized_name e' \<Longrightarrow> e = e'"
  by (auto simp: entities_ok_def distinct_map inj_on_def)

lemma alias_by_name: "entities_ok tx d \<Longrightarrow> a \<in> set (entity_aliases d) \<Longrightarrow> b \<in> set (entity_aliases d) \<Longrightarrow> ea_env_id a = ea_env_id b \<Longrightarrow>
    ea_normalized_alias a = ea_normalized_alias b \<Longrightarrow> a = b"
  by (auto simp: entities_ok_def distinct_map inj_on_def)

lemma entity_lookup: "entities_ok tx d \<Longrightarrow> e \<in> set (entities d) \<Longrightarrow> lookup e_id (e_id e) (entities d) = Some e"
  by (simp add: entities_ok_def distinct_lookup)

lemma one_node_frame: "graph_nodes d' = graph_nodes d \<Longrightarrow> one_node_per_entity d' = one_node_per_entity d"
  by (simp only: one_node_per_entity_def)

text \<open>The tables of the registry, and what leaves them alone.\<close>

lemma registry_frame:
  assumes "entities d' = entities d" "entity_aliases d' = entity_aliases d" "environments d' = environments d"
    "graph_nodes d' = graph_nodes d" "relation_rows d' = relation_rows d"
  shows "entities_ok tx d' = entities_ok tx d" "registry_ok tx d' = registry_ok tx d" "graph_edges d' = graph_edges d" "named d' = named d"
    "load_aliases tx d' = load_aliases tx d"
  using assms graph_frame [of d' d]
  by (auto simp: entities_ok_def alias_ok_def env_exists_def registry_ok_def nodes_named_def one_node_per_entity_def graph_edges_def
      named_def has_alias_def load_aliases_def fun_eq_iff)

lemma enqueue_entity_frame:
  assumes "enqueue_entity st now i v env op p d = Inr d'"
  shows "entities d' = entities d \<and> entity_aliases d' = entity_aliases d \<and> environments d' = environments d \<and>
    graph_nodes d' = graph_nodes d \<and> relation_rows d' = relation_rows d \<and> audit_log d' = audit_log d"
  using assms by (auto simp: enqueue_entity_def res_simps dest: enqueue_frame)

lemma audit_frame:
  "entities (record_entity_audit op i env agent b a d) = entities d" "entity_aliases (record_entity_audit op i env agent b a d) = entity_aliases d"
  "environments (record_entity_audit op i env agent b a d) = environments d" "graph_nodes (record_entity_audit op i env agent b a d) = graph_nodes d"
  "relation_rows (record_entity_audit op i env agent b a d) = relation_rows d" "outbox (record_entity_audit op i env agent b a d) = outbox d"
  by (simp_all add: record_entity_audit_def)

lemma audit_upsert_frame:
  "entities (audit_upsert env agent e al c emit d) = entities d" "entity_aliases (audit_upsert env agent e al c emit d) = entity_aliases d"
  "environments (audit_upsert env agent e al c emit d) = environments d" "graph_nodes (audit_upsert env agent e al c emit d) = graph_nodes d"
  "relation_rows (audit_upsert env agent e al c emit d) = relation_rows d"
  by (simp_all add: audit_upsert_def audit_frame Let_def)

subsection \<open>Aliases\<close>

lemma insert_alias_cases:
  assumes "insert_alias a d = Inr d'"
  obtains (held) b where "d' = d" "b \<in> set (entity_aliases d)" "ea_entity_id b = ea_entity_id a" "ea_normalized_alias b = ea_normalized_alias a"
  | (added) "d' = d\<lparr>entity_aliases := entity_aliases d @ [a]\<rparr>"
      "\<forall>b \<in> set (entity_aliases d). \<not> (ea_env_id b = ea_env_id a \<and> ea_normalized_alias b = ea_normalized_alias a)"
      "\<exists>e \<in> set (entities d). e_id e = ea_entity_id a \<and> e_env_id e = ea_env_id a"
  using assms by (auto simp: insert_alias_def list_ex_iff split: if_splits)

lemma add_alias_ok:
  assumes ok: "entities_ok tx d" and fresh: "\<forall>b \<in> set (entity_aliases d). \<not> (ea_env_id b = ea_env_id a \<and> ea_normalized_alias b = ea_normalized_alias a)"
    and a: "alias_ok tx d a"
  shows "entities_ok tx (d\<lparr>entity_aliases := entity_aliases d @ [a]\<rparr>)"
proof -
  let ?d = "d\<lparr>entity_aliases := entity_aliases d @ [a]\<rparr>"
  have "alias_ok tx ?d b = alias_ok tx d b" for b by (simp add: alias_ok_def)
  moreover have "env_exists ?d e = env_exists d e" for e by (simp add: env_exists_def)
  moreover have "(ea_env_id a, ea_normalized_alias a) \<notin> (\<lambda>a. (ea_env_id a, ea_normalized_alias a)) ` set (entity_aliases d)" using fresh by auto
  ultimately show ?thesis using ok a by (simp add: entities_ok_def)
qed

lemma insert_aliases_ok:
  assumes "insert_aliases tx i env c al d = Inr d'" "entities_ok tx d" "\<And>e. e \<in> set (entities d) \<Longrightarrow> e_id e = i \<Longrightarrow> e_normalized_name e = c"
  shows "entities_ok tx d' \<and> (\<exists>xs. d' = d\<lparr>entity_aliases := entity_aliases d @ xs\<rparr>) \<and>
    (\<forall>x \<in> set al. normalize_name tx x \<noteq> c \<longrightarrow> (\<exists>a \<in> set (entity_aliases d'). ea_entity_id a = i \<and> ea_normalized_alias a = normalize_name tx x))"
  using assms
proof (induction al arbitrary: d)
  case Nil
  then have "d' = d\<lparr>entity_aliases := entity_aliases d @ []\<rparr>" by simp
  then show ?case using Nil by (metis list.set(1) empty_iff insert_aliases.simps(1) sum.inject(2))
next
  case (Cons x al)
  let ?a = "\<lparr>ea_entity_id = i, ea_env_id = env, ea_alias = x, ea_normalized_alias = normalize_name tx x\<rparr>"
  show ?case
  proof (cases "normalize_name tx x = c")
    case True
    then show ?thesis using Cons by simp
  next
    case False
    then obtain d1 where d1: "insert_alias ?a d = Inr d1" "insert_aliases tx i env c al d1 = Inr d'" using Cons.prems(1) by (auto simp: res_simps)
    have step: "entities_ok tx d1 \<and> (\<exists>xs. d1 = d\<lparr>entity_aliases := entity_aliases d @ xs\<rparr>) \<and>
        (\<exists>a \<in> set (entity_aliases d1). ea_entity_id a = i \<and> ea_normalized_alias a = normalize_name tx x)"
      using d1(1)
    proof (cases rule: insert_alias_cases)
      case (held b)
      have "\<exists>xs. d1 = d\<lparr>entity_aliases := entity_aliases d @ xs\<rparr>" using held(1) by (intro exI [of _ "[]"]) simp
      then show ?thesis using held Cons.prems(2) by auto
    next
      case added
      have "alias_ok tx d ?a" using added(3) Cons.prems(3) False by (auto simp: alias_ok_def)
      then show ?thesis using added add_alias_ok [OF Cons.prems(2), of ?a] by auto
    qed
    then obtain xs where xs: "d1 = d\<lparr>entity_aliases := entity_aliases d @ xs\<rparr>" by blast
    then have "entities d1 = entities d" by simp
    then have rest: "entities_ok tx d' \<and> (\<exists>ys. d' = d1\<lparr>entity_aliases := entity_aliases d1 @ ys\<rparr>) \<and>
        (\<forall>y \<in> set al. normalize_name tx y \<noteq> c \<longrightarrow> (\<exists>a \<in> set (entity_aliases d'). ea_entity_id a = i \<and> ea_normalized_alias a = normalize_name tx y))"
      using Cons.IH [OF d1(2)] step Cons.prems(3) by simp
    then obtain ys where ys: "d' = d1\<lparr>entity_aliases := entity_aliases d1 @ ys\<rparr>" by blast
    have "d' = d\<lparr>entity_aliases := entity_aliases d @ (xs @ ys)\<rparr>" using xs ys by simp
    moreover have "set (entity_aliases d1) \<subseteq> set (entity_aliases d')" using ys by auto
    ultimately show ?thesis using rest step by auto
  qed
qed

subsection \<open>Upserts\<close>

definition same_names :: "db \<Rightarrow> db \<Rightarrow> bool" where
  "same_names d0 d \<longleftrightarrow> (\<forall>e0 \<in> set (entities d0). \<forall>e \<in> set (entities d). e_id e0 = e_id e \<longrightarrow>
     e_env_id e0 = e_env_id e \<and> e_normalized_name e0 = e_normalized_name e)"

lemma same_names_refl: "entities_ok tx d \<Longrightarrow> same_names d d"
  by (auto simp: same_names_def dest: entity_by_id)

lemma entity_update_row_cases:
  assumes "entity_update_row i v f d = (d', n)" "n \<noteq> 0"
  obtains e where "lookup e_id i (entities d) = Some e" "e_version e = v" "d' = d\<lparr>entities := update_where (\<lambda>r. e_id r = i) f (entities d)\<rparr>"
  using assms by (auto simp: entity_update_row_def split: option.splits if_splits)

lemma upsert_entity_row_cases:
  assumes "upsert_entity_row now env normalized req d0 d = Inr (d1, e, is_create, emit)"
  obtains (created) "e = new_entity (next_uuid d) env req normalized now" "insert_entity e (draw_uuid d) = Inr d1" "is_create" "emit = Some OP_upsert"
      "\<forall>r \<in> set (entities d0). \<not> (e_env_id r = env \<and> e_normalized_name r = normalized)"
  | (same) "e \<in> set (entities d0)" "e_env_id e = env" "e_normalized_name e = normalized" "e_kind e = eu_kind req" "e_canonical_name e = eu_canonical_name req"
      "e_metadata e = eu_metadata req" "d1 = d" "\<not> is_create" "emit = None"
  | (revised) e0 r where "e0 \<in> set (entities d0)" "e_env_id e0 = env" "e_normalized_name e0 = normalized" "e = revised_entity req now e0"
      "lookup e_id (e_id e0) (entities d) = Some r" "e_version r = e_version e0"
      "d1 = d\<lparr>entities := update_where (\<lambda>x. e_id x = e_id e0) (revised_entity req now) (entities d)\<rparr>" "\<not> is_create" "emit = Some OP_update"
proof (cases "find (\<lambda>e. e_env_id e = env \<and> e_normalized_name e = normalized) (entities d0)")
  case None
  have no: "\<forall>r \<in> set (entities d0). \<not> (e_env_id r = env \<and> e_normalized_name r = normalized)" using None by (auto simp: find_None_iff)
  have "insert_entity e (draw_uuid d) = Inr d1 \<and>
      e = new_entity (next_uuid d) env req normalized now \<and> is_create \<and> emit = Some OP_upsert"
    using assms unfolding upsert_entity_row_def None by (auto simp: res_simps Let_def)
  then show thesis using created [OF _ _ _ _ no] by blast
next
  case (Some e0)
  have e0: "e0 \<in> set (entities d0)" "e_env_id e0 = env" "e_normalized_name e0 = normalized" using find_SomeD [OF Some] by auto
  show thesis
  proof (cases "e_kind e0 = eu_kind req \<and> e_canonical_name e0 = eu_canonical_name req \<and> e_metadata e0 = eu_metadata req")
    case True
    have "d1 = d \<and> e = e0 \<and> \<not> is_create \<and> emit = None" using assms True unfolding upsert_entity_row_def Some by (simp add: res_simps)
    then show thesis using same e0 True by blast
  next
    case False
    obtain d2 n where u: "entity_update_row (e_id e0) (e_version e0) (revised_entity req now) d = (d2, n)" by fastforce
    have "n \<noteq> 0" "d2 = d1" "e = revised_entity req now e0" "\<not> is_create" "emit = Some OP_update"
      using assms False u unfolding upsert_entity_row_def Some by (auto simp: res_simps split: if_splits)
    then obtain r where "lookup e_id (e_id e0) (entities d) = Some r" "e_version r = e_version e0"
        "d1 = d\<lparr>entities := update_where (\<lambda>x. e_id x = e_id e0) (revised_entity req now) (entities d)\<rparr>"
      using entity_update_row_cases [OF u] by blast
    then show thesis using revised [OF e0] \<open>e = revised_entity req now e0\<close> \<open>\<not> is_create\<close> \<open>emit = Some OP_update\<close> by blast
  qed
qed

lemma insert_entity_cases:
  assumes "insert_entity e d = Inr d'"
  shows "d' = d\<lparr>entities := entities d @ [e]\<rparr> \<and> e_id e \<notin> e_id ` set (entities d) \<and> env_exists d (e_env_id e) \<and>
    (\<forall>r \<in> set (entities d). \<not> (e_env_id r = e_env_id e \<and> e_normalized_name r = e_normalized_name e))"
proof -
  have "\<not> list_ex (\<lambda>r. e_id r = e_id e) (entities d)" "env_exists d (e_env_id e)" "d' = d\<lparr>entities := entities d @ [e]\<rparr>"
    "\<not> list_ex (\<lambda>r. e_env_id r = e_env_id e \<and> e_normalized_name r = e_normalized_name e) (entities d)"
    using assms unfolding insert_entity_def
    by (cases "list_ex (\<lambda>r. e_id r = e_id e) (entities d)"; cases "env_exists d (e_env_id e)";
        cases "list_ex (\<lambda>r. e_env_id r = e_env_id e \<and> e_normalized_name r = e_normalized_name e) (entities d)"; simp)+
  then show ?thesis unfolding list_ex_iff image_iff by metis
qed

lemma add_entity_ok:
  assumes ok: "entities_ok tx d" and new: "e_id e \<notin> e_id ` set (entities d)" "env_exists d (e_env_id e)" "e_normalized_name e = normalize_name tx (e_canonical_name e)" "1 \<le> e_version e"
    and fresh: "\<forall>r \<in> set (entities d). \<not> (e_env_id r = e_env_id e \<and> e_normalized_name r = e_normalized_name e)"
  shows "entities_ok tx (d\<lparr>entities := entities d @ [e]\<rparr>)"
proof -
  let ?d = "d\<lparr>entities := entities d @ [e]\<rparr>"
  have "alias_ok tx d b \<Longrightarrow> alias_ok tx ?d b" for b by (auto simp: alias_ok_def)
  moreover have "env_exists ?d i = env_exists d i" for i by (simp add: env_exists_def)
  moreover have "(e_env_id e, e_normalized_name e) \<notin> (\<lambda>e. (e_env_id e, e_normalized_name e)) ` set (entities d)" using fresh by auto
  ultimately show ?thesis using ok new by (simp add: entities_ok_def)
qed

lemma change_entity_ok:
  assumes ok: "entities_ok tx d" and f: "\<And>r. e_id (f r) = e_id r" "\<And>r. e_env_id (f r) = e_env_id r" "\<And>r. e_normalized_name (f r) = e_normalized_name r"
    and new: "\<And>r. r \<in> set (entities d) \<Longrightarrow> e_id r = i \<Longrightarrow> normalize_name tx (e_canonical_name (f r)) = e_normalized_name r \<and> 1 \<le> e_version (f r)"
  shows "entities_ok tx (d\<lparr>entities := update_where (\<lambda>r. e_id r = i) f (entities d)\<rparr>)"
proof -
  let ?d = "d\<lparr>entities := update_where (\<lambda>r. e_id r = i) f (entities d)\<rparr>"
  have "alias_ok tx ?d b = alias_ok tx d b" for b by (auto simp: alias_ok_def bex_update_where f)
  moreover have "env_exists ?d e = env_exists d e" for e by (simp add: env_exists_def)
  moreover have "map e_id (entities ?d) = map e_id (entities d)" by (simp add: f)
  moreover have "map (\<lambda>e. (e_env_id e, e_normalized_name e)) (entities ?d) = map (\<lambda>e. (e_env_id e, e_normalized_name e)) (entities d)" by (simp add: f)
  moreover have old: "\<forall>e \<in> set (entities d). e_normalized_name e = normalize_name tx (e_canonical_name e) \<and> 1 \<le> e_version e \<and> env_exists d (e_env_id e)"
    using ok by (simp add: entities_ok_def)
  moreover have "\<forall>e \<in> set (entities ?d). e_normalized_name e = normalize_name tx (e_canonical_name e) \<and> 1 \<le> e_version e \<and> env_exists d (e_env_id e)"
    using old new by (auto simp: ball_update_where f)
  ultimately show ?thesis using ok unfolding entities_ok_def by simp
qed

lemma entity_upsert_cases:
  assumes "entity_upsert tx st now ctx req d0 d = Inr (d', r)"
  obtains env e is_create emit d1 d2 where "resolve_env_id (eu_env_id req) ctx = Inr env"
    "upsert_entity_row now env (normalize_name tx (eu_canonical_name req)) req d0 d = Inr (d1, e, is_create, emit)"
    "insert_aliases tx (e_id e) env (normalize_name tx (eu_canonical_name req)) (eu_aliases req) d1 = Inr d2"
    "r = entity_to_response e (load_aliases tx d2 (e_id e))"
    "(case emit of None \<Rightarrow> Inr (audit_upsert env (ctx_agent_id ctx) e (load_aliases tx d2 (e_id e)) is_create False d2)
      | Some op \<Rightarrow> enqueue_entity st now (e_id e) (e_version e) env op (entity_payload e (load_aliases tx d2 (e_id e)))
          (audit_upsert env (ctx_agent_id ctx) e (load_aliases tx d2 (e_id e)) is_create True d2)) = Inr d'"
  using assms unfolding entity_upsert_def Let_def
  by (elim bindE_elims) (auto simp: res_simps split: option.splits)

lemma upsert_frame:
  assumes "(case emit of None \<Rightarrow> Inr (audit_upsert env agent e al c False d2)
      | Some op \<Rightarrow> enqueue_entity st now i v env op p (audit_upsert env agent e al c True d2)) = Inr d'"
  shows "entities d' = entities d2 \<and> entity_aliases d' = entity_aliases d2 \<and> environments d' = environments d2 \<and>
    graph_nodes d' = graph_nodes d2 \<and> relation_rows d' = relation_rows d2"
  using assms by (cases emit) (auto simp: audit_upsert_frame dest: enqueue_entity_frame)

text \<open>Entities keep their id and environment.\<close>

definition entities_kept :: "db \<Rightarrow> db \<Rightarrow> bool" where
  "entities_kept d d' \<longleftrightarrow> (\<forall>e \<in> set (entities d). \<exists>e' \<in> set (entities d'). e_id e' = e_id e \<and> e_env_id e' = e_env_id e)"

lemma draw_tables: "entities (draw_uuid d) = entities d" "entity_aliases (draw_uuid d) = entity_aliases d" "environments (draw_uuid d) = environments d"
  "graph_nodes (draw_uuid d) = graph_nodes d" "relation_rows (draw_uuid d) = relation_rows d"
  by (simp_all add: draw_uuid_def)

lemma upsert_row_ok:
  assumes row: "upsert_entity_row now env (normalize_name tx (eu_canonical_name req)) req d0 d = Inr (d1, e, is_create, emit)"
    and ok: "entities_ok tx d0" "entities_ok tx d" "same_names d0 d"
  shows "entities_ok tx d1 \<and> (\<forall>x \<in> set (entities d1). e_id x = e_id e \<longrightarrow> e_env_id x = env \<and> e_normalized_name x = normalize_name tx (eu_canonical_name req)) \<and>
    entities_kept d d1 \<and> entity_aliases d1 = entity_aliases d \<and> environments d1 = environments d \<and> graph_nodes d1 = graph_nodes d \<and> relation_rows d1 = relation_rows d"
  using row
proof (cases rule: upsert_entity_row_cases)
  case created
  note ins = insert_entity_cases [OF created(2)]
  have d1: "d1 = (draw_uuid d)\<lparr>entities := entities (draw_uuid d) @ [e]\<rparr>" using ins by (rule conjunct1)
  have new: "e_id e \<notin> e_id ` set (entities d)" "env_exists (draw_uuid d) (e_env_id e)"
    and fresh: "\<forall>r \<in> set (entities (draw_uuid d)). \<not> (e_env_id r = e_env_id e \<and> e_normalized_name r = e_normalized_name e)"
    using ins unfolding draw_tables by blast+
  have e: "e_env_id e = env" "e_normalized_name e = normalize_name tx (eu_canonical_name req)" "e_canonical_name e = eu_canonical_name req" "1 \<le> e_version e"
    unfolding created(1) new_entity_def by simp_all
  have "entities_ok tx (draw_uuid d)" using ok(2) registry_frame(1) [OF draw_tables] by blast
  then have "entities_ok tx d1" unfolding d1 by (rule add_entity_ok) (use new fresh e in \<open>simp_all only: draw_tables not_False_eq_True\<close>)
  moreover have "\<forall>x \<in> set (entities d1). e_id x = e_id e \<longrightarrow> e_env_id x = env \<and> e_normalized_name x = normalize_name tx (eu_canonical_name req)"
  proof (intro ballI impI)
    fix x assume x: "x \<in> set (entities d1)" "e_id x = e_id e"
    have "x \<notin> set (entities d)" using new(1) x(2) imageI [of x "set (entities d)" e_id] by metis
    then have "x = e" using x(1) unfolding d1 by (simp add: draw_tables)
    then show "e_env_id x = env \<and> e_normalized_name x = normalize_name tx (eu_canonical_name req)" using e by blast
  qed
  moreover have "entities_kept d d1" unfolding entities_kept_def d1 by (intro ballI) (rule bexI, auto simp: draw_tables)
  moreover have "entity_aliases d1 = entity_aliases d \<and> environments d1 = environments d \<and> graph_nodes d1 = graph_nodes d \<and> relation_rows d1 = relation_rows d"
    unfolding d1 by (simp add: draw_tables)
  ultimately show ?thesis by blast
next
  case same
  then show ?thesis using ok by (auto simp: same_names_def entities_kept_def)
next
  case (revised e0 r)
  have fields: "e_id (revised_entity req now x) = e_id x" "e_env_id (revised_entity req now x) = e_env_id x"
    "e_normalized_name (revised_entity req now x) = e_normalized_name x" "e_version (revised_entity req now x) = e_version x + 1"
    "e_canonical_name (revised_entity req now x) = eu_canonical_name req" for x by (simp_all add: revised_entity_def)
  have names: "e_env_id x = env \<and> e_normalized_name x = normalize_name tx (eu_canonical_name req)" if "x \<in> set (entities d)" "e_id x = e_id e0" for x
    using ok(3) revised(1-3) that by (auto simp: same_names_def)
  have "entities_ok tx d1" unfolding revised(7)
  proof (rule change_entity_ok [OF ok(2)])
    fix x assume x: "x \<in> set (entities d)" "e_id x = e_id e0"
    have "1 \<le> e_version x" using ok(2) x(1) by (simp add: entities_ok_def)
    then show "normalize_name tx (e_canonical_name (revised_entity req now x)) = e_normalized_name x \<and> 1 \<le> e_version (revised_entity req now x)"
      using names [OF x] by (simp add: fields)
  qed (simp_all add: fields)
  moreover have "\<forall>x \<in> set (entities d1). e_id x = e_id e \<longrightarrow> e_env_id x = env \<and> e_normalized_name x = normalize_name tx (eu_canonical_name req)"
    using names by (simp add: revised(4,7) ball_update_where fields)
  moreover have ents: "entities d1 = update_where (\<lambda>x. e_id x = e_id e0) (revised_entity req now) (entities d)" by (simp add: revised(7))
  have "entities_kept d d1" unfolding entities_kept_def
  proof (intro ballI)
    fix x assume "x \<in> set (entities d)"
    then show "\<exists>y \<in> set (entities d1). e_id y = e_id x \<and> e_env_id y = e_env_id x"
      unfolding ents bex_update_where by (intro bexI [of _ x]) (auto simp: fields)
  qed
  ultimately show ?thesis by (simp add: revised(7))
qed

lemma upsert_steps:
  assumes up: "entity_upsert tx st now ctx req d0 d = Inr (d', r)" and ok: "entities_ok tx d0" "entities_ok tx d" "same_names d0 d"
  shows "entities_ok tx d' \<and> entities_kept d d' \<and> environments d' = environments d \<and> graph_nodes d' = graph_nodes d \<and> relation_rows d' = relation_rows d"
  using up
proof (cases rule: entity_upsert_cases)
  case (1 env e is_create emit d1 d2)
  note row = upsert_row_ok [OF 1(2) ok]
  have al: "entities_ok tx d2 \<and> (\<exists>xs. d2 = d1\<lparr>entity_aliases := entity_aliases d1 @ xs\<rparr>)"
    using insert_aliases_ok [OF 1(3)] row by blast
  then obtain xs where xs: "d2 = d1\<lparr>entity_aliases := entity_aliases d1 @ xs\<rparr>" by blast
  note fr = upsert_frame [OF 1(5)]
  have "entities_ok tx d'" using al fr registry_frame(1) [of d' d2 tx] by simp
  then show ?thesis using row fr xs by (simp add: entities_kept_def)
qed

lemma upsert_registry:
  assumes up: "entity_upsert tx st now ctx req d0 d = Inr (d', r)" and ok: "entities_ok tx d0" "registry_ok tx d" "same_names d0 d"
  shows "registry_ok tx d'"
proof -
  have s: "entities_ok tx d' \<and> entities_kept d d' \<and> environments d' = environments d \<and> graph_nodes d' = graph_nodes d \<and> relation_rows d' = relation_rows d"
    using upsert_steps [OF up ok(1) _ ok(3)] ok(2) by (simp add: registry_ok_def)
  have "nodes_named d'" unfolding nodes_named_def
  proof (intro ballI allI impI)
    fix n i assume "n \<in> set (graph_nodes d')" "gn_entity_id n = Some i"
    then obtain e where "e \<in> set (entities d)" "e_id e = i" "e_env_id e = gn_env_id n" using ok(2) s by (auto simp: registry_ok_def nodes_named_def)
    then show "\<exists>e \<in> set (entities d'). e_id e = i \<and> e_env_id e = gn_env_id n" using s unfolding entities_kept_def by metis
  qed
  moreover have "graph_ok d'" using graph_frame(1) [of d' d] s ok(2) by (simp add: registry_ok_def)
  moreover have "one_node_per_entity d'" using s ok(2) one_node_frame [of d' d] by (simp add: registry_ok_def)
  ultimately show ?thesis using s by (simp add: registry_ok_def)
qed

subsection \<open>An upsert repeated\<close>

text \<open>What a successful upsert leaves behind: a row with the requested fields, and every requested name.\<close>

lemma upsert_row_written:
  assumes row: "upsert_entity_row now env n req d d = Inr (d1, e, is_create, emit)" and ok: "entities_ok tx d" and n: "n = normalize_name tx (eu_canonical_name req)"
  shows "e \<in> set (entities d1) \<and> e_env_id e = env \<and> e_normalized_name e = n \<and> e_kind e = eu_kind req \<and>
    e_canonical_name e = eu_canonical_name req \<and> e_metadata e = eu_metadata req"
  using row
proof (cases rule: upsert_entity_row_cases)
  case created
  have "d1 = (draw_uuid d)\<lparr>entities := entities (draw_uuid d) @ [e]\<rparr>" using insert_entity_cases [OF created(2)] by (rule conjunct1)
  then have "e \<in> set (entities d1)" by simp
  then show ?thesis unfolding created(1) new_entity_def by simp
next
  case same
  then show ?thesis by simp
next
  case (revised e0 r)
  have "r = e0" using entity_by_id [OF ok _ revised(1)] lookup_SomeD [OF revised(5)] by blast
  have "entities d1 = update_where (\<lambda>x. e_id x = e_id e0) (revised_entity req now) (entities d)" by (simp add: revised(7))
  then have "e \<in> set (entities d1)" unfolding revised(4) by (simp only: set_update_where) (rule image_eqI [OF _ revised(1)], simp)
  then show ?thesis using revised(2,3) by (simp add: revised(4) revised_entity_def)
qed

lemma upsert_written:
  assumes up: "entity_upsert tx st now ctx req d d = Inr (d', r)" and ok: "entities_ok tx d"
  obtains env e where "resolve_env_id (eu_env_id req) ctx = Inr env" "e \<in> set (entities d')" "e_env_id e = env"
    "e_normalized_name e = normalize_name tx (eu_canonical_name req)" "e_kind e = eu_kind req" "e_canonical_name e = eu_canonical_name req"
    "e_metadata e = eu_metadata req" "r = entity_to_response e (load_aliases tx d' (e_id e))" "entities_ok tx d'"
    "\<forall>x \<in> set (eu_aliases req). normalize_name tx x \<noteq> normalize_name tx (eu_canonical_name req) \<longrightarrow>
       (\<exists>a \<in> set (entity_aliases d'). ea_entity_id a = e_id e \<and> ea_normalized_alias a = normalize_name tx x)"
  using up
proof (cases rule: entity_upsert_cases)
  case (1 env e is_create emit d1 d2)
  note row = upsert_row_ok [OF 1(2) ok ok same_names_refl [OF ok]]
  note w = upsert_row_written [OF 1(2) ok refl]
  note fr = upsert_frame [OF 1(5)]
  have al: "entities_ok tx d2 \<and> (\<exists>xs. d2 = d1\<lparr>entity_aliases := entity_aliases d1 @ xs\<rparr>) \<and>
    (\<forall>x \<in> set (eu_aliases req). normalize_name tx x \<noteq> normalize_name tx (eu_canonical_name req) \<longrightarrow>
      (\<exists>a \<in> set (entity_aliases d2). ea_entity_id a = e_id e \<and> ea_normalized_alias a = normalize_name tx x))"
    using insert_aliases_ok [OF 1(3)] row by blast
  have ents: "entities d' = entities d1" "entity_aliases d' = entity_aliases d2" using al fr by auto
  have "load_aliases tx d' = load_aliases tx d2" "entities_ok tx d' = entities_ok tx d2" using registry_frame [of d' d2] fr by auto
  then show ?thesis using that [OF 1(1), of e] w ents al 1(4) by simp
qed

lemma insert_aliases_held:
  assumes "\<forall>x \<in> set al. normalize_name tx x \<noteq> c \<longrightarrow> (\<exists>a \<in> set (entity_aliases d). ea_entity_id a = i \<and> ea_normalized_alias a = normalize_name tx x)"
  shows "insert_aliases tx i env c al d = Inr d"
  using assms
proof (induction al)
  case (Cons x al)
  show ?case
  proof (cases "normalize_name tx x = c")
    case False
    then have "insert_alias \<lparr>ea_entity_id = i, ea_env_id = env, ea_alias = x, ea_normalized_alias = normalize_name tx x\<rparr> d = Inr d"
      using Cons.prems by (auto simp: insert_alias_def list_ex_iff)
    then show ?thesis using Cons False by simp
  qed (use Cons in simp)
qed simp

lemma find_unique:
  assumes "e \<in> set xs" "P e" "\<And>x. x \<in> set xs \<Longrightarrow> P x \<Longrightarrow> x = e"
  shows "find P xs = Some e"
proof (cases "find P xs")
  case None
  then show ?thesis using assms(1,2) by (simp add: find_None_iff)
next
  case (Some y)
  then show ?thesis using find_SomeD [OF Some] assms(3) [of y] by simp
qed

text \<open>C30: An upsert is idempotent. Sent again without an expected version, at any later time, it changes nothing, neither the
  registry nor the audit log nor the outbox, and answers the same.\<close>

theorem upsert_idempotent:
  assumes "entity_upsert tx st now ctx req d d = Inr (d', r)" "entities_ok tx d"
  shows "entity_upsert tx st now' ctx (req\<lparr>eu_expected_version := None\<rparr>) d' d' = Inr (d', r)"
proof -
  obtain env e where e: "resolve_env_id (eu_env_id req) ctx = Inr env" "e \<in> set (entities d')" "e_env_id e = env"
    "e_normalized_name e = normalize_name tx (eu_canonical_name req)" "e_kind e = eu_kind req" "e_canonical_name e = eu_canonical_name req"
    "e_metadata e = eu_metadata req" "r = entity_to_response e (load_aliases tx d' (e_id e))" "entities_ok tx d'"
    "\<forall>x \<in> set (eu_aliases req). normalize_name tx x \<noteq> normalize_name tx (eu_canonical_name req) \<longrightarrow>
       (\<exists>a \<in> set (entity_aliases d'). ea_entity_id a = e_id e \<and> ea_normalized_alias a = normalize_name tx x)"
    by (rule upsert_written [OF assms])
  let ?req = "req\<lparr>eu_expected_version := None\<rparr>" and ?n = "normalize_name tx (eu_canonical_name req)"
  have "find (\<lambda>x. e_env_id x = env \<and> e_normalized_name x = ?n) (entities d') = Some e"
    by (rule find_unique [OF e(2)]) (use e(3,4) entity_by_name [OF e(9) _ e(2)] in auto)
  then have row: "upsert_entity_row now' env ?n ?req d' d' = Inr (d', e, False, None)"
    unfolding upsert_entity_row_def by (simp add: e(5-7))
  show ?thesis unfolding entity_upsert_def Let_def
    by (simp add: e(1,8) row insert_aliases_held [OF e(10)] audit_upsert_def)
qed

lemma length_le_2:
  assumes "distinct xs" "\<And>x. x \<in> set xs \<Longrightarrow> x = a \<or> x = b"
  shows "length xs \<le> 2"
proof -
  have "card (set xs) \<le> card {a, b}" using assms(2) by (intro card_mono) auto
  also have "\<dots> \<le> 2" by (simp add: card_insert_if)
  finally show ?thesis using assms(1) by (simp add: distinct_card)
qed

text \<open>In one environment a name has at most two holders, one by canonical name and one by alias.\<close>

lemma two_holders:
  assumes ok: "entities_ok tx d"
  shows "length (filter (\<lambda>x. e_env_id x \<in> set [env] \<and> named d n x \<and> kinds_filter None x) (entities d)) \<le> 2"
proof -
  let ?by_name = "\<lambda>x. x \<in> set (entities d) \<and> e_env_id x = env \<and> e_normalized_name x = n"
  let ?by_alias = "\<lambda>x. x \<in> set (entities d) \<and> e_env_id x = env \<and> has_alias d (\<lambda>y. y = n) x"
  have one: "x = y" if "?by_name x" "?by_name y" for x y using entity_by_name [OF ok] that by simp
  have two: "x = y" if h: "?by_alias x" "?by_alias y" for x y
  proof -
    obtain a where a: "a \<in> set (entity_aliases d)" "ea_entity_id a = e_id x" "ea_normalized_alias a = n" using h(1) by (auto simp: has_alias_def list_ex_iff)
    obtain b where b: "b \<in> set (entity_aliases d)" "ea_entity_id b = e_id y" "ea_normalized_alias b = n" using h(2) by (auto simp: has_alias_def list_ex_iff)
    have env: "ea_env_id c = env" if "c \<in> set (entity_aliases d)" "ea_entity_id c = e_id z" "?by_alias z" for c z
    proof -
      have "alias_ok tx d c" using ok that(1) by (simp add: entities_ok_def)
      then obtain w where "w \<in> set (entities d)" "e_id w = ea_entity_id c" "e_env_id w = ea_env_id c" unfolding alias_ok_def by blast
      moreover have "w = z" using entity_by_id [OF ok, of w z] calculation that by simp
      ultimately show ?thesis using that(3) by simp
    qed
    have "ea_env_id a = ea_env_id b" using env [OF a(1,2) h(1)] env [OF b(1,2) h(2)] by simp
    then have "a = b" using alias_by_name [OF ok a(1) b(1)] a(3) b(3) by simp
    then show ?thesis using entity_by_id [OF ok, of x y] a(2) b(2) h by simp
  qed
  have "\<exists>a b. \<forall>x \<in> set (filter (\<lambda>x. e_env_id x \<in> set [env] \<and> named d n x \<and> kinds_filter None x) (entities d)). x = a \<or> x = b"
  proof (intro exI ballI)
    fix x assume "x \<in> set (filter (\<lambda>x. e_env_id x \<in> set [env] \<and> named d n x \<and> kinds_filter None x) (entities d))"
    then have "?by_name x \<or> ?by_alias x" by (auto simp: named_def)
    then show "x = (SOME x. ?by_name x) \<or> x = (SOME x. ?by_alias x)"
    proof
      assume h: "?by_name x"
      then show ?thesis using one [OF h someI [of ?by_name, OF h]] by blast
    next
      assume h: "?by_alias x"
      then show ?thesis using two [OF h someI [of ?by_alias, OF h]] by blast
    qed
  qed
  then obtain a b where ab: "\<And>x. x \<in> set (filter (\<lambda>x. e_env_id x \<in> set [env] \<and> named d n x \<and> kinds_filter None x) (entities d)) \<Longrightarrow> x = a \<or> x = b" by blast
  have "distinct (entities d)" using ok by (simp add: entities_ok_def distinct_map)
  then show ?thesis using length_le_2 [OF _ ab] by (simp del: set_filter)
qed

text \<open>After an upsert every spelling of the canonical name and of the aliases resolves to the entity within its environment,
  already with a limit of two: at most one entity holds a name as canonical name and at most one as alias.\<close>

lemma upsert_then_resolve:
  assumes "entity_upsert tx st now ctx req d d = Inr (d', r)" "entities_ok tx d" "valid_upsert tx req"
    and "s \<in> set (eu_canonical_name req # eu_aliases req)" "normalize_name tx s' = normalize_name tx s" "2 \<le> limit"
  shows "\<exists>rs. entity_resolve tx ctx \<lparr>es_name = s', es_env_ids = Some [er_env_id r], es_kinds = None, es_limit = limit\<rparr> d' = Inr rs \<and> r \<in> set rs"
proof -
  obtain env e where e: "resolve_env_id (eu_env_id req) ctx = Inr env" "e \<in> set (entities d')" "e_env_id e = env"
    "e_normalized_name e = normalize_name tx (eu_canonical_name req)" "e_kind e = eu_kind req" "e_canonical_name e = eu_canonical_name req"
    "e_metadata e = eu_metadata req" "r = entity_to_response e (load_aliases tx d' (e_id e))" "entities_ok tx d'"
    "\<forall>x \<in> set (eu_aliases req). normalize_name tx x \<noteq> normalize_name tx (eu_canonical_name req) \<longrightarrow>
       (\<exists>a \<in> set (entity_aliases d'). ea_entity_id a = e_id e \<and> ea_normalized_alias a = normalize_name tx x)"
    by (rule upsert_written [OF assms(1,2)])
  let ?n = "normalize_name tx s"
  let ?hits = "filter (\<lambda>x. e_env_id x \<in> set [env] \<and> named d' ?n x \<and> kinds_filter None x) (entities d')"
  have ne: "?n \<noteq> []" using assms(3,4) by (auto simp: valid_upsert_def list_all_iff)
  have "named d' ?n e" using assms(4) e(4,10) by (auto simp: named_def has_alias_def list_ex_iff)
  then have hit: "e \<in> set ?hits" using e(2,3) by (simp add: kinds_filter_def)
  have "length ?hits \<le> 2" by (rule two_holders [OF e(9)])
  then have "take limit (sort_key (\<lambda>x. (e_env_id x, tx_collate tx (e_canonical_name x))) ?hits) = sort_key (\<lambda>x. (e_env_id x, tx_collate tx (e_canonical_name x))) ?hits"
    using assms(6) by simp
  then have "entity_resolve tx ctx \<lparr>es_name = s', es_env_ids = Some [er_env_id r], es_kinds = None, es_limit = limit\<rparr> d' =
      Inr (map (respond tx d') (sort_key (\<lambda>x. (e_env_id x, tx_collate tx (e_canonical_name x))) ?hits))"
    using ne e(3) unfolding entity_resolve_def Let_def by (simp add: assms(5) e(8) entity_to_response_def)
  moreover have "r = respond tx d' e" by (simp add: respond_def e(8))
  ultimately show ?thesis using hit by auto
qed

subsection \<open>The merge, statement by statement\<close>

lemma check_versions_iff: "check_versions expected d is = Inr () \<longleftrightarrow>
    (\<forall>i \<in> set is. \<exists>e. lookup e_id i (entities d) = Some e \<and> map_of expected i = Some (e_version e))"
  by (induction "is") (auto simp: res_simps)

lemma entity_merge_cases:
  assumes "entity_merge tx st now ctx req d = Inr (d', r)"
  obtains keep d1 d2 d3 n d4 where "em_keep_id req \<notin> set (em_merge_ids req)" "lookup e_id (em_keep_id req) (entities d) = Some keep"
    "\<forall>i \<in> set (em_merge_ids req). \<exists>e. lookup e_id i (entities d) = Some e \<and> e_env_id e = e_env_id keep"
    "\<forall>i \<in> set (em_keep_id req # em_merge_ids req). \<exists>e. lookup e_id i (entities d) = Some e \<and> map_of (em_expected_versions req) i = Some (e_version e)"
    "repoint_aliases keep (em_merge_ids req) d = Inr d1"
    "merge_entity_graph_nodes now (e_env_id keep) (em_keep_id req) (em_merge_ids req) (entity_node (em_keep_id req) d1) d1 = Inr d2"
    "entity_update_row (em_keep_id req) (e_version keep) (\<lambda>e. e\<lparr>e_version := e_version keep + 1, e_updated_at := now\<rparr>) d2 = (d3, n)" "n \<noteq> 0"
    "emit_merged st now (e_env_id keep) (ctx_agent_id ctx) (em_keep_id req) (em_expected_versions req)
       (map (\<lambda>i. (i, entity_payload (the (lookup e_id i (entities d))) (load_aliases tx d i))) (em_merge_ids req)) (delete_entities (em_merge_ids req) d3) = Inr d4"
    "enqueue_entity st now (em_keep_id req) (e_version keep + 1) (e_env_id keep) OP_update
       (entity_payload (keep\<lparr>e_version := e_version keep + 1, e_updated_at := now\<rparr>) (load_aliases tx d4 (em_keep_id req)))
       (record_entity_audit ''update'' (em_keep_id req) (e_env_id keep) (ctx_agent_id ctx) (Some (entity_payload keep (load_aliases tx d (em_keep_id req))))
          (Some (entity_payload (keep\<lparr>e_version := e_version keep + 1, e_updated_at := now\<rparr>) (load_aliases tx d4 (em_keep_id req)))) d4) = Inr d'"
    "r = entity_to_response (keep\<lparr>e_version := e_version keep + 1, e_updated_at := now\<rparr>) (load_aliases tx d4 (em_keep_id req))"
proof -
  let ?ids = "em_merge_ids req" and ?k = "em_keep_id req"
  obtain keep d1 d2 d3 n d4 where keep: "?k \<notin> set ?ids" "check_versions (em_expected_versions req) d (?k # ?ids) = Inr ()"
    "lookup e_id ?k (entities d) = Some keep" "\<not> list_ex (\<lambda>i. e_env_id (the (lookup e_id i (entities d))) \<noteq> e_env_id keep) ?ids"
    and rest: "repoint_aliases keep ?ids d = Inr d1"
    "merge_entity_graph_nodes now (e_env_id keep) ?k ?ids (entity_node ?k d1) d1 = Inr d2"
    "entity_update_row ?k (e_version keep) (\<lambda>e. e\<lparr>e_version := e_version keep + 1, e_updated_at := now\<rparr>) d2 = (d3, n)" "n \<noteq> 0"
    "emit_merged st now (e_env_id keep) (ctx_agent_id ctx) ?k (em_expected_versions req)
       (map (\<lambda>i. (i, entity_payload (the (lookup e_id i (entities d))) (load_aliases tx d i))) ?ids) (delete_entities ?ids d3) = Inr d4"
    "enqueue_entity st now ?k (e_version keep + 1) (e_env_id keep) OP_update
       (entity_payload (keep\<lparr>e_version := e_version keep + 1, e_updated_at := now\<rparr>) (load_aliases tx d4 ?k))
       (record_entity_audit ''update'' ?k (e_env_id keep) (ctx_agent_id ctx) (Some (entity_payload keep (load_aliases tx d ?k)))
          (Some (entity_payload (keep\<lparr>e_version := e_version keep + 1, e_updated_at := now\<rparr>) (load_aliases tx d4 ?k))) d4) = Inr d'"
    "r = entity_to_response (keep\<lparr>e_version := e_version keep + 1, e_updated_at := now\<rparr>) (load_aliases tx d4 ?k)"
    using assms unfolding entity_merge_def Let_def
    by (elim bindE_InrE) (auto simp: raise_if_eq_Inr some_or_eq_Inr bindE_eq_Inr split: prod.splits if_splits)
  have v: "\<forall>i \<in> set (?k # ?ids). \<exists>e. lookup e_id i (entities d) = Some e \<and> map_of (em_expected_versions req) i = Some (e_version e)"
    using keep(2) unfolding check_versions_iff .
  have "\<forall>i \<in> set ?ids. \<exists>e. lookup e_id i (entities d) = Some e \<and> e_env_id e = e_env_id keep"
  proof
    fix i assume i: "i \<in> set ?ids"
    then obtain e where e: "lookup e_id i (entities d) = Some e" using v by auto
    then show "\<exists>e. lookup e_id i (entities d) = Some e \<and> e_env_id e = e_env_id keep" using keep(4) i by (auto simp: list_ex_iff)
  qed
  then show thesis using that keep(1,3) v rest by blast
qed

lemma repoint_aliases_cases:
  assumes "repoint_aliases keep ids d = Inr d1"
  shows "d1 = d\<lparr>entity_aliases := update_where (\<lambda>a. ea_entity_id a \<in> set ids) (\<lambda>a. a\<lparr>ea_entity_id := e_id keep\<rparr>)
    (delete_where (\<lambda>a. ea_entity_id a \<in> set ids \<and> (ea_normalized_alias a = e_normalized_name keep \<or>
       (\<exists>b \<in> set (entity_aliases d). ea_entity_id b = e_id keep \<and> ea_normalized_alias b = ea_normalized_alias a))) (entity_aliases d))\<rparr>"
proof -
  have keys: "ea_normalized_alias a \<in> set (e_normalized_name keep # map ea_normalized_alias (filter (\<lambda>a. ea_entity_id a = e_id keep) (entity_aliases d))) \<longleftrightarrow>
      ea_normalized_alias a = e_normalized_name keep \<or> (\<exists>b \<in> set (entity_aliases d). ea_entity_id b = e_id keep \<and> ea_normalized_alias b = ea_normalized_alias a)" for a
    by (auto simp: image_iff)
  show ?thesis using assms unfolding repoint_aliases_def Let_def keys by (simp split: if_splits)
qed

lemma emit_merged_frame:
  assumes "emit_merged st now env agent keep_id expected before d = Inr d'"
  shows "entities d' = entities d \<and> entity_aliases d' = entity_aliases d \<and> environments d' = environments d \<and>
    graph_nodes d' = graph_nodes d \<and> relation_rows d' = relation_rows d"
  using assms
proof (induction before arbitrary: d)
  case (Cons p before)
  obtain i b where p: "p = (i, b)" by (cases p)
  obtain d1 where d1: "enqueue_entity st now i (the (map_of expected i) + 1) env OP_tombstone [(''entity_id'', JUuid i), (''env_id'', JUuid env), (''merged_into'', JUuid keep_id)]
      (record_entity_audit ''merge'' i env agent (Some b) (Some [(''merged_into'', JUuid keep_id)]) d) = Inr d1"
    "emit_merged st now env agent keep_id expected before d1 = Inr d'" using Cons.prems p by (auto simp: res_simps)
  show ?case using Cons.IH [OF d1(2)] enqueue_entity_frame [OF d1(1)] by (simp add: audit_frame)
qed simp

lemma enqueue_entity_outbox:
  assumes "enqueue_entity st now i v env op p d = Inr d'"
  shows "\<forall>row \<in> set (outbox d'). row \<in> set (outbox d) \<or> ob_aggregate_type row = AT_entity"
proof -
  obtain x where "enqueue_event st now AT_entity i v env op p None d = Inr (d', x)" using assms by (auto simp: enqueue_entity_def res_simps)
  then show ?thesis by (cases rule: enqueue_event_cases) auto
qed

lemma emit_merged_outbox:
  assumes "emit_merged st now env agent keep_id expected before d = Inr d'"
  shows "\<forall>row \<in> set (outbox d'). row \<in> set (outbox d) \<or> ob_aggregate_type row = AT_entity"
  using assms
proof (induction before arbitrary: d)
  case (Cons p before)
  obtain i b where p: "p = (i, b)" by (cases p)
  obtain d1 where d1: "enqueue_entity st now i (the (map_of expected i) + 1) env OP_tombstone [(''entity_id'', JUuid i), (''env_id'', JUuid env), (''merged_into'', JUuid keep_id)]
      (record_entity_audit ''merge'' i env agent (Some b) (Some [(''merged_into'', JUuid keep_id)]) d) = Inr d1"
    "emit_merged st now env agent keep_id expected before d1 = Inr d'" using Cons.prems p by (auto simp: res_simps)
  show ?case using Cons.IH [OF d1(2)] enqueue_entity_outbox [OF d1(1)] by (auto simp: audit_frame)
qed simp

subsection \<open>What a merge leaves\<close>

definition lost_alias :: "entity \<Rightarrow> uuid list \<Rightarrow> db \<Rightarrow> entity_alias \<Rightarrow> bool" where
  "lost_alias keep ids d a \<longleftrightarrow> ea_entity_id a \<in> set ids \<and> (ea_normalized_alias a = e_normalized_name keep \<or>
     (\<exists>b \<in> set (entity_aliases d). ea_entity_id b = e_id keep \<and> ea_normalized_alias b = ea_normalized_alias a))"

definition merged_aliases :: "entity \<Rightarrow> uuid list \<Rightarrow> db \<Rightarrow> entity_alias list" where
  "merged_aliases keep ids d = update_where (\<lambda>a. ea_entity_id a \<in> set ids) (\<lambda>a. a\<lparr>ea_entity_id := e_id keep\<rparr>) (delete_where (lost_alias keep ids d) (entity_aliases d))"

definition merged_entities :: "entity \<Rightarrow> uuid list \<Rightarrow> time \<Rightarrow> entity list \<Rightarrow> entity list" where
  "merged_entities keep ids now es = delete_where (\<lambda>e. e_id e \<in> set ids)
     (update_where (\<lambda>e. e_id e = e_id keep) (\<lambda>e. e\<lparr>e_version := e_version keep + 1, e_updated_at := now\<rparr>) es)"

lemma merged_aliases_elim:
  assumes "a' \<in> set (merged_aliases keep ids d)"
  obtains (stays) "a' \<in> set (entity_aliases d)" "ea_entity_id a' \<notin> set ids"
  | (moves) a where "a \<in> set (entity_aliases d)" "ea_entity_id a \<in> set ids" "\<not> lost_alias keep ids d a" "a' = a\<lparr>ea_entity_id := e_id keep\<rparr>"
proof -
  obtain a where "a \<in> set (entity_aliases d)" "\<not> lost_alias keep ids d a" "a' = (if ea_entity_id a \<in> set ids then a\<lparr>ea_entity_id := e_id keep\<rparr> else a)"
    using assms unfolding merged_aliases_def set_update_where by auto
  then show thesis using stays moves [of a] by (cases "ea_entity_id a \<in> set ids") simp_all
qed

lemma merged_aliases_intro:
  assumes "a \<in> set (entity_aliases d)" "\<not> lost_alias keep ids d a"
  shows "(if ea_entity_id a \<in> set ids then a\<lparr>ea_entity_id := e_id keep\<rparr> else a) \<in> set (merged_aliases keep ids d)"
  unfolding merged_aliases_def set_update_where using assms by (intro imageI) simp

lemma delete_entities_none:
  assumes "\<forall>n \<in> set (graph_nodes d). \<forall>i \<in> set ids. gn_entity_id n \<noteq> Some i" "\<forall>a \<in> set (entity_aliases d). ea_entity_id a \<notin> set ids"
  shows "delete_entities ids d = d\<lparr>entities := delete_where (\<lambda>e. e_id e \<in> set ids) (entities d)\<rparr>"
proof -
  let ?gone = "\<lambda>n. case gn_entity_id n of None \<Rightarrow> False | Some i \<Rightarrow> i \<in> set ids"
  have none: "\<forall>n \<in> set (graph_nodes d). \<not> ?gone n" using assms(1) by (auto split: option.splits)
  then have gone: "set (map gn_id (filter ?gone (graph_nodes d))) = {}" by (simp add: filter_empty_conv)
  moreover have "delete_where ?gone (graph_nodes d) = graph_nodes d" using none by (rule delete_where_none)
  moreover have "delete_where (\<lambda>a. ea_entity_id a \<in> set ids) (entity_aliases d) = entity_aliases d" using assms(2) by (rule delete_where_none)
  moreover have "delete_where (\<lambda>r. False) (relation_rows d) = relation_rows d" by (rule delete_where_none) simp
  ultimately show ?thesis unfolding delete_entities_def Let_def gone by simp
qed

lemma merge_shape:
  assumes merge: "entity_merge tx st now ctx req d = Inr (d', r)" and ok: "registry_ok tx d"
  obtains keep where "keep \<in> set (entities d)" "e_id keep = em_keep_id req" "em_keep_id req \<notin> set (em_merge_ids req)"
    "\<forall>i \<in> set (em_merge_ids req). \<exists>e. e \<in> set (entities d) \<and> e_id e = i \<and> e_env_id e = e_env_id keep"
    "entities d' = merged_entities keep (em_merge_ids req) now (entities d)" "entity_aliases d' = merged_aliases keep (em_merge_ids req) d"
    "environments d' = environments d" "graph_ok d'" "one_node_per_entity d'"
    "graph_edges d' = merge_edge (em_keep_id req) (set (em_merge_ids req)) ` graph_edges d"
    "\<forall>n \<in> set (graph_nodes d'). (\<forall>i \<in> set (em_merge_ids req). gn_entity_id n \<noteq> Some i) \<and>
       (gn_entity_id n = Some (em_keep_id req) \<and> gn_env_id n = e_env_id keep \<or> n \<in> set (graph_nodes d))"
    "\<forall>row \<in> set (outbox d'). row \<in> set (outbox d) \<or> ob_aggregate_type row = AT_entity"
  using merge
proof (cases rule: entity_merge_cases)
  case (1 keep d1 d2 d3 n d4)
  let ?ids = "em_merge_ids req" and ?k = "em_keep_id req"
  have eok: "entities_ok tx d" and gok: "graph_ok d" and one: "one_node_per_entity d" and nn: "nodes_named d" using ok by (auto simp: registry_ok_def)
  have keep: "keep \<in> set (entities d)" "e_id keep = ?k" using lookup_SomeD [OF 1(2)] by auto
  have merged: "\<forall>i \<in> set ?ids. \<exists>e. e \<in> set (entities d) \<and> e_id e = i \<and> e_env_id e = e_env_id keep"
    using 1(3) by (auto dest: lookup_SomeD)
  have d1: "d1 = d\<lparr>entity_aliases := merged_aliases keep ?ids d\<rparr>"
    using repoint_aliases_cases [OF 1(5)] unfolding merged_aliases_def lost_alias_def .
  have named_env: "gn_env_id x = e_env_id e" if x: "x \<in> set (graph_nodes d)" "gn_entity_id x = Some (e_id e)" "e \<in> set (entities d)" for x e
  proof -
    obtain e' where e': "e' \<in> set (entities d)" "e_id e' = e_id e" "e_env_id e' = gn_env_id x" using nn x(1,2) unfolding nodes_named_def by blast
    then show ?thesis using entity_by_id [OF eok e'(1) x(3) e'(2)] by simp
  qed
  have ready: "merge_ready (e_env_id keep) ?k ?ids (entity_node ?k d1) d1"
    unfolding merge_ready_def
  proof (intro conjI)
    show "graph_ok d1" using gok graph_frame(1) [of d1 d] d1 by simp
    show "one_node_per_entity d1" using one one_node_frame [of d1 d] d1 by simp
    show "?k \<notin> set ?ids" by (rule 1(1))
    show "keep_ok (e_env_id keep) ?k (entity_node ?k d1) d1" unfolding keep_ok_def
    proof (cases "entity_node ?k d1")
      case None
      then show "case entity_node ?k d1 of None \<Rightarrow> \<forall>n \<in> set (graph_nodes d1). gn_entity_id n \<noteq> Some ?k
          | Some k \<Rightarrow> k \<in> set (graph_nodes d1) \<and> gn_entity_id k = Some ?k \<and> gn_env_id k = e_env_id keep"
        using entity_node_NoneD [OF None] by auto
    next
      case (Some x)
      then have x: "x \<in> set (graph_nodes d1)" "gn_entity_id x = Some ?k" using entity_node_SomeD [OF Some] by auto
      moreover have "gn_env_id x = e_env_id keep" using named_env [of x keep] x keep d1 by simp
      ultimately show "case entity_node ?k d1 of None \<Rightarrow> \<forall>n \<in> set (graph_nodes d1). gn_entity_id n \<noteq> Some ?k
          | Some k \<Rightarrow> k \<in> set (graph_nodes d1) \<and> gn_entity_id k = Some ?k \<and> gn_env_id k = e_env_id keep" using Some by simp
    qed
    show "\<forall>n \<in> set (graph_nodes d1). \<forall>i \<in> set ?ids. gn_entity_id n = Some i \<longrightarrow> gn_env_id n = e_env_id keep"
    proof (intro ballI impI)
      fix x i assume x: "x \<in> set (graph_nodes d1)" "i \<in> set ?ids" "gn_entity_id x = Some i"
      obtain e where "e \<in> set (entities d)" "e_id e = i" "e_env_id e = e_env_id keep" using merged x(2) by blast
      then show "gn_env_id x = e_env_id keep" using named_env [of x e] x d1 by simp
    qed
  qed
  obtain nodes rows where g: "d2 = d1\<lparr>graph_nodes := nodes, relation_rows := rows\<rparr>" "graph_ok d2" "one_node_per_entity d2"
    "graph_edges d2 = merge_edge ?k (set ?ids) ` graph_edges d1"
    "\<forall>n \<in> set nodes. (\<forall>i \<in> set ?ids. gn_entity_id n \<noteq> Some i) \<and> (gn_entity_id n = Some ?k \<and> gn_env_id n = e_env_id keep \<or> n \<in> set (graph_nodes d1))"
    using merge_nodes_edges [OF ready, of now] 1(6) by auto
  have d3: "d3 = d2\<lparr>entities := update_where (\<lambda>e. e_id e = ?k) (\<lambda>e. e\<lparr>e_version := e_version keep + 1, e_updated_at := now\<rparr>) (entities d2)\<rparr>"
    using entity_update_row_cases [OF 1(7,8)] by blast
  have left: "\<forall>a \<in> set (entity_aliases d3). ea_entity_id a \<notin> set ?ids"
  proof
    fix a assume "a \<in> set (entity_aliases d3)"
    then have "a \<in> set (merged_aliases keep ?ids d)" using d3 g(1) d1 by simp
    then show "ea_entity_id a \<notin> set ?ids" by (cases rule: merged_aliases_elim) (use keep 1(1) in auto)
  qed
  have nodes3: "\<forall>n \<in> set (graph_nodes d3). \<forall>i \<in> set ?ids. gn_entity_id n \<noteq> Some i" using g(1,5) d3 by simp
  note del = delete_entities_none [OF nodes3 left]
  note fr1 = emit_merged_frame [OF 1(9)] and fr2 = enqueue_entity_frame [OF 1(10), unfolded audit_frame]
  have tables: "entities d' = delete_where (\<lambda>e. e_id e \<in> set ?ids) (entities d3)" "entity_aliases d' = entity_aliases d3" "environments d' = environments d3"
    "graph_nodes d' = graph_nodes d3" "relation_rows d' = relation_rows d3" using fr1 fr2 del by auto
  have nodes': "graph_nodes d' = graph_nodes d2" "relation_rows d' = relation_rows d2" using tables d3 by auto
  have edges: "graph_edges d' = graph_edges d2" "graph_edges d1 = graph_edges d" using nodes' d1 by (simp_all add: graph_edges_def)
  have box: "\<forall>row \<in> set (outbox d'). row \<in> set (outbox d) \<or> ob_aggregate_type row = AT_entity"
  proof -
    have "outbox (delete_entities ?ids d3) = outbox d" using del d3 g(1) d1 by simp
    then show ?thesis using emit_merged_outbox [OF 1(9)] enqueue_entity_outbox [OF 1(10)] by (auto simp: audit_frame)
  qed
  show ?thesis
  proof (rule that [OF keep 1(1) merged])
    show "entities d' = merged_entities keep ?ids now (entities d)" using tables(1) d3 g(1) d1 keep(2) by (simp add: merged_entities_def)
    show "entity_aliases d' = merged_aliases keep ?ids d" "environments d' = environments d" using tables d3 g(1) d1 by auto
    show "graph_ok d'" "one_node_per_entity d'" using g(2,3) graph_frame(1) [OF nodes'] one_node_frame [OF nodes'(1)] by auto
    show "graph_edges d' = merge_edge ?k (set ?ids) ` graph_edges d" using edges g(4) by simp
    show "\<forall>n \<in> set (graph_nodes d'). (\<forall>i \<in> set ?ids. gn_entity_id n \<noteq> Some i) \<and> (gn_entity_id n = Some ?k \<and> gn_env_id n = e_env_id keep \<or> n \<in> set (graph_nodes d))"
      using g(1,5) nodes' d1 by simp
  qed (rule box)
qed

definition kept_bump :: "entity \<Rightarrow> time \<Rightarrow> entity \<Rightarrow> entity" where
  "kept_bump keep now e = (if e_id e = e_id keep then e\<lparr>e_version := e_version keep + 1, e_updated_at := now\<rparr> else e)"

lemma kept_bump_fields [simp]: "e_id (kept_bump keep now e) = e_id e" "e_env_id (kept_bump keep now e) = e_env_id e"
  "e_normalized_name (kept_bump keep now e) = e_normalized_name e" "e_canonical_name (kept_bump keep now e) = e_canonical_name e"
  by (simp_all add: kept_bump_def)

lemma kept_bump_cases: "kept_bump keep now e = e \<or> e_id e = e_id keep \<and> e_version (kept_bump keep now e) = e_version keep + 1"
  by (simp add: kept_bump_def)

lemma set_merged_entities: "set (merged_entities keep ids now es) = kept_bump keep now ` {e \<in> set es. e_id e \<notin> set ids}"
proof -
  have "update_where (\<lambda>e. e_id e = e_id keep) (\<lambda>e. e\<lparr>e_version := e_version keep + 1, e_updated_at := now\<rparr>) es = map (kept_bump keep now) es"
    by (simp add: update_where_def kept_bump_def)
  then show ?thesis unfolding merged_entities_def set_delete_where by auto
qed

lemma merged_entities_elim:
  assumes "e' \<in> set (merged_entities keep ids now es)"
  obtains e where "e \<in> set es" "e_id e \<notin> set ids" "e' = kept_bump keep now e"
  using assms unfolding set_merged_entities by blast

lemma merged_entities_intro:
  assumes "e \<in> set es" "e_id e \<notin> set ids"
  shows "\<exists>e' \<in> set (merged_entities keep ids now es). e_id e' = e_id e \<and> e_env_id e' = e_env_id e \<and> e_normalized_name e' = e_normalized_name e"
  using assms unfolding set_merged_entities by auto

lemma merge_entities_ok:
  assumes ok: "entities_ok tx d" and keep: "keep \<in> set (entities d)" "e_id keep \<notin> set ids"
    and merged: "\<forall>i \<in> set ids. \<exists>e. e \<in> set (entities d) \<and> e_id e = i \<and> e_env_id e = e_env_id keep"
    and d': "entities d' = merged_entities keep ids now (entities d)" "entity_aliases d' = merged_aliases keep ids d" "environments d' = environments d"
  shows "entities_ok tx d'"
proof -
  let ?f = "\<lambda>e. e\<lparr>e_version := e_version keep + 1, e_updated_at := now\<rparr>"
  have dist: "distinct (map e_id (entities d))" "distinct (map (\<lambda>e. (e_env_id e, e_normalized_name e)) (entities d))"
    "distinct (map (\<lambda>a. (ea_env_id a, ea_normalized_alias a)) (entity_aliases d))"
    and row: "\<And>e. e \<in> set (entities d) \<Longrightarrow> e_normalized_name e = normalize_name tx (e_canonical_name e) \<and> 1 \<le> e_version e \<and> env_exists d (e_env_id e)"
    and al: "\<And>a. a \<in> set (entity_aliases d) \<Longrightarrow> alias_ok tx d a"
    using ok by (auto simp: entities_ok_def)
  have "distinct (map e_id (entities d'))" unfolding d'(1) merged_entities_def
    by (rule distinct_delete_where) (use dist(1) in simp)
  moreover have "distinct (map (\<lambda>e. (e_env_id e, e_normalized_name e)) (entities d'))" unfolding d'(1) merged_entities_def
    by (rule distinct_delete_where) (use dist(2) in simp)
  moreover have "distinct (map (\<lambda>a. (ea_env_id a, ea_normalized_alias a)) (entity_aliases d'))" unfolding d'(2) merged_aliases_def
    using distinct_delete_where [OF dist(3)] by simp
  moreover have "e_normalized_name e = normalize_name tx (e_canonical_name e) \<and> 1 \<le> e_version e \<and> env_exists d' (e_env_id e)" if h: "e \<in> set (entities d')" for e
  proof -
    obtain e0 where e0: "e0 \<in> set (entities d)" "e = kept_bump keep now e0" using h unfolding d'(1) by (elim merged_entities_elim) blast
    have "1 \<le> e_version e" using kept_bump_cases [of keep now e0] row [OF e0(1)] row [OF keep(1)] e0(2) by auto
    then show ?thesis using row [OF e0(1)] e0(2) by (simp add: env_exists_def d'(3))
  qed
  moreover have "alias_ok tx d' a" if h: "a \<in> set (entity_aliases d')" for a
    using h unfolding d'(2)
  proof (cases rule: merged_aliases_elim)
    case stays
    then obtain e where e: "e \<in> set (entities d)" "e_id e = ea_entity_id a" "e_env_id e = ea_env_id a" "e_normalized_name e \<noteq> ea_normalized_alias a"
      and n: "ea_normalized_alias a = normalize_name tx (ea_alias a)" using al [of a] by (auto simp: alias_ok_def)
    have "e_id e \<notin> set ids" using e(2) stays(2) by simp
    then show ?thesis unfolding alias_ok_def d'(1) using merged_entities_intro [OF e(1), of ids keep now] e n by auto
  next
    case (moves b)
    obtain e where e: "e \<in> set (entities d)" "e_id e = ea_entity_id b" "e_env_id e = ea_env_id b" and n: "ea_normalized_alias b = normalize_name tx (ea_alias b)"
      using al [OF moves(1)] by (auto simp: alias_ok_def)
    obtain e1 where "e1 \<in> set (entities d)" "e_id e1 = ea_entity_id b" "e_env_id e1 = e_env_id keep" using merged moves(2) by blast
    then have "ea_env_id b = e_env_id keep" using entity_by_id [OF ok, of e1 e] e by simp
    moreover have "e_normalized_name keep \<noteq> ea_normalized_alias b" using moves(2,3) by (auto simp: lost_alias_def)
    ultimately show ?thesis unfolding alias_ok_def d'(1) using merged_entities_intro [OF keep, of keep now] n by (auto simp: moves(4))
  qed
  ultimately show ?thesis by (simp add: entities_ok_def)
qed

lemma merge_registry:
  assumes merge: "entity_merge tx st now ctx req d = Inr (d', r)" and ok: "registry_ok tx d"
  shows "registry_ok tx d'"
  using merge_shape [OF merge ok]
proof (cases, goal_cases)
  case (1 keep)
  have "nodes_named d'" unfolding nodes_named_def
  proof (intro ballI allI impI)
    fix n i assume n: "n \<in> set (graph_nodes d')" "gn_entity_id n = Some i"
    have i: "i \<notin> set (em_merge_ids req)" and src: "i = em_keep_id req \<and> gn_env_id n = e_env_id keep \<or> n \<in> set (graph_nodes d)"
      using 1(11) n by auto
    obtain e where e: "e \<in> set (entities d)" "e_id e = i" "e_env_id e = gn_env_id n"
    proof (cases "n \<in> set (graph_nodes d)")
      case True
      then show thesis using that ok n(2) unfolding registry_ok_def nodes_named_def by blast
    next
      case False
      then show thesis using that [of keep] src 1(1,2) by simp
    qed
    have "e_id e \<notin> set (em_merge_ids req)" using i e(2) by simp
    then show "\<exists>e \<in> set (entities d'). e_id e = i \<and> e_env_id e = gn_env_id n"
      using merged_entities_intro [OF e(1), of "em_merge_ids req" keep now] e 1(5) by auto
  qed
  moreover have "entities_ok tx d'"
    using merge_entities_ok [OF _ 1(1) _ 1(4,5,6,7)] 1(2,3) ok by (simp add: registry_ok_def)
  ultimately show ?case using 1(8,9) by (simp add: registry_ok_def)
qed

subsection \<open>Histories of the registry\<close>

text \<open>
  The calls that write the registry, in any order. An upsert reads its row in a state \<open>d0\<close> that may be older than the one its
  update meets.
\<close>

inductive registry_step :: "text_services \<Rightarrow> db \<Rightarrow> db \<Rightarrow> bool" for tx where
  upsert: "entity_upsert tx st now ctx req d0 d = Inr (d', r) \<Longrightarrow> entities_ok tx d0 \<Longrightarrow> same_names d0 d \<Longrightarrow> registry_step tx d d'"
| merge: "entity_merge tx st now ctx req d = Inr (d', r) \<Longrightarrow> registry_step tx d d'"

lemma registry_step_ok: "registry_step tx d d' \<Longrightarrow> registry_ok tx d \<Longrightarrow> registry_ok tx d'"
  by (induction rule: registry_step.induct) (auto intro: upsert_registry merge_registry)

text \<open>C27: Every sequence of upserts and merges keeps the registry well formed: ids are unique, no two entities and no two aliases
  of an environment share a normalized name, every stored name is the normalization of its text, no alias repeats the canonical
  name of its own entity, aliases and graph nodes belong to an existing entity of their environment, and an entity has at most one node.\<close>

theorem registry_stays_ok:
  assumes "(registry_step tx)\<^sup>*\<^sup>* d d'" "registry_ok tx d"
  shows "registry_ok tx d'"
  using assms by (induction rule: rtranclp_induct) (auto intro: registry_step_ok)

text \<open>C29: After a merge the kept entity answers to its own names and to the aliases of the merged entities, but not to their
  canonical names; every other entity keeps exactly its names.\<close>

theorem merge_names:
  assumes "entity_merge tx st now ctx req d = Inr (d', r)" "registry_ok tx d" "e \<in> set (entities d')"
  shows "named d' n e \<longleftrightarrow> (\<exists>e0 \<in> set (entities d). e_id e0 = e_id e \<and> named d n e0) \<or>
    e_id e = em_keep_id req \<and> (\<exists>a \<in> set (entity_aliases d). ea_entity_id a \<in> set (em_merge_ids req) \<and> ea_normalized_alias a = n)"
  using merge_shape [OF assms(1,2)]
proof (cases, goal_cases)
  case (1 keep)
  let ?ids = "em_merge_ids req"
  have ok: "entities_ok tx d" using assms(2) by (simp add: registry_ok_def)
  obtain e0 where e0: "e0 \<in> set (entities d)" "e_id e0 \<notin> set ?ids" "e = kept_bump keep now e0"
    using assms(3) unfolding 1(5) by (rule merged_entities_elim)
  have only: "x = e0" if "x \<in> set (entities d)" "e_id x = e_id e" for x using entity_by_id [OF ok that(1) e0(1)] that(2) e0(3) by simp
  have new: "(\<exists>a' \<in> set (merged_aliases keep ?ids d). ea_entity_id a' = e_id e \<and> ea_normalized_alias a' = n) \<longleftrightarrow>
      (\<exists>a \<in> set (entity_aliases d). \<not> lost_alias keep ?ids d a \<and> ea_normalized_alias a = n \<and>
         (ea_entity_id a = e_id e \<or> ea_entity_id a \<in> set ?ids \<and> e_id e = e_id keep))" (is "?L \<longleftrightarrow> ?R")
  proof
    assume ?L
    then obtain a' where a': "a' \<in> set (merged_aliases keep ?ids d)" "ea_entity_id a' = e_id e" "ea_normalized_alias a' = n" by blast
    from a'(1) show ?R
    proof (cases rule: merged_aliases_elim)
      case stays
      then show ?thesis using a' by (intro bexI [of _ a']) (auto simp: lost_alias_def)
    next
      case (moves a)
      then show ?thesis using a' by (intro bexI [of _ a]) auto
    qed
  next
    assume ?R
    then obtain a where a: "a \<in> set (entity_aliases d)" "\<not> lost_alias keep ?ids d a" "ea_normalized_alias a = n"
      "ea_entity_id a = e_id e \<or> ea_entity_id a \<in> set ?ids \<and> e_id e = e_id keep" by blast
    show ?L using merged_aliases_intro [OF a(1,2)] a(3,4) e0(2,3) by (intro bexI [OF _ merged_aliases_intro [OF a(1,2)]]) auto
  qed
  have lost: "named d n e0" if "a \<in> set (entity_aliases d)" "lost_alias keep ?ids d a" "ea_normalized_alias a = n" "e_id e = e_id keep" for a
    using that only [OF 1(1)] unfolding lost_alias_def named_def has_alias_def list_ex_iff by auto
  have "named d' n e \<longleftrightarrow> e_normalized_name e0 = n \<or> (\<exists>a' \<in> set (merged_aliases keep ?ids d). ea_entity_id a' = e_id e \<and> ea_normalized_alias a' = n)"
    by (auto simp: named_def has_alias_def list_ex_iff 1(6) e0(3))
  also have "\<dots> \<longleftrightarrow> named d n e0 \<or> e_id e = em_keep_id req \<and> (\<exists>a \<in> set (entity_aliases d). ea_entity_id a \<in> set ?ids \<and> ea_normalized_alias a = n)"
    (is "?L \<longleftrightarrow> ?M")
  proof
    assume ?L
    then show ?M unfolding new using e0(3) 1(2) by (auto simp: named_def has_alias_def list_ex_iff)
  next
    have own: ?L if h: "named d n e0"
    proof (cases "e_normalized_name e0 = n")
      case False
      then obtain a where a: "a \<in> set (entity_aliases d)" "ea_entity_id a = e_id e0" "ea_normalized_alias a = n"
        using h by (auto simp: named_def has_alias_def list_ex_iff)
      have "\<not> lost_alias keep ?ids d a" using a(2) e0(2) by (simp add: lost_alias_def)
      then show ?thesis unfolding new using a e0(3) by auto
    qed simp
    assume ?M
    then show ?L
    proof
      assume "e_id e = em_keep_id req \<and> (\<exists>a \<in> set (entity_aliases d). ea_entity_id a \<in> set ?ids \<and> ea_normalized_alias a = n)"
      then obtain a where a: "a \<in> set (entity_aliases d)" "ea_entity_id a \<in> set ?ids" "ea_normalized_alias a = n" and k: "e_id e = e_id keep" using 1(2) by auto
      show ?L
      proof (cases "lost_alias keep ?ids d a")
        case True
        show ?thesis by (rule own [OF lost [OF a(1) True a(3) k]])
      next
        case False
        then show ?thesis unfolding new using a k by auto
      qed
    qed (rule own)
  qed
  also have "named d n e0 \<longleftrightarrow> (\<exists>e0 \<in> set (entities d). e_id e0 = e_id e \<and> named d n e0)" using only e0(1,3) by auto
  finally show ?case .
qed

text \<open>C28: A merge redirects every edge of the merged entities to the kept one and identifies the edges that become equal, and does
  nothing else to the graph; no event tells the projections about the relations it moved or removed.\<close>

theorem merge_redirects_edges:
  assumes "entity_merge tx st now ctx req d = Inr (d', r)" "registry_ok tx d"
  shows "graph_edges d' = merge_edge (em_keep_id req) (set (em_merge_ids req)) ` graph_edges d \<and>
    (\<forall>row \<in> set (outbox d'). row \<notin> set (outbox d) \<longrightarrow> ob_aggregate_type row = AT_entity)"
  using merge_shape [OF assms] by (cases, goal_cases) blast

subsection \<open>A small registry\<close>

definition plain_text :: text_services where
  "plain_text = \<lparr>tx_nfkc = (\<lambda>s. s), tx_collate = (\<lambda>s. real (length s)), tx_str = (\<lambda>j. [])\<rparr>"

definition reg_ctx :: agent_context where
  "reg_ctx = \<lparr>ctx_agent_id = 9, ctx_session_id = None, ctx_attached_env_ids = [1]\<rparr>"

definition reg_settings :: settings where
  "reg_settings = \<lparr>vector_backend = ''qdrant'', graph_backend = ''neo4j''\<rparr>"

definition reg_entity :: "uuid \<Rightarrow> string \<Rightarrow> string \<Rightarrow> entity" where
  "reg_entity i name n = \<lparr>e_id = i, e_env_id = 1, e_kind = ''tool'', e_canonical_name = name, e_normalized_name = n, e_metadata = [],
     e_created_at = 0, e_updated_at = 0, e_version = 1\<rparr>"

definition reg_node :: "uuid \<Rightarrow> uuid option \<Rightarrow> uuid option \<Rightarrow> graph_node" where
  "reg_node i e m = \<lparr>gn_id = i, gn_env_id = 1, gn_type = (if e = None then NT_memory else NT_entity), gn_memory_id = m, gn_entity_id = e, gn_task_id = None\<rparr>"

definition reg_edge :: "uuid \<Rightarrow> uuid \<Rightarrow> uuid \<Rightarrow> relation_row" where
  "reg_edge i s t = \<lparr>r_id = i, r_env_id = 1, r_src_node_id = s, r_dst_node_id = t, r_type = ''mentions'', r_properties = [], r_version = 1,
     r_created_at = 0, r_updated_at = 0\<rparr>"

text \<open>Two entities, one alias, a memory that mentions both.\<close>

definition reg_db :: db where
  "reg_db = (empty_db (\<lambda>k. 100 + k))\<lparr>environments := [\<lparr>env_id = 1, env_name = ''e'', env_embedding_model = ''m'', env_deleted = False\<rparr>],
     entities := [reg_entity 11 ''Go'' ''go'', reg_entity 12 ''Golang'' ''golang''],
     entity_aliases := [\<lparr>ea_entity_id = 12, ea_env_id = 1, ea_alias = ''Go-lang'', ea_normalized_alias = ''go lang''\<rparr>],
     graph_nodes := [reg_node 21 (Some 11) None, reg_node 22 (Some 12) None, reg_node 23 None (Some 5)],
     relation_rows := [reg_edge 31 23 21, reg_edge 32 23 22]\<rparr>"

definition reg_merge :: entity_merge_request where
  "reg_merge = \<lparr>em_keep_id = 11, em_merge_ids = [12], em_expected_versions = [(11, 1), (12, 1)]\<rparr>"

lemmas reg_demo = reg_ctx_def reg_settings_def reg_entity_def reg_node_def reg_edge_def reg_db_def reg_merge_def empty_db_def

lemma reg_names: "normalize_name plain_text ''Go'' = ''go''" "normalize_name plain_text ''Golang'' = ''golang''" "normalize_name plain_text ''Go-lang'' = ''go lang''"
  "normalize_name plain_text ''GOLANG!'' = ''golang''"
  by code_simp+

lemma reg_db_ok: "registry_ok plain_text reg_db"
  by (simp add: registry_ok_def entities_ok_def alias_ok_def graph_ok_def has_node_def node_shape_def one_node_per_entity_def nodes_named_def env_exists_def reg_names)
     (simp add: reg_demo reg_names)

definition reg_upsert :: entity_upsert_request where
  "reg_upsert = \<lparr>eu_kind = ''tool'', eu_canonical_name = ''GOLANG!'', eu_aliases = [''Go-lang''], eu_metadata = [], eu_env_id = None, eu_expected_version = Some 1\<rparr>"

lemma reg_merge_evaluates: "case entity_merge plain_text reg_settings 5 reg_ctx reg_merge reg_db of
    Inr (d', r) \<Rightarrow> map e_id (entities d') = [11] \<and> map r_id (relation_rows d') = [31] \<and> er_aliases r = [''Go-lang''] | Inl x \<Rightarrow> False"
  by code_simp

lemma reg_merge_runs: "\<exists>d' r. entity_merge plain_text reg_settings 5 reg_ctx reg_merge reg_db = Inr (d', r) \<and>
    map e_id (entities d') = [11] \<and> map r_id (relation_rows d') = [31]"
  using reg_merge_evaluates by (auto split: sum.splits prod.splits)

lemma reg_upsert_evaluates: "case entity_upsert plain_text reg_settings 5 reg_ctx reg_upsert reg_db reg_db of
    Inr (d', r) \<Rightarrow> er_id r = 12 \<and> er_env_id r = 1 \<and> er_version r = 2 | Inl x \<Rightarrow> False"
  by code_simp

lemma reg_upsert_runs: "\<exists>d' r. entity_upsert plain_text reg_settings 5 reg_ctx reg_upsert reg_db reg_db = Inr (d', r) \<and> er_id r = 12 \<and> er_env_id r = 1 \<and> er_version r = 2"
  using reg_upsert_evaluates by (auto split: sum.splits prod.splits)

lemma reg_upsert_valid: "valid_upsert plain_text reg_upsert"
  by code_simp

lemma reg_entities_ok: "entities_ok plain_text reg_db"
  using reg_db_ok by (simp add: registry_ok_def)

lemma registry_stays_ok_witness: "\<exists>d' r. entity_merge plain_text reg_settings 5 reg_ctx reg_merge reg_db = Inr (d', r) \<and> registry_ok plain_text d'"
proof -
  obtain d' r where m: "entity_merge plain_text reg_settings 5 reg_ctx reg_merge reg_db = Inr (d', r)" using reg_merge_runs by blast
  then show ?thesis using registry_stays_ok [OF r_into_rtranclp [of "registry_step plain_text", OF registry_step.merge [OF m]] reg_db_ok] by blast
qed

lemma upsert_idempotent_witness: "\<exists>d' r. er_version r = 2 \<and>
    entity_upsert plain_text reg_settings 5 reg_ctx reg_upsert reg_db reg_db = Inr (d', r) \<and>
    entity_upsert plain_text reg_settings 8 reg_ctx (reg_upsert\<lparr>eu_expected_version := None\<rparr>) d' d' = Inr (d', r)"
  using reg_upsert_runs upsert_idempotent [OF _ reg_entities_ok] by blast

lemma upsert_then_resolve_witness: "\<exists>d' r rs. er_id r = 12 \<and> r \<in> set rs \<and>
    entity_resolve plain_text reg_ctx \<lparr>es_name = ''Go-lang'', es_env_ids = Some [1], es_kinds = None, es_limit = 2\<rparr> d' = Inr rs"
proof -
  obtain d' r where u: "entity_upsert plain_text reg_settings 5 reg_ctx reg_upsert reg_db reg_db = Inr (d', r)" "er_id r = 12" "er_env_id r = 1"
    using reg_upsert_runs by blast
  have "''Go-lang'' \<in> set (eu_canonical_name reg_upsert # eu_aliases reg_upsert)" by (simp add: reg_upsert_def)
  from upsert_then_resolve [OF u(1) reg_entities_ok reg_upsert_valid this refl order_refl] show ?thesis using u(2,3) by metis
qed

lemma merge_names_witness: "\<exists>d' r e. entity_merge plain_text reg_settings 5 reg_ctx reg_merge reg_db = Inr (d', r) \<and> e \<in> set (entities d') \<and>
    named d' ''go lang'' e \<and> \<not> named d' ''golang'' e"
proof -
  obtain d' r where m: "entity_merge plain_text reg_settings 5 reg_ctx reg_merge reg_db = Inr (d', r)" "map e_id (entities d') = [11]" using reg_merge_runs by (elim exE conjE)
  then obtain e where e: "e \<in> set (entities d')" "e_id e = 11" by (metis image_iff list.set_intros(1) list.set_map)
  have req: "em_keep_id reg_merge = 11" "em_merge_ids reg_merge = [12]" by (simp_all add: reg_merge_def)
  show ?thesis using m e merge_names [OF m(1) reg_db_ok e(1), of "''go lang''"] merge_names [OF m(1) reg_db_ok e(1), of "''golang''"]
    unfolding req e(2) by (auto simp: reg_demo named_def has_alias_def)
qed

lemma merge_redirects_edges_witness: "\<exists>d' r. entity_merge plain_text reg_settings 5 reg_ctx reg_merge reg_db = Inr (d', r) \<and>
    graph_edges d' = merge_edge 11 {12} ` graph_edges reg_db \<and> length (relation_rows d') < length (relation_rows reg_db)"
proof -
  obtain d' r where m: "entity_merge plain_text reg_settings 5 reg_ctx reg_merge reg_db = Inr (d', r)" "map r_id (relation_rows d') = [31]" using reg_merge_runs by (elim exE conjE)
  have "length (relation_rows d') = 1" using m(2) by (metis length_map length_Cons list.size(3) One_nat_def)
  moreover have "length (relation_rows reg_db) = 2" by (simp add: reg_demo)
  ultimately show ?thesis using m(1) merge_redirects_edges [OF m(1) reg_db_ok] by (simp add: reg_merge_def)
qed

end
