(* ===== verification/Summarizer.thy ===== *)
theory Summarizer
  imports DreamStore
begin

text \<open>
  The summarizers of the dream passes (\<open>memory_mcp/dream/summarizer.py\<close>): the template one, and
  the one that asks a language model and falls back to the template. The model is a parameter:
  \<open>chat prompt\<close> is \<open>None\<close> when the call raises, otherwise the JSON document its reply spells
  (\<open>Some None\<close> for a reply that is no JSON); the texts in a reply are \<open>JStr\<close>. \<open>dots\<close> is the ellipsis character, \<open>fixed2\<close> the
  format \<open>:.2f\<close>, \<open>isoformat\<close> is \<open>isoformat()\<close>.
\<close>

record merge_member =
  mm_memory_id :: uuid
  mm_title :: "string option"
  mm_body :: string
  mm_salience :: real
  mm_created_at :: time

record merge_cluster =
  mg_primary_id :: uuid
  mg_members :: "merge_member list"
  mg_cosine_scores :: "real list"

record merge_summary =
  su_title :: "string option"
  su_body :: string
  su_kind :: summarizer_kind
  su_llm_failed :: bool
  su_llm_model_id :: "string option"

record promotion_observation =
  po_memory_id :: uuid
  po_body :: string
  po_created_at :: time

record promotion_cluster =
  pc_entity_id :: uuid
  pc_entity_name :: string
  pc_observations :: "promotion_observation list"

record promotion_summary =
  sp_title :: string
  sp_body :: string
  sp_confidence :: real
  sp_kind :: summarizer_kind
  sp_llm_failed :: bool
  sp_llm_model_id :: "string option"

subsection \<open>The template\<close>

text \<open>\<open>max(xs, key=f)\<close>: the first of the largest.\<close>

fun max_by :: "('a \<Rightarrow> 'b::linorder) \<Rightarrow> 'a \<Rightarrow> 'a list \<Rightarrow> 'a" where
  "max_by f best [] = best"
| "max_by f best (x # xs) = max_by f (if f best < f x then x else best) xs"

definition longest_member :: "merge_member \<Rightarrow> merge_member list \<Rightarrow> merge_member" where
  "longest_member m ms = max_by (\<lambda>x. (length (mm_body x), mm_created_at x)) m ms"

definition template_promotion_confidence :: "nat \<Rightarrow> real" where
  "template_promotion_confidence n = min (95/100) (40/100 + 5/100 * real n)"

definition template_merge :: "merge_cluster \<Rightarrow> merge_summary" where
  "template_merge c =
     (case mg_members c of
        [] \<Rightarrow> \<lparr>su_title = None, su_body = [], su_kind = SZ_template, su_llm_failed = False, su_llm_model_id = None\<rparr>
      | m # ms \<Rightarrow> \<lparr>su_title = mm_title (longest_member m ms), su_body = mm_body (longest_member m ms),
          su_kind = SZ_template, su_llm_failed = False, su_llm_model_id = None\<rparr>)"

definition rstrip :: "string \<Rightarrow> string" where
  "rstrip s = rev (dropWhile is_space (rev s))"

definition template_promotion :: "char \<Rightarrow> promotion_cluster \<Rightarrow> promotion_summary" where
  "template_promotion dots c =
     (case pc_observations c of
        [] \<Rightarrow> \<lparr>sp_title = ''Observations about '' @ pc_entity_name c, sp_body = [], sp_confidence = 40/100,
               sp_kind = SZ_template, sp_llm_failed = False, sp_llm_model_id = None\<rparr>
      | ob # obs \<Rightarrow>
          let topic = po_body (max_by (\<lambda>x. length (po_body x)) ob obs);
              snippet = (if length topic \<le> 240 then topic else rstrip (take 237 topic) @ [dots])
          in \<lparr>sp_title = ''Observations about '' @ pc_entity_name c,
              sp_body = ''Repeated observations about '' @ pc_entity_name c @ '': '' @ snippet,
              sp_confidence = template_promotion_confidence (length (ob # obs)),
              sp_kind = SZ_template, sp_llm_failed = False, sp_llm_model_id = None\<rparr>)"

subsection \<open>The prompts\<close>

definition llm_input_char_budget :: nat where "llm_input_char_budget = 500"
definition llm_title_char_cap :: nat where "llm_title_char_cap = 200"
definition llm_body_char_cap :: nat where "llm_body_char_cap = 4000"

definition truncate_text :: "char \<Rightarrow> string \<Rightarrow> nat \<Rightarrow> string" where
  "truncate_text dots t budget = (if length t \<le> budget then t else rstrip (take (budget - 1) t) @ [dots])"

text \<open>\<open>replace\<close> with a one-character pattern.\<close>

definition replace_char :: "char \<Rightarrow> string \<Rightarrow> string \<Rightarrow> string" where
  "replace_char c by t = concat (map (\<lambda>x. if x = c then by else [x]) t)"

definition escape_input :: "char \<Rightarrow> string \<Rightarrow> nat \<Rightarrow> string" where
  "escape_input dots t budget =
     replace_char CHR ''>'' ''&gt;'' (replace_char CHR ''<'' ''&lt;'' (replace_char CHR ''&'' ''&amp;'' (truncate_text dots t budget)))"

fun decimal :: "nat \<Rightarrow> string" where
  "decimal n = (if n < 10 then [char_of (48 + n)] else decimal (n div 10) @ [char_of (48 + n mod 10)])"

definition newline :: string where "newline = [CHR 0x0A]"
definition quote :: "string \<Rightarrow> string" where "quote t = [CHR 0x22] @ t @ [CHR 0x22]"
definition apostrophes :: "string \<Rightarrow> string" where "apostrophes t = [CHR 0x27] @ t @ [CHR 0x27]"

definition merge_prompt_member :: "char \<Rightarrow> (uuid \<Rightarrow> string) \<Rightarrow> (real \<Rightarrow> string) \<Rightarrow> nat \<times> merge_member \<Rightarrow> string" where
  "merge_prompt_member dots uuid_text fixed2 im = (case im of (i, m) \<Rightarrow>
     ''Member '' @ decimal (i + 1) @ '' (id='' @ uuid_text (mm_memory_id m) @ '', salience='' @ fixed2 (mm_salience m) @ ''):'' @ newline @
     ''  title: <input>'' @
       escape_input dots (case mm_title m of Some (c # cs) \<Rightarrow> c # cs | _ \<Rightarrow> ''(no title)'') llm_title_char_cap @ ''</input>'' @ newline @
     ''  body: <input>'' @ escape_input dots (mm_body m) llm_input_char_budget @ ''</input>'')"

fun join_with :: "string \<Rightarrow> string list \<Rightarrow> string" where
  "join_with sep [] = []"
| "join_with sep [x] = x"
| "join_with sep (x # y # ys) = x @ sep @ join_with sep (y # ys)"

definition format_merge_prompt :: "char \<Rightarrow> (uuid \<Rightarrow> string) \<Rightarrow> (real \<Rightarrow> string) \<Rightarrow> merge_cluster \<Rightarrow> string" where
  "format_merge_prompt dots uuid_text fixed2 c =
     ''Merge the following near-duplicate memories into a single canonical title and body. Preserve every distinct fact across members. '' @
     ''Reply with strict JSON only, shape: {'' @ quote ''title'' @ '': string-or-null, '' @ quote ''body'' @ '': string}.'' @ newline @ newline @
     join_with (newline @ newline) (map (merge_prompt_member dots uuid_text fixed2) (List.enumerate 0 (mg_members c)))"

definition promotion_prompt_observation ::
  "char \<Rightarrow> (uuid \<Rightarrow> string) \<Rightarrow> (time \<Rightarrow> string) \<Rightarrow> nat \<times> promotion_observation \<Rightarrow> string" where
  "promotion_prompt_observation dots uuid_text isoformat io = (case io of (i, ob) \<Rightarrow>
     ''Observation '' @ decimal (i + 1) @ '' (id='' @ uuid_text (po_memory_id ob) @ '', created_at='' @ isoformat (po_created_at ob) @ ''):'' @ newline @
     ''  <input>'' @ escape_input dots (po_body ob) llm_input_char_budget @ ''</input>'')"

definition format_promotion_prompt :: "char \<Rightarrow> (uuid \<Rightarrow> string) \<Rightarrow> (time \<Rightarrow> string) \<Rightarrow> promotion_cluster \<Rightarrow> string" where
  "format_promotion_prompt dots uuid_text isoformat c =
     ''Several observations cluster around the entity named <input>'' @ escape_input dots (pc_entity_name c) llm_title_char_cap @
     ''</input>. Synthesise them into a single factual statement suitable for promotion to a long-lived '' @ apostrophes ''fact'' @ '' memory. '' @
     ''Reply with strict JSON only, shape: {'' @ quote ''title'' @ '': string, '' @ quote ''body'' @ '': string, '' @
     quote ''confidence'' @ '': number-in-[0,1]}.'' @ newline @ newline @
     join_with (newline @ newline) (map (promotion_prompt_observation dots uuid_text isoformat) (List.enumerate 0 (pc_observations c)))"

subsection \<open>The replies\<close>

definition parse_merge_response :: "char \<Rightarrow> json option \<Rightarrow> (string option \<times> string) option" where
  "parse_merge_response dots reply =
     (case reply of
        Some (JObj kvs) \<Rightarrow>
          (case (jget kvs ''body'', jget kvs ''title'') of
             (JStr body, JNull) \<Rightarrow>
               if strip body = [] then None else Some (None, truncate_text dots (strip body) llm_body_char_cap)
           | (JStr body, JStr title) \<Rightarrow>
               if strip body = [] then None
               else Some (case truncate_text dots (strip title) llm_title_char_cap of [] \<Rightarrow> None | t \<Rightarrow> Some t,
                          truncate_text dots (strip body) llm_body_char_cap)
           | _ \<Rightarrow> None)
      | _ \<Rightarrow> None)"

text \<open>\<open>isinstance(conf_raw, (int, float))\<close> holds of a boolean too.\<close>

definition json_number :: "json \<Rightarrow> real option" where
  "json_number v = (case v of JInt i \<Rightarrow> Some (real_of_int i) | JReal r \<Rightarrow> Some r | JBool b \<Rightarrow> Some (of_bool b) | _ \<Rightarrow> None)"

definition parse_promotion_response :: "char \<Rightarrow> json option \<Rightarrow> (string \<times> string \<times> real) option" where
  "parse_promotion_response dots reply =
     (case reply of
        Some (JObj kvs) \<Rightarrow>
          (case (jget kvs ''title'', jget kvs ''body'', json_number (jget kvs ''confidence'')) of
             (JStr title, JStr body, Some conf) \<Rightarrow>
               if strip title = [] \<or> strip body = [] \<or> \<not> (0 \<le> conf \<and> conf \<le> 1) then None
               else Some (truncate_text dots (strip title) llm_title_char_cap, truncate_text dots (strip body) llm_body_char_cap, conf)
           | _ \<Rightarrow> None)
      | _ \<Rightarrow> None)"

subsection \<open>The summarizers\<close>

record text_format =
  tf_dots :: char
  tf_uuid :: "uuid \<Rightarrow> string"
  tf_fixed2 :: "real \<Rightarrow> string"
  tf_isoformat :: "time \<Rightarrow> string"

record llm_client =
  llm_model_id :: string
  llm_chat :: "string \<Rightarrow> json option option"

datatype summarizer = Template | LLM llm_client

fun summarizer_kind_of :: "summarizer \<Rightarrow> summarizer_kind" where
  "summarizer_kind_of Template = SZ_template"
| "summarizer_kind_of (LLM c) = SZ_llm"

definition merge_fallback :: "llm_client \<Rightarrow> merge_cluster \<Rightarrow> merge_summary" where
  "merge_fallback client c = (template_merge c)\<lparr>su_kind := SZ_llm, su_llm_failed := True, su_llm_model_id := Some (llm_model_id client)\<rparr>"

definition llm_merge :: "text_format \<Rightarrow> llm_client \<Rightarrow> merge_cluster \<Rightarrow> merge_summary" where
  "llm_merge tf client c =
     (if mg_members c = [] then merge_fallback client c
      else case llm_chat client (format_merge_prompt (tf_dots tf) (tf_uuid tf) (tf_fixed2 tf) c) of
        None \<Rightarrow> merge_fallback client c
      | Some reply \<Rightarrow>
          (case parse_merge_response (tf_dots tf) reply of
             None \<Rightarrow> merge_fallback client c
           | Some (title, body) \<Rightarrow> \<lparr>su_title = title, su_body = body, su_kind = SZ_llm, su_llm_failed = False,
               su_llm_model_id = Some (llm_model_id client)\<rparr>))"

fun summarize_merge :: "text_format \<Rightarrow> summarizer \<Rightarrow> merge_cluster \<Rightarrow> merge_summary" where
  "summarize_merge tf Template c = template_merge c"
| "summarize_merge tf (LLM client) c = llm_merge tf client c"

definition promotion_fallback :: "char \<Rightarrow> llm_client \<Rightarrow> promotion_cluster \<Rightarrow> promotion_summary" where
  "promotion_fallback dots client c =
     (template_promotion dots c)\<lparr>sp_kind := SZ_llm, sp_llm_failed := True, sp_llm_model_id := Some (llm_model_id client)\<rparr>"

definition llm_promotion :: "text_format \<Rightarrow> llm_client \<Rightarrow> promotion_cluster \<Rightarrow> promotion_summary" where
  "llm_promotion tf client c =
     (if pc_observations c = [] then promotion_fallback (tf_dots tf) client c
      else case llm_chat client (format_promotion_prompt (tf_dots tf) (tf_uuid tf) (tf_isoformat tf) c) of
        None \<Rightarrow> promotion_fallback (tf_dots tf) client c
      | Some reply \<Rightarrow>
          (case parse_promotion_response (tf_dots tf) reply of
             None \<Rightarrow> promotion_fallback (tf_dots tf) client c
           | Some (title, body, conf) \<Rightarrow> \<lparr>sp_title = title, sp_body = body, sp_confidence = conf, sp_kind = SZ_llm,
               sp_llm_failed = False, sp_llm_model_id = Some (llm_model_id client)\<rparr>))"

fun summarize_promotion :: "text_format \<Rightarrow> summarizer \<Rightarrow> promotion_cluster \<Rightarrow> promotion_summary" where
  "summarize_promotion tf Template c = template_promotion (tf_dots tf) c"
| "summarize_promotion tf (LLM client) c = llm_promotion tf client c"

end
