(* ===== verification/DreamPasses.thy ===== *)
theory DreamPasses
  imports DreamReview Summarizer
begin

text \<open>
  The passes that write proposals: \<open>dream/passes/dedupe.py\<close> (near-duplicate memories),
  \<open>dream/passes/promote.py\<close> (observations that mention one entity) and
  \<open>dream_worker/decision_conflicts.py\<close> (similar accepted decisions). Each statement of a pass is a
  transaction of its own: \<open>others k\<close> is what other transactions do to the database before the
  \<open>k\<close>-th insert, \<open>clock k\<close> the time of it. A pass that raises leaves the proposals it had
  committed, so it returns the database and the outcome. The embedder and the vector store are
  parameters; a hit's id that is no uuid is \<open>None\<close>.
\<close>

record vector_hit =
  vh_id :: "uuid option"
  vh_score :: real
  vh_payload :: payload

record dream_services =
  dv_embed :: "string \<Rightarrow> real list res"
  dv_search :: "uuid \<Rightarrow> real list \<Rightarrow> nat \<Rightarrow> string \<Rightarrow> vector_hit list res"
  dv_vectors :: "uuid \<Rightarrow> uuid list \<Rightarrow> (uuid \<Rightarrow> real list option) res"
  dv_summarizer :: summarizer
  dv_format :: text_format
  dv_float :: "string \<Rightarrow> real option"
  dv_str :: "json \<Rightarrow> string"

record pass_settings =
  dream_dedupe_window_days :: int
  dream_dedupe_threshold :: real
  dream_dedupe_top_k :: nat
  dream_dedupe_batch_cap :: nat
  dream_promote_window_days :: int
  dream_promote_min_cluster_size :: nat
  dream_promote_batch_cap :: nat
  dream_promote_observations_per_cluster :: nat
  decision_conflict_cosine_threshold :: real

definition days :: "int \<Rightarrow> time" where
  "days n = n * 86400 * 1000000"

text \<open>One pass: services, settings, environment, run row, start, clock and interference.\<close>

record pass_run =
  pv_services :: dream_services
  pv_settings :: pass_settings
  pv_env_id :: uuid
  pv_run_id :: "uuid option"
  pv_now :: time
  pv_clock :: "nat \<Rightarrow> time"
  pv_others :: "nat \<Rightarrow> dream_db \<Rightarrow> dream_db"

subsection \<open>Clusters of near-duplicates\<close>

definition seed_rows :: "uuid \<Rightarrow> time \<Rightarrow> nat \<Rightarrow> db \<Rightarrow> memory list" where
  "seed_rows env cutoff cap d =
     take cap (sort_key (\<lambda>m. - m_updated_at m)
       (filter (\<lambda>m. m_env_id m = env \<and> m_status m = MS_active \<and> cutoff \<le> m_updated_at m) (memories d)))"

definition seed_member :: "memory \<Rightarrow> merge_member" where
  "seed_member m = \<lparr>mm_memory_id = m_id m, mm_title = m_title m, mm_body = m_body m, mm_salience = m_salience m,
     mm_created_at = m_created_at m\<rparr>"

definition seed_text :: "memory \<Rightarrow> string" where
  "seed_text m = (case m_title m of
       Some (c # cs) \<Rightarrow> strip ((c # cs) @ newline @ newline @ m_body m)
     | _ \<Rightarrow> strip (m_body m))"

text \<open>A point's payload: the projection writes the title as a text or null.\<close>

definition payload_to_member :: "dream_services \<Rightarrow> uuid \<Rightarrow> payload \<Rightarrow> time \<Rightarrow> merge_member res" where
  "payload_to_member sv i pl fallback =
     bindE (case map_of pl ''salience'' of
              None \<Rightarrow> Inr 0
            | Some v \<Rightarrow> bindE (json_float (dv_float sv) v) (some_or (TypeError ''float''))) (\<lambda>salience.
       Inr \<lparr>mm_memory_id = i, mm_title = (case jget pl ''title'' of JStr t \<Rightarrow> Some t | _ \<Rightarrow> None),
            mm_body = (case map_of pl ''body'' of None \<Rightarrow> [] | Some (JStr t) \<Rightarrow> t | Some v \<Rightarrow> dv_str sv v),
            mm_salience = salience,
            mm_created_at = (case jget pl ''created_at'' of JTime t \<Rightarrow> t | _ \<Rightarrow> fallback)\<rparr>)"

text \<open>
  \<open>_Cluster\<close>: the two dictionaries have the same keys, the ids of the members, and are the list of
  their items in insertion order.
\<close>

type_synonym cluster = "(merge_member \<times> real) list"

definition cluster_add :: "cluster \<Rightarrow> merge_member \<Rightarrow> real \<Rightarrow> cluster" where
  "cluster_add cl m score =
     (case lookup (\<lambda>x. mm_memory_id (fst x)) (mm_memory_id m) cl of
        None \<Rightarrow> if 0 < score then cl @ [(m, score)] else cl
      | Some x \<Rightarrow> if snd x < score
          then update_where (\<lambda>y. mm_memory_id (fst y) = mm_memory_id m) (\<lambda>_. (m, score)) cl else cl)"

fun cluster_hits :: "dream_services \<Rightarrow> real \<Rightarrow> memory \<Rightarrow> vector_hit list \<Rightarrow> cluster \<Rightarrow> cluster res" where
  "cluster_hits sv threshold seed [] cl = Inr cl"
| "cluster_hits sv threshold seed (h # hs) cl =
     (case vh_id h of
        None \<Rightarrow> cluster_hits sv threshold seed hs cl
      | Some i \<Rightarrow>
          if i = m_id seed then cluster_hits sv threshold seed hs cl
          else if vh_score h < threshold then Inr cl
          else bindE (payload_to_member sv i (vh_payload h) (m_created_at seed)) (\<lambda>m.
            cluster_hits sv threshold seed hs (cluster_add cl m (vh_score h))))"

definition build_cluster_for_seed :: "pass_run \<Rightarrow> memory \<Rightarrow> cluster option res" where
  "build_cluster_for_seed run seed =
     (let sv = pv_services run; ps = pv_settings run in
      if seed_text seed = [] then Inr None
      else bindE (dv_embed sv (seed_text seed)) (\<lambda>vector.
           bindE (dv_search sv (pv_env_id run) vector (dream_dedupe_top_k ps + 1) (memory_kind_value (m_kind seed))) (\<lambda>hits.
           bindE (cluster_hits sv (dream_dedupe_threshold ps) seed hits (cluster_add [] (seed_member seed) 1)) (\<lambda>cl.
             Inr (if length cl < 2 then None else Some cl)))))"

fun select_primary :: "merge_member \<Rightarrow> merge_member list \<Rightarrow> merge_member" where
  "select_primary best [] = best"
| "select_primary best (m # ms) =
     select_primary (if mm_salience best < mm_salience m \<or>
         (mm_salience m = mm_salience best \<and> mm_memory_id m < mm_memory_id best) then m else best) ms"

definition select_primary_id :: "cluster \<Rightarrow> uuid" where
  "select_primary_id cl = mm_memory_id (select_primary (fst (hd cl)) (map fst cl))"

definition materialize_cluster :: "cluster \<Rightarrow> merge_cluster \<times> uuid list" where
  "materialize_cluster cl =
     (let sorted = sort_key (\<lambda>x. mm_memory_id (fst x)) cl in
      (\<lparr>mg_primary_id = select_primary_id cl, mg_members = map fst sorted, mg_cosine_scores = map snd sorted\<rparr>,
       map (\<lambda>x. mm_memory_id (fst x)) sorted))"

text \<open>\<open>"merge:" + ":".join(sorted(...))\<close>\<close>

definition merge_key :: "uuid list \<Rightarrow> dedupe_key" where
  "merge_key ids = DK_merge (sort ids)"

definition merge_payload :: "merge_cluster \<Rightarrow> uuid list \<Rightarrow> merge_summary \<Rightarrow> payload" where
  "merge_payload c ids su =
     [(''primary_id'', JUuid (mg_primary_id c)),
      (''candidate_ids'', JList (map JUuid (filter (\<lambda>i. i \<noteq> mg_primary_id c) ids))),
      (''cosine_scores'', JList (map JReal (mg_cosine_scores c))),
      (''suggested_merged_title'', opt_json JStr (su_title su)),
      (''suggested_merged_body'', JStr (su_body su)),
      (''summarizer_kind'', JStr (summarizer_kind_value (su_kind su))),
      (''llm_failed'', JBool (su_llm_failed su)),
      (''llm_model_id'', opt_json JStr (su_llm_model_id su))]"

definition insert_merge_proposal ::
  "uuid \<Rightarrow> uuid option \<Rightarrow> merge_cluster \<Rightarrow> uuid list \<Rightarrow> merge_summary \<Rightarrow> time \<Rightarrow> dream_db \<Rightarrow> (dream_db \<times> bool) res" where
  "insert_merge_proposal env run c ids su now s =
     insert_proposal (new_proposal (next_uuid (canon s)) env PK_merge_candidate (merge_payload c ids su)
         (Some (su_kind su)) (su_llm_failed su) (merge_key ids) run now)
       (s\<lparr>canon := draw_uuid (canon s)\<rparr>)"

definition open_merge_exists :: "uuid \<Rightarrow> dedupe_key \<Rightarrow> dream_db \<Rightarrow> bool" where
  "open_merge_exists env key s \<longleftrightarrow>
     list_ex (\<lambda>p. pr_env_id p = env \<and> pr_kind p = PK_merge_candidate \<and> pr_status p = DP_open \<and>
       pr_dedupe_key p = Some key) (dream_proposals s)"

subsection \<open>The dedupe pass\<close>

record dedupe_result =
  dd_seeds_examined :: nat
  dd_clusters_found :: nat
  dd_emitted :: nat
  dd_skipped_existing :: nat
  dd_below_min_size :: nat
  dd_capped :: bool

fun dedupe_loop ::
  "pass_run \<Rightarrow> memory list \<Rightarrow> dedupe_key list \<Rightarrow> dedupe_result \<Rightarrow> dream_db \<Rightarrow> dream_db \<times> dedupe_result res" where
  "dedupe_loop run [] keys acc s = (s, Inr acc)"
| "dedupe_loop run (seed # seeds) keys acc0 s =
     (if dream_dedupe_batch_cap (pv_settings run) \<le> dd_emitted acc0 then (s, Inr (acc0\<lparr>dd_capped := True\<rparr>))
      else let k = dd_seeds_examined acc0; acc1 = acc0\<lparr>dd_seeds_examined := k + 1\<rparr> in
        case build_cluster_for_seed run seed of
          Inl e \<Rightarrow> (s, Inl e)
        | Inr None \<Rightarrow> dedupe_loop run seeds keys (acc1\<lparr>dd_below_min_size := dd_below_min_size acc1 + 1\<rparr>) s
        | Inr (Some cl) \<Rightarrow>
            let acc = acc1\<lparr>dd_clusters_found := dd_clusters_found acc1 + 1\<rparr>;
                (c, ids) = materialize_cluster cl; key = merge_key ids in
            if key \<in> set keys then dedupe_loop run seeds keys acc s
            else if open_merge_exists (pv_env_id run) key s
              then dedupe_loop run seeds (key # keys) (acc\<lparr>dd_skipped_existing := dd_skipped_existing acc + 1\<rparr>) s
            else
              let su = summarize_merge (dv_format (pv_services run)) (dv_summarizer (pv_services run)) c in
              case insert_merge_proposal (pv_env_id run) (pv_run_id run) c ids su (pv_clock run k) (pv_others run k s) of
                Inl e \<Rightarrow> (pv_others run k s, Inl e)
              | Inr (s', inserted) \<Rightarrow>
                  dedupe_loop run seeds (key # keys)
                    (if inserted then acc\<lparr>dd_emitted := dd_emitted acc + 1\<rparr>
                     else acc\<lparr>dd_skipped_existing := dd_skipped_existing acc + 1\<rparr>) s')"

definition run_dedupe :: "pass_run \<Rightarrow> dream_db \<Rightarrow> dream_db \<times> dedupe_result res" where
  "run_dedupe run s =
     (let ps = pv_settings run in
      dedupe_loop run (seed_rows (pv_env_id run) (pv_now run - days (dream_dedupe_window_days ps)) (dream_dedupe_batch_cap ps * 3) (canon s)) []
        \<lparr>dd_seeds_examined = 0, dd_clusters_found = 0, dd_emitted = 0, dd_skipped_existing = 0, dd_below_min_size = 0, dd_capped = False\<rparr> s)"

end
