(* ===== verification/DreamPromote.thy ===== *)
theory DreamPromote
  imports DreamPasses
begin

text \<open>
  The promote pass (\<open>dream/passes/promote.py\<close>) and the scan for conflicting decisions
  (\<open>dream_worker/decision_conflicts.py\<close>), in the setting of \<open>DreamPasses\<close>. Ties that the code
  leaves to the order of a set or of the database keep the order of the table.
\<close>

subsection \<open>Observations and the entities they mention\<close>

definition observation_rows :: "uuid \<Rightarrow> time \<Rightarrow> nat \<Rightarrow> db \<Rightarrow> memory list" where
  "observation_rows env cutoff cap d =
     take cap (sort_key (\<lambda>m. - m_created_at m)
       (filter (\<lambda>m. m_env_id m = env \<and> m_kind m = MK_observation \<and> m_status m = MS_active \<and> cutoff \<le> m_created_at m)
         (memories d)))"

text \<open>The memory and the entity an edge joins, whichever end is which.\<close>

definition edge_pair :: "uuid list \<Rightarrow> graph_node \<Rightarrow> graph_node \<Rightarrow> (uuid \<times> uuid) option" where
  "edge_pair obs src dst =
     (if gn_type src = NT_memory \<and> gn_memory_id src \<in> Some ` set obs \<and> gn_type dst = NT_entity \<or>
         gn_type dst = NT_memory \<and> gn_memory_id dst \<in> Some ` set obs \<and> gn_type src = NT_entity
      then (case (if gn_type src = NT_memory then gn_memory_id src else gn_memory_id dst,
                  if gn_type src = NT_entity then gn_entity_id src else gn_entity_id dst) of
              (Some m, Some e) \<Rightarrow> Some (m, e)
            | _ \<Rightarrow> None)
      else None)"

definition relation_pairs :: "uuid \<Rightarrow> uuid list \<Rightarrow> db \<Rightarrow> (uuid \<times> uuid) list" where
  "relation_pairs env obs d =
     remdups (List.map_filter (\<lambda>r. case (lookup gn_id (r_src_node_id r) (graph_nodes d), lookup gn_id (r_dst_node_id r) (graph_nodes d)) of
         (Some a, Some b) \<Rightarrow> edge_pair obs a b
       | _ \<Rightarrow> None) (filter (\<lambda>r. r_env_id r = env) (relation_rows d)))"

definition entity_refs :: "uuid \<Rightarrow> uuid list \<Rightarrow> db \<Rightarrow> (uuid \<times> uuid \<times> string) list" where
  "entity_refs env obs d =
     (if obs = [] then []
      else List.map_filter (\<lambda>(m, e). case lookup e_id e (entities d) of
             None \<Rightarrow> None | Some row \<Rightarrow> Some (m, e, e_canonical_name row)) (relation_pairs env obs d))"

text \<open>\<open>entity_to_obs[e]\<close> and \<open>entity_names[e]\<close>: the last name wins.\<close>

definition mentions :: "(uuid \<times> uuid \<times> string) list \<Rightarrow> memory list \<Rightarrow> uuid \<Rightarrow> uuid list" where
  "mentions refs obs e = remdups [m. (m, e', _) \<leftarrow> refs, e' = e \<and> list_ex (\<lambda>o'. m_id o' = m) obs]"

definition mention_name :: "(uuid \<times> uuid \<times> string) list \<Rightarrow> memory list \<Rightarrow> uuid \<Rightarrow> string" where
  "mention_name refs obs e =
     (case rev [n. (m, e', n) \<leftarrow> refs, e' = e \<and> list_ex (\<lambda>o'. m_id o' = m) obs] of [] \<Rightarrow> [] | n # _ \<Rightarrow> n)"

definition eligible_entities :: "nat \<Rightarrow> (uuid \<times> uuid \<times> string) list \<Rightarrow> memory list \<Rightarrow> uuid list" where
  "eligible_entities min_size refs obs =
     sort (filter (\<lambda>e. mentions refs obs e \<noteq> [] \<and> min_size \<le> length (mentions refs obs e)) (remdups (map (\<lambda>(_, e, _). e) refs)))"

text \<open>\<open>sorted(ids, key=created_at, reverse=True)\<close>, a stable sort.\<close>

definition newest_first :: "memory list \<Rightarrow> uuid list \<Rightarrow> memory list" where
  "newest_first obs ids = sort_key (\<lambda>m. - m_created_at m) (List.map_filter (\<lambda>i. lookup m_id i obs) ids)"

definition promote_key :: "uuid \<Rightarrow> uuid list \<Rightarrow> dedupe_key" where
  "promote_key e ids = DK_promote e (sort ids)"

definition promotion_input :: "uuid \<Rightarrow> string \<Rightarrow> memory list \<Rightarrow> promotion_cluster" where
  "promotion_input e nm evidence =
     \<lparr>pc_entity_id = e, pc_entity_name = nm,
      pc_observations = map (\<lambda>m. \<lparr>po_memory_id = m_id m, po_body = m_body m, po_created_at = m_created_at m\<rparr>) evidence\<rparr>"

definition promotion_payload :: "uuid \<Rightarrow> string \<Rightarrow> memory list \<Rightarrow> memory list \<Rightarrow> promotion_summary \<Rightarrow> payload" where
  "promotion_payload e nm full evidence su =
     [(''all_observation_ids'', JList (map (\<lambda>m. JUuid (m_id m)) full)),
      (''evidence_observation_ids'', JList (map (\<lambda>m. JUuid (m_id m)) evidence)),
      (''observation_count'', JInt (int (length full))),
      (''evidence_observation_count'', JInt (int (length evidence))),
      (''target_kind'', JStr (memory_kind_value MK_fact)),
      (''source_entity_id'', JUuid e),
      (''source_entity_name'', JStr nm),
      (''suggested_title'', JStr (sp_title su)),
      (''suggested_body'', JStr (sp_body su)),
      (''suggested_confidence'', JReal (sp_confidence su)),
      (''summarizer_kind'', JStr (summarizer_kind_value (sp_kind su))),
      (''llm_failed'', JBool (sp_llm_failed su)),
      (''llm_model_id'', opt_json JStr (sp_llm_model_id su))]"

text \<open>The existence check of this pass looks at proposals of every status.\<close>

definition promotion_exists :: "uuid \<Rightarrow> dedupe_key \<Rightarrow> dream_db \<Rightarrow> bool" where
  "promotion_exists env key s \<longleftrightarrow>
     list_ex (\<lambda>p. pr_env_id p = env \<and> pr_kind p = PK_promotion_candidate \<and> pr_dedupe_key p = Some key) (dream_proposals s)"

definition insert_promotion_proposal ::
  "uuid \<Rightarrow> uuid option \<Rightarrow> dedupe_key \<Rightarrow> payload \<Rightarrow> promotion_summary \<Rightarrow> time \<Rightarrow> dream_db \<Rightarrow> (dream_db \<times> bool) res" where
  "insert_promotion_proposal env run key pl su now s =
     insert_proposal (new_proposal (next_uuid (canon s)) env PK_promotion_candidate pl
         (Some (sp_kind su)) (sp_llm_failed su) key run now)
       (s\<lparr>canon := draw_uuid (canon s)\<rparr>)"

subsection \<open>The promote pass\<close>

record promote_result =
  pt_observations_examined :: nat
  pt_clusters_found :: nat
  pt_emitted :: nat
  pt_skipped_existing :: nat
  pt_skipped_capped :: nat
  pt_capped :: bool

text \<open>\<open>k\<close> counts the rounds. The capped remainder is computed when the cap ends the loop.\<close>

fun promote_loop ::
  "pass_run \<Rightarrow> (uuid \<times> uuid \<times> string) list \<Rightarrow> memory list \<Rightarrow> nat \<Rightarrow> uuid list \<Rightarrow> dedupe_key list \<Rightarrow> promote_result \<Rightarrow> dream_db
   \<Rightarrow> dream_db \<times> promote_result res" where
  "promote_loop run refs obs k [] keys acc s = (s, Inr acc)"
| "promote_loop run refs obs k (e # es) keys acc s =
     (if dream_promote_batch_cap (pv_settings run) \<le> pt_emitted acc
      then (s, Inr (acc\<lparr>pt_skipped_capped := pt_clusters_found acc - (pt_emitted acc + pt_skipped_existing acc), pt_capped := True\<rparr>))
      else
        let full = newest_first obs (mentions refs obs e);
            evidence = take (dream_promote_observations_per_cluster (pv_settings run)) full;
            key = promote_key e (map m_id evidence);
            skip = acc\<lparr>pt_skipped_existing := pt_skipped_existing acc + 1\<rparr> in
        if key \<in> set keys \<or> promotion_exists (pv_env_id run) key s
        then promote_loop run refs obs (k + 1) es keys skip s
        else
          let nm = mention_name refs obs e;
              su = summarize_promotion (dv_format (pv_services run)) (dv_summarizer (pv_services run)) (promotion_input e nm evidence) in
          case insert_promotion_proposal (pv_env_id run) (pv_run_id run) key (promotion_payload e nm full evidence su) su
                 (pv_clock run k) (pv_others run k s) of
            Inl err \<Rightarrow> (pv_others run k s, Inl err)
          | Inr (s', inserted) \<Rightarrow>
              if inserted then promote_loop run refs obs (k + 1) es (key # keys) (acc\<lparr>pt_emitted := pt_emitted acc + 1\<rparr>) s'
              else promote_loop run refs obs (k + 1) es keys skip s')"

definition run_promote :: "pass_run \<Rightarrow> dream_db \<Rightarrow> dream_db \<times> promote_result res" where
  "run_promote run s =
     (let ps = pv_settings run;
          obs = observation_rows (pv_env_id run) (pv_now run - days (dream_promote_window_days ps)) (dream_promote_batch_cap ps * 5) (canon s);
          start = \<lparr>pt_observations_examined = length obs, pt_clusters_found = 0, pt_emitted = 0, pt_skipped_existing = 0,
                   pt_skipped_capped = 0, pt_capped = False\<rparr>
      in if obs = [] then (s, Inr start)
         else
           let refs = entity_refs (pv_env_id run) (map m_id obs) (canon s);
               es = eligible_entities (dream_promote_min_cluster_size ps) refs obs
           in promote_loop run refs obs 0 es [] (start\<lparr>pt_clusters_found := length es\<rparr>) s)"

subsection \<open>Conflicting decisions\<close>

definition scan_limit :: nat where
  "scan_limit = 500"

definition decision_order :: "memory \<Rightarrow> int \<times> nat" where
  "decision_order m = (- m_updated_at m, m_id m)"

definition accepted_decisions :: "uuid \<Rightarrow> db \<Rightarrow> memory list" where
  "accepted_decisions env d =
     take scan_limit (sort_key decision_order
       (filter (\<lambda>m. m_env_id m = env \<and> m_kind m = MK_decision \<and>
          (case m_decision_meta m of None \<Rightarrow> False | Some meta \<Rightarrow> jget meta ''status'' = JStr (decision_status_value DS_accepted)))
         (memories d)))"

definition dot :: "real list \<Rightarrow> real list \<Rightarrow> real" where
  "dot a b = sum_list (map2 (*) a b)"

definition cosine :: "real list \<Rightarrow> real list \<Rightarrow> real" where
  "cosine a b =
     (if length a \<noteq> length b \<or> a = [] then 0
      else if sqrt (dot a a) = 0 \<or> sqrt (dot b b) = 0 then 0
      else dot a b / (sqrt (dot a a) * sqrt (dot b b)))"

definition conflict_key :: "uuid \<Rightarrow> uuid \<Rightarrow> dedupe_key" where
  "conflict_key a b = DK_decision_conflict (min a b) (max a b)"

definition insert_conflict_proposal ::
  "uuid \<Rightarrow> uuid option \<Rightarrow> uuid \<Rightarrow> uuid \<Rightarrow> real \<Rightarrow> time \<Rightarrow> dream_db \<Rightarrow> (dream_db \<times> bool) res" where
  "insert_conflict_proposal env run a b c now s =
     insert_proposal (new_proposal (next_uuid (canon s)) env PK_decision_conflict_candidate
         [(''decision_a'', JUuid (min a b)), (''decision_b'', JUuid (max a b)), (''cosine'', JReal c)]
         None False (conflict_key a b) run now)
       (s\<lparr>canon := draw_uuid (canon s)\<rparr>)"

record conflict_result =
  cf_decisions_examined :: nat
  cf_pairs_examined :: nat
  cf_emitted :: nat
  cf_skipped_existing :: nat
  cf_missing_vectors :: nat
  cf_capped :: bool

fun later_pairs :: "'a list \<Rightarrow> ('a \<times> 'a) list" where
  "later_pairs [] = []"
| "later_pairs (x # xs) = map (\<lambda>y. (x, y)) xs @ later_pairs xs"

fun conflict_loop ::
  "pass_run \<Rightarrow> ((uuid \<times> real list) \<times> (uuid \<times> real list)) list \<Rightarrow> dedupe_key list \<Rightarrow> conflict_result \<Rightarrow> dream_db
   \<Rightarrow> dream_db \<times> conflict_result res" where
  "conflict_loop run [] keys acc s = (s, Inr acc)"
| "conflict_loop run (((a, va), (b, vb)) # ps) keys acc0 s =
     (let k = cf_pairs_examined acc0; acc = acc0\<lparr>cf_pairs_examined := k + 1\<rparr>; c = cosine va vb; key = conflict_key a b in
      if c < decision_conflict_cosine_threshold (pv_settings run) \<or> key \<in> set keys then conflict_loop run ps keys acc s
      else case insert_conflict_proposal (pv_env_id run) (pv_run_id run) a b c (pv_clock run k) (pv_others run k s) of
        Inl e \<Rightarrow> (pv_others run k s, Inl e)
      | Inr (s', inserted) \<Rightarrow>
          conflict_loop run ps (key # keys)
            (if inserted then acc\<lparr>cf_emitted := cf_emitted acc + 1\<rparr>
             else acc\<lparr>cf_skipped_existing := cf_skipped_existing acc + 1\<rparr>) s')"

definition usable_vectors :: "memory list \<Rightarrow> (uuid \<Rightarrow> real list option) \<Rightarrow> (uuid \<times> real list) list" where
  "usable_vectors rows vectors = List.map_filter (\<lambda>m. map_option (Pair (m_id m)) (vectors (m_id m))) rows"

definition run_decision_conflicts :: "pass_run \<Rightarrow> dream_db \<Rightarrow> dream_db \<times> conflict_result res" where
  "run_decision_conflicts run s =
     (let rows = accepted_decisions (pv_env_id run) (canon s);
          start = \<lparr>cf_decisions_examined = length rows, cf_pairs_examined = 0, cf_emitted = 0, cf_skipped_existing = 0,
                   cf_missing_vectors = 0, cf_capped = False\<rparr>
      in if length rows < 2 then (s, Inr start)
         else case dv_vectors (pv_services run) (pv_env_id run) (map m_id rows) of
           Inl e \<Rightarrow> (s, Inl e)
         | Inr vectors \<Rightarrow>
             let usable = usable_vectors rows vectors
             in conflict_loop run (later_pairs usable) []
                  (start\<lparr>cf_missing_vectors := length rows - length usable, cf_capped := (length rows = scan_limit)\<rparr>) s)"

end
