(* ===== verification/DreamProps.thy ===== *)
theory DreamProps
  imports DreamPromote DreamRefine
begin

text \<open>
  What the proposal passes and the reviews promise together: the proposals of the dedupe pass are
  what the accept handler reads, those of the promote pass are not; a pass changes no memory and keeps the
  table of proposals well formed; an accepted merge; a review is final.
\<close>

subsection \<open>The passes only add proposals\<close>

lemma insert_proposal_cases:
  assumes "insert_proposal p s = Inr (s', b)"
  shows "canon s' = canon s" "dream_proposals s' = dream_proposals s \<or> dream_proposals s' = dream_proposals s @ [p]"
  using assms by (auto simp: insert_proposal_def split: if_splits option.splits)

text \<open>Nothing but the uuid counter changes in the canonical tables.\<close>

definition same_canon :: "dream_db \<Rightarrow> dream_db \<Rightarrow> bool" where
  "same_canon s s' \<longleftrightarrow> (\<exists>n. canon s' = (canon s)\<lparr>uuid_used := n\<rparr>)"

lemma same_canon_refl [simp]: "same_canon s s"
  unfolding same_canon_def by (rule exI [of _ "uuid_used (canon s)"]) simp

lemma same_canon_trans: "same_canon a b \<Longrightarrow> same_canon b c \<Longrightarrow> same_canon a c"
  by (auto simp: same_canon_def)

text \<open>\<open>added K s s'\<close>: the pass added proposals that satisfy \<open>K\<close>, and did nothing else to the canonical tables.\<close>

definition added :: "(dream_proposal \<Rightarrow> bool) \<Rightarrow> dream_db \<Rightarrow> dream_db \<Rightarrow> bool" where
  "added K s s' \<longleftrightarrow> same_canon s s' \<and> (\<forall>p \<in> set (dream_proposals s'). p \<in> set (dream_proposals s) \<or> K p) \<and>
     (proposals_ok s \<longrightarrow> proposals_ok s')"

lemma added_refl [simp]: "added K s s"
  by (simp add: added_def)

lemma added_trans: "added K a b \<Longrightarrow> added K b c \<Longrightarrow> added K a c"
  unfolding added_def by (blast intro: same_canon_trans)

lemma added_insert:
  assumes "insert_proposal p (s\<lparr>canon := draw_uuid (canon s)\<rparr>) = Inr (s', b)" and "K p"
  shows "added K s s'"
proof -
  note i = insert_proposal_cases [OF assms(1)]
  have "same_canon s s'"
    unfolding same_canon_def by (rule exI [of _ "Suc (uuid_used (canon s))"]) (simp add: i(1) draw_uuid_def)
  moreover have "proposals_ok s \<Longrightarrow> proposals_ok s'"
    using insert_proposal_ok [OF _ assms(1)] by (simp add: proposals_ok_def)
  ultimately show ?thesis using i(2) assms(2) by (auto simp: added_def)
qed

text \<open>What the other transactions may do: anything that the invariant of the pass allows.\<close>

definition quiet :: "pass_run \<Rightarrow> bool" where
  "quiet run \<longleftrightarrow> (\<forall>k s. pv_others run k s = s)"

text \<open>A proposal of the dedupe pass: it stands for the cluster of one of the seeds \<open>M\<close>, with the summary of that cluster.\<close>

definition merge_made :: "pass_run \<Rightarrow> memory set \<Rightarrow> dream_proposal \<Rightarrow> bool" where
  "merge_made run M p \<longleftrightarrow> pr_kind p = PK_merge_candidate \<and> pr_status p = DP_open \<and>
     (\<exists>seed \<in> M. \<exists>cl c ids su. build_cluster_for_seed run seed = Inr (Some cl) \<and> materialize_cluster cl = (c, ids) \<and>
        su = summarize_merge (dv_format (pv_services run)) (dv_summarizer (pv_services run)) c \<and>
        pr_payload p = merge_payload c ids su \<and> pr_llm_failed p = su_llm_failed su \<and> pr_dedupe_key p = Some (merge_key ids))"

definition promotion_made :: "dream_proposal \<Rightarrow> bool" where
  "promotion_made p \<longleftrightarrow> pr_kind p = PK_promotion_candidate \<and> pr_status p = DP_open \<and>
     (\<exists>e nm full evidence su. pr_payload p = promotion_payload e nm full evidence su)"

subsection \<open>Clusters\<close>

abbreviation member_ids :: "cluster \<Rightarrow> uuid list" where
  "member_ids cl \<equiv> map (\<lambda>x. mm_memory_id (fst x)) cl"

lemma cluster_add_distinct:
  assumes "distinct (member_ids cl)"
  shows "distinct (member_ids (cluster_add cl m score))"
proof (cases "lookup (\<lambda>x. mm_memory_id (fst x)) (mm_memory_id m) cl")
  case None
  then have "mm_memory_id m \<notin> set (member_ids cl)" by (auto simp: lookup_None_iff)
  then show ?thesis using assms None by (simp add: cluster_add_def)
next
  case (Some x)
  have "map (\<lambda>y. mm_memory_id (fst y)) (update_where (\<lambda>y. mm_memory_id (fst y) = mm_memory_id m) (\<lambda>_. (m, score)) cl) = member_ids cl"
    by (induction cl) auto
  then show ?thesis using assms Some by (simp add: cluster_add_def)
qed

lemma cluster_hits_distinct:
  "cluster_hits sv threshold seed hs cl = Inr cl' \<Longrightarrow> distinct (member_ids cl) \<Longrightarrow> distinct (member_ids cl')"
proof (induction hs arbitrary: cl)
  case Nil
  then show ?case by simp
next
  case (Cons h hs)
  show ?case
  proof (cases "vh_id h")
    case None
    then show ?thesis using Cons by simp
  next
    case (Some i)
    consider "i = m_id seed" | "i \<noteq> m_id seed" "vh_score h < threshold" | "i \<noteq> m_id seed" "\<not> vh_score h < threshold" by blast
    then show ?thesis
    proof cases
      case 3
      then obtain m where "cluster_hits sv threshold seed hs (cluster_add cl m (vh_score h)) = Inr cl'"
        using Cons.prems(1) Some by (auto elim!: bindE_InrE)
      then show ?thesis using Cons.IH cluster_add_distinct [OF Cons.prems(2)] by blast
    qed (use Cons Some in simp_all)
  qed
qed

lemma build_cluster_spec:
  assumes "build_cluster_for_seed run seed = Inr (Some cl)"
  shows "distinct (member_ids cl)" "2 \<le> length cl"
proof -
  obtain hits cl' where h: "cluster_hits (pv_services run) (dream_dedupe_threshold (pv_settings run)) seed hits
      (cluster_add [] (seed_member seed) 1) = Inr cl'" "(if length cl' < 2 then None else Some cl') = Some cl"
    using assms unfolding build_cluster_for_seed_def Let_def by (auto split: if_splits elim!: bindE_InrE)
  have "cl' = cl" "2 \<le> length cl" using h(2) by (auto split: if_splits)
  moreover have "distinct (member_ids cl')"
    by (rule cluster_hits_distinct [OF h(1)]) (rule cluster_add_distinct, simp)
  ultimately show "distinct (member_ids cl)" "2 \<le> length cl" by simp_all
qed

lemma select_primary_in: "select_primary best ms = best \<or> select_primary best ms \<in> set ms"
proof (induction ms arbitrary: best)
  case (Cons m ms)
  define b where "b = (if mm_salience best < mm_salience m \<or> (mm_salience m = mm_salience best \<and> mm_memory_id m < mm_memory_id best)
    then m else best)"
  have "select_primary best (m # ms) = select_primary b ms" by (simp add: b_def)
  moreover have "b = best \<or> b = m" by (simp add: b_def)
  ultimately show ?case using Cons.IH [of b] by auto
qed simp

lemma materialize_spec:
  assumes "materialize_cluster cl = (c, ids)" and "cl \<noteq> []"
  shows "set ids = set (member_ids cl)" "length ids = length cl" "distinct (member_ids cl) \<Longrightarrow> distinct ids"
    "mg_primary_id c \<in> set ids" "sorted ids" "map mm_memory_id (mg_members c) = ids"
proof -
  have ids: "ids = member_ids (sort_key (\<lambda>x. mm_memory_id (fst x)) cl)"
    and c: "mg_primary_id c = select_primary_id cl" "mg_members c = map fst (sort_key (\<lambda>x. mm_memory_id (fst x)) cl)"
    using assms(1) by (auto simp: materialize_cluster_def Let_def)
  show m: "set ids = set (member_ids cl)" by (simp add: ids)
  show l: "length ids = length cl" by (simp add: ids)
  show "distinct ids" if "distinct (member_ids cl)"
    using distinct_card [OF that] m l by (intro card_distinct) (simp del: set_map)
  show "sorted ids" by (simp add: ids)
  show "map mm_memory_id (mg_members c) = ids" by (simp add: ids c o_def)
  have "select_primary (fst (hd cl)) (map fst cl) \<in> fst ` set cl"
    using select_primary_in [of "fst (hd cl)" "map fst cl"] assms(2) by (metis image_eqI list.set_map hd_in_set)
  then obtain x where "x \<in> set cl" "fst x = select_primary (fst (hd cl)) (map fst cl)" by auto
  then have "select_primary_id cl \<in> set (member_ids cl)" by (auto simp: select_primary_id_def intro!: image_eqI [of _ _ x])
  then show "mg_primary_id c \<in> set ids" using c(1) m by simp
qed

subsection \<open>The dedupe pass\<close>

lemma insert_merge_added:
  assumes "insert_merge_proposal env run_id c ids su now s = Inr (s', b)" "build_cluster_for_seed run seed = Inr (Some cl)"
    and "materialize_cluster cl = (c, ids)" "su = summarize_merge (dv_format (pv_services run)) (dv_summarizer (pv_services run)) c"
    and "seed \<in> M"
  shows "added (merge_made run M) s s'"
  using assms(1) unfolding insert_merge_proposal_def
  by (rule added_insert) (use assms(2-) in \<open>unfold merge_made_def new_proposal_def; fastforce\<close>)

text \<open>The counters of a pass agree.\<close>

definition dedupe_counts :: "pass_run \<Rightarrow> dedupe_result \<Rightarrow> bool" where
  "dedupe_counts run acc \<longleftrightarrow> dd_seeds_examined acc = dd_clusters_found acc + dd_below_min_size acc \<and>
     dd_emitted acc + dd_skipped_existing acc \<le> dd_clusters_found acc \<and>
     dd_emitted acc \<le> dream_dedupe_batch_cap (pv_settings run)"

lemma dedupe_round:
  assumes q: "quiet run" and run: "dedupe_loop run (seed # seeds) keys acc s = (s', res)" and ok: "dedupe_counts run acc"
    and seed: "seed \<in> M"
  obtains (stop) "added (merge_made run M) s s'" "\<And>r. res = Inr r \<Longrightarrow> dedupe_counts run r"
  | (more) keys' acc' s1 where "added (merge_made run M) s s1" "dedupe_counts run acc'" "dedupe_loop run seeds keys' acc' s1 = (s', res)"
proof -
  have quiet: "pv_others run k s = s" for k using q by (simp add: quiet_def)
  show ?thesis
  proof (cases "dream_dedupe_batch_cap (pv_settings run) \<le> dd_emitted acc")
    case True
    then show ?thesis using run ok by (intro stop) (auto simp: dedupe_counts_def)
  next
    case cap: False
    show ?thesis
    proof (cases "build_cluster_for_seed run seed")
      case (Inl e)
      then show ?thesis using run cap by (intro stop) (simp_all add: Let_def)
    next
      case (Inr r)
      show ?thesis
      proof (cases r)
        case None
        then show ?thesis using run cap Inr ok
          by (intro more [of s "acc\<lparr>dd_seeds_examined := dd_seeds_examined acc + 1, dd_below_min_size := dd_below_min_size acc + 1\<rparr>" keys])
             (simp_all add: Let_def dedupe_counts_def)
      next
        case (Some cl)
        let ?acc = "acc\<lparr>dd_seeds_examined := dd_seeds_examined acc + 1, dd_clusters_found := dd_clusters_found acc + 1\<rparr>"
        obtain c "ids" where m: "materialize_cluster cl = (c, ids)" by (cases "materialize_cluster cl")
        let ?key = "merge_key ids"
        consider (seen) "?key \<in> set keys" | (there) "?key \<notin> set keys" "open_merge_exists (pv_env_id run) ?key s"
          | (new) "?key \<notin> set keys" "\<not> open_merge_exists (pv_env_id run) ?key s" by blast
        then show ?thesis
        proof cases
          case seen
          then have "dedupe_loop run seeds keys ?acc s = (s', res)" using run cap Inr Some m by (simp add: Let_def)
          then show ?thesis using ok by (intro more [of s ?acc keys]) (simp_all add: dedupe_counts_def)
        next
          case there
          then have "dedupe_loop run seeds (?key # keys) (?acc\<lparr>dd_skipped_existing := dd_skipped_existing acc + 1\<rparr>) s = (s', res)"
            using run cap Inr Some m by (simp add: Let_def)
          then show ?thesis using ok
            by (intro more [of s "?acc\<lparr>dd_skipped_existing := dd_skipped_existing acc + 1\<rparr>" "?key # keys"]) (simp_all add: dedupe_counts_def)
        next
          case new
          define su where "su = summarize_merge (dv_format (pv_services run)) (dv_summarizer (pv_services run)) c"
          define ins where "ins = insert_merge_proposal (pv_env_id run) (pv_run_id run) c ids su (pv_clock run (dd_seeds_examined acc)) s"
          show ?thesis
          proof (cases ins)
            case (Inl e)
            then have "s' = s" "res = Inl e"
              using run cap Inr Some m new by (simp_all add: Let_def quiet su_def [symmetric] ins_def [symmetric])
            then show ?thesis by (intro stop) simp_all
          next
            case (Inr y)
            obtain s1 inserted where y: "y = (s1, inserted)" by (cases y)
            define acc' where "acc' = (if inserted then ?acc\<lparr>dd_emitted := dd_emitted acc + 1\<rparr>
              else ?acc\<lparr>dd_skipped_existing := dd_skipped_existing acc + 1\<rparr>)"
            have "dedupe_loop run seeds (?key # keys) acc' s1 = (s', res)"
              using run cap \<open>build_cluster_for_seed run seed = Inr r\<close> Some m new Inr y
              by (cases inserted) (simp_all add: Let_def quiet su_def [symmetric] ins_def [symmetric] acc'_def)
            moreover have "added (merge_made run M) s s1"
              using Inr y \<open>build_cluster_for_seed run seed = Inr r\<close> Some m su_def seed unfolding ins_def by (intro insert_merge_added) simp_all
            moreover have "dedupe_counts run acc'" using ok cap by (simp add: acc'_def dedupe_counts_def)
            ultimately show ?thesis by (intro more)
          qed
        qed
      qed
    qed
  qed
qed

lemma dedupe_loop_spec:
  assumes "quiet run" and "dedupe_loop run seeds keys acc s = (s', res)" and "dedupe_counts run acc" and "set seeds \<subseteq> M"
  shows "added (merge_made run M) s s' \<and> (\<forall>r. res = Inr r \<longrightarrow> dedupe_counts run r)"
  using assms(2-)
proof (induction seeds arbitrary: keys acc s)
  case Nil
  then show ?case by auto
next
  case (Cons seed seeds)
  have "seed \<in> M" "set seeds \<subseteq> M" using Cons.prems(3) by simp_all
  from assms(1) Cons.prems(1,2) this(1) show ?case
  proof (cases rule: dedupe_round)
    case stop
    then show ?thesis by blast
  next
    case (more keys' acc' s1)
    then show ?thesis using Cons.IH [OF more(3,2) \<open>set seeds \<subseteq> M\<close>] added_trans by blast
  qed
qed

text \<open>The seeds that a run looks at.\<close>

abbreviation pass_seeds :: "pass_run \<Rightarrow> dream_db \<Rightarrow> memory list" where
  "pass_seeds run s \<equiv> seed_rows (pv_env_id run) (pv_now run - days (dream_dedupe_window_days (pv_settings run)))
     (dream_dedupe_batch_cap (pv_settings run) * 3) (canon s)"

lemma run_dedupe_spec:
  assumes "quiet run" and "run_dedupe run s = (s', res)"
  shows "added (merge_made run (set (pass_seeds run s))) s s'" "res = Inr r \<Longrightarrow> dedupe_counts run r"
  using dedupe_loop_spec [OF assms(1) assms(2) [unfolded run_dedupe_def Let_def] _ subset_refl] by (simp_all add: dedupe_counts_def)

subsection \<open>The promote pass\<close>

lemma insert_promotion_added:
  assumes "insert_promotion_proposal env run key (promotion_payload e nm full evidence su) su now s = Inr (s', b)"
  shows "added promotion_made s s'"
  using assms unfolding insert_promotion_proposal_def
  by (rule added_insert) (simp add: promotion_made_def new_proposal_def, blast)

text \<open>\<open>n\<close> clusters are still to be looked at.\<close>

definition promote_counts :: "pass_run \<Rightarrow> nat \<Rightarrow> promote_result \<Rightarrow> bool" where
  "promote_counts run n acc \<longleftrightarrow> pt_clusters_found acc = pt_emitted acc + pt_skipped_existing acc + n \<and>
     pt_skipped_capped acc = 0 \<and> pt_emitted acc \<le> dream_promote_batch_cap (pv_settings run)"

definition promote_accounts :: "pass_run \<Rightarrow> promote_result \<Rightarrow> bool" where
  "promote_accounts run r \<longleftrightarrow> pt_clusters_found r = pt_emitted r + pt_skipped_existing r + pt_skipped_capped r \<and>
     pt_emitted r \<le> dream_promote_batch_cap (pv_settings run)"

lemma promote_loop_spec:
  assumes q: "quiet run" and "promote_loop run refs obs k es keys acc s = (s', res)" and "promote_counts run (length es) acc"
  shows "added promotion_made s s' \<and> (\<forall>r. res = Inr r \<longrightarrow> promote_accounts run r)"
  using assms(2,3)
proof (induction es arbitrary: k keys acc s)
  case Nil
  then show ?case by (auto simp: promote_counts_def promote_accounts_def)
next
  case (Cons e es)
  have quiet: "pv_others run k s = s" for k using q by (simp add: quiet_def)
  show ?case
  proof (cases "dream_promote_batch_cap (pv_settings run) \<le> pt_emitted acc")
    case True
    then show ?thesis using Cons.prems by (auto simp: promote_counts_def promote_accounts_def)
  next
    case cap: False
    define full where "full = newest_first obs (mentions refs obs e)"
    define evidence where "evidence = take (dream_promote_observations_per_cluster (pv_settings run)) full"
    define key where "key = promote_key e (map m_id evidence)"
    define nm where "nm = mention_name refs obs e"
    define su where "su = summarize_promotion (dv_format (pv_services run)) (dv_summarizer (pv_services run)) (promotion_input e nm evidence)"
    define ins where "ins = insert_promotion_proposal (pv_env_id run) (pv_run_id run) key (promotion_payload e nm full evidence su) su (pv_clock run k) s"
    note defs = full_def [symmetric] evidence_def [symmetric] key_def [symmetric] nm_def [symmetric] su_def [symmetric] ins_def [symmetric]
    let ?skip = "acc\<lparr>pt_skipped_existing := pt_skipped_existing acc + 1\<rparr>"
    have skip: "promote_counts run (length es) ?skip" using Cons.prems(2) by (simp add: promote_counts_def)
    show ?thesis
    proof (cases "key \<in> set keys \<or> promotion_exists (pv_env_id run) key s")
      case True
      then have "promote_loop run refs obs (k + 1) es keys ?skip s = (s', res)"
        using Cons.prems(1) cap by (simp add: Let_def defs)
      then show ?thesis using Cons.IH skip by blast
    next
      case False
      show ?thesis
      proof (cases ins)
        case (Inl err)
        then have "s' = s" "res = Inl err" using Cons.prems(1) cap False by (simp_all add: Let_def defs quiet)
        then show ?thesis by simp
      next
        case (Inr y)
        obtain s1 inserted where y: "y = (s1, inserted)" by (cases y)
        have step: "added promotion_made s s1" using Inr y unfolding ins_def by (intro insert_promotion_added) simp
        show ?thesis
        proof (cases inserted)
          case True
          then have "promote_loop run refs obs (k + 1) es (key # keys) (acc\<lparr>pt_emitted := pt_emitted acc + 1\<rparr>) s1 = (s', res)"
            using Cons.prems(1) cap False Inr y by (simp add: Let_def defs quiet)
          moreover have "promote_counts run (length es) (acc\<lparr>pt_emitted := pt_emitted acc + 1\<rparr>)"
            using Cons.prems(2) cap by (simp add: promote_counts_def)
          ultimately show ?thesis using Cons.IH step added_trans by blast
        next
          case no: False
          then have "promote_loop run refs obs (k + 1) es keys ?skip s1 = (s', res)"
            using Cons.prems(1) cap False Inr y by (simp add: Let_def defs quiet)
          then show ?thesis using Cons.IH skip step added_trans by blast
        qed
      qed
    qed
  qed
qed

lemma run_promote_spec:
  assumes q: "quiet run" and run: "run_promote run s = (s', res)"
  shows "added promotion_made s s'" "res = Inr r \<Longrightarrow> promote_accounts run r"
proof -
  have "added promotion_made s s' \<and> (\<forall>r. res = Inr r \<longrightarrow> promote_accounts run r)"
  proof (cases "observation_rows (pv_env_id run) (pv_now run - days (dream_promote_window_days (pv_settings run)))
      (dream_promote_batch_cap (pv_settings run) * 5) (canon s) = []")
    case True
    then show ?thesis using run by (auto simp: run_promote_def Let_def promote_accounts_def)
  next
    case False
    from run show ?thesis unfolding run_promote_def Let_def if_not_P [OF False]
      by (rule promote_loop_spec [OF q]) (simp add: promote_counts_def)
  qed
  then show "added promotion_made s s'" "res = Inr r \<Longrightarrow> promote_accounts run r" by blast+
qed

subsection \<open>What the accept handlers read\<close>

lemma those_uuids: "those (map (\<lambda>x. uuid_of_json (JUuid x)) xs) = Some xs"
  by (induction xs) (simp_all add: uuid_of_json_def)

lemma merge_made_members:
  assumes "merge_made run M p"
  obtains primary candidates where "merge_members (pr_payload p) = Inr (primary, candidates)"
    "distinct (primary # candidates)" "candidates \<noteq> []" "pr_dedupe_key p = Some (merge_key (primary # candidates))"
proof -
  obtain seed cl c "ids" su where cl: "build_cluster_for_seed run seed = Inr (Some cl)" "materialize_cluster cl = (c, ids)"
      and p: "pr_payload p = merge_payload c ids su" "pr_dedupe_key p = Some (merge_key ids)"
    using assms unfolding merge_made_def by blast
  note b = build_cluster_spec [OF cl(1)]
  have "cl \<noteq> []" using b(2) by auto
  note ms = materialize_spec [OF cl(2) this]
  have m: "pr_payload p = merge_payload c ids su" "pr_dedupe_key p = Some (merge_key ids)"
      "distinct ids" "2 \<le> length ids" "mg_primary_id c \<in> set ids"
    using p b ms(2-4) by simp_all
  let ?cs = "filter (\<lambda>i. i \<noteq> mg_primary_id c) ids"
  have ne: "?cs \<noteq> []"
  proof
    assume "?cs = []"
    then have "set ids \<subseteq> {mg_primary_id c}" by (auto simp: filter_empty_conv)
    then have "card (set ids) \<le> 1" by (metis card_mono card.empty card_insert_le_m1 finite.emptyI finite.insertI One_nat_def is_singletonI is_singleton_altdef)
    then show False using m(3,4) by (simp add: distinct_card)
  qed
  have parse: "payload_uuids (pr_payload p) ''candidate_ids'' = Some ?cs"
    using those_uuids [of ?cs] by (simp add: m(1) payload_uuids_def merge_payload_def uuids_of_json_def o_def)
  have "uuid_of_json (jget (pr_payload p) ''primary_id'') = Some (mg_primary_id c)"
    by (simp add: m(1) jget_def merge_payload_def uuid_of_json_def)
  then have "merge_members (pr_payload p) = Inr (mg_primary_id c, ?cs)"
    using parse ne by (simp add: merge_members_def)
  moreover have "sort ids = sort (mg_primary_id c # ?cs)"
  proof (rule sorted_distinct_set_unique)
    show "set (sort ids) = set (sort (mg_primary_id c # ?cs))" unfolding set_sort using m(5) by auto
    show "distinct (sort ids)" "distinct (sort (mg_primary_id c # ?cs))" unfolding distinct_sort using m(3) by simp_all
  qed (rule sorted_sort)+
  then have "pr_dedupe_key p = Some (merge_key (mg_primary_id c # ?cs))" using m(2) by (simp add: merge_key_def)
  ultimately show ?thesis using that [of "mg_primary_id c" ?cs] m(3) ne by simp
qed

lemma promotion_made_refused:
  assumes "promotion_made p"
  shows "promoted_observations (pr_payload p) = Inl (InvalidInputError ''promotion_candidate payload has no observation_ids'')"
  using assms by (auto simp: promotion_made_def promoted_observations_def payload_uuids_def promotion_payload_def)

end
