(* ===== verification/DreamReviewProps.thy ===== *)
theory DreamReviewProps
  imports DreamProps MemoryHistory
begin

text \<open>
  What a review does: an accepted merge supersedes each of its sources once by the new memory; a
  reviewed proposal is never reviewed again; overlapping merges cannot both be accepted.
\<close>

subsection \<open>Superseding the sources\<close>

lemma record_audit_rows [simp]:
  "memories (record_audit op m ag b af ex d) = memories d" "memory_lineage (record_audit op m ag b af ex d) = memory_lineage d"
  "tag_rows (record_audit op m ag b af ex d) = tag_rows d" "memory_tags (record_audit op m ag b af ex d) = memory_tags d"
  by (simp_all add: record_audit_def Let_def)

definition link_row :: "time \<Rightarrow> uuid \<Rightarrow> uuid \<Rightarrow> lineage_row" where
  "link_row now child i = \<lparr>ln_parent = i, ln_child = child, ln_relation = LR_supersedes, ln_created_at = now\<rparr>"

definition supersedes_row :: "uuid \<Rightarrow> uuid \<Rightarrow> lineage_row \<Rightarrow> bool" where
  "supersedes_row child i k \<longleftrightarrow> ln_parent k = i \<and> ln_child k = child \<and> ln_relation k = LR_supersedes"

lemma supersede_into_rows:
  assumes "supersede_into sha st now ctx merged model tags_of i d = Inr d'"
  obtains src where "lookup m_id i (memories d) = Some src"
    "memories d' = update_where (\<lambda>x. m_id x = i) (mark_superseded (m_id merged) (m_version src + 1) now) (memories d)"
    "memory_lineage d' = memory_lineage d @ [link_row now (m_id merged) i]"
    "\<forall>k \<in> set (memory_lineage d). \<not> supersedes_row (m_id merged) i k"
    "tag_rows d' = tag_rows d" "memory_tags d' = memory_tags d"
  using assms
proof (rule supersede_into_spec, goal_cases)
  case (1 src d2 x y)
  note s = this
  let ?d1 = "d\<lparr>memories := update_where (\<lambda>x. m_id x = i) (mark_superseded (m_id merged) (m_version src + 1) now) (memories d)\<rparr>"
  let ?l = "\<lparr>ln_parent = i, ln_child = m_id merged, ln_relation = LR_supersedes, ln_created_at = now\<rparr>"
  have v: "lineage_violation ?d1 ?l = None" and d2: "d2 = ?d1\<lparr>memory_lineage := memory_lineage d @ [?l]\<rparr>"
    using s(4) by (auto simp: insert_lineage_def split: option.splits)
  have no: "\<not> supersedes_row (m_id merged) i k" if "k \<in> set (memory_lineage d)" for k
  proof
    assume "supersedes_row (m_id merged) i k"
    then have "list_ex (\<lambda>k. ln_parent k = ln_parent ?l \<and> ln_child k = ln_child ?l \<and> ln_relation k = ln_relation ?l) (memory_lineage ?d1)"
      using that by (auto simp: list_ex_iff supersedes_row_def)
    then show False using v by (simp add: lineage_violation_def split: if_splits)
  qed
  obtain d3 e where q: "enqueue_event st now AT_memory i (m_version src + 1) (m_env_id src) (outbox_op_for MS_superseded False)
      (projection_payload (mark_superseded (m_id merged) (m_version src + 1) now src) (tags_of i) model) None
      (record_audit ''supersede'' (mark_superseded (m_id merged) (m_version src + 1) now src) (ctx_agent_id ctx) (Some x) (Some y)
          (Some [(''superseded_by'', JUuid (m_id merged))]) d2) = Inr (d', e)"
    using s(5) lookup_SomeD [OF s(2)] unfolding enqueue_memory_def by (auto elim!: bindE_elims)
  note fr = enqueue_frame [OF q]
  show ?case
    by (rule 1(1) [of src]) (use s(2) no fr in \<open>simp_all add: d2 link_row_def\<close>)
qed

lemma supersede_all_rows:
  assumes "supersede_all sha st now ctx merged model tags_of is d = Inr d'"
  shows "distinct is \<and> (\<forall>i \<in> set is. \<forall>k \<in> set (memory_lineage d). \<not> supersedes_row (m_id merged) i k) \<and>
    memory_lineage d' = memory_lineage d @ map (link_row now (m_id merged)) is \<and>
    (\<forall>j. lookup m_id j (memories d') =
      (if j \<in> set is then map_option (\<lambda>r. mark_superseded (m_id merged) (m_version r + 1) now r) (lookup m_id j (memories d))
       else lookup m_id j (memories d))) \<and>
    (\<forall>i \<in> set is. lookup m_id i (memories d) \<noteq> None) \<and> tag_rows d' = tag_rows d \<and> memory_tags d' = memory_tags d"
  using assms
proof (induction "is" arbitrary: d)
  case Nil
  then show ?case by simp
next
  case (Cons i js)
  obtain d1 where s: "supersede_into sha st now ctx merged model tags_of i d = Inr d1"
      "supersede_all sha st now ctx merged model tags_of js d1 = Inr d'"
    using Cons.prems by (auto elim!: bindE_elims)
  obtain src where r: "lookup m_id i (memories d) = Some src"
    "memories d1 = update_where (\<lambda>x. m_id x = i) (mark_superseded (m_id merged) (m_version src + 1) now) (memories d)"
    "memory_lineage d1 = memory_lineage d @ [link_row now (m_id merged) i]"
    "\<forall>k \<in> set (memory_lineage d). \<not> supersedes_row (m_id merged) i k"
    "tag_rows d1 = tag_rows d" "memory_tags d1 = memory_tags d"
    by (rule supersede_into_rows [OF s(1)])
  note ih = Cons.IH [OF s(2)]
  have "supersedes_row (m_id merged) i (link_row now (m_id merged) i)" by (simp add: supersedes_row_def link_row_def)
  then have new: "i \<notin> set js" using ih r(3) by auto
  have look: "lookup m_id j (memories d1) =
      (if j = i then Some (mark_superseded (m_id merged) (m_version src + 1) now src) else lookup m_id j (memories d))" for j
    unfolding r(2) using r(1) by (auto simp: lookup_update_where option.map_ident dest: lookup_SomeD split: option.splits
        cong: option.map_cong intro!: option.map_ident_strong)
  show ?case
  proof (intro conjI allI ballI)
    show "distinct (i # js)" using ih new by simp
    show "\<not> supersedes_row (m_id merged) j k" if "j \<in> set (i # js)" "k \<in> set (memory_lineage d)" for j k
      using that ih r(3,4) by auto
    show "memory_lineage d' = memory_lineage d @ map (link_row now (m_id merged)) (i # js)" using ih r(3) by simp
    show "lookup m_id j (memories d') =
      (if j \<in> set (i # js) then map_option (\<lambda>r. mark_superseded (m_id merged) (m_version r + 1) now r) (lookup m_id j (memories d))
       else lookup m_id j (memories d))" for j
      using ih look [of j] new r(1) by auto
    show "lookup m_id j (memories d) \<noteq> None" if "j \<in> set (i # js)" for j
    proof (cases "j = i")
      case True
      then show ?thesis using r(1) by simp
    next
      case False
      then have "lookup m_id j (memories d1) \<noteq> None" using that ih by simp
      then show ?thesis using look [of j] False by simp
    qed
    show "tag_rows d' = tag_rows d" "memory_tags d' = memory_tags d" using ih r(5,6) by simp_all
  qed
qed

subsection \<open>An accepted merge\<close>

lemma set_union_tags: "set (union_tags tags_of sources) = (\<Union>r \<in> set sources. set (tags_of (m_id r)))"
  by (auto simp: union_tags_def)

text \<open>\<open>merged_into d ids m d'\<close>: \<open>m\<close> is new in \<open>d'\<close> and has taken the place of the memories \<open>ids\<close> of \<open>d\<close>.\<close>

definition merged_into :: "time \<Rightarrow> db \<Rightarrow> uuid list \<Rightarrow> memory \<Rightarrow> db \<Rightarrow> bool" where
  "merged_into now d ids m d' \<longleftrightarrow>
     lookup m_id (m_id m) (memories d) = None \<and> m_status m = MS_active \<and> m_version m = 1 \<and>
     (\<forall>i \<in> set ids. \<exists>r. lookup m_id i (memories d) = Some r \<and> (m_status r = MS_active \<or> m_status r = MS_stale) \<and>
        m_env_id r = m_env_id m \<and> m_kind r = m_kind m) \<and>
     (\<forall>j. lookup m_id j (memories d') =
        (if j = m_id m then Some m
         else if j \<in> set ids then map_option (\<lambda>r. mark_superseded (m_id m) (m_version r + 1) now r) (lookup m_id j (memories d))
         else lookup m_id j (memories d))) \<and>
     memory_lineage d' = memory_lineage d @ map (link_row now (m_id m)) ids \<and>
     tag_set d' (m_id m) = (\<Union>i \<in> set ids. tag_set d i)"

lemma check_sources_spec:
  "check_sources env kind rs = Inr () \<longleftrightarrow>
   (\<forall>r \<in> set rs. m_env_id r = env \<and> m_kind r = kind \<and> (m_status r = MS_active \<or> m_status r = MS_stale))"
  by (induction rs) (auto simp: res_simps)

lemma insert_source_lineage: "insert_memory_source x d = Inr d' \<Longrightarrow> memory_lineage d' = memory_lineage d"
  by (auto simp: insert_memory_source_def split: if_splits)

lemma set_new_tags_lineage: "set_new_tags i env names d = Inr d' \<Longrightarrow> memory_lineage d' = memory_lineage d"
proof -
  have ins: "insert_tags env names d = Inr d1 \<Longrightarrow> memory_lineage d1 = memory_lineage d" for d1 d
  proof (induction names arbitrary: d)
    case (Cons n ns)
    obtain x where "insert_tags env ns x = Inr d1" "memory_lineage x = memory_lineage d"
      using Cons.prems that
      by (simp add: Let_def split: if_splits) (fastforce simp: draw_uuid_def)+
    then show ?case using Cons.IH by simp
  qed simp
  assume "set_new_tags i env names d = Inr d'"
  then show ?thesis using ins
    unfolding set_new_tags_def set_tags_def upsert_tags_def
    by (auto elim!: bindE_elims dest!: replace_memory_tags_spec(1) split: if_splits)
qed

lemma accept_merge_result:
  assumes run: "accept_merge sha uuid_text st now ctx p patch expected d = Inr (d', merged, names, ids)"
    and inv: "distinct (map m_id (memories d))" "tags_ok d"
  obtains primary candidates where "merge_members (pr_payload p) = Inr (primary, candidates)" "ids = primary # candidates"
    "distinct ids" "merged_into now d ids merged d'" "set names = tag_set d' (m_id merged)"
    "\<forall>i \<in> set ids. \<forall>v r. expected i = Some v \<longrightarrow> lookup m_id i (memories d) = Some r \<longrightarrow> m_version r = v"
  using run inv(1)
proof (rule accept_merge_spec, goal_cases)
  case (1 primary_id candidates primary sources model title body d1 d2 d3 d5)
  note s = this(2-)
  let ?d4 = "record_audit ''create'' merged (ctx_agent_id ctx) None (Some (audit_snapshot sha merged (Some names)))
                (Some [(''merged_from'', JList (map (\<lambda>r. JUuid (m_id r)) sources))]) d3"
  note new = insert_with_tags [OF inv(2) s(12,13)]
  note t3 = mem_tables_eq [OF insert_memory_source_tables [OF s(14)]] mem_tables_ledger(3) [OF insert_memory_source_tables [OF s(14)]]
  have l4: "memory_lineage ?d4 = memory_lineage d"
    using insert_memory_spec(1) [OF s(12)] set_new_tags_lineage [OF s(13)] insert_source_lineage [OF s(14)]
    by (simp add: draw_uuid_def)
  obtain e where q: "enqueue_event st now AT_memory (m_id merged) (m_version merged) (m_env_id merged) (outbox_op_for MS_active True)
      (projection_payload merged names model) None ?d4 = Inr (d5, e)"
    using s(15) unfolding enqueue_memory_def by (auto elim!: bindE_elims)
  note fr = enqueue_frame [OF q]
  have m5: "memories d5 = memories d @ [merged]" "memory_lineage d5 = memory_lineage d" "tag_set d5 = tag_set d2"
    using fr l4 t3 new(3) by (simp_all add: tag_set_def fun_eq_iff)
  note all = supersede_all_rows [OF s(16)]
  have ids: "map m_id sources = ids" using s(2,3) by simp
  have mem: "i \<in> set ids \<longleftrightarrow> (\<exists>r \<in> set sources. m_id r = i)" for i
    using ids by (metis image_iff list.set_map)
  have fresh: "lookup m_id (m_id merged) (memories d) = None" using new(6) unfolding lookup_None_iff by (metis image_eqI)
  have rows: "\<exists>r. lookup m_id i (memories d) = Some r \<and> r \<in> set sources" if "i \<in> set ids" for i
    using that s(4) unfolding mem by auto
  have notin: "m_id merged \<notin> set ids" using rows fresh by force
  have prim: "primary \<in> set sources" using s(5,6) hd_in_set by force
  have m: "m_env_id merged = m_env_id primary" "m_kind merged = m_kind primary" "m_status merged = MS_active" "m_version merged = 1"
    unfolding s(11) by (simp_all add: merged_memory_def)
  have tags: "tag_set d' (m_id merged) = set names" "tag_set d' = tag_set d5"
    using all new(4) m5(3) by (simp_all add: tag_set_def fun_eq_iff)
  have "set names = (\<Union>r \<in> set sources. tag_set d (m_id r))"
    unfolding s(9) set_union_tags load_tag_names_set ..
  also have "\<dots> = (\<Union>i \<in> m_id ` set sources. tag_set d i)" by simp
  also have "m_id ` set sources = set ids" using ids by (metis list.set_map)
  finally have names: "set names = (\<Union>i \<in> set ids. tag_set d i)" .
  have "merged_into now d ids merged d'"
    unfolding merged_into_def
  proof (intro conjI allI ballI)
    show "lookup m_id j (memories d') = (if j = m_id merged then Some merged
        else if j \<in> set ids then map_option (\<lambda>r. mark_superseded (m_id merged) (m_version r + 1) now r) (lookup m_id j (memories d))
        else lookup m_id j (memories d))" for j
      using all notin fresh rows [of j] by (auto simp: m5(1) lookup_append split: option.splits)
    show "\<exists>r. lookup m_id i (memories d) = Some r \<and> (m_status r = MS_active \<or> m_status r = MS_stale) \<and>
        m_env_id r = m_env_id merged \<and> m_kind r = m_kind merged" if "i \<in> set ids" for i
      using rows [OF that] s(7) unfolding m check_sources_spec by blast
    show "memory_lineage d' = memory_lineage d @ map (link_row now (m_id merged)) ids" using all m5(2) by simp
    show "tag_set d' (m_id merged) = (\<Union>i \<in> set ids. tag_set d i)" using tags names by simp
  qed (use fresh m in simp_all)
  moreover have "m_version r = v" if "i \<in> set ids" "expected i = Some v" "lookup m_id i (memories d) = Some r" for i v r
  proof -
    have "check_expected expected rs = Inr () \<Longrightarrow> r \<in> set rs \<Longrightarrow> m_version r = v" for rs
      using that(2) lookup_SomeD [OF that(3)] by (induction rs) (auto simp: res_simps split: option.splits)
    then show ?thesis using s(8) rows [OF that(1)] that(3) by auto
  qed
  ultimately show ?case using all tags s(1,3) by (intro 1(1) [of primary_id candidates]) simp_all
qed

subsection \<open>Histories of proposals\<close>

text \<open>
  What can happen to the table of proposals: a pass inserts one, one is reviewed, or the rest of
  the program does something to the other tables.
\<close>

inductive dream_step :: "dream_db \<Rightarrow> dream_db \<Rightarrow> bool" where
  propose: "insert_proposal p s = Inr (s', b) \<Longrightarrow> dream_step s s'"
| review: "dream_review sha uuid_text float_of refs st now ctx req s = Inr (s', resp) \<Longrightarrow> dream_step s s'"
| other: "dream_proposals s' = dream_proposals s \<Longrightarrow> dream_step s s'"

lemma reviewed_status_closed: "reviewed_status act = Inr status \<Longrightarrow> status \<noteq> DP_open"
  by (cases act) auto

lemma close_proposal_fields [simp]:
  "pr_id (close_proposal now act status notes agent pl p) = pr_id p"
  "pr_env_id (close_proposal now act status notes agent pl p) = pr_env_id p"
  "pr_status (close_proposal now act status notes agent pl p) = status"
  "pr_reviewed_at (close_proposal now act status notes agent pl p) = Some now"
  "pr_review_action (close_proposal now act status notes agent pl p) = Some act"
  "pr_dedupe_key (close_proposal now act status notes agent pl p) = pr_dedupe_key p"
  "pr_payload (close_proposal now act status notes agent pl p) = pl"
  by (simp_all add: close_proposal_def)

lemma close_proposals_ok:
  assumes ok: "proposals_ok s" and closed: "status \<noteq> DP_open"
    and s': "dream_proposals s' = update_where (\<lambda>q. pr_id q = i) (close_proposal now act status notes agent pl) (dream_proposals s)"
  shows "proposals_ok s'"
proof -
  let ?f = "close_proposal now act status notes agent pl"
  have "filter keyed_open (update_where (\<lambda>q. pr_id q = i) ?f ps) = filter (\<lambda>q. pr_id q \<noteq> i) (filter keyed_open ps)" for ps
    using closed by (induction ps) (auto simp: keyed_open_def)
  moreover have "distinct (map open_key (filter keyed_open (dream_proposals s)))" using ok by (simp add: proposals_ok_def)
  ultimately have "distinct (map open_key (filter keyed_open (dream_proposals s')))"
    unfolding s' by (simp only: distinct_map_filter)
  moreover have "review_fields_ok (?f p)" for p using closed by (simp add: review_fields_ok_def)
  ultimately show ?thesis
    using ok unfolding proposals_ok_def s' by (simp add: ball_update_where)
qed

lemma dream_step_ok:
  assumes "dream_step s s'" and "proposals_ok s"
  shows "proposals_ok s'"
  using assms(1)
proof cases
  case (propose p b)
  then show ?thesis using insert_proposal_ok assms(2) by blast
next
  case (review sha uuid_text float_of refs st now ctx req resp)
  then show ?thesis
  proof (rule dream_review_spec, goal_cases)
    case (1 p d' accepted superseded status)
    show ?case by (rule close_proposals_ok [OF assms(2) reviewed_status_closed [OF 1(4)]]) (simp add: 1(5))
  qed
next
  case other
  then show ?thesis using assms(2) by (simp add: proposals_ok_def)
qed

text \<open>A closed proposal keeps its row.\<close>

lemma closed_kept_step:
  assumes "dream_step s s'" and "lookup pr_id i (dream_proposals s) = Some p" and "pr_status p \<noteq> DP_open"
  shows "lookup pr_id i (dream_proposals s') = Some p"
  using assms(1)
proof cases
  case (propose q b)
  then show ?thesis using insert_proposal_cases(2) assms(2) by (fastforce simp: lookup_append)
next
  case (review sha uuid_text float_of refs st now ctx req resp)
  then show ?thesis
  proof (rule dream_review_spec, goal_cases)
    case (1 q d' accepted superseded status)
    have "rq_proposal_id req \<noteq> i" using 1(1,2) assms(2,3) by auto
    then show ?case using assms(2) lookup_SomeD [OF 1(1)] lookup_SomeD [OF assms(2)]
      by (simp add: 1(5) lookup_update_where)
  qed
next
  case other
  then show ?thesis using assms(2) by simp
qed

lemma closed_kept:
  assumes "dream_step\<^sup>*\<^sup>* s s'" and "lookup pr_id i (dream_proposals s) = Some p" and "pr_status p \<noteq> DP_open"
  shows "lookup pr_id i (dream_proposals s') = Some p"
  using assms(1) by (induction rule: rtranclp_induct) (use assms(2,3) closed_kept_step in blast)+

lemma review_closes:
  assumes "dream_review sha uuid_text float_of refs st now ctx req s = Inr (s', resp)"
  obtains p where "lookup pr_id (rq_proposal_id req) (dream_proposals s') = Some p" "pr_status p \<noteq> DP_open"
  using assms
proof (rule dream_review_spec, goal_cases)
  case (1 q d' accepted superseded status)
  note s = this
  have "lookup pr_id (rq_proposal_id req) (dream_proposals s') = Some (close_proposal now (rq_action req) status (rq_notes req) (ctx_agent_id ctx)
      (reviewed_payload (pr_payload q) (map_option (\<lambda>(m, names). m_id m) accepted) superseded) q)"
    using s(2) lookup_SomeD [OF s(2)] by (simp add: s(6) lookup_update_where)
  then show ?case by (rule s(1)) (simp add: reviewed_status_closed [OF s(5)])
qed

lemma review_of_closed:
  assumes "lookup pr_id (rq_proposal_id req) (dream_proposals s) = Some p" "pr_status p \<noteq> DP_open" "rq_action req \<noteq> RA_amend"
  shows "dream_review sha uuid_text float_of refs st now ctx req s =
    Inl (InvalidTransitionError (proposal_status_value (pr_status p)) (review_action_value (rq_action req)))"
  using assms by (simp add: dream_review_def lock_proposal_def)

subsection \<open>The scan for conflicting decisions\<close>

lemma conflict_loop_added:
  assumes "quiet run" and "conflict_loop run ps keys acc s = (s', res)"
  shows "added (\<lambda>p. pr_kind p = PK_decision_conflict_candidate \<and> pr_status p = DP_open) s s'"
  using assms(2)
proof (induction ps arbitrary: keys acc s)
  case Nil
  then show ?case by simp
next
  case (Cons q ps)
  let ?K = "\<lambda>p. pr_kind p = PK_decision_conflict_candidate \<and> pr_status p = DP_open"
  obtain a va b vb where q: "q = ((a, va), (b, vb))" by (metis surj_pair)
  have quiet: "pv_others run k s = s" for k using assms(1) by (simp add: quiet_def)
  define c where "c = cosine va vb"
  define ins where "ins = insert_conflict_proposal (pv_env_id run) (pv_run_id run) a b c (pv_clock run (cf_pairs_examined acc)) s"
  let ?acc = "acc\<lparr>cf_pairs_examined := cf_pairs_examined acc + 1\<rparr>"
  show ?case
  proof (cases "c < decision_conflict_cosine_threshold (pv_settings run) \<or> conflict_key a b \<in> set keys")
    case True
    then have "conflict_loop run ps keys ?acc s = (s', res)" using Cons.prems by (simp add: q Let_def c_def)
    then show ?thesis by (rule Cons.IH)
  next
    case False
    show ?thesis
    proof (cases ins)
      case (Inl e)
      then have "s' = s" using Cons.prems False by (simp add: q Let_def c_def [symmetric] ins_def [symmetric] quiet)
      then show ?thesis by simp
    next
      case (Inr y)
      obtain s1 inserted where y: "y = (s1, inserted)" by (cases y)
      have "added ?K s s1"
        using Inr y unfolding ins_def insert_conflict_proposal_def by (intro added_insert) (auto simp: new_proposal_def)
      moreover have "\<exists>acc'. conflict_loop run ps (conflict_key a b # keys) acc' s1 = (s', res)"
        using Cons.prems False Inr y by (auto simp: q Let_def c_def [symmetric] ins_def [symmetric] quiet)
      ultimately show ?thesis using Cons.IH added_trans by blast
    qed
  qed
qed

lemma run_decision_conflicts_added:
  assumes "quiet run" and "run_decision_conflicts run s = (s', res)"
  shows "added (\<lambda>p. pr_kind p = PK_decision_conflict_candidate \<and> pr_status p = DP_open) s s'"
  using assms(2) unfolding run_decision_conflicts_def Let_def
  by (auto split: if_splits sum.splits dest: conflict_loop_added [OF assms(1)])

lemma supersede_all_memory_ids:
  "supersede_all sha st now ctx merged model tags_of is d = Inr d' \<Longrightarrow> map m_id (memories d') = map m_id (memories d)"
proof (induction "is" arbitrary: d)
  case (Cons i js)
  obtain d1 where s: "supersede_into sha st now ctx merged model tags_of i d = Inr d1"
      "supersede_all sha st now ctx merged model tags_of js d1 = Inr d'"
    using Cons.prems by (auto elim!: bindE_elims)
  show ?case
    by (rule supersede_into_rows [OF s(1)]) (use Cons.IH [OF s(2)] in simp)
qed simp

lemma accepted_merge_keeps:
  assumes run: "accept_merge sha uuid_text st now ctx p patch expected d = Inr (d', merged, names, ids)"
    and inv: "distinct (map m_id (memories d))" "tags_ok d"
  shows "distinct (map m_id (memories d'))" "tags_ok d'"
proof -
  have "distinct (map m_id (memories d')) \<and> tags_ok d'"
    using run inv(1)
  proof (rule accept_merge_spec, goal_cases)
    case (1 primary_id candidates primary sources model title body d1 d2 d3 d5)
    note s = this
    let ?d4 = "record_audit ''create'' merged (ctx_agent_id ctx) None (Some (audit_snapshot sha merged (Some names)))
                (Some [(''merged_from'', JList (map (\<lambda>r. JUuid (m_id r)) sources))]) d3"
    note new = insert_with_tags [OF inv(2) s(12,13)]
    note t3 = mem_tables_eq [OF insert_memory_source_tables [OF s(14)]]
    obtain e where "enqueue_event st now AT_memory (m_id merged) (m_version merged) (m_env_id merged) (outbox_op_for MS_active True)
        (projection_payload merged names model) None ?d4 = Inr (d5, e)"
      using s(15) unfolding enqueue_memory_def by (auto elim!: bindE_elims)
    note fr = enqueue_frame [OF this]
    have d5: "memories d5 = memories d @ [merged]" "tags_ok d5"
      using fr t3 new(1,3) by (simp_all add: tags_ok_def)
    have ids: "map m_id (memories d') = map m_id (memories d5)" by (rule supersede_all_memory_ids [OF s(16)])
    have "tag_rows d' = tag_rows d5" "memory_tags d' = memory_tags d5" using supersede_all_rows [OF s(16)] by simp_all
    moreover have "m_id ` set (memories d') = m_id ` set (memories d5)" using ids by (metis list.set_map)
    ultimately have "tags_ok d'" using d5(2) by (simp add: tags_ok_def)
    moreover have "distinct (map m_id (memories d'))" unfolding ids using d5(1) new(6) inv(1) by simp
    ultimately show ?case by simp
  qed
  then show "distinct (map m_id (memories d'))" "tags_ok d'" by blast+
qed

end
