(* ===== verification/Proposals.thy ===== *)
theory Proposals
  imports DreamReviewProps MemoryProps TaskReads
begin

text \<open>
  The properties of the proposal machinery: what the passes write, what a reviewer can accept, and
  what a review is worth. The concrete store has two memories with the same text.
\<close>

definition plain_format :: text_format where
  "plain_format = \<lparr>tf_dots = CHR ''.'', tf_uuid = (\<lambda>i. ''u''), tf_fixed2 = (\<lambda>r. ''0''), tf_isoformat = (\<lambda>t. ''t'')\<rparr>"

definition twin_services :: dream_services where
  "twin_services = \<lparr>dv_embed = (\<lambda>t. Inr [1]),
     dv_search = (\<lambda>env v n kind. Inr [\<lparr>vh_id = Some 100, vh_score = 1, vh_payload = []\<rparr>, \<lparr>vh_id = Some 101, vh_score = 1, vh_payload = []\<rparr>]),
     dv_vectors = (\<lambda>env ids. Inr (\<lambda>i. Some [1])), dv_summarizer = Template, dv_format = plain_format,
     dv_float = (\<lambda>t. None), dv_str = (\<lambda>v. [])\<rparr>"

definition twin_settings :: pass_settings where
  "twin_settings = \<lparr>dream_dedupe_window_days = 7, dream_dedupe_threshold = 92/100, dream_dedupe_top_k = 10,
     dream_dedupe_batch_cap = 200, dream_promote_window_days = 14, dream_promote_min_cluster_size = 2,
     dream_promote_batch_cap = 100, dream_promote_observations_per_cluster = 20, decision_conflict_cosine_threshold = 1/2\<rparr>"

definition twin_run :: pass_run where
  "twin_run = \<lparr>pv_services = twin_services, pv_settings = twin_settings, pv_env_id = 1, pv_run_id = None, pv_now = 9,
     pv_clock = (\<lambda>k. 10), pv_others = (\<lambda>k s. s)\<rparr>"

definition twin_memory :: "uuid \<Rightarrow> memory" where
  "twin_memory i = new_memory i 1 (notes_write\<lparr>mw_kind := MK_observation\<rparr>) None None None 5"

text \<open>Both memories mention the entity 50.\<close>

definition twin_db :: db where
  "twin_db = notes_db\<lparr>memories := [twin_memory 100, twin_memory 101],
     entities := [\<lparr>e_id = 50, e_env_id = 1, e_kind = ''k'', e_canonical_name = ''E'', e_normalized_name = ''e'',
        e_metadata = [], e_created_at = 1, e_updated_at = 1, e_version = 1\<rparr>],
     graph_nodes := [\<lparr>gn_id = 60, gn_env_id = 1, gn_type = NT_memory, gn_memory_id = Some 100, gn_entity_id = None, gn_task_id = None\<rparr>,
        \<lparr>gn_id = 61, gn_env_id = 1, gn_type = NT_memory, gn_memory_id = Some 101, gn_entity_id = None, gn_task_id = None\<rparr>,
        \<lparr>gn_id = 62, gn_env_id = 1, gn_type = NT_entity, gn_memory_id = None, gn_entity_id = Some 50, gn_task_id = None\<rparr>],
     relation_rows := [\<lparr>r_id = 70, r_env_id = 1, r_src_node_id = 60, r_dst_node_id = 62, r_type = ''mentions'', r_properties = [],
          r_version = 1, r_created_at = 1, r_updated_at = 1\<rparr>,
        \<lparr>r_id = 71, r_env_id = 1, r_src_node_id = 61, r_dst_node_id = 62, r_type = ''mentions'', r_properties = [],
          r_version = 1, r_created_at = 1, r_updated_at = 1\<rparr>],
     uuid_used := 2\<rparr>"

definition twin_store :: dream_db where
  "twin_store = \<lparr>canon = twin_db, dream_runs = [], dream_proposals = [], heartbeats = []\<rparr>"

lemma twin_quiet: "quiet twin_run"
  by (simp add: quiet_def twin_run_def)

definition review_of :: "uuid \<Rightarrow> review_action \<Rightarrow> review_request" where
  "review_of i act = \<lparr>rq_proposal_id = i, rq_action = act, rq_notes = None, rq_patch = None, rq_expected_versions = (\<lambda>_. None)\<rparr>"

definition twin_deduped :: dream_db where
  "twin_deduped = fst (run_dedupe twin_run twin_store)"

lemma twin_deduped_one: "map pr_id (dream_proposals twin_deduped) = [102]"
  by code_simp

lemma twin_accepted:
  "case dream_review (\<lambda>s. s) (\<lambda>i. ''u'') (\<lambda>t. None) no_refs notes_settings 11 notes_ctx (review_of 102 RA_accept) twin_deduped of
     Inl e \<Rightarrow> False | Inr (s', resp) \<Rightarrow> rv_superseded_memory_ids resp = [100, 101]"
  by code_simp

definition twin_promoted :: dream_db where
  "twin_promoted = fst (run_promote twin_run twin_store)"

lemma twin_promoted_one: "map pr_id (dream_proposals twin_promoted) = [102]"
  by code_simp

subsection \<open>The table of proposals\<close>

text \<open>C33: In every history of proposals, reviews and other work the table of proposals stays well formed: ids are
  unique, a proposal is open exactly as long as it has no review, and no two open proposals of an environment
  have the same kind and key.\<close>

theorem proposals_stay_ok:
  assumes "dream_step\<^sup>*\<^sup>* s0 s" and "dream_proposals s0 = []"
  shows "proposals_ok s"
  using assms(1)
proof (induction rule: rtranclp_induct)
  case base
  then show ?case using assms(2) by (simp add: proposals_ok_def)
next
  case (step s1 s2)
  then show ?case using dream_step_ok by blast
qed

definition twin_proposal :: dream_proposal where
  "twin_proposal = new_proposal 102 1 PK_merge_candidate [(''primary_id'', JUuid 100), (''candidate_ids'', JList [JUuid 101])]
     (Some SZ_template) False (DK_merge [100, 101]) None 10"

definition twin_open :: dream_db where
  "twin_open = twin_store\<lparr>dream_proposals := [twin_proposal]\<rparr>"

lemma twin_insert: "insert_proposal twin_proposal twin_store = Inr (twin_open, True)"
  by (simp add: insert_proposal_def open_conflict_def proposal_violation_def review_fields_ok_def env_exists_def
      twin_open_def twin_store_def twin_proposal_def new_proposal_def twin_db_def notes_db_def)

lemma twin_reviewed:
  "case dream_review (\<lambda>s. s) (\<lambda>i. ''u'') (\<lambda>t. None) no_refs notes_settings 11 notes_ctx (review_of 102 RA_accept) twin_open of
     Inl e \<Rightarrow> False | Inr (s', resp) \<Rightarrow> lookup pr_id 102 (dream_proposals twin_open) = Some twin_proposal"
  by code_simp

lemma twin_review:
  obtains s' resp where
    "dream_review (\<lambda>s. s) (\<lambda>i. ''u'') (\<lambda>t. None) no_refs notes_settings 11 notes_ctx (review_of 102 RA_accept) twin_open = Inr (s', resp)"
  using twin_reviewed by (auto split: sum.splits prod.splits)

lemma twin_open_lookup: "lookup pr_id 102 (dream_proposals twin_open) = Some twin_proposal"
  by code_simp

lemma proposals_stay_ok_witness: "\<exists>s. dream_proposals s \<noteq> [] \<and> proposals_ok s"
proof -
  obtain s' resp where r: "dream_review (\<lambda>s. s) (\<lambda>i. ''u'') (\<lambda>t. None) no_refs notes_settings 11 notes_ctx (review_of 102 RA_accept) twin_open = Inr (s', resp)"
    by (rule twin_review)
  have "dream_step\<^sup>*\<^sup>* twin_store s'"
    using dream_step.propose [OF twin_insert] dream_step.review [OF r] by (meson rtranclp.rtrancl_into_rtrancl rtranclp.rtrancl_refl)
  moreover have "dream_proposals twin_store = []" by (simp add: twin_store_def)
  ultimately have "proposals_ok s'" by (rule proposals_stay_ok)
  moreover have "dream_proposals s' \<noteq> []"
    by (rule review_closes [OF r]) auto
  ultimately show ?thesis by blast
qed

text \<open>C34: A review is final: whatever happens afterwards, every later review of the same proposal is refused with
  an invalid transition.\<close>

theorem review_is_final:
  assumes "dream_review sha uuid_text float_of refs st now ctx req s = Inr (s1, resp)" and "dream_step\<^sup>*\<^sup>* s1 s2"
    and "rq_proposal_id req' = rq_proposal_id req" and "rq_action req' \<noteq> RA_amend"
  shows "\<exists>status. status \<noteq> DP_open \<and> dream_review sha' uuid_text' float_of' refs' st' now' ctx' req' s2 =
    Inl (InvalidTransitionError (proposal_status_value status) (review_action_value (rq_action req')))"
proof -
  obtain p where p: "lookup pr_id (rq_proposal_id req) (dream_proposals s1) = Some p" "pr_status p \<noteq> DP_open"
    by (rule review_closes [OF assms(1)])
  have "lookup pr_id (rq_proposal_id req') (dream_proposals s2) = Some p"
    using closed_kept [OF assms(2) p] assms(3) by simp
  then show ?thesis using review_of_closed p(2) assms(4) by blast
qed

lemma review_is_final_witness:
  "\<exists>s1 status. dream_review (\<lambda>s. s) (\<lambda>i. ''u'') (\<lambda>t. None) no_refs notes_settings 12 notes_ctx (review_of 102 RA_reject) s1 =
    Inl (InvalidTransitionError (proposal_status_value status) ''reject'')"
proof -
  obtain s' resp where r: "dream_review (\<lambda>s. s) (\<lambda>i. ''u'') (\<lambda>t. None) no_refs notes_settings 11 notes_ctx (review_of 102 RA_accept) twin_open = Inr (s', resp)"
    by (rule twin_review)
  have "rq_proposal_id (review_of 102 RA_reject) = rq_proposal_id (review_of 102 RA_accept)" "rq_action (review_of 102 RA_reject) \<noteq> RA_amend"
    by (simp_all add: review_of_def)
  from review_is_final [OF r rtranclp.rtrancl_refl this, of "\<lambda>s. s" "\<lambda>i. ''u''" "\<lambda>t. None" no_refs notes_settings 12 notes_ctx]
  show ?thesis by (auto simp: review_of_def)
qed

subsection \<open>From a pass to a review\<close>

text \<open>Every proposal that the dedupe pass adds can be read by the accept handler: its payload names a primary and
  at least one candidate, all different, and they are the members that its key stands for.\<close>

lemma dedupe_proposals_readable:
  assumes "run_dedupe run s = (s', res)" and "quiet run" and "p \<in> set (dream_proposals s')" and "p \<notin> set (dream_proposals s)"
  shows "pr_status p = DP_open \<and> (\<exists>primary candidates. merge_members (pr_payload p) = Inr (primary, candidates) \<and>
    distinct (primary # candidates) \<and> candidates \<noteq> [] \<and> pr_dedupe_key p = Some (merge_key (primary # candidates)))"
proof -
  have m: "merge_made run (set (pass_seeds run s)) p" using run_dedupe_spec(1) [OF assms(2,1)] assms(3,4) by (auto simp: added_def)
  show ?thesis
  proof (rule merge_made_members [OF m], goal_cases)
    case (1 primary candidates)
    then show ?case using m by (auto simp: merge_made_def)
  qed
qed

lemma dedupe_proposals_readable_witness:
  "\<exists>p \<in> set (dream_proposals twin_deduped). \<exists>primary candidates. merge_members (pr_payload p) = Inr (primary, candidates)"
proof -
  obtain p where p: "p \<in> set (dream_proposals twin_deduped)" using twin_deduped_one by fastforce
  have run: "run_dedupe twin_run twin_store = (twin_deduped, snd (run_dedupe twin_run twin_store))" by (simp add: twin_deduped_def)
  have "p \<notin> set (dream_proposals twin_store)" by (simp add: twin_store_def)
  from dedupe_proposals_readable [OF run twin_quiet p this] p show ?thesis by blast
qed

text \<open>C38: No proposal of the promote pass can ever be accepted: the pass writes the observations under
  \<open>all_observation_ids\<close> and \<open>evidence_observation_ids\<close>, the accept handler reads \<open>observation_ids\<close> and refuses
  the proposal as invalid input.\<close>

theorem promote_proposals_refused:
  assumes "run_promote run s = (s', res)" and "quiet run"
    and "lookup pr_id (rq_proposal_id req) (dream_proposals s') = Some p" and "p \<notin> set (dream_proposals s)" and "rq_action req = RA_accept"
  shows "dream_review sha uuid_text float_of refs st now ctx req s' =
    Inl (InvalidInputError ''promotion_candidate payload has no observation_ids'')"
proof -
  have "promotion_made p"
    using run_promote_spec(1) [OF assms(2,1)] lookup_SomeD [OF assms(3)] assms(4) by (auto simp: added_def)
  moreover from this have "pr_status p = DP_open" "pr_kind p = PK_promotion_candidate" by (simp_all add: promotion_made_def)
  ultimately show ?thesis
    using assms(3,5) promotion_made_refused [of p]
    by (simp add: dream_review_def lock_proposal_def review_effect_def accept_proposal_def accept_promotion_def)
qed

lemma promote_proposals_refused_witness:
  "dream_review (\<lambda>s. s) (\<lambda>i. ''u'') (\<lambda>t. None) no_refs notes_settings 11 notes_ctx (review_of 102 RA_accept) twin_promoted =
    Inl (InvalidInputError ''promotion_candidate payload has no observation_ids'')"
proof -
  have run: "run_promote twin_run twin_store = (twin_promoted, snd (run_promote twin_run twin_store))" by (simp add: twin_promoted_def)
  obtain p where p: "lookup pr_id 102 (dream_proposals twin_promoted) = Some p"
    using twin_promoted_one by (cases "dream_proposals twin_promoted") auto
  have "p \<notin> set (dream_proposals twin_store)" by (simp add: twin_store_def)
  from promote_proposals_refused [OF run twin_quiet _ this, of "review_of 102 RA_accept"] p show ?thesis
    by (simp add: review_of_def)
qed

text \<open>C39: The passes only propose: a run of the dedupe, promote or conflict pass leaves every canonical table as it
  was, and only draws uuids.\<close>

theorem passes_only_propose:
  assumes "quiet run"
  shows "same_canon s (fst (run_dedupe run s)) \<and> same_canon s (fst (run_promote run s)) \<and> same_canon s (fst (run_decision_conflicts run s))"
  using run_dedupe_spec(1) [OF assms, of s "fst (run_dedupe run s)" "snd (run_dedupe run s)"]
    run_promote_spec(1) [OF assms, of s "fst (run_promote run s)" "snd (run_promote run s)"]
    run_decision_conflicts_added [OF assms, of s "fst (run_decision_conflicts run s)" "snd (run_decision_conflicts run s)"]
  by (simp add: added_def)

lemma passes_only_propose_witness: "memories (canon (fst (run_dedupe twin_run twin_store))) = memories (canon twin_store)"
  using passes_only_propose [OF twin_quiet, of twin_store] by (auto simp: same_canon_def)

text \<open>The counters of the passes add up: every cluster the promote pass found was proposed, skipped as existing or
  capped, every seed of the dedupe pass gave a cluster or not, and neither pass exceeds its cap.\<close>

lemma pass_counters_agree:
  assumes "quiet run" and "snd (run_promote run s) = Inr p" and "snd (run_dedupe run s) = Inr d"
  shows "pt_clusters_found p = pt_emitted p + pt_skipped_existing p + pt_skipped_capped p \<and>
    pt_emitted p \<le> dream_promote_batch_cap (pv_settings run) \<and>
    dd_seeds_examined d = dd_clusters_found d + dd_below_min_size d \<and>
    dd_emitted d + dd_skipped_existing d \<le> dd_clusters_found d \<and> dd_emitted d \<le> dream_dedupe_batch_cap (pv_settings run)"
proof -
  have "run_promote run s = (fst (run_promote run s), Inr p)" "run_dedupe run s = (fst (run_dedupe run s), Inr d)"
    using assms(2,3) by (simp_all add: prod_eq_iff)
  then show ?thesis
    using run_promote_spec(2) [OF assms(1) _ refl] run_dedupe_spec(2) [OF assms(1) _ refl]
    unfolding promote_accounts_def dedupe_counts_def by blast
qed

lemma twin_counters:
  "(case snd (run_promote twin_run twin_store) of Inl e \<Rightarrow> False | Inr p \<Rightarrow> pt_emitted p = 1) \<and>
   (case snd (run_dedupe twin_run twin_store) of Inl e \<Rightarrow> False | Inr d \<Rightarrow> dd_seeds_examined d = 2)"
  by code_simp

lemma pass_counters_agree_witness:
  "\<exists>p d. snd (run_promote twin_run twin_store) = Inr p \<and> snd (run_dedupe twin_run twin_store) = Inr d \<and>
     pt_clusters_found p = pt_emitted p + pt_skipped_existing p + pt_skipped_capped p \<and>
     dd_seeds_examined d = dd_clusters_found d + dd_below_min_size d"
proof -
  obtain p d where pd: "snd (run_promote twin_run twin_store) = Inr p" "snd (run_dedupe twin_run twin_store) = Inr d"
    using twin_counters by (auto split: sum.splits)
  from pass_counters_agree [OF twin_quiet this] pd show ?thesis by blast
qed

subsection \<open>Accepted merges\<close>

lemma twin_ids: "distinct (map m_id (memories (canon twin_open)))" and twin_tags: "tags_ok (canon twin_open)"
  by (simp_all add: twin_open_def twin_store_def twin_db_def twin_memory_def new_memory_def notes_db_def empty_db_def tags_ok_def)

lemma accepted_merge_run:
  assumes "dream_review sha uuid_text float_of refs st now ctx req s = Inr (s', resp)"
    and "lookup pr_id (rq_proposal_id req) (dream_proposals s) = Some p" and "pr_kind p = PK_merge_candidate" and "rq_action req = RA_accept"
  obtains merged names "ids" where "accept_merge sha uuid_text st now ctx p (rq_patch req) (rq_expected_versions req) (canon s)
      = Inr (canon s', merged, names, ids)" "rv_superseded_memory_ids resp = ids" "rv_accepted_memory resp = Some (memory_to_response refs merged names)"
  using assms(1)
proof (rule dream_review_spec, goal_cases)
  case (1 q d' accepted superseded status)
  note s = this
  have "q = p" using s(2) assms(2) by simp
  then obtain m names where m: "accept_merge sha uuid_text st now ctx p (rq_patch req) (rq_expected_versions req) (canon s) = Inr (d', m, names, superseded)"
      "accepted = Some (m, names)"
    using s(4) assms(3,4) unfolding review_effect_def accept_proposal_def by (auto elim!: bindE_InrE)
  show ?case by (rule s(1) [of m names superseded]) (use m s(6-8) in simp_all)
qed

text \<open>C35: An accepted merge puts one new active memory in the place of its sources: they are the primary and the
  candidates of the payload, all different, active or stale, of one environment and kind and of the versions the reviewer
  expected; each becomes superseded by the new memory at its next version with a lineage row, every other memory
  stays as it is, and the new memory has the union of their tags.\<close>

theorem accepted_merge:
  assumes "dream_review sha uuid_text float_of refs st now ctx req s = Inr (s', resp)"
    and "lookup pr_id (rq_proposal_id req) (dream_proposals s) = Some p" and "pr_kind p = PK_merge_candidate" and "rq_action req = RA_accept"
    and "distinct (map m_id (memories (canon s)))" and "tags_ok (canon s)"
  shows "\<exists>primary candidates merged names. merge_members (pr_payload p) = Inr (primary, candidates) \<and> distinct (primary # candidates) \<and>
    rv_superseded_memory_ids resp = primary # candidates \<and> rv_accepted_memory resp = Some (memory_to_response refs merged names) \<and>
    merged_into now (canon s) (primary # candidates) merged (canon s') \<and>
    (\<forall>i \<in> set (primary # candidates). \<forall>v r. rq_expected_versions req i = Some v \<longrightarrow>
       lookup m_id i (memories (canon s)) = Some r \<longrightarrow> m_version r = v)"
proof -
  obtain merged names "ids" where a: "accept_merge sha uuid_text st now ctx p (rq_patch req) (rq_expected_versions req) (canon s)
      = Inr (canon s', merged, names, ids)" "rv_superseded_memory_ids resp = ids" "rv_accepted_memory resp = Some (memory_to_response refs merged names)"
    by (rule accepted_merge_run [OF assms(1-4)])
  show ?thesis
  proof (rule accept_merge_result [OF a(1) assms(5,6)], goal_cases)
    case (1 primary candidates)
    then show ?case using a(2,3) by (intro exI [of _ primary] exI [of _ candidates] exI [of _ merged] exI [of _ names]) simp
  qed
qed

lemma accepted_merge_witness:
  "\<exists>merged d'. merged_into 11 (canon twin_open) [100, 101] merged d'"
proof -
  obtain s' resp where r: "dream_review (\<lambda>s. s) (\<lambda>i. ''u'') (\<lambda>t. None) no_refs notes_settings 11 notes_ctx (review_of 102 RA_accept) twin_open = Inr (s', resp)"
    by (rule twin_review)
  have l: "lookup pr_id (rq_proposal_id (review_of 102 RA_accept)) (dream_proposals twin_open) = Some twin_proposal"
    using twin_open_lookup by (simp add: review_of_def)
  have k: "pr_kind twin_proposal = PK_merge_candidate" "rq_action (review_of 102 RA_accept) = RA_accept"
    by (simp_all add: twin_proposal_def new_proposal_def review_of_def)
  have m: "merge_members (pr_payload twin_proposal) = Inr (100, [101])" by code_simp
  from accepted_merge [OF r l k twin_ids twin_tags] m show ?thesis by auto
qed

text \<open>C36: Two merge proposals that share a memory cannot both be accepted: after the first is, accepting the second
  fails, whatever it is.\<close>

theorem overlapping_merges_conflict:
  assumes "dream_review sha uuid_text float_of refs st now ctx req s = Inr (s', resp)"
    and "lookup pr_id (rq_proposal_id req) (dream_proposals s) = Some p" and "pr_kind p = PK_merge_candidate" and "rq_action req = RA_accept"
    and "distinct (map m_id (memories (canon s)))" and "tags_ok (canon s)"
    and "lookup pr_id (rq_proposal_id req') (dream_proposals s') = Some q" and "pr_kind q = PK_merge_candidate" and "rq_action req' = RA_accept"
    and "merge_members (pr_payload p) = Inr (primary, candidates)" and "merge_members (pr_payload q) = Inr (primary', candidates')"
    and "i \<in> set (primary # candidates)" and "i \<in> set (primary' # candidates')"
  shows "\<exists>e. dream_review sha uuid_text float_of refs st now' ctx' req' s' = Inl e"
proof (cases "dream_review sha uuid_text float_of refs st now' ctx' req' s'")
  case (Inr y)
  obtain s'' resp'' where y: "dream_review sha uuid_text float_of refs st now' ctx' req' s' = Inr (s'', resp'')" using Inr by (cases y) simp
  have sup: "\<exists>r. lookup m_id i (memories (canon s')) = Some r \<and> m_status r = MS_superseded"
    and ok: "distinct (map m_id (memories (canon s')))" "tags_ok (canon s')"
  proof -
    obtain merged names "ids" where a: "accept_merge sha uuid_text st now ctx p (rq_patch req) (rq_expected_versions req) (canon s) = Inr (canon s', merged, names, ids)"
      by (rule accepted_merge_run [OF assms(1-4)])
    obtain pr cs where b: "merge_members (pr_payload p) = Inr (pr, cs)" "ids = pr # cs" "merged_into now (canon s) ids merged (canon s')"
      by (rule accept_merge_result [OF a assms(5,6)])
    have i: "i \<in> set ids" using assms(10,12) b(1,2) by simp
    then obtain r where r: "lookup m_id i (memories (canon s)) = Some r" using b(3) by (auto simp: merged_into_def)
    have "i \<noteq> m_id merged" using r b(3) by (auto simp: merged_into_def)
    then show "\<exists>r. lookup m_id i (memories (canon s')) = Some r \<and> m_status r = MS_superseded"
      using r i b(3) by (simp add: merged_into_def mark_superseded_def)
    show "distinct (map m_id (memories (canon s')))" "tags_ok (canon s')"
      by (rule accepted_merge_keeps [OF a assms(5,6)])+
  qed
  obtain merged names "ids" where a: "accept_merge sha uuid_text st now' ctx' q (rq_patch req') (rq_expected_versions req') (canon s') = Inr (canon s'', merged, names, ids)"
    by (rule accepted_merge_run [OF y assms(7-9)])
  obtain pr cs where b: "merge_members (pr_payload q) = Inr (pr, cs)" "ids = pr # cs" "merged_into now' (canon s') ids merged (canon s'')"
    by (rule accept_merge_result [OF a ok])
  have "i \<in> set ids" using assms(11,13) b(1,2) by simp
  then show ?thesis using sup b(3) by (force simp: merged_into_def)
qed simp

definition twin_two :: dream_db where
  "twin_two = twin_store\<lparr>dream_proposals := [twin_proposal, twin_proposal\<lparr>pr_id := 103, pr_dedupe_key := None,
     pr_payload := [(''primary_id'', JUuid 101), (''candidate_ids'', JList [JUuid 100])]\<rparr>]\<rparr>"

lemma twin_two_reviewed:
  "case dream_review (\<lambda>s. s) (\<lambda>i. ''u'') (\<lambda>t. None) no_refs notes_settings 11 notes_ctx (review_of 102 RA_accept) twin_two of
     Inl e \<Rightarrow> False
   | Inr (s', resp) \<Rightarrow> (case lookup pr_id 103 (dream_proposals s') of None \<Rightarrow> False | Some q \<Rightarrow> pr_kind q = PK_merge_candidate \<and>
       uuid_of_json (jget (pr_payload q) ''primary_id'') = Some 101 \<and> payload_uuids (pr_payload q) ''candidate_ids'' = Some [100])"
  by code_simp

lemma overlapping_merges_conflict_witness:
  "\<exists>s' e. dream_review (\<lambda>s. s) (\<lambda>i. ''u'') (\<lambda>t. None) no_refs notes_settings 12 notes_ctx (review_of 103 RA_accept) s' = Inl e"
proof -
  obtain s' resp q where r: "dream_review (\<lambda>s. s) (\<lambda>i. ''u'') (\<lambda>t. None) no_refs notes_settings 11 notes_ctx (review_of 102 RA_accept) twin_two = Inr (s', resp)"
      "lookup pr_id 103 (dream_proposals s') = Some q" "pr_kind q = PK_merge_candidate"
      "uuid_of_json (jget (pr_payload q) ''primary_id'') = Some 101" "payload_uuids (pr_payload q) ''candidate_ids'' = Some [100]"
    using twin_two_reviewed by (auto split: sum.splits prod.splits option.splits)
  have q: "merge_members (pr_payload q) = Inr (101, [100])" using r(4,5) by (simp add: merge_members_def)
  have l: "lookup pr_id (rq_proposal_id (review_of 102 RA_accept)) (dream_proposals twin_two) = Some twin_proposal"
      "lookup pr_id (rq_proposal_id (review_of 103 RA_accept)) (dream_proposals s') = Some q"
    using r(2) by (simp_all add: review_of_def twin_two_def twin_proposal_def new_proposal_def)
  have k: "pr_kind twin_proposal = PK_merge_candidate" "rq_action (review_of i RA_accept) = RA_accept" for i
    by (simp_all add: twin_proposal_def new_proposal_def review_of_def)
  have c: "canon twin_two = canon twin_open" by (simp add: twin_two_def twin_open_def)
  have m: "merge_members (pr_payload twin_proposal) = Inr (100, [101])" by code_simp
  have "\<exists>e. dream_review (\<lambda>s. s) (\<lambda>i. ''u'') (\<lambda>t. None) no_refs notes_settings 12 notes_ctx (review_of 103 RA_accept) s' = Inl e"
    by (rule overlapping_merges_conflict [OF r(1) l(1) k(1,2) _ _ l(2) r(3) k(2) m q, of 100]) (simp_all add: c twin_ids twin_tags)
  then show ?thesis by blast
qed

subsection \<open>Paging through the proposals\<close>

text \<open>A listing: how uuids are written, the caller, the request without its cursor, the tables. Cursors carry the
  fingerprint of the request, so they are paired with the listing they belong to.\<close>

type_synonym proposal_listing = "(uuid \<Rightarrow> string) \<times> agent_context \<times> proposals_list_request \<times> dream_db"

definition plisting_valid :: "proposal_listing \<Rightarrow> bool" where
  "plisting_valid x = (case x of (ut, ctx, req, s) \<Rightarrow> 0 < pl_limit req \<and> distinct (map pr_id (dream_proposals s)))"

definition plisting_rows :: "proposal_listing \<Rightarrow> dream_proposal list" where
  "plisting_rows x = (case x of (ut, ctx, req, s) \<Rightarrow>
     map proposal_to_entry (sort_key proposal_order (filter (proposal_filter req) (dream_proposals s))))"

definition plisting_limit :: "proposal_listing \<Rightarrow> nat" where
  "plisting_limit x = (case x of (ut, ctx, req, s) \<Rightarrow> pl_limit req)"

text \<open>The position a cursor stands for.\<close>

definition plisting_key :: "dream_proposal \<Rightarrow> time \<times> uuid" where
  "plisting_key p = (pr_created_at p, pr_id p)"

definition cursor_for :: "proposal_listing \<Rightarrow> time \<times> uuid \<Rightarrow> json option" where
  "cursor_for x k = (case x of (ut, ctx, req, s) \<Rightarrow> Some (JObj [(''created_at'', JTime (fst k)), (''id'', JUuid (snd k)),
     (''filters_hash'', JStr (filters_hash ut req))]))"

definition plisting_fetch :: "proposal_listing \<Rightarrow> (time \<times> uuid) option \<Rightarrow> dream_proposal list \<times> (time \<times> uuid) option" where
  "plisting_fetch x c = (case x of (ut, ctx, req, s) \<Rightarrow>
     (case dream_proposals_list ut ctx (req\<lparr>pl_cursor := map_option (cursor_for x) c\<rparr>) s of
        Inl _ \<Rightarrow> ([], None)
      | Inr page \<Rightarrow> (pp_items page, case pp_next_cursor page of None \<Rightarrow> None
          | Some t \<Rightarrow> (case decode_proposal_cursor (filters_hash ut req) t of Inl _ \<Rightarrow> None | Inr k \<Rightarrow> Some k))))"

lemma proposal_entry_fields [simp]:
  "pr_created_at (proposal_to_entry p) = pr_created_at p" "pr_id (proposal_to_entry p) = pr_id p"
  "plisting_key (proposal_to_entry p) = plisting_key p" "keyset_lt k (proposal_to_entry p) = keyset_lt k p"
  "proposal_order (proposal_to_entry p) = proposal_order p"
  by (simp_all add: proposal_to_entry_def plisting_key_def keyset_lt_def proposal_order_def)

lemma decode_proposal [simp]:
  "decode_proposal_cursor h (encode_proposal_cursor h p) = Inr (plisting_key p)"
  by (simp add: decode_proposal_cursor_def encode_proposal_cursor_def jget_def plisting_key_def)

lemma keyset_lt_order: "keyset_lt (plisting_key p) q \<longleftrightarrow> proposal_order p < proposal_order q"
  by (auto simp: keyset_lt_def plisting_key_def proposal_order_def less_prod_def')

lemma filters_hash_cursor [simp]: "filters_hash ut (req\<lparr>pl_cursor := c\<rparr>) = filters_hash ut req"
  by (simp add: filters_hash_def)

lemma proposal_filter_cursor [simp]: "proposal_filter (req\<lparr>pl_cursor := c\<rparr>) = proposal_filter req"
  by (simp add: proposal_filter_def fun_eq_iff)

lemma proposals_list_rows:
  assumes "(case pl_env_id req of None \<Rightarrow> Inr () | Some e \<Rightarrow> rbac_require ''read'' (Some e) ctx) = Inr ()"
    and "(case pl_cursor req of None \<Rightarrow> Inr (\<lambda>p. True)
      | Some c \<Rightarrow> bindE (decode_proposal_cursor (filters_hash ut req) c) (\<lambda>k. Inr (keyset_lt k))) = Inr after"
    and rows: "rows = filter after (sort_key proposal_order (filter (proposal_filter req) (dream_proposals s)))"
  shows "dream_proposals_list ut ctx req s =
    Inr \<lparr>pp_items = map proposal_to_entry (take (pl_limit req) rows),
      pp_next_cursor = (if pl_limit req < length rows \<and> take (pl_limit req) rows \<noteq> []
        then Some (encode_proposal_cursor (filters_hash ut req) (last (take (pl_limit req) rows))) else None)\<rparr>"
proof -
  have "sort_key proposal_order (filter (\<lambda>p. proposal_filter req p \<and> after p) (dream_proposals s)) = rows"
    by (simp add: rows filter_sort_key conj_commute)
  then show ?thesis by (auto simp: dream_proposals_list_def assms(1,2) Let_def simp del: length_sort)
qed

lemma plisting_page:
  assumes aft: "after = (case c of None \<Rightarrow> (\<lambda>p. True) | Some k \<Rightarrow> keyset_lt k)"
  shows "plisting_fetch (ut, ctx, req, s) c = keyset_page (pl_limit req) plisting_key
    (map proposal_to_entry (filter after (sort_key proposal_order (filter (proposal_filter req) (dream_proposals s)))))"
proof -
  let ?x = "(ut, ctx, req, s)"
  let ?req = "req\<lparr>pl_cursor := map_option (cursor_for ?x) c\<rparr>"
  define rows where "rows = filter after (sort_key proposal_order (filter (proposal_filter ?req) (dream_proposals s)))"
  have dec: "(case pl_cursor ?req of None \<Rightarrow> Inr (\<lambda>p. True)
      | Some c' \<Rightarrow> bindE (decode_proposal_cursor (filters_hash ut ?req) c') (\<lambda>k. Inr (keyset_lt k))) = Inr after"
    unfolding aft by (cases c) (simp_all add: cursor_for_def decode_proposal_cursor_def jget_def)
  have env: "(case pl_env_id ?req of None \<Rightarrow> Inr () | Some e \<Rightarrow> rbac_require ''read'' (Some e) ctx) = Inr ()"
    by (simp split: option.split)
  have "plisting_fetch ?x c = keyset_page (pl_limit req) plisting_key (map proposal_to_entry rows)"
    by (simp add: plisting_fetch_def proposals_list_rows [OF env dec rows_def] keyset_page_def take_map last_map)
  then show ?thesis by (simp add: rows_def)
qed

interpretation proposal_pages: keyset_pager plisting_valid plisting_rows plisting_limit plisting_key keyset_lt plisting_fetch
proof
  fix x :: proposal_listing
  obtain ut ctx req s where x: "x = (ut, ctx, req, s)" by (cases x)
  assume v: "plisting_valid x"
  let ?ps = "sort_key proposal_order (filter (proposal_filter req) (dream_proposals s))"
  have "distinct (map pr_id (filter (proposal_filter req) (dream_proposals s)))"
    using v x distinct_map_filter by (auto simp: plisting_valid_def)
  then have "distinct (map pr_id ?ps)" by (simp add: distinct_map)
  then have "distinct (map proposal_order ?ps)" by (auto simp: distinct_map inj_on_def proposal_order_def)
  then have "sorted_wrt (<) (map proposal_order ?ps)" by (simp add: strict_sorted_iff)
  then have "sorted_wrt (\<lambda>p q. proposal_order p < proposal_order q) ?ps" by (simp add: sorted_wrt_map)
  then show "sorted_wrt (\<lambda>r r'. keyset_lt (plisting_key r) r' \<and> \<not> keyset_lt (plisting_key r') r) (plisting_rows x)"
    by (auto simp: x plisting_rows_def sorted_wrt_map keyset_lt_order less_imp_not_less elim: sorted_wrt_mono_rel [rotated])
  show "0 < plisting_limit x" using v x by (simp add: plisting_valid_def plisting_limit_def)
  show "plisting_fetch x None = keyset_page (plisting_limit x) plisting_key (plisting_rows x)"
    using plisting_page [of "\<lambda>p. True" None ut ctx req s] v by (simp add: x plisting_limit_def plisting_rows_def)
  show "plisting_fetch x (Some (plisting_key r)) = keyset_page (plisting_limit x) plisting_key (filter (keyset_lt (plisting_key r)) (plisting_rows x))"
    if "r \<in> set (plisting_rows x)" for r
    using plisting_page [of "keyset_lt (plisting_key r)" "Some (plisting_key r)" ut ctx req s] v
    by (simp add: x plisting_limit_def plisting_rows_def filter_map o_def)
qed (simp add: keyset_lt_def plisting_key_def)

text \<open>Following the cursors of \<open>dream_proposals_list\<close> from the first page lists every proposal that matches the
  request exactly once, newest first, in pages of at most the requested size.\<close>

lemma proposal_pages_complete:
  assumes "plisting_valid (ut, ctx, req, s)" and "length (dream_proposals s) < n"
  shows "concat (walk_pages (plisting_fetch (ut, ctx, req, s)) n None) =
      map proposal_to_entry (sort_key proposal_order (filter (proposal_filter req) (dream_proposals s))) \<and>
    (\<forall>p \<in> set (walk_pages (plisting_fetch (ut, ctx, req, s)) n None). length p \<le> pl_limit req)"
proof -
  have "length (plisting_rows (ut, ctx, req, s)) < n"
    using assms(2) by (simp add: plisting_rows_def le_less_trans [OF length_filter_le])
  then show ?thesis
    using proposal_pages.walk_complete [OF assms(1)] by (simp add: plisting_rows_def plisting_limit_def)
qed

lemma proposal_pages_complete_witness:
  "concat (walk_pages (plisting_fetch (\<lambda>i. ''u'', notes_ctx, \<lparr>pl_env_id = None, pl_status = None, pl_kind = None,
     pl_summarizer_kind = None, pl_limit = 1, pl_cursor = None\<rparr>, twin_two)) 3 None) =
   map proposal_to_entry (sort_key proposal_order (dream_proposals twin_two))"
  (is "concat (walk_pages (plisting_fetch (?ut, ?ctx, ?req, ?s)) 3 None) = _")
proof -
  have "plisting_valid (?ut, ?ctx, ?req, ?s)" by (simp add: plisting_valid_def twin_two_def twin_proposal_def new_proposal_def)
  moreover have "length (dream_proposals ?s) < 3" by (simp add: twin_two_def)
  moreover have "filter (proposal_filter ?req) (dream_proposals ?s) = dream_proposals ?s" by (simp add: proposal_filter_def)
  ultimately show ?thesis using proposal_pages_complete [of ?ut ?ctx ?req ?s 3] by simp
qed

end
