(* ===== verification/DedupeText.thy ===== *)
theory DedupeText
  imports Proposals Handlers
begin

text \<open>
  What the dedupe pass knows of the text of a memory (\<open>memory_mcp/dream/passes/dedupe.py\<close>): it reads the other members
  of a cluster from the points of the vector index, whose payload the projection worker writes
  (\<open>projection_worker/handlers/qdrant.py\<close>), and that payload has no body.
\<close>

lemma qdrant_payload_no_body: "map_of (qdrant_payload e trig emb) ''body'' = None"
  by (simp add: qdrant_payload_def Let_def)

text \<open>A hit of the index is a point that the worker wrote.\<close>

definition projected :: "vector_hit \<Rightarrow> bool" where
  "projected h \<longleftrightarrow> (\<exists>e trig emb. vh_payload h = qdrant_payload e trig emb)"

definition index_projected :: "dream_services \<Rightarrow> bool" where
  "index_projected sv \<longleftrightarrow> (\<forall>env v n kind hits. dv_search sv env v n kind = Inr hits \<longrightarrow> list_all projected hits)"

text \<open>Only the seed has a text in a cluster.\<close>

definition only_seed_speaks :: "memory \<Rightarrow> cluster \<Rightarrow> bool" where
  "only_seed_speaks seed cl \<longleftrightarrow> seed_member seed \<in> fst ` set cl \<and> (\<forall>x \<in> set cl. fst x = seed_member seed \<or> mm_body (fst x) = [])"

lemma only_seed_speaks_add:
  assumes "only_seed_speaks seed cl" and "mm_body m = []" and "mm_memory_id m \<noteq> m_id seed"
  shows "only_seed_speaks seed (cluster_add cl m score)"
proof -
  have "fst x = seed_member seed \<Longrightarrow> mm_memory_id (fst x) \<noteq> mm_memory_id m" for x :: "merge_member \<times> real"
    using assms(3) by (simp add: seed_member_def)
  then show ?thesis using assms(1,2)
    by (force simp: only_seed_speaks_def cluster_add_def update_where_def image_iff split: option.splits if_splits)
qed

lemma cluster_hits_seed_speaks:
  "cluster_hits sv threshold seed hs cl = Inr cl' \<Longrightarrow> list_all projected hs \<Longrightarrow> only_seed_speaks seed cl \<Longrightarrow> only_seed_speaks seed cl'"
proof (induction hs arbitrary: cl)
  case (Cons h hs)
  consider "vh_id h = None" | "vh_id h = Some (m_id seed)" | i where "vh_id h = Some i" "i \<noteq> m_id seed" "vh_score h < threshold"
    | i where "vh_id h = Some i" "i \<noteq> m_id seed" "\<not> vh_score h < threshold"
    by (cases "vh_id h") auto
  then show ?case
  proof cases
    case 4
    then obtain m where m: "payload_to_member sv i (vh_payload h) (m_created_at seed) = Inr m"
        "cluster_hits sv threshold seed hs (cluster_add cl m (vh_score h)) = Inr cl'"
      using Cons.prems(1) by (auto elim!: bindE_InrE)
    have "map_of (vh_payload h) ''body'' = None"
      using Cons.prems(2) by (auto simp: projected_def qdrant_payload_no_body)
    then have "mm_body m = []" "mm_memory_id m = i" using m(1) by (auto simp: payload_to_member_def elim!: bindE_InrE)
    then show ?thesis using Cons.IH [OF m(2)] Cons.prems(2,3) 4(2) only_seed_speaks_add by simp
  qed (use Cons in simp_all)
qed simp

lemma cluster_seed_speaks:
  assumes "build_cluster_for_seed run seed = Inr (Some cl)"
    and "index_projected (pv_services run)"
  shows "only_seed_speaks seed cl"
proof -
  obtain v hits where h: "dv_search (pv_services run) (pv_env_id run) v (dream_dedupe_top_k (pv_settings run) + 1) (memory_kind_value (m_kind seed)) = Inr hits"
      "cluster_hits (pv_services run) (dream_dedupe_threshold (pv_settings run)) seed hits (cluster_add [] (seed_member seed) 1) = Inr cl"
    using assms(1) unfolding build_cluster_for_seed_def Let_def by (auto split: if_splits elim!: bindE_InrE)
  show ?thesis
    by (rule cluster_hits_seed_speaks [OF h(2)])
      (use h(1) assms(2) in \<open>simp_all add: index_projected_def only_seed_speaks_def cluster_add_def\<close>)
qed

subsection \<open>The longest text is the seed's\<close>

lemma max_by_in: "max_by f best xs \<in> set (best # xs)"
  by (induction xs arbitrary: best) (auto split: if_splits)

lemma max_by_ge: "x \<in> set (best # xs) \<Longrightarrow> f x \<le> f (max_by f best xs)"
proof (induction xs arbitrary: best x)
  case (Cons y ys)
  let ?b = "if f best < f y then y else best"
  have "f ?b \<le> f (max_by f ?b ys)" using Cons.IH [of ?b ?b] by simp
  moreover have "f best \<le> f ?b" "f y \<le> f ?b" by auto
  ultimately show ?case using Cons by (auto intro: order_trans)
qed simp

lemma longest_member_speaks:
  assumes "s \<in> set (m # ms)" and "mm_body s \<noteq> []" and "\<forall>x \<in> set (m # ms). x = s \<or> mm_body x = []"
  shows "longest_member m ms = s"
proof -
  let ?l = "longest_member m ms"
  have "(length (mm_body s), mm_created_at s) \<le> (length (mm_body ?l), mm_created_at ?l)"
    unfolding longest_member_def by (rule max_by_ge [OF assms(1)])
  then have "mm_body ?l \<noteq> []" using assms(2) by auto
  moreover have "?l \<in> set (m # ms)" unfolding longest_member_def by (rule max_by_in)
  ultimately show ?thesis using assms(3) by blast
qed

lemma template_merge_of_seed:
  assumes "only_seed_speaks seed cl" and "materialize_cluster cl = (c, ids)" and "m_body seed \<noteq> []"
  shows "su_title (template_merge c) = m_title seed \<and> su_body (template_merge c) = m_body seed"
proof -
  have members: "set (mg_members c) = fst ` set cl" using assms(2) by (force simp: materialize_cluster_def Let_def)
  have s: "seed_member seed \<in> set (mg_members c)" "\<forall>x \<in> set (mg_members c). x = seed_member seed \<or> mm_body x = []"
    using assms(1) by (auto simp: members only_seed_speaks_def)
  then obtain m ms where "mg_members c = m # ms" by (cases "mg_members c") auto
  moreover from this have "longest_member m ms = seed_member seed"
    using s assms(3) by (intro longest_member_speaks) (simp_all add: seed_member_def)
  ultimately show ?thesis by (simp add: template_merge_def seed_member_def)
qed

lemma merge_without_llm:
  assumes "sz = Template \<or> su_llm_failed (summarize_merge tf sz c)"
  shows "su_title (summarize_merge tf sz c) = su_title (template_merge c) \<and> su_body (summarize_merge tf sz c) = su_body (template_merge c)"
  using assms by (cases sz) (auto simp: llm_merge_def merge_fallback_def split: option.splits if_splits)

text \<open>C37: A merge that the dedupe pass proposes without a usable reply of a language model always suggests the title and
  the body of the seed the cluster was built for, however long the bodies of the other members are: the payloads the
  projection worker writes carry no body.\<close>

theorem dedupe_suggests_the_seed:
  assumes "run_dedupe run s = (s', res)" and "quiet run" and "p \<in> set (dream_proposals s')" and "p \<notin> set (dream_proposals s)"
    and "index_projected (pv_services run)"
    and "\<And>m. m \<in> set (memories (canon s)) \<Longrightarrow> m_body m \<noteq> []"
    and "dv_summarizer (pv_services run) = Template \<or> pr_llm_failed p"
  shows "\<exists>seed cl. seed \<in> set (memories (canon s)) \<and> build_cluster_for_seed run seed = Inr (Some cl) \<and>
    pr_dedupe_key p = Some (merge_key (snd (materialize_cluster cl))) \<and> 2 \<le> length cl \<and>
    jget (pr_payload p) ''suggested_merged_title'' = opt_json JStr (m_title seed) \<and>
    jget (pr_payload p) ''suggested_merged_body'' = JStr (m_body seed)"
proof -
  have "merge_made run (set (pass_seeds run s)) p"
    using run_dedupe_spec(1) [OF assms(2,1)] assms(3,4) by (auto simp: added_def)
  then obtain seed cl c "ids" su where seed: "seed \<in> set (pass_seeds run s)" "build_cluster_for_seed run seed = Inr (Some cl)"
      and m: "materialize_cluster cl = (c, ids)"
      and su: "su = summarize_merge (dv_format (pv_services run)) (dv_summarizer (pv_services run)) c"
      and p: "pr_payload p = merge_payload c ids su" "pr_llm_failed p = su_llm_failed su" "pr_dedupe_key p = Some (merge_key ids)"
    unfolding merge_made_def by blast
  have mem: "seed \<in> set (memories (canon s))" using seed(1) by (auto simp: seed_rows_def dest: in_set_takeD)
  have "su_title (template_merge c) = m_title seed \<and> su_body (template_merge c) = m_body seed"
    by (rule template_merge_of_seed [OF cluster_seed_speaks [OF seed(2) assms(5)] m assms(6) [OF mem]])
  then have "su_title su = m_title seed \<and> su_body su = m_body seed"
    using merge_without_llm [of "dv_summarizer (pv_services run)"] assms(7) su p(2) by metis
  then show ?thesis
    using mem seed(2) build_cluster_spec(2) [OF seed(2)] m p by (intro exI [of _ seed] exI [of _ cl]) (simp add: merge_payload_def jget_def)
qed

text \<open>The second memory has the longer body; the index returns its point as the worker wrote it.\<close>

definition long_event :: leased_event where
  "long_event = \<lparr>le_event_id = 1, le_sink = SK_qdrant, le_aggregate_type = AT_memory, le_aggregate_id = 101, le_aggregate_version = 1,
     le_env_id = 1, le_op = OP_upsert, le_payload = [(''title'', JStr ''L''), (''body'', JStr ''A longer body''), (''salience'', JReal 1)],
     le_attempt_count = 1, le_created_at = 5\<rparr>"

definition long_hit :: vector_hit where
  "long_hit = \<lparr>vh_id = Some 101, vh_score = 1,
     vh_payload = qdrant_payload long_event [] \<lparr>emb_model_id = ''e'', emb_dimension = 1, emb_embed_texts = (\<lambda>ts. Inr [[1]])\<rparr>\<rparr>"

definition long_run :: pass_run where
  "long_run = twin_run\<lparr>pv_services := twin_services\<lparr>dv_search := (\<lambda>env v n kind. Inr [long_hit])\<rparr>\<rparr>"

definition long_store :: dream_db where
  "long_store = twin_store\<lparr>canon := twin_db\<lparr>memories := [twin_memory 100, (twin_memory 101)\<lparr>m_title := Some ''L'', m_body := ''A longer body''\<rparr>]\<rparr>\<rparr>"

lemma long_run_proposes: "map (\<lambda>p. (pr_id p, pr_dedupe_key p)) (dream_proposals (fst (run_dedupe long_run long_store))) = [(102, Some (DK_merge [100, 101]))]"
  by code_simp

lemma long_quiet: "quiet long_run" and long_projected: "index_projected (pv_services long_run)"
  by (auto simp: quiet_def long_run_def twin_run_def index_projected_def projected_def long_hit_def)

lemma dedupe_suggests_the_seed_witness:
  "\<exists>p \<in> set (dream_proposals (fst (run_dedupe long_run long_store))). \<exists>seed \<in> set (memories (canon long_store)).
     jget (pr_payload p) ''suggested_merged_body'' = JStr (m_body seed)"
proof -
  let ?s = "fst (run_dedupe long_run long_store)"
  obtain p where p: "p \<in> set (dream_proposals ?s)" using long_run_proposes by fastforce
  have "run_dedupe long_run long_store = (?s, snd (run_dedupe long_run long_store))" by simp
  moreover have "p \<notin> set (dream_proposals long_store)" by (simp add: long_store_def twin_store_def)
  moreover have "m \<in> set (memories (canon long_store)) \<Longrightarrow> m_body m \<noteq> []" for m
    by (auto simp: long_store_def twin_db_def twin_memory_def new_memory_def notes_write_def)
  moreover have "dv_summarizer (pv_services long_run) = Template \<or> pr_llm_failed p"
    by (simp add: long_run_def twin_services_def)
  ultimately show ?thesis
    using dedupe_suggests_the_seed [OF _ long_quiet p _ long_projected] p by blast
qed

text \<open>In that run the suggestion is the short text.\<close>

lemma long_run_keeps_the_short_text:
  "map (\<lambda>p. jget (pr_payload p) ''suggested_merged_body'') (dream_proposals (fst (run_dedupe long_run long_store))) = [JStr ''B'']"
  by code_simp

end
