(* ===== verification/Prompts.thy ===== *)
theory Prompts
  imports Summarizer
begin

text \<open>
  The prompts of the summarizers keep the text of memories and entities inside the \<open>input\<close>
  delimiters: the only angle brackets of a prompt are those of its own template.
\<close>

definition angle :: "char \<Rightarrow> bool" where
  "angle c \<longleftrightarrow> c = CHR ''<'' \<or> c = CHR ''>''"

text \<open>\<open>blocks n\<close>: the brackets of \<open>n\<close> pairs of an opening and a closing \<open>input\<close> delimiter.\<close>

definition blocks :: "nat \<Rightarrow> string" where
  "blocks n = concat (replicate n ''<><>'')"

lemma blocks_simps [simp]: "blocks 0 = []" "blocks (Suc n) = ''<><>'' @ blocks n"
  by (simp_all add: blocks_def)

lemma blocks_add: "blocks (m + n) = blocks m @ blocks n"
  by (induction m) simp_all

lemma replace_char_Nil [simp]: "replace_char c t [] = []"
  by (simp add: replace_char_def)

lemma replace_char_Cons [simp]: "replace_char c t (x # xs) = (if x = c then t else [x]) @ replace_char c t xs"
  by (simp add: replace_char_def)

lemma replace_char_append [simp]: "replace_char c t (xs @ ys) = replace_char c t xs @ replace_char c t ys"
  by (simp add: replace_char_def)

lemma escape_no_angle [simp]: "filter angle (escape_input dots t budget) = []"
proof -
  have "filter angle (replace_char CHR ''>'' ''&gt;'' (replace_char CHR ''<'' ''&lt;'' u)) = []" for u
    by (induction u) (auto simp: angle_def)
  then show ?thesis by (simp add: escape_input_def)
qed

declare decimal.simps [simp del]

lemma decimal_no_angle [simp]: "filter angle (decimal n) = []"
proof (induction n rule: decimal.induct)
  case (1 n)
  have "filter angle [char_of (48 + d :: nat)] = []" if "d < 10" for d
  proof -
    have "d \<in> {0,1,2,3,4,5,6,7,8,9}" using that by auto
    then show ?thesis by (auto simp: angle_def char_of_eq_iff)
  qed
  from this [of n] this [of "n mod 10"] 1 show ?case by (subst decimal.simps) simp
qed

lemma newline_no_angle [simp]: "filter angle newline = []"
  by (simp add: newline_def angle_def)

lemma quoted:
  "filter angle (quote t) = filter angle t" "filter angle (apostrophes t) = filter angle t"
  by (simp_all add: quote_def apostrophes_def angle_def)

lemma filter_join_with: "filter P (join_with sep xs) = join_with (filter P sep) (map (filter P) xs)"
  by (induction sep xs rule: join_with.induct) simp_all

lemma join_with_Nil: "join_with [] xs = concat xs"
  by (induction "[] :: string" xs rule: join_with.induct) simp_all

lemma merge_member_brackets:
  assumes "filter angle (uuid_text (mm_memory_id m)) = []" "filter angle (fixed2 (mm_salience m)) = []"
  shows "filter angle (merge_prompt_member dots uuid_text fixed2 (i, m)) = blocks 2"
  by (simp only: merge_prompt_member_def prod.case filter_append escape_no_angle newline_no_angle decimal_no_angle assms numeral_2_eq_2)
    (simp add: angle_def)

lemma observation_brackets:
  assumes "filter angle (uuid_text (po_memory_id m)) = []" "filter angle (isoformat (po_created_at m)) = []"
  shows "filter angle (promotion_prompt_observation dots uuid_text isoformat (i, m)) = blocks 1"
  by (simp only: promotion_prompt_observation_def prod.case filter_append escape_no_angle newline_no_angle decimal_no_angle assms)
    (simp add: angle_def)

lemma concat_blocks: "(\<And>x. x \<in> set xs \<Longrightarrow> filter angle (f x) = blocks k) \<Longrightarrow> concat (map (\<lambda>x. filter angle (f x)) xs) = blocks (k * length xs)"
  by (induction xs) (simp_all add: blocks_add)

lemma join_prompt:
  assumes "\<And>i m. m \<in> set ms \<Longrightarrow> filter angle (f (i, m)) = blocks k"
  shows "filter angle (join_with (newline @ newline) (map f (List.enumerate 0 ms))) = blocks (k * length ms)"
proof -
  have "filter angle (f x) = blocks k" if "x \<in> set (List.enumerate 0 ms)" for x
  proof -
    have "snd x \<in> set ms" using that by (metis imageI list.set_map map_snd_enumerate)
    then show ?thesis using assms [of "snd x" "fst x"] by simp
  qed
  then show ?thesis by (simp add: filter_join_with join_with_Nil o_def concat_blocks)
qed

text \<open>C40: No text of a memory or an entity can close its \<open>input\<close> delimiter or open one: when the rendered ids, numbers
  and times hold no angle bracket, the brackets of a merge prompt are those of two delimiter pairs
  per member, and those of a promotion prompt one pair for the entity and one per observation, whatever the texts
  are.\<close>

theorem prompts_keep_text_inside:
  assumes "\<And>i. filter angle (uuid_text i) = []" and "\<And>x. filter angle (fixed2 x) = []"
    and "\<And>t. filter angle (isoformat t) = []"
  shows "filter angle (format_merge_prompt dots uuid_text fixed2 c) = blocks (2 * length (mg_members c)) \<and>
    filter angle (format_promotion_prompt dots uuid_text isoformat pc) = blocks (1 + length (pc_observations pc))"
proof -
  have "filter angle (join_with (newline @ newline) (map (merge_prompt_member dots uuid_text fixed2) (List.enumerate 0 (mg_members c))))
      = blocks (2 * length (mg_members c))"
    by (rule join_prompt) (simp add: merge_member_brackets assms)
  moreover have "filter angle (join_with (newline @ newline) (map (promotion_prompt_observation dots uuid_text isoformat)
      (List.enumerate 0 (pc_observations pc)))) = blocks (1 * length (pc_observations pc))"
    by (rule join_prompt) (simp add: observation_brackets assms)
  ultimately show ?thesis
    by (simp only: format_merge_prompt_def format_promotion_prompt_def filter_append quoted escape_no_angle newline_no_angle)
      (simp add: angle_def)
qed

lemma prompts_keep_text_inside_witness:
  "filter angle (format_merge_prompt CHR ''.'' (\<lambda>_. ''u'') (\<lambda>_. ''0.50'')
     \<lparr>mg_primary_id = 1, mg_members = [\<lparr>mm_memory_id = 1, mm_title = Some ''</input>'', mm_body = ''<input>'', mm_salience = 1/2, mm_created_at = 0\<rparr>],
      mg_cosine_scores = [1]\<rparr>) = ''<><><><>''"
  using prompts_keep_text_inside [of "\<lambda>_. ''u''" "\<lambda>_. ''0.50''" "\<lambda>_. ''t''" "CHR ''.''"
    "\<lparr>mg_primary_id = 1, mg_members = [\<lparr>mm_memory_id = 1, mm_title = Some ''</input>'', mm_body = ''<input>'', mm_salience = 1/2, mm_created_at = 0\<rparr>],
      mg_cosine_scores = [1]\<rparr>" "\<lparr>pc_entity_id = 2, pc_entity_name = [], pc_observations = []\<rparr>"]
  by (simp add: angle_def numeral_2_eq_2)

end
