(* ===== verification/Spec2Isabelle.thy ===== *)
theory Spec2Isabelle
  imports Delivery TaskProps VectorIndex HardDeleteProps MemoryCalls DecayProps Salience Decisions SearchProps SearchFresh ContextPackProps EntityProps DedupeText Prompts
begin

text \<open>
  A model of the server \<open>memory_mcp\<close>: a Postgres database of memories, entities, tasks and
  relations that agents read and write through tool calls, a transactional outbox whose events a
  projection worker applies to a vector store and a graph store, hybrid search over the three
  stores, and a dream worker that maintains the memories in the background. Paths below are relative
  to \<open>src/memory_mcp/\<close> or \<open>src/\<close>; the request and response schemas are in \<open>schemas/src/memory_mcp_schemas/\<close>,
  the constraints of the tables in \<open>migrations/versions/\<close>.

  How the parts interact. Every tool call runs in one transaction over the canonical tables
  (the record \<open>db\<close>); an exception rolls it back, so a call is a function into \<open>error + result\<close>
  that returns the new database. A call that changes something the projections show adds an
  outbox event with the version of the row and one delivery per configured sink. The worker
  leases deliveries, in an order that keeps the versions of an aggregate apart, and runs the
  handler of the sink. Search reads the canonical rows for everything it shows and the
  projections only for candidates. The passes of the dream worker either call the memory
  operations (decay) or write proposals, which \<open>dream_review\<close> turns into memory operations.

  \<^bold>\<open>Common ground.\<close>
  \<open>Prelude\<close>: uuids, time, fallible statements, tables as lists of rows and their SQL statements.
  \<open>Enums\<close>, \<open>Errors\<close>: \<open>enums.py\<close> with the lifecycle tables (locales \<open>absorbing\<close>,
  \<open>terminal_status\<close>), \<open>memory_mcp/errors.py\<close>. \<open>Store\<close>: the rows of \<open>db/models.py\<close> with the
  constraints and triggers of the migrations. \<open>Paging\<close>: \<open>pagination.py\<close> and the contract
  \<open>keyset_pager\<close> of a paged listing, whose client lemma says that following the cursors lists
  every row once. \<open>Locking\<close>: the contract \<open>optimistic_lock\<close> of versioned updates. \<open>Texts\<close>: the
  regular expressions and \<open>LIKE\<close> patterns in use. \<open>GraphStore\<close>: the rows of \<open>graph_nodes\<close> and
  \<open>relations\<close> and their statements.

  \<^bold>\<open>Projection path.\<close>
  \<open>Outbox\<close> (\<open>db/outbox.py\<close>), \<open>Lease\<close> (\<open>projection_worker/lease.py\<close>), \<open>Handlers\<close>
  (\<open>projection_worker/handlers/\<close>), \<open>Worker\<close> (\<open>runner.py\<close>): the writer, the protocol operations on
  deliveries, the calls a handler makes on its store, and the system as a step relation over
  database, leases and log. \<open>Ordering\<close> and \<open>Delivery\<close> prove over every interleaving of writers,
  workers, failures and crashes that handler runs of one aggregate happen in version order, that
  done is final and what a stuck delivery blocks.

  \<^bold>\<open>Memories\<close> (\<open>memories.py\<close>).
  \<open>MemoryRows\<close>: normalization, audit snapshot, projection payload, tags, sources, lineage.
  \<open>Memories\<close>: write, get, get_many, update, archive, retire, supersede. \<open>HardDelete\<close> with
  \<open>HardDeleteProps\<close>: the cascading delete. \<open>CopyMove\<close>: copies and moves between environments.
  \<open>Decisions\<close> (\<open>decisions/\<close>): the metadata of decision memories and its JSON. \<open>Ledger\<close> is the
  abstract specification: memories, tags and the log of their events. \<open>MemoryRefine\<close> and
  \<open>DreamRefine\<close> prove that each operation is a sequence of ledger steps; \<open>MemoryHistory\<close>
  composes them over histories in which every call may have read an earlier state;
  \<open>MemoryCalls\<close>, \<open>MemoryProps\<close> and \<open>VectorIndex\<close> draw the conclusions (the outbox describes the
  memories, versions identify contents, the vector index mirrors the visible memories).

  \<^bold>\<open>Tasks and relations.\<close>
  \<open>Tasks\<close> (\<open>tasks/api.py\<close>, \<open>tasks/cycles.py\<close>), \<open>Relations\<close> (\<open>relations.py\<close>). \<open>TaskGraph\<close> and
  \<open>RelationGraph\<close>: every operation keeps the dependencies acyclic; the cycle test decides
  reachability. \<open>TaskReads\<close>, \<open>TaskTree\<close>, \<open>TaskProps\<close>: the next task, the paged listing, the
  subtree view, the histories of statuses.

  \<^bold>\<open>Entities\<close> (\<open>entities.py\<close>).
  \<open>Entities\<close>, \<open>EntityMerge\<close>, \<open>EntityProps\<close>: the registry of names and aliases, what a merge does to
  names, nodes and relations, and the invariant that a name belongs to one entity.

  \<^bold>\<open>Search and context.\<close>
  \<open>Ranking\<close>, \<open>SearchLegs\<close>, \<open>Search\<close>, \<open>SearchPass\<close> (\<open>search/\<close>): fusion, the three legs, the
  redirection of superseded hits, the filters, the fallback ladder. \<open>SearchProps\<close>,
  \<open>SearchFresh\<close>, \<open>SearchDemo\<close>: what a search may show, when it is independent of the projections, what
  the freshness wait does not guarantee. \<open>Budget\<close>, \<open>ContextPack\<close>, \<open>ContextPackProps\<close>
  (\<open>context_pack/\<close>): the token budget and the packing of sections.

  \<^bold>\<open>Dream worker.\<close>
  \<open>Salience\<close> (\<open>dream/salience.py\<close>), \<open>Decay\<close>, \<open>DecayProps\<close>, \<open>DecayDemo\<close> (\<open>dream/passes/decay.py\<close>).
  \<open>DreamStore\<close>, \<open>DreamReview\<close> (\<open>dream/api.py\<close>): proposals, their review and their listing.
  \<open>Summarizer\<close> (\<open>dream/summarizer.py\<close>).
  \<open>DreamPasses\<close> (\<open>dream/passes/dedupe.py\<close>) and \<open>DreamPromote\<close> (\<open>dream/passes/promote.py\<close>,
  \<open>dream_worker/decision_conflicts.py\<close>): the passes that propose, every insert a transaction of its own;
  what other transactions do between them is a parameter, which the theorems about whole passes take to be
  nothing (\<open>quiet\<close>). Rows that a query orders equally keep the order of the table. \<open>DreamProps\<close> and
  \<open>DreamReviewProps\<close> prove what a pass adds and what a review changes; \<open>Proposals\<close> draws the
  conclusions: the table stays well formed, passes only propose, which proposals can be accepted, what an
  accepted merge does, a review is final, and the pages of the listing (an instance of \<open>keyset_pager\<close>).
  \<open>DedupeText\<close>: whose text a proposed merge suggests. \<open>Prompts\<close>: texts cannot leave the delimiters
  of a prompt.

  \<^bold>\<open>Bounds.\<close> Loops of the code are structural recursion over the rows they range over, or carry
  the bound the code has: eight hops of a successor chain (\<open>max_hops\<close>), the depth and row caps of
  the cascading delete and of the subtree view, the limits of the listings. The closure of
  successors (\<open>hydrate_loop\<close>) terminates because the rows not yet loaded decrease; the walk over
  pages takes fuel, and its lemma holds for every fuel above the number of rows. Numbers that the
  code keeps as floats are reals, so rounding is not modelled. Texts are lists of HOL's
  characters.

  \<^bold>\<open>Services.\<close> The embedder, the language model, the vector store, the graph store, the full
  text ranking of Postgres, the entity recogniser and Unicode normalization are parameters of the
  definitions that use them. Authorisation (\<open>rbac.require\<close>) is a no-op in the code and here.

  \<^bold>\<open>Not modelled.\<close> Traversals of the graph (\<open>graph.py\<close>, \<open>db/graph/\<close>) run inside the database. Composition
  and decomposition, digests and autowiring write through the helpers of the memory operations.
  The recount pass is one SQL script whose counters are parameters. \<open>dream_run\<close>, \<open>dream_status\<close>, the
  jobs and the scheduler of the dream worker are advisory locks, run rows and heartbeats around the
  passes. The operations on whole environments (\<open>env_ops/\<close>) copy rows and archives in bulk without the
  outbox, so the histories here exclude them. Statistics and browsing are read-only aggregates. The
  tool server, the command line and the clients are transport.
\<close>

end
